(* ===== verification/Pmci_Prelude.thy ===== *)
theory Pmci_Prelude
  imports Main "HOL-Library.Word"
begin

text \<open>
  Shared vocabulary of the development: the machine integers the daemons use, the error
  codes they throw, \<open>std::map\<close> as an association list kept in key order, little-endian
  and big-endian reads of byte buffers, and the two generic interfaces every component
  uses: an ordered map and a state machine with an invariant.
\<close>

section \<open>Types\<close>

type_synonym byte = "8 word"
type_synonym u16 = "16 word"
type_synonym u32 = "32 word"
type_synonym u64 = "64 word"

text \<open>\<open>mctp_eid_t\<close> and \<open>pldm_tid_t\<close> are \<open>uint8_t\<close>.\<close>

type_synonym eid = byte
type_synonym tid = byte

text \<open>The \<open>std::errc\<close> values that the daemons wrap into \<open>std::system_error\<close>.\<close>

datatype errc =
    address_not_available
  | invalid_argument
  | connection_aborted
  | timed_out
  | no_message_available
  | function_not_supported
  | not_enough_memory
  | operation_not_permitted
  | no_such_file_or_directory

section \<open>Calls to libmctp\<close>

text \<open>
  The arguments of one call to \<open>mctp\_message\_tx\<close>. Its return code belongs to libmctp and
  the bus: it is given by an oracle that may depend on all earlier calls.
\<close>

record tx_call =
  tx_dest :: eid
  tx_payload :: "byte list"
  tx_owner :: bool
  tx_tag :: byte
  tx_private :: "byte list"

type_synonym tx_oracle = "tx_call list \<Rightarrow> tx_call \<Rightarrow> int"

section \<open>Collections of rewrite rules\<close>

named_theorems smap_simps \<open>lookups in updated ordered maps\<close>
named_theorems literal_lists \<open>lists at literal positions\<close>
named_theorems inv_intros \<open>operations keep their component's invariant\<close>

section \<open>Ordered maps\<close>

text \<open>
  \<open>std::map\<close> iterates in key order and \<open>begin()\<close> is the entry with the least key. It is
  an association list sorted strictly by key. \<open>map_emplace\<close> is \<open>emplace\<close>/\<open>insert\<close>, which
  leaves an existing entry alone; \<open>map_assign\<close> is \<open>m[k] = v\<close>; \<open>map_erase\<close> is \<open>erase(k)\<close>;
  \<open>find\<close> is \<open>map_of\<close>.
\<close>

fun map_emplace :: "'k::linorder \<Rightarrow> 'v \<Rightarrow> ('k \<times> 'v) list \<Rightarrow> ('k \<times> 'v) list" where
  "map_emplace k v [] = [(k, v)]"
| "map_emplace k v ((k', v') # m) =
     (if k < k' then (k, v) # (k', v') # m
      else if k = k' then (k', v') # m
      else (k', v') # map_emplace k v m)"

fun map_assign :: "'k::linorder \<Rightarrow> 'v \<Rightarrow> ('k \<times> 'v) list \<Rightarrow> ('k \<times> 'v) list" where
  "map_assign k v [] = [(k, v)]"
| "map_assign k v ((k', v') # m) =
     (if k < k' then (k, v) # (k', v') # m
      else if k = k' then (k, v) # m
      else (k', v') # map_assign k v m)"

definition map_erase :: "'k \<Rightarrow> ('k \<times> 'v) list \<Rightarrow> ('k \<times> 'v) list" where
  "map_erase k m = filter (\<lambda>p. fst p \<noteq> k) m"

definition smap :: "('k::linorder \<times> 'v) list \<Rightarrow> bool" where
  "smap m \<longleftrightarrow> sorted_wrt (<) (map fst m)"

lemma smap_Nil [simp]: "smap []"
  by (simp add: smap_def)

lemma smap_Cons: "smap ((k, v) # m) \<longleftrightarrow> smap m \<and> (\<forall>p \<in> set m. k < fst p)"
  by (auto simp: smap_def)

lemma smap_distinct: "smap m \<Longrightarrow> distinct (map fst m)"
  by (simp add: smap_def strict_sorted_iff)

lemma map_of_min: "(\<forall>p \<in> set m. k < fst p) \<Longrightarrow> map_of m (k::'k::linorder) = None"
  by (force simp: map_of_eq_None_iff)

lemma map_of_emplace [smap_simps]:
  "smap m \<Longrightarrow> map_of (map_emplace k v m) x =
     (if x = k \<and> map_of m k = None then Some v else map_of m x)"
proof (induction m)
  case (Cons p m)
  obtain k' v' where p: "p = (k', v')" by force
  from Cons.prems p have "smap m" and k': "\<forall>q \<in> set m. k' < fst q"
    by (auto simp: smap_Cons)
  moreover from k' have "k < k' \<Longrightarrow> map_of m k = None"
    by (intro map_of_min) force
  ultimately show ?case
    using Cons.IH p by auto
qed simp

lemma map_of_assign [smap_simps]:
  "smap m \<Longrightarrow> map_of (map_assign k v m) x = (if x = k then Some v else map_of m x)"
proof (induction m)
  case (Cons p m)
  obtain k' v' where p: "p = (k', v')" by force
  from Cons.prems p have "smap m" by (simp add: smap_Cons)
  with Cons.IH p show ?case by auto
qed simp

lemma map_of_erase [smap_simps]: "map_of (map_erase k m) x = (if x = k then None else map_of m x)"
  by (induction m) (auto simp: map_erase_def)

lemma set_emplace_subset: "set (map_emplace k v m) \<subseteq> insert (k, v) (set m)"
  by (induction m) (auto split: if_splits)

lemma set_assign_subset: "set (map_assign k v m) \<subseteq> insert (k, v) (set m)"
  by (induction m) (auto split: if_splits)

lemma smap_emplace: "smap m \<Longrightarrow> smap (map_emplace k v m)"
proof (induction m)
  case (Cons p m)
  obtain k' v' where p: "p = (k', v')" by force
  from Cons p show ?case
    using set_emplace_subset [of k v m] by (auto simp: smap_Cons)
qed (simp add: smap_def)

lemma smap_assign: "smap m \<Longrightarrow> smap (map_assign k v m)"
proof (induction m)
  case (Cons p m)
  obtain k' v' where p: "p = (k', v')" by force
  from Cons p show ?case
    using set_assign_subset [of k v m] by (auto simp: smap_Cons)
qed (simp add: smap_def)

lemma smap_erase: "smap m \<Longrightarrow> smap (map_erase k m)"
  by (induction m) (auto simp: map_erase_def smap_def)

lemma map_erase_absent: "map_of m k = None \<Longrightarrow> map_erase k m = m"
  by (induction m) (auto simp: map_erase_def split: if_splits)

text \<open>The interface the clients of \<open>std::map\<close> rely on.\<close>

locale ordered_map =
  fixes find :: "'m \<Rightarrow> 'k \<Rightarrow> 'v option"
    and emplace :: "'k \<Rightarrow> 'v \<Rightarrow> 'm \<Rightarrow> 'm"
    and assign :: "'k \<Rightarrow> 'v \<Rightarrow> 'm \<Rightarrow> 'm"
    and erase :: "'k \<Rightarrow> 'm \<Rightarrow> 'm"
    and ok :: "'m \<Rightarrow> bool"
  assumes find_emplace: "ok m \<Longrightarrow> find (emplace k v m) x =
            (if x = k \<and> find m k = None then Some v else find m x)"
    and find_assign: "ok m \<Longrightarrow> find (assign k v m) x = (if x = k then Some v else find m x)"
    and find_erase: "ok m \<Longrightarrow> find (erase k m) x = (if x = k then None else find m x)"
    and ok_emplace: "ok m \<Longrightarrow> ok (emplace k v m)"
    and ok_assign: "ok m \<Longrightarrow> ok (assign k v m)"
    and ok_erase: "ok m \<Longrightarrow> ok (erase k m)"
begin

lemma emplace_keeps: "ok m \<Longrightarrow> find m x = Some w \<Longrightarrow> find (emplace k v m) x = Some w"
  by (auto simp: find_emplace)

lemma emplace_fresh: "ok m \<Longrightarrow> find m k = None \<Longrightarrow> find (emplace k v m) k = Some v"
  by (simp add: find_emplace)

lemma dom_emplace: "ok m \<Longrightarrow> dom (find (emplace k v m)) = insert k (dom (find m))"
  by (auto simp: dom_def find_emplace split: if_splits)

lemma dom_assign: "ok m \<Longrightarrow> dom (find (assign k v m)) = insert k (dom (find m))"
  by (auto simp: dom_def find_assign)

lemma dom_erase: "ok m \<Longrightarrow> dom (find (erase k m)) = dom (find m) - {k}"
  by (auto simp: dom_def find_erase split: if_splits)

end

interpretation std_map: ordered_map map_of map_emplace map_assign map_erase smap
  by unfold_locales (simp_all add: smap_simps smap_emplace smap_assign smap_erase)

section \<open>State machines with an invariant\<close>

fun run :: "('s \<Rightarrow> 'e \<Rightarrow> 's) \<Rightarrow> 's \<Rightarrow> 'e list \<Rightarrow> 's" where
  "run step s [] = s"
| "run step s (e # es) = run step (step s e) es"

fun admissible :: "('s \<Rightarrow> 'e \<Rightarrow> 's) \<Rightarrow> ('s \<Rightarrow> 'e \<Rightarrow> bool) \<Rightarrow> 's \<Rightarrow> 'e list \<Rightarrow> bool" where
  "admissible step enabled s [] = True"
| "admissible step enabled s (e # es) = (enabled s e \<and> admissible step enabled (step s e) es)"

lemma admissible_True [simp]: "admissible step (\<lambda>_ _. True) s es"
  by (induction es arbitrary: s) auto

lemma run_append: "run step s (es @ fs) = run step (run step s es) fs"
  by (induction es arbitrary: s) auto

text \<open>
  A component is a start state, a step function over its events, the events its
  environment may produce and an invariant that every step keeps.
\<close>

locale machine =
  fixes start :: "'s"
    and step :: "'s \<Rightarrow> 'e \<Rightarrow> 's"
    and enabled :: "'s \<Rightarrow> 'e \<Rightarrow> bool"
    and inv :: "'s \<Rightarrow> bool"
  assumes inv_start: "inv start"
    and inv_step: "inv s \<Longrightarrow> enabled s e \<Longrightarrow> inv (step s e)"
begin

lemma inv_run_from: "inv s \<Longrightarrow> admissible step enabled s es \<Longrightarrow> inv (run step s es)"
  by (induction es arbitrary: s) (auto intro: inv_step)

lemma inv_run: "admissible step enabled start es \<Longrightarrow> inv (run step start es)"
  using inv_start by (rule inv_run_from)

end

section \<open>Integers in byte buffers\<close>

text \<open>
  The daemons run on a little-endian BMC: reading a \<open>uint16_t\<close> or \<open>uint32_t\<close> through a
  cast pointer takes the first byte as the least significant one.
\<close>

definition le16 :: "byte \<Rightarrow> byte \<Rightarrow> u16" where
  "le16 b0 b1 = (ucast b0 :: u16) + push_bit 8 (ucast b1)"

definition le32 :: "byte \<Rightarrow> byte \<Rightarrow> byte \<Rightarrow> byte \<Rightarrow> u32" where
  "le32 b0 b1 b2 b3 = (ucast b0 :: u32) + push_bit 8 (ucast b1) + push_bit 16 (ucast b2)
     + push_bit 24 (ucast b3)"

definition byte_swap16 :: "u16 \<Rightarrow> u16" where
  "byte_swap16 w = push_bit 8 w + drop_bit 8 w"

definition read16 :: "byte list \<Rightarrow> nat \<Rightarrow> u16" where
  "read16 bs i = le16 (bs ! i) (bs ! Suc i)"

definition read32 :: "byte list \<Rightarrow> nat \<Rightarrow> u32" where
  "read32 bs i = le32 (bs ! i) (bs ! (i + 1)) (bs ! (i + 2)) (bs ! (i + 3))"

lemma byte_less: "unat (b::byte) < 256"
  using unsigned_less [of b, where ?'a = nat] by simp

lemma u16_less: "unat (w::u16) < 65536"
  using unsigned_less [of w, where ?'a = nat] by simp

lemma u32_less: "unat (w::u32) < 4294967296"
  using unsigned_less [of w, where ?'a = nat] by simp

lemma unat_byte_u16 [simp]: "unat (ucast (b::byte) :: u16) = unat b"
  using byte_less [of b] by (simp add: unsigned_ucast_eq take_bit_eq_mod)

lemma unat_byte_u32 [simp]: "unat (ucast (b::byte) :: u32) = unat b"
  using byte_less [of b] by (simp add: unsigned_ucast_eq take_bit_eq_mod)

section \<open>Lists at literal positions\<close>

lemma replicate_numeral [literal_lists]: "replicate (numeral k) x = x # replicate (pred_numeral k) x"
  by (simp add: numeral_eq_Suc)

lemma list_update_Cons_numeral [literal_lists]: "(x # xs)[numeral k := y] = x # xs[pred_numeral k := y]"
  by (simp add: numeral_eq_Suc)

end
