(* ===== verification/Eid_Pool.thy ===== *)
theory Eid_Pool
  imports Pmci_Prelude
begin

text \<open>
  The bus owner's pool of endpoint ids, \<open>mctpd::EidPool\<close>
  (mctpd/src/utils/eid\_pool.cpp): a vector of (EID, assigned) pairs. Allocation takes the
  first unassigned entry; a status update moves the entry to the back, so that free EIDs
  are reused in FIFO order.
\<close>

section \<open>Model\<close>

type_synonym eid_pool = "(eid \<times> bool) list"

text \<open>The argument is a \<open>std::set\<close>, which iterates in increasing order.\<close>

definition initializeEidPool :: "eid set \<Rightarrow> eid_pool \<Rightarrow> eid_pool" where
  "initializeEidPool pool p = p @ map (\<lambda>epId. (epId, False)) (sorted_list_of_set pool)"

definition updateEidStatus :: "eid \<Rightarrow> bool \<Rightarrow> eid_pool \<Rightarrow> eid_pool" where
  "updateEidStatus endpointId assigned p =
     (let prevSize = length p;
          p' = filter (\<lambda>eidPair. fst eidPair \<noteq> endpointId) p;
          eidPresent = (prevSize > length p')
      in if eidPresent then p' @ [(endpointId, assigned)] else p')"

text \<open>The range-for loop: the first unassigned entry is marked in place and returned.\<close>

fun getAvailableEidFromPool :: "eid_pool \<Rightarrow> (errc + eid) \<times> eid_pool" where
  "getAvailableEidFromPool [] = (Inl address_not_available, [])"
| "getAvailableEidFromPool ((e, eidAssignedStatus) # p) =
     (if \<not> eidAssignedStatus then (Inr e, (e, True) # p)
      else (let (r, p') = getAvailableEidFromPool p in (r, (e, eidAssignedStatus) # p')))"

section \<open>What the pool promises\<close>

text \<open>
  Abstractly the pool is a queue of free EIDs and a set of assigned ones.
\<close>

definition free_eids :: "eid_pool \<Rightarrow> eid list" where
  "free_eids p = map fst (filter (\<lambda>x. \<not> snd x) p)"

definition used_eids :: "eid_pool \<Rightarrow> eid set" where
  "used_eids p = {e. (e, True) \<in> set p}"

definition pool_inv :: "eid_pool \<Rightarrow> bool" where
  "pool_inv p \<longleftrightarrow> distinct (map fst p)"

lemma free_eids_simps [simp]:
  "free_eids [] = []"
  "free_eids ((e, b) # p) = (if b then free_eids p else e # free_eids p)"
  "free_eids (p @ q) = free_eids p @ free_eids q"
  by (simp_all add: free_eids_def)

lemma used_eids_simps [simp]:
  "used_eids [] = {}"
  "used_eids ((e, b) # p) = (if b then insert e (used_eids p) else used_eids p)"
  "used_eids (p @ q) = used_eids p \<union> used_eids q"
  by (auto simp: used_eids_def)

lemma set_free_eids: "set (free_eids p) = {e. (e, False) \<in> set p}"
  by (auto simp: free_eids_def image_iff)

lemma pool_ids: "fst ` set p = set (free_eids p) \<union> used_eids p"
  by (induction p) (auto split: if_splits)

lemma free_used_disjoint: "pool_inv p \<Longrightarrow> set (free_eids p) \<inter> used_eids p = {}"
  by (auto simp: pool_inv_def set_free_eids used_eids_def dest: eq_key_imp_eq_value)

lemma distinct_free: "pool_inv p \<Longrightarrow> distinct (free_eids p)"
  by (auto simp: pool_inv_def free_eids_def distinct_map intro: inj_on_subset)

lemma get_empty: "free_eids p = [] \<Longrightarrow>
    getAvailableEidFromPool p = (Inl address_not_available, p)"
  by (induction p rule: getAvailableEidFromPool.induct) (auto split: if_splits)

lemma get_nonempty: "free_eids p = e # es \<Longrightarrow>
    \<exists>p'. getAvailableEidFromPool p = (Inr e, p') \<and> free_eids p' = es
      \<and> used_eids p' = insert e (used_eids p) \<and> map fst p' = map fst p"
  by (induction p rule: getAvailableEidFromPool.induct) (fastforce split: if_splits)+

lemma get_ids: "map fst (snd (getAvailableEidFromPool p)) = map fst p"
  by (induction p rule: getAvailableEidFromPool.induct) (auto split: prod.splits)

lemma get_inv [inv_intros]: "pool_inv p \<Longrightarrow> pool_inv (snd (getAvailableEidFromPool p))"
  by (simp add: pool_inv_def get_ids)

lemma length_filter_fst: "length p > length (filter (\<lambda>x. fst x \<noteq> e) p) \<longleftrightarrow> e \<in> fst ` set p"
  by (induction p) (auto simp: less_Suc_eq_le)

lemma update_unfold:
  "updateEidStatus e b p =
     (if e \<in> fst ` set p then filter (\<lambda>x. fst x \<noteq> e) p @ [(e, b)] else p)"
proof -
  have "e \<notin> fst ` set p \<Longrightarrow> filter (\<lambda>x. fst x \<noteq> e) p = p"
    by (force simp: filter_id_conv)
  then show ?thesis
    using length_filter_fst [of e p] by (auto simp: updateEidStatus_def Let_def)
qed

lemma update_inv [inv_intros]: "pool_inv p \<Longrightarrow> pool_inv (updateEidStatus e b p)"
  by (auto simp: update_unfold pool_inv_def distinct_map intro: inj_on_subset)

lemma free_filter: "free_eids (filter (\<lambda>x. fst x \<noteq> e) p) = filter (\<lambda>x. x \<noteq> e) (free_eids p)"
  by (induction p) auto

lemma used_filter: "used_eids (filter (\<lambda>x. fst x \<noteq> e) p) = used_eids p - {e}"
  by (auto simp: used_eids_def)

lemma init_inv [inv_intros]:
  "finite s \<Longrightarrow> pool_inv p \<Longrightarrow> s \<inter> fst ` set p = {} \<Longrightarrow> pool_inv (initializeEidPool s p)"
  by (auto simp: pool_inv_def initializeEidPool_def comp_def)

subsection \<open>The abstract allocator and the refinement\<close>

type_synonym allocator = "eid list \<times> eid set"

definition allocator_of :: "eid_pool \<Rightarrow> allocator" where
  "allocator_of p = (free_eids p, used_eids p)"

fun alloc_get :: "allocator \<Rightarrow> (errc + eid) \<times> allocator" where
  "alloc_get ([], u) = (Inl address_not_available, ([], u))"
| "alloc_get (e # q, u) = (Inr e, (q, insert e u))"

fun alloc_update :: "eid \<Rightarrow> bool \<Rightarrow> allocator \<Rightarrow> allocator" where
  "alloc_update e assigned (q, u) =
     (if e \<notin> set q \<union> u then (q, u)
      else if assigned then (removeAll e q, insert e u)
      else (removeAll e q @ [e], u - {e}))"

lemma get_refines:
  "fst (getAvailableEidFromPool p) = fst (alloc_get (allocator_of p))"
  "allocator_of (snd (getAvailableEidFromPool p)) = snd (alloc_get (allocator_of p))"
proof -
  have "fst (getAvailableEidFromPool p) = fst (alloc_get (allocator_of p)) \<and>
        allocator_of (snd (getAvailableEidFromPool p)) = snd (alloc_get (allocator_of p))"
  proof (cases "free_eids p")
    case Nil
    then show ?thesis by (simp add: get_empty allocator_of_def)
  next
    case (Cons e es)
    then obtain p' where "getAvailableEidFromPool p = (Inr e, p')" "free_eids p' = es"
        "used_eids p' = insert e (used_eids p)"
      using get_nonempty by blast
    with Cons show ?thesis by (simp add: allocator_of_def)
  qed
  then show "fst (getAvailableEidFromPool p) = fst (alloc_get (allocator_of p))"
    "allocator_of (snd (getAvailableEidFromPool p)) = snd (alloc_get (allocator_of p))"
    by simp_all
qed

lemma removeAll_filter_neq: "removeAll e q = filter (\<lambda>x. x \<noteq> e) q"
  by (induction q) auto

lemma update_refines: "allocator_of (updateEidStatus e b p) = alloc_update e b (allocator_of p)"
proof (cases "e \<in> fst ` set p")
  case True
  then have "e \<in> set (free_eids p) \<union> used_eids p" by (simp add: pool_ids)
  with True show ?thesis
    by (cases b)
       (simp_all add: update_unfold allocator_of_def free_filter used_filter removeAll_filter_neq)
next
  case False
  then have "e \<notin> set (free_eids p) \<union> used_eids p" by (simp add: pool_ids)
  with False show ?thesis by (simp add: update_unfold allocator_of_def)
qed

text \<open>
  C36: The vector of (EID, assigned) pairs implements a FIFO allocator: seen as a queue of
  free EIDs and a set of assigned ones, allocation hands out the head of the queue (or
  fails with \<open>address\_not\_available\<close> exactly when the queue is empty), and a status
  update moves a known EID into the assigned set or to the back of the queue and ignores
  an EID that is not in the pool.
\<close>

theorem eid_pool_refines_allocator:
  "fst (getAvailableEidFromPool p) = fst (alloc_get (allocator_of p)) \<and>
   allocator_of (snd (getAvailableEidFromPool p)) = snd (alloc_get (allocator_of p)) \<and>
   allocator_of (updateEidStatus e assigned p) = alloc_update e assigned (allocator_of p)"
  by (simp add: get_refines update_refines)

subsection \<open>Runs of pool operations\<close>

datatype pool_op = Get | Update eid bool

fun pool_step :: "eid_pool \<Rightarrow> pool_op \<Rightarrow> eid_pool" where
  "pool_step p Get = snd (getAvailableEidFromPool p)"
| "pool_step p (Update e b) = updateEidStatus e b p"

interpretation pool: machine "[]" pool_step "\<lambda>_ _. True" pool_inv
proof
  show "pool_inv []" by (simp add: pool_inv_def)
next
  fix p e assume "pool_inv p"
  then show "pool_inv (pool_step p e)" by (cases e) (auto intro: inv_intros)
qed

lemma pool_run_inv: "pool_inv p \<Longrightarrow> pool_inv (run pool_step p es)"
  by (rule pool.inv_run_from) simp_all

lemma used_step: "pool_inv p \<Longrightarrow> e \<in> used_eids p \<Longrightarrow> op \<noteq> Update e False \<Longrightarrow>
    e \<in> used_eids (pool_step p op)"
proof (cases op)
  case Get
  assume "e \<in> used_eids p"
  with Get show ?thesis
    by (cases "free_eids p") (auto simp: get_empty dest!: get_nonempty)
next
  case (Update e' b)
  assume "e \<in> used_eids p" "op \<noteq> Update e False"
  with Update show ?thesis by (cases b) (auto simp: update_unfold used_filter)
qed

lemma used_run: "pool_inv p \<Longrightarrow> e \<in> used_eids p \<Longrightarrow> Update e False \<notin> set es \<Longrightarrow>
    e \<in> used_eids (run pool_step p es)"
proof (induction es arbitrary: p)
  case (Cons x xs)
  then have "pool_inv (pool_step p x)" "e \<in> used_eids (pool_step p x)"
    using pool.inv_step used_step by auto
  with Cons show ?case by simp
qed simp

lemma get_result:
  assumes "getAvailableEidFromPool p = (Inr e, p')"
  shows "e \<in> set (free_eids p)" "e \<in> used_eids p'"
proof -
  have "e \<in> set (free_eids p) \<and> e \<in> used_eids p'"
  proof (cases "free_eids p")
    case Nil
    with assms show ?thesis by (simp add: get_empty)
  next
    case (Cons a es)
    then obtain q where "getAvailableEidFromPool p = (Inr a, q)" "used_eids q = insert a (used_eids p)"
      using get_nonempty by blast
    with assms Cons show ?thesis by simp
  qed
  then show "e \<in> set (free_eids p)" "e \<in> used_eids p'" by simp_all
qed

text \<open>
  No EID is assigned to two endpoints at once: after the pool has handed out an EID,
  whatever sequence of allocations and status updates follows, another allocation
  returns a different EID as long as the first one has not been given back
  (\<open>updateEidStatus(eid, false)\<close>).
\<close>

lemma no_double_allocation:
  assumes "pool_inv p"
    and "getAvailableEidFromPool p = (Inr e, p1)"
    and "Update e False \<notin> set es"
    and "getAvailableEidFromPool (run pool_step p1 es) = (Inr e', p2)"
  shows "e' \<noteq> e"
proof -
  from assms(1,2) have inv: "pool_inv p1" using get_inv [of p] by simp
  with assms(2,3) have "e \<in> used_eids (run pool_step p1 es)"
    by (auto intro: used_run get_result)
  moreover from inv have "pool_inv (run pool_step p1 es)" by (rule pool_run_inv)
  ultimately show ?thesis
    using get_result(1) [OF assms(4)] free_used_disjoint by blast
qed

theorem no_double_allocation_witness:
  "(9 :: eid) \<noteq> 8 \<and>
   getAvailableEidFromPool (run pool_step [(8, True), (9, False)] [Update 7 False])
     = (Inr 9, [(8, True), (9, True)])"
proof -
  have a: "pool_inv [(8, False), (9, False)]" by (simp add: pool_inv_def)
  have b: "getAvailableEidFromPool [(8, False), (9, False)] = (Inr 8, [(8, True), (9, False)])"
    by simp
  have c: "Update 8 False \<notin> set [Update 7 False]" by simp
  have d: "getAvailableEidFromPool (run pool_step [(8, True), (9, False)] [Update 7 False])
      = (Inr 9, [(8, True), (9, True)])"
    by (simp add: updateEidStatus_def)
  from no_double_allocation [OF a b c d] d show ?thesis by simp
qed

lemma gets_drain: "free_eids p = es @ fs \<Longrightarrow>
    free_eids (run pool_step p (replicate (length es) Get)) = fs"
proof (induction es arbitrary: p)
  case (Cons e es)
  then obtain p' where "getAvailableEidFromPool p = (Inr e, p')" "free_eids p' = es @ fs"
    using get_nonempty [of p e "es @ fs"] by auto
  with Cons show ?case by simp
qed simp

text \<open>
  EIDs are reused in FIFO order: an EID that is returned to the pool is handed out
  again only after every EID that was free at that moment, and it is then the next one.
\<close>

lemma released_eid_is_last:
  assumes "e \<in> fst ` set p"
  defines "others \<equiv> removeAll e (free_eids p)"
  defines "q \<equiv> updateEidStatus e False p"
  shows "free_eids q = others @ [e] \<and>
    fst (getAvailableEidFromPool (run pool_step q (replicate (length others) Get))) = Inr e"
proof -
  have q: "free_eids q = others @ [e]"
    using assms(1) by (simp add: q_def others_def update_unfold free_filter removeAll_filter_neq)
  then have "free_eids (run pool_step q (replicate (length others) Get)) = [e]"
    by (rule gets_drain)
  with q show ?thesis using get_nonempty [of _ e "[]"] by fastforce
qed

theorem released_eid_is_last_witness:
  "free_eids (updateEidStatus 8 False [(8, True), (9, False), (10, False)]) = [9, 10, 8] \<and>
   fst (getAvailableEidFromPool
     (run pool_step (updateEidStatus 8 False [(8, True), (9, False), (10, False)]) [Get, Get])) = Inr 8"
  using released_eid_is_last [of 8 "[(8, True), (9, False), (10, False)]"]
  by (simp add: numeral_2_eq_2)

end
