(* ===== verification/Device_Watcher.thy ===== *)
theory Device_Watcher
  imports Pmci_Prelude
begin

text \<open>
  \<open>mctpd::DeviceWatcher\<close> (mctpd/src/utils/device\_watcher.cpp): counts in how many
  successive discovery rounds the registration of a device was attempted, and puts a
  device that never gets registered on an ignore list. A device is named by its binding
  private data. A moved-from \<open>std::unordered\_set\<close> is empty.
\<close>

section \<open>Model\<close>

type_synonym binding_private = "byte list"

record device_watcher =
  ignoreList :: "binding_private set"
  previousInitList :: "binding_private set"
  currentInitList :: "binding_private set"
  successiveInitCount :: "binding_private \<rightharpoonup> int"

definition new_device_watcher :: device_watcher where
  "new_device_watcher = \<lparr>ignoreList = {}, previousInitList = {}, currentInitList = {},
     successiveInitCount = Map.empty\<rparr>"

definition deviceDiscoveryInit :: "device_watcher \<Rightarrow> device_watcher" where
  "deviceDiscoveryInit w =
     (let prev = currentInitList w
      in w\<lparr>previousInitList := prev, currentInitList := {},
           successiveInitCount := (\<lambda>d. if d \<in> prev then successiveInitCount w d else None)\<rparr>)"

definition isDeviceGoodForInit :: "device_watcher \<Rightarrow> binding_private \<Rightarrow> bool" where
  "isDeviceGoodForInit w bindingPvt \<longleftrightarrow> bindingPvt \<notin> ignoreList w"

definition successiveDeviceInitThold :: int where
  "successiveDeviceInitThold = 10"

definition checkDeviceInitThreshold ::
    "device_watcher \<Rightarrow> binding_private \<Rightarrow> bool \<times> device_watcher" where
  "checkDeviceInitThreshold w0 bindingPvt =
     (let w = w0\<lparr>currentInitList := insert bindingPvt (currentInitList w0)\<rparr>
      in if bindingPvt \<notin> previousInitList w
         then (True, w\<lparr>successiveInitCount := (successiveInitCount w)(bindingPvt \<mapsto> 0)\<rparr>)
         else (case successiveInitCount w bindingPvt of
                 None \<Rightarrow> (True, w)
               | Some n \<Rightarrow>
                   if n > successiveDeviceInitThold then (False, w)
                   else (let w' = w\<lparr>successiveInitCount :=
                                      (successiveInitCount w)(bindingPvt \<mapsto> n + 1)\<rparr>
                         in if n + 1 = successiveDeviceInitThold
                            then (False, w'\<lparr>ignoreList := insert bindingPvt (ignoreList w')\<rparr>)
                            else (True, w'))))"

section \<open>Properties\<close>

lemmas watcher_defs = deviceDiscoveryInit_def isDeviceGoodForInit_def
  checkDeviceInitThreshold_def successiveDeviceInitThold_def

datatype watcher_op = Round | Check binding_private

fun watcher_step :: "device_watcher \<Rightarrow> watcher_op \<Rightarrow> device_watcher" where
  "watcher_step w Round = deviceDiscoveryInit w"
| "watcher_step w (Check d) = snd (checkDeviceInitThreshold w d)"

text \<open>
  The invariant: every device of the last round has a count, counts are never negative,
  only devices of the last two rounds are counted, and only a device that was counted up
  to the threshold is ignored.
\<close>

definition watcher_inv :: "device_watcher \<Rightarrow> bool" where
  "watcher_inv w \<longleftrightarrow>
     (\<forall>d n. successiveInitCount w d = Some n \<longrightarrow>
        0 \<le> n \<and> n \<le> 11 \<and> (d \<notin> ignoreList w \<longrightarrow> n < 10)
        \<and> (d \<in> previousInitList w \<or> d \<in> currentInitList w)) \<and>
     (\<forall>d \<in> previousInitList w \<union> currentInitList w. successiveInitCount w d \<noteq> None)"

lemma discovery_inv [inv_intros]: "watcher_inv w \<Longrightarrow> watcher_inv (deviceDiscoveryInit w)"
  by (auto simp: watcher_inv_def watcher_defs Let_def split: if_splits)

lemma check_inv [inv_intros]:
  "watcher_inv w \<Longrightarrow> watcher_inv (snd (checkDeviceInitThreshold w d))"
  by (auto simp: watcher_inv_def watcher_defs Let_def split: if_splits option.splits)
     force+

interpretation watcher: machine new_device_watcher watcher_step "\<lambda>_ _. True" watcher_inv
proof
  show "watcher_inv new_device_watcher"
    by (simp add: watcher_inv_def new_device_watcher_def)
next
  fix w e assume "watcher_inv w"
  then show "watcher_inv (watcher_step w e)" by (cases e) (auto intro: inv_intros)
qed

lemma ignore_grows: "ignoreList w \<subseteq> ignoreList (watcher_step w e)"
  by (cases e) (auto simp: watcher_defs Let_def split: option.splits)

lemma ignore_grows_run: "ignoreList w \<subseteq> ignoreList (run watcher_step w es)"
proof (induction es arbitrary: w)
  case (Cons e es)
  then show ?case using ignore_grows [of w e] by (simp, blast)
qed simp

text \<open>
  Once a device is on the ignore list it is never initialised again, whatever rounds
  and checks follow.
\<close>

lemma ignored_for_ever:
  "\<not> isDeviceGoodForInit w d \<Longrightarrow> \<not> isDeviceGoodForInit (run watcher_step w es) d"
  using ignore_grows_run [of w es] by (auto simp: isDeviceGoodForInit_def)

theorem ignored_for_ever_witness:
  "\<not> isDeviceGoodForInit (run watcher_step
      (new_device_watcher\<lparr>ignoreList := {[1, 2]}\<rparr>) [Round, Check [1, 2]]) [1, 2]"
  by (rule ignored_for_ever) (simp add: isDeviceGoodForInit_def)

text \<open>
  One discovery round in which device \<open>d\<close> is attempted once and any other devices are
  attempted as well.
\<close>

definition attempt_round :: "binding_private \<Rightarrow> binding_private list \<Rightarrow> watcher_op list" where
  "attempt_round d others = Round # map Check others @ [Check d]"

lemma check_other: "x \<noteq> d \<Longrightarrow>
    successiveInitCount (snd (checkDeviceInitThreshold w x)) d = successiveInitCount w d \<and>
    (d \<in> ignoreList (snd (checkDeviceInitThreshold w x)) \<longleftrightarrow> d \<in> ignoreList w)"
  by (auto simp: watcher_defs Let_def split: option.splits)

lemma check_lists:
  "previousInitList (snd (checkDeviceInitThreshold w x)) = previousInitList w"
  "currentInitList (snd (checkDeviceInitThreshold w x)) = insert x (currentInitList w)"
  by (auto simp: watcher_defs Let_def split: option.splits)

lemma checks_other: "d \<notin> set xs \<Longrightarrow>
    successiveInitCount (run watcher_step w (map Check xs)) d = successiveInitCount w d \<and>
    (d \<in> ignoreList (run watcher_step w (map Check xs)) \<longleftrightarrow> d \<in> ignoreList w) \<and>
    previousInitList (run watcher_step w (map Check xs)) = previousInitList w"
  by (induction xs arbitrary: w) (auto simp: check_other check_lists)

text \<open>
  How a device that is attempted in every round is counted: after its \<open>n+1\<close>st attempt
  (\<open>n \<le> 9\<close>) the count is \<open>n\<close> and the device is not ignored.
\<close>

definition counted :: "binding_private \<Rightarrow> nat \<Rightarrow> device_watcher \<Rightarrow> bool" where
  "counted d n w \<longleftrightarrow> d \<in> currentInitList w \<and> d \<notin> ignoreList w
     \<and> successiveInitCount w d = Some (int n)"

lemma round_counts:
  assumes "counted d n w" "d \<notin> set others"
  defines "w' \<equiv> run watcher_step w (Round # map Check others)"
  shows "previousInitList w' = currentInitList w" "d \<notin> ignoreList w'"
    "successiveInitCount w' d = Some (int n)"
  using assms checks_other [of d others "deviceDiscoveryInit w"]
  by (auto simp: counted_def deviceDiscoveryInit_def Let_def)

lemma attempt_counted:
  assumes "counted d n w" "d \<notin> set others" "n < 9"
  shows "counted d (Suc n) (run watcher_step w (attempt_round d others))"
  using round_counts [OF assms(1,2)] assms(1,3)
  by (auto simp: attempt_round_def run_append counted_def checkDeviceInitThreshold_def
      successiveDeviceInitThold_def Let_def)

lemma attempts_counted:
  assumes "counted d 0 w" "\<forall>x \<in> set os. d \<notin> set x" "length os < 10"
  shows "counted d (length os) (run watcher_step w (concat (map (attempt_round d) os)))"
  using assms(2,3)
proof (induction os rule: rev_induct)
  case Nil
  with assms(1) show ?case by simp
next
  case (snoc o1 os)
  then show ?case by (auto simp: run_append intro!: attempt_counted)
qed

lemma attempt_first:
  assumes "watcher_inv w" "d \<notin> currentInitList w" "d \<notin> ignoreList w" "d \<notin> set others"
  shows "counted d 0 (run watcher_step w (attempt_round d others))"
  using assms checks_other [of d others "deviceDiscoveryInit w"]
  by (auto simp: attempt_round_def run_append counted_def checkDeviceInitThreshold_def
      deviceDiscoveryInit_def Let_def)

text \<open>
  A device whose registration is attempted and fails in successive discovery rounds
  is accepted for its first ten attempts and is refused and put on the ignore list at the
  eleventh, however the other devices of these rounds behave.
\<close>

lemma ignored_after_ten_attempts:
  assumes "watcher_inv w" "d \<notin> currentInitList w" "isDeviceGoodForInit w d"
    and "\<forall>x \<in> set os. d \<notin> set x" and "d \<notin> set others" and "length os = 10"
  defines "after \<equiv> (\<lambda>n. run watcher_step w (concat (map (attempt_round d) (take n os))))"
  shows "(\<forall>n. 0 < n \<and> n \<le> 10 \<longrightarrow> isDeviceGoodForInit (after n) d) \<and>
    \<not> fst (checkDeviceInitThreshold (run watcher_step (after 10) (Round # map Check others)) d) \<and>
    \<not> isDeviceGoodForInit (run watcher_step (after 10) (attempt_round d others)) d"
proof -
  have counted: "counted d (n - 1) (after n)" if n: "0 < n" "n \<le> 10" for n
  proof -
    from n assms(6) obtain x xs where xs: "take n os = x # xs" "length xs = n - 1"
      by (cases "take n os") (auto dest: arg_cong [where f = length])
    then have "set (x # xs) \<subseteq> set os" by (metis set_take_subset)
    with assms(4) have out: "d \<notin> set x" "\<forall>y \<in> set xs. d \<notin> set y" by auto
    from assms(1-3) out(1) have "counted d 0 (run watcher_step w (attempt_round d x))"
      by (intro attempt_first) (auto simp: isDeviceGoodForInit_def)
    then have "counted d (length xs) (run watcher_step (run watcher_step w (attempt_round d x))
        (concat (map (attempt_round d) xs)))"
      by (rule attempts_counted) (use out n xs in auto)
    with xs show ?thesis by (simp add: after_def run_append)
  qed
  then have "counted d 9 (after 10)" by force
  with round_counts [OF this assms(5)]
  have "\<not> fst (checkDeviceInitThreshold (run watcher_step (after 10) (Round # map Check others)) d) \<and>
    \<not> isDeviceGoodForInit (run watcher_step (after 10) (attempt_round d others)) d"
    by (auto simp: attempt_round_def run_append counted_def isDeviceGoodForInit_def
        checkDeviceInitThreshold_def successiveDeviceInitThold_def Let_def)
  with counted show ?thesis by (auto simp: counted_def isDeviceGoodForInit_def)
qed

theorem ignored_after_ten_attempts_witness:
  "\<not> isDeviceGoodForInit
      (run watcher_step (run watcher_step new_device_watcher
         (concat (map (attempt_round [1]) (take 10 (replicate 10 [[2]])))))
         (attempt_round [1] [[2]])) [1]"
proof -
  have a: "watcher_inv new_device_watcher" by (rule watcher.inv_start)
  have b: "[1] \<notin> currentInitList new_device_watcher" by (simp add: new_device_watcher_def)
  have c: "isDeviceGoodForInit new_device_watcher [1]"
    by (simp add: new_device_watcher_def isDeviceGoodForInit_def)
  have d: "\<forall>x \<in> set (replicate 10 [[2]]). [1 :: byte] \<notin> set x" by simp
  have e: "[1 :: byte] \<notin> set [[2]]" by simp
  have f: "length (replicate 10 [[2 :: byte]]) = 10" by simp
  from ignored_after_ten_attempts [OF a b c d e f] show ?thesis by blast
qed

end
