(* ===== verification/Transmission_Queue.thy ===== *)
theory Transmission_Queue
  imports Pmci_Prelude
begin

text \<open>
  \<open>mctpd::MctpTransmissionQueue\<close> (mctpd/src/utils/transmission\_queue.cpp) and the D-Bus
  method that uses it, \<open>SendReceiveMctpMessagePayload\<close> (mctpd/src/MCTPBinding.cpp). Each
  remote endpoint has eight message tags. A request is queued, sent as soon as a tag is
  free, and matched with its response by (EID, tag). The \<open>Message\<close> objects are shared
  between the queue and the suspended D-Bus calls, so they live in an explicit store and
  the maps hold references to them. The calls to libmctp's \<open>mctp\_message\_tx\<close> are logged;
  its return code is the parameter \<open>tx\<close>, which may depend on all earlier calls.
\<close>

unbundle bit_operations_syntax

section \<open>Model\<close>

type_synonym mref = nat

record message =
  index :: u64
  tag :: "byte option"
  payload :: "byte list"
  privateData :: "byte list"
  timerCancelled :: bool
  response :: "byte list option"

record endpoint =
  availableTags :: byte
  transmittedMessages :: "(byte \<times> mref) list"
  queuedMessages :: "(u64 \<times> mref) list"
  msgCounter :: u64

record tqueue =
  endpoints :: "(eid \<times> endpoint) list"
  messages :: "message list"
  posted :: "eid list"
  txLog :: "tx_call list"

definition new_endpoint :: endpoint where
  "new_endpoint = \<lparr>availableTags = 0xff, transmittedMessages = [], queuedMessages = [],
     msgCounter = 0\<rparr>"

definition new_tqueue :: tqueue where
  "new_tqueue = \<lparr>endpoints = [], messages = [], posted = [], txLog = []\<rparr>"

text \<open>\<open>endpoints[eid]\<close> makes a default entry when there is none.\<close>

definition endpoint_at :: "tqueue \<Rightarrow> eid \<Rightarrow> endpoint" where
  "endpoint_at q e = (case map_of (endpoints q) e of None \<Rightarrow> new_endpoint | Some ep \<Rightarrow> ep)"

definition make_message :: "u64 \<Rightarrow> byte list \<Rightarrow> byte list \<Rightarrow> message" where
  "make_message idx pl priv =
     \<lparr>index = idx, tag = None, payload = pl, privateData = priv,
      timerCancelled = False, response = None\<rparr>"

subsection \<open>Tags\<close>

definition ctz :: "byte \<Rightarrow> nat" where
  "ctz w = length (takeWhile (\<lambda>i. \<not> bit w i) [0..<8])"

definition tags_next :: "byte \<Rightarrow> byte option" where
  "tags_next bits = (if bits = 0 then None else Some (word_of_nat (ctz bits)))"

definition tags_emplace :: "byte \<Rightarrow> byte \<Rightarrow> byte" where
  "tags_emplace bits flag = bits OR push_bit (unat flag) 1"

definition tags_erase :: "byte \<Rightarrow> byte \<Rightarrow> byte" where
  "tags_erase bits flag = bits AND NOT (push_bit (unat flag) 1)"

subsection \<open>The queue's operations\<close>

function transmitQueuedMessages ::
    "tx_oracle \<Rightarrow> eid \<Rightarrow> endpoint \<Rightarrow> message list \<Rightarrow> tx_call list
     \<Rightarrow> endpoint \<times> message list \<times> tx_call list" where
  "transmitQueuedMessages tx destEid ep ms log =
     (case queuedMessages ep of
        [] \<Rightarrow> (ep, ms, log)
      | (i, r) # rest \<Rightarrow>
          (case tags_next (availableTags ep) of
             None \<Rightarrow> (ep, ms, log)
           | Some msgTag \<Rightarrow>
               let ep' = ep\<lparr>queuedMessages := rest\<rparr>;
                   call = \<lparr>tx_dest = destEid, tx_payload = payload (ms ! r), tx_owner = True,
                           tx_tag = msgTag, tx_private = privateData (ms ! r)\<rparr>;
                   log' = log @ [call]
               in if tx log call < 0 then transmitQueuedMessages tx destEid ep' ms log'
                  else transmitQueuedMessages tx destEid
                    (ep'\<lparr>availableTags := tags_erase (availableTags ep') msgTag,
                         transmittedMessages := map_emplace msgTag r (transmittedMessages ep')\<rparr>)
                    (ms[r := (ms ! r)\<lparr>tag := Some msgTag\<rparr>]) log'))"
  by pat_completeness auto
termination
  by (relation "measure (\<lambda>(tx, e, ep, ms, log). length (queuedMessages ep))") auto

declare transmitQueuedMessages.simps [simp del]

definition flush :: "tx_oracle \<Rightarrow> eid \<Rightarrow> endpoint \<Rightarrow> tqueue \<Rightarrow> tqueue" where
  "flush tx e ep q =
     (let (ep', ms, log) = transmitQueuedMessages tx e ep (messages q) (txLog q)
      in q\<lparr>endpoints := map_assign e ep' (endpoints q), messages := ms, txLog := log\<rparr>)"

definition transmit ::
    "tx_oracle \<Rightarrow> eid \<Rightarrow> byte list \<Rightarrow> byte list \<Rightarrow> tqueue \<Rightarrow> mref \<times> tqueue" where
  "transmit tx destEid pl priv q =
     (let ep = endpoint_at q destEid;
          msgIndex = msgCounter ep;
          r = length (messages q);
          ep' = ep\<lparr>msgCounter := msgIndex + 1,
                   queuedMessages := map_emplace msgIndex r (queuedMessages ep)\<rparr>
      in (r, flush tx destEid ep' (q\<lparr>messages := messages q @ [make_message msgIndex pl priv]\<rparr>)))"

text \<open>The handler that \<open>receive\<close> posts to the io context.\<close>

definition run_posted :: "tx_oracle \<Rightarrow> tqueue \<Rightarrow> tqueue" where
  "run_posted tx q =
     (case posted q of
        [] \<Rightarrow> q
      | e # es \<Rightarrow> flush tx e (endpoint_at q e) (q\<lparr>posted := es\<rparr>))"

definition receive :: "eid \<Rightarrow> byte \<Rightarrow> byte list \<Rightarrow> tqueue \<Rightarrow> bool \<times> tqueue" where
  "receive srcEid msgTag resp q =
     (case map_of (endpoints q) srcEid of
        None \<Rightarrow> (False, q)
      | Some ep \<Rightarrow>
          (case map_of (transmittedMessages ep) msgTag of
             None \<Rightarrow> (False, q)
           | Some r \<Rightarrow>
               let msg = (messages q ! r)\<lparr>response := Some resp, tag := None,
                                          timerCancelled := True\<rparr>;
                   ep' = ep\<lparr>transmittedMessages := map_erase msgTag (transmittedMessages ep),
                            availableTags := tags_emplace (availableTags ep) msgTag\<rparr>
               in (True, q\<lparr>endpoints := map_assign srcEid ep' (endpoints q),
                           messages := (messages q)[r := msg],
                           posted := posted q @ [srcEid]\<rparr>)))"

definition dispose :: "eid \<Rightarrow> mref \<Rightarrow> tqueue \<Rightarrow> tqueue" where
  "dispose destEid r q =
     (let ep = endpoint_at q destEid;
          msg = messages q ! r;
          ep1 = ep\<lparr>queuedMessages := map_erase (index msg) (queuedMessages ep)\<rparr>;
          ep2 = (case tag msg of
                   None \<Rightarrow> ep1
                 | Some msgTag \<Rightarrow>
                     ep1\<lparr>availableTags := tags_emplace (availableTags ep1) msgTag,
                         transmittedMessages := map_erase msgTag (transmittedMessages ep1)\<rparr>)
      in q\<lparr>endpoints := map_assign destEid ep2 (endpoints q)\<rparr>)"

subsection \<open>The D-Bus call that waits for a response\<close>

datatype timer_ec = no_error | operation_aborted | timer_failure

definition sendReceive_finish ::
    "timer_ec \<Rightarrow> eid \<Rightarrow> mref \<Rightarrow> tqueue \<Rightarrow> (errc + byte list) \<times> tqueue" where
  "sendReceive_finish ec dstEid r q =
     (if ec \<noteq> no_error \<and> ec \<noteq> operation_aborted
      then (Inl connection_aborted, dispose dstEid r q)
      else (case response (messages q ! r) of
              None \<Rightarrow> (Inl timed_out, dispose dstEid r q)
            | Some resp \<Rightarrow> if resp = [] then (Inl no_message_available, q) else (Inr resp, q)))"

text \<open>
  The whole: the queue and the suspended calls, each holding its destination and its
  message. A call starts, a message arrives from the bus, a posted handler runs, or a
  call wakes up (its timer ended or was cancelled) and finishes.
\<close>

record tsystem =
  queue :: tqueue
  waiting :: "(eid \<times> mref) list"

datatype tevent =
    Send eid "byte list" "byte list"
  | Arrive eid byte "byte list"
  | Posted
  | Wake nat timer_ec

fun tstep :: "tx_oracle \<Rightarrow> tsystem \<Rightarrow> tevent \<Rightarrow> tsystem" where
  "tstep tx s (Send e pl priv) =
     (let (r, q) = transmit tx e pl priv (queue s)
      in \<lparr>queue = q, waiting = waiting s @ [(e, r)]\<rparr>)"
| "tstep tx s (Arrive e t resp) = s\<lparr>queue := snd (receive e t resp (queue s))\<rparr>"
| "tstep tx s Posted = s\<lparr>queue := run_posted tx (queue s)\<rparr>"
| "tstep tx s (Wake n ec) =
     (if n < length (waiting s)
      then (let (e, r) = waiting s ! n
            in \<lparr>queue = snd (sendReceive_finish ec e r (queue s)),
                waiting = take n (waiting s) @ drop (Suc n) (waiting s)\<rparr>)
      else s)"

definition tstart :: tsystem where
  "tstart = \<lparr>queue = new_tqueue, waiting = []\<rparr>"

text \<open>The 64-bit message counter of an endpoint is assumed not to wrap.\<close>

fun tenabled :: "tsystem \<Rightarrow> tevent \<Rightarrow> bool" where
  "tenabled s (Send e pl priv) =
     (msgCounter (endpoint_at (queue s) e) \<noteq> 0xffffffffffffffff)"
| "tenabled s _ = True"

section \<open>Tags as a set of bits\<close>

lemma bit_emplace: "bit (tags_emplace b f) i \<longleftrightarrow> bit b i \<or> (i = unat f \<and> i < 8)"
  by (auto simp: tags_emplace_def bit_simps)

lemma bit_erase: "bit (tags_erase b f) i \<longleftrightarrow> bit b i \<and> i \<noteq> unat f"
  by (auto simp: tags_erase_def bit_simps dest: bit_imp_le_length)

lemma ctz_bit:
  assumes "b \<noteq> 0"
  shows "ctz b < 8" "bit b (ctz b)"
proof -
  from assms obtain n where "bit b n" by (auto simp: bit_eq_iff)
  moreover from this have "n < 8" using bit_imp_le_length by fastforce
  ultimately have "\<exists>x \<in> set [0..<8]. \<not> \<not> bit b x" by auto
  then have *: "length (takeWhile (\<lambda>i. \<not> bit b i) [0..<8]) < length [0..<8]"
    by (metis length_takeWhile_le linorder_not_le nat_less_le set_takeWhileD takeWhile_eq_all_conv
        takeWhile_eq_take take_all)
  then show "ctz b < 8" by (simp add: ctz_def)
  from nth_length_takeWhile [OF *] * show "bit b (ctz b)" by (simp add: ctz_def)
qed

lemma tags_next_Some:
  assumes "tags_next b = Some t"
  shows "unat t < 8" "bit b (unat t)"
  using assms ctz_bit [of b]
  by (auto simp: tags_next_def unat_word_ariths unat_of_nat split: if_splits)

lemma tags_next_None: "tags_next b = None \<longleftrightarrow> b = 0"
  by (simp add: tags_next_def)

section \<open>The invariant\<close>

text \<open>
  For an endpoint whose suspended calls hold the messages in \<open>W\<close>: a tag is available
  exactly when no transmitted message has it; every transmitted or queued message is held
  by a suspended call and has no response yet; a held message that carries a tag is the
  one transmitted under that tag.
\<close>

definition tags_ok :: "endpoint \<Rightarrow> bool" where
  "tags_ok ep \<longleftrightarrow> (\<forall>t. unat t < 8 \<longrightarrow>
     (bit (availableTags ep) (unat t) \<longleftrightarrow> map_of (transmittedMessages ep) t = None))"

definition transmitted_ok :: "mref set \<Rightarrow> message list \<Rightarrow> endpoint \<Rightarrow> bool" where
  "transmitted_ok W ms ep \<longleftrightarrow> (\<forall>t r. map_of (transmittedMessages ep) t = Some r \<longrightarrow>
     unat t < 8 \<and> r \<in> W \<and> tag (ms ! r) = Some t \<and> response (ms ! r) = None)"

definition queued_ok :: "mref set \<Rightarrow> message list \<Rightarrow> endpoint \<Rightarrow> bool" where
  "queued_ok W ms ep \<longleftrightarrow> (\<forall>i r. map_of (queuedMessages ep) i = Some r \<longrightarrow>
     r \<in> W \<and> tag (ms ! r) = None \<and> index (ms ! r) = i \<and> response (ms ! r) = None)"

definition held_ok :: "mref set \<Rightarrow> message list \<Rightarrow> endpoint \<Rightarrow> bool" where
  "held_ok W ms ep \<longleftrightarrow> (\<forall>r \<in> W. r < length ms \<and> index (ms ! r) < msgCounter ep \<and>
     (\<forall>t. tag (ms ! r) = Some t \<longrightarrow> map_of (transmittedMessages ep) t = Some r))"

definition ep_inv :: "mref set \<Rightarrow> message list \<Rightarrow> endpoint \<Rightarrow> bool" where
  "ep_inv W ms ep \<longleftrightarrow>
     smap (transmittedMessages ep) \<and> smap (queuedMessages ep) \<and> tags_ok ep \<and>
     transmitted_ok W ms ep \<and> queued_ok W ms ep \<and> held_ok W ms ep \<and>
     inj_on (\<lambda>r. index (ms ! r)) W"

lemmas ep_inv_defs = tags_ok_def transmitted_ok_def queued_ok_def held_ok_def

definition held :: "tsystem \<Rightarrow> eid \<Rightarrow> mref set" where
  "held s e = {r. (e, r) \<in> set (waiting s)}"

definition tinv :: "tsystem \<Rightarrow> bool" where
  "tinv s \<longleftrightarrow> smap (endpoints (queue s)) \<and> distinct (map snd (waiting s)) \<and>
     (\<forall>e. ep_inv (held s e) (messages (queue s)) (endpoint_at (queue s) e))"


lemma bit_all_ones: "i < 8 \<Longrightarrow> bit (0xff :: byte) i"
proof -
  assume "i < 8"
  then have "i \<in> set [0..<8]" by simp
  moreover have "list_all (bit (0xff :: byte)) [0..<8]" by (simp add: upt_rec)
  ultimately show ?thesis by (simp add: list_all_iff)
qed

lemma new_endpoint_tags: "tags_ok new_endpoint"
  unfolding tags_ok_def
proof (intro allI impI)
  fix t :: byte assume "unat t < 8"
  then have "bit (0xff :: byte) (unat t)" by (rule bit_all_ones)
  then show "bit (availableTags new_endpoint) (unat t) \<longleftrightarrow>
      map_of (transmittedMessages new_endpoint) t = None"
    by (simp add: new_endpoint_def)
qed

lemma new_endpoint_inv: "ep_inv {} ms new_endpoint"
  unfolding ep_inv_def
  by (intro conjI new_endpoint_tags)
     (simp_all add: new_endpoint_def transmitted_ok_def queued_ok_def held_ok_def)

lemma endpoint_at_start: "endpoint_at new_tqueue e = new_endpoint"
  by (simp add: endpoint_at_def new_tqueue_def)

lemma tinv_start: "tinv tstart"
  by (simp add: tinv_def tstart_def held_def endpoint_at_start new_endpoint_inv)
     (simp add: new_tqueue_def)

text \<open>The invariant of an endpoint only looks at the messages its calls hold.\<close>

lemma ep_invD:
  assumes "ep_inv W ms ep"
  shows "smap (transmittedMessages ep)" "smap (queuedMessages ep)"
    "\<And>t. unat t < 8 \<Longrightarrow> bit (availableTags ep) (unat t) \<longleftrightarrow> map_of (transmittedMessages ep) t = None"
    "\<And>t r. map_of (transmittedMessages ep) t = Some r \<Longrightarrow>
       unat t < 8 \<and> r \<in> W \<and> tag (ms ! r) = Some t \<and> response (ms ! r) = None"
    "\<And>i r. map_of (queuedMessages ep) i = Some r \<Longrightarrow>
       r \<in> W \<and> tag (ms ! r) = None \<and> index (ms ! r) = i \<and> response (ms ! r) = None"
    "\<And>r. r \<in> W \<Longrightarrow> r < length ms \<and> index (ms ! r) < msgCounter ep"
    "\<And>r t. r \<in> W \<Longrightarrow> tag (ms ! r) = Some t \<Longrightarrow> map_of (transmittedMessages ep) t = Some r"
    "inj_on (\<lambda>r. index (ms ! r)) W"
proof -
  have *: "tags_ok ep" "transmitted_ok W ms ep" "queued_ok W ms ep" "held_ok W ms ep"
    using assms by (simp_all only: ep_inv_def)
  show "smap (transmittedMessages ep)" "smap (queuedMessages ep)" "inj_on (\<lambda>r. index (ms ! r)) W"
    using assms by (simp_all only: ep_inv_def)
  show "\<And>t. unat t < 8 \<Longrightarrow> bit (availableTags ep) (unat t) \<longleftrightarrow> map_of (transmittedMessages ep) t = None"
    using *(1) unfolding tags_ok_def by blast
  show "\<And>t r. map_of (transmittedMessages ep) t = Some r \<Longrightarrow>
       unat t < 8 \<and> r \<in> W \<and> tag (ms ! r) = Some t \<and> response (ms ! r) = None"
    using *(2) unfolding transmitted_ok_def by blast
  show "\<And>i r. map_of (queuedMessages ep) i = Some r \<Longrightarrow>
       r \<in> W \<and> tag (ms ! r) = None \<and> index (ms ! r) = i \<and> response (ms ! r) = None"
    using *(3) unfolding queued_ok_def by blast
  show "\<And>r. r \<in> W \<Longrightarrow> r < length ms \<and> index (ms ! r) < msgCounter ep"
    "\<And>r t. r \<in> W \<Longrightarrow> tag (ms ! r) = Some t \<Longrightarrow> map_of (transmittedMessages ep) t = Some r"
    using *(4) unfolding held_ok_def by blast+
qed

lemma ep_invI:
  assumes "smap (transmittedMessages ep)" "smap (queuedMessages ep)"
    "\<And>t. unat t < 8 \<Longrightarrow> bit (availableTags ep) (unat t) \<longleftrightarrow> map_of (transmittedMessages ep) t = None"
    "\<And>t r. map_of (transmittedMessages ep) t = Some r \<Longrightarrow>
       unat t < 8 \<and> r \<in> W \<and> tag (ms ! r) = Some t \<and> response (ms ! r) = None"
    "\<And>i r. map_of (queuedMessages ep) i = Some r \<Longrightarrow>
       r \<in> W \<and> tag (ms ! r) = None \<and> index (ms ! r) = i \<and> response (ms ! r) = None"
    "\<And>r. r \<in> W \<Longrightarrow> r < length ms \<and> index (ms ! r) < msgCounter ep"
    "\<And>r t. r \<in> W \<Longrightarrow> tag (ms ! r) = Some t \<Longrightarrow> map_of (transmittedMessages ep) t = Some r"
    "inj_on (\<lambda>r. index (ms ! r)) W"
  shows "ep_inv W ms ep"
proof -
  have "tags_ok ep" unfolding tags_ok_def using assms(3) by blast
  moreover have "transmitted_ok W ms ep" unfolding transmitted_ok_def using assms(4) by blast
  moreover have "queued_ok W ms ep" unfolding queued_ok_def using assms(5) by blast
  moreover have "held_ok W ms ep" unfolding held_ok_def using assms(6,7) by blast
  ultimately show ?thesis unfolding ep_inv_def using assms(1,2,8) by blast
qed

lemma ep_inv_frame:
  assumes "ep_inv W ms ep" "length ms \<le> length ms'" "\<And>r. r \<in> W \<Longrightarrow> ms' ! r = ms ! r"
  shows "ep_inv W ms' ep"
proof -
  note D = ep_invD [OF assms(1)]
  show ?thesis
  proof (rule ep_invI)
    show "inj_on (\<lambda>r. index (ms' ! r)) W" using D(8) assms(3) by (simp add: inj_on_def)
  next
    fix t r assume "map_of (transmittedMessages ep) t = Some r"
    from D(4) [OF this]
    show "unat t < 8 \<and> r \<in> W \<and> tag (ms' ! r) = Some t \<and> response (ms' ! r) = None"
      using assms(3) by simp
  next
    fix i r assume "map_of (queuedMessages ep) i = Some r"
    from D(5) [OF this]
    show "r \<in> W \<and> tag (ms' ! r) = None \<and> index (ms' ! r) = i \<and> response (ms' ! r) = None"
      using assms(3) by simp
  next
    fix r assume r: "r \<in> W"
    from D(6) [OF r] show "r < length ms' \<and> index (ms' ! r) < msgCounter ep"
      using assms(2,3) r by auto
    fix t assume "tag (ms' ! r) = Some t"
    with r assms(3) show "map_of (transmittedMessages ep) t = Some r" by (intro D(7)) auto
  qed (use D(1-3) in blast)+
qed

subsection \<open>Transmitting queued messages\<close>

lemma queue_tail:
  assumes "smap ((i, r) # rest)"
  shows "smap rest" "map_of rest i = None"
    "map_of rest j = Some r' \<Longrightarrow> map_of ((i, r) # rest) j = Some r'"
proof -
  show "smap rest" using assms by (simp add: smap_Cons)
  show *: "map_of rest i = None" using assms by (intro map_of_min) (simp add: smap_Cons)
  show "map_of rest j = Some r' \<Longrightarrow> map_of ((i, r) # rest) j = Some r'"
    using * by auto
qed

lemma drop_head_inv:
  assumes "ep_inv W ms ep" "queuedMessages ep = (i, r) # rest"
  shows "ep_inv W ms (ep\<lparr>queuedMessages := rest\<rparr>)"
proof -
  note D = ep_invD [OF assms(1)]
  have tail: "smap rest"
    "\<And>j r'. map_of rest j = Some r' \<Longrightarrow> map_of (queuedMessages ep) j = Some r'"
    using queue_tail [of i r rest] D(2) assms(2) by auto
  have tr: "transmittedMessages (ep\<lparr>queuedMessages := rest\<rparr>) = transmittedMessages ep"
    and av: "availableTags (ep\<lparr>queuedMessages := rest\<rparr>) = availableTags ep"
    and c: "msgCounter (ep\<lparr>queuedMessages := rest\<rparr>) = msgCounter ep"
    and q: "queuedMessages (ep\<lparr>queuedMessages := rest\<rparr>) = rest"
    by simp_all
  show ?thesis
    by (rule ep_invI, unfold tr av c q) (use D tail in blast)+
qed

lemma send_head_inv:
  assumes inv: "ep_inv W ms ep" and q: "queuedMessages ep = (i, r) # rest"
    and t: "tags_next (availableTags ep) = Some t"
  defines "ep' \<equiv> ep\<lparr>queuedMessages := rest,
      availableTags := tags_erase (availableTags ep) t,
      transmittedMessages := map_emplace t r (transmittedMessages ep)\<rparr>"
    and "ms' \<equiv> ms[r := (ms ! r)\<lparr>tag := Some t\<rparr>]"
  shows "ep_inv W ms' ep'"
proof -
  note D = ep_invD [OF inv]
  have t8: "unat t < 8" "bit (availableTags ep) (unat t)"
    using tags_next_Some [OF t] by auto
  then have free: "map_of (transmittedMessages ep) t = None" using D(3) by blast
  have r: "r \<in> W" "tag (ms ! r) = None" "index (ms ! r) = i" "response (ms ! r) = None"
    using D(5) [of i r] q by auto
  have len: "r < length ms" using D(6) r by auto
  have nth: "ms' ! x = (if x = r then (ms ! r)\<lparr>tag := Some t\<rparr> else ms ! x)" for x
    using len by (simp add: ms'_def)
  have idx: "index (ms' ! x) = index (ms ! x)" for x by (simp add: nth)
  have m: "map_of (transmittedMessages ep') x =
      (if x = t then Some r else map_of (transmittedMessages ep) x)" for x
    using free D(1) by (simp add: ep'_def map_of_emplace)
  have tail: "smap rest" "map_of rest i = None"
    "\<And>j r'. map_of rest j = Some r' \<Longrightarrow> map_of (queuedMessages ep) j = Some r'"
    using queue_tail [of i r rest] D(2) q by auto
  show ?thesis
  proof (rule ep_invI)
    show "smap (transmittedMessages ep')" using D(1) by (simp add: ep'_def smap_emplace)
    show "smap (queuedMessages ep')" using tail by (simp add: ep'_def)
  next
    fix u :: byte assume "unat u < 8"
    moreover have "unat u = unat t \<longleftrightarrow> u = t" by (simp add: word_unat_eq_iff)
    ultimately show "bit (availableTags ep') (unat u) \<longleftrightarrow> map_of (transmittedMessages ep') u = None"
      using D(3) [of u] t8 by (simp add: m) (auto simp: ep'_def bit_erase)
  next
    fix u x assume u: "map_of (transmittedMessages ep') u = Some x"
    show "unat u < 8 \<and> x \<in> W \<and> tag (ms' ! x) = Some u \<and> response (ms' ! x) = None"
      using u D(4) [of u x] t8 r by (auto simp: m nth split: if_splits)
  next
    fix j x assume "map_of (queuedMessages ep') j = Some x"
    then have "map_of rest j = Some x" by (simp add: ep'_def)
    with tail(2,3) have x: "map_of (queuedMessages ep) j = Some x" "j \<noteq> i" by auto
    from D(5) [OF x(1)] x(2) r(3)
    show "x \<in> W \<and> tag (ms' ! x) = None \<and> index (ms' ! x) = j \<and> response (ms' ! x) = None"
      by (auto simp: nth)
  next
    fix x assume x: "x \<in> W"
    then show "x < length ms' \<and> index (ms' ! x) < msgCounter ep'"
      using D(6) [OF x] by (simp only: idx) (simp add: ep'_def ms'_def)
    fix u assume "tag (ms' ! x) = Some u"
    then show "map_of (transmittedMessages ep') u = Some x"
      using D(7) [OF x, of u] free by (auto simp: nth m split: if_splits)
  next
    show "inj_on (\<lambda>r. index (ms' ! r)) W" using D(8) by (simp add: idx)
  qed
qed

lemma transmit_loop_cases:
  obtains (stop) "transmitQueuedMessages tx e ep ms log = (ep, ms, log)"
      "queuedMessages ep = [] \<or> tags_next (availableTags ep) = None"
  | (drop) i r rest t call where "queuedMessages ep = (i, r) # rest"
      "tags_next (availableTags ep) = Some t" "tx log call < 0"
      "transmitQueuedMessages tx e ep ms log =
         transmitQueuedMessages tx e (ep\<lparr>queuedMessages := rest\<rparr>) ms (log @ [call])"
      "call = \<lparr>tx_dest = e, tx_payload = payload (ms ! r), tx_owner = True, tx_tag = t,
         tx_private = privateData (ms ! r)\<rparr>"
  | (sent) i r rest t call where "queuedMessages ep = (i, r) # rest"
      "tags_next (availableTags ep) = Some t" "\<not> tx log call < 0"
      "transmitQueuedMessages tx e ep ms log =
         transmitQueuedMessages tx e (ep\<lparr>queuedMessages := rest,
           availableTags := tags_erase (availableTags ep) t,
           transmittedMessages := map_emplace t r (transmittedMessages ep)\<rparr>)
           (ms[r := (ms ! r)\<lparr>tag := Some t\<rparr>]) (log @ [call])"
      "call = \<lparr>tx_dest = e, tx_payload = payload (ms ! r), tx_owner = True, tx_tag = t,
         tx_private = privateData (ms ! r)\<rparr>"
proof (cases "queuedMessages ep")
  case Nil
  then show ?thesis using stop by (simp add: transmitQueuedMessages.simps)
next
  case (Cons p rest)
  obtain i r where p: "p = (i, r)" by force
  show ?thesis
  proof (cases "tags_next (availableTags ep)")
    case None
    with Cons p show ?thesis using stop by (simp add: transmitQueuedMessages.simps)
  next
    case (Some t)
    with Cons p show ?thesis
      using drop sent
      by (cases "tx log \<lparr>tx_dest = e, tx_payload = payload (ms ! r), tx_owner = True,
            tx_tag = t, tx_private = privateData (ms ! r)\<rparr> < 0")
         (simp_all add: transmitQueuedMessages.simps [of tx e ep] Let_def)
  qed
qed

text \<open>
  The loop keeps the endpoint's invariant, does not change the counter, touches only held
  messages and only their tags, and stops with an empty queue or no tag left.
\<close>

definition tag_only :: "mref set \<Rightarrow> message list \<Rightarrow> message list \<Rightarrow> bool" where
  "tag_only W ms ms' \<longleftrightarrow> length ms' = length ms \<and>
     (\<forall>r. (r \<notin> W \<longrightarrow> ms' ! r = ms ! r) \<and> (\<exists>t. ms' ! r = (ms ! r)\<lparr>tag := t\<rparr>))"

lemma tag_only_refl: "tag_only W ms ms"
proof -
  have "\<exists>t. ms ! r = (ms ! r)\<lparr>tag := t\<rparr>" for r by (rule exI [of _ "tag (ms ! r)"]) simp
  then show ?thesis by (simp add: tag_only_def)
qed

lemma tag_only_step:
  assumes "r \<in> W" "tag_only W (ms[r := (ms ! r)\<lparr>tag := t\<rparr>]) ms'" "r < length ms"
  shows "tag_only W ms ms'"
proof -
  have "\<exists>u. ms' ! x = (ms ! x)\<lparr>tag := u\<rparr>" for x
  proof -
    obtain u where "ms' ! x = (ms[r := (ms ! r)\<lparr>tag := t\<rparr>] ! x)\<lparr>tag := u\<rparr>"
      using assms(2) by (auto simp: tag_only_def)
    then show ?thesis using assms(3) by (cases "x = r") auto
  qed
  moreover have "ms' ! x = ms ! x" if "x \<notin> W" for x
    using assms that by (cases "x = r") (auto simp: tag_only_def)
  ultimately show ?thesis using assms(2) by (simp add: tag_only_def)
qed

lemma transmit_loop:
  assumes "ep_inv W ms ep" "transmitQueuedMessages tx e ep ms log = (ep', ms', log')"
  shows "ep_inv W ms' ep' \<and> tag_only W ms ms' \<and> msgCounter ep' = msgCounter ep \<and>
    (queuedMessages ep' = [] \<or> availableTags ep' = 0)"
  using assms
proof (induction tx e ep ms log rule: transmitQueuedMessages.induct)
  case (1 tx e ep ms log)
  show ?case
  proof (cases rule: transmit_loop_cases [of tx e ep ms log])
    case stop
    with "1.prems" show ?thesis by (auto simp: tag_only_refl tags_next_None)
  next
    case (drop i r rest t call)
    have inv: "ep_inv W ms (ep\<lparr>queuedMessages := rest\<rparr>)"
      using "1.prems"(1) drop(1) by (rule drop_head_inv)
    note IH = "1.IH"(1) [OF drop(1) refl drop(2) refl refl refl]
    from IH drop "1.prems"(2) inv show ?thesis by auto
  next
    case (sent i r rest t call)
    have inv: "ep_inv W (ms[r := (ms ! r)\<lparr>tag := Some t\<rparr>]) (ep\<lparr>queuedMessages := rest,
           availableTags := tags_erase (availableTags ep) t,
           transmittedMessages := map_emplace t r (transmittedMessages ep)\<rparr>)"
      using "1.prems"(1) sent(1,2) by (rule send_head_inv)
    have r: "r \<in> W" using ep_invD(5) [OF "1.prems"(1), of i r] sent(1) by simp
    have len: "r < length ms" using ep_invD(6) [OF "1.prems"(1) r] by simp
    note IH = "1.IH"(2) [OF sent(1) refl sent(2) refl refl refl]
    from IH sent "1.prems"(2) inv show ?thesis using tag_only_step [OF r _ len] by auto
  qed
qed

subsection \<open>Every step keeps the invariant\<close>

lemma endpoint_at_assign:
  "smap (endpoints q) \<Longrightarrow> endpoint_at (q\<lparr>endpoints := map_assign e ep (endpoints q),
     messages := ms, posted := ps, txLog := log\<rparr>) x = (if x = e then ep else endpoint_at q x)"
  by (simp add: endpoint_at_def map_of_assign)

lemma endpoint_at_cong [simp]:
  "endpoint_at (q\<lparr>messages := ms\<rparr>) = endpoint_at q"
  "endpoint_at (q\<lparr>posted := ps\<rparr>) = endpoint_at q"
  "endpoint_at (q\<lparr>txLog := log\<rparr>) = endpoint_at q"
  by (simp_all add: endpoint_at_def fun_eq_iff)

text \<open>The queue's part of the invariant, for any assignment of messages to calls.\<close>

definition qinv :: "(eid \<Rightarrow> mref set) \<Rightarrow> tqueue \<Rightarrow> bool" where
  "qinv W q \<longleftrightarrow> smap (endpoints q) \<and>
     (\<forall>e e'. e \<noteq> e' \<longrightarrow> W e \<inter> W e' = {}) \<and>
     (\<forall>e. ep_inv (W e) (messages q) (endpoint_at q e))"

lemma held_disjoint: "distinct (map snd (waiting s)) \<Longrightarrow> e \<noteq> e' \<Longrightarrow> held s e \<inter> held s e' = {}"
proof -
  assume *: "distinct (map snd (waiting s))" "e \<noteq> e'"
  then have inj: "inj_on snd (set (waiting s))" by (simp add: distinct_map)
  have False if "(e, x) \<in> set (waiting s)" "(e', x) \<in> set (waiting s)" for x
    using inj_onD [OF inj _ that] *(2) by simp
  then show ?thesis by (auto simp: held_def)
qed

lemma tinv_qinv: "tinv s \<longleftrightarrow> distinct (map snd (waiting s)) \<and> qinv (held s) (queue s)"
  using held_disjoint by (auto simp: tinv_def qinv_def)

text \<open>Replacing one endpoint and messages only its own calls hold.\<close>

lemma qinv_update:
  assumes "qinv W q" "ep_inv (W e) ms ep" "length (messages q) \<le> length ms"
    and "\<And>r. r \<notin> W e \<Longrightarrow> r < length (messages q) \<Longrightarrow> ms ! r = messages q ! r"
  shows "qinv W (q\<lparr>endpoints := map_assign e ep (endpoints q), messages := ms, posted := ps,
      txLog := log\<rparr>)"
proof -
  have "ep_inv (W x) ms (endpoint_at q x)" if "x \<noteq> e" for x
  proof (rule ep_inv_frame)
    show inv: "ep_inv (W x) (messages q) (endpoint_at q x)" using assms(1) by (simp add: qinv_def)
    fix r assume r: "r \<in> W x"
    from assms(1) that have "W x \<inter> W e = {}" unfolding qinv_def by blast
    with r have "r \<notin> W e" by blast
    moreover have "r < length (messages q)" using ep_invD(6) [OF inv r] by simp
    ultimately show "ms ! r = messages q ! r" using assms(4) by blast
  qed (use assms(3) in simp)
  with assms(1,2) show ?thesis
    unfolding qinv_def by (simp add: smap_assign endpoint_at_def map_of_assign split: if_splits)
qed

lemma flush_qinv:
  assumes q: "smap (endpoints q)" "\<forall>e e'. e \<noteq> e' \<longrightarrow> W e \<inter> W e' = {}"
    and others: "\<forall>x. x \<noteq> e \<longrightarrow> ep_inv (W x) (messages q) (endpoint_at q x)"
    and ep: "ep_inv (W e) (messages q) ep"
  shows "qinv W (flush tx e ep q)"
proof -
  obtain ep' ms log where loop: "transmitQueuedMessages tx e ep (messages q) (txLog q) = (ep', ms, log)"
    by (cases "transmitQueuedMessages tx e ep (messages q) (txLog q)") auto
  from transmit_loop [OF ep loop] have l: "ep_inv (W e) ms ep'" "tag_only (W e) (messages q) ms"
    by auto
  have "ep_inv (W x) ms (endpoint_at q x)" if "x \<noteq> e" for x
  proof (rule ep_inv_frame)
    show "ep_inv (W x) (messages q) (endpoint_at q x)" using others that by blast
    fix r assume "r \<in> W x"
    with q(2) that have "r \<notin> W e" by blast
    with l(2) show "ms ! r = messages q ! r" by (simp add: tag_only_def)
  qed (use l(2) in \<open>simp add: tag_only_def\<close>)
  with q l(1) show ?thesis
    by (simp add: flush_def loop qinv_def smap_assign endpoint_at_def map_of_assign)
qed

lemma run_posted_qinv: "qinv W q \<Longrightarrow> qinv W (run_posted tx q)"
proof (cases "posted q")
  case (Cons e es)
  assume "qinv W q"
  then have "qinv W (flush tx e (endpoint_at q e) (q\<lparr>posted := es\<rparr>))"
    by (intro flush_qinv) (simp_all add: qinv_def)
  with Cons show ?thesis by (simp add: run_posted_def)
qed (simp add: run_posted_def)

lemma receive_Some:
  assumes "receive e t resp q = (b, q')"
  obtains (no) "\<not> b" "q' = q"
      "map_of (transmittedMessages (endpoint_at q e)) t = None"
  | (yes) r where "b" "map_of (transmittedMessages (endpoint_at q e)) t = Some r"
      "q' = q\<lparr>endpoints := map_assign e ((endpoint_at q e)\<lparr>
             transmittedMessages := map_erase t (transmittedMessages (endpoint_at q e)),
             availableTags := tags_emplace (availableTags (endpoint_at q e)) t\<rparr>) (endpoints q),
           messages := (messages q)[r := (messages q ! r)\<lparr>response := Some resp, tag := None,
             timerCancelled := True\<rparr>],
           posted := posted q @ [e]\<rparr>"
  using assms
  by (auto simp: receive_def endpoint_at_def new_endpoint_def Let_def split: option.splits)

text \<open>Taking a message off its tag: when its response arrives or its call gives up.\<close>

lemma release_inv:
  assumes inv: "ep_inv W ms ep" and t: "map_of (transmittedMessages ep) t = Some r"
    and msg: "tag msg = None" "index msg = index (ms ! r)"
  defines "ep' \<equiv> ep\<lparr>transmittedMessages := map_erase t (transmittedMessages ep),
      availableTags := tags_emplace (availableTags ep) t\<rparr>"
  shows "ep_inv W (ms[r := msg]) ep'"
proof -
  note D = ep_invD [OF inv]
  from D(4) [OF t] have r: "unat t < 8" "r \<in> W" "tag (ms ! r) = Some t" by auto
  from D(6) [OF r(2)] have len: "r < length ms" by simp
  have nth: "ms[r := msg] ! x = (if x = r then msg else ms ! x)" for x
    using len by simp
  have idx: "index (ms[r := msg] ! x) = index (ms ! x)" for x
    using msg(2) by (simp add: nth)
  have m: "map_of (transmittedMessages ep') x =
      (if x = t then None else map_of (transmittedMessages ep) x)" for x
    by (simp add: ep'_def map_of_erase)
  show ?thesis
  proof (rule ep_invI)
    show "smap (transmittedMessages ep')" using D(1) by (simp add: ep'_def smap_erase)
    show "smap (queuedMessages ep')" using D(2) by (simp add: ep'_def)
  next
    fix u :: byte assume "unat u < 8"
    moreover have "unat u = unat t \<longleftrightarrow> u = t" by (simp add: word_unat_eq_iff)
    ultimately show "bit (availableTags ep') (unat u) \<longleftrightarrow> map_of (transmittedMessages ep') u = None"
      using D(3) [of u] r(1) by (simp add: m) (auto simp: ep'_def bit_emplace)
  next
    fix u x assume "map_of (transmittedMessages ep') u = Some x"
    then have u: "map_of (transmittedMessages ep) u = Some x" "u \<noteq> t"
      by (auto simp: m split: if_splits)
    moreover from this D(4) [OF u(1)] r(3) have "x \<noteq> r" by auto
    ultimately show "unat u < 8 \<and> x \<in> W \<and> tag (ms[r := msg] ! x) = Some u
        \<and> response (ms[r := msg] ! x) = None"
      using D(4) [OF u(1)] by (simp add: nth)
  next
    fix j x assume "map_of (queuedMessages ep') j = Some x"
    then have x: "map_of (queuedMessages ep) j = Some x" by (simp add: ep'_def)
    from D(5) [OF x] r(3) have "x \<noteq> r" by auto
    with D(5) [OF x] show "x \<in> W \<and> tag (ms[r := msg] ! x) = None
        \<and> index (ms[r := msg] ! x) = j \<and> response (ms[r := msg] ! x) = None"
      by (simp add: nth)
  next
    fix x assume x: "x \<in> W"
    from D(6) [OF x] show "x < length (ms[r := msg]) \<and> index (ms[r := msg] ! x) < msgCounter ep'"
      by (simp only: idx) (simp add: ep'_def)
    fix u assume "tag (ms[r := msg] ! x) = Some u"
    with msg(1) have "x \<noteq> r" "tag (ms ! x) = Some u" by (auto simp: nth split: if_splits)
    with D(7) [OF x] t show "map_of (transmittedMessages ep') u = Some x" by (auto simp: m)
  next
    show "inj_on (\<lambda>x. index (ms[r := msg] ! x)) W" using D(8) by (simp only: idx)
  qed
qed

lemma receive_qinv:
  assumes "qinv W q"
  shows "qinv W (snd (receive e t resp q))"
proof -
  obtain b q' where rc: "receive e t resp q = (b, q')" by force
  then show ?thesis
  proof (cases rule: receive_Some)
    case no
    with assms rc show ?thesis by simp
  next
    case (yes r)
    have inv: "ep_inv (W e) (messages q) (endpoint_at q e)" using assms by (simp add: qinv_def)
    have r: "r \<in> W e" using ep_invD(4) [OF inv yes(2)] by simp
    have other: "(messages q)[r := msg] ! x = messages q ! x" if "x \<notin> W e" for x msg
      using r that by (cases "x = r") auto
    let ?msg = "(messages q ! r)\<lparr>response := Some resp, tag := None, timerCancelled := True\<rparr>"
    have "ep_inv (W e) ((messages q)[r := ?msg]) ((endpoint_at q e)\<lparr>
             transmittedMessages := map_erase t (transmittedMessages (endpoint_at q e)),
             availableTags := tags_emplace (availableTags (endpoint_at q e)) t\<rparr>)"
      by (rule release_inv [OF inv yes(2)]) simp_all
    from qinv_update [OF assms this, of "txLog q" "posted q @ [e]"] other
    show ?thesis by (simp add: rc yes(3))
  qed
qed

text \<open>Giving up: the call's message leaves the queue, and its tag, if it has one, is freed.\<close>

lemma shrink_inv:
  assumes inv: "ep_inv W ms ep" and "W' \<subseteq> W"
    and "\<And>t r. map_of (transmittedMessages ep) t = Some r \<Longrightarrow> r \<in> W'"
      "\<And>i r. map_of (queuedMessages ep) i = Some r \<Longrightarrow> r \<in> W'"
  shows "ep_inv W' ms ep"
proof -
  note D = ep_invD [OF inv]
  show ?thesis
  proof (rule ep_invI)
    show "inj_on (\<lambda>r. index (ms ! r)) W'" using D(8) assms(2) by (rule inj_on_subset)
  qed (use D assms in blast)+
qed

lemma unqueue_inv:
  assumes inv: "ep_inv W ms ep"
  shows "ep_inv W ms (ep\<lparr>queuedMessages := map_erase i (queuedMessages ep)\<rparr>)"
proof -
  note D = ep_invD [OF inv]
  let ?ep = "ep\<lparr>queuedMessages := map_erase i (queuedMessages ep)\<rparr>"
  have tr: "transmittedMessages ?ep = transmittedMessages ep"
    and av: "availableTags ?ep = availableTags ep" and c: "msgCounter ?ep = msgCounter ep"
    and q: "queuedMessages ?ep = map_erase i (queuedMessages ep)"
    by simp_all
  have m: "smap (map_erase i (queuedMessages ep))"
    "\<And>j r. map_of (map_erase i (queuedMessages ep)) j = Some r \<Longrightarrow>
       map_of (queuedMessages ep) j = Some r"
    using D(2) by (auto simp: smap_erase map_of_erase split: if_splits)
  show ?thesis
    by (rule ep_invI, unfold tr av c q) (use D m in blast)+
qed

lemma dispose_inv:
  assumes inv: "ep_inv W ms ep" and r: "r \<in> W"
  defines "ep1 \<equiv> ep\<lparr>queuedMessages := map_erase (index (ms ! r)) (queuedMessages ep)\<rparr>"
  defines "ep2 \<equiv> (case tag (ms ! r) of None \<Rightarrow> ep1
     | Some t \<Rightarrow> ep1\<lparr>availableTags := tags_emplace (availableTags ep1) t,
         transmittedMessages := map_erase t (transmittedMessages ep1)\<rparr>)"
  shows "ep_inv (W - {r}) ms ep2"
proof -
  have inv1: "ep_inv W ms ep1" unfolding ep1_def by (rule unqueue_inv [OF inv])
  have noq: "r' \<noteq> r" if "map_of (queuedMessages ep1) i = Some r'" for i r'
    using ep_invD(5) [OF inv1 that] that by (auto simp: ep1_def map_of_erase)
  show ?thesis
  proof (cases "tag (ms ! r)")
    case None
    then have "ep2 = ep1" by (simp add: ep2_def)
    moreover have "ep_inv (W - {r}) ms ep1"
      by (rule shrink_inv [OF inv1]) (use ep_invD(4,5) [OF inv1] noq None in force)+
    ultimately show ?thesis by simp
  next
    case (Some t)
    have t: "map_of (transmittedMessages ep1) t = Some r"
      using ep_invD(7) [OF inv1 r Some] .
    define msg where "msg = (ms ! r)\<lparr>tag := None\<rparr>"
    have ep2: "ep2 = ep1\<lparr>transmittedMessages := map_erase t (transmittedMessages ep1),
        availableTags := tags_emplace (availableTags ep1) t\<rparr>"
      using Some by (simp add: ep2_def)
    have "ep_inv W (ms[r := msg]) ep2"
      unfolding ep2 by (rule release_inv [OF inv1 t]) (simp_all add: msg_def)
    then have "ep_inv (W - {r}) (ms[r := msg]) ep2"
    proof (rule shrink_inv)
      fix u x assume u: "map_of (transmittedMessages ep2) u = Some x"
      then have "map_of (transmittedMessages ep1) u = Some x" "u \<noteq> t"
        by (auto simp: ep2 map_of_erase split: if_splits)
      with ep_invD(4) [OF inv1] Some show "x \<in> W - {r}" by force
    next
      fix i x assume "map_of (queuedMessages ep2) i = Some x"
      then have "map_of (queuedMessages ep1) i = Some x" by (simp add: ep2)
      with ep_invD(5) [OF inv1] noq show "x \<in> W - {r}" by blast
    qed auto
    then show ?thesis
      by (rule ep_inv_frame) auto
  qed
qed

lemma finish_inv:
  assumes "qinv W q" "r \<in> W e"
  shows "qinv (W(e := W e - {r})) (snd (sendReceive_finish ec e r q))"
proof -
  let ?W = "W(e := W e - {r})"
  have inv: "ep_inv (W x) (messages q) (endpoint_at q x)" for x
    using assms(1) by (simp add: qinv_def)
  have disj: "\<forall>a b. a \<noteq> b \<longrightarrow> ?W a \<inter> ?W b = {}"
    using assms(1) unfolding qinv_def by (simp add: Int_Diff) blast
  have sm: "smap (endpoints q)" using assms(1) by (simp add: qinv_def)
  have disposed: "qinv ?W (dispose e r q)"
    using dispose_inv [OF inv assms(2)] inv sm disj
    unfolding qinv_def dispose_def Let_def
    by (simp add: smap_assign endpoint_at_def map_of_assign cong: option.case_cong)
  have answered: "qinv ?W q" if "response (messages q ! r) \<noteq> None"
  proof -
    have "ep_inv (W e - {r}) (messages q) (endpoint_at q e)"
      by (rule shrink_inv [OF inv]) (use ep_invD(4,5) [OF inv] that in force)+
    with inv sm disj show ?thesis by (simp add: qinv_def)
  qed
  show ?thesis
    using disposed answered by (auto simp: sendReceive_finish_def split: option.splits)
qed

lemma counter_no_wrap: "(c :: u64) \<noteq> 0xffffffffffffffff \<Longrightarrow> unat c + 1 < 2 ^ 64"
proof -
  assume "c \<noteq> 0xffffffffffffffff"
  then have "unat c \<noteq> unat (0xffffffffffffffff :: u64)" by (simp add: word_unat_eq_iff)
  then show ?thesis using unsigned_less [of c, where ?'a = nat] by simp
qed

lemma enqueue_inv:
  assumes inv: "ep_inv W ms ep" and wrap: "msgCounter ep \<noteq> 0xffffffffffffffff"
  defines "ep' \<equiv> ep\<lparr>msgCounter := msgCounter ep + 1,
      queuedMessages := map_emplace (msgCounter ep) (length ms) (queuedMessages ep)\<rparr>"
  shows "ep_inv (insert (length ms) W) (ms @ [make_message (msgCounter ep) pl priv]) ep'"
proof -
  note D = ep_invD [OF inv]
  let ?c = "msgCounter ep" and ?ms = "ms @ [make_message (msgCounter ep) pl priv]"
  have less: "i < ?c \<Longrightarrow> i < ?c + 1" "?c < ?c + 1" for i
    using counter_no_wrap [OF wrap] by (auto simp: word_less_nat_alt unat_word_ariths)
  have old: "?ms ! x = ms ! x" if "x \<in> W" for x
    using D(6) [OF that] by (simp add: nth_append)
  have new: "?ms ! length ms = make_message ?c pl priv" by simp
  have fresh: "length ms \<notin> W" using D(6) by blast
  have "map_of (queuedMessages ep) ?c = None"
  proof (rule ccontr)
    assume "map_of (queuedMessages ep) ?c \<noteq> None"
    then obtain r where "map_of (queuedMessages ep) ?c = Some r" by auto
    from D(5) [OF this] have "r \<in> W" "index (ms ! r) = ?c" by auto
    with D(6) [of r] show False by simp
  qed
  then have q: "map_of (queuedMessages ep') x =
      (if x = ?c then Some (length ms) else map_of (queuedMessages ep) x)" for x
    using D(2) by (simp add: ep'_def map_of_emplace)
  have tr: "transmittedMessages ep' = transmittedMessages ep" by (simp add: ep'_def)
  show ?thesis
  proof (rule ep_invI)
    show "smap (transmittedMessages ep')" "smap (queuedMessages ep')"
      using D(1,2) by (simp_all add: ep'_def smap_emplace)
  next
    fix t :: byte assume "unat t < 8"
    from D(3) [OF this] show "bit (availableTags ep') (unat t) \<longleftrightarrow>
        map_of (transmittedMessages ep') t = None" by (simp add: ep'_def)
  next
    fix t r assume "map_of (transmittedMessages ep') t = Some r"
    then have "map_of (transmittedMessages ep) t = Some r" by (simp add: tr)
    from D(4) [OF this] show "unat t < 8 \<and> r \<in> insert (length ms) W \<and> tag (?ms ! r) = Some t
        \<and> response (?ms ! r) = None" by (simp add: old)
  next
    fix i r assume i: "map_of (queuedMessages ep') i = Some r"
    show "r \<in> insert (length ms) W \<and> tag (?ms ! r) = None \<and> index (?ms ! r) = i
        \<and> response (?ms ! r) = None"
    proof (cases "i = ?c")
      case True
      with i show ?thesis by (auto simp: q make_message_def)
    next
      case False
      with i have "map_of (queuedMessages ep) i = Some r" by (simp add: q)
      from D(5) [OF this] show ?thesis by (simp add: old)
    qed
  next
    fix r assume r: "r \<in> insert (length ms) W"
    then show "r < length ?ms \<and> index (?ms ! r) < msgCounter ep'"
    proof
      assume "r = length ms"
      then show ?thesis using less(2) by (simp add: ep'_def make_message_def)
    next
      assume "r \<in> W"
      with D(6) [OF this] old less(1) show ?thesis by (simp add: ep'_def)
    qed
    fix t assume "tag (?ms ! r) = Some t"
    with r D(7) old show "map_of (transmittedMessages ep') t = Some r"
      by (auto simp: tr make_message_def)
  next
    define f where "f = (\<lambda>x. index (?ms ! x))"
    have f: "f x = index (ms ! x)" if "x \<in> W" for x using old [OF that] by (simp add: f_def)
    have "?c \<noteq> f x" if "x \<in> W" for x using D(6) [OF that] f [OF that] by auto
    then have "?c \<notin> f ` W" by blast
    moreover have "f (length ms) = ?c" by (simp add: f_def make_message_def)
    moreover have "inj_on f W" using D(8) f by (simp add: inj_on_def)
    ultimately show "inj_on f (insert (length ms) W)" using fresh by simp
  qed
qed

lemma transmit_qinv:
  assumes q: "qinv W q" and wrap: "msgCounter (endpoint_at q e) \<noteq> 0xffffffffffffffff"
    and t: "transmit tx e pl priv q = (r, q')"
  shows "r = length (messages q)" "qinv (W(e := insert r (W e))) q'"
proof -
  let ?r = "length (messages q)"
  let ?W = "W(e := insert ?r (W e))"
  let ?msg = "make_message (msgCounter (endpoint_at q e)) pl priv"
  have inv: "ep_inv (W x) (messages q) (endpoint_at q x)" for x
    using q by (simp add: qinv_def)
  have fresh: "?r \<notin> W x" for x using ep_invD(6) [OF inv] by blast
  show "r = ?r" using t by (simp add: transmit_def Let_def)
  let ?ep = "(endpoint_at q e)\<lparr>msgCounter := msgCounter (endpoint_at q e) + 1,
      queuedMessages := map_emplace (msgCounter (endpoint_at q e)) ?r
        (queuedMessages (endpoint_at q e))\<rparr>"
  have "qinv ?W (flush tx e ?ep (q\<lparr>messages := messages q @ [?msg]\<rparr>))"
  proof (rule flush_qinv)
    show "smap (endpoints (q\<lparr>messages := messages q @ [?msg]\<rparr>))" using q by (simp add: qinv_def)
    show "\<forall>a b. a \<noteq> b \<longrightarrow> ?W a \<inter> ?W b = {}" using q fresh by (auto simp: qinv_def)
    show "ep_inv (?W e) (messages (q\<lparr>messages := messages q @ [?msg]\<rparr>)) ?ep"
      using enqueue_inv [OF inv wrap] by simp
    have "ep_inv (W x) (messages q @ [?msg]) (endpoint_at q x)" for x
      by (rule ep_inv_frame [OF inv]) (use ep_invD(6) [OF inv] in \<open>auto simp: nth_append\<close>)
    then show "\<forall>x. x \<noteq> e \<longrightarrow> ep_inv (?W x) (messages (q\<lparr>messages := messages q @ [?msg]\<rparr>))
        (endpoint_at (q\<lparr>messages := messages q @ [?msg]\<rparr>) x)" by simp
  qed
  then show "qinv (W(e := insert r (W e))) q'"
    using t by (auto simp: transmit_def Let_def)
qed

lemma held_send: "held \<lparr>queue = q, waiting = ws @ [(e, r)]\<rparr> =
    (held \<lparr>queue = q', waiting = ws\<rparr>)(e := insert r (held \<lparr>queue = q', waiting = ws\<rparr> e))"
  by (auto simp: held_def fun_eq_iff)

lemma held_wake:
  assumes "distinct (map snd ws)" "n < length ws" "ws ! n = (e, r)"
  shows "held \<lparr>queue = q, waiting = take n ws @ drop (Suc n) ws\<rparr> =
    (held \<lparr>queue = q', waiting = ws\<rparr>)(e := held \<lparr>queue = q', waiting = ws\<rparr> e - {r})"
    and "distinct (map snd (take n ws @ drop (Suc n) ws))"
proof -
  from assms have ws: "ws = take n ws @ (e, r) # drop (Suc n) ws"
    by (metis id_take_nth_drop)
  have d: "distinct (map snd (take n ws @ (e, r) # drop (Suc n) ws))"
    using assms(1) ws by simp
  then have notin: "r \<notin> snd ` set (take n ws @ drop (Suc n) ws)" by auto
  show "distinct (map snd (take n ws @ drop (Suc n) ws))" using d by auto
  have "set ws = insert (e, r) (set (take n ws @ drop (Suc n) ws))"
    by (subst ws) auto
  with notin show "held \<lparr>queue = q, waiting = take n ws @ drop (Suc n) ws\<rparr> =
    (held \<lparr>queue = q', waiting = ws\<rparr>)(e := held \<lparr>queue = q', waiting = ws\<rparr> e - {r})"
    by (force simp: held_def fun_eq_iff)
qed

lemma held_queue: "held (s\<lparr>queue := q\<rparr>) = held s"
  by (simp add: held_def fun_eq_iff)

lemma tstep_inv:
  assumes "tinv s" "tenabled s ev"
  shows "tinv (tstep tx s ev)"
proof -
  obtain q ws where s: "s = \<lparr>queue = q, waiting = ws\<rparr>" by (cases s)
  from assms(1) s have d: "distinct (map snd ws)" and q: "qinv (held s) q"
    by (auto simp: tinv_qinv)
  have bound: "r < length (messages q)" if "(e, r) \<in> set ws" for e r
    using q that s ep_invD(6) by (fastforce simp: qinv_def held_def)
  show ?thesis
  proof (cases ev)
    case (Send e pl priv)
    obtain r q' where t: "transmit tx e pl priv q = (r, q')" by force
    note tq = transmit_qinv [OF q _ t]
    from tq assms(2) s Send have r: "r = length (messages q)"
        and q': "qinv ((held s)(e := insert r (held s e))) q'" by auto
    have "r \<notin> snd ` set ws" using bound r by force
    with d q' show ?thesis
      unfolding tinv_qinv by (simp add: s Send t held_send [of q' ws e r q])
  next
    case (Arrive e t resp)
    with d receive_qinv [OF q] assms(1) show ?thesis
      by (simp add: tinv_qinv held_queue) (simp add: s)
  next
    case Posted
    with d run_posted_qinv [OF q] assms(1) show ?thesis
      by (simp add: tinv_qinv held_queue) (simp add: s)
  next
    case (Wake n ec)
    show ?thesis
    proof (cases "n < length ws")
      case True
      obtain e r where er: "ws ! n = (e, r)" by force
      with True have "r \<in> held s e" by (auto simp: held_def s) (metis nth_mem)
      let ?q = "snd (sendReceive_finish ec e r q)"
      have "held \<lparr>queue = ?q, waiting = take n ws @ drop (Suc n) ws\<rparr>
          = (held s)(e := held s e - {r})"
        unfolding s by (rule held_wake(1) [OF d True er])
      with finish_inv [OF q \<open>r \<in> held s e\<close>]
      have "qinv (held \<lparr>queue = ?q, waiting = take n ws @ drop (Suc n) ws\<rparr>) ?q" by simp
      with held_wake(2) [OF d True er] have "tinv \<lparr>queue = ?q,
          waiting = take n ws @ drop (Suc n) ws\<rparr>" by (simp only: tinv_qinv tsystem.simps)
      with True er show ?thesis by (simp add: Wake s)
    next
      case False
      with assms(1) Wake s show ?thesis by simp
    qed
  qed
qed

end
