(* ===== verification/Transmission_Props.thy ===== *)
theory Transmission_Props
  imports Transmission_Queue
begin

text \<open>
  What the transmission queue and the suspended D-Bus calls guarantee in every reachable
  state, and one state in which a request is left behind.
\<close>

interpretation tq: machine tstart "tstep tx" tenabled tinv for tx
  by unfold_locales (simp_all add: tinv_start tstep_inv)

lemma reachable_ep_inv:
  assumes "admissible (tstep tx) tenabled tstart es"
  defines "s \<equiv> run (tstep tx) tstart es"
  shows "ep_inv (held s e) (messages (queue s)) (endpoint_at (queue s) e)"
    and "distinct (map snd (waiting s))"
  using tq.inv_run [OF assms(1)] by (simp_all add: s_def tinv_def)

lemma smap_map_of: "smap m \<Longrightarrow> (k, v) \<in> set m \<longleftrightarrow> map_of m k = Some v"
  by (metis map_of_eq_Some_iff smap_distinct)

lemma distinct_values:
  assumes "smap m" "\<And>k v. map_of m k = Some v \<Longrightarrow> f v = Some k"
  shows "distinct (map snd m)"
proof -
  have key: "f v = Some k" if "(k, v) \<in> set m" for k v
    using that assms smap_map_of by metis
  have "inj_on snd (set m)"
  proof (rule inj_onI)
    fix x y assume "x \<in> set m" "y \<in> set m" and v: "snd x = snd y"
    moreover obtain j a where "x = (j, a)" by force
    moreover obtain k b where "y = (k, b)" by force
    ultimately show "x = y" using key [of j a] key [of k b] by simp
  qed
  moreover have "distinct m" using smap_distinct [OF assms(1)] by (simp add: distinct_map)
  ultimately show ?thesis by (simp add: distinct_map)
qed

lemma length_le_8:
  assumes "smap m" "\<And>t r. map_of m t = Some r \<Longrightarrow> unat (t :: byte) < 8"
  shows "length m \<le> 8"
proof -
  have "length m = card (set (map fst m))"
    using smap_distinct [OF assms(1)] by (metis distinct_card length_map)
  also have "set (map fst m) \<subseteq> word_of_nat ` {..<8}"
  proof
    fix t assume "t \<in> set (map fst m)"
    then obtain r where "map_of m t = Some r" using smap_map_of [OF assms(1)] by auto
    then have "unat t < 8" by (rule assms(2))
    then show "t \<in> word_of_nat ` {..<8}" by (intro image_eqI [of _ _ "unat t"]) simp_all
  qed
  then have "card (set (map fst m)) \<le> card ((word_of_nat :: nat \<Rightarrow> byte) ` {..<8})"
    by (intro card_mono) auto
  also have "\<dots> \<le> 8" using card_image_le [of "{..<8::nat}"] by simp
  finally show ?thesis .
qed

text \<open>
  C10: In every reachable state at most eight requests to an endpoint are in flight; a tag
  is available exactly when no request in flight carries it; no two of them share a tag,
  no request is in flight twice, and each belongs to a D-Bus call that is still waiting
  and has no response yet.
\<close>

theorem tags_identify_requests:
  fixes e :: eid
  assumes "admissible (tstep tx) tenabled tstart es"
  defines "s \<equiv> run (tstep tx) tstart es"
  defines "ep \<equiv> endpoint_at (queue s) e"
  shows "length (transmittedMessages ep) \<le> 8 \<and>
    distinct (map fst (transmittedMessages ep)) \<and> distinct (map snd (transmittedMessages ep)) \<and>
    (\<forall>t. unat t < 8 \<longrightarrow> (bit (availableTags ep) (unat t) \<longleftrightarrow> t \<notin> fst ` set (transmittedMessages ep))) \<and>
    (\<forall>(t, r) \<in> set (transmittedMessages ep). (e, r) \<in> set (waiting s) \<and>
       tag (messages (queue s) ! r) = Some t \<and> response (messages (queue s) ! r) = None)"
proof -
  note D = ep_invD [OF reachable_ep_inv(1) [OF assms(1), of e], folded s_def, folded ep_def]
  have mem: "(t, r) \<in> set (transmittedMessages ep) \<longleftrightarrow> map_of (transmittedMessages ep) t = Some r"
    for t r using smap_map_of [OF D(1)] .
  have "distinct (map snd (transmittedMessages ep))"
    by (rule distinct_values [where f = "\<lambda>r. tag (messages (queue s) ! r)"]) (use D(1,4) in auto)
  moreover have "t \<notin> fst ` set (transmittedMessages ep) \<longleftrightarrow> map_of (transmittedMessages ep) t = None" for t
    by (simp add: map_of_eq_None_iff)
  moreover have "\<forall>(t, r) \<in> set (transmittedMessages ep). (e, r) \<in> set (waiting s) \<and>
       tag (messages (queue s) ! r) = Some t \<and> response (messages (queue s) ! r) = None"
    using D(4) by (auto simp: mem held_def)
  moreover have "length (transmittedMessages ep) \<le> 8"
    by (rule length_le_8) (use D(1,4) in auto)
  ultimately show ?thesis
    using D(3) smap_distinct [OF D(1)] by simp
qed

theorem tags_identify_requests_witness:
  "length (transmittedMessages (endpoint_at (queue
     (run (tstep (\<lambda>_ _. 0)) tstart (replicate 3 (Send 8 [1] [])))) 8)) \<le> 8"
proof -
  have a: "admissible (tstep (\<lambda>_ _. 0)) tenabled tstart (replicate 3 (Send 8 [1] []))"
    by code_simp
  from tags_identify_requests [OF a] show ?thesis by blast
qed

text \<open>
  C1: No tag leaks: when no D-Bus call is waiting any more, every endpoint has all eight
  tags available and nothing queued or in flight, whatever responses, timeouts, transmit
  failures and timer errors occurred before.
\<close>

theorem no_tag_leak:
  fixes e :: eid
  assumes "admissible (tstep tx) tenabled tstart es"
    and "waiting (run (tstep tx) tstart es) = []"
  defines "ep \<equiv> endpoint_at (queue (run (tstep tx) tstart es)) e"
  shows "availableTags ep = 0xff \<and> transmittedMessages ep = [] \<and> queuedMessages ep = []"
proof -
  have none: "held (run (tstep tx) tstart es) e = {}" using assms(2) by (simp add: held_def)
  note D = ep_invD [OF reachable_ep_inv(1) [OF assms(1), of e, unfolded none], folded ep_def]
  have "map_of (transmittedMessages ep) t = None" for t
    using D(4) [of t] by (cases "map_of (transmittedMessages ep) t") auto
  then have tr: "transmittedMessages ep = []" by (metis map_of_eq_empty_iff ext)
  have "map_of (queuedMessages ep) i = None" for i
    using D(5) [of i] by (cases "map_of (queuedMessages ep) i") auto
  then have q: "queuedMessages ep = []" by (metis map_of_eq_empty_iff ext)
  have "availableTags ep = 0xff"
  proof (rule bit_word_eqI)
    fix n assume n: "n < LENGTH(8)"
    then have "bit (availableTags ep) (unat (word_of_nat n :: byte))"
      using D(3) [of "word_of_nat n"] tr by (simp add: unat_of_nat)
    moreover have "bit (0xff :: byte) n" using n by (intro bit_all_ones) simp
    ultimately show "bit (availableTags ep) n \<longleftrightarrow> bit (0xff :: byte) n"
      using n by (simp add: unat_of_nat)
  qed
  with tr q show ?thesis by simp
qed

theorem no_tag_leak_witness:
  "availableTags (endpoint_at (queue (run (tstep (\<lambda>_ _. 0)) tstart
     [Send 8 [1] [], Send 8 [2] [], Arrive 8 0 [7], Wake 0 operation_aborted, Wake 0 no_error])) 8)
   = 0xff"
proof -
  have a: "admissible (tstep (\<lambda>_ _. 0)) tenabled tstart
     [Send 8 [1] [], Send 8 [2] [], Arrive 8 0 [7], Wake 0 operation_aborted, Wake 0 no_error]"
    by code_simp
  have b: "waiting (run (tstep (\<lambda>_ _. 0)) tstart
     [Send 8 [1] [], Send 8 [2] [], Arrive 8 0 [7], Wake 0 operation_aborted, Wake 0 no_error]) = []"
    by code_simp
  from no_tag_leak [OF a b] show ?thesis by blast
qed

text \<open>
  C2: A response is given to the request it answers: \<open>receive\<close> accepts a message exactly
  when some waiting call to that EID holds the request with that tag; then only that
  request changes, and its call returns these bytes when it wakes up (an empty response is
  reported as an error). Anything else leaves the queue as it is.
\<close>

theorem response_reaches_its_request:
  assumes "admissible (tstep tx) tenabled tstart es"
    and "receive e t resp (queue (run (tstep tx) tstart es)) = (accepted, q')"
  defines "s \<equiv> run (tstep tx) tstart es"
  shows "(\<not> accepted \<longrightarrow> q' = queue s \<and>
        (\<forall>r. (e, r) \<in> set (waiting s) \<longrightarrow> tag (messages (queue s) ! r) \<noteq> Some t)) \<and>
    (accepted \<longrightarrow> (\<exists>r. (e, r) \<in> set (waiting s) \<and> tag (messages (queue s) ! r) = Some t \<and>
        (\<forall>x. x \<noteq> r \<longrightarrow> messages q' ! x = messages (queue s) ! x) \<and>
        (\<forall>ec. ec \<noteq> timer_failure \<longrightarrow> fst (sendReceive_finish ec e r q') =
           (if resp = [] then Inl no_message_available else Inr resp))))"
proof -
  note D = ep_invD [OF reachable_ep_inv(1) [OF assms(1), of e], folded s_def]
  from assms(2) have rc: "receive e t resp (queue s) = (accepted, q')" by (simp add: s_def)
  then show ?thesis
  proof (cases rule: receive_Some)
    case no
    have "tag (messages (queue s) ! r) \<noteq> Some t" if "(e, r) \<in> set (waiting s)" for r
      using D(7) [of r t] no(3) that by (auto simp: held_def)
    with no show ?thesis by blast
  next
    case (yes r)
    from D(4) [OF yes(2)] have r: "(e, r) \<in> set (waiting s)" "tag (messages (queue s) ! r) = Some t"
      by (auto simp: held_def)
    from D(6) [of r] r have len: "r < length (messages (queue s))" by (simp add: held_def)
    then have "fst (sendReceive_finish ec e r q') =
        (if resp = [] then Inl no_message_available else Inr resp)" if "ec \<noteq> timer_failure" for ec
      using that by (cases ec) (simp_all add: yes(3) sendReceive_finish_def)
    moreover have "messages q' ! x = messages (queue s) ! x" if "x \<noteq> r" for x
      using that by (simp add: yes(3))
    ultimately show ?thesis using yes(1) r by blast
  qed
qed

theorem response_reaches_its_request_witness:
  "\<exists>q'. receive 8 0 [7] (queue (run (tstep (\<lambda>_ _. 0)) tstart [Send 8 [1] []])) = (True, q') \<and>
     (\<exists>r. fst (sendReceive_finish no_error 8 r q') = Inr [7])"
proof -
  have a: "admissible (tstep (\<lambda>_ _. 0)) tenabled tstart [Send 8 [1] []]" by code_simp
  obtain b q' where b: "receive 8 0 [7] (queue (run (tstep (\<lambda>_ _. 0)) tstart [Send 8 [1] []])) = (b, q')"
    by force
  moreover have "fst (receive 8 0 [7] (queue (run (tstep (\<lambda>_ _. 0)) tstart [Send 8 [1] []]))) = True"
    by code_simp
  ultimately have b: "receive 8 0 [7] (queue (run (tstep (\<lambda>_ _. 0)) tstart [Send 8 [1] []])) = (True, q')"
    by simp
  obtain r where "\<forall>ec. ec \<noteq> timer_failure \<longrightarrow> fst (sendReceive_finish ec 8 r q') = Inr [7]"
    using response_reaches_its_request [OF a b] by auto
  then have "fst (sendReceive_finish no_error 8 r q') = Inr [7]" by simp
  with b show ?thesis by blast
qed

section \<open>Order and progress\<close>

text \<open>
  One flush takes a prefix of the queue, in the order of the message numbers, hands
  each of its messages to \<open>mctp\_message\_tx\<close> once, and stops only for want of a tag.
\<close>

lemma flush_prefix:
  assumes "transmitQueuedMessages tx e ep ms log = (ep', ms', log')"
    and "distinct (map snd (queuedMessages ep))"
  shows "\<exists>n. queuedMessages ep' = drop n (queuedMessages ep) \<and>
    map (\<lambda>c. (tx_dest c, tx_payload c, tx_private c)) log' =
      map (\<lambda>c. (tx_dest c, tx_payload c, tx_private c)) log @
      map (\<lambda>(i, r). (e, payload (ms ! r), privateData (ms ! r))) (take n (queuedMessages ep)) \<and>
    (queuedMessages ep' = [] \<or> availableTags ep' = 0)"
  using assms
proof (induction tx e ep ms log rule: transmitQueuedMessages.induct)
  case (1 tx e ep ms log)
  show ?case
  proof (cases rule: transmit_loop_cases [of tx e ep ms log])
    case stop
    with "1.prems" show ?thesis
      by (intro exI [of _ 0]) (auto simp: tags_next_None)
  next
    case (drop i r rest t call)
    note IH = "1.IH"(1) [OF drop(1) refl drop(2) refl refl refl]
    from IH drop "1.prems" obtain n where n:
      "queuedMessages ep' = List.drop n rest"
      "map (\<lambda>c. (tx_dest c, tx_payload c, tx_private c)) log' =
        map (\<lambda>c. (tx_dest c, tx_payload c, tx_private c)) (log @ [call]) @
        map (\<lambda>(i, r). (e, payload (ms ! r), privateData (ms ! r))) (take n rest)"
      "queuedMessages ep' = [] \<or> availableTags ep' = 0" by auto
    then show ?thesis using drop by (intro exI [of _ "Suc n"]) simp
  next
    case (sent i r rest t call)
    let ?ms = "ms[r := (ms ! r)\<lparr>tag := Some t\<rparr>]"
    note IH = "1.IH"(2) [OF sent(1) refl sent(2) refl refl refl]
    from IH sent "1.prems" obtain n where n:
      "queuedMessages ep' = List.drop n rest"
      "map (\<lambda>c. (tx_dest c, tx_payload c, tx_private c)) log' =
        map (\<lambda>c. (tx_dest c, tx_payload c, tx_private c)) (log @ [call]) @
        map (\<lambda>(i, r). (e, payload (?ms ! r), privateData (?ms ! r))) (take n rest)"
      "queuedMessages ep' = [] \<or> availableTags ep' = 0" by auto
    have "r \<notin> snd ` set rest" using "1.prems"(2) sent(1) by simp
    then have keep: "?ms ! x = ms ! x" if "(j, x) \<in> set (take n rest)" for j x
      using that by (cases "x = r") (force dest: in_set_takeD)+
    then have "map (\<lambda>(i, r). (e, payload (?ms ! r), privateData (?ms ! r))) (take n rest) =
        map (\<lambda>(i, r). (e, payload (ms ! r), privateData (ms ! r))) (take n rest)"
      by (intro map_cong refl) (auto simp del: nth_list_update)
    with n sent show ?thesis by (intro exI [of _ "Suc n"]) simp
  qed
qed

lemma queue_distinct:
  assumes "ep_inv W ms ep"
  shows "distinct (map snd (queuedMessages ep))"
proof -
  note D = ep_invD [OF assms]
  show ?thesis
    by (rule distinct_values [where f = "\<lambda>r. Some (index (ms ! r))"]) (use D(2,5) in auto)
qed

text \<open>The handler that a response posts does the same with the queue of its endpoint.\<close>

lemma posted_in_order:
  assumes "admissible (tstep tx) tenabled tstart es"
  defines "q \<equiv> queue (run (tstep tx) tstart es)"
  defines "q' \<equiv> run_posted tx q"
  assumes "posted q = x # xs"
  shows "\<exists>n. map snd (queuedMessages (endpoint_at q' x)) = drop n (map snd (queuedMessages (endpoint_at q x)))
    \<and> map (\<lambda>c. (tx_dest c, tx_payload c, tx_private c)) (txLog q')
      = map (\<lambda>c. (tx_dest c, tx_payload c, tx_private c)) (txLog q)
        @ take n (map (\<lambda>(i, r). (x, payload (messages q ! r), privateData (messages q ! r)))
            (queuedMessages (endpoint_at q x)))
    \<and> (queuedMessages (endpoint_at q' x) = [] \<or> availableTags (endpoint_at q' x) = 0)"
proof -
  have inv: "ep_inv (held (run (tstep tx) tstart es) x) (messages q) (endpoint_at q x)"
    using reachable_ep_inv(1) [OF assms(1)] by (simp add: q_def)
  have sm: "smap (endpoints q)" using tq.inv_run [OF assms(1)] by (simp add: q_def tinv_def)
  obtain ep' ms log where loop: "transmitQueuedMessages tx x (endpoint_at q x) (messages q) (txLog q)
      = (ep', ms, log)" by (cases "transmitQueuedMessages tx x (endpoint_at q x) (messages q) (txLog q)") auto
  then have "q' = q\<lparr>posted := xs, endpoints := map_assign x ep' (endpoints q), messages := ms, txLog := log\<rparr>"
    using assms(4) by (simp add: q'_def run_posted_def flush_def)
  then have "endpoint_at q' x = ep'" "txLog q' = log"
    using sm by (simp_all add: endpoint_at_def map_of_assign)
  with flush_prefix [OF loop queue_distinct [OF inv]] show ?thesis by (auto simp: drop_map take_map)
qed

lemma new_request_in_order:
  fixes e :: eid
  assumes "admissible (tstep tx) tenabled tstart es"
  defines "q \<equiv> queue (run (tstep tx) tstart es)"
  assumes "msgCounter (endpoint_at q e) \<noteq> 0xffffffffffffffff"
    and "transmit tx e pl priv q = (r, q')"
  defines "requests \<equiv> map (\<lambda>(i, r). (e, payload (messages q ! r), privateData (messages q ! r)))
      (queuedMessages (endpoint_at q e)) @ [(e, pl, priv)]"
  shows "\<exists>n. map snd (queuedMessages (endpoint_at q' e)) =
      drop n (map snd (queuedMessages (endpoint_at q e)) @ [r]) \<and>
    map (\<lambda>c. (tx_dest c, tx_payload c, tx_private c)) (txLog q') =
      map (\<lambda>c. (tx_dest c, tx_payload c, tx_private c)) (txLog q) @ take n requests \<and>
    (queuedMessages (endpoint_at q' e) = [] \<or> availableTags (endpoint_at q' e) = 0)"
proof -
  let ?ep = "endpoint_at q e" and ?c = "msgCounter (endpoint_at q e)"
  let ?new = "make_message ?c pl priv" and ?r = "length (messages q)"
  have inv: "ep_inv (held (run (tstep tx) tstart es) e) (messages q) ?ep"
    using reachable_ep_inv(1) [OF assms(1)] by (simp add: q_def)
  have sm: "smap (endpoints q)" using tq.inv_run [OF assms(1)] by (simp add: q_def tinv_def)
  note D = ep_invD [OF inv]
  have last: "map_emplace ?c ?r m = m @ [(?c, ?r)]" if "\<forall>(i, x) \<in> set m. i < ?c" for m
    using that by (induction m) auto
  have small: "i < ?c \<and> x < ?r" if "(i, x) \<in> set (queuedMessages ?ep)" for i x
  proof -
    from that have "map_of (queuedMessages ?ep) i = Some x" by (simp add: smap_map_of [OF D(2)])
    from D(5) [OF this] D(6) [of x] show ?thesis by auto
  qed
  define ep1 where "ep1 = ?ep\<lparr>msgCounter := ?c + 1,
      queuedMessages := map_emplace ?c ?r (queuedMessages ?ep)\<rparr>"
  have q1: "queuedMessages ep1 = queuedMessages ?ep @ [(?c, ?r)]"
    unfolding ep1_def using last small by fastforce
  obtain ep' ms log where loop: "transmitQueuedMessages tx e ep1 (messages q @ [?new]) (txLog q)
      = (ep', ms, log)" by (cases "transmitQueuedMessages tx e ep1 (messages q @ [?new]) (txLog q)") auto
  have q': "q' = q\<lparr>endpoints := map_assign e ep' (endpoints q), messages := ms, txLog := log\<rparr>"
      and r: "r = ?r"
    using assms(4) loop by (auto simp: transmit_def flush_def Let_def ep1_def)
  have "distinct (map snd (queuedMessages ep1))"
    using queue_distinct [OF inv] small by (force simp: q1)
  from flush_prefix [OF loop this] obtain n where n:
    "queuedMessages ep' = drop n (queuedMessages ep1)"
    "map (\<lambda>c. (tx_dest c, tx_payload c, tx_private c)) log =
      map (\<lambda>c. (tx_dest c, tx_payload c, tx_private c)) (txLog q) @
      map (\<lambda>(i, r). (e, payload ((messages q @ [?new]) ! r), privateData ((messages q @ [?new]) ! r)))
        (take n (queuedMessages ep1))"
    "queuedMessages ep' = [] \<or> availableTags ep' = 0" by blast
  have "map (\<lambda>(i, r). (e, payload ((messages q @ [?new]) ! r), privateData ((messages q @ [?new]) ! r)))
        (queuedMessages ep1) = requests"
    using small by (auto simp: q1 requests_def make_message_def nth_append)
  then have "map (\<lambda>(i, r). (e, payload ((messages q @ [?new]) ! r), privateData ((messages q @ [?new]) ! r)))
        (take n (queuedMessages ep1)) = take n requests"
    by (simp add: take_map [symmetric])
  moreover have "endpoint_at q' e = ep'" using sm by (simp add: q' endpoint_at_def map_of_assign)
  ultimately show ?thesis
    using n by (intro exI [of _ n]) (simp add: q' r q1 drop_map [symmetric])
qed

text \<open>
  C11: A new request is transmitted in its turn: \<open>transmit\<close> puts it behind all queued
  requests, sends requests to that endpoint from the front of this queue, each once and
  with its own payload and binding private data, and a request is left in the queue by this call
  only when it leaves no tag free. The handler that a response posts does the same, without a new
  request, for the endpoint that answered. These are the two places where requests are sent: a
  timeout in between frees its tag and sends nothing, so that later a request may be queued with
  tags free (\<open>timeouts\_strand\_a\_queued\_request\<close>). The counter of messages has not reached its
  greatest value.
\<close>

theorem transmit_in_order:
  fixes e :: eid
  assumes "admissible (tstep tx) tenabled tstart es"
  defines "q \<equiv> queue (run (tstep tx) tstart es)"
  assumes "msgCounter (endpoint_at q e) \<noteq> 0xffffffffffffffff"
    and "transmit tx e pl priv q = (r, q')"
  defines "requests \<equiv> map (\<lambda>(i, r). (e, payload (messages q ! r), privateData (messages q ! r)))
      (queuedMessages (endpoint_at q e)) @ [(e, pl, priv)]"
  shows "(\<exists>n. map snd (queuedMessages (endpoint_at q' e)) =
      drop n (map snd (queuedMessages (endpoint_at q e)) @ [r]) \<and>
    map (\<lambda>c. (tx_dest c, tx_payload c, tx_private c)) (txLog q') =
      map (\<lambda>c. (tx_dest c, tx_payload c, tx_private c)) (txLog q) @ take n requests \<and>
    (queuedMessages (endpoint_at q' e) = [] \<or> availableTags (endpoint_at q' e) = 0)) \<and>
   (\<forall>x xs. posted q = x # xs \<longrightarrow> (let q2 = run_posted tx q in
     \<exists>n. map snd (queuedMessages (endpoint_at q2 x)) = drop n (map snd (queuedMessages (endpoint_at q x))) \<and>
      map (\<lambda>c. (tx_dest c, tx_payload c, tx_private c)) (txLog q2) =
        map (\<lambda>c. (tx_dest c, tx_payload c, tx_private c)) (txLog q) @
        take n (map (\<lambda>(i, r). (x, payload (messages q ! r), privateData (messages q ! r)))
          (queuedMessages (endpoint_at q x))) \<and>
      (queuedMessages (endpoint_at q2 x) = [] \<or> availableTags (endpoint_at q2 x) = 0)))"
  using new_request_in_order [OF assms(1) assms(3,4) [unfolded q_def]] posted_in_order [OF assms(1)]
  unfolding q_def requests_def Let_def by blast

theorem transmit_in_order_witness:
  "\<exists>q'. snd (transmit (\<lambda>_ _. 0) 8 [2] [] new_tqueue) = q' \<and>
     (queuedMessages (endpoint_at q' 8) = [] \<or> availableTags (endpoint_at q' 8) = 0)"
proof -
  have a: "admissible (tstep (\<lambda>_ _. 0)) tenabled tstart []" by simp
  have b: "msgCounter (endpoint_at (queue (run (tstep (\<lambda>_ _. 0)) tstart [])) 8)
      \<noteq> 0xffffffffffffffff"
    by (simp add: tstart_def endpoint_at_start new_endpoint_def)
  obtain r q' where c: "transmit (\<lambda>_ _. 0) 8 [2] [] (queue (run (tstep (\<lambda>_ _. 0)) tstart [])) = (r, q')"
    by force
  from transmit_in_order [OF a b c]
  have "queuedMessages (endpoint_at q' 8) = [] \<or> availableTags (endpoint_at q' 8) = 0" by blast
  with c show ?thesis by (simp add: tstart_def)
qed

text \<open>
  A timeout frees its tag but sends nothing: with nine requests to one endpoint of
  which the first eight time out, the ninth stays queued although all eight tags are
  available and no handler is posted that would send it.
\<close>

lemma timeouts_strand_a_queued_request:
  "let s = run (tstep (\<lambda>_ _. 0)) tstart
             (replicate 9 (Send 8 [1] []) @ replicate 8 (Wake 0 no_error));
       ep = endpoint_at (queue s) 8
   in admissible (tstep (\<lambda>_ _. 0)) tenabled tstart
        (replicate 9 (Send 8 [1] []) @ replicate 8 (Wake 0 no_error)) \<and>
      map snd (queuedMessages ep) = [8] \<and> waiting s = [(8, 8)] \<and>
      availableTags ep = 0xff \<and> posted (queue s) = [] \<and> length (txLog (queue s)) = 8"
  by code_simp

end
