(* ===== verification/Ctrl_Queue.thy ===== *)
theory Ctrl_Queue
  imports Pmci_Prelude
begin

text \<open>
  The queue of outstanding MCTP control requests of \<open>MctpBinding\<close>
  (mctpd/src/MCTPBinding.cpp): \<open>pushToCtrlTxQueue\<close>, \<open>sendMctpCtrlMessage\<close>,
  \<open>processCtrlTxQueue\<close> with its timer handler, \<open>handleCtrlResp\<close> and
  \<open>sendAndRcvMctpCtrl\<close>. The callback of a request is a closure over the suspended
  coroutine's packet state, response buffer and timer; such a coroutine is a frame, and the
  callback is the number of its frame. Bit masks of the control header come from libmctp and are parameters.
\<close>

unbundle bit_operations_syntax

section \<open>Model\<close>

datatype packet_state =
    invalidPacket
  | pushedForTransmission
  | transmitted
  | receivedResponse
  | noResponse

record ctrl_tx =
  ct_state :: packet_state
  ct_retryCount :: byte
  ct_maxRespDelay :: u32
  ct_destEid :: eid
  ct_private :: "byte list"
  ct_req :: "byte list"
  ct_callback :: nat

text \<open>The variables \<open>pktState\<close> and \<open>resp\<close> of a suspended \<open>sendAndRcvMctpCtrl\<close>.\<close>

type_synonym frame = "packet_state \<times> byte list"

record ctrl =
  ctrlTxQueue :: "ctrl_tx list"
  ctrlTxTimerExpired :: bool
  ctrlTxRetryDelay :: u32
  ctrlTxRetryCount :: byte
  frames :: "frame list"
  ctrlLog :: "tx_call list"

definition new_ctrl :: "u32 \<Rightarrow> byte \<Rightarrow> ctrl" where
  "new_ctrl reqToRespTime reqRetryCount = \<lparr>ctrlTxQueue = [], ctrlTxTimerExpired = True,
     ctrlTxRetryDelay = reqToRespTime, ctrlTxRetryCount = reqRetryCount, frames = [],
     ctrlLog = []\<rparr>"

definition ctrlTxPollInterval :: u32 where
  "ctrlTxPollInterval = 5"

text \<open>\<open>callback(state, resp)\<close>.\<close>

definition invoke_callback :: "nat \<Rightarrow> packet_state \<Rightarrow> byte list \<Rightarrow> frame list \<Rightarrow> frame list" where
  "invoke_callback cb state resp fs = fs[cb := (state, resp)]"

definition sendMctpCtrlMessage ::
    "tx_oracle \<Rightarrow> eid \<Rightarrow> byte list \<Rightarrow> bool \<Rightarrow> byte \<Rightarrow> byte list \<Rightarrow> tx_call list
     \<Rightarrow> bool \<times> tx_call list" where
  "sendMctpCtrlMessage tx destEid req tagOwner msgTag bindingPrivate log =
     (let call = \<lparr>tx_dest = destEid, tx_payload = req, tx_owner = tagOwner, tx_tag = msgTag,
                  tx_private = bindingPrivate\<rparr>
      in (\<not> tx log call < 0, log @ [call]))"

text \<open>
  One entry at one expiry of the poll timer: \<open>None\<close> says that the entry is dropped and
  its callback gets \<open>noResponse\<close>. The delay is an \<open>unsigned int\<close>.
\<close>

definition tick_entry ::
    "tx_oracle \<Rightarrow> u32 \<Rightarrow> ctrl_tx \<Rightarrow> tx_call list \<Rightarrow> ctrl_tx option \<times> tx_call list" where
  "tick_entry tx retryDelay x0 log =
     (let x = x0\<lparr>ct_maxRespDelay := ct_maxRespDelay x0 - ctrlTxPollInterval\<rparr>
      in if ct_maxRespDelay x > 0 \<and> ct_state x \<noteq> receivedResponse then
           (if ct_retryCount x > 0 \<and> ct_maxRespDelay x \<le> ucast (ct_retryCount x) * retryDelay then
              (let (sent, log') = sendMctpCtrlMessage tx (ct_destEid x) (ct_req x) True 0
                                    (ct_private x) log;
                   x' = (if sent then x\<lparr>ct_state := transmitted\<rparr> else x)
               in (Some (x'\<lparr>ct_retryCount := ct_retryCount x' - 1\<rparr>), log'))
            else (Some x, log))
         else (None, log))"

fun tick_queue ::
    "tx_oracle \<Rightarrow> u32 \<Rightarrow> ctrl_tx list \<Rightarrow> frame list \<Rightarrow> tx_call list
     \<Rightarrow> ctrl_tx list \<times> frame list \<times> tx_call list" where
  "tick_queue tx d [] fs log = ([], fs, log)"
| "tick_queue tx d (x # xs) fs log =
     (case tick_entry tx d x log of
        (Some x', log') \<Rightarrow>
          (let (xs', fs', log'') = tick_queue tx d xs fs log' in (x' # xs', fs', log''))
      | (None, log') \<Rightarrow>
          tick_queue tx d xs (invoke_callback (ct_callback x) noResponse [] fs) log')"

text \<open>\<open>processCtrlTxQueue\<close> arms the poll timer; the rest of it is the timer's handler.\<close>

definition processCtrlTxQueue :: "ctrl \<Rightarrow> ctrl" where
  "processCtrlTxQueue c = c\<lparr>ctrlTxTimerExpired := False\<rparr>"

datatype wait_result = wait_ok | wait_aborted | wait_failed

definition ctrl_timer_handler :: "tx_oracle \<Rightarrow> wait_result \<Rightarrow> ctrl \<Rightarrow> ctrl" where
  "ctrl_timer_handler tx ec c =
     (if ec = wait_aborted then c
      else if ec = wait_failed then c
      else (let (q, fs, log) = tick_queue tx (ctrlTxRetryDelay c) (ctrlTxQueue c) (frames c) (ctrlLog c);
                c' = c\<lparr>ctrlTxQueue := q, frames := fs, ctrlLog := log\<rparr>
            in if q = [] then c'\<lparr>ctrlTxTimerExpired := True\<rparr> else processCtrlTxQueue c'))"

definition pushToCtrlTxQueue ::
    "tx_oracle \<Rightarrow> packet_state \<Rightarrow> eid \<Rightarrow> byte list \<Rightarrow> byte list \<Rightarrow> nat \<Rightarrow> ctrl \<Rightarrow> ctrl" where
  "pushToCtrlTxQueue tx state destEid bindingPrivate req callback c =
     (let x = \<lparr>ct_state = state, ct_retryCount = ctrlTxRetryCount c,
               ct_maxRespDelay = (ucast (ctrlTxRetryCount c) + 1) * ctrlTxRetryDelay c,
               ct_destEid = destEid, ct_private = bindingPrivate, ct_req = req,
               ct_callback = callback\<rparr>;
          (sent, log) = sendMctpCtrlMessage tx destEid req True 0 bindingPrivate (ctrlLog c);
          c' = c\<lparr>ctrlTxQueue := ctrlTxQueue c @ [x], ctrlLog := log\<rparr>
      in if ctrlTxTimerExpired c' then processCtrlTxQueue c' else c')"

definition getInstanceId :: "byte \<Rightarrow> byte \<Rightarrow> byte" where
  "getInstanceId instanceIdMask msg = msg AND instanceIdMask"

text \<open>
  The second byte of a control message is \<open>rq\_dgram\_inst\<close>. \<open>find\_if\<close> stops at the first
  request with the instance id of the response.
\<close>

definition matches_request :: "byte \<Rightarrow> byte list \<Rightarrow> ctrl_tx \<Rightarrow> bool" where
  "matches_request msk msg x \<longleftrightarrow>
     ct_req x \<noteq> [] \<and> getInstanceId msk (ct_req x ! 1) = getInstanceId msk (msg ! 1)"

fun find_and_answer ::
    "byte \<Rightarrow> byte list \<Rightarrow> ctrl_tx list \<Rightarrow> frame list \<Rightarrow> (ctrl_tx list \<times> frame list) option" where
  "find_and_answer msk msg [] fs = None"
| "find_and_answer msk msg (x # xs) fs =
     (if matches_request msk msg x
      then Some (xs, invoke_callback (ct_callback x) receivedResponse msg fs)
      else map_option (\<lambda>(xs', fs'). (x # xs', fs')) (find_and_answer msk msg xs fs))"

definition handleCtrlResp :: "byte \<Rightarrow> byte list \<Rightarrow> ctrl \<Rightarrow> bool \<times> ctrl" where
  "handleCtrlResp msk msg c =
     (case find_and_answer msk msg (ctrlTxQueue c) (frames c) of
        None \<Rightarrow> (False, c)
      | Some (q, fs) \<Rightarrow> (True, c\<lparr>ctrlTxQueue := q, frames := fs\<rparr>))"

text \<open>
  \<open>sendAndRcvMctpCtrl\<close> up to its first suspension: a new frame is made and its number
  returned, or the request is rejected. The loop of the coroutine then sleeps until its
  frame has left \<open>pushedForTransmission\<close>.
\<close>

definition sendAndRcvMctpCtrl_start ::
    "tx_oracle \<Rightarrow> byte list \<Rightarrow> eid \<Rightarrow> byte list \<Rightarrow> ctrl \<Rightarrow> (packet_state + nat) \<times> ctrl" where
  "sendAndRcvMctpCtrl_start tx req destEid bindingPrivate c =
     (if req = [] then (Inl invalidPacket, c)
      else (let n = length (frames c);
                c' = c\<lparr>frames := frames c @ [(pushedForTransmission, [])]\<rparr>
            in (Inr n, pushToCtrlTxQueue tx pushedForTransmission destEid bindingPrivate req n c')))"

definition sendAndRcvMctpCtrl_result :: "nat \<Rightarrow> ctrl \<Rightarrow> frame option" where
  "sendAndRcvMctpCtrl_result n c =
     (let (pktState, resp) = frames c ! n
      in if pktState = pushedForTransmission then None else Some (pktState, resp))"

section \<open>Every exchange ends once\<close>

datatype ctrl_event =
    Request "byte list" eid "byte list"
  | Response "byte list"
  | Timer wait_result

fun ctrl_step :: "tx_oracle \<Rightarrow> byte \<Rightarrow> ctrl \<Rightarrow> ctrl_event \<Rightarrow> ctrl" where
  "ctrl_step tx msk c (Request req e priv) = snd (sendAndRcvMctpCtrl_start tx req e priv c)"
| "ctrl_step tx msk c (Response msg) = snd (handleCtrlResp msk msg c)"
| "ctrl_step tx msk c (Timer ec) = ctrl_timer_handler tx ec c"

text \<open>
  The queue holds exactly the frames that are still waiting, each once.
\<close>

definition pending :: "frame list \<Rightarrow> nat set" where
  "pending fs = {n. n < length fs \<and> fst (fs ! n) = pushedForTransmission}"

definition ctrl_inv :: "ctrl \<Rightarrow> bool" where
  "ctrl_inv c \<longleftrightarrow> distinct (map ct_callback (ctrlTxQueue c)) \<and>
     set (map ct_callback (ctrlTxQueue c)) = pending (frames c)"

lemma pending_answer:
  "n < length fs \<Longrightarrow> st \<noteq> pushedForTransmission \<Longrightarrow>
     pending (invoke_callback n st resp fs) = pending fs - {n}"
  by (auto simp: pending_def invoke_callback_def nth_list_update)

lemma pending_append: "pending (fs @ [(pushedForTransmission, [])]) = insert (length fs) (pending fs)"
  by (auto simp: pending_def nth_append less_Suc_eq split: if_splits)

lemma tick_entry_callback:
  "tick_entry tx d x log = (Some x', log') \<Longrightarrow> ct_callback x' = ct_callback x"
  by (auto simp: tick_entry_def Let_def split: if_splits prod.splits)

lemma tick_queue_inv:
  assumes "tick_queue tx d q fs log = (q', fs', log')"
    and "distinct (map ct_callback q)" "set (map ct_callback q) \<subseteq> pending fs"
  shows "distinct (map ct_callback q') \<and> set (map ct_callback q') \<subseteq> set (map ct_callback q) \<and>
     pending fs' = pending fs - (set (map ct_callback q) - set (map ct_callback q')) \<and>
     length fs' = length fs \<and> (\<forall>n. n \<notin> set (map ct_callback q) \<longrightarrow> fs' ! n = fs ! n)"
  using assms
proof (induction q arbitrary: q' fs fs' log log')
  case (Cons x xs)
  obtain r log1 where t: "tick_entry tx d x log = (r, log1)" by force
  have x: "ct_callback x < length fs" "ct_callback x \<notin> set (map ct_callback xs)"
    using Cons.prems(2,3) by (auto simp: pending_def)
  show ?case
  proof (cases r)
    case None
    let ?fs = "invoke_callback (ct_callback x) noResponse [] fs"
    have "tick_queue tx d xs ?fs log1 = (q', fs', log')" using Cons.prems(1) t None by simp
    moreover have p: "pending ?fs = pending fs - {ct_callback x}"
      using x(1) by (rule pending_answer) simp
    ultimately have IH: "distinct (map ct_callback q') \<and> set (map ct_callback q') \<subseteq> set (map ct_callback xs) \<and>
       pending fs' = pending ?fs - (set (map ct_callback xs) - set (map ct_callback q')) \<and>
       length fs' = length ?fs \<and> (\<forall>n. n \<notin> set (map ct_callback xs) \<longrightarrow> fs' ! n = ?fs ! n)"
      using Cons.prems(2,3) x(2) by (intro Cons.IH) (auto simp: image_iff)
    moreover have "?fs ! n = fs ! n" if "n \<noteq> ct_callback x" for n
      using that by (simp add: invoke_callback_def)
    moreover have "ct_callback x \<notin> set (map ct_callback q')" using IH x(2) by blast
    moreover have "ct_callback x \<in> pending fs" using Cons.prems(3) by simp
    ultimately show ?thesis using x(2) unfolding p
      by (auto simp: invoke_callback_def intro: rev_image_eqI)
  next
    case (Some x')
    obtain q1 where q1: "tick_queue tx d xs fs log1 = (q1, fs', log')" "q' = x' # q1"
      using Cons.prems(1) t Some by (auto split: prod.splits)
    have cb: "ct_callback x' = ct_callback x" using t Some by (simp add: tick_entry_callback)
    have "distinct (map ct_callback q1) \<and> set (map ct_callback q1) \<subseteq> set (map ct_callback xs) \<and>
       pending fs' = pending fs - (set (map ct_callback xs) - set (map ct_callback q1)) \<and>
       length fs' = length fs \<and> (\<forall>n. n \<notin> set (map ct_callback xs) \<longrightarrow> fs' ! n = fs ! n)"
      using Cons.prems(2,3) q1(1) by (intro Cons.IH) auto
    moreover from this have "ct_callback x \<notin> set (map ct_callback q1)" using x(2) by blast
    moreover have "set (map ct_callback q') = insert (ct_callback x) (set (map ct_callback q1))"
      by (simp add: q1(2) cb)
    ultimately show ?thesis using x(2) Cons.prems(3)
      by (auto simp: q1(2) cb intro: rev_image_eqI)
  qed
qed auto

lemma find_and_answer_inv:
  assumes "find_and_answer msk msg q fs = Some (q', fs')"
    and "distinct (map ct_callback q)" "set (map ct_callback q) \<subseteq> {..<length fs}"
  shows "\<exists>x. matches_request msk msg x \<and> x \<in> set q \<and>
     fs' = invoke_callback (ct_callback x) receivedResponse msg fs \<and>
     distinct (map ct_callback q') \<and>
     set (map ct_callback q') = set (map ct_callback q) - {ct_callback x}"
  using assms
proof (induction q arbitrary: q')
  case (Cons x xs)
  show ?case
  proof (cases "matches_request msk msg x")
    case True
    then show ?thesis using Cons.prems by (intro exI [of _ x]) auto
  next
    case False
    then obtain q1 where q1: "find_and_answer msk msg xs fs = Some (q1, fs')" "q' = x # q1"
      using Cons.prems(1) by auto
    then obtain y where y: "matches_request msk msg y" "y \<in> set xs"
        "fs' = invoke_callback (ct_callback y) receivedResponse msg fs"
        "distinct (map ct_callback q1)" "set (map ct_callback q1) = set (map ct_callback xs) - {ct_callback y}"
      using Cons.IH [of q1] Cons.prems(2,3) by auto
    have "ct_callback y \<noteq> ct_callback x" using y(2) Cons.prems(2) by (auto intro: rev_image_eqI)
    then show ?thesis
      using y q1(2) Cons.prems(2) by (intro exI [of _ y]) auto
  qed
qed simp

text \<open>A step keeps the frames whose exchange has ended, and never forgets a frame.\<close>

definition frames_le :: "ctrl \<Rightarrow> ctrl \<Rightarrow> bool" where
  "frames_le c c' \<longleftrightarrow> length (frames c) \<le> length (frames c') \<and>
     (\<forall>n < length (frames c). n \<notin> pending (frames c) \<longrightarrow> frames c' ! n = frames c ! n)"

lemma frames_le_refl: "frames_le c c"
  by (simp add: frames_le_def)

lemma push_fields:
  "frames (pushToCtrlTxQueue tx st e priv req n c) = frames c"
  "map ct_callback (ctrlTxQueue (pushToCtrlTxQueue tx st e priv req n c)) =
     map ct_callback (ctrlTxQueue c) @ [n]"
  by (simp_all add: pushToCtrlTxQueue_def Let_def processCtrlTxQueue_def split: prod.splits)

lemma ctrl_step_request:
  assumes "ctrl_inv c"
  shows "ctrl_inv (ctrl_step tx msk c (Request req e priv)) \<and>
     frames_le c (ctrl_step tx msk c (Request req e priv))"
proof (cases "req = []")
  case True
  then show ?thesis using assms by (simp add: sendAndRcvMctpCtrl_start_def frames_le_refl)
next
  case False
  have fresh: "length (frames c) \<notin> set (map ct_callback (ctrlTxQueue c))"
    using assms by (auto simp: ctrl_inv_def pending_def)
  from assms show ?thesis
    using False fresh unfolding ctrl_inv_def frames_le_def
    by (auto simp: sendAndRcvMctpCtrl_start_def Let_def push_fields pending_append nth_append
        simp del: set_map)
qed

lemma ctrl_step_response:
  assumes "ctrl_inv c"
  shows "ctrl_inv (ctrl_step tx msk c (Response msg)) \<and> frames_le c (ctrl_step tx msk c (Response msg))"
proof (cases "find_and_answer msk msg (ctrlTxQueue c) (frames c)")
  case None
  then show ?thesis using assms by (simp add: handleCtrlResp_def frames_le_refl)
next
  case (Some r)
  obtain q fs where r: "r = (q, fs)" by force
  have "set (map ct_callback (ctrlTxQueue c)) \<subseteq> {..<length (frames c)}"
    using assms by (auto simp: ctrl_inv_def pending_def)
  then obtain x where x: "x \<in> set (ctrlTxQueue c)"
      "fs = invoke_callback (ct_callback x) receivedResponse msg (frames c)"
      "distinct (map ct_callback q)"
      "set (map ct_callback q) = set (map ct_callback (ctrlTxQueue c)) - {ct_callback x}"
    using find_and_answer_inv [OF Some [unfolded r]] assms by (auto simp: ctrl_inv_def)
  have xp: "ct_callback x \<in> pending (frames c)"
    using assms x(1) unfolding ctrl_inv_def by (metis image_eqI list.set_map)
  then have "pending fs = pending (frames c) - {ct_callback x}"
    unfolding x(2) by (intro pending_answer) (auto simp: pending_def)
  then have "ctrl_inv (c\<lparr>ctrlTxQueue := q, frames := fs\<rparr>)"
    using assms x(3,4) by (simp add: ctrl_inv_def)
  moreover have "frames_le c (c\<lparr>ctrlTxQueue := q, frames := fs\<rparr>)"
    using xp unfolding frames_le_def x(2) invoke_callback_def
    by (auto intro!: nth_list_update_neq)
  ultimately show ?thesis by (simp add: handleCtrlResp_def Some r)
qed

lemma ctrl_step_timer:
  assumes "ctrl_inv c"
  shows "ctrl_inv (ctrl_step tx msk c (Timer ec)) \<and> frames_le c (ctrl_step tx msk c (Timer ec))"
proof (cases "ec = wait_ok")
  case False
  then have "ctrl_step tx msk c (Timer ec) = c" by (cases ec) (simp_all add: ctrl_timer_handler_def)
  then show ?thesis using assms by (simp add: frames_le_refl)
next
  case True
  obtain q fs log where t: "tick_queue tx (ctrlTxRetryDelay c) (ctrlTxQueue c) (frames c) (ctrlLog c) = (q, fs, log)"
    by (cases "tick_queue tx (ctrlTxRetryDelay c) (ctrlTxQueue c) (frames c) (ctrlLog c)")
  have "distinct (map ct_callback q) \<and> set (map ct_callback q) \<subseteq> pending (frames c) \<and>
     pending fs = pending (frames c) - (pending (frames c) - set (map ct_callback q)) \<and>
     length fs = length (frames c) \<and> (\<forall>n. n \<notin> pending (frames c) \<longrightarrow> fs ! n = frames c ! n)"
    using tick_queue_inv [OF t] assms unfolding ctrl_inv_def by simp
  then have "distinct (map ct_callback q)" "pending fs = set (map ct_callback q)"
    "length fs = length (frames c)" "\<forall>n. n \<notin> pending (frames c) \<longrightarrow> fs ! n = frames c ! n"
    by blast+
  then have "ctrl_inv c' \<and> frames_le c c'" if "ctrlTxQueue c' = q" "frames c' = fs" for c' :: ctrl
    using that unfolding ctrl_inv_def frames_le_def by (simp del: set_map)
  then show ?thesis
    by (simp add: True ctrl_timer_handler_def t Let_def processCtrlTxQueue_def)
qed

lemma ctrl_step_inv [inv_intros]: "ctrl_inv c \<Longrightarrow> ctrl_inv (ctrl_step tx msk c e)"
  using ctrl_step_request ctrl_step_response ctrl_step_timer by (cases e) blast+

lemma ctrl_step_frames: "ctrl_inv c \<Longrightarrow> frames_le c (ctrl_step tx msk c e)"
  using ctrl_step_request ctrl_step_response ctrl_step_timer by (cases e) blast+

lemma new_ctrl_inv: "ctrl_inv (new_ctrl d r)"
  by (simp add: new_ctrl_def ctrl_inv_def pending_def)

interpretation cq: machine "new_ctrl d r" "ctrl_step tx msk" "\<lambda>_ _. True" ctrl_inv
  for d r tx msk
  by unfold_locales (auto intro: new_ctrl_inv ctrl_step_inv)

lemma run_frames: "ctrl_inv c \<Longrightarrow> frames_le c (run (ctrl_step tx msk) c es)"
proof (induction es arbitrary: c)
  case (Cons e es)
  let ?c = "ctrl_step tx msk c e"
  have 1: "frames_le c ?c" and 2: "frames_le ?c (run (ctrl_step tx msk) ?c es)"
    using Cons by (auto intro: ctrl_step_inv ctrl_step_frames)
  have "n \<notin> pending (frames ?c)" if "n < length (frames c)" "n \<notin> pending (frames c)" for n
    using 1 that by (auto simp: frames_le_def pending_def)
  then show ?case using 1 2 by (simp add: frames_le_def)
qed (simp add: frames_le_refl)

lemma result_None_iff:
  "n < length (frames c) \<Longrightarrow> sendAndRcvMctpCtrl_result n c = None \<longleftrightarrow> n \<in> pending (frames c)"
  by (auto simp: sendAndRcvMctpCtrl_result_def pending_def split: prod.splits)

text \<open>
  C4: Every control exchange ends exactly once: after any sequence of requests, responses
  and timer expiries a started exchange is waiting if and only if exactly one entry of the
  queue stands for it, and once \<open>sendAndRcvMctpCtrl\<close> has a result (a response or
  \<open>noResponse\<close>), no later response, retry or timeout changes it.
\<close>

theorem exchange_ends_once:
  fixes tx msk d r es fs n
  defines "c \<equiv> run (ctrl_step tx msk) (new_ctrl d r) es"
  assumes started: "n < length (frames c)"
  shows "(sendAndRcvMctpCtrl_result n c = None \<longleftrightarrow>
            length (filter (\<lambda>x. ct_callback x = n) (ctrlTxQueue c)) = 1) \<and>
     (sendAndRcvMctpCtrl_result n c \<noteq> None \<longrightarrow>
        sendAndRcvMctpCtrl_result n (run (ctrl_step tx msk) c fs) = sendAndRcvMctpCtrl_result n c)"
proof -
  have inv: "ctrl_inv c" unfolding c_def by (rule cq.inv_run) simp
  have "length (filter (\<lambda>x. ct_callback x = n) q) = (if n \<in> set (map ct_callback q) then 1 else 0)"
    if "distinct (map ct_callback q)" for q
    using that by (induction q) (auto simp: filter_empty_conv intro: rev_image_eqI)
  from this [of "ctrlTxQueue c"] have 1: "sendAndRcvMctpCtrl_result n c = None \<longleftrightarrow>
      length (filter (\<lambda>x. ct_callback x = n) (ctrlTxQueue c)) = 1"
    using inv started by (simp add: result_None_iff ctrl_inv_def del: set_map)
  have "frames (run (ctrl_step tx msk) c fs) ! n = frames c ! n" if "n \<notin> pending (frames c)"
    using run_frames [OF inv] that started by (simp add: frames_le_def)
  then have "sendAndRcvMctpCtrl_result n c \<noteq> None \<longrightarrow>
      sendAndRcvMctpCtrl_result n (run (ctrl_step tx msk) c fs) = sendAndRcvMctpCtrl_result n c"
    using started by (simp add: result_None_iff) (simp add: sendAndRcvMctpCtrl_result_def)
  with 1 show ?thesis by blast
qed

lemma exchange_ends_once_witness:
  "let c = run (ctrl_step (\<lambda>_ _. 0) 0x1f) (new_ctrl 10 1)
             [Request [0, 0x81, 3] 9 [], Request [0, 0x82, 3] 9 [], Response [0, 0x02, 3, 0]]
   in sendAndRcvMctpCtrl_result 1 c = Some (receivedResponse, [0, 0x02, 3, 0]) \<and>
      sendAndRcvMctpCtrl_result 1 (run (ctrl_step (\<lambda>_ _. 0) 0x1f) c [Timer wait_ok, Response [0, 0x02]])
        = Some (receivedResponse, [0, 0x02, 3, 0])"
proof -
  let ?es = "[Request [0, 0x81, 3] 9 [], Request [0, 0x82, 3] 9 [], Response [0, 0x02, 3, 0]]"
  let ?c = "run (ctrl_step (\<lambda>_ _. 0) 0x1f) (new_ctrl 10 1) ?es"
  have c: "sendAndRcvMctpCtrl_result 1 ?c = Some (receivedResponse, [0, 0x02, 3, 0])" by code_simp
  have "1 < length (frames ?c)" by code_simp
  from exchange_ends_once [OF this, of "[Timer wait_ok, Response [0, 0x02]]"] c
  show ?thesis by (simp add: Let_def)
qed

section \<open>Retries\<close>

text \<open>
  The state of the entry of a request with retry delay \<open>5 * q\<close> ms and \<open>r\<close> retries after
  \<open>k\<close> expiries of the 5 ms poll timer without a response.
\<close>

definition entry_at :: "nat \<Rightarrow> nat \<Rightarrow> nat \<Rightarrow> ctrl_tx \<Rightarrow> bool" where
  "entry_at q r k x \<longleftrightarrow> unat (ct_maxRespDelay x) = 5 * ((r + 1) * q - k) \<and>
     unat (ct_retryCount x) = r - k div q \<and> ct_state x \<noteq> receivedResponse"

definition retransmission :: "ctrl_tx \<Rightarrow> tx_call" where
  "retransmission x = \<lparr>tx_dest = ct_destEid x, tx_payload = ct_req x, tx_owner = True,
     tx_tag = 0, tx_private = ct_private x\<rparr>"

lemma div_Suc_step: "0 < (q::nat) \<Longrightarrow> Suc k div q = (if q dvd Suc k then Suc (k div q) else k div q)"
  by (metis Suc_eq_plus1 div_Suc dvd_eq_mod_eq_0 add.commute)

lemma retry_due:
  assumes "0 < (q::nat)" "Suc k < (r + 1) * q"
  shows "(0 < r - k div q \<and> (r + 1) * q - Suc k \<le> (r - k div q) * q) \<longleftrightarrow> q dvd Suc k"
proof -
  obtain a b where k: "k = a * q + b" "b < q"
    using assms(1) by (metis div_mult_mod_eq mod_less_divisor)
  then have a: "k div q = a" by simp
  have "a \<le> r"
  proof (rule ccontr)
    assume "\<not> a \<le> r"
    then have "(r + 1) * q \<le> a * q" by (intro mult_le_mono1) simp
    then show False using assms(2) k by simp
  qed
  then obtain c where c: "r = a + c" using le_Suc_ex by blast
  have e: "(r + 1) * q - Suc k = (c + 1) * q - Suc b" by (simp add: c k add_mult_distrib)
  have lt: "Suc b < (c + 1) * q" using assms(2) by (simp add: c k add_mult_distrib)
  have d: "q dvd Suc k \<longleftrightarrow> Suc b = q"
  proof -
    have "q dvd Suc k \<longleftrightarrow> q dvd Suc b"
      by (simp add: k dvd_add_right_iff [of q "a * q" "Suc b", simplified])
    also have "\<dots> \<longleftrightarrow> Suc b = q" using k(2) by (auto dest: dvd_imp_le)
    finally show ?thesis .
  qed
  have "(0 < c \<and> (c + 1) * q - Suc b \<le> c * q) \<longleftrightarrow> Suc b = q"
    using k(2) lt by (cases c) auto
  then show ?thesis unfolding d e a by (simp add: c)
qed

lemma tick_entry_at:
  assumes q: "0 < q" and D: "unat D = 5 * q" and big: "(r + 1) * (5 * q) < 2 ^ 32"
    and x: "entry_at q r k x" and k: "Suc k \<le> (r + 1) * q"
  shows "(if Suc k = (r + 1) * q then tick_entry tx D x log = (None, log)
     else \<exists>x'. tick_entry tx D x log =
              (Some x', if q dvd Suc k then log @ [retransmission x] else log) \<and>
            entry_at q r (Suc k) x' \<and> retransmission x' = retransmission x \<and>
            ct_callback x' = ct_callback x)"
proof -
  let ?md = "ct_maxRespDelay x - ctrlTxPollInterval"
  have five: "unat (5::u32) = 5" by simp
  have md: "unat ?md = 5 * ((r + 1) * q - Suc k)"
  proof -
    have "(5::u32) \<le> ct_maxRespDelay x"
      using x k by (simp add: word_le_nat_alt entry_at_def)
    then have "unat (ct_maxRespDelay x - 5) = unat (ct_maxRespDelay x) - 5"
      by (simp add: unat_sub)
    then show ?thesis using x k by (simp add: ctrlTxPollInterval_def entry_at_def)
  qed
  have md0: "?md > 0 \<longleftrightarrow> Suc k \<noteq> (r + 1) * q"
    using md k unfolding word_less_nat_alt by (cases "Suc k = (r + 1) * q") auto
  have rc: "unat (ct_retryCount x) = r - k div q" and st: "ct_state x \<noteq> receivedResponse"
    using x by (simp_all add: entry_at_def)
  have rc0: "ct_retryCount x > 0 \<longleftrightarrow> 0 < r - k div q"
    by (simp add: word_less_nat_alt rc)
  have prod: "unat (ucast (ct_retryCount x) * D) = (r - k div q) * (5 * q)"
  proof -
    have "(r - k div q) * (5 * q) \<le> (r + 1) * (5 * q)" by (intro mult_le_mono1) simp
    then have "(r - k div q) * (5 * q) < 2 ^ 32" using big by simp
    then show ?thesis by (simp add: unat_word_ariths D rc)
  qed
  show ?thesis
  proof (cases "Suc k = (r + 1) * q")
    case True
    then show ?thesis using md0 by (simp add: tick_entry_def)
  next
    case False
    then have lt: "Suc k < (r + 1) * q" using k by simp
    have due: "(ct_retryCount x > 0 \<and> ?md \<le> ucast (ct_retryCount x) * D) \<longleftrightarrow> q dvd Suc k"
    proof -
      have "5 * ((r + 1) * q - Suc k) \<le> (r - k div q) * (5 * q) \<longleftrightarrow>
          (r + 1) * q - Suc k \<le> (r - k div q) * q" by simp
      then show ?thesis
        unfolding rc0 word_le_nat_alt md prod using retry_due [OF q lt] by simp
    qed
    have rc': "unat (ct_retryCount x - 1) = r - Suc (k div q)" if "q dvd Suc k"
    proof -
      have "ct_retryCount x > 0" using due that by blast
      then have "(1::byte) \<le> ct_retryCount x" by (simp add: word_le_nat_alt word_less_nat_alt)
      then show ?thesis by (simp add: unat_sub rc)
    qed
    show ?thesis
      using False md0 due st md rc rc'
      by (auto simp: tick_entry_def Let_def sendMctpCtrlMessage_def entry_at_def retransmission_def
          div_Suc_step [OF q])
  qed
qed

lemma one_tick:
  assumes "ctrlTxQueue c = [x]" "tick_entry tx (ctrlTxRetryDelay c) x (ctrlLog c) = (res, log)"
  shows "ctrl_step tx msk c (Timer wait_ok) =
    (case res of
       Some x' \<Rightarrow> c\<lparr>ctrlTxQueue := [x'], ctrlLog := log, ctrlTxTimerExpired := False\<rparr>
     | None \<Rightarrow> c\<lparr>ctrlTxQueue := [], frames := invoke_callback (ct_callback x) noResponse [] (frames c),
                ctrlLog := log, ctrlTxTimerExpired := True\<rparr>)"
  using assms by (simp add: ctrl_timer_handler_def processCtrlTxQueue_def split: option.split)

lemma run_replicate_Suc: "run f s (replicate (Suc k) e) = f (run f s (replicate k e)) e"
  by (induction k arbitrary: s) auto

lemma replicate_snoc: "xs @ replicate n a @ [a] = xs @ replicate (Suc n) a"
  by (simp add: replicate_append_same)

text \<open>The request of a lone entry after \<open>k\<close> expiries of the timer.\<close>

lemma lone_ticks:
  assumes c: "ctrlTxQueue c = [x]" "entry_at q r 0 x" "ct_callback x = n" "retransmission x = call"
    and q: "0 < q" "unat (ctrlTxRetryDelay c) = 5 * q" and big: "(r + 1) * (5 * q) < 2 ^ 32"
    and k: "k < (r + 1) * q"
  shows "\<exists>x' c'. run (ctrl_step tx msk) c (replicate k (Timer wait_ok)) = c' \<and>
     ctrlTxQueue c' = [x'] \<and> entry_at q r k x' \<and> ct_callback x' = n \<and> retransmission x' = call \<and>
     ctrlTxRetryDelay c' = ctrlTxRetryDelay c \<and> frames c' = frames c \<and>
     ctrlLog c' = ctrlLog c @ replicate (k div q) call"
  using k
proof (induction k)
  case 0
  then show ?case using c by simp
next
  case (Suc k)
  let ?c = "run (ctrl_step tx msk) c (replicate k (Timer wait_ok))"
  obtain x1 where x1: "ctrlTxQueue ?c = [x1]" "entry_at q r k x1" "ct_callback x1 = n"
      "retransmission x1 = call" "ctrlTxRetryDelay ?c = ctrlTxRetryDelay c" "frames ?c = frames c"
      "ctrlLog ?c = ctrlLog c @ replicate (k div q) call"
    using Suc by auto
  obtain x2 where x2: "tick_entry tx (ctrlTxRetryDelay ?c) x1 (ctrlLog ?c) =
        (Some x2, if q dvd Suc k then ctrlLog ?c @ [call] else ctrlLog ?c)"
      "entry_at q r (Suc k) x2" "retransmission x2 = call" "ct_callback x2 = n"
    using tick_entry_at [OF q(1) _ big x1(2), of "ctrlTxRetryDelay ?c" tx "ctrlLog ?c"] q(2) x1 Suc.prems
    by auto
  show ?case
    unfolding run_replicate_Suc one_tick [OF x1(1) x2(1)]
    using x1 x2 by (simp add: div_Suc_step [OF q(1)] replicate_append_same)
qed

text \<open>
  C9: When no other control request is outstanding, a non-empty request that nobody answers is
  transmitted \<open>1 + ctrlTxRetryCount\<close> times, the same bytes each time, and after exactly
  \<open>(1 + ctrlTxRetryCount) * ctrlTxRetryDelay\<close> milliseconds of the 5 ms poll timer its exchange
  ends with \<open>noResponse\<close> and it leaves the queue; not earlier. This holds of retry delays that are a
  positive multiple of the poll interval, with a whole delay that fits an \<open>unsigned int\<close>; with
  another delay the exchange need not end at all (\<open>odd\_delay\_wraps\<close>).
\<close>

theorem unanswered_request_is_retried_then_ends:
  fixes tx msk req e priv c q
  defines "r \<equiv> unat (ctrlTxRetryCount c)"
    and "c1 \<equiv> ctrl_step tx msk c (Request req e priv)"
    and "n \<equiv> length (frames c)"
    and "call \<equiv> \<lparr>tx_dest = e, tx_payload = req, tx_owner = True, tx_tag = 0, tx_private = priv\<rparr>"
  assumes idle: "ctrlTxQueue c = []" and req: "req \<noteq> []"
    and q: "0 < q" "unat (ctrlTxRetryDelay c) = 5 * q" and big: "(r + 1) * (5 * q) < 2 ^ 32"
  shows "(\<forall>k < (r + 1) * q.
       sendAndRcvMctpCtrl_result n (run (ctrl_step tx msk) c1 (replicate k (Timer wait_ok))) = None) \<and>
     (let c' = run (ctrl_step tx msk) c1 (replicate ((r + 1) * q) (Timer wait_ok)) in
        sendAndRcvMctpCtrl_result n c' = Some (noResponse, []) \<and> ctrlTxQueue c' = [] \<and>
        ctrlLog c' = ctrlLog c @ replicate (r + 1) call)"
proof -
  obtain x where x: "ctrlTxQueue c1 = [x]" "ct_callback x = n" "retransmission x = call"
      "ct_maxRespDelay x = (ucast (ctrlTxRetryCount c) + 1) * ctrlTxRetryDelay c"
      "ct_retryCount x = ctrlTxRetryCount c" "ct_state x = pushedForTransmission"
    using idle req unfolding c1_def
    by (auto simp: sendAndRcvMctpCtrl_start_def pushToCtrlTxQueue_def sendMctpCtrlMessage_def Let_def
        processCtrlTxQueue_def n_def call_def retransmission_def)
  have c1: "frames c1 = frames c @ [(pushedForTransmission, [])]" "ctrlLog c1 = ctrlLog c @ [call]"
      "ctrlTxRetryDelay c1 = ctrlTxRetryDelay c"
    using req unfolding c1_def
    by (auto simp: sendAndRcvMctpCtrl_start_def pushToCtrlTxQueue_def sendMctpCtrlMessage_def Let_def
        processCtrlTxQueue_def call_def)
  have r256: "r < 256" unfolding r_def by (rule byte_less)
  then have "unat (ucast (ctrlTxRetryCount c) + 1 :: u32) = r + 1"
    by (simp add: unat_word_ariths r_def)
  then have "unat (ct_maxRespDelay x) = (r + 1) * (5 * q)"
    using big q(2) by (simp add: x(4) unat_word_ariths)
  then have e0: "entry_at q r 0 x" by (simp add: entry_at_def x(5,6) r_def)
  have ticks: "\<exists>x' c'. run (ctrl_step tx msk) c1 (replicate k (Timer wait_ok)) = c' \<and>
     ctrlTxQueue c' = [x'] \<and> entry_at q r k x' \<and> ct_callback x' = n \<and> retransmission x' = call \<and>
     ctrlTxRetryDelay c' = ctrlTxRetryDelay c \<and> frames c' = frames c1 \<and>
     ctrlLog c' = ctrlLog c @ replicate (1 + k div q) call" if "k < (r + 1) * q" for k
    using lone_ticks [OF x(1) e0 x(2,3) q(1) _ big that, of tx msk] q(2) c1 by auto
  have 1: "sendAndRcvMctpCtrl_result n (run (ctrl_step tx msk) c1 (replicate k (Timer wait_ok))) = None"
    if "k < (r + 1) * q" for k
    using ticks [OF that] by (auto simp: sendAndRcvMctpCtrl_result_def c1(1) n_def)
  obtain K where K: "(r + 1) * q = Suc K" using q(1) by (cases "(r + 1) * q") auto
  let ?c = "run (ctrl_step tx msk) c1 (replicate K (Timer wait_ok))"
  have "K div q = r"
  proof -
    have "K = (q - 1) + r * q" using K q(1) by simp
    moreover have "((q - 1) + r * q) div q = r" using q(1) by (subst div_mult_self1) auto
    ultimately show ?thesis by simp
  qed
  then obtain x' where x': "ctrlTxQueue ?c = [x']" "entry_at q r K x'" "ct_callback x' = n"
      "ctrlTxRetryDelay ?c = ctrlTxRetryDelay c" "frames ?c = frames c1"
      "ctrlLog ?c = ctrlLog c @ replicate (1 + r) call"
    using ticks [of K] K by auto
  have t: "tick_entry tx (ctrlTxRetryDelay ?c) x' (ctrlLog ?c) = (None, ctrlLog ?c)"
    using tick_entry_at [OF q(1) _ big x'(2), of "ctrlTxRetryDelay ?c" tx "ctrlLog ?c"] K q(2) x'(4) by simp
  have "n < length (frames c1)" by (simp add: c1(1) n_def)
  then have 2: "let c' = run (ctrl_step tx msk) c1 (replicate ((r + 1) * q) (Timer wait_ok)) in
        sendAndRcvMctpCtrl_result n c' = Some (noResponse, []) \<and> ctrlTxQueue c' = [] \<and>
        ctrlLog c' = ctrlLog c @ replicate (r + 1) call"
    unfolding K run_replicate_Suc one_tick [OF x'(1) t]
    using x' by (simp add: sendAndRcvMctpCtrl_result_def invoke_callback_def)
  from 1 2 show ?thesis by blast
qed

lemma unanswered_request_is_retried_then_ends_witness:
  "ctrlLog (run (ctrl_step (\<lambda>_ _. 0) 0x1f) (new_ctrl 10 2)
       (Request [0, 0x81, 3] 9 [] # replicate 6 (Timer wait_ok))) =
     replicate 3 \<lparr>tx_dest = 9, tx_payload = [0, 0x81, 3], tx_owner = True, tx_tag = 0, tx_private = []\<rparr>"
  using unanswered_request_is_retried_then_ends
    [of "new_ctrl 10 2" "[0, 0x81, 3]" 2 "\<lambda>_ _. 0" "0x1f" 9 "[]"]
  by (simp add: new_ctrl_def Let_def)

text \<open>
  A configured delay that is not a multiple of the poll interval is never over: with a
  retry delay of 12 ms and no retries, the remaining delay is 2 ms after two expiries of the
  poll timer, the third one wraps it round to almost \<open>2^32\<close> ms, and the exchange is
  still waiting.
\<close>

lemma odd_delay_wraps:
  "let c = run (ctrl_step (\<lambda>_ _. 0) 0x1f) (new_ctrl 12 0)
             (Request [0, 0x81, 3] 9 [] # replicate 3 (Timer wait_ok))
   in sendAndRcvMctpCtrl_result 0 c = None \<and>
      map ct_maxRespDelay (ctrlTxQueue c) = [0xfffffffd]"
  by code_simp

end
