(* ===== verification/Mctp_Commands.thy ===== *)
theory Mctp_Commands
  imports Ctrl_Queue
begin

text \<open>
  The requester side of the MCTP control protocol (mctpd/src/MCTPBinding.cpp): instance
  ids, \<open>getFormattedReq\<close>, the checks on responses and one function per control command.
  The header files of libmctp are not part of the repository: the values, sizes, encoders
  and struct accessors the code takes from them are the fields of a parameter of type
  \<open>libmctp\<close>. The exchange itself (\<open>sendAndRcvMctpCtrl\<close>, see \<open>Ctrl\_Queue\<close>) suspends the
  coroutine; for the commands it is a parameter that yields the packet state, the response
  and the state left behind by whatever ran in the meantime.
\<close>

unbundle bit_operations_syntax

section \<open>Model\<close>

datatype ctrl_cmd =
    Get_Endpoint_Id
  | Set_Endpoint_Id byte eid
  | Get_Endpoint_Uuid
  | Get_Version_Support byte
  | Get_Message_Type_Support
  | Get_Vendor_Message_Support byte
  | Discovery_Notify
  | Get_Routing_Table_Entries byte
  | Undefined_Cmd int

text \<open>What the code uses of libmctp's headers: sizes of structs, values of macros and reads of struct fields.\<close>

record libmctp =
  FLAG_REQUEST :: byte
  INSTANCE_ID_MASK :: byte
  CC_SUCCESS :: byte
  CC_VER_UNSUPPORTED_TYPE :: byte
  EID_NULL :: eid
  SET_EID_OPERATION :: byte
  TYPE_MCTP_CTRL :: byte
  TYPE_PLDM :: byte
  TYPE_NCSI :: byte
  TYPE_ETHERNET :: byte
  TYPE_NVME :: byte
  TYPE_SPDM :: byte
  TYPE_VDPCI :: byte
  TYPE_VDIANA :: byte
  TYPE_BASE_INFO :: byte
  encode_cmd :: "ctrl_cmd \<Rightarrow> byte \<Rightarrow> byte list"
  sizeof_get_eid :: nat
  sizeof_set_eid :: nat
  sizeof_get_uuid :: nat
  sizeof_discovery_notify :: nat
  sizeof_routing_table :: nat
  sizeof_routing_entry :: nat
  gr_eid :: "byte list \<Rightarrow> byte"
  gr_eid_type :: "byte list \<Rightarrow> byte"
  sr_eid_set :: "byte list \<Rightarrow> byte"
  ur_uuid :: "byte list \<Rightarrow> byte list"
  rt_number_of_entries :: "byte list \<Rightarrow> byte"
  rte_phys_address_size :: "byte list \<Rightarrow> byte"
  CMD_SET_ENDPOINT_ID :: byte
  CMD_GET_ENDPOINT_ID :: byte
  CMD_GET_VERSION_SUPPORT :: byte
  CMD_GET_MESSAGE_TYPE_SUPPORT :: byte
  CMD_GET_VENDOR_MESSAGE_SUPPORT :: byte
  CMD_PREPARE_ENDPOINT_DISCOVERY :: byte
  CMD_ENDPOINT_DISCOVERY :: byte
  sizeof_ver_support :: nat
  sizeof_msg_type_support :: nat
  lib_get_endpoint_id :: "eid \<Rightarrow> bool \<Rightarrow> byte list"
  lib_set_endpoint_id :: "eid \<Rightarrow> byte list \<Rightarrow> byte list"
  lib_is_ctrl_msg :: "byte list \<Rightarrow> bool"
  lib_is_req :: "byte list \<Rightarrow> bool"

text \<open>The static counter of \<open>createInstanceId\<close>; mctpd has one binding per process.\<close>

record ctrl_static =
  instanceId :: byte

type_synonym 's exchange =
  "byte list \<Rightarrow> eid \<Rightarrow> byte list \<Rightarrow> 's \<Rightarrow> (packet_state \<times> byte list) \<times> 's"

definition createInstanceId :: "libmctp \<Rightarrow> 'a ctrl_static_scheme \<Rightarrow> byte \<times> 'a ctrl_static_scheme" where
  "createInstanceId L s =
     (let i = (instanceId s + 1) AND INSTANCE_ID_MASK L in (i, s\<lparr>instanceId := i\<rparr>))"

definition getRqDgramInst :: "libmctp \<Rightarrow> 'a ctrl_static_scheme \<Rightarrow> byte \<times> 'a ctrl_static_scheme" where
  "getRqDgramInst L s =
     (let (instanceID, s') = createInstanceId L s in (instanceID OR FLAG_REQUEST L, s'))"

definition getFormattedReq ::
    "libmctp \<Rightarrow> ctrl_cmd \<Rightarrow> 'a ctrl_static_scheme \<Rightarrow> (bool \<times> byte list) \<times> 'a ctrl_static_scheme" where
  "getFormattedReq L cmd s =
     (case cmd of
        Undefined_Cmd c \<Rightarrow> ((False, []), s)
      | _ \<Rightarrow> (let (rq, s') = getRqDgramInst L s in ((True, encode_cmd L cmd rq), s')))"

definition minCmdRespSize :: nat where
  "minCmdRespSize = 4"

definition completionCodeIndex :: nat where
  "completionCodeIndex = 3"

definition checkMinRespSize :: "byte list \<Rightarrow> bool" where
  "checkMinRespSize resp \<longleftrightarrow> minCmdRespSize \<le> length resp"

text \<open>The completion code is the byte after the three header bytes in every response struct.\<close>

definition checkRespSizeAndCompletionCode :: "libmctp \<Rightarrow> nat \<Rightarrow> byte list \<Rightarrow> bool" where
  "checkRespSizeAndCompletionCode L structSize resp \<longleftrightarrow>
     checkMinRespSize resp \<and>
     \<not> (resp ! completionCodeIndex \<noteq> CC_SUCCESS L \<or> length resp \<noteq> structSize)"

text \<open>Every command formats its request, exchanges it and gives up unless a response arrived.\<close>

definition exchange_cmd ::
    "libmctp \<Rightarrow> 'a ctrl_static_scheme exchange \<Rightarrow> byte list \<Rightarrow> eid \<Rightarrow> ctrl_cmd
     \<Rightarrow> 'a ctrl_static_scheme \<Rightarrow> byte list option \<times> 'a ctrl_static_scheme" where
  "exchange_cmd L sendAndRcvMctpCtrl bindingPrivate destEid cmd s =
     (let ((ok, req), s1) = getFormattedReq L cmd s
      in if \<not> ok then (None, s1)
         else (let ((pktState, resp), s2) = sendAndRcvMctpCtrl bindingPrivate destEid req s1
               in if receivedResponse \<noteq> pktState then (None, s2) else (Some resp, s2)))"

definition getEidCtrlCmd ::
    "libmctp \<Rightarrow> 'a ctrl_static_scheme exchange \<Rightarrow> byte list \<Rightarrow> eid
     \<Rightarrow> 'a ctrl_static_scheme \<Rightarrow> byte list option \<times> 'a ctrl_static_scheme" where
  "getEidCtrlCmd L X bindingPrivate destEid s =
     (case exchange_cmd L X bindingPrivate destEid Get_Endpoint_Id s of
        (None, s') \<Rightarrow> (None, s')
      | (Some resp, s') \<Rightarrow>
          (if \<not> checkRespSizeAndCompletionCode L (sizeof_get_eid L) resp then (None, s')
           else (Some resp, s')))"

definition setEidCtrlCmd ::
    "libmctp \<Rightarrow> 'a ctrl_static_scheme exchange \<Rightarrow> byte list \<Rightarrow> eid \<Rightarrow> byte \<Rightarrow> eid
     \<Rightarrow> 'a ctrl_static_scheme \<Rightarrow> byte list option \<times> 'a ctrl_static_scheme" where
  "setEidCtrlCmd L X bindingPrivate destEid operation e s =
     (case exchange_cmd L X bindingPrivate destEid (Set_Endpoint_Id operation e) s of
        (None, s') \<Rightarrow> (None, s')
      | (Some resp, s') \<Rightarrow>
          (if \<not> checkRespSizeAndCompletionCode L (sizeof_set_eid L) resp then (None, s')
           else (Some resp, s')))"

subsection \<open>UUIDs\<close>

definition hex_digit :: "nat \<Rightarrow> char" where
  "hex_digit n = ''0123456789abcdef'' ! n"

definition hex2 :: "byte \<Rightarrow> string" where
  "hex2 b = [hex_digit (unat b div 16), hex_digit (unat b mod 16)]"

text \<open>\<open>snprintf\<close> with sixteen \<open>\%02x\<close> and dashes after bytes 4, 6, 8 and 10.\<close>

definition formatUUID :: "byte list \<Rightarrow> string" where
  "formatUUID ptr =
     concat (map (\<lambda>i. hex2 (ptr ! i)) [0, 1, 2, 3]) @ ''-'' @
     concat (map (\<lambda>i. hex2 (ptr ! i)) [4, 5]) @ ''-'' @
     concat (map (\<lambda>i. hex2 (ptr ! i)) [6, 7]) @ ''-'' @
     concat (map (\<lambda>i. hex2 (ptr ! i)) [8, 9]) @ ''-'' @
     concat (map (\<lambda>i. hex2 (ptr ! i)) [10, 11, 12, 13, 14, 15])"

definition nullUUID :: string where
  "nullUUID = ''00000000-0000-0000-0000-000000000000''"

text \<open>Also the bytes of the response are returned: the caller reads them after a failure.\<close>

definition getUuidCtrlCmd ::
    "libmctp \<Rightarrow> 'a ctrl_static_scheme exchange \<Rightarrow> byte list \<Rightarrow> eid
     \<Rightarrow> 'a ctrl_static_scheme \<Rightarrow> (bool \<times> byte list) \<times> 'a ctrl_static_scheme" where
  "getUuidCtrlCmd L X bindingPrivate destEid s =
     (case exchange_cmd L X bindingPrivate destEid Get_Endpoint_Uuid s of
        (None, s') \<Rightarrow> ((False, []), s')
      | (Some resp, s') \<Rightarrow>
          (if \<not> checkRespSizeAndCompletionCode L (sizeof_get_uuid L) resp then ((False, resp), s')
           else if nullUUID = formatUUID (ur_uuid L resp) then ((False, resp), s')
           else ((True, resp), s')))"

subsection \<open>Message types and versions\<close>

definition minMsgTypeRespLen :: nat where
  "minMsgTypeRespLen = 5"

text \<open>
  \<open>MsgTypeSupportCtrlResp\<close> is the three header bytes, the completion code, the count and
  the types. A failure may leave the caller's struct partly written; it is not read then.
\<close>

definition getMsgTypeSupportCtrlCmd ::
    "libmctp \<Rightarrow> 'a ctrl_static_scheme exchange \<Rightarrow> byte list \<Rightarrow> eid
     \<Rightarrow> 'a ctrl_static_scheme \<Rightarrow> byte list option \<times> 'a ctrl_static_scheme" where
  "getMsgTypeSupportCtrlCmd L X bindingPrivate destEid s =
     (case exchange_cmd L X bindingPrivate destEid Get_Message_Type_Support s of
        (None, s') \<Rightarrow> (None, s')
      | (Some resp, s') \<Rightarrow>
          (if \<not> checkMinRespSize resp then (None, s')
           else if resp ! completionCodeIndex \<noteq> CC_SUCCESS L \<or> length resp \<le> minMsgTypeRespLen
             then (None, s')
           else if length resp - minMsgTypeRespLen \<noteq> unat (resp ! 4) then (None, s')
           else (Some (drop minMsgTypeRespLen resp), s')))"

record MCTPVersionFields =
  major :: byte
  minor :: byte
  update :: byte
  alpha :: byte

definition mctpVersionLen :: nat where
  "mctpVersionLen = 4"

definition read_version :: "byte list \<Rightarrow> nat \<Rightarrow> MCTPVersionFields" where
  "read_version resp iter =
     (let verNoEntryStartOffset = minMsgTypeRespLen + mctpVersionLen * (iter - 1)
      in \<lparr>major = resp ! verNoEntryStartOffset, minor = resp ! (verNoEntryStartOffset + 1),
          update = resp ! (verNoEntryStartOffset + 2), alpha = resp ! (verNoEntryStartOffset + 3)\<rparr>)"

definition getMctpVersionSupportCtrlCmd ::
    "libmctp \<Rightarrow> 'a ctrl_static_scheme exchange \<Rightarrow> byte list \<Rightarrow> eid \<Rightarrow> byte
     \<Rightarrow> 'a ctrl_static_scheme \<Rightarrow> MCTPVersionFields list option \<times> 'a ctrl_static_scheme" where
  "getMctpVersionSupportCtrlCmd L X bindingPrivate destEid msgTypeNo s =
     (case exchange_cmd L X bindingPrivate destEid (Get_Version_Support msgTypeNo) s of
        (None, s') \<Rightarrow> (None, s')
      | (Some resp, s') \<Rightarrow>
          (if \<not> checkMinRespSize resp then (None, s')
           else if resp ! completionCodeIndex \<noteq> CC_SUCCESS L \<or> length resp \<le> minMsgTypeRespLen
             then (None, s')
           else if length resp - minMsgTypeRespLen \<noteq> unat (resp ! 4) * mctpVersionLen then (None, s')
           else (Some (map (read_version resp) [1 ..< unat (resp ! 4) + 1]), s')))"

definition supportedMCTPVersion :: MCTPVersionFields where
  "supportedMCTPVersion = \<lparr>major = 241, minor = 243, update = 241, alpha = 0\<rparr>"

definition isMCTPVersionSupported :: "MCTPVersionFields \<Rightarrow> bool" where
  "isMCTPVersionSupported version \<longleftrightarrow>
     major version = major supportedMCTPVersion \<and> minor version = minor supportedMCTPVersion \<and>
     update version = update supportedMCTPVersion"

subsection \<open>Vendor defined message sets\<close>

text \<open>\<open>std::hex\<close> prints without leading zeros.\<close>

fun hex_of :: "nat \<Rightarrow> string" where
  "hex_of n = (if n < 16 then [hex_digit n] else hex_of (n div 16) @ [hex_digit (n mod 16)])"

declare hex_of.simps [simp del]

definition vendIdMsgSupportRespSize :: nat where
  "vendIdMsgSupportRespSize = 10"

definition noMoreSet :: byte where
  "noMoreSet = 0xFF"

text \<open>
  The loop of \<open>getPCIVDMessageSupportCtrlCmd\<close> from set selector \<open>vendorIdSet\<close> on, with the
  lists built so far. In the 10 bytes of a response the set selector is byte 4, the vendor
  id bytes 6 and 7 and the command set type bytes 8 and 9.
\<close>

function pcivd_loop ::
    "libmctp \<Rightarrow> 'a ctrl_static_scheme exchange \<Rightarrow> byte list \<Rightarrow> eid \<Rightarrow> byte \<Rightarrow> u16 list \<Rightarrow> string
     \<Rightarrow> 'a ctrl_static_scheme \<Rightarrow> (bool \<times> u16 list \<times> string) \<times> 'a ctrl_static_scheme" where
  "pcivd_loop L X bindingPrivate destEid vendorIdSet vendorSetIdList venFormatData s =
     (if \<not> vendorIdSet < 255 then ((True, vendorSetIdList, venFormatData), s)
      else case exchange_cmd L X bindingPrivate destEid (Get_Vendor_Message_Support vendorIdSet) s of
        (None, s') \<Rightarrow> ((False, vendorSetIdList, venFormatData), s')
      | (Some resp, s') \<Rightarrow>
          (if \<not> checkMinRespSize resp then ((False, vendorSetIdList, venFormatData), s')
           else if resp ! completionCodeIndex \<noteq> CC_SUCCESS L \<or> length resp < vendIdMsgSupportRespSize
             then ((False, vendorSetIdList, venFormatData), s')
           else (let venid = byte_swap16 (read16 resp 6);
                     fmt = hex_of (unat venid);
                     ids = vendorSetIdList @ [byte_swap16 (read16 resp 8)]
                 in if resp ! 4 = noMoreSet then ((True, ids, fmt), s')
                    else if vendorIdSet + 1 = 255 \<and> resp ! 4 \<noteq> noMoreSet then ((False, ids, fmt), s')
                    else pcivd_loop L X bindingPrivate destEid (vendorIdSet + 1) ids fmt s')))"
  by pat_completeness auto

lemma byte_measure: "v < 255 \<Longrightarrow> 255 - unat (v + 1 :: byte) < 255 - unat v"
proof -
  assume v: "v < 255"
  then have "unat v < 255" by (simp add: word_less_nat_alt)
  then have "unat (v + 1) = unat v + 1" by (simp add: unat_word_ariths)
  with \<open>unat v < 255\<close> show ?thesis by simp
qed

termination pcivd_loop
  by (relation "measure (\<lambda>(L, X, priv, e, v, ids, fmt, s). 255 - unat v)") (auto simp: byte_measure)

declare pcivd_loop.simps [simp del]

definition getPCIVDMessageSupportCtrlCmd ::
    "libmctp \<Rightarrow> 'a ctrl_static_scheme exchange \<Rightarrow> byte list \<Rightarrow> eid
     \<Rightarrow> 'a ctrl_static_scheme \<Rightarrow> (bool \<times> u16 list \<times> string) \<times> 'a ctrl_static_scheme" where
  "getPCIVDMessageSupportCtrlCmd L X bindingPrivate destEid s =
     pcivd_loop L X bindingPrivate destEid 0 [] [] s"

definition discoveryNotifyCtrlCmd ::
    "libmctp \<Rightarrow> 'a ctrl_static_scheme exchange \<Rightarrow> byte list \<Rightarrow> eid
     \<Rightarrow> 'a ctrl_static_scheme \<Rightarrow> bool \<times> 'a ctrl_static_scheme" where
  "discoveryNotifyCtrlCmd L X bindingPrivate destEid s =
     (case exchange_cmd L X bindingPrivate destEid Discovery_Notify s of
        (None, s') \<Rightarrow> (False, s')
      | (Some resp, s') \<Rightarrow> (checkRespSizeAndCompletionCode L (sizeof_discovery_notify L) resp, s'))"

subsection \<open>Routing tables\<close>

text \<open>
  The loop of \<open>getRoutingTableCtrlCmd\<close> over the remaining \<open>n\<close> entries: the offset behind the
  last entry, or \<open>None\<close> when the response is too short. The fixed part of the entry at an
  offset is read through a cast pointer.
\<close>

fun routing_entries_end :: "libmctp \<Rightarrow> byte list \<Rightarrow> nat \<Rightarrow> nat \<Rightarrow> nat option" where
  "routing_entries_end L resp 0 entryOffset = Some entryOffset"
| "routing_entries_end L resp (Suc n) entryOffset =
     (let o1 = entryOffset + sizeof_routing_entry L
      in if length resp < o1 then None
         else (let o2 = o1 + unat (rte_phys_address_size L (drop entryOffset resp))
               in if length resp < o2 then None else routing_entries_end L resp n o2))"

definition routing_response_ok :: "libmctp \<Rightarrow> byte list \<Rightarrow> bool" where
  "routing_response_ok L resp \<longleftrightarrow>
     checkMinRespSize resp \<and> resp ! 3 = CC_SUCCESS L \<and>
     \<not> length resp < sizeof_routing_table L \<and>
     routing_entries_end L resp (unat (rt_number_of_entries L resp)) (sizeof_routing_table L)
       = Some (length resp)"

definition getRoutingTableCtrlCmd ::
    "libmctp \<Rightarrow> 'a ctrl_static_scheme exchange \<Rightarrow> byte list \<Rightarrow> eid \<Rightarrow> byte
     \<Rightarrow> 'a ctrl_static_scheme \<Rightarrow> byte list option \<times> 'a ctrl_static_scheme" where
  "getRoutingTableCtrlCmd L X bindingPrivate destEid entryHandle s =
     (case exchange_cmd L X bindingPrivate destEid (Get_Routing_Table_Entries entryHandle) s of
        (None, s') \<Rightarrow> (None, s')
      | (Some resp, s') \<Rightarrow> (if routing_response_ok L resp then (Some resp, s') else (None, s')))"

section \<open>Instance ids\<close>

fun draw_ids :: "libmctp \<Rightarrow> nat \<Rightarrow> 'a ctrl_static_scheme \<Rightarrow> byte list" where
  "draw_ids L 0 s = []"
| "draw_ids L (Suc n) s = (let (i, s') = createInstanceId L s in i # draw_ids L n s')"

lemma and_1f: "(x::byte) AND 0x1f = take_bit 5 x"
  by (simp add: take_bit_eq_mask mask_eq_exp_minus_1)

lemma createInstanceId_mod:
  assumes "INSTANCE_ID_MASK L = 0x1f"
  shows "unat (fst (createInstanceId L s)) = (unat (instanceId s) + 1) mod 32 \<and>
     instanceId (snd (createInstanceId L s)) = fst (createInstanceId L s)"
proof -
  have "unat (take_bit 5 (instanceId s + 1)) = (unat (instanceId s) + 1) mod 256 mod 32"
    by (simp add: unsigned_take_bit_eq take_bit_eq_mod unat_word_ariths)
  also have "\<dots> = (unat (instanceId s) + 1) mod 32" by (simp add: mod_mod_cancel)
  finally show ?thesis by (simp add: createInstanceId_def Let_def assms and_1f)
qed

lemma draw_ids_mod:
  assumes "INSTANCE_ID_MASK L = 0x1f"
  shows "map unat (draw_ids L n s) = map (\<lambda>i. (unat (instanceId s) + i) mod 32) [1 ..< n + 1]"
proof (induction n arbitrary: s)
  case (Suc n)
  obtain i s' where c: "createInstanceId L s = (i, s')" by force
  have i: "unat i = (unat (instanceId s) + 1) mod 32" "instanceId s' = i"
    using createInstanceId_mod [OF assms, of s] c by auto
  have "map (\<lambda>k. (unat i + k) mod 32) [1 ..< n + 1] =
      map (\<lambda>k. (unat (instanceId s) + k) mod 32) (map Suc [1 ..< n + 1])"
    by (simp add: i(1) mod_add_left_eq)
  moreover have "[1 ..< Suc n + 1] = 1 # map Suc [1 ..< n + 1]"
    by (simp add: upt_conv_Cons map_Suc_upt numeral_2_eq_2 del: upt_Suc)
  ultimately show ?case using Suc.IH [of s'] i by (simp add: c)
qed simp

text \<open>
  Any 32 consecutive control requests carry 32 different instance ids: with the
  5-bit instance id of the MCTP base specification a response can only match a request of
  the 32 most recent ones.
\<close>

lemma instance_ids_are_distinct:
  assumes "INSTANCE_ID_MASK L = 0x1f" and "n \<le> 32"
  shows "distinct (draw_ids L n s) \<and> (\<forall>i \<in> set (draw_ids L n s). i < 32)"
proof -
  have inj: "(a + i) mod 32 \<noteq> (a + j) mod 32" if "i < j" "j < i + 32" for a i j :: nat
  proof
    assume "(a + i) mod 32 = (a + j) mod 32"
    then have "32 dvd (a + j) - (a + i)" using that(1) by (metis mod_eq_dvd_iff_nat add_le_mono le_refl less_imp_le)
    then show False using that by (auto dest: dvd_imp_le)
  qed
  have "inj_on (\<lambda>i. (unat (instanceId s) + i) mod 32) (set [1 ..< n + 1])"
  proof (rule inj_onI)
    fix i j assume "i \<in> set [1 ..< n + 1]" "j \<in> set [1 ..< n + 1]"
      "(unat (instanceId s) + i) mod 32 = (unat (instanceId s) + j) mod 32"
    then show "i = j" using inj [of i j "unat (instanceId s)"] inj [of j i "unat (instanceId s)"] assms(2)
      by (cases i j rule: linorder_cases) auto
  qed
  then have "distinct (map unat (draw_ids L n s))"
    unfolding draw_ids_mod [OF assms(1)] by (simp add: distinct_map)
  moreover have "unat i < 32" if "i \<in> set (draw_ids L n s)" for i
  proof -
    have "unat i \<in> set (map unat (draw_ids L n s))" using that by simp
    then show ?thesis unfolding draw_ids_mod [OF assms(1)] by auto
  qed
  ultimately show ?thesis by (auto simp: distinct_map word_less_nat_alt)
qed

text \<open>The layout of DSP0236, the specification that libmctp implements, for concrete runs.\<close>

definition dsp0236 :: libmctp where
  "dsp0236 = \<lparr>FLAG_REQUEST = 0x80, INSTANCE_ID_MASK = 0x1f, CC_SUCCESS = 0,
     CC_VER_UNSUPPORTED_TYPE = 0x80, EID_NULL = 0, SET_EID_OPERATION = 0, TYPE_MCTP_CTRL = 0, TYPE_PLDM = 1,
     TYPE_NCSI = 2, TYPE_ETHERNET = 3, TYPE_NVME = 4, TYPE_SPDM = 5, TYPE_VDPCI = 0x7e,
     TYPE_VDIANA = 0x7f, TYPE_BASE_INFO = 0xff,
     encode_cmd = (\<lambda>cmd rq. case cmd of
         Get_Endpoint_Id \<Rightarrow> [0, rq, 2]
       | Set_Endpoint_Id op e \<Rightarrow> [0, rq, 1, op, e]
       | Get_Endpoint_Uuid \<Rightarrow> [0, rq, 3]
       | Get_Version_Support t \<Rightarrow> [0, rq, 4, t]
       | Get_Message_Type_Support \<Rightarrow> [0, rq, 5]
       | Get_Vendor_Message_Support v \<Rightarrow> [0, rq, 6, v]
       | Discovery_Notify \<Rightarrow> [0, rq, 0x0d]
       | Get_Routing_Table_Entries h \<Rightarrow> [0, rq, 0x0a, h]
       | Undefined_Cmd _ \<Rightarrow> []),
     sizeof_get_eid = 7, sizeof_set_eid = 7, sizeof_get_uuid = 20, sizeof_discovery_notify = 4,
     sizeof_routing_table = 6, sizeof_routing_entry = 6,
     gr_eid = (\<lambda>r. r ! 4), gr_eid_type = (\<lambda>r. r ! 5), sr_eid_set = (\<lambda>r. r ! 5),
     ur_uuid = (\<lambda>r. take 16 (drop 4 r)), rt_number_of_entries = (\<lambda>r. r ! 5),
     rte_phys_address_size = (\<lambda>r. r ! 5),
     CMD_SET_ENDPOINT_ID = 1, CMD_GET_ENDPOINT_ID = 2, CMD_GET_VERSION_SUPPORT = 4,
     CMD_GET_MESSAGE_TYPE_SUPPORT = 5, CMD_GET_VENDOR_MESSAGE_SUPPORT = 6,
     CMD_PREPARE_ENDPOINT_DISCOVERY = 0x0b, CMD_ENDPOINT_DISCOVERY = 0x0c,
     sizeof_ver_support = 5, sizeof_msg_type_support = 5,
     lib_get_endpoint_id = (\<lambda>e busowner. [0, 0, 0, 0, 8, (if busowner then 0x10 else 0), 0]),
     lib_set_endpoint_id = (\<lambda>e req. [0, 0, 0, 0, 0, req ! 4, 0]),
     lib_is_ctrl_msg = (\<lambda>m. m \<noteq> [] \<and> m ! 0 = 0), lib_is_req = (\<lambda>m. bit (m ! 1) 7)\<rparr>"

lemma dsp0236_simps [simp]:
  "FLAG_REQUEST dsp0236 = 0x80" "INSTANCE_ID_MASK dsp0236 = 0x1f" "CC_SUCCESS dsp0236 = 0"
  "EID_NULL dsp0236 = 0" "sizeof_routing_table dsp0236 = 6" "sizeof_routing_entry dsp0236 = 6"
  "sizeof_ver_support dsp0236 = 5" "CC_VER_UNSUPPORTED_TYPE dsp0236 = 0x80"
  "encode_cmd dsp0236 (Get_Version_Support t) rq = [0, rq, 4, t]"
  by (simp_all add: dsp0236_def)

theorem instance_ids_are_distinct_witness:
  "distinct (draw_ids dsp0236 32 \<lparr>instanceId = 17\<rparr>)"
  using instance_ids_are_distinct [of dsp0236 32 "\<lparr>instanceId = 17\<rparr>"] by (simp add: dsp0236_def)

section \<open>UUID strings\<close>

lemma hex_digit_inj: "a < 16 \<Longrightarrow> b < 16 \<Longrightarrow> hex_digit a = hex_digit b \<Longrightarrow> a = b"
proof -
  have "distinct ''0123456789abcdef''" by simp
  then show "a < 16 \<Longrightarrow> b < 16 \<Longrightarrow> hex_digit a = hex_digit b \<Longrightarrow> a = b"
    by (simp add: hex_digit_def nth_eq_iff_index_eq)
qed

lemma hex2_inj: "hex2 a = hex2 b \<longleftrightarrow> a = b"
proof
  assume h: "hex2 a = hex2 b"
  have "unat a div 16 = unat b div 16" "unat a mod 16 = unat b mod 16"
    using h hex_digit_inj [of "unat a div 16" "unat b div 16"]
      hex_digit_inj [of "unat a mod 16" "unat b mod 16"] byte_less [of a] byte_less [of b]
    by (auto simp: hex2_def less_mult_imp_div_less)
  then have "unat a = unat b" by (metis div_mult_mod_eq)
  then show "a = b" by (simp add: word_unat_eq_iff)
qed simp

lemma hex2_append: "hex2 a @ xs = hex2 b @ ys \<longleftrightarrow> a = b \<and> xs = ys"
proof -
  have "length (hex2 a) = length (hex2 b)" by (simp add: hex2_def)
  then show ?thesis by (simp add: append_eq_append_conv hex2_inj)
qed

lemma formatUUID_inj:
  "formatUUID u = formatUUID v \<longleftrightarrow> 
     (\<forall>i \<in> {0, 1, 2, 3, 4, 5, 6, 7, 8, 9, 10, 11, 12, 13, 14, 15}. u ! i = v ! i)"
  by (simp add: formatUUID_def hex2_append hex2_inj)

lemma formatUUID_null: "formatUUID (replicate 16 0) = nullUUID"
  by code_simp

text \<open>
  The text of a UUID identifies its 16 bytes: two UUIDs have the same text only if
  they are equal, and the text is the nil UUID only for 16 zero bytes.
\<close>

lemma uuid_text_identifies_uuid:
  assumes "length u = 16" "length v = 16"
  shows "(formatUUID u = formatUUID v \<longleftrightarrow> u = v) \<and> (formatUUID u = nullUUID \<longleftrightarrow> u = replicate 16 0)"
proof -
  have e: "formatUUID a = formatUUID b \<longleftrightarrow> a = b" if "length a = 16" "length b = 16" for a b
  proof
    assume f: "formatUUID a = formatUUID b"
    have "i \<in> {0, 1, 2, 3, 4, 5, 6, 7, 8, 9, 10, 11, 12, 13, 14, 15}" if "i < 16" for i :: nat
      using that by simp arith
    then show "a = b" using f that unfolding formatUUID_inj
      by (intro nth_equalityI) (simp, metis)
  qed simp
  show ?thesis
    using e [OF assms] e [OF assms(1), of "replicate 16 0"] by (simp add: formatUUID_null)
qed

theorem uuid_text_identifies_uuid_witness:
  "formatUUID [0x61, 0xa3, 0x95, 0x23, 0x78, 0xf2, 0x11, 0xe5, 0x98, 0x62, 0xe6, 0x40, 0x2c, 0xfc, 0x32, 0x23]
     = ''61a39523-78f2-11e5-9862-e6402cfc3223'' \<and>
   formatUUID [0x61, 0xa3, 0x95, 0x23, 0x78, 0xf2, 0x11, 0xe5, 0x98, 0x62, 0xe6, 0x40, 0x2c, 0xfc, 0x32, 0x23]
     \<noteq> nullUUID"
proof -
  have "formatUUID [0x61, 0xa3, 0x95, 0x23, 0x78, 0xf2, 0x11, 0xe5, 0x98, 0x62, 0xe6, 0x40, 0x2c, 0xfc, 0x32, 0x23]
     = ''61a39523-78f2-11e5-9862-e6402cfc3223''" by code_simp
  moreover have "[0x61, 0xa3, 0x95, 0x23, 0x78, 0xf2, 0x11, 0xe5, 0x98, 0x62, 0xe6, 0x40, 0x2c, 0xfc, 0x32, 0x23] \<noteq> replicate 16 (0::byte)" (is "?u \<noteq> _")
  proof
    assume "?u = replicate 16 0"
    then have "?u ! 0 = replicate 16 0 ! 0" by (rule arg_cong)
    then show False by simp
  qed
  ultimately show ?thesis
    using uuid_text_identifies_uuid [of "[0x61, 0xa3, 0x95, 0x23, 0x78, 0xf2, 0x11, 0xe5, 0x98, 0x62, 0xe6, 0x40, 0x2c, 0xfc, 0x32, 0x23]" "replicate 16 0"] by simp
qed

section \<open>Version lists\<close>

definition put_version :: "MCTPVersionFields \<Rightarrow> byte list" where
  "put_version v = [major v, minor v, update v, alpha v]"

lemma length_put_version [simp]: "length (put_version v) = 4"
  by (simp add: put_version_def)

lemma length_put_versions: "length (concat (map put_version vs)) = 4 * length vs"
  by (induction vs) simp_all

lemma put_versions_nth:
  "k < length vs \<Longrightarrow> j < 4 \<Longrightarrow> concat (map put_version vs) ! (4 * k + j) = put_version (vs ! k) ! j"
proof (induction vs arbitrary: k)
  case (Cons v vs)
  then show ?case
  proof (cases k)
    case (Suc m)
    then show ?thesis using Cons by (simp add: nth_append)
  qed (simp add: nth_append)
qed simp

lemma version_list_read:
  assumes "vs \<noteq> []" "length vs < 256" "length hdr = 3"
    and "exchange_cmd L X priv e (Get_Version_Support t) s =
       (Some (hdr @ [CC_SUCCESS L, of_nat (length vs)] @ concat (map put_version vs)), s')"
  shows "getMctpVersionSupportCtrlCmd L X priv e t s = (Some vs, s')"
proof -
  let ?r = "hdr @ [CC_SUCCESS L, of_nat (length vs)] @ concat (map put_version vs)"
  have n: "unat (of_nat (length vs) :: byte) = length vs"
    using assms(2) by (simp add: unat_of_nat)
  have len: "length ?r = 5 + 4 * length vs" by (simp add: assms(3) length_put_versions)
  have at: "?r ! 3 = CC_SUCCESS L" "?r ! 4 = of_nat (length vs)"
    by (simp_all add: assms(3) nth_append)
  have "read_version ?r (Suc k) = vs ! k" if "k < length vs" for k
  proof -
    have "?r ! (5 + 4 * k + j) = put_version (vs ! k) ! j" if "j < 4" for j
      using put_versions_nth [OF \<open>k < length vs\<close> that] by (simp add: assms(3) nth_append)
    from this [of 0] this [of 1] this [of 2] this [of 3] show ?thesis
      by (simp add: read_version_def Let_def minMsgTypeRespLen_def mctpVersionLen_def put_version_def
          add.commute add.left_commute)
  qed
  then have "map (read_version ?r) [1 ..< length vs + 1] = vs"
    by (intro nth_equalityI) (simp_all del: upt_Suc)
  then show ?thesis
    using assms(1) len at n
    by (simp add: getMctpVersionSupportCtrlCmd_def assms(4) checkMinRespSize_def minCmdRespSize_def
        completionCodeIndex_def minMsgTypeRespLen_def mctpVersionLen_def del: upt_Suc append.simps)
qed

text \<open>
  The version list of a Get MCTP Version Support response is read back exactly: a
  response that carries between 1 and 255 versions yields these versions in order.
\<close>

lemma version_list_roundtrip:
  assumes "vs \<noteq> []" "length vs < 256" "length hdr = 3"
    and "exchange_cmd L X priv e (Get_Version_Support t) s =
       (Some (hdr @ [CC_SUCCESS L, of_nat (length vs)] @ concat (map put_version vs)), s')"
  shows "getMctpVersionSupportCtrlCmd L X priv e t s = (Some vs, s')"
  using assms by (rule version_list_read)

theorem version_list_roundtrip_witness:
  "getMctpVersionSupportCtrlCmd dsp0236 (\<lambda>_ _ _ s. ((receivedResponse, [0, 0x01, 4, 0, 1, 241, 243, 241, 0]), s))
     [] 9 0 \<lparr>instanceId = 0\<rparr> = (Some [supportedMCTPVersion], \<lparr>instanceId = 1\<rparr>)"
  by (rule version_list_roundtrip [of "[supportedMCTPVersion]" "[0, 0x01, 4]"])
    (simp_all add: exchange_cmd_def getFormattedReq_def getRqDgramInst_def createInstanceId_def Let_def
      dsp0236_def put_version_def supportedMCTPVersion_def)

end
