(* ===== verification/Mctp_Responder.thy ===== *)
theory Mctp_Responder
  imports Mctp_Commands Transmission_Queue Eid_Pool Device_Watcher
begin

text \<open>
  The state of \<open>MctpBinding\<close> and what it does with incoming messages
  (mctpd/src/MCTPBinding.cpp): \<open>rxMessage\<close> and \<open>handleMCTPControlRequests\<close>, the dispatch
  and the default handlers of control requests, the registration of responders for upper
  layers and the D-Bus methods that send messages. The virtual functions of the class are
  the fields of \<open>virtual\<close>; the SMBus and PCIe bindings give their own.
\<close>

unbundle bit_operations_syntax

section \<open>State of a binding\<close>

datatype binding_mode = BusOwner | Endpoint | Bridge

record MsgTypes =
  mctpControl :: bool
  pldm :: bool
  ncsi :: bool
  ethernet :: bool
  nvmeMgmtMsg :: bool
  spdm :: bool
  vdpci :: bool
  vdiana :: bool

record InternalVdmSetDatabase =
  vendorIdFormat :: byte
  vendorId :: u16
  commandSetType :: u16

record rx_signal =
  sig_msgType :: byte
  sig_srcEid :: eid
  sig_msgTag :: byte
  sig_tagOwner :: bool
  sig_payload :: "byte list"

record binding = ctrl_static +
  bindingModeType :: binding_mode
  ownEid :: eid
  busOwnerEid :: eid
  rsvBWActive :: bool
  reservedEID :: eid
  ctrlQueue :: ctrl
  transmissionQueue :: tqueue
  deviceWatcher :: device_watcher
  eidPool :: eid_pool
  versionNumbers :: "byte \<rightharpoonup> byte list"
  vdmSetDatabase :: "InternalVdmSetDatabase list"
  endpointInterface :: "eid \<rightharpoonup> binding_mode \<times> u16"
  msgTypeInterface :: "eid \<rightharpoonup> MsgTypes"
  uuidInterface :: "eid \<rightharpoonup> string"
  vendorIdInterface :: "eid \<rightharpoonup> u16 list \<times> string"
  uuidTable :: "(eid \<times> string) list"
  incompatibleEIDs :: "eid list"
  signals :: "rx_signal list"
  replies :: "tx_call list"

text \<open>
  The result of a handler of a control request: a reply is the response and the binding
  private data, which a handler may change, with which it is sent. \<open>ReadPastEnd\<close> marks the
  branches in which the code reads a struct field beyond the bytes received.
\<close>

datatype handler_result = Silent | Reply "byte list" "byte list" | ReadPastEnd

type_synonym 's handler = "eid \<Rightarrow> byte list \<Rightarrow> byte list \<Rightarrow> 's \<Rightarrow> handler_result \<times> 's"

record 's virtual =
  isReceivedPrivateDataCorrect :: "byte list \<Rightarrow> 's \<Rightarrow> bool"
  getBindingPrivateData :: "eid \<Rightarrow> 's \<Rightarrow> byte list option \<times> 's"
  addUnknownEIDToDeviceTable :: "eid \<Rightarrow> byte list \<Rightarrow> 's \<Rightarrow> 's"
  reserveBandwidth :: "eid \<Rightarrow> u16 \<Rightarrow> 's \<Rightarrow> bool \<times> 's"
  releaseBandwidth :: "eid \<Rightarrow> 's \<Rightarrow> bool \<times> 's"
  handlePrepareForEndpointDiscovery :: "'s handler"
  handleEndpointDiscovery :: "'s handler"
  handleGetEndpointId :: "'s handler"
  handleSetEndpointId :: "'s handler"
  handleGetVersionSupport :: "'s handler"
  handleGetMsgTypeSupport :: "'s handler"
  handleGetVdmSupport :: "'s handler"

section \<open>Default handlers\<close>

definition message_not_supported :: "'a binding_scheme handler" where
  "message_not_supported destEid bindingPrivate request b = (Silent, b)"

definition base_handleGetEndpointId :: "libmctp \<Rightarrow> 'a binding_scheme handler" where
  "base_handleGetEndpointId L destEid bindingPrivate request b =
     (let busownerMode = (if bindingModeType b = BusOwner then True else False)
      in (Reply (lib_get_endpoint_id L destEid busownerMode) bindingPrivate, b))"

definition base_handleSetEndpointId :: "libmctp \<Rightarrow> 'a binding_scheme handler" where
  "base_handleSetEndpointId L destEid bindingPrivate request b =
     (if bindingModeType b \<noteq> Endpoint then (Silent, b)
      else (let resp = lib_set_endpoint_id L destEid request;
                b' = (if resp ! completionCodeIndex = CC_SUCCESS L
                      then b\<lparr>busOwnerEid := destEid, ownEid := sr_eid_set L resp\<rparr> else b)
            in (Reply resp bindingPrivate, b')))"

text \<open>
  The message type number is the byte after the three bytes of the header; nothing checks
  that the request has it. \<open>response.resize\<close> fills with zeros.
\<close>

definition base_handleGetVersionSupport :: "libmctp \<Rightarrow> 'a binding_scheme handler" where
  "base_handleGetVersionSupport L destEid bindingPrivate request b =
     (if length request \<le> 3 then (ReadPastEnd, b)
      else (let response0 = replicate (sizeof_ver_support L) 0;
                (cc, versions) =
                  (case versionNumbers b (request ! 3) of
                     None \<Rightarrow> (CC_VER_UNSUPPORTED_TYPE L, [])
                   | Some v \<Rightarrow> (CC_SUCCESS L, [v]))
            in (Reply (response0[completionCodeIndex := cc, 4 := of_nat (length versions)]
                         @ concat versions) bindingPrivate, b)))"

definition getBindingMsgTypes :: "libmctp \<Rightarrow> byte list" where
  "getBindingMsgTypes L = [TYPE_MCTP_CTRL L]"

definition base_handleGetMsgTypeSupport :: "libmctp \<Rightarrow> 'a binding_scheme handler" where
  "base_handleGetMsgTypeSupport L destEid bindingPrivate request b =
     (let response0 = replicate (sizeof_msg_type_support L) 0;
          supportedMsgTypes = getBindingMsgTypes L
      in (Reply (response0[completionCodeIndex := CC_SUCCESS L, 4 := of_nat (length supportedMsgTypes)]
                   @ supportedMsgTypes) bindingPrivate, b))"

definition base_binding :: "libmctp \<Rightarrow> 'a binding_scheme virtual" where
  "base_binding L = \<lparr>
     isReceivedPrivateDataCorrect = (\<lambda>bindingPrivate b. True),
     getBindingPrivateData = (\<lambda>dstEid b. (Some [], b)),
     addUnknownEIDToDeviceTable = (\<lambda>e bindingPrivate b. b),
     reserveBandwidth = (\<lambda>e timeout b. (True, b)),
     releaseBandwidth = (\<lambda>e b. (True, b)),
     handlePrepareForEndpointDiscovery = message_not_supported,
     handleEndpointDiscovery = message_not_supported,
     handleGetEndpointId = base_handleGetEndpointId L,
     handleSetEndpointId = base_handleSetEndpointId L,
     handleGetVersionSupport = base_handleGetVersionSupport L,
     handleGetMsgTypeSupport = base_handleGetMsgTypeSupport L,
     handleGetVdmSupport = message_not_supported\<rparr>"

section \<open>Dispatch of control requests\<close>

text \<open>The answer starts with the header of the request, its request bit cleared.\<close>

definition answer_header :: "libmctp \<Rightarrow> byte list \<Rightarrow> byte list \<Rightarrow> byte list" where
  "answer_header L request resp =
     [request ! 0, request ! 1 AND NOT (FLAG_REQUEST L), request ! 2] @ drop 3 resp"

definition dispatch :: "libmctp \<Rightarrow> 'a binding_scheme virtual \<Rightarrow> 'a binding_scheme handler" where
  "dispatch L V destEid bindingPrivate request b =
     (let command_code = request ! 2 in
      if command_code = CMD_PREPARE_ENDPOINT_DISCOVERY L
        then handlePrepareForEndpointDiscovery V destEid bindingPrivate request b
      else if command_code = CMD_ENDPOINT_DISCOVERY L
        then handleEndpointDiscovery V destEid bindingPrivate request b
      else if command_code = CMD_GET_ENDPOINT_ID L
        then handleGetEndpointId V destEid bindingPrivate request b
      else if command_code = CMD_SET_ENDPOINT_ID L
        then handleSetEndpointId V destEid bindingPrivate request b
      else if command_code = CMD_GET_VERSION_SUPPORT L
        then handleGetVersionSupport V destEid bindingPrivate request b
      else if command_code = CMD_GET_MESSAGE_TYPE_SUPPORT L
        then handleGetMsgTypeSupport V destEid bindingPrivate request b
      else if command_code = CMD_GET_VENDOR_MESSAGE_SUPPORT L
        then handleGetVdmSupport V destEid bindingPrivate request b
      else (Silent, b))"

text \<open>
  A message is \<open>None\<close> for the null pointer. An empty vector has a null \<open>data()\<close>; a request
  of one or two bytes is read past its end.
\<close>

definition handleCtrlReq ::
    "libmctp \<Rightarrow> 'a binding_scheme virtual \<Rightarrow> eid \<Rightarrow> byte list \<Rightarrow> byte list option \<Rightarrow> byte
     \<Rightarrow> 'a binding_scheme \<Rightarrow> handler_result \<times> 'a binding_scheme" where
  "handleCtrlReq L V destEid bindingPrivate req msgTag b =
     (case req of
        None \<Rightarrow> (Silent, b)
      | Some request \<Rightarrow>
          (if \<not> isReceivedPrivateDataCorrect V bindingPrivate b then (Silent, b)
           else if request = [] then (Silent, b)
           else if length request < 3 then (ReadPastEnd, b)
           else (case dispatch L V destEid bindingPrivate request b of
                   (Reply resp priv, b') \<Rightarrow>
                     (let resp' = answer_header L request resp;
                          call = \<lparr>tx_dest = destEid, tx_payload = resp', tx_owner = False,
                                  tx_tag = msgTag, tx_private = priv\<rparr>
                      in (Reply resp' priv, b'\<lparr>replies := replies b' @ [call]\<rparr>))
                 | (r, b') \<Rightarrow> (r, b'))))"

definition handleMCTPControlRequests ::
    "libmctp \<Rightarrow> 'a binding_scheme virtual \<Rightarrow> eid \<Rightarrow> byte list option \<Rightarrow> bool \<Rightarrow> byte \<Rightarrow> byte list
     \<Rightarrow> 'a binding_scheme \<Rightarrow> handler_result \<times> 'a binding_scheme" where
  "handleMCTPControlRequests L V srcEid msg tagOwner msgTag bindingPrivate b =
     (if msg = None then (Silent, b)
      else if \<not> tagOwner then (Silent, b)
      else (let b1 = (if bindingModeType b = Endpoint
                      then addUnknownEIDToDeviceTable V srcEid bindingPrivate b else b)
            in handleCtrlReq L V srcEid bindingPrivate msg msgTag b1))"

section \<open>Incoming messages\<close>

datatype rx_consumer = NoConsumer | ControlExchange | TransmissionQueue | Signal

definition rxMessage ::
    "libmctp \<Rightarrow> 'a binding_scheme virtual \<Rightarrow> eid \<Rightarrow> byte list option \<Rightarrow> bool \<Rightarrow> byte \<Rightarrow> byte list
     \<Rightarrow> 'a binding_scheme \<Rightarrow> rx_consumer \<times> 'a binding_scheme" where
  "rxMessage L V srcEid msg tagOwner msgTag bindingPrivate b =
     (case msg of
        None \<Rightarrow> (NoConsumer, b)
      | Some body \<Rightarrow>
          (let b1 = (if bindingModeType b = Endpoint
                     then addUnknownEIDToDeviceTable V srcEid bindingPrivate b else b);
               (done1, c) = (if \<not> tagOwner \<and> lib_is_ctrl_msg L body \<and> \<not> lib_is_req L body
                             then handleCtrlResp (INSTANCE_ID_MASK L) body (ctrlQueue b1)
                             else (False, ctrlQueue b1));
               b2 = b1\<lparr>ctrlQueue := c\<rparr>
           in if done1 then (ControlExchange, b2)
              else (let (done2, q) = (if \<not> tagOwner then receive srcEid msgTag body (transmissionQueue b2)
                                      else (False, transmissionQueue b2));
                        b3 = b2\<lparr>transmissionQueue := q\<rparr>
                    in if done2 then (TransmissionQueue, b3)
                       else (Signal, b3\<lparr>signals := signals b3 @
                               [\<lparr>sig_msgType = body ! 0, sig_srcEid = srcEid, sig_msgTag = msgTag,
                                 sig_tagOwner = tagOwner, sig_payload = body\<rparr>]\<rparr>))))"

section \<open>Responders of upper layers\<close>

definition manageVersionInfo ::
    "byte \<Rightarrow> byte list \<Rightarrow> 'a binding_scheme \<Rightarrow> bool \<times> 'a binding_scheme" where
  "manageVersionInfo typeNo versionInfo b =
     (if length versionInfo \<noteq> 4 then (False, b)
      else if versionNumbers b typeNo = None
        then (True, b\<lparr>versionNumbers := (versionNumbers b)(typeNo \<mapsto> take 4 versionInfo)\<rparr>)
      else (False, b))"

definition registerUpperLayerResponder ::
    "libmctp \<Rightarrow> byte \<Rightarrow> byte list \<Rightarrow> 'a binding_scheme \<Rightarrow> bool \<times> 'a binding_scheme" where
  "registerUpperLayerResponder L typeNo versionData b =
     (if typeNo \<in> {TYPE_PLDM L, TYPE_NCSI L, TYPE_ETHERNET L, TYPE_NVME L, TYPE_SPDM L}
      then manageVersionInfo typeNo versionData b else (False, b))"

fun update_vdm :: "u16 \<Rightarrow> u16 \<Rightarrow> InternalVdmSetDatabase list \<Rightarrow> InternalVdmSetDatabase list option" where
  "update_vdm vendorIdx cmdSetType [] = None"
| "update_vdm vendorIdx cmdSetType (vm # vms) =
     (if vendorId vm = vendorIdx then
        Some ((if commandSetType vm \<noteq> cmdSetType
               then vm\<lparr>vendorId := vendorIdx, commandSetType := cmdSetType, vendorIdFormat := 0\<rparr>
               else vm) # vms)
      else map_option (\<lambda>r. vm # r) (update_vdm vendorIdx cmdSetType vms))"

definition manageVdpciVersionInfo ::
    "u16 \<Rightarrow> u16 \<Rightarrow> 'a binding_scheme \<Rightarrow> bool \<times> 'a binding_scheme" where
  "manageVdpciVersionInfo vendorIdx cmdSetType b =
     (case update_vdm vendorIdx cmdSetType (vdmSetDatabase b) of
        None \<Rightarrow> (True, b\<lparr>vdmSetDatabase := vdmSetDatabase b @
                   [\<lparr>vendorIdFormat = 0, vendorId = vendorIdx, commandSetType = cmdSetType\<rparr>]\<rparr>)
      | Some db \<Rightarrow> (True, b\<lparr>vdmSetDatabase := db\<rparr>))"

section \<open>D-Bus methods\<close>

datatype MctpStatus =
    mctpErrorOperationNotAllowed
  | mctpErrorReleaseBWFailed
  | mctpErrorRsvBWIsNotActive
  | mctpErrorRsvBWFailed
  | mctpInternalError
  | mctpSuccess

definition SendMctpMessagePayload ::
    "tx_oracle \<Rightarrow> 'a binding_scheme virtual \<Rightarrow> eid \<Rightarrow> byte \<Rightarrow> bool \<Rightarrow> byte list
     \<Rightarrow> 'a binding_scheme \<Rightarrow> MctpStatus \<times> 'a binding_scheme" where
  "SendMctpMessagePayload tx V dstEid msgTag tagOwner msg b =
     (if rsvBWActive b \<and> dstEid \<noteq> reservedEID b then (mctpErrorRsvBWIsNotActive, b)
      else (case getBindingPrivateData V dstEid b of
              (None, b') \<Rightarrow> (mctpInternalError, b')
            | (Some pvtData, b') \<Rightarrow>
                (let call = \<lparr>tx_dest = dstEid, tx_payload = msg, tx_owner = tagOwner,
                             tx_tag = msgTag, tx_private = pvtData\<rparr>;
                     rc = tx (replies b') call;
                     b'' = b'\<lparr>replies := replies b' @ [call]\<rparr>
                 in (if rc < 0 then mctpInternalError else mctpSuccess, b''))))"

definition ReserveBandwidth ::
    "'a binding_scheme virtual \<Rightarrow> eid \<Rightarrow> u16 \<Rightarrow> 'a binding_scheme \<Rightarrow> MctpStatus \<times> 'a binding_scheme" where
  "ReserveBandwidth V e timeout b =
     (let (ok, b') = reserveBandwidth V e timeout b
      in (if \<not> ok then mctpErrorRsvBWFailed else mctpSuccess, b'))"

definition ReleaseBandwidth ::
    "'a binding_scheme virtual \<Rightarrow> eid \<Rightarrow> 'a binding_scheme \<Rightarrow> MctpStatus \<times> 'a binding_scheme" where
  "ReleaseBandwidth V e b =
     (let (ok, b') = releaseBandwidth V e b
      in (if \<not> ok then mctpErrorReleaseBWFailed else mctpSuccess, b'))"

text \<open>
  \<open>SendReceiveMctpMessagePayload\<close> up to the wait for the message's timer; the rest of it is
  \<open>sendReceive\_finish\<close>. The first transmission attempt is part of \<open>transmit\<close>.
\<close>

definition SendReceiveMctpMessagePayload ::
    "tx_oracle \<Rightarrow> 'a binding_scheme virtual \<Rightarrow> eid \<Rightarrow> byte list
     \<Rightarrow> 'a binding_scheme \<Rightarrow> (errc + mref) \<times> 'a binding_scheme" where
  "SendReceiveMctpMessagePayload tx V dstEid msg b =
     (if rsvBWActive b \<and> dstEid \<noteq> reservedEID b then (Inl invalid_argument, b)
      else (case getBindingPrivateData V dstEid b of
              (None, b') \<Rightarrow> (Inl invalid_argument, b')
            | (Some pvtData, b') \<Rightarrow>
                (let (r, q) = transmit tx dstEid msg pvtData (transmissionQueue b')
                 in (Inr r, b'\<lparr>transmissionQueue := q\<rparr>))))"

section \<open>Construction\<close>

record Configuration =
  defaultEid :: eid
  conf_mode :: binding_mode
  reqToRespTime :: u32
  reqRetryCount :: byte

definition MctpBinding_ctor :: "libmctp \<Rightarrow> Configuration \<Rightarrow> binding" where
  "MctpBinding_ctor L conf = \<lparr>instanceId = 0, bindingModeType = conf_mode conf,
     ownEid = defaultEid conf, busOwnerEid = 0, rsvBWActive = False, reservedEID = 0,
     ctrlQueue = new_ctrl (reqToRespTime conf) (reqRetryCount conf),
     transmissionQueue = new_tqueue, deviceWatcher = new_device_watcher, eidPool = [],
     versionNumbers = [TYPE_MCTP_CTRL L \<mapsto> [0xF1, 0xF3, 0xF1, 0], TYPE_BASE_INFO L \<mapsto> [0xF1, 0xF3, 0xF1, 0]],
     vdmSetDatabase = [], endpointInterface = Map.empty, msgTypeInterface = Map.empty,
     uuidInterface = Map.empty, vendorIdInterface = Map.empty, uuidTable = [],
     incompatibleEIDs = [], signals = [], replies = []\<rparr>"

definition test_conf :: Configuration where
  "test_conf = \<lparr>defaultEid = 8, conf_mode = BusOwner, reqToRespTime = 100, reqRetryCount = 2\<rparr>"

section \<open>Properties\<close>

lemma handleCtrlReq_Reply:
  assumes "handleCtrlReq L V e priv req t b = (Reply resp priv', b')"
  obtains request r b1 where "req = Some request" "3 \<le> length request"
    "dispatch L V e priv request b = (Reply r priv', b1)" "resp = answer_header L request r"
    "b' = b1\<lparr>replies := replies b1 @ [\<lparr>tx_dest = e, tx_payload = resp, tx_owner = False, tx_tag = t,
       tx_private = priv'\<rparr>]\<rparr>"
proof (cases req)
  case None
  then show ?thesis using assms by (simp add: handleCtrlReq_def)
next
  case (Some request)
  then show ?thesis
    using assms that by (cases "dispatch L V e priv request b"; cases "fst (dispatch L V e priv request b)")
      (auto simp: handleCtrlReq_def Let_def split: if_splits)
qed

text \<open>
  An answer to a control request goes back to the requester with the request's message
  tag and the tag owner bit cleared, it repeats the message type, instance id and command of
  the request, and \<open>handleCtrlResp\<close> of the requester takes it for the answer to exactly
  that request. This holds for the handlers of every binding.
\<close>

lemma answer_matches_its_request:
  assumes "handleCtrlReq L V e priv (Some request) t b = (Reply resp priv', b')"
    and "FLAG_REQUEST L AND INSTANCE_ID_MASK L = 0"
  shows "last (replies b') = \<lparr>tx_dest = e, tx_payload = resp, tx_owner = False, tx_tag = t, tx_private = priv'\<rparr> \<and>
     resp ! 0 = request ! 0 \<and> resp ! 2 = request ! 2 \<and> resp ! 1 AND FLAG_REQUEST L = 0 \<and>
     (\<forall>x. ct_req x = request \<longrightarrow> matches_request (INSTANCE_ID_MASK L) resp x)"
proof -
  obtain r b1 where r: "resp = answer_header L request r" "3 \<le> length request"
      "b' = b1\<lparr>replies := replies b1 @ [\<lparr>tx_dest = e, tx_payload = resp, tx_owner = False,
         tx_tag = t, tx_private = priv'\<rparr>]\<rparr>"
    using handleCtrlReq_Reply [OF assms(1)] by blast
  have f: "(x AND NOT (FLAG_REQUEST L)) AND INSTANCE_ID_MASK L = x AND INSTANCE_ID_MASK L" for x
  proof (rule bit_eqI)
    fix n
    have "bit (FLAG_REQUEST L AND INSTANCE_ID_MASK L) n \<longleftrightarrow> False" using assms(2) by simp
    then show "bit ((x AND NOT (FLAG_REQUEST L)) AND INSTANCE_ID_MASK L) n \<longleftrightarrow> bit (x AND INSTANCE_ID_MASK L) n"
      by (auto simp: bit_and_iff bit_not_iff dest: bit_imp_le_length)
  qed
  have g: "(x AND NOT (FLAG_REQUEST L)) AND FLAG_REQUEST L = 0" for x
    by (simp add: and.assoc)
  have "request \<noteq> []" using r(2) by auto
  then show ?thesis by (simp add: r(1,3) answer_header_def matches_request_def getInstanceId_def f g)
qed

theorem answer_matches_its_request_witness:
  "fst (handleCtrlReq dsp0236 (base_binding dsp0236) 9 [] (Some [0, 0x85, 4, 0]) 3
      (MctpBinding_ctor dsp0236 test_conf)) = Reply [0, 5, 4, 0, 1, 0xF1, 0xF3, 0xF1, 0] [] \<and>
   matches_request 0x1f [0, 5, 4, 0, 1, 0xF1, 0xF3, 0xF1, 0]
     \<lparr>ct_state = transmitted, ct_retryCount = 0, ct_maxRespDelay = 5, ct_destEid = 9, ct_private = [],
      ct_req = [0, 0x85, 4, 0], ct_callback = 0\<rparr>"
proof -
  let ?h = "handleCtrlReq dsp0236 (base_binding dsp0236) 9 [] (Some [0, 0x85, 4, 0]) 3
      (MctpBinding_ctor dsp0236 test_conf)"
  have "fst ?h = Reply [0, 5, 4, 0, 1, 0xF1, 0xF3, 0xF1, 0] []" by code_simp
  then have f: "fst ?h = Reply [0, 5, 4, 0, 1, 0xF1, 0xF3, 0xF1, 0] []" .
  then have 1: "?h = (Reply [0, 5, 4, 0, 1, 0xF1, 0xF3, 0xF1, 0] [], snd ?h)"
    by (metis prod.collapse)
  have "FLAG_REQUEST dsp0236 AND INSTANCE_ID_MASK dsp0236 = 0" by simp
  from answer_matches_its_request [OF 1 this] f show ?thesis by simp
qed

text \<open>
  C35: Version negotiation works end to end: when a requester's Get MCTP Version Support is
  answered by a responder of this program, the requester gets exactly the version registered
  for the message type, and gets nothing for a type that is not registered.
\<close>

theorem version_support_end_to_end:
  assumes L: "\<And>rq. length (encode_cmd L (Get_Version_Support t) rq) = 4 \<and>
                 encode_cmd L (Get_Version_Support t) rq ! 3 = t"
    and size: "sizeof_ver_support L = 5" "CC_VER_UNSUPPORTED_TYPE L \<noteq> CC_SUCCESS L"
    and answer: "exchange_cmd L X priv e (Get_Version_Support t) s = (Some resp, s')"
      "base_handleGetVersionSupport L own priv' (encode_cmd L (Get_Version_Support t) rq) b = (Reply r priv', b)"
      "resp = answer_header L (encode_cmd L (Get_Version_Support t) rq) r"
    and four: "\<And>v. versionNumbers b t = Some v \<Longrightarrow> length v = 4"
  shows "fst (getMctpVersionSupportCtrlCmd L X priv e t s) =
     map_option (\<lambda>v. [\<lparr>major = v ! 0, minor = v ! 1, update = v ! 2, alpha = v ! 3\<rparr>]) (versionNumbers b t)"
proof (cases "versionNumbers b t")
  case None
  then have "r = [0, 0, 0, CC_VER_UNSUPPORTED_TYPE L, 0]"
    using answer(2) L [of rq] size(1)
    by (auto simp: base_handleGetVersionSupport_def completionCodeIndex_def eval_nat_numeral)
  then show ?thesis
    using None answer(1,3) size(2)
    by (simp add: getMctpVersionSupportCtrlCmd_def answer_header_def completionCodeIndex_def)
next
  case (Some v)
  let ?req = "encode_cmd L (Get_Version_Support t) rq"
  obtain a b' c d where v: "v = [a, b', c, d]"
    using four [OF Some] by (auto simp: length_Suc_conv eval_nat_numeral)
  let ?v = "\<lparr>major = a, minor = b', update = c, alpha = d\<rparr>"
  have "r = [0, 0, 0, CC_SUCCESS L, 1] @ v"
    using Some answer(2) L [of rq] size(1)
    by (auto simp: base_handleGetVersionSupport_def completionCodeIndex_def eval_nat_numeral)
  then have "resp = [?req ! 0, ?req ! 1 AND NOT (FLAG_REQUEST L), ?req ! 2] @
      [CC_SUCCESS L, of_nat (length [?v])] @ concat (map put_version [?v])"
    by (simp add: answer(3) answer_header_def put_version_def v)
  then have "getMctpVersionSupportCtrlCmd L X priv e t s = (Some [?v], s')"
    using answer(1) by (intro version_list_read) auto
  then show ?thesis by (simp add: Some v)
qed

theorem version_support_end_to_end_witness:
  "fst (getMctpVersionSupportCtrlCmd dsp0236
      (\<lambda>_ _ _ s. ((receivedResponse, [0, 5, 4, 0, 1, 0xF1, 0xF3, 0xF1, 0]), s)) [] 8 0 \<lparr>instanceId = 4\<rparr>)
     = Some [supportedMCTPVersion]"
proof -
  let ?b = "MctpBinding_ctor dsp0236 test_conf"
  let ?X = "\<lambda>_ _ _ s. ((receivedResponse, [0, 5, 4, 0, 1, 0xF1, 0xF3, 0xF1, 0]), s)"
  have 1: "exchange_cmd dsp0236 ?X [] 8 (Get_Version_Support 0) \<lparr>instanceId = 4\<rparr> =
      (Some [0, 5, 4, 0, 1, 0xF1, 0xF3, 0xF1, 0], \<lparr>instanceId = 5\<rparr>)"
    by (simp add: exchange_cmd_def getFormattedReq_def getRqDgramInst_def createInstanceId_def Let_def)
  have v: "versionNumbers ?b 0 = Some [0xF1, 0xF3, 0xF1, 0]" by code_simp
  have 2: "base_handleGetVersionSupport dsp0236 9 [] (encode_cmd dsp0236 (Get_Version_Support 0) 0x85) ?b =
      (Reply [0, 0, 0, 0, 1, 0xF1, 0xF3, 0xF1, 0] [], ?b)"
    by (simp add: base_handleGetVersionSupport_def v completionCodeIndex_def literal_lists)
  show ?thesis
    using version_support_end_to_end [OF _ _ _ 1 2]
    by (simp add: v answer_header_def supportedMCTPVersion_def)
qed

text \<open>
  Every message from the bus has exactly one consumer. A message becomes a D-Bus signal
  exactly when it neither answers a control exchange nor a waiting call, and then it is the
  whole message and neither queue changes; a message that ends an exchange or a call causes
  no signal. Messages with the tag owner bit set are always signalled.
\<close>

lemma message_has_one_consumer:
  fixes V e priv b
  defines "b1 \<equiv> (if bindingModeType b = Endpoint then addUnknownEIDToDeviceTable V e priv b else b)"
  assumes rx: "rxMessage L V e (Some m) owner t priv b = (w, b')"
  shows "(w = Signal \<longleftrightarrow> owner \<or>
            \<not> (lib_is_ctrl_msg L m \<and> \<not> lib_is_req L m \<and>
                (\<exists>x \<in> set (ctrlTxQueue (ctrlQueue b1)). matches_request (INSTANCE_ID_MASK L) m x)) \<and>
            \<not> (\<exists>ep r. map_of (endpoints (transmissionQueue b1)) e = Some ep \<and>
                map_of (transmittedMessages ep) t = Some r)) \<and>
     (w = Signal \<longrightarrow> ctrlQueue b' = ctrlQueue b1 \<and> transmissionQueue b' = transmissionQueue b1 \<and>
        signals b' = signals b1 @ [\<lparr>sig_msgType = m ! 0, sig_srcEid = e, sig_msgTag = t,
                                   sig_tagOwner = owner, sig_payload = m\<rparr>]) \<and>
     (w = ControlExchange \<longrightarrow> signals b' = signals b1 \<and> transmissionQueue b' = transmissionQueue b1) \<and>
     (w = TransmissionQueue \<longrightarrow> signals b' = signals b1 \<and> ctrlQueue b' = ctrlQueue b1) \<and>
     w \<noteq> NoConsumer"
proof -
  have c: "fst (handleCtrlResp (INSTANCE_ID_MASK L) m c) \<longleftrightarrow>
      (\<exists>x \<in> set (ctrlTxQueue c). matches_request (INSTANCE_ID_MASK L) m x)"
    "\<not> fst (handleCtrlResp (INSTANCE_ID_MASK L) m c) \<Longrightarrow> snd (handleCtrlResp (INSTANCE_ID_MASK L) m c) = c"
    for c
  proof -
    have "find_and_answer k m q fs = None \<longleftrightarrow> \<not> (\<exists>x \<in> set q. matches_request k m x)" for k q fs
      by (induction q) auto
    from this [of "INSTANCE_ID_MASK L" "ctrlTxQueue c" "frames c"]
    show "fst (handleCtrlResp (INSTANCE_ID_MASK L) m c) \<longleftrightarrow>
      (\<exists>x \<in> set (ctrlTxQueue c). matches_request (INSTANCE_ID_MASK L) m x)"
      by (cases "find_and_answer (INSTANCE_ID_MASK L) m (ctrlTxQueue c) (frames c)")
        (auto simp: handleCtrlResp_def)
    show "\<not> fst (handleCtrlResp (INSTANCE_ID_MASK L) m c) \<Longrightarrow> snd (handleCtrlResp (INSTANCE_ID_MASK L) m c) = c"
      by (auto simp: handleCtrlResp_def split: option.splits)
  qed
  have q: "fst (receive e t m q) \<longleftrightarrow> (\<exists>ep r. map_of (endpoints q) e = Some ep \<and>
      map_of (transmittedMessages ep) t = Some r)" "\<not> fst (receive e t m q) \<Longrightarrow> snd (receive e t m q) = q" for q
    by (auto simp: receive_def Let_def split: option.splits)
  obtain d1 c1 where 1: "handleCtrlResp (INSTANCE_ID_MASK L) m (ctrlQueue b1) = (d1, c1)" by force
  obtain d2 q2 where 2: "receive e t m (transmissionQueue b1) = (d2, q2)" by force
  note facts = c [of "ctrlQueue b1", unfolded 1 fst_conv snd_conv] q [of "transmissionQueue b1", unfolded 2 fst_conv snd_conv]
  show ?thesis
    using rx facts unfolding rxMessage_def option.case b1_def [symmetric]
    by (cases owner; cases "lib_is_ctrl_msg L m \<and> \<not> lib_is_req L m"; cases d1; cases d2)
      (auto simp: Let_def 1 2)
qed

theorem message_has_one_consumer_witness:
  "fst (rxMessage dsp0236 (base_binding dsp0236) 9 (Some [1, 0x80, 2]) False 3 []
     (MctpBinding_ctor dsp0236 test_conf)) = Signal"
proof -
  let ?b = "MctpBinding_ctor dsp0236 test_conf"
  obtain w b' where rx: "rxMessage dsp0236 (base_binding dsp0236) 9 (Some [1, 0x80, 2]) False 3 [] ?b = (w, b')"
    by force
  have "bindingModeType ?b = BusOwner" "ctrlTxQueue (ctrlQueue ?b) = []" "endpoints (transmissionQueue ?b) = []"
    by (simp_all add: MctpBinding_ctor_def test_conf_def new_ctrl_def new_tqueue_def)
  then show ?thesis using message_has_one_consumer [OF rx] by (simp add: rx)
qed

text \<open>
  The registration of responders is first come, first served: once a version is
  registered for a message type, no later registration for any type changes what Get MCTP
  Version Support answers for it; only the five message types of upper layers with a
  version of four bytes are registered at all.
\<close>

lemma first_registration_wins:
  fixes L and regs :: "(byte \<times> byte list) list"
  defines "after \<equiv> \<lambda>b. run (\<lambda>b (t, v). snd (registerUpperLayerResponder L t v b)) b regs"
  shows "(\<forall>t v. versionNumbers b t = Some v \<longrightarrow> versionNumbers (after b) t = Some v) \<and>
     (\<forall>t v. versionNumbers b t = None \<and> versionNumbers (after b) t = Some v \<longrightarrow>
        t \<in> {TYPE_PLDM L, TYPE_NCSI L, TYPE_ETHERNET L, TYPE_NVME L, TYPE_SPDM L} \<and>
        length v = 4 \<and> (t, v) \<in> set regs)"
proof -
  obtain T where T: "T = {TYPE_PLDM L, TYPE_NCSI L, TYPE_ETHERNET L, TYPE_NVME L, TYPE_SPDM L}" by simp
  have step: "versionNumbers (snd (registerUpperLayerResponder L t v b)) =
      (if t \<in> T \<and> length v = 4 \<and> versionNumbers b t = None
       then (versionNumbers b)(t \<mapsto> v) else versionNumbers b)"
    for t v and b :: "'a binding_scheme"
    unfolding T by (simp add: registerUpperLayerResponder_def manageVersionInfo_def)
  show ?thesis unfolding after_def T [symmetric]
  proof (induction regs arbitrary: b)
    case (Cons p regs)
    obtain t v where p: "p = (t, v)" by force
    let ?b = "snd (registerUpperLayerResponder L t v b)"
    show ?case
    proof (cases "t \<in> T \<and> length v = 4 \<and> versionNumbers b t = None")
      case True
      then have M: "versionNumbers ?b = (versionNumbers b)(t \<mapsto> v)" by (simp add: step)
      let ?W = "versionNumbers (run (\<lambda>b (t, v). snd (registerUpperLayerResponder L t v b)) b (p # regs))"
      have IH: "versionNumbers ?b x = Some w \<Longrightarrow> ?W x = Some w"
        "versionNumbers ?b x = None \<Longrightarrow> ?W x = Some w \<Longrightarrow> x \<in> T \<and> length w = 4 \<and> (x, w) \<in> set regs" for x w
        using Cons.IH [of ?b] by (simp_all add: p)
      show ?thesis
      proof (intro conjI allI impI)
        fix x w assume "versionNumbers b x = Some w"
        then show "?W x = Some w" using True by (intro IH(1)) (auto simp: M)
      next
        fix x w assume x: "versionNumbers b x = None \<and> ?W x = Some w"
        have "x \<in> T \<and> length w = 4 \<and> (x, w) \<in> set (p # regs)"
        proof (cases "x = t")
          case eq: True
          have "?W t = Some v" by (rule IH(1)) (simp add: M)
          then have "w = v" using x eq by simp
          then show ?thesis using True eq p by simp
        next
          case False
          then show ?thesis using x IH(2) [of x w] by (simp add: M)
        qed
        then show "x \<in> T" "length w = 4" "(x, w) \<in> set (p # regs)" by blast+
      qed
    next
      case False
      then have "versionNumbers ?b = versionNumbers b" unfolding step by (rule if_not_P)
      then show ?thesis using Cons.IH [of ?b] by (simp add: p)
    qed
  qed auto
qed

theorem first_registration_wins_witness:
  "versionNumbers (run (\<lambda>b (t, v). snd (registerUpperLayerResponder dsp0236 t v b))
      (MctpBinding_ctor dsp0236 test_conf) [(1, [1, 0, 0, 0]), (1, [9, 9, 9, 9])]) 0 = Some [0xF1, 0xF3, 0xF1, 0]"
proof -
  have "versionNumbers (MctpBinding_ctor dsp0236 test_conf) 0 = Some [0xF1, 0xF3, 0xF1, 0]"
    by (simp add: MctpBinding_ctor_def dsp0236_def)
  with first_registration_wins [of "MctpBinding_ctor dsp0236 test_conf" dsp0236
      "[(1, [1, 0, 0, 0]), (1, [9, 9, 9, 9])]"] show ?thesis by blast
qed

text \<open>
  A Get MCTP Version Support request that ends after its three header bytes is accepted
  by the dispatch and makes the handler read the message type number past the end of the
  request, in every state of the binding.
\<close>

lemma short_version_request_reads_past_end:
  "fst (handleCtrlReq dsp0236 (base_binding dsp0236) e [] (Some [0, 0x80, 4]) t b) = ReadPastEnd"
  by (simp add: handleCtrlReq_def dispatch_def base_binding_def base_handleGetVersionSupport_def
      dsp0236_def)

end
