(* ===== verification/Endpoint_Registry.thy ===== *)
theory Endpoint_Registry
  imports Mctp_Responder
begin

text \<open>
  Registration of endpoints by \<open>MctpBinding\<close> (mctpd/src/MCTPBinding.cpp): the D-Bus objects
  of an endpoint, the table of UUIDs, and \<open>registerEndpoint\<close> with the sequence of control
  commands it runs as a bus owner. Between two commands other handlers run: the exchange
  parameter also yields the state they leave behind. The long function
  \<open>busOwnerRegisterEndpoint\<close> is written as three consecutive parts.
\<close>

unbundle bit_operations_syntax

section \<open>Model\<close>

datatype MctpPhysicalMediumIdentifiers =
    Smbus | SmbusI2c | I2cCompatible | Smbus3OrI2c400khzCompatible | Smbus3OrI2c1MhzCompatible
  | I2c3Mhz4Compatible | Pcie11 | Pcie2 | Pcie21 | Pcie3 | Pcie4 | Pcie5 | PciCompatible
  | Usb11Compatible | Usb20Compatible | Usb30Compatible | NcSiOverRbt | KcsLegacy | KcsPci
  | SerialHostLegacy | SerialHostPci | AsynchronousSerial | I3cSDR | I3cHDRDDR

definition valueToMediumId :: "(byte \<times> MctpPhysicalMediumIdentifiers) list" where
  "valueToMediumId =
     [(0x01, Smbus), (0x02, SmbusI2c), (0x03, I2cCompatible), (0x04, Smbus3OrI2c400khzCompatible),
      (0x05, Smbus3OrI2c1MhzCompatible), (0x06, I2c3Mhz4Compatible), (0x08, Pcie11), (0x09, Pcie2),
      (0x0A, Pcie21), (0x0B, Pcie3), (0x0C, Pcie4), (0x0D, Pcie5), (0x0F, PciCompatible),
      (0x10, Usb11Compatible), (0x11, Usb20Compatible), (0x12, Usb30Compatible), (0x18, NcSiOverRbt),
      (0x20, KcsLegacy), (0x21, KcsPci), (0x22, SerialHostLegacy), (0x23, SerialHostPci),
      (0x24, AsynchronousSerial), (0x30, I3cSDR), (0x31, I3cHDRDDR)]"

definition setMediumId ::
    "byte \<Rightarrow> MctpPhysicalMediumIdentifiers \<Rightarrow> bool \<times> MctpPhysicalMediumIdentifiers" where
  "setMediumId v mediumId =
     (case map_of valueToMediumId v of Some m \<Rightarrow> (True, m) | None \<Rightarrow> (False, mediumId))"

record EndpointProperties =
  endpointEid :: eid
  ep_uuid :: string
  ep_mode :: binding_mode
  networkId :: u16
  endpointMsgTypes :: MsgTypes
  vendorIdCapabilitySets :: "u16 list"
  ep_vendorIdFormat :: string

text \<open>
  What a registration ends with. \<open>Terminate\<close> is the call of \<open>std::terminate\<close> by a
  \<open>throw;\<close> without an exception to rethrow.
\<close>

datatype registration = Registered eid | NotRegistered | Terminate

definition endpointTypeMask :: byte where
  "endpointTypeMask = 0x30"

definition getEndpointType :: "byte \<Rightarrow> binding_mode option" where
  "getEndpointType types =
     (let endpointType = drop_bit 4 (types AND endpointTypeMask)
      in if endpointType = 0x00 then Some Endpoint
         else if endpointType = 0x01 then Some Bridge
         else None)"

definition default_MsgTypes :: MsgTypes where
  "default_MsgTypes = \<lparr>mctpControl = True, pldm = False, ncsi = False, ethernet = False,
     nvmeMgmtMsg = False, spdm = False, vdpci = False, vdiana = False\<rparr>"

definition add_MsgType :: "libmctp \<Rightarrow> byte \<Rightarrow> MsgTypes \<Rightarrow> MsgTypes" where
  "add_MsgType L ty m =
     (if ty = TYPE_MCTP_CTRL L then m\<lparr>mctpControl := True\<rparr>
      else if ty = TYPE_PLDM L then m\<lparr>pldm := True\<rparr>
      else if ty = TYPE_NCSI L then m\<lparr>ncsi := True\<rparr>
      else if ty = TYPE_ETHERNET L then m\<lparr>ethernet := True\<rparr>
      else if ty = TYPE_NVME L then m\<lparr>nvmeMgmtMsg := True\<rparr>
      else if ty = TYPE_SPDM L then m\<lparr>spdm := True\<rparr>
      else if ty = TYPE_VDPCI L then m\<lparr>vdpci := True\<rparr>
      else if ty = TYPE_VDIANA L then m\<lparr>vdiana := True\<rparr>
      else m)"

definition getMsgTypes :: "libmctp \<Rightarrow> byte list \<Rightarrow> MsgTypes" where
  "getMsgTypes L msgType = fold (add_MsgType L) msgType default_MsgTypes"

definition emplace :: "'k \<Rightarrow> 'v \<Rightarrow> ('k \<rightharpoonup> 'v) \<Rightarrow> ('k \<rightharpoonup> 'v)" where
  "emplace k v m = (if m k = None then m(k \<mapsto> v) else m)"

definition populateEndpointProperties ::
    "EndpointProperties \<Rightarrow> 'a binding_scheme \<Rightarrow> bool \<times> 'a binding_scheme" where
  "populateEndpointProperties p b =
     (let e = endpointEid p in
      if endpointInterface b e \<noteq> None then (False, b)
      else (let b1 = b\<lparr>endpointInterface := emplace e (ep_mode p, networkId p) (endpointInterface b)\<rparr>;
                b2 = b1\<lparr>msgTypeInterface := emplace e (endpointMsgTypes p) (msgTypeInterface b1)\<rparr>;
                b3 = b2\<lparr>uuidInterface := emplace e (ep_uuid p) (uuidInterface b2)\<rparr>;
                b4 = (if vdpci (endpointMsgTypes p)
                      then b3\<lparr>vendorIdInterface := emplace e (vendorIdCapabilitySets p, ep_vendorIdFormat p)
                                                     (vendorIdInterface b3)\<rparr>
                      else b3)
            in (True, b4)))"

definition removeInterface :: "eid \<Rightarrow> (eid \<rightharpoonup> 'v) \<Rightarrow> bool \<times> (eid \<rightharpoonup> 'v)" where
  "removeInterface e interfaces =
     (if interfaces e \<noteq> None then (True, interfaces(e := None)) else (False, interfaces))"

definition unregisterEndpoint :: "eid \<Rightarrow> 'a binding_scheme \<Rightarrow> 'a binding_scheme" where
  "unregisterEndpoint e b =
     (let (epIntf, m1) = removeInterface e (endpointInterface b);
          (msgTypeIntf, m2) = removeInterface e (msgTypeInterface b);
          (uuidIntf, m3) = removeInterface e (uuidInterface b);
          (venIntf, m4) = removeInterface e (vendorIdInterface b)
      in b\<lparr>endpointInterface := m1, msgTypeInterface := m2, uuidInterface := m3,
           vendorIdInterface := m4\<rparr>)"

fun eid_of_uuid :: "string \<Rightarrow> (eid \<times> string) list \<Rightarrow> eid option" where
  "eid_of_uuid uuidStr [] = None"
| "eid_of_uuid uuidStr ((e, u) # table) = (if uuidStr = u then Some e else eid_of_uuid uuidStr table)"

definition getEIDFromUUID :: "string \<Rightarrow> 'a binding_scheme \<Rightarrow> eid option" where
  "getEIDFromUUID uuidStr b = eid_of_uuid uuidStr (uuidTable b)"

text \<open>The loop stops at the first entry of the EID.\<close>

fun erase_eid :: "eid \<Rightarrow> (eid \<times> string) list \<Rightarrow> (eid \<times> string) list option" where
  "erase_eid e [] = None"
| "erase_eid e ((e', u) # table) =
     (if e' = e then Some table else map_option (\<lambda>r. (e', u) # r) (erase_eid e table))"

definition clearRegisteredDevice :: "eid \<Rightarrow> 'a binding_scheme \<Rightarrow> 'a binding_scheme" where
  "clearRegisteredDevice e b =
     (case erase_eid e (uuidTable b) of
        None \<Rightarrow> b
      | Some table \<Rightarrow>
          (let b1 = unregisterEndpoint e (b\<lparr>uuidTable := table\<rparr>)
           in b1\<lparr>eidPool := updateEidStatus e False (eidPool b1)\<rparr>))"

definition checkEIDMismatchAndGetEID :: "libmctp \<Rightarrow> eid \<Rightarrow> eid \<Rightarrow> eid option" where
  "checkEIDMismatchAndGetEID L e destEID =
     (if e \<noteq> destEID \<and> e \<noteq> EID_NULL L \<and> destEID \<noteq> EID_NULL L then None
      else Some (if e = EID_NULL L then destEID else e))"

definition isEIDRegistered :: "eid \<Rightarrow> 'a binding_scheme \<Rightarrow> bool" where
  "isEIDRegistered e b \<longleftrightarrow> endpointInterface b e \<noteq> None"

text \<open>The EID is a reference: the function may replace it by the EID of the table.\<close>

definition isEIDMappedToUUID ::
    "eid \<Rightarrow> string \<Rightarrow> 'a binding_scheme \<Rightarrow> (bool \<times> eid) \<times> 'a binding_scheme" where
  "isEIDMappedToUUID e destUUID b =
     (case getEIDFromUUID destUUID b of
        None \<Rightarrow> ((False, e), b)
      | Some eidFromTable \<Rightarrow>
          (if e = eidFromTable then ((True, e), b)
           else ((False, eidFromTable), unregisterEndpoint eidFromTable b)))"

definition logUnsupportedMCTPVersion ::
    "MCTPVersionFields list \<Rightarrow> eid \<Rightarrow> 'a binding_scheme \<Rightarrow> 'a binding_scheme" where
  "logUnsupportedMCTPVersion versionsData e b =
     (if e \<in> set (incompatibleEIDs b) then b
      else if \<exists>v \<in> set versionsData. isMCTPVersionSupported v then b
      else b\<lparr>incompatibleEIDs := incompatibleEIDs b @ [e]\<rparr>)"

definition getVendorDefinedMessageTypes ::
    "libmctp \<Rightarrow> 'a binding_scheme exchange \<Rightarrow> byte list \<Rightarrow> eid \<Rightarrow> EndpointProperties
     \<Rightarrow> 'a binding_scheme \<Rightarrow> EndpointProperties \<times> 'a binding_scheme" where
  "getVendorDefinedMessageTypes L X bindingPrivate destEid p b =
     (if vdpci (endpointMsgTypes p) then
        (let ((ok, ids, fmt), b') = getPCIVDMessageSupportCtrlCmd L X bindingPrivate destEid b
         in if \<not> ok then (p\<lparr>ep_vendorIdFormat := ''0x0'', vendorIdCapabilitySets := []\<rparr>, b')
            else (p\<lparr>vendorIdCapabilitySets := ids, ep_vendorIdFormat := ''0x'' @ fmt\<rparr>, b'))
      else (p, b))"

definition busOwner_expose ::
    "libmctp \<Rightarrow> 'a binding_scheme exchange \<Rightarrow> byte list \<Rightarrow> eid \<Rightarrow> string \<Rightarrow> byte
     \<Rightarrow> 'a binding_scheme \<Rightarrow> registration \<times> 'a binding_scheme" where
  "busOwner_expose L X bindingPrivate e destUUID eid_type b0 =
     (case getMsgTypeSupportCtrlCmd L X bindingPrivate e b0 of
        (None, b1) \<Rightarrow> (NotRegistered, b1)
      | (Some msgType, b1) \<Rightarrow>
          (case getEndpointType eid_type of
             None \<Rightarrow> (Terminate, b1)
           | Some mode \<Rightarrow>
               (let p = \<lparr>endpointEid = e, ep_uuid = destUUID, ep_mode = mode, networkId = 0x00,
                         endpointMsgTypes = getMsgTypes L msgType, vendorIdCapabilitySets = [],
                         ep_vendorIdFormat = []\<rparr>;
                    (p', b2) = getVendorDefinedMessageTypes L X bindingPrivate e p b1;
                    (ok, b3) = populateEndpointProperties p' b2
                in if \<not> ok then (NotRegistered, b3)
                   else (Registered e,
                         if destUUID \<noteq> nullUUID \<and> e \<noteq> EID_NULL L
                         then b3\<lparr>uuidTable := uuidTable b3 @ [(e, destUUID)]\<rparr> else b3))))"

text \<open>The device keeps the EID it has; a device without one gets an EID of the pool.\<close>

definition choose_eid :: "libmctp \<Rightarrow> eid \<Rightarrow> eid_pool \<Rightarrow> (errc + eid) \<times> eid_pool" where
  "choose_eid L e pool = (if e = EID_NULL L then getAvailableEidFromPool pool else (Inr e, pool))"

definition busOwner_assign ::
    "libmctp \<Rightarrow> 'a binding_scheme exchange \<Rightarrow> byte list \<Rightarrow> eid \<Rightarrow> string \<Rightarrow> byte
     \<Rightarrow> 'a binding_scheme \<Rightarrow> registration \<times> 'a binding_scheme" where
  "busOwner_assign L X bindingPrivate e0 destUUID eid_type b0 =
     (let (good, w) = checkDeviceInitThreshold (deviceWatcher b0) bindingPrivate;
          b1 = b0\<lparr>deviceWatcher := w\<rparr>
      in if \<not> good then (NotRegistered, b1)
         else (let (r, pool) = choose_eid L e0 (eidPool b1);
                   b2 = b1\<lparr>eidPool := pool\<rparr>
               in case r of
                    Inl _ \<Rightarrow> (NotRegistered, b2)
                  | Inr e \<Rightarrow>
                      (case setEidCtrlCmd L X bindingPrivate (EID_NULL L) (SET_EID_OPERATION L) e b2 of
                         (None, b3) \<Rightarrow> (NotRegistered, b3\<lparr>eidPool := updateEidStatus e False (eidPool b3)\<rparr>)
                       | (Some setEidResp, b3) \<Rightarrow>
                           (if e \<noteq> sr_eid_set L setEidResp
                            then (NotRegistered, b3\<lparr>eidPool := updateEidStatus e False (eidPool b3)\<rparr>)
                            else busOwner_expose L X bindingPrivate e destUUID eid_type
                                   (b3\<lparr>eidPool := updateEidStatus e True (eidPool b3)\<rparr>)))))"

definition resize :: "nat \<Rightarrow> byte list \<Rightarrow> byte list" where
  "resize n xs = take n xs @ replicate (n - length xs) 0"

definition busOwnerRegisterEndpoint ::
    "libmctp \<Rightarrow> 'a binding_scheme exchange \<Rightarrow> byte list \<Rightarrow> eid
     \<Rightarrow> 'a binding_scheme \<Rightarrow> registration \<times> 'a binding_scheme" where
  "busOwnerRegisterEndpoint L X bindingPrivate e0 b0 =
     (case getMctpVersionSupportCtrlCmd L X bindingPrivate (EID_NULL L) (TYPE_MCTP_CTRL L) b0 of
        (None, b1) \<Rightarrow> (NotRegistered, b1)
      | (Some versions, b1) \<Rightarrow>
     (case getEidCtrlCmd L X bindingPrivate (EID_NULL L) b1 of
        (None, b2) \<Rightarrow> (NotRegistered, b2)
      | (Some getEidResp, b2) \<Rightarrow>
          (let respEid = gr_eid L getEidResp; eid_type = gr_eid_type L getEidResp in
           case checkEIDMismatchAndGetEID L e0 respEid of
             None \<Rightarrow> (NotRegistered, b2)
           | Some e \<Rightarrow>
               (let b3 = logUnsupportedMCTPVersion versions e b2;
                    ((gotUuid, uuidResp), b4) = getUuidCtrlCmd L X bindingPrivate (EID_NULL L) b3
                in if \<not> gotUuid \<and> isEIDRegistered respEid b4 then (Registered respEid, b4)
                   else (let b5 = (if \<not> gotUuid \<and> e \<noteq> EID_NULL L then unregisterEndpoint e b4 else b4);
                             getUuidResp = (if gotUuid then uuidResp else resize (sizeof_get_uuid L) uuidResp);
                             destUUID = formatUUID (ur_uuid L getUuidResp);
                             ((mapped, respEid'), b6) = isEIDMappedToUUID respEid destUUID b5
                         in if mapped then (Registered respEid', b6)
                            else busOwner_assign L X bindingPrivate e destUUID eid_type b6)))))"

definition registerEndpoint ::
    "libmctp \<Rightarrow> 'a binding_scheme exchange \<Rightarrow> byte list \<Rightarrow> eid \<Rightarrow> binding_mode
     \<Rightarrow> 'a binding_scheme \<Rightarrow> registration \<times> 'a binding_scheme" where
  "registerEndpoint L X bindingPrivate e bindingMode b0 =
     (if bindingModeType b0 = BusOwner then
        (case busOwnerRegisterEndpoint L X bindingPrivate e b0 of
           (NotRegistered, b1) \<Rightarrow> (NotRegistered, clearRegisteredDevice e b1)
         | (r, b1) \<Rightarrow> (r, b1))
      else
        (case getMsgTypeSupportCtrlCmd L X bindingPrivate e b0 of
           (None, b1) \<Rightarrow> (NotRegistered, b1)
         | (Some msgType, b1) \<Rightarrow>
             (let ((gotUuid, uuidResp), b2) = getUuidCtrlCmd L X bindingPrivate e b1;
                  u = (if \<not> gotUuid then nullUUID else formatUUID (ur_uuid L uuidResp));
                  p = \<lparr>endpointEid = e, ep_uuid = u, ep_mode = bindingMode, networkId = 0x00,
                       endpointMsgTypes = getMsgTypes L msgType, vendorIdCapabilitySets = [],
                       ep_vendorIdFormat = []\<rparr>;
                  (p', b3) = getVendorDefinedMessageTypes L X bindingPrivate e p b2;
                  (ok, b4) = populateEndpointProperties p' b3
              in if \<not> ok then (NotRegistered, b4) else (Registered e, b4))))"

section \<open>Invariants through a registration\<close>

text \<open>
  An invariant of the steps a registration is made of, and of whatever runs during its
  exchanges, is an invariant of the whole.
\<close>

definition env_keeps :: "('a binding_scheme \<Rightarrow> bool) \<Rightarrow> 'a binding_scheme exchange \<Rightarrow> bool" where
  "env_keeps P X \<longleftrightarrow> (\<forall>priv e req b. P b \<longrightarrow> P (snd (X priv e req b)))"

locale exchange_invariant =
  fixes P :: "'a binding_scheme \<Rightarrow> bool"
  assumes P_instanceId: "P b \<Longrightarrow> P (b\<lparr>instanceId := i\<rparr>)"
begin

lemma P_exchange: "env_keeps P X \<Longrightarrow> P b \<Longrightarrow> exchange_cmd L X priv e cmd b = (r, b') \<Longrightarrow> P b'"
proof -
  assume X: "env_keeps P X" and b: "P b" and eq: "exchange_cmd L X priv e cmd b = (r, b')"
  obtain ok req b1 where f: "getFormattedReq L cmd b = ((ok, req), b1)"
    by (cases "getFormattedReq L cmd b") force
  have "\<exists>i. b1 = b\<lparr>instanceId := i\<rparr>"
    using f by (auto simp: getFormattedReq_def getRqDgramInst_def createInstanceId_def Let_def
        split: ctrl_cmd.splits intro: exI [of _ "instanceId b"])
  then have "P b1" using b P_instanceId by blast
  moreover from this have "P (snd (X priv e req b1))" using X by (simp add: env_keeps_def)
  ultimately show "P b'"
    using eq by (auto simp: exchange_cmd_def f Let_def split: if_splits prod.splits)
qed

lemma P_cmds:
  assumes "env_keeps P X" "P b"
  shows "getEidCtrlCmd L X priv e b = (r1, b1) \<Longrightarrow> P b1"
    and "setEidCtrlCmd L X priv e opn e' b = (r2, b2) \<Longrightarrow> P b2"
    and "getUuidCtrlCmd L X priv e b = (r3, b3) \<Longrightarrow> P b3"
    and "getMsgTypeSupportCtrlCmd L X priv e b = (r4, b4) \<Longrightarrow> P b4"
    and "getMctpVersionSupportCtrlCmd L X priv e t b = (r5, b5) \<Longrightarrow> P b5"
  using assms P_exchange
  by (auto simp: getEidCtrlCmd_def setEidCtrlCmd_def getUuidCtrlCmd_def getMsgTypeSupportCtrlCmd_def
      getMctpVersionSupportCtrlCmd_def split: prod.splits option.splits if_splits)

lemma P_pcivd_loop:
  "env_keeps P X \<Longrightarrow> P b \<Longrightarrow> P (snd (pcivd_loop L X priv e v ids fmt b))"
proof (induction L X priv e v ids fmt b rule: pcivd_loop.induct)
  case (1 L X priv e v ids fmt b)
  obtain r b1 where x: "exchange_cmd L X priv e (Get_Vendor_Message_Support v) b = (r, b1)" by force
  have b1: "P b1" using P_exchange [OF 1(2,3) x] .
  show ?case
  proof (cases "v < 255 \<and> (\<exists>resp. r = Some resp \<and> checkMinRespSize resp \<and>
      resp ! completionCodeIndex = CC_SUCCESS L \<and> \<not> length resp < vendIdMsgSupportRespSize \<and>
      resp ! 4 \<noteq> noMoreSet \<and> v + 1 \<noteq> 255)")
    case False
    then show ?thesis
      using b1 1(3) by (subst pcivd_loop.simps) (auto simp: x Let_def split: option.split)
  next
    case True
    then obtain resp where r: "r = Some resp" "checkMinRespSize resp"
      "resp ! completionCodeIndex = CC_SUCCESS L" "\<not> length resp < vendIdMsgSupportRespSize"
      "resp ! 4 \<noteq> noMoreSet" "v + 1 \<noteq> 255" "v < 255" by blast
    then show ?thesis
      using 1(1) [OF _ x [symmetric], of resp] b1 1(2)
      by (subst pcivd_loop.simps) (simp add: x Let_def)
  qed
qed

lemma P_vdm:
  assumes "env_keeps P X" "P b"
  shows "getVendorDefinedMessageTypes L X priv e p b = (p', b') \<Longrightarrow> P b'"
  using P_pcivd_loop [OF assms, of L priv e 0 "[]" "[]"] assms(2)
  by (auto simp: getVendorDefinedMessageTypes_def getPCIVDMessageSupportCtrlCmd_def Let_def
      split: prod.splits if_splits)

end

locale registry_invariant = exchange_invariant P for P :: "'a binding_scheme \<Rightarrow> bool" +
  assumes P_incompatible: "P b \<Longrightarrow> P (b\<lparr>incompatibleEIDs := es\<rparr>)"
    and P_watcher: "P b \<Longrightarrow> checkDeviceInitThreshold (deviceWatcher b) d = (good, w) \<Longrightarrow>
                      P (b\<lparr>deviceWatcher := w\<rparr>)"
    and P_get: "P b \<Longrightarrow> getAvailableEidFromPool (eidPool b) = (r, pool) \<Longrightarrow> P (b\<lparr>eidPool := pool\<rparr>)"
    and P_update: "P b \<Longrightarrow> P (b\<lparr>eidPool := updateEidStatus e assigned (eidPool b)\<rparr>)"
    and P_unregister: "P b \<Longrightarrow> P (unregisterEndpoint e b)"
    and P_populate: "P b \<Longrightarrow> populateEndpointProperties p b = (ok, b') \<Longrightarrow> P b'"
    and P_table: "P b \<Longrightarrow> P (b\<lparr>uuidTable := tab\<rparr>)"
begin

lemma P_expose:
  assumes X: "env_keeps P X" and b: "P b"
  shows "P (snd (busOwner_expose L X priv e u ty b))"
proof -
  obtain r b1 where 1: "getMsgTypeSupportCtrlCmd L X priv e b = (r, b1)" by force
  have b1: "P b1" using P_cmds(4) [OF X b 1] .
  show ?thesis
  proof (cases "r = None \<or> getEndpointType ty = None")
    case True
    then show ?thesis using b1 by (auto simp: busOwner_expose_def 1 split: option.split)
  next
    case False
    then obtain ts mode where s: "r = Some ts" "getEndpointType ty = Some mode" by auto
    let ?p = "\<lparr>endpointEid = e, ep_uuid = u, ep_mode = mode, networkId = 0x00,
       endpointMsgTypes = getMsgTypes L ts, vendorIdCapabilitySets = [], ep_vendorIdFormat = []\<rparr>"
    obtain p' b2 where 2: "getVendorDefinedMessageTypes L X priv e ?p b1 = (p', b2)" by force
    have b2: "P b2" using P_vdm [OF X b1 2] .
    obtain ok b3 where 3: "populateEndpointProperties p' b2 = (ok, b3)" by force
    have "P b3" using P_populate [OF b2 3] .
    then show ?thesis using P_table by (simp add: busOwner_expose_def 1 s 2 3)
  qed
qed

lemma P_assign:
  assumes X: "env_keeps P X" and b: "P b"
  shows "P (snd (busOwner_assign L X priv e0 u ty b))"
proof -
  obtain good w where 1: "checkDeviceInitThreshold (deviceWatcher b) priv = (good, w)" by force
  let ?b1 = "b\<lparr>deviceWatcher := w\<rparr>"
  have b1: "P ?b1" using P_watcher [OF b 1] .
  obtain r pool where 2: "choose_eid L e0 (eidPool b) = (r, pool)" by force
  let ?b2 = "?b1\<lparr>eidPool := pool\<rparr>"
  have "?b2 = ?b1" if "pool = eidPool ?b1" by (simp add: that)
  then have b2: "P ?b2"
    using 2 P_get [OF b1, of r pool] b1 by (auto simp: choose_eid_def split: if_splits)
  show ?thesis
  proof (cases r)
    case (Inl err)
    then show ?thesis using b1 b2 by (simp add: busOwner_assign_def 1 2 Let_def)
  next
    case (Inr e)
    obtain r3 b3 where 3: "setEidCtrlCmd L X priv (EID_NULL L) (SET_EID_OPERATION L) e ?b2 = (r3, b3)" by force
    have b3: "P b3" using P_cmds(2) [OF X b2 3] .
    show ?thesis
      using b1 P_update [OF b3] P_expose [OF X P_update [OF b3]] Inr
      by (cases r3) (simp_all add: busOwner_assign_def 1 2 3 Let_def)
  qed
qed

lemma P_mapped: "P b \<Longrightarrow> P (snd (isEIDMappedToUUID e u b))"
  using P_unregister by (auto simp: isEIDMappedToUUID_def split: option.split)

lemma P_busOwner:
  assumes X: "env_keeps P X" and b: "P b"
  shows "P (snd (busOwnerRegisterEndpoint L X priv e0 b))"
proof -
  obtain r1 b1 where 1: "getMctpVersionSupportCtrlCmd L X priv (EID_NULL L) (TYPE_MCTP_CTRL L) b = (r1, b1)" by force
  have b1: "P b1" using P_cmds(5) [OF X b 1] .
  obtain r2 b2 where 2: "getEidCtrlCmd L X priv (EID_NULL L) b1 = (r2, b2)" by force
  have b2: "P b2" using P_cmds(1) [OF X b1 2] .
  show ?thesis
  proof (cases "\<exists>vs resp e. r1 = Some vs \<and> r2 = Some resp \<and> checkEIDMismatchAndGetEID L e0 (gr_eid L resp) = Some e")
    case False
    then show ?thesis
      using b1 b2 by (cases r1; cases r2) (auto simp: busOwnerRegisterEndpoint_def 1 2 Let_def split: option.split)
  next
    case True
    then obtain vs resp e where s: "r1 = Some vs" "r2 = Some resp"
      "checkEIDMismatchAndGetEID L e0 (gr_eid L resp) = Some e" by blast
    let ?b3 = "logUnsupportedMCTPVersion vs e b2"
    have b3: "P ?b3" using b2 P_incompatible by (simp add: logUnsupportedMCTPVersion_def)
    obtain got ur b4 where 4: "getUuidCtrlCmd L X priv (EID_NULL L) ?b3 = ((got, ur), b4)"
      by (cases "getUuidCtrlCmd L X priv (EID_NULL L) ?b3") force
    have b4: "P b4" using P_cmds(3) [OF X b3 4] .
    let ?b5 = "if \<not> got \<and> e \<noteq> EID_NULL L then unregisterEndpoint e b4 else b4"
    have b5: "P ?b5" using b4 P_unregister by simp
    let ?u = "formatUUID (ur_uuid L (if got then ur else resize (sizeof_get_uuid L) ur))"
    obtain m re b6 where 6: "isEIDMappedToUUID (gr_eid L resp) ?u ?b5 = ((m, re), b6)"
      by (cases "isEIDMappedToUUID (gr_eid L resp) ?u ?b5") force
    have "P b6" using P_mapped [OF b5, of "gr_eid L resp" ?u] unfolding 6 by simp
    then show ?thesis
      using b4 P_assign [OF X]
      unfolding busOwnerRegisterEndpoint_def by (simp add: 1 2 s Let_def 4 6)
  qed
qed

lemma P_clear: "P b \<Longrightarrow> P (clearRegisteredDevice e b)"
  by (auto simp: clearRegisteredDevice_def Let_def split: option.split
      intro!: P_update P_unregister P_table)

lemma P_register:
  assumes X: "env_keeps P X" and b: "P b"
  shows "P (snd (registerEndpoint L X priv e mode b))"
proof (cases "bindingModeType b = BusOwner")
  case True
  then show ?thesis
    using P_busOwner [OF X b, of L priv e] P_clear
    by (cases "busOwnerRegisterEndpoint L X priv e b"; cases "fst (busOwnerRegisterEndpoint L X priv e b)")
      (simp_all add: registerEndpoint_def)
next
  case False
  obtain r b1 where 1: "getMsgTypeSupportCtrlCmd L X priv e b = (r, b1)" by force
  have b1: "P b1" using P_cmds(4) [OF X b 1] .
  obtain got ur b2 where 2: "getUuidCtrlCmd L X priv e b1 = ((got, ur), b2)"
    by (cases "getUuidCtrlCmd L X priv e b1") force
  have b2: "P b2" using P_cmds(3) [OF X b1 2] .
  show ?thesis
  proof (cases r)
    case None
    then show ?thesis using False b1 by (simp add: registerEndpoint_def 1)
  next
    case (Some ts)
    let ?p = "\<lparr>endpointEid = e, ep_uuid = (if \<not> got then nullUUID else formatUUID (ur_uuid L ur)),
       ep_mode = mode, networkId = 0x00, endpointMsgTypes = getMsgTypes L ts,
       vendorIdCapabilitySets = [], ep_vendorIdFormat = []\<rparr>"
    obtain p' b3 where 3: "getVendorDefinedMessageTypes L X priv e ?p b2 = (p', b3)" by force
    have b3: "P b3" using P_vdm [OF X b2 3] .
    obtain ok b4 where 4: "populateEndpointProperties p' b3 = (ok, b4)" by force
    have "P b4" using P_populate [OF b3 4] .
    then show ?thesis using False Some
      unfolding registerEndpoint_def by (simp add: 1 2 Let_def 3 4 del: if_not_P)
  qed
qed

end

section \<open>Objects and pool\<close>

text \<open>The objects of an endpoint come and go together, and the pool lists no EID twice.\<close>

definition registry_inv :: "'a binding_scheme \<Rightarrow> bool" where
  "registry_inv b \<longleftrightarrow>
     dom (msgTypeInterface b) = dom (endpointInterface b) \<and>
     dom (uuidInterface b) = dom (endpointInterface b) \<and>
     dom (vendorIdInterface b) \<subseteq> dom (endpointInterface b) \<and>
     pool_inv (eidPool b)"

lemma dom_unregister:
  "dom (endpointInterface (unregisterEndpoint e b)) = dom (endpointInterface b) - {e}"
  "dom (msgTypeInterface (unregisterEndpoint e b)) = dom (msgTypeInterface b) - {e}"
  "dom (uuidInterface (unregisterEndpoint e b)) = dom (uuidInterface b) - {e}"
  "dom (vendorIdInterface (unregisterEndpoint e b)) = dom (vendorIdInterface b) - {e}"
  "eidPool (unregisterEndpoint e b) = eidPool b"
  by (auto simp: unregisterEndpoint_def removeInterface_def Let_def split: if_splits)

lemma dom_object_emplace: "dom (emplace k v m) = insert k (dom m)"
  by (auto simp: emplace_def)

lemma registry_inv_unregister [inv_intros]: "registry_inv b \<Longrightarrow> registry_inv (unregisterEndpoint e b)"
  by (auto simp: registry_inv_def dom_unregister)

lemma registry_inv_populate [inv_intros]:
  "registry_inv b \<Longrightarrow> registry_inv (snd (populateEndpointProperties p b))"
  by (auto simp: registry_inv_def populateEndpointProperties_def Let_def dom_object_emplace)

interpretation reg: registry_invariant registry_inv
proof
  fix b :: "'a binding_scheme" and r and pool
  assume "registry_inv b" "getAvailableEidFromPool (eidPool b) = (r, pool)"
  moreover have "pool = snd (getAvailableEidFromPool (eidPool b))" using calculation(2) by simp
  ultimately show "registry_inv (b\<lparr>eidPool := pool\<rparr>)"
    using get_inv [of "eidPool b"] by (simp add: registry_inv_def)
next
  fix b :: "'a binding_scheme" and p ok b'
  assume "registry_inv b" "populateEndpointProperties p b = (ok, b')"
  then show "registry_inv b'" using registry_inv_populate [of b p] by simp
qed (simp_all add: registry_inv_unregister, simp_all add: registry_inv_def update_inv)

text \<open>
  C5: The D-Bus objects of the endpoints stay consistent: whatever other handlers do during
  the control commands of a registration (as long as they keep it so too), after
  \<open>registerEndpoint\<close> every registered EID has its endpoint, message type and UUID object, no
  object of another EID exists, and no EID is twice in the pool.
\<close>

theorem registration_keeps_objects_consistent:
  assumes "registry_inv b" and "env_keeps registry_inv X"
  shows "registry_inv (snd (registerEndpoint L X priv e mode b))"
  using assms by (intro reg.P_register)

definition silent_bus :: "'s exchange" where
  "silent_bus priv e req s = ((noResponse, []), s)"

theorem registration_keeps_objects_consistent_witness:
  "registry_inv (snd (registerEndpoint dsp0236 silent_bus [] 9 Endpoint (MctpBinding_ctor dsp0236 test_conf)))"
  by (rule registration_keeps_objects_consistent)
    (simp_all add: env_keeps_def silent_bus_def registry_inv_def MctpBinding_ctor_def pool_inv_def)

text \<open>\<open>registerEndpoint\<close> reports an EID only when it has created the objects, or found it registered.\<close>

lemma populate_result:
  assumes "populateEndpointProperties p b = (ok, b')"
  shows "ok \<longleftrightarrow> endpointInterface b (endpointEid p) = None"
    and "ok \<Longrightarrow> endpointInterface b' = (endpointInterface b)(endpointEid p \<mapsto> (ep_mode p, networkId p))"
    and "\<not> ok \<Longrightarrow> b' = b"
  using assms by (auto simp: populateEndpointProperties_def Let_def emplace_def split: if_splits)

lemma vdm_result:
  "getVendorDefinedMessageTypes L X priv e p b = (p', b') \<Longrightarrow>
     endpointEid p' = endpointEid p \<and> ep_mode p' = ep_mode p \<and> ep_uuid p' = ep_uuid p \<and>
     networkId p' = networkId p"
  by (auto simp: getVendorDefinedMessageTypes_def split: if_splits prod.splits)

lemma expose_result:
  assumes "busOwner_expose L X priv e u ty b = (Registered e', b')"
  shows "e' = e \<and> endpointInterface b' e \<noteq> None \<and> (u \<noteq> nullUUID \<and> e \<noteq> EID_NULL L \<longrightarrow> (e, u) \<in> set (uuidTable b'))"
  using assms
  by (auto simp: busOwner_expose_def Let_def split: option.splits prod.splits if_splits
      dest!: vdm_result populate_result(2))

lemma assign_result:
  assumes "busOwner_assign L X priv e0 u ty b = (Registered e', b')"
  shows "endpointInterface b' e' \<noteq> None \<and> (e0 \<noteq> EID_NULL L \<longrightarrow> e' = e0)"
proof -
  obtain good w where 1: "checkDeviceInitThreshold (deviceWatcher b) priv = (good, w)" by force
  obtain r pool where 2: "choose_eid L e0 (eidPool b) = (r, pool)" by force
  from assms obtain e where r: "r = Inr e" and g: "good"
    by (cases r) (auto simp: busOwner_assign_def 1 2 Let_def split: if_splits)
  obtain r3 b3 where 3: "setEidCtrlCmd L X priv (EID_NULL L) (SET_EID_OPERATION L) e
      (b\<lparr>deviceWatcher := w, eidPool := pool\<rparr>) = (r3, b3)" by force
  from assms g r obtain resp where "r3 = Some resp" "sr_eid_set L resp = e"
    by (cases r3) (auto simp: busOwner_assign_def 1 2 3 Let_def split: if_splits)
  with assms g r have "busOwner_expose L X priv e u ty (b3\<lparr>eidPool := updateEidStatus e True (eidPool b3)\<rparr>)
      = (Registered e', b')"
    by (simp add: busOwner_assign_def 1 2 3 Let_def)
  then have "e' = e \<and> endpointInterface b' e \<noteq> None" using expose_result by blast
  moreover have "e0 \<noteq> EID_NULL L \<Longrightarrow> e = e0" using 2 r by (simp add: choose_eid_def)
  ultimately show ?thesis by blast
qed

lemma eid_of_uuid_mem: "eid_of_uuid u tab = Some e \<Longrightarrow> (e, u) \<in> set tab"
  by (induction u tab rule: eid_of_uuid.induct) (auto split: if_splits)

lemma busOwner_result:
  assumes "busOwnerRegisterEndpoint L X priv e0 b = (Registered e', b')"
  shows "endpointInterface b' e' \<noteq> None \<or> (\<exists>u. (e', u) \<in> set (uuidTable b'))"
proof -
  obtain r1 b1 where 1: "getMctpVersionSupportCtrlCmd L X priv (EID_NULL L) (TYPE_MCTP_CTRL L) b = (r1, b1)" by force
  obtain r2 b2 where 2: "getEidCtrlCmd L X priv (EID_NULL L) b1 = (r2, b2)" by force
  from assms obtain vs resp e where s: "r1 = Some vs" "r2 = Some resp"
      "checkEIDMismatchAndGetEID L e0 (gr_eid L resp) = Some e"
    by (cases r1; cases r2) (auto simp: busOwnerRegisterEndpoint_def 1 2 Let_def split: option.splits)
  let ?b3 = "logUnsupportedMCTPVersion vs e b2"
  obtain got ur b4 where 4: "getUuidCtrlCmd L X priv (EID_NULL L) ?b3 = ((got, ur), b4)"
    by (cases "getUuidCtrlCmd L X priv (EID_NULL L) ?b3") force
  obtain b5 where b5: "b5 = (if \<not> got \<and> e \<noteq> EID_NULL L then unregisterEndpoint e b4 else b4)" by simp
  obtain u where u: "u = formatUUID (ur_uuid L (if got then ur else resize (sizeof_get_uuid L) ur))" by simp
  obtain m re b6 where 6: "isEIDMappedToUUID (gr_eid L resp) u b5 = ((m, re), b6)"
    by (cases "isEIDMappedToUUID (gr_eid L resp) u b5") force
  have eq: "busOwnerRegisterEndpoint L X priv e0 b =
      (if \<not> got \<and> isEIDRegistered (gr_eid L resp) b4 then (Registered (gr_eid L resp), b4)
       else if m then (Registered re, b6) else busOwner_assign L X priv e u (gr_eid_type L resp) b6)"
    unfolding busOwnerRegisterEndpoint_def 1 s prod.case option.case 2 Let_def 4 b5 [symmetric] u [symmetric] 6
    by simp
  consider "\<not> got \<and> isEIDRegistered (gr_eid L resp) b4" | "\<not> (\<not> got \<and> isEIDRegistered (gr_eid L resp) b4)" m
    | "\<not> (\<not> got \<and> isEIDRegistered (gr_eid L resp) b4)" "\<not> m" by blast
  then show ?thesis
  proof cases
    case 1
    then show ?thesis using assms eq by (simp add: isEIDRegistered_def)
  next
    case 2
    then have "e' = re" "b' = b6" using assms eq by (auto split: if_splits)
    moreover have "(re, u) \<in> set (uuidTable b6)"
      using 6 2(2) eid_of_uuid_mem by (auto simp: isEIDMappedToUUID_def getEIDFromUUID_def split: option.splits if_split_asm)
    ultimately show ?thesis by blast
  next
    case 3
    then have "busOwner_assign L X priv e u (gr_eid_type L resp) b6 = (Registered e', b')"
      using assms eq by (auto split: if_splits)
    then show ?thesis using assign_result by blast
  qed
qed

text \<open>
  A successful registration leaves its EID visible: as an endpoint (not a bus owner)
  \<open>registerEndpoint\<close> reports exactly the EID it was called with, and only after it has created
  the objects for it with the given mode; as a bus owner the reported EID has an endpoint
  object or is in the table of known UUIDs.
\<close>

lemma registered_endpoint_is_known:
  assumes "registerEndpoint L X priv e mode b = (Registered e', b')"
  shows "if bindingModeType b = BusOwner
     then endpointInterface b' e' \<noteq> None \<or> (\<exists>u. (e', u) \<in> set (uuidTable b'))
     else e' = e \<and> endpointInterface b' e = Some (mode, 0)"
proof (cases "bindingModeType b = BusOwner")
  case True
  then have "busOwnerRegisterEndpoint L X priv e b = (Registered e', b')"
    using assms by (auto simp: registerEndpoint_def split: prod.splits registration.splits)
  from busOwner_result [OF this] show ?thesis using True by simp
next
  case False
  obtain r b1 where 1: "getMsgTypeSupportCtrlCmd L X priv e b = (r, b1)" by force
  obtain got ur b2 where 2: "getUuidCtrlCmd L X priv e b1 = ((got, ur), b2)"
    by (cases "getUuidCtrlCmd L X priv e b1") force
  obtain ts where r: "r = Some ts"
    using assms False by (cases r) (auto simp: registerEndpoint_def 1)
  let ?p = "\<lparr>endpointEid = e, ep_uuid = (if \<not> got then nullUUID else formatUUID (ur_uuid L ur)),
     ep_mode = mode, networkId = 0x00, endpointMsgTypes = getMsgTypes L ts,
     vendorIdCapabilitySets = [], ep_vendorIdFormat = []\<rparr>"
  obtain p' b3 where 3: "getVendorDefinedMessageTypes L X priv e ?p b2 = (p', b3)" by force
  obtain ok b4 where 4: "populateEndpointProperties p' b3 = (ok, b4)" by force
  have "registerEndpoint L X priv e mode b = (if \<not> ok then (NotRegistered, b4) else (Registered e, b4))"
    using False r unfolding registerEndpoint_def by (simp add: 1 2 Let_def 3 4)
  then have "ok" "e' = e" "b' = b4" using assms by (auto split: if_splits)
  then show ?thesis using False populate_result(2) [OF 4] vdm_result [OF 3] by simp
qed

section \<open>A device on the bus\<close>

text \<open>
  A device that answers every control command, for concrete runs: its EID, UUID and
  endpoint type, and whether it accepts Set Endpoint ID.
\<close>

definition device :: "eid \<Rightarrow> byte list \<Rightarrow> byte \<Rightarrow> bool \<Rightarrow> 's exchange" where
  "device e u ty accepts priv dest req s =
     ((receivedResponse,
       (if req ! 2 = 4 then [0, req ! 1, 4, 0, 1, 241, 243, 241, 0]
        else if req ! 2 = 2 then [0, req ! 1, 2, 0, e, ty, 0]
        else if req ! 2 = 3 then [0, req ! 1, 3, 0] @ u
        else if req ! 2 = 1 then [0, req ! 1, 1, (if accepts then 0 else 1), 0, req ! 4, 0]
        else if req ! 2 = 5 then [0, req ! 1, 5, 0, 1, 1]
        else [])), s)"

definition test_uuid :: "byte list" where
  "test_uuid = [1, 2, 3, 4, 5, 6, 7, 8, 9, 10, 11, 12, 13, 14, 15, 16]"

definition test_owner :: binding where
  "test_owner = (MctpBinding_ctor dsp0236 test_conf)\<lparr>eidPool := [(9, False), (10, False), (11, False)]\<rparr>"

theorem registered_endpoint_is_known_witness:
  "let (r, b') = registerEndpoint dsp0236 (device 0 test_uuid 0 True) [1] 0 Endpoint test_owner
   in r = Registered 9 \<and> (endpointInterface b' 9 \<noteq> None \<or> (\<exists>u. (9, u) \<in> set (uuidTable b')))"
proof -
  let ?r = "registerEndpoint dsp0236 (device 0 test_uuid 0 True) [1] 0 Endpoint test_owner"
  have 1: "fst ?r = Registered 9" by code_simp
  then have "?r = (Registered 9, snd ?r)" by (metis prod.collapse)
  from registered_endpoint_is_known [OF this] have "endpointInterface (snd ?r) 9 \<noteq> None \<or>
      (\<exists>u. (9, u) \<in> set (uuidTable (snd ?r)))"
    by (simp add: test_owner_def MctpBinding_ctor_def test_conf_def)
  with 1 show ?thesis by (simp add: case_prod_unfold)
qed

text \<open>
  A device that is reset does not get its old EID back: although its UUID is known with
  EID 9, which \<open>isEIDMappedToUUID\<close> hands out \<open>to give priority\<close> to it, the registration takes
  a fresh EID of the pool; the old EID stays assigned for ever and the table keeps both.
\<close>

lemma reset_device_gets_a_new_eid:
  "let (r1, b1) = registerEndpoint dsp0236 (device 0 test_uuid 0 True) [1] 0 Endpoint test_owner;
       (r2, b2) = registerEndpoint dsp0236 (device 0 test_uuid 0 True) [1] 0 Endpoint b1
   in r1 = Registered 9 \<and> r2 = Registered 10 \<and> endpointInterface b2 9 = None \<and>
      eidPool b2 = [(11, False), (9, True), (10, True)] \<and> map fst (uuidTable b2) = [9, 10]"
  by code_simp

text \<open>
  A registration that fails while the device was known leaves the table of UUIDs behind
  without the objects: the next registration of the device reports EID 9 as registered
  although there is no object for it.
\<close>

lemma known_uuid_hides_missing_objects:
  "let b1 = snd (registerEndpoint dsp0236 (device 0 test_uuid 0 True) [1] 0 Endpoint test_owner);
       b2 = snd (registerEndpoint dsp0236 (device 0 test_uuid 0 False) [1] 0 Endpoint b1);
       (r3, b3) = registerEndpoint dsp0236 (device 9 test_uuid 0 True) [1] 9 Endpoint b2
   in r3 = Registered 9 \<and> endpointInterface b3 9 = None"
  by code_simp

text \<open>
  The endpoint type is a two-bit field of a response; its two reserved values end the
  daemon: \<open>getEndpointType\<close> has no result for exactly these, and a device that reports one
  while it registers terminates the process.
\<close>

lemma reserved_endpoint_type_terminates:
  "(\<forall>types. getEndpointType types = None \<longleftrightarrow> bit types 5) \<and>
   fst (registerEndpoint dsp0236 (device 0 test_uuid 0x20 True) [1] 0 Endpoint test_owner) = Terminate"
proof -
  have "getEndpointType types = None \<longleftrightarrow> bit types 5" for types
  proof -
    let ?x = "drop_bit 4 (types AND 0x30)"
    have x: "?x = of_bool (bit types 4) + 2 * of_bool (bit types 5)"
    proof (rule bit_word_eqI)
      fix n assume "n < LENGTH(8)"
      then have "n = 0 \<or> n = 1 \<or> n = 2 \<or> n = 3 \<or> n = 4 \<or> n = 5 \<or> n = 6 \<or> n = 7" by simp arith
      then show "bit ?x n \<longleftrightarrow> bit (of_bool (bit types 4) + 2 * of_bool (bit types 5) :: byte) n"
        by (cases "bit types 4"; cases "bit types 5"; elim disjE) (simp_all add: bit_drop_bit_eq bit_and_iff)
    qed
    show ?thesis
      unfolding getEndpointType_def endpointTypeMask_def Let_def x by simp
  qed
  moreover have "fst (registerEndpoint dsp0236 (device 0 test_uuid 0x20 True) [1] 0 Endpoint test_owner) = Terminate"
    by code_simp
  ultimately show ?thesis by blast
qed

end
