(* ===== verification/Pcie_Binding.thy ===== *)
theory Pcie_Binding
  imports Endpoint_Registry
begin

text \<open>
  The PCIe binding (mctpd/src/PCIeBinding.cpp): how the routing table of the bus is read
  from the bus owner and from every bridge, how changes of it become registrations, and
  the control handlers that drive the discovery of this endpoint. Structs and macros of
  libmctp's PCIe binding are the fields of a parameter of type \<open>nupcie\<close>. \<open>None\<close> as the
  result of reading a table marks reads and insertions outside a vector.
\<close>

unbundle bit_operations_syntax

section \<open>State\<close>

datatype DiscoveryFlags = NotApplicable | Undiscovered | Discovered

text \<open>\<open>routingTableEntry\_t\<close>: EID, bus/device/function and entry type.\<close>

type_synonym rt_entry = "eid \<times> u16 \<times> byte"
type_synonym called_bridge = "eid \<times> u16"

record nupcie =
  PCIE_ROUTE_TO_RC :: byte
  PCIE_ROUTE_BY_ID :: byte
  PCIE_BROADCAST_FROM_RC :: byte
  mk_private :: "byte \<Rightarrow> u16 \<Rightarrow> byte list"
  routing_of :: "byte list \<Rightarrow> byte"
  remote_id_of :: "byte list \<Rightarrow> u16"
  set_routing :: "byte \<Rightarrow> byte list \<Rightarrow> byte list"
  set_remote_id :: "u16 \<Rightarrow> byte list \<Rightarrow> byte list"
  BINDING_PCIE :: byte
  ENTRY_BRIDGE_AND_ENDPOINTS :: byte
  ENTRY_BRIDGE :: byte
  ENTRY_ENDPOINTS :: byte
  get_entry_type :: "byte \<Rightarrow> byte"
  set_entry_type :: "byte \<Rightarrow> byte \<Rightarrow> byte"
  rte_starting_eid :: "byte list \<Rightarrow> byte"
  rte_eid_range_size :: "byte list \<Rightarrow> byte"
  rte_entry_type :: "byte list \<Rightarrow> byte"
  rte_binding_id :: "byte list \<Rightarrow> byte"
  rt_next_entry_handle :: "byte list \<Rightarrow> byte"
  sizeof_prepare_discovery :: nat
  sizeof_endpoint_discovery :: nat
  lib_get_vdm_support :: "eid \<Rightarrow> byte list option"
  vdm_response :: "byte list \<Rightarrow> byte \<Rightarrow> InternalVdmSetDatabase \<Rightarrow> byte list"
  CC_ERROR_UNSUPPORTED_CMD :: byte

record pcie = binding +
  bdf :: u16
  busOwnerBdf :: u16
  discoveredFlag :: DiscoveryFlags
  routingTable :: "rt_entry list"
  getRoutingInterval :: nat
  routingTimer :: nat

definition PCIeBinding_ctor :: "libmctp \<Rightarrow> Configuration \<Rightarrow> u16 \<Rightarrow> nat \<Rightarrow> pcie" where
  "PCIeBinding_ctor L conf confBdf interval =
     binding.extend (MctpBinding_ctor L conf)
       \<lparr>bdf = confBdf, busOwnerBdf = 0,
        discoveredFlag = (if conf_mode conf = BusOwner then NotApplicable else Undiscovered),
        routingTable = [], getRoutingInterval = interval, routingTimer = interval\<rparr>"

definition changeDiscoveredFlag :: "DiscoveryFlags \<Rightarrow> 'a pcie_scheme \<Rightarrow> 'a pcie_scheme" where
  "changeDiscoveredFlag flag b =
     (let b1 = b\<lparr>discoveredFlag := flag\<rparr>
      in if Discovered = flag then b1\<lparr>routingTimer := 0\<rparr> else b1)"

section \<open>Reading routing tables\<close>

definition getBindingMode :: "nupcie \<Rightarrow> rt_entry \<Rightarrow> 'a pcie_scheme \<Rightarrow> binding_mode" where
  "getBindingMode N routingEntry b =
     (let (e, physAddr, ty) = routingEntry in
      if physAddr = busOwnerBdf b then BusOwner
      else if ty = ENTRY_BRIDGE_AND_ENDPOINTS N \<or> ty = ENTRY_BRIDGE N then Bridge
      else Endpoint)"

text \<open>The two bytes of the physical address are read whatever the size of the address is.\<close>

definition getRoutingEntryPhysAddr :: "byte list \<Rightarrow> nat \<Rightarrow> u16 option" where
  "getRoutingEntryPhysAddr resp entryOffset =
     (if entryOffset + 1 < length resp then Some (byte_swap16 (read16 resp entryOffset)) else None)"

definition isEntryInRoutingTable :: "eid \<Rightarrow> rt_entry list \<Rightarrow> bool" where
  "isEntryInRoutingTable starting_eid rt \<longleftrightarrow> (\<exists>(e, p, ty) \<in> set rt. starting_eid = e)"

definition isActiveEntryBehindBridge :: "nupcie \<Rightarrow> byte list \<Rightarrow> rt_entry list \<Rightarrow> bool" where
  "isActiveEntryBehindBridge N routingEntry rt \<longleftrightarrow>
     \<not> isEntryInRoutingTable (rte_starting_eid N routingEntry) rt \<and>
     rte_eid_range_size N routingEntry = 1 \<and> rte_binding_id N routingEntry = BINDING_PCIE N"

definition isEndOfGetRoutingTableResp :: "byte \<Rightarrow> byte \<Rightarrow> bool \<times> byte" where
  "isEndOfGetRoutingTableResp entryHandle responseCount =
     (if entryHandle = 0xff \<or> responseCount = 0xff then (True, responseCount)
      else (False, responseCount + 1))"

definition isEntryBridge :: "nupcie \<Rightarrow> rt_entry \<Rightarrow> bool" where
  "isEntryBridge N routingEntry \<longleftrightarrow>
     get_entry_type N (snd (snd routingEntry)) = ENTRY_BRIDGE N \<or>
     get_entry_type N (snd (snd routingEntry)) = ENTRY_BRIDGE_AND_ENDPOINTS N"

definition isBridgeCalled :: "rt_entry \<Rightarrow> called_bridge list \<Rightarrow> bool" where
  "isBridgeCalled routingEntry calledBridges \<longleftrightarrow>
     (\<exists>(e, physAddr) \<in> set calledBridges. fst routingEntry = e \<and> fst (snd routingEntry) = physAddr)"

definition allBridgesCalled :: "nupcie \<Rightarrow> rt_entry list \<Rightarrow> called_bridge list \<Rightarrow> bool" where
  "allBridgesCalled N rt calledBridges \<longleftrightarrow>
     (\<forall>entry \<in> set rt. \<not> (isEntryBridge N entry \<and> \<not> isBridgeCalled entry calledBridges))"

definition insert_at :: "nat \<Rightarrow> 'x \<Rightarrow> 'x list \<Rightarrow> 'x list option" where
  "insert_at i x xs = (if i \<le> length xs then Some (take i xs @ [x] @ drop i xs) else None)"

text \<open>
  The entries of one response: the remaining number of entries, the offset, the table and
  the insertion index.
\<close>

fun read_entries ::
    "libmctp \<Rightarrow> nupcie \<Rightarrow> eid \<Rightarrow> eid \<Rightarrow> u16 \<Rightarrow> byte list \<Rightarrow> nat \<Rightarrow> nat \<Rightarrow> rt_entry list \<Rightarrow> nat
     \<Rightarrow> (rt_entry list \<times> nat) option" where
  "read_entries L N owner e physAddr resp 0 entryOffset rt insertIndex = Some (rt, insertIndex)"
| "read_entries L N owner e physAddr resp (Suc n) entryOffset rt insertIndex =
     (let entry = drop entryOffset resp;
          addrOffset = entryOffset + sizeof_routing_entry L;
          nextOffset = addrOffset + unat (rte_phys_address_size L entry);
          ty = rte_entry_type N entry
      in if rte_binding_id N entry \<noteq> BINDING_PCIE N
         then read_entries L N owner e physAddr resp n nextOffset rt insertIndex
         else (case getRoutingEntryPhysAddr resp addrOffset of
                 None \<Rightarrow> None
               | Some entryPhysAddr \<Rightarrow>
                   (if e = owner \<and> get_entry_type N ty = ENTRY_BRIDGE_AND_ENDPOINTS N
                    then read_entries L N owner e physAddr resp n nextOffset
                           (rt @ [(rte_starting_eid N entry, entryPhysAddr,
                                   set_entry_type N ty (ENTRY_BRIDGE N))]) insertIndex
                    else if e = owner \<and> \<not> get_entry_type N ty = ENTRY_ENDPOINTS N
                    then read_entries L N owner e physAddr resp n nextOffset
                           (rt @ [(rte_starting_eid N entry, entryPhysAddr, ty)]) insertIndex
                    else if e \<noteq> owner \<and> isActiveEntryBehindBridge N entry rt
                    then (case insert_at insertIndex (rte_starting_eid N entry, physAddr, ty) rt of
                            None \<Rightarrow> None
                          | Some rt' \<Rightarrow>
                              read_entries L N owner e physAddr resp n nextOffset rt' (insertIndex + 1))
                    else read_entries L N owner e physAddr resp n nextOffset rt insertIndex)))"

text \<open>
  The loop of \<open>readRoutingTable\<close> over the responses of one EID. \<open>busOwnerEid\<close> is read after
  each exchange.
\<close>

function readRoutingTable_loop ::
    "libmctp \<Rightarrow> nupcie \<Rightarrow> 'a pcie_scheme exchange \<Rightarrow> byte list \<Rightarrow> eid \<Rightarrow> u16 \<Rightarrow> byte \<Rightarrow> byte \<Rightarrow> nat
     \<Rightarrow> rt_entry list \<Rightarrow> called_bridge list \<Rightarrow> 'a pcie_scheme
     \<Rightarrow> (rt_entry list \<times> called_bridge list) option \<times> 'a pcie_scheme" where
  "readRoutingTable_loop L N X prvData e physAddr entryHandle responseCount insertIndex rt calledBridges b =
     (if entryHandle = 0xff \<or> responseCount = 0xff then (Some (rt, calledBridges), b)
      else (let called' = calledBridges @ [(e, physAddr)] in
            case getRoutingTableCtrlCmd L X prvData e entryHandle b of
              (None, b') \<Rightarrow> (Some (rt, called'), b')
            | (Some resp, b') \<Rightarrow>
                (case read_entries L N (busOwnerEid b') e physAddr resp
                        (unat (rt_number_of_entries L resp)) (sizeof_routing_table L) rt insertIndex of
                   None \<Rightarrow> (None, b')
                 | Some (rt', insertIndex') \<Rightarrow>
                     readRoutingTable_loop L N X prvData e physAddr (rt_next_entry_handle N resp)
                       (responseCount + 1) insertIndex' rt' called' b')))"
  by pat_completeness auto

termination readRoutingTable_loop
proof (relation "measure (\<lambda>(L, N, X, prv, e, p, h, c, i, rt, cb, b). 255 - unat c)", goal_cases)
  case (2 L N X prv e p h c i rt cb b)
  have "c < 255"
  proof -
    have "unat c \<noteq> 255" using 2 by (auto simp: word_unat_eq_iff)
    then show ?thesis using byte_less [of c] by (simp add: word_less_nat_alt)
  qed
  then show ?case using byte_measure by simp
qed simp

declare readRoutingTable_loop.simps [simp del]

definition readRoutingTable ::
    "libmctp \<Rightarrow> nupcie \<Rightarrow> 'a pcie_scheme exchange \<Rightarrow> byte list \<Rightarrow> eid \<Rightarrow> u16 \<Rightarrow> nat
     \<Rightarrow> rt_entry list \<Rightarrow> called_bridge list \<Rightarrow> 'a pcie_scheme
     \<Rightarrow> (rt_entry list \<times> called_bridge list) option \<times> 'a pcie_scheme" where
  "readRoutingTable L N X prvData e physAddr entryIndex rt calledBridges b =
     readRoutingTable_loop L N X prvData e physAddr 0x00 0 (entryIndex + 1) rt calledBridges b"

text \<open>The loop over the entries of the old table, from position \<open>entryIndex\<close> on.\<close>

fun processBridge_loop ::
    "libmctp \<Rightarrow> nupcie \<Rightarrow> 'a pcie_scheme exchange \<Rightarrow> rt_entry list \<Rightarrow> nat
     \<Rightarrow> rt_entry list \<Rightarrow> called_bridge list \<Rightarrow> 'a pcie_scheme
     \<Rightarrow> (rt_entry list \<times> called_bridge list) option \<times> 'a pcie_scheme" where
  "processBridge_loop L N X [] entryIndex rtCopy calledBridges b = (Some (rtCopy, calledBridges), b)"
| "processBridge_loop L N X (entry # rest) entryIndex rtCopy calledBridges b =
     (if \<not> isEntryBridge N entry \<or> isBridgeCalled entry calledBridges
      then processBridge_loop L N X rest (entryIndex + 1) rtCopy calledBridges b
      else (let prvData = mk_private N (PCIE_ROUTE_BY_ID N) (fst (snd entry)) in
            case readRoutingTable L N X prvData (fst entry) (fst (snd entry)) entryIndex rtCopy calledBridges b of
              (None, b') \<Rightarrow> (None, b')
            | (Some (rtCopy', called'), b') \<Rightarrow>
                processBridge_loop L N X rest (entryIndex + 1) rtCopy' called' b'))"

definition processBridgeEntries ::
    "libmctp \<Rightarrow> nupcie \<Rightarrow> 'a pcie_scheme exchange \<Rightarrow> rt_entry list \<Rightarrow> called_bridge list \<Rightarrow> 'a pcie_scheme
     \<Rightarrow> (rt_entry list \<times> called_bridge list) option \<times> 'a pcie_scheme" where
  "processBridgeEntries L N X rt calledBridges b = processBridge_loop L N X rt 0 rt calledBridges b"

subsection \<open>Every round calls a new bridge\<close>

lemma loop_calls:
  "readRoutingTable_loop L N X prv e p h c i rt cb b = (Some (rt', cb'), b') \<Longrightarrow>
     set cb' = (if h = 0xff \<or> c = 0xff then set cb else insert (e, p) (set cb))"
proof (induction L N X prv e p h c i rt cb b arbitrary: rt' cb' b' rule: readRoutingTable_loop.induct)
  case (1 L N X prv e p h c i rt cb b)
  show ?case
  proof (cases "h = 0xff \<or> c = 0xff")
    case True
    then show ?thesis using 1(2) by (subst (asm) readRoutingTable_loop.simps) auto
  next
    case go: False
    obtain r b1 where x: "getRoutingTableCtrlCmd L X prv e h b = (r, b1)" by force
    show ?thesis
    proof (cases r)
      case None
      then show ?thesis using 1(2) go by (subst (asm) readRoutingTable_loop.simps) (auto simp: x)
    next
      case (Some resp)
      obtain rt1 i1 where s: "read_entries L N (busOwnerEid b1) e p resp (unat (rt_number_of_entries L resp))
          (sizeof_routing_table L) rt i = Some (rt1, i1)"
        using 1(2) go Some by (subst (asm) readRoutingTable_loop.simps) (auto simp: x split: option.splits)
      have "readRoutingTable_loop L N X prv e p (rt_next_entry_handle N resp) (c + 1) i1 rt1 (cb @ [(e, p)]) b1
          = (Some (rt', cb'), b')"
        using 1(2) go Some s by (subst (asm) readRoutingTable_loop.simps) (auto simp: x)
      from 1(1) [OF go refl x [symmetric] Some s refl this] show ?thesis using go by auto
    qed
  qed
qed

lemma readRoutingTable_calls:
  "readRoutingTable L N X prv e p k rt cb b = (Some (rt', cb'), b') \<Longrightarrow> set cb' = insert (e, p) (set cb)"
  unfolding readRoutingTable_def using loop_calls by fastforce

lemma isBridgeCalled_iff: "isBridgeCalled entry cb \<longleftrightarrow> (fst entry, fst (snd entry)) \<in> set cb"
  by (auto simp: isBridgeCalled_def)

lemma processBridge_calls:
  "processBridge_loop L N X es k rtc cb b = (Some (rt', cb'), b') \<Longrightarrow>
     set cb \<subseteq> set cb' \<and> (\<forall>entry \<in> set es. isEntryBridge N entry \<longrightarrow> isBridgeCalled entry cb')"
proof (induction es arbitrary: k rtc cb b)
  case (Cons entry es)
  show ?case
  proof (cases "\<not> isEntryBridge N entry \<or> isBridgeCalled entry cb")
    case True
    then show ?thesis using Cons.IH [of "k + 1" rtc cb b] Cons.prems by (auto simp: isBridgeCalled_iff)
  next
    case False
    obtain r b1 where r: "readRoutingTable L N X (mk_private N (PCIE_ROUTE_BY_ID N) (fst (snd entry)))
        (fst entry) (fst (snd entry)) k rtc cb b = (r, b1)" by force
    obtain rt1 cb1 where s: "r = Some (rt1, cb1)"
      using Cons.prems False r by (cases r) auto
    have "set cb1 = insert (fst entry, fst (snd entry)) (set cb)"
      using readRoutingTable_calls r s by blast
    then show ?thesis
      using Cons.IH [of "k + 1" rt1 cb1 b1] Cons.prems False r s by (auto simp: isBridgeCalled_iff)
  qed
qed simp

text \<open>
  The loop of the coroutine in \<open>updateRoutingTable\<close> ends: every round asks a bridge that
  has not been asked before, and there are finitely many pairs of EID and address.
\<close>

function update_loop ::
    "libmctp \<Rightarrow> nupcie \<Rightarrow> 'a pcie_scheme exchange \<Rightarrow> rt_entry list \<Rightarrow> called_bridge list \<Rightarrow> 'a pcie_scheme
     \<Rightarrow> (rt_entry list \<times> called_bridge list) option \<times> 'a pcie_scheme" where
  "update_loop L N X rt calledBridges b =
     (if allBridgesCalled N rt calledBridges then (Some (rt, calledBridges), b)
      else (case processBridgeEntries L N X rt calledBridges b of
              (None, b') \<Rightarrow> (None, b')
            | (Some (rt', called'), b') \<Rightarrow> update_loop L N X rt' called' b'))"
  by pat_completeness auto

lemma round_calls_new:
  assumes "\<not> allBridgesCalled N rt cb"
    and "processBridgeEntries L N X rt cb b = (Some (rt', cb'), b')"
  shows "set cb \<subset> set cb'"
proof -
  obtain entry where "entry \<in> set rt" "isEntryBridge N entry" "\<not> isBridgeCalled entry cb"
    using assms(1) by (auto simp: allBridgesCalled_def)
  then show ?thesis
    using processBridge_calls assms(2) unfolding processBridgeEntries_def isBridgeCalled_iff by blast
qed

termination update_loop
proof (relation "measure (\<lambda>(L, N, X, rt, cb, b). card (UNIV - set cb))", goal_cases)
  case (2 L N X rt cb b x b' y rt' cb')
  then have "set cb \<subset> set cb'" using round_calls_new by metis
  then have "UNIV - set cb' \<subset> UNIV - set cb" by blast
  then show ?case by (simp add: psubset_card_mono)
qed simp

declare update_loop.simps [simp del]

section \<open>Changes of the routing table\<close>

fun register_new ::
    "libmctp \<Rightarrow> nupcie \<Rightarrow> 'a pcie_scheme exchange \<Rightarrow> byte list \<Rightarrow> rt_entry list
     \<Rightarrow> 'a pcie_scheme \<Rightarrow> 'a pcie_scheme" where
  "register_new L N X prvData [] b = b"
| "register_new L N X prvData (routingEntry # newTable) b =
     (if routingEntry \<notin> set (routingTable b) then
        (let remoteEid = fst routingEntry in
         if remoteEid = ownEid b then register_new L N X prvData newTable b
         else (let prvDataCopy = set_remote_id N (fst (snd routingEntry)) prvData;
                   (r, b') = registerEndpoint L X prvDataCopy remoteEid (getBindingMode N routingEntry b) b
               in register_new L N X prvData newTable b'))
      else register_new L N X prvData newTable b)"

definition processRoutingTableChanges ::
    "libmctp \<Rightarrow> nupcie \<Rightarrow> 'a pcie_scheme exchange \<Rightarrow> rt_entry list \<Rightarrow> byte list
     \<Rightarrow> 'a pcie_scheme \<Rightarrow> 'a pcie_scheme" where
  "processRoutingTableChanges L N X newTable prvData b =
     (let b1 = fold (\<lambda>routingEntry b. if routingEntry \<notin> set newTable
                                      then unregisterEndpoint (fst routingEntry) b else b)
                    (routingTable b) b
      in register_new L N X prvData newTable b1)"

text \<open>The coroutine that the expiry of the timer starts.\<close>

definition updateRoutingTable ::
    "libmctp \<Rightarrow> nupcie \<Rightarrow> 'a pcie_scheme exchange \<Rightarrow> 'a pcie_scheme \<Rightarrow> unit option \<times> 'a pcie_scheme" where
  "updateRoutingTable L N X b0 =
     (let b1 = b0\<lparr>routingTimer := getRoutingInterval b0\<rparr>
      in if discoveredFlag b1 \<noteq> Discovered then (Some (), b1)
         else (let prvData = mk_private N (PCIE_ROUTE_BY_ID N) (busOwnerBdf b1) in
               case readRoutingTable L N X prvData (busOwnerEid b1) (busOwnerBdf b1) 0 [] [] b1 of
                 (None, b2) \<Rightarrow> (None, b2)
               | (Some (rt, calledBridges), b2) \<Rightarrow>
                   (case update_loop L N X rt calledBridges b2 of
                      (None, b3) \<Rightarrow> (None, b3)
                    | (Some (routingTableTmp, _), b3) \<Rightarrow>
                        (if routingTableTmp \<noteq> routingTable b3
                         then (let b4 = processRoutingTableChanges L N X routingTableTmp prvData b3
                               in (Some (), b4\<lparr>routingTable := routingTableTmp\<rparr>))
                         else (Some (), b3)))))"

section \<open>Control handlers\<close>

definition pcie_isReceivedPrivateDataCorrect :: "nupcie \<Rightarrow> byte list \<Rightarrow> 'a pcie_scheme \<Rightarrow> bool" where
  "pcie_isReceivedPrivateDataCorrect N bindingPrivate b \<longleftrightarrow>
     \<not> (bindingPrivate = [] \<or> remote_id_of N bindingPrivate = 0x00)"

definition success_response :: "libmctp \<Rightarrow> nat \<Rightarrow> byte list" where
  "success_response L n = (replicate n 0)[completionCodeIndex := CC_SUCCESS L]"

definition pcie_handlePrepareForEndpointDiscovery :: "libmctp \<Rightarrow> nupcie \<Rightarrow> 'a pcie_scheme handler" where
  "pcie_handlePrepareForEndpointDiscovery L N destEid bindingPrivate request b =
     (if bindingModeType b \<noteq> Endpoint then (Silent, b)
      else if routing_of N bindingPrivate \<noteq> PCIE_BROADCAST_FROM_RC N then (Silent, b)
      else (Reply (success_response L (sizeof_prepare_discovery N))
              (set_routing N (PCIE_ROUTE_TO_RC N) bindingPrivate),
            changeDiscoveredFlag Undiscovered b))"

definition pcie_handleEndpointDiscovery :: "libmctp \<Rightarrow> nupcie \<Rightarrow> 'a pcie_scheme handler" where
  "pcie_handleEndpointDiscovery L N destEid bindingPrivate request b =
     (if discoveredFlag b = Discovered then (Silent, b)
      else if routing_of N bindingPrivate \<noteq> PCIE_BROADCAST_FROM_RC N then (Silent, b)
      else (Reply (success_response L (sizeof_endpoint_discovery N))
              (set_routing N (PCIE_ROUTE_TO_RC N) bindingPrivate),
            b\<lparr>busOwnerBdf := remote_id_of N bindingPrivate\<rparr>))"

text \<open>A default handler followed by setting the routing of the answer.\<close>

definition route_by_id :: "nupcie \<Rightarrow> 'a pcie_scheme handler \<Rightarrow> 'a pcie_scheme handler" where
  "route_by_id N handler destEid bindingPrivate request b =
     (case handler destEid bindingPrivate request b of
        (Reply resp priv, b') \<Rightarrow> (Reply resp (set_routing N (PCIE_ROUTE_BY_ID N) priv), b')
      | r \<Rightarrow> r)"

definition pcie_handleGetEndpointId :: "libmctp \<Rightarrow> nupcie \<Rightarrow> 'a pcie_scheme handler" where
  "pcie_handleGetEndpointId L N = route_by_id N (base_handleGetEndpointId L)"

definition pcie_handleGetVersionSupport :: "libmctp \<Rightarrow> nupcie \<Rightarrow> 'a pcie_scheme handler" where
  "pcie_handleGetVersionSupport L N = route_by_id N (base_handleGetVersionSupport L)"

definition pcie_handleGetMsgTypeSupport :: "libmctp \<Rightarrow> nupcie \<Rightarrow> 'a pcie_scheme handler" where
  "pcie_handleGetMsgTypeSupport L N = route_by_id N (base_handleGetMsgTypeSupport L)"

definition pcie_handleSetEndpointId :: "libmctp \<Rightarrow> nupcie \<Rightarrow> 'a pcie_scheme handler" where
  "pcie_handleSetEndpointId L N destEid bindingPrivate request b =
     (if remote_id_of N bindingPrivate \<noteq> busOwnerBdf b then (Silent, b)
      else (case base_handleSetEndpointId L destEid bindingPrivate request b of
              (Reply resp0 priv, b') \<Rightarrow>
                (let resp = resize (sizeof_set_eid L) resp0;
                     b'' = (if resp ! completionCodeIndex = CC_SUCCESS L
                            then changeDiscoveredFlag Discovered b' else b')
                 in (Reply resp (set_routing N (PCIE_ROUTE_BY_ID N) priv), b''))
            | r \<Rightarrow> r))"

definition vendorIdNoMoreSets :: byte where
  "vendorIdNoMoreSets = 0xff"

definition pcie_handleGetVdmSupport :: "nupcie \<Rightarrow> 'a pcie_scheme handler" where
  "pcie_handleGetVdmSupport N destEid bindingPrivate request b =
     (case lib_get_vdm_support N destEid of
        None \<Rightarrow> (Silent, b)
      | Some resp \<Rightarrow>
          (let priv = set_routing N (PCIE_ROUTE_TO_RC N) bindingPrivate in
           if length request \<le> 3 then (ReadPastEnd, b)
           else (let setIndex = unat (request ! 3) in
                 if setIndex + 1 > length (vdmSetDatabase b)
                 then (Reply (take 4 (resp[completionCodeIndex := CC_ERROR_UNSUPPORTED_CMD N])) priv, b)
                 else (let sel = (if setIndex + 1 = length (vdmSetDatabase b) then vendorIdNoMoreSets
                                  else of_nat (setIndex + 1))
                       in (Reply (vdm_response N resp sel (vdmSetDatabase b ! setIndex)) priv, b)))))"

definition pcie_getBindingPrivateData ::
    "nupcie \<Rightarrow> eid \<Rightarrow> 'a pcie_scheme \<Rightarrow> byte list option \<times> 'a pcie_scheme" where
  "pcie_getBindingPrivateData N dstEid b =
     (case map_of (map (\<lambda>(e, physAddr, ty). (e, physAddr)) (routingTable b)) dstEid of
        None \<Rightarrow> (None, b)
      | Some endpointBdf \<Rightarrow> (Some (mk_private N (PCIE_ROUTE_BY_ID N) endpointBdf), b))"

definition pcie_binding :: "libmctp \<Rightarrow> nupcie \<Rightarrow> 'a pcie_scheme virtual" where
  "pcie_binding L N = (base_binding L)\<lparr>
     isReceivedPrivateDataCorrect := pcie_isReceivedPrivateDataCorrect N,
     getBindingPrivateData := pcie_getBindingPrivateData N,
     handlePrepareForEndpointDiscovery := pcie_handlePrepareForEndpointDiscovery L N,
     handleEndpointDiscovery := pcie_handleEndpointDiscovery L N,
     handleGetEndpointId := pcie_handleGetEndpointId L N,
     handleSetEndpointId := pcie_handleSetEndpointId L N,
     handleGetVersionSupport := pcie_handleGetVersionSupport L N,
     handleGetMsgTypeSupport := pcie_handleGetMsgTypeSupport L N,
     handleGetVdmSupport := pcie_handleGetVdmSupport N\<rparr>"

text \<open>The parameter \<open>ready\<close> makes no difference.\<close>

definition deviceReadyNotify :: "bool \<Rightarrow> 'a pcie_scheme \<Rightarrow> 'a pcie_scheme" where
  "deviceReadyNotify ready b0 =
     (let b1 = (if ready then b0\<lparr>bdf := 0\<rparr> else b0);
          b2 = b1\<lparr>bdf := 0\<rparr>
      in if bindingModeType b2 \<noteq> BusOwner then changeDiscoveredFlag Undiscovered b2 else b2)"

definition endpointDiscoveryFlow ::
    "libmctp \<Rightarrow> nupcie \<Rightarrow> 'a pcie_scheme exchange \<Rightarrow> 'a pcie_scheme \<Rightarrow> bool \<times> 'a pcie_scheme" where
  "endpointDiscoveryFlow L N X b =
     (let prvData = mk_private N (PCIE_ROUTE_TO_RC N) (bdf b)
      in discoveryNotifyCtrlCmd L X prvData (EID_NULL L) (changeDiscoveredFlag Undiscovered b))"

end
