(* ===== verification/Pcie_Props.thy ===== *)
theory Pcie_Props
  imports Pcie_Binding
begin

text \<open>
  Properties of the PCIe binding: every bridge of the routing table is asked for its own table;
  a table is read, up to the finding about short addresses, within the response; the discovery state; the removal of
  endpoints; the enumeration of vendor defined messages from the requester to the responder.
\<close>

unbundle bit_operations_syntax

text \<open>The struct layouts of DSP0236 and DSP0238 for concrete runs.\<close>

definition dsp_pcie :: nupcie where
  "dsp_pcie = \<lparr>PCIE_ROUTE_TO_RC = 0, PCIE_ROUTE_BY_ID = 2, PCIE_BROADCAST_FROM_RC = 3,
     mk_private = (\<lambda>r a. [r, ucast a, ucast (drop_bit 8 a)]),
     routing_of = (\<lambda>p. p ! 0), remote_id_of = (\<lambda>p. read16 p 1),
     set_routing = (\<lambda>r p. p[0 := r]),
     set_remote_id = (\<lambda>a p. [p ! 0, ucast a, ucast (drop_bit 8 a)]),
     BINDING_PCIE = 2, ENTRY_BRIDGE_AND_ENDPOINTS = 1, ENTRY_BRIDGE = 2, ENTRY_ENDPOINTS = 3,
     get_entry_type = (\<lambda>t. drop_bit 6 t),
     set_entry_type = (\<lambda>t v. (t AND 0x3f) OR push_bit 6 v),
     rte_starting_eid = (\<lambda>r. r ! 1), rte_eid_range_size = (\<lambda>r. r ! 0), rte_entry_type = (\<lambda>r. r ! 2),
     rte_binding_id = (\<lambda>r. r ! 3), rt_next_entry_handle = (\<lambda>r. r ! 4),
     sizeof_prepare_discovery = 4, sizeof_endpoint_discovery = 4,
     lib_get_vdm_support = (\<lambda>e. Some [0, 0, 0, 0, 0, 0, 0, 0, 0, 0]),
     vdm_response = (\<lambda>r sel d. [0, 0, 0, 0, sel, vendorIdFormat d, ucast (vendorId d),
        ucast (drop_bit 8 (vendorId d)), ucast (commandSetType d), ucast (drop_bit 8 (commandSetType d))]),
     CC_ERROR_UNSUPPORTED_CMD = 5\<rparr>"

lemma dsp_pcie_simps [simp]:
  "BINDING_PCIE dsp_pcie = 2" "ENTRY_BRIDGE_AND_ENDPOINTS dsp_pcie = 1" "ENTRY_BRIDGE dsp_pcie = 2"
  "ENTRY_ENDPOINTS dsp_pcie = 3" "get_entry_type dsp_pcie t = drop_bit 6 t"
  "set_entry_type dsp_pcie t v = (t AND 0x3f) OR push_bit 6 v"
  "rte_starting_eid dsp_pcie r = r ! 1" "rte_eid_range_size dsp_pcie r = r ! 0"
  "rte_entry_type dsp_pcie r = r ! 2" "rte_binding_id dsp_pcie r = r ! 3"
  "rt_next_entry_handle dsp_pcie r = r ! 4"
  "lib_get_vdm_support dsp_pcie e = Some [0, 0, 0, 0, 0, 0, 0, 0, 0, 0]"
  "vdm_response dsp_pcie r sel d = [0, 0, 0, 0, sel, vendorIdFormat d, ucast (vendorId d),
     ucast (drop_bit 8 (vendorId d)), ucast (commandSetType d), ucast (drop_bit 8 (commandSetType d))]"
  by (simp_all add: dsp_pcie_def)

section \<open>The routing table\<close>

lemma update_loop_result:
  "update_loop L N X rt cb b = (Some (rt', cb'), b') \<Longrightarrow> allBridgesCalled N rt' cb' \<and> set cb \<subseteq> set cb'"
proof (induction L N X rt cb b arbitrary: rt' cb' b' rule: update_loop.induct)
  case (1 L N X rt cb b)
  show ?case
  proof (cases "allBridgesCalled N rt cb")
    case True
    then show ?thesis using 1(2) by (subst (asm) update_loop.simps) auto
  next
    case False
    obtain r b1 where r: "processBridgeEntries L N X rt cb b = (r, b1)" by force
    obtain rt1 cb1 where s: "r = Some (rt1, cb1)"
      using 1(2) False r by (subst (asm) update_loop.simps) (auto split: option.splits)
    have "update_loop L N X rt1 cb1 b1 = (Some (rt', cb'), b')"
      using 1(2) False r s by (subst (asm) update_loop.simps) auto
    from 1(1) [OF False r [symmetric] s refl this] show ?thesis
      using round_calls_new [OF False] r s by blast
  qed
qed

definition test_network :: "'s exchange" where
  "test_network priv dest req s =
     ((receivedResponse,
       (if dest = 0x10 then [0, req ! 1, 0x0a, 0, 0xff, 2,
          1, 0x20, 0x80, 2, 0, 2, 0x01, 0x00,  1, 0x21, 0x00, 2, 0, 2, 0x02, 0x00]
        else [0, req ! 1, 0x0a, 0, 0xff, 1,  1, 0x30, 0x00, 2, 0, 2, 0x00, 0x03])), s)"

definition test_pcie :: pcie where
  "test_pcie = (PCIeBinding_ctor dsp0236 (test_conf\<lparr>conf_mode := Endpoint\<rparr>) 0x0300 5)
     \<lparr>busOwnerEid := 0x10, busOwnerBdf := 0x0100, discoveredFlag := Discovered\<rparr>"

text \<open>The PCIe entries of a response all have an address of two bytes or more.\<close>

fun long_addresses :: "libmctp \<Rightarrow> nupcie \<Rightarrow> byte list \<Rightarrow> nat \<Rightarrow> nat \<Rightarrow> bool" where
  "long_addresses L N resp 0 off = True"
| "long_addresses L N resp (Suc n) off =
     (let entry = drop off resp;
          next = off + sizeof_routing_entry L + unat (rte_phys_address_size L entry)
      in (rte_binding_id N entry = BINDING_PCIE N \<longrightarrow> 2 \<le> unat (rte_phys_address_size L entry)) \<and>
         long_addresses L N resp n next)"

lemma insert_at_length: "insert_at i x xs = Some ys \<Longrightarrow> length ys = length xs + 1"
  by (auto simp: insert_at_def split: if_splits)

lemma entries_end_le: "routing_entries_end L resp n off = Some m \<Longrightarrow> off \<le> length resp \<Longrightarrow> m \<le> length resp"
  by (induction L resp n off rule: routing_entries_end.induct) (auto simp: Let_def split: if_splits)

lemma read_entries_safe:
  assumes "routing_entries_end L resp n off \<noteq> None" "long_addresses L N resp n off" "i \<le> length rt"
  shows "read_entries L N owner e p resp n off rt i \<noteq> None"
  using assms
proof (induction n arbitrary: off rt i)
  case (Suc n)
  let ?entry = "drop off resp"
  let ?addr = "off + sizeof_routing_entry L"
  let ?next = "?addr + unat (rte_phys_address_size L ?entry)"
  have fit: "?next \<le> length resp" "routing_entries_end L resp n ?next \<noteq> None"
    using Suc.prems(1) by (auto simp: Let_def split: if_splits)
  have long: "long_addresses L N resp n ?next"
    "rte_binding_id N ?entry = BINDING_PCIE N \<Longrightarrow> 2 \<le> unat (rte_phys_address_size L ?entry)"
    using Suc.prems(2) by (simp_all add: Let_def)
  have IH: "read_entries L N owner e p resp n ?next rt' i' \<noteq> None" if "i' \<le> length rt'" for rt' i'
    using Suc.IH [OF fit(2) long(1) that] .
  show ?case
  proof (cases "rte_binding_id N ?entry = BINDING_PCIE N")
    case False
    then show ?thesis using IH Suc.prems(3) by (simp add: Let_def)
  next
    case True
    then have "?addr + 1 < length resp" using fit(1) long(2) by simp
    then obtain a where a: "getRoutingEntryPhysAddr resp ?addr = Some a"
      by (simp add: getRoutingEntryPhysAddr_def)
    obtain rt1 where ins: "insert_at i (rte_starting_eid N ?entry, p, rte_entry_type N ?entry) rt = Some rt1"
      using Suc.prems(3) by (simp add: insert_at_def)
    then have "i + 1 \<le> length rt1" using Suc.prems(3) insert_at_length by fastforce
    moreover have "i \<le> length (rt @ [x])" for x using Suc.prems(3) by simp
    ultimately show ?thesis
      using True a ins IH Suc.prems(3) by (cases "e = owner") (simp_all add: Let_def del: not_None_eq)
  qed
qed simp

text \<open>
  A routing table that \<open>getRoutingTableCtrlCmd\<close> has accepted is parsed within its bytes,
  provided that every PCIe entry in it has a physical address of at least two bytes, and
  entries are inserted within the table.
\<close>

lemma accepted_table_is_read_safely:
  assumes "routing_response_ok L resp"
    and "long_addresses L N resp (unat (rt_number_of_entries L resp)) (sizeof_routing_table L)"
    and "insertIndex \<le> length rt"
  shows "read_entries L N owner e physAddr resp (unat (rt_number_of_entries L resp))
     (sizeof_routing_table L) rt insertIndex \<noteq> None"
  using assms by (intro read_entries_safe) (simp_all add: routing_response_ok_def)

theorem accepted_table_is_read_safely_witness:
  "read_entries dsp0236 dsp_pcie 0x10 0x10 0 [0, 1, 0x0a, 0, 0xff, 1, 1, 0x21, 0x00, 2, 0, 2, 0x02, 0x00] 1 6 [] 0
     \<noteq> None"
proof -
  let ?r = "[0, 1, 0x0a, 0, 0xff, 1, 1, 0x21, 0x00, 2, 0, 2, 0x02, 0x00] :: byte list"
  have n: "unat (rt_number_of_entries dsp0236 ?r) = 1" by code_simp
  have "routing_response_ok dsp0236 ?r" by code_simp
  moreover have "long_addresses dsp0236 dsp_pcie ?r (unat (rt_number_of_entries dsp0236 ?r))
      (sizeof_routing_table dsp0236)" by code_simp
  ultimately show ?thesis
    using accepted_table_is_read_safely [where L = dsp0236 and resp = ?r and N = dsp_pcie and insertIndex = 0
        and rt = "[]" and owner = "0x10" and e = "0x10" and physAddr = 0] unfolding n by simp
qed

text \<open>
  The check of the response does not ask for two address bytes: a table whose last PCIe
  entry has an address of one byte is accepted and then read one byte past its end.
\<close>

lemma short_address_is_read_past_end:
  "let resp = [0, 1, 0x0a, 0, 0xff, 1, 1, 0x21, 0x00, 2, 0, 1, 0x02]
   in routing_response_ok dsp0236 resp \<and>
      read_entries dsp0236 dsp_pcie 0x10 0x10 0 resp (unat (rt_number_of_entries dsp0236 resp)) 6 [] 0 = None"
  by code_simp

text \<open>The bytes of one entry of a table with a PCIe address.\<close>

definition put_entry :: "rt_entry \<Rightarrow> byte list" where
  "put_entry r = [1, fst r, snd (snd r), 2, 0, 2, ucast (drop_bit 8 (fst (snd r))), ucast (fst (snd r))]"

text \<open>What the bus owner's entry becomes: ranges are dropped, a bridge with endpoints is a bridge.\<close>

definition owner_entry :: "rt_entry \<Rightarrow> rt_entry list" where
  "owner_entry r =
     (if drop_bit 6 (snd (snd r)) = 1 then [(fst r, fst (snd r), (snd (snd r) AND 0x3f) OR 0x80)]
      else if drop_bit 6 (snd (snd r)) = 3 then [] else [r])"

lemma swap_back: "byte_swap16 (le16 (ucast (drop_bit 8 a)) (ucast a)) = a"
proof -
  have l: "ucast (ucast a :: byte) = take_bit 8 a" for a :: u16
    by (rule bit_word_eqI) (auto simp: bit_ucast_iff bit_take_bit_iff)
  let ?w = "take_bit 8 (drop_bit 8 a) + push_bit 8 (take_bit 8 a)"
  have or1: "?w = take_bit 8 (drop_bit 8 a) OR push_bit 8 (take_bit 8 a)"
    by (rule disjunctive_add) (auto simp: bit_drop_bit_eq bit_push_bit_iff bit_take_bit_iff dest: bit_imp_le_length)
  have or2: "push_bit 8 ?w + drop_bit 8 ?w = push_bit 8 ?w OR drop_bit 8 ?w"
    by (rule disjunctive_add)
      (auto simp: or1 bit_or_iff bit_drop_bit_eq bit_push_bit_iff bit_take_bit_iff dest: bit_imp_le_length)
  show ?thesis
    unfolding byte_swap16_def le16_def l or2
    by (rule bit_word_eqI)
      (auto simp: or1 bit_or_iff bit_drop_bit_eq bit_push_bit_iff bit_take_bit_iff dest: bit_imp_le_length)
qed

lemma read_owner_entries:
  "length pre = off \<Longrightarrow>
   read_entries dsp0236 dsp_pcie e e p (pre @ concat (map put_entry es)) (length es) off rt i =
     Some (rt @ concat (map owner_entry es), i)"
proof (induction es arbitrary: pre off rt)
  case (Cons r es)
  obtain x a ty where r: "r = (x, a, ty)" by (cases r)
  let ?resp = "pre @ concat (map put_entry (r # es))"
  have d: "drop off ?resp = put_entry r @ concat (map put_entry es)" using Cons.prems by simp
  have len: "length (put_entry r) = 8" by (simp add: put_entry_def)
  have sz: "unat (rte_phys_address_size dsp0236 (drop off ?resp)) = 2"
    unfolding d by (simp add: put_entry_def dsp0236_def)
  have phys: "getRoutingEntryPhysAddr ?resp (off + 6) = Some a"
  proof -
    have "?resp ! (off + 6) = put_entry r ! 6" "?resp ! Suc (off + 6) = put_entry r ! 7"
      using Cons.prems len by (simp_all add: nth_append)
    then show ?thesis
      using Cons.prems by (simp add: getRoutingEntryPhysAddr_def read16_def put_entry_def r swap_back)
  qed
  have IH: "read_entries dsp0236 dsp_pcie e e p ?resp (length es) (off + 6 + 2) rt' i =
      Some (rt' @ concat (map owner_entry es), i)" for rt'
    using Cons.IH [of "pre @ put_entry r" "off + 6 + 2" rt'] Cons.prems len by simp
  have "read_entries dsp0236 dsp_pcie e e p ?resp (Suc (length es)) off rt i =
      Some (rt @ concat (map owner_entry (r # es)), i)"
    unfolding read_entries.simps Let_def dsp0236_simps sz IH phys
    unfolding d by (simp add: put_entry_def r owner_entry_def)
  then show ?case by simp
qed simp

text \<open>
  The bus owner's routing table is read back exactly: from a response with any number of
  PCIe entries the table gets, in order, the EID, address and type of every entry, except
  that ranges of endpoints are left out and a bridge with endpoints becomes a bridge.
\<close>

lemma owner_table_roundtrip:
  assumes "length hdr = 6"
  shows "read_entries dsp0236 dsp_pcie owner owner physAddr (hdr @ concat (map put_entry es)) (length es) 6 rt i =
     Some (rt @ concat (map owner_entry es), i)"
  using assms by (rule read_owner_entries)

theorem owner_table_roundtrip_witness:
  "let es = [(0x20, 0x0300, 0x40), (0x21, 0x0408, 0x00)]
   in read_entries dsp0236 dsp_pcie 0x10 0x10 0 ([0, 1, 0x0a, 0, 0xff, 2] @ concat (map put_entry es))
        (length es) 6 [] 0 = Some ([(0x20, 0x0300, 0x80), (0x21, 0x0408, 0x00)], 0)"
proof -
  let ?es = "[(0x20, 0x0300, 0x40), (0x21, 0x0408, 0x00)] :: rt_entry list"
  have "concat (map owner_entry ?es) = [(0x20, 0x0300, 0x80), (0x21, 0x0408, 0x00)]"
    by (simp add: owner_entry_def)
  moreover have "length [0, 1, 0x0a, 0, 0xff, 2 :: byte] = 6" by simp
  ultimately show ?thesis
    unfolding Let_def by (subst owner_table_roundtrip) simp_all
qed

section \<open>Discovery\<close>

datatype pcie_event =
    Ctrl_Request eid "byte list" "byte list" bool byte
  | Device_Ready bool
  | Discovery_Flow
  | Routing_Timer

text \<open>
  The exchanges of a step are given by \<open>X\<close>; they do not touch the discovery state, since
  whatever changes it is a step of its own.
\<close>

fun pcie_step :: "libmctp \<Rightarrow> nupcie \<Rightarrow> pcie exchange \<Rightarrow> pcie \<Rightarrow> pcie_event \<Rightarrow> pcie" where
  "pcie_step L N X b (Ctrl_Request e priv req owner t) =
     snd (handleMCTPControlRequests L (pcie_binding L N) e (Some req) owner t priv b)"
| "pcie_step L N X b (Device_Ready ready) = deviceReadyNotify ready b"
| "pcie_step L N X b Discovery_Flow = snd (endpointDiscoveryFlow L N X b)"
| "pcie_step L N X b Routing_Timer = snd (updateRoutingTable L N X b)"

definition discovery_of :: "pcie \<Rightarrow> DiscoveryFlags \<times> u16" where
  "discovery_of b = (discoveredFlag b, busOwnerBdf b)"

lemma discovery_of_updates [simp]:
  "discovery_of (b\<lparr>replies := x1\<rparr>) = discovery_of b"
  "discovery_of (b\<lparr>instanceId := x2\<rparr>) = discovery_of b"
  "discovery_of (b\<lparr>routingTimer := x3\<rparr>) = discovery_of b"
  "discovery_of (b\<lparr>routingTable := x4\<rparr>) = discovery_of b"
  "discovery_of (b\<lparr>busOwnerEid := x5, ownEid := x6\<rparr>) = discovery_of b"
  "discovery_of (b\<lparr>bdf := x7\<rparr>) = discovery_of b"
  "discovery_of (changeDiscoveredFlag f b) = (f, busOwnerBdf b)"
  by (simp_all add: discovery_of_def changeDiscoveredFlag_def Let_def)

lemmas pcie_handlers = pcie_handlePrepareForEndpointDiscovery_def pcie_handleEndpointDiscovery_def
  pcie_handleGetEndpointId_def pcie_handleGetVersionSupport_def pcie_handleGetMsgTypeSupport_def
  pcie_handleGetVdmSupport_def route_by_id_def base_handleGetEndpointId_def
  base_handleGetVersionSupport_def base_handleGetMsgTypeSupport_def message_not_supported_def

lemma dispatch_discovery:
  assumes "dispatch L (pcie_binding L N) e priv req b = (r, b')"
  shows "discovery_of b' = discovery_of b \<or>
    discovery_of b' = (Undiscovered, busOwnerBdf b) \<or>
    (discoveredFlag b \<noteq> Discovered \<and> discovery_of b' = (discoveredFlag b, remote_id_of N priv) \<and>
       routing_of N priv = PCIE_BROADCAST_FROM_RC N) \<or>
    (discovery_of b' = (Discovered, busOwnerBdf b) \<and> req ! 2 = CMD_SET_ENDPOINT_ID L \<and>
       remote_id_of N priv = busOwnerBdf b \<and> bindingModeType b = Endpoint)"
  using assms
  by (auto simp: dispatch_def Let_def pcie_binding_def base_binding_def pcie_handlers
      pcie_handleSetEndpointId_def base_handleSetEndpointId_def discovery_of_def changeDiscoveredFlag_def
      split: if_splits option.splits)

lemma request_discovery:
  assumes "handleMCTPControlRequests L (pcie_binding L N) e (Some req) owner t priv b = (r, b')"
  shows "discovery_of b' = discovery_of b \<or>
    discovery_of b' = (Undiscovered, busOwnerBdf b) \<or>
    (discoveredFlag b \<noteq> Discovered \<and> discovery_of b' = (discoveredFlag b, remote_id_of N priv) \<and>
       routing_of N priv = PCIE_BROADCAST_FROM_RC N) \<or>
    (discovery_of b' = (Discovered, busOwnerBdf b) \<and> req ! 2 = CMD_SET_ENDPOINT_ID L \<and>
       remote_id_of N priv = busOwnerBdf b \<and> bindingModeType b = Endpoint \<and> owner)"
proof -
  obtain r1 b1 where d: "dispatch L (pcie_binding L N) e priv req b = (r1, b1)" by force
  have "addUnknownEIDToDeviceTable (pcie_binding L N) e priv b = b"
    by (simp add: pcie_binding_def base_binding_def)
  then have "handleMCTPControlRequests L (pcie_binding L N) e (Some req) owner t priv b =
      (if owner then handleCtrlReq L (pcie_binding L N) e priv (Some req) t b else (Silent, b))"
    by (simp add: handleMCTPControlRequests_def Let_def)
  then have "discovery_of b' = discovery_of b \<or> (discovery_of b' = discovery_of b1 \<and> owner)"
    using assms by (cases r1) (auto simp: handleCtrlReq_def d Let_def split: if_splits)
  then show ?thesis using dispatch_discovery [OF d] by metis
qed

text \<open>An invariant of registrations that the reading of routing tables keeps as well.\<close>

locale pcie_invariant = registry_invariant P for P :: "'a pcie_scheme \<Rightarrow> bool" +
  assumes P_timer: "P b \<Longrightarrow> P (b\<lparr>routingTimer := t\<rparr>)"
    and P_routing: "P b \<Longrightarrow> P (b\<lparr>routingTable := rt\<rparr>)"
begin

lemma P_getRoutingTable:
  "env_keeps P X \<Longrightarrow> P b \<Longrightarrow> getRoutingTableCtrlCmd L X prv e h b = (r, b') \<Longrightarrow> P b'"
  by (auto simp: getRoutingTableCtrlCmd_def split: prod.splits option.splits if_splits dest: P_exchange)

lemma P_read_loop:
  "env_keeps P X \<Longrightarrow> P b \<Longrightarrow> P (snd (readRoutingTable_loop L N X prv e p h c i rt cb b))"
proof (induction L N X prv e p h c i rt cb b rule: readRoutingTable_loop.induct)
  case (1 L N X prv e p h c i rt cb b)
  obtain r b1 where x: "getRoutingTableCtrlCmd L X prv e h b = (r, b1)" by force
  have b1: "P b1" using P_getRoutingTable [OF 1(2,3) x] .
  show ?case
  proof (cases "h = 0xff \<or> c = 0xff \<or> r = None")
    case True
    then show ?thesis using b1 1(3) by (subst readRoutingTable_loop.simps) (auto simp: x Let_def)
  next
    case False
    then obtain resp where r: "r = Some resp" and go: "\<not> (h = 0xff \<or> c = 0xff)" by blast
    show ?thesis
    proof (cases "read_entries L N (busOwnerEid b1) e p resp (unat (rt_number_of_entries L resp))
        (sizeof_routing_table L) rt i")
      case None
      then show ?thesis using b1 go r by (subst readRoutingTable_loop.simps) (simp add: x Let_def)
    next
      case (Some q)
      obtain rt1 i1 where q: "q = (rt1, i1)" by force
      from 1(1) [OF go refl x [symmetric] r Some q [symmetric] 1(2) b1] show ?thesis
        using go r Some q by (subst readRoutingTable_loop.simps) (simp add: x Let_def)
    qed
  qed
qed

lemma P_read: "env_keeps P X \<Longrightarrow> P b \<Longrightarrow> P (snd (readRoutingTable L N X prv e p k rt cb b))"
  unfolding readRoutingTable_def by (rule P_read_loop)

lemma P_bridges: "env_keeps P X \<Longrightarrow> P b \<Longrightarrow> P (snd (processBridge_loop L N X es k rtc cb b))"
proof (induction es arbitrary: k rtc cb b)
  case (Cons entry es)
  let ?r = "readRoutingTable L N X (mk_private N (PCIE_ROUTE_BY_ID N) (fst (snd entry)))
      (fst entry) (fst (snd entry)) k rtc cb b"
  have "P (snd ?r)" using Cons.prems by (rule P_read)
  then show ?case
    using Cons by (cases ?r; cases "fst ?r") (auto simp: Let_def)
qed simp

lemma P_update_loop: "env_keeps P X \<Longrightarrow> P b \<Longrightarrow> P (snd (update_loop L N X rt cb b))"
proof (induction L N X rt cb b rule: update_loop.induct)
  case (1 L N X rt cb b)
  let ?r = "processBridgeEntries L N X rt cb b"
  have "P (snd ?r)" unfolding processBridgeEntries_def using 1(2,3) by (rule P_bridges)
  then show ?case
    using 1 by (subst update_loop.simps) (auto split: prod.split option.split)
qed

lemma P_register_new: "env_keeps P X \<Longrightarrow> P b \<Longrightarrow> P (register_new L N X prv nt b)"
proof (induction nt arbitrary: b)
  case (Cons r nt)
  then show ?case
    using P_register [OF Cons.prems] by (auto simp: Let_def split: prod.split) (metis snd_conv)
qed simp

lemma P_removals:
  "P b \<Longrightarrow> P (fold (\<lambda>r b. if r \<notin> set nt then unregisterEndpoint (fst r) b else b) rs b)"
  by (induction rs arbitrary: b) (auto intro: P_unregister)

lemma P_updateRoutingTable:
  assumes X: "env_keeps P X" and b: "P b"
  shows "P (snd (updateRoutingTable L N X b))"
proof -
  let ?b1 = "b\<lparr>routingTimer := getRoutingInterval b\<rparr>"
  have b1: "P ?b1" using b by (rule P_timer)
  let ?prv = "mk_private N (PCIE_ROUTE_BY_ID N) (busOwnerBdf b)"
  obtain r2 b2 where 2: "readRoutingTable L N X ?prv (busOwnerEid b) (busOwnerBdf b) 0 [] [] ?b1 = (r2, b2)" by force
  have b2: "P b2" using P_read [OF X b1] 2 by (metis snd_conv)
  show ?thesis
  proof (cases "discoveredFlag b = Discovered \<and> r2 \<noteq> None")
    case False
    then show ?thesis using b1 b2 by (cases r2) (auto simp: updateRoutingTable_def Let_def 2)
  next
    case True
    then obtain rt cb where r2: "r2 = Some (rt, cb)" by auto
    obtain r3 b3 where 3: "update_loop L N X rt cb b2 = (r3, b3)" by force
    have b3: "P b3" using P_update_loop [OF X b2] 3 by (metis snd_conv)
    have "P (processRoutingTableChanges L N X nt ?prv b3)" for nt
      unfolding processRoutingTableChanges_def Let_def
      using X b3 by (intro P_register_new P_removals)
    then show ?thesis
      using b3 True r2 P_routing
      by (cases r3) (auto simp: updateRoutingTable_def Let_def 2 3 split: prod.split)
  qed
qed

end

section \<open>Every bridge is asked\<close>

text \<open>
  The requests that have been sent, the private data, the destination and the bytes of each, are
  kept behind the state of the binding. The network may do to the rest of the state what it likes,
  but it sends the requests it is given.
\<close>

type_synonym requests = "(byte list \<times> eid \<times> byte list) list"
type_synonym logged_pcie = "requests pcie_scheme"

definition logs_requests :: "logged_pcie exchange \<Rightarrow> bool" where
  "logs_requests X \<longleftrightarrow> (\<forall>priv e req b.
     insert (priv, e, req) (set (pcie.more b)) \<subseteq> set (pcie.more (snd (X priv e req b))))"

text \<open>The bridge was sent a Get Routing Table Entries request for the first entry, to its own
  address.\<close>

definition table_requested :: "libmctp \<Rightarrow> nupcie \<Rightarrow> logged_pcie \<Rightarrow> eid \<Rightarrow> u16 \<Rightarrow> bool" where
  "table_requested L N b e physAddr \<longleftrightarrow>
     (\<exists>rq. (mk_private N (PCIE_ROUTE_BY_ID N) physAddr, e,
        encode_cmd L (Get_Routing_Table_Entries 0) rq) \<in> set (pcie.more b))"

interpretation requested: pcie_invariant "\<lambda>b::logged_pcie. S \<subseteq> set (pcie.more b)"
  for S
  by unfold_locales
    (auto simp: unregisterEndpoint_def populateEndpointProperties_def Let_def
      split: prod.splits if_splits)

lemma logs_keep: "logs_requests X \<Longrightarrow> env_keeps (\<lambda>b. S \<subseteq> set (pcie.more b)) X"
  by (fastforce simp: logs_requests_def env_keeps_def)

lemma requested_mono:
  "table_requested L N b e p \<Longrightarrow> set (pcie.more b) \<subseteq> set (pcie.more b') \<Longrightarrow> table_requested L N b' e p"
  by (auto simp: table_requested_def)

lemma request_is_sent:
  assumes "logs_requests X"
    "getRoutingTableCtrlCmd L X (mk_private N (PCIE_ROUTE_BY_ID N) p) e 0 b = (r, b')"
  shows "table_requested L N b' e p"
proof -
  let ?prv = "mk_private N (PCIE_ROUTE_BY_ID N) p"
  obtain rq b1 where 1: "getFormattedReq L (Get_Routing_Table_Entries 0) b
      = ((True, encode_cmd L (Get_Routing_Table_Entries 0) rq), b1)"
    by (simp add: getFormattedReq_def case_prod_unfold Let_def)
  obtain st resp b2 where 2: "X ?prv e (encode_cmd L (Get_Routing_Table_Entries 0) rq) b1 = ((st, resp), b2)"
    by (metis surj_pair)
  have "b' = b2"
    using assms(2) by (auto simp: getRoutingTableCtrlCmd_def exchange_cmd_def 1 2 Let_def split: if_splits)
  moreover have "(?prv, e, encode_cmd L (Get_Routing_Table_Entries 0) rq) \<in> set (pcie.more b2)"
    using assms(1) 2 unfolding logs_requests_def by (metis insert_subset snd_conv)
  ultimately show ?thesis by (auto simp: table_requested_def)
qed

lemma readRoutingTable_requests:
  assumes X: "logs_requests X"
    and read: "readRoutingTable L N X (mk_private N (PCIE_ROUTE_BY_ID N) p) e p k rt cb b
      = (Some (rt', cb'), b')"
    and cb: "\<forall>(e, p) \<in> set cb. table_requested L N b e p"
  shows "\<forall>(e, p) \<in> set cb'. table_requested L N b' e p"
proof -
  let ?prv = "mk_private N (PCIE_ROUTE_BY_ID N) p"
  obtain r b1 where 1: "getRoutingTableCtrlCmd L X ?prv e 0 b = (r, b1)" by force
  have "set (pcie.more b1) \<subseteq> set (pcie.more b')"
  proof (cases r)
    case None
    with read 1 show ?thesis
      by (auto simp: readRoutingTable_def readRoutingTable_loop.simps [where entryHandle = 0])
  next
    case (Some resp)
    then obtain rt1 i1 where "read_entries L N (busOwnerEid b1) e p resp (unat (rt_number_of_entries L resp))
        (sizeof_routing_table L) rt (k + 1) = Some (rt1, i1)"
      using read 1 by (auto simp: readRoutingTable_def readRoutingTable_loop.simps [where entryHandle = 0]
          split: option.splits)
    with read 1 Some have "readRoutingTable_loop L N X ?prv e p (rt_next_entry_handle N resp) 1 i1 rt1
        (cb @ [(e, p)]) b1 = (Some (rt', cb'), b')"
      by (simp add: readRoutingTable_def readRoutingTable_loop.simps [where entryHandle = 0])
    then show ?thesis
      using requested.P_read_loop [OF logs_keep [OF X] subset_refl, of b1 L N ?prv e p
          "rt_next_entry_handle N resp" 1 i1 rt1 "cb @ [(e, p)]"] by simp
  qed
  then have "table_requested L N b' e p"
    using requested_mono request_is_sent [OF X 1] by blast
  moreover have "set (pcie.more b) \<subseteq> set (pcie.more b')"
    using requested.P_read [OF logs_keep [OF X] subset_refl, of b L N ?prv e p k rt cb] read by simp
  ultimately show ?thesis
    using cb readRoutingTable_calls [OF read] requested_mono by fastforce
qed

lemma processBridge_requests:
  assumes X: "logs_requests X"
  shows "processBridge_loop L N X es k rtc cb b = (Some (rt', cb'), b')
    \<Longrightarrow> \<forall>(e, p) \<in> set cb. table_requested L N b e p
    \<Longrightarrow> \<forall>(e, p) \<in> set cb'. table_requested L N b' e p"
proof (induction es arbitrary: k rtc cb b)
  case (Cons entry es)
  show ?case
  proof (cases "\<not> isEntryBridge N entry \<or> isBridgeCalled entry cb")
    case True
    with Cons show ?thesis by simp
  next
    case False
    obtain r b1 where r: "readRoutingTable L N X (mk_private N (PCIE_ROUTE_BY_ID N) (fst (snd entry)))
        (fst entry) (fst (snd entry)) k rtc cb b = (r, b1)" by force
    obtain rt1 cb1 where s: "r = Some (rt1, cb1)"
      using Cons.prems False r by (cases r) auto
    from readRoutingTable_requests [OF X r [unfolded s] Cons.prems(2)]
    show ?thesis using Cons.IH [of "k + 1" rt1 cb1 b1] Cons.prems(1) False r s by simp
  qed
qed simp

lemma update_loop_requests:
  assumes "logs_requests X"
  shows "update_loop L N X rt cb b = (Some (rt', cb'), b')
    \<Longrightarrow> \<forall>(e, p) \<in> set cb. table_requested L N b e p
    \<Longrightarrow> \<forall>(e, p) \<in> set cb'. table_requested L N b' e p"
  using assms
proof (induction L N X rt cb b rule: update_loop.induct)
  case (1 L N X rt cb b)
  show ?case
  proof (cases "allBridgesCalled N rt cb")
    case True
    then show ?thesis using 1(2,3) by (simp add: update_loop.simps)
  next
    case False
    obtain r b1 where r: "processBridgeEntries L N X rt cb b = (r, b1)" by force
    obtain rt1 cb1 where s: "r = Some (rt1, cb1)"
      using 1(2) False r by (auto simp: update_loop.simps [of L N X rt] split: option.splits)
    have "update_loop L N X rt1 cb1 b1 = (Some (rt', cb'), b')"
      using 1(2) False r s by (simp add: update_loop.simps [of L N X rt])
    moreover have "\<forall>(e, p) \<in> set cb1. table_requested L N b1 e p"
      using processBridge_requests [OF 1(4) _ 1(3)] r s by (simp add: processBridgeEntries_def)
    ultimately show ?thesis using 1(1) [OF False r [symmetric] s refl] 1(4) by blast
  qed
qed

text \<open>
  C6: When the expiry of the timer finds this endpoint discovered and the reading of the routing
  table comes to its end, the bus owner and every bridge in the table that is kept, also one that
  was found behind another bridge, have been sent a Get Routing Table Entries request for their
  first entry, at their own EID and address; whatever the network answers and whatever it does to
  the state in the meantime. The coroutine does come to its end: the loops over the bridges and over
  the handles of a table are terminating functions, and the other result is a read outside a
  response, which \<open>accepted\_table\_is\_read\_safely\<close> excludes for addresses of two bytes.
\<close>

theorem every_bridge_is_asked:
  assumes "logs_requests X" "discoveredFlag b = Discovered"
    and "updateRoutingTable L N X b = (Some (), b')"
  shows "table_requested L N b' (busOwnerEid b) (busOwnerBdf b)
    \<and> (\<forall>(e, physAddr, ty) \<in> set (routingTable b').
         isEntryBridge N (e, physAddr, ty) \<longrightarrow> table_requested L N b' e physAddr)"
proof -
  let ?b1 = "b\<lparr>routingTimer := getRoutingInterval b\<rparr>"
  let ?prv = "mk_private N (PCIE_ROUTE_BY_ID N) (busOwnerBdf b)"
  obtain rt cb b2 where 2: "readRoutingTable L N X ?prv (busOwnerEid b) (busOwnerBdf b) 0 [] [] ?b1
      = (Some (rt, cb), b2)"
    using assms(2,3) by (auto simp: updateRoutingTable_def Let_def split: prod.splits option.splits)
  obtain rt' cb' b3 where 3: "update_loop L N X rt cb b2 = (Some (rt', cb'), b3)"
    using assms(2,3) 2 by (auto simp: updateRoutingTable_def Let_def split: prod.splits option.splits)
  let ?b4 = "processRoutingTableChanges L N X rt' ?prv b3"
  have b': "b' = (if rt' \<noteq> routingTable b3 then ?b4\<lparr>routingTable := rt'\<rparr> else b3)"
    using assms(2,3) 2 3 by (simp add: updateRoutingTable_def Let_def split: if_splits)
  have "set (pcie.more b3) \<subseteq> set (pcie.more ?b4)"
    unfolding processRoutingTableChanges_def Let_def
    by (intro requested.P_register_new requested.P_removals logs_keep [OF assms(1)] subset_refl)
  then have kept: "set (pcie.more b3) \<subseteq> set (pcie.more b')" and rt: "routingTable b' = rt'"
    using b' by simp_all
  have "\<forall>(e, p) \<in> set cb. table_requested L N b2 e p"
    using readRoutingTable_requests [OF assms(1) 2] by simp
  from update_loop_requests [OF assms(1) 3 this]
  have all: "\<forall>(e, p) \<in> set cb'. table_requested L N b' e p"
    using requested_mono [OF _ kept] by blast
  have called: "allBridgesCalled N rt' cb'" and "set cb \<subseteq> set cb'"
    using update_loop_result [OF 3] by blast+
  moreover have "(busOwnerEid b, busOwnerBdf b) \<in> set cb" using readRoutingTable_calls [OF 2] by simp
  ultimately show ?thesis
    using all rt by (fastforce simp: allBridgesCalled_def isBridgeCalled_iff)
qed

definition logging_network :: "logged_pcie exchange" where
  "logging_network priv dest req s =
     (fst (test_network priv dest req s), pcie.more_update (\<lambda>rs. rs @ [(priv, dest, req)]) s)"

definition logged_test_pcie :: logged_pcie where
  "logged_test_pcie = pcie.extend test_pcie []"

lemma every_bridge_is_asked_witness:
  "let b' = snd (updateRoutingTable dsp0236 dsp_pcie logging_network logged_test_pcie)
   in routingTable b' = [(0x20, 0x0100, 0x80), (0x30, 0x0100, 0), (0x21, 0x0200, 0)]
     \<and> table_requested dsp0236 dsp_pcie b' 0x10 0x0100 \<and> table_requested dsp0236 dsp_pcie b' 0x20 0x0100"
proof -
  let ?u = "updateRoutingTable dsp0236 dsp_pcie logging_network logged_test_pcie"
  have f: "fst ?u = Some ()" "routingTable (snd ?u) = [(0x20, 0x0100, 0x80), (0x30, 0x0100, 0), (0x21, 0x0200, 0)]"
    "discoveredFlag logged_test_pcie = Discovered" "busOwnerEid logged_test_pcie = 0x10"
    "busOwnerBdf logged_test_pcie = 0x0100" by code_simp+
  have "logs_requests logging_network" by (auto simp: logs_requests_def logging_network_def)
  from every_bridge_is_asked [OF this f(3), of dsp0236 dsp_pcie "snd ?u"] f show ?thesis
    by (auto simp: isEntryBridge_def Let_def prod_eq_iff)
qed

interpretation discovery: pcie_invariant "\<lambda>b::pcie. discovery_of b = d"
  for d
  by unfold_locales
    (auto simp: discovery_of_def unregisterEndpoint_def populateEndpointProperties_def Let_def
      split: prod.splits if_splits)

definition discovery_untouched :: "pcie exchange \<Rightarrow> bool" where
  "discovery_untouched X \<longleftrightarrow> (\<forall>priv e req b. discovery_of (snd (X priv e req b)) = discovery_of b)"

lemma untouched_keeps: "discovery_untouched X \<Longrightarrow> env_keeps (\<lambda>b. discovery_of b = d) X"
  by (simp add: discovery_untouched_def env_keeps_def)

lemma flow_discovery:
  assumes "discovery_untouched X"
  shows "discovery_of (snd (endpointDiscoveryFlow L N X b)) = (Undiscovered, busOwnerBdf b)"
proof -
  let ?b = "changeDiscoveredFlag Undiscovered b"
  obtain r b1 where x: "exchange_cmd L X (mk_private N (PCIE_ROUTE_TO_RC N) (bdf b)) (EID_NULL L) Discovery_Notify ?b = (r, b1)"
    by force
  have "discovery_of b1 = (Undiscovered, busOwnerBdf b)"
    using discovery.P_exchange [OF untouched_keeps [OF assms] _ x, of "(Undiscovered, busOwnerBdf b)"] by simp
  then show ?thesis
    by (cases r) (simp_all add: endpointDiscoveryFlow_def Let_def discoveryNotifyCtrlCmd_def x)
qed

lemma step_discovery:
  assumes X: "discovery_untouched X"
  shows "discovery_of (pcie_step L N X b ev) = discovery_of b \<or>
    discovery_of (pcie_step L N X b ev) = (Undiscovered, busOwnerBdf b) \<or>
    (discoveredFlag b \<noteq> Discovered \<and> discoveredFlag (pcie_step L N X b ev) = discoveredFlag b) \<or>
    (discovery_of (pcie_step L N X b ev) = (Discovered, busOwnerBdf b) \<and>
       (\<exists>e priv req t. ev = Ctrl_Request e priv req True t \<and> req ! 2 = CMD_SET_ENDPOINT_ID L \<and>
          remote_id_of N priv = busOwnerBdf b \<and> bindingModeType b = Endpoint))"
proof (cases ev)
  case (Ctrl_Request e priv req owner t)
  obtain r b' where h: "handleMCTPControlRequests L (pcie_binding L N) e (Some req) owner t priv b = (r, b')" by force
  show ?thesis
    using request_discovery [OF h] unfolding Ctrl_Request pcie_step.simps h snd_conv
    by (auto simp: discovery_of_def)
next
  case (Device_Ready ready)
  then show ?thesis by (auto simp: deviceReadyNotify_def Let_def)
next
  case Discovery_Flow
  then show ?thesis using flow_discovery [OF X] by simp
next
  case Routing_Timer
  then show ?thesis using discovery.P_updateRoutingTable [OF untouched_keeps [OF X] refl] by simp
qed

text \<open>
  C7: The discovery state machine: over any sequence of control requests, hot-plug
  notifications, discovery flows and routing timer expiries, an endpoint that was not
  discovered is discovered at the end only if some Set Endpoint ID request came from the
  bus/device/function that is its bus owner at the end; and no request can change the bus
  owner as long as the endpoint stays discovered.
\<close>

theorem discovered_by_its_bus_owner:
  assumes "discovery_untouched X" and "discoveredFlag b \<noteq> Discovered"
    and "discoveredFlag (run (pcie_step L N X) b evs) = Discovered"
  shows "(\<exists>e priv req t. Ctrl_Request e priv req True t \<in> set evs \<and> req ! 2 = CMD_SET_ENDPOINT_ID L \<and>
        remote_id_of N priv = busOwnerBdf (run (pcie_step L N X) b evs)) \<and>
     (\<forall>ev. busOwnerBdf (pcie_step L N X (run (pcie_step L N X) b evs) ev) =
        busOwnerBdf (run (pcie_step L N X) b evs))"
proof -
  let ?Q = "\<lambda>evs b. \<exists>e priv req t. Ctrl_Request e priv req True t \<in> set evs \<and>
      req ! 2 = CMD_SET_ENDPOINT_ID L \<and> remote_id_of N priv = busOwnerBdf b"
  have "discoveredFlag (run (pcie_step L N X) b evs) = Discovered \<longrightarrow> ?Q evs (run (pcie_step L N X) b evs)"
  proof (induction evs rule: rev_induct)
    case Nil
    then show ?case using assms(2) by simp
  next
    case (snoc ev evs)
    let ?b = "run (pcie_step L N X) b evs"
    show ?case
      using step_discovery [OF assms(1), of L N ?b ev] snoc
      by (auto simp: run_append discovery_of_def) blast+
  qed
  moreover have "busOwnerBdf (pcie_step L N X (run (pcie_step L N X) b evs) ev) =
        busOwnerBdf (run (pcie_step L N X) b evs)" for ev
    using step_discovery [OF assms(1), of L N "run (pcie_step L N X) b evs" ev] assms(3)
    by (auto simp: discovery_of_def)
  ultimately show ?thesis using assms(3) by blast
qed

theorem discovered_by_its_bus_owner_witness:
  "\<exists>e priv req t. Ctrl_Request e priv req True t \<in> set
       [Ctrl_Request 8 [3, 0x10, 0x02] [0, 0x80, 0x0c] True 0,
        Ctrl_Request 8 [2, 0x10, 0x02] [0, 0x81, 1, 0, 0x33] True 0] \<and>
     req ! 2 = CMD_SET_ENDPOINT_ID dsp0236 \<and> remote_id_of dsp_pcie priv = 0x0210"
proof -
  let ?evs = "[Ctrl_Request 8 [3, 0x10, 0x02] [0, 0x80, 0x0c] True 0,
        Ctrl_Request 8 [2, 0x10, 0x02] [0, 0x81, 1, 0, 0x33] True 0]"
  let ?b = "PCIeBinding_ctor dsp0236 (test_conf\<lparr>conf_mode := Endpoint\<rparr>) 0x0300 5"
  let ?r = "run (pcie_step dsp0236 dsp_pcie silent_bus) ?b ?evs"
  have X: "discovery_untouched silent_bus" by (simp add: discovery_untouched_def silent_bus_def)
  have 1: "discoveredFlag ?b \<noteq> Discovered" by code_simp
  have 2: "discoveredFlag ?r = Discovered" by code_simp
  have 3: "busOwnerBdf ?r = 0x0210" by code_simp
  from discovered_by_its_bus_owner [OF X 1 2] show ?thesis unfolding 3 by blast
qed

section \<open>Removed endpoints\<close>

definition gone :: "eid \<Rightarrow> 'a binding_scheme \<Rightarrow> bool" where
  "gone e b \<longleftrightarrow> endpointInterface b e = None \<and> bindingModeType b \<noteq> BusOwner"

interpretation gone: exchange_invariant "gone e :: 'a binding_scheme \<Rightarrow> bool"
  for e
  by unfold_locales (simp add: gone_def)

lemma gone_populate:
  "gone e b \<Longrightarrow> endpointEid p \<noteq> e \<Longrightarrow> populateEndpointProperties p b = (ok, b') \<Longrightarrow> gone e b'"
  by (auto simp: gone_def populateEndpointProperties_def Let_def emplace_def split: if_splits)

lemma gone_register:
  assumes X: "env_keeps (gone e) X" and b: "gone e b" and e': "e' \<noteq> e"
  shows "gone e (snd (registerEndpoint L X prv e' mode b))"
proof -
  have no: "bindingModeType b \<noteq> BusOwner" using b by (simp add: gone_def)
  obtain r b1 where 1: "getMsgTypeSupportCtrlCmd L X prv e' b = (r, b1)" by force
  have b1: "gone e b1" using gone.P_cmds(4) [OF X b 1] .
  obtain got ur b2 where 2: "getUuidCtrlCmd L X prv e' b1 = ((got, ur), b2)"
    by (cases "getUuidCtrlCmd L X prv e' b1") force
  have b2: "gone e b2" using gone.P_cmds(3) [OF X b1 2] .
  show ?thesis
  proof (cases r)
    case None
    then show ?thesis using no b1 by (simp add: registerEndpoint_def 1)
  next
    case (Some ts)
    let ?p = "\<lparr>endpointEid = e', ep_uuid = (if \<not> got then nullUUID else formatUUID (ur_uuid L ur)),
       ep_mode = mode, networkId = 0x00, endpointMsgTypes = getMsgTypes L ts,
       vendorIdCapabilitySets = [], ep_vendorIdFormat = []\<rparr>"
    obtain p' b3 where 3: "getVendorDefinedMessageTypes L X prv e' ?p b2 = (p', b3)" by force
    have b3: "gone e b3" using gone.P_vdm [OF X b2 3] .
    obtain ok b4 where 4: "populateEndpointProperties p' b3 = (ok, b4)" by force
    have "gone e b4" using gone_populate [OF b3 _ 4] vdm_result [OF 3] e' by simp
    then show ?thesis using no Some
      unfolding registerEndpoint_def by (simp add: 1 2 Let_def 3 4 del: if_not_P)
  qed
qed

lemma gone_register_new:
  assumes X: "env_keeps (gone e) X"
  shows "gone e b \<Longrightarrow> e \<notin> fst ` set nt \<Longrightarrow> gone e (register_new L N X prv nt b)"
proof (induction nt arbitrary: b)
  case (Cons r nt)
  have "gone e (snd (registerEndpoint L X prv' (fst r) mode b))" for prv' mode
    using gone_register [OF X Cons.prems(1)] Cons.prems(2) by force
  then show ?case using Cons by (auto simp: Let_def split: prod.split) (metis snd_conv)
qed simp

lemma gone_unregister: "bindingModeType b \<noteq> BusOwner \<Longrightarrow> gone e (unregisterEndpoint e b)"
  "gone e b \<Longrightarrow> gone e (unregisterEndpoint e' b)"
  "bindingModeType (unregisterEndpoint e' b) = bindingModeType b"
  by (auto simp: gone_def unregisterEndpoint_def removeInterface_def Let_def simp del: not_None_eq)

lemma gone_removals:
  "bindingModeType b \<noteq> BusOwner \<Longrightarrow> e \<notin> fst ` set nt \<Longrightarrow> gone e b \<or> e \<in> fst ` set rs \<Longrightarrow>
     gone e (fold (\<lambda>r b. if r \<notin> set nt then unregisterEndpoint (fst r) b else b) rs b)"
proof (induction rs arbitrary: b)
  case (Cons r rs)
  let ?b = "if r \<notin> set nt then unregisterEndpoint (fst r) b else b"
  have "gone e ?b \<or> e \<in> fst ` set rs"
    using Cons.prems gone_unregister(1) [of b e] gone_unregister(2) [of e b "fst r"]
    by (cases "e = fst r") auto
  then show ?case using Cons.IH [of ?b] Cons.prems gone_unregister(3) [of "fst r" b] by simp
qed simp

text \<open>
  C12: An endpoint that has left the routing table disappears from D-Bus: after the changes
  of a new table have been processed, no EID of the old table that is missing in the new one
  has an endpoint object, whatever the new endpoints answer during their registration, as
  long as the handlers that run meanwhile do not register it again themselves.
\<close>

theorem removed_endpoint_disappears:
  assumes "bindingModeType b \<noteq> BusOwner" and "env_keeps (gone e) X"
    and "e \<in> fst ` set (routingTable b)" and "e \<notin> fst ` set newTable"
  shows "endpointInterface (processRoutingTableChanges L N X newTable prvData b) e = None"
proof -
  have "gone e (processRoutingTableChanges L N X newTable prvData b)"
    unfolding processRoutingTableChanges_def Let_def
    using gone_register_new [OF assms(2) gone_removals [OF assms(1,4)] assms(4)] assms(3) by blast
  then show ?thesis by (simp add: gone_def)
qed

theorem removed_endpoint_disappears_witness:
  "endpointInterface (processRoutingTableChanges dsp0236 dsp_pcie silent_bus [(0x21, 0x0200, 0)] [2, 0, 1]
     (test_pcie\<lparr>routingTable := [(0x20, 0x0100, 0), (0x21, 0x0200, 0)],
               endpointInterface := [0x20 \<mapsto> (Endpoint, 0), 0x21 \<mapsto> (Endpoint, 0)]\<rparr>)) 0x20 = None"
proof (rule removed_endpoint_disappears)
  show "bindingModeType (test_pcie\<lparr>routingTable := [(0x20, 0x0100, 0), (0x21, 0x0200, 0)],
               endpointInterface := [0x20 \<mapsto> (Endpoint, 0), 0x21 \<mapsto> (Endpoint, 0)]\<rparr>) \<noteq> BusOwner"
    by code_simp
qed (simp_all add: env_keeps_def silent_bus_def)

section \<open>Vendor defined message sets\<close>

text \<open>The exchange with a responder that is in state \<open>rb\<close>.\<close>

definition vdm_responder :: "'a pcie_scheme \<Rightarrow> 's exchange" where
  "vdm_responder rb priv dest req s =
     ((receivedResponse,
       (case fst (pcie_handleGetVdmSupport dsp_pcie 0 priv req rb) of
          Reply r _ \<Rightarrow> answer_header dsp0236 req r
        | _ \<Rightarrow> [])), s)"

lemma vdm_loop:
  assumes "vdmSetDatabase rb = db" "length db \<le> 254" "k < length db"
  shows "fst (pcivd_loop dsp0236 (vdm_responder rb) priv e (of_nat k) ids fmt s) =
     (True, ids @ map (\<lambda>d. byte_swap16 (commandSetType d)) (drop k db),
      hex_of (unat (byte_swap16 (vendorId (last db)))))"
  using assms(3)
proof (induction "length db - k" arbitrary: k ids fmt s)
  case (Suc n)
  let ?d = "db ! k"
  let ?sel = "if k + 1 = length db then vendorIdNoMoreSets else of_nat (k + 1)"
  have k: "unat (of_nat k :: byte) = k" using Suc.prems assms(2) by (simp add: unat_of_nat)
  have k255: "(of_nat k :: byte) < 255" using k Suc.prems assms(2) by (simp add: word_less_nat_alt)
  let ?r = "\<lambda>rq. [0, rq AND NOT 0x80, 6, 0, ?sel, vendorIdFormat ?d, ucast (vendorId ?d),
     ucast (drop_bit 8 (vendorId ?d)), ucast (commandSetType ?d), ucast (drop_bit 8 (commandSetType ?d))] :: byte list"
  obtain s1 rq where x: "exchange_cmd dsp0236 (vdm_responder rb) priv e (Get_Vendor_Message_Support (of_nat k)) s
      = (Some (?r rq), s1)"
    using Suc.prems assms(1) k
    by (simp add: exchange_cmd_def getFormattedReq_def getRqDgramInst_def createInstanceId_def Let_def
        vdm_responder_def pcie_handleGetVdmSupport_def answer_header_def dsp0236_def)
  have le: "le16 (ucast w) (ucast (drop_bit 8 w)) = (w :: u16)" for w
  proof -
    have l: "ucast (ucast a :: byte) = take_bit 8 a" for a :: u16
      by (rule bit_word_eqI) (auto simp: bit_ucast_iff bit_take_bit_iff)
    have "take_bit 8 w + push_bit 8 (take_bit 8 (drop_bit 8 w)) = take_bit 8 w OR push_bit 8 (take_bit 8 (drop_bit 8 w))"
      by (rule disjunctive_add) (auto simp: bit_drop_bit_eq bit_push_bit_iff bit_take_bit_iff)
    also have "\<dots> = w"
      by (rule bit_word_eqI)
        (auto simp: bit_or_iff bit_drop_bit_eq bit_push_bit_iff bit_take_bit_iff dest: bit_imp_le_length)
    finally show ?thesis by (simp add: le16_def l)
  qed
  have rd: "read16 (?r rq) 6 = vendorId ?d" "read16 (?r rq) 8 = commandSetType ?d" "?r rq ! 4 = ?sel"
    "?r rq ! completionCodeIndex = 0" "checkMinRespSize (?r rq)" "\<not> length (?r rq) < vendIdMsgSupportRespSize"
    by (simp_all add: read16_def le completionCodeIndex_def checkMinRespSize_def minCmdRespSize_def
        vendIdMsgSupportRespSize_def)
  have dk: "drop k db = ?d # drop (Suc k) db" using Suc.prems by (simp add: Cons_nth_drop_Suc)
  show ?case
  proof (cases "k + 1 = length db")
    case True
    then have "last db = ?d" by (metis Suc_eq_plus1 diff_Suc_1 last_conv_nth list.size(3) nat.simps(3))
    then show ?thesis
      using True k255 rd dk by (subst pcivd_loop.simps) (simp add: x Let_def noMoreSet_def vendorIdNoMoreSets_def)
  next
    case False
    then have lt: "k + 1 < length db" using Suc.prems by simp
    have k1: "unat (of_nat (k + 1) :: byte) = k + 1" using lt assms(2) by (simp add: unat_of_nat del: of_nat_Suc)
    have ne: "(of_nat (k + 1) :: byte) \<noteq> 255"
    proof
      assume "(of_nat (k + 1) :: byte) = 255"
      then have "unat (of_nat (k + 1) :: byte) = 255" by simp
      then show False using k1 lt assms(2) by simp
    qed
    have "n = length db - (k + 1)" using Suc.hyps(2) by simp
    from Suc.hyps(1) [OF this lt]
    have IH: "fst (pcivd_loop dsp0236 (vdm_responder rb) priv e (of_nat k + 1) ids' fmt' s1) =
       (True, ids' @ map (\<lambda>d. byte_swap16 (commandSetType d)) (drop (Suc k) db),
        hex_of (unat (byte_swap16 (vendorId (last db)))))" for ids' fmt'
      by (simp add: add.commute)
    have sel: "?sel = of_nat k + 1" "of_nat k + 1 \<noteq> (255 :: byte)" using False ne by (simp_all add: add.commute)
    show ?thesis
      using k255 rd dk sel IH by (subst pcivd_loop.simps) (simp add: x Let_def noMoreSet_def)
  qed
qed simp

text \<open>
  The enumeration of vendor defined message sets works end to end: a requester that runs
  \<open>getPCIVDMessageSupportCtrlCmd\<close> against the PCIe responder of this program gets the
  command set types of all registered sets, each once and in the order of registration
  (with their bytes swapped), and the vendor id of the last one, for 1 to 254 sets.
\<close>

lemma vendor_sets_are_enumerated:
  assumes "vdmSetDatabase rb = db" "db \<noteq> []" "length db \<le> 254"
  shows "fst (getPCIVDMessageSupportCtrlCmd dsp0236 (vdm_responder rb) priv e s) =
     (True, map (\<lambda>d. byte_swap16 (commandSetType d)) db,
      hex_of (unat (byte_swap16 (vendorId (last db)))))"
  using vdm_loop [OF assms(1,3), where k = 0 and s = s] assms(2) by (simp add: getPCIVDMessageSupportCtrlCmd_def)

theorem vendor_sets_are_enumerated_witness:
  "fst (getPCIVDMessageSupportCtrlCmd dsp0236
      (vdm_responder (snd (manageVdpciVersionInfo 0x8680 0x0200 (snd (manageVdpciVersionInfo 0x8680 0x0100 test_pcie)))))
      [] 9 test_pcie) = (True, [0x0002], ''8086'')"
proof -
  let ?rb = "snd (manageVdpciVersionInfo 0x8680 0x0200 (snd (manageVdpciVersionInfo 0x8680 0x0100 test_pcie)))"
  have db: "vdmSetDatabase ?rb = [\<lparr>vendorIdFormat = 0, vendorId = 0x8680, commandSetType = 0x0200\<rparr>]" by code_simp
  have "fst (getPCIVDMessageSupportCtrlCmd dsp0236 (vdm_responder rb) [] 9 t) =
      (True, [byte_swap16 0x0200], hex_of (unat (byte_swap16 0x8680)))"
    if "vdmSetDatabase rb = [\<lparr>vendorIdFormat = 0, vendorId = 0x8680, commandSetType = 0x0200\<rparr>]" for rb t :: pcie
    unfolding vendor_sets_are_enumerated [OF that list.distinct(2), simplified] by simp
  from this [OF db] have "fst (getPCIVDMessageSupportCtrlCmd dsp0236 (vdm_responder ?rb) [] 9 test_pcie) =
      (True, [byte_swap16 0x0200], hex_of (unat (byte_swap16 0x8680)))" .
  moreover have "byte_swap16 0x0200 = 0x0002" by code_simp
  moreover have "byte_swap16 0x8680 = 0x8086" by code_simp
  moreover have "unat (0x8086 :: u16) = 0x8086" by simp
  moreover have "hex_of 0x8086 = ''8086''"
    by (simp add: hex_of.simps [of 32902] hex_of.simps [of 2056] hex_of.simps [of 128] hex_of.simps [of 8]
        hex_digit_def)
  ultimately show ?thesis by metis
qed

section \<open>Readiness and bridges\<close>

text \<open>
  The notification that the device is ready is treated like its loss: with either value
  the address is cleared and the endpoint becomes undiscovered.
\<close>

lemma ready_notification_undiscovers:
  "bdf (deviceReadyNotify ready b) = 0 \<and>
   discoveredFlag (deviceReadyNotify ready b) =
     (if bindingModeType b \<noteq> BusOwner then Undiscovered else discoveredFlag b)"
  by (simp add: deviceReadyNotify_def Let_def changeDiscoveredFlag_def)

text \<open>
  With the entry type in the upper two bits of its byte, as the macros that
  \<open>isEntryBridge\<close> uses read it, no bridge other than the bus owner is ever registered with
  the mode of a bridge: \<open>getBindingMode\<close> compares the whole byte.
\<close>

lemma bridges_are_registered_as_endpoints:
  "isEntryBridge dsp_pcie entry \<Longrightarrow> fst (snd entry) \<noteq> busOwnerBdf b \<Longrightarrow>
   getBindingMode dsp_pcie entry b = Endpoint"
proof -
  obtain e a ty where entry: "entry = (e, a, ty)" by (cases entry)
  have "drop_bit 6 (1::byte) = 0" "drop_bit 6 (2::byte) = 0" by code_simp+
  then show "isEntryBridge dsp_pcie entry \<Longrightarrow> fst (snd entry) \<noteq> busOwnerBdf b \<Longrightarrow>
      getBindingMode dsp_pcie entry b = Endpoint"
    by (auto simp: entry isEntryBridge_def getBindingMode_def Let_def)
qed

theorem bridges_are_registered_as_endpoints_witness:
  "isEntryBridge dsp_pcie (0x20, 0x0200, 0x80) \<and> getBindingMode dsp_pcie (0x20, 0x0200, 0x80) test_pcie = Endpoint"
proof -
  have 1: "isEntryBridge dsp_pcie (0x20, 0x0200, 0x80)" by code_simp
  have "fst (snd (0x20, 0x0200, 0x80 :: byte)) \<noteq> busOwnerBdf test_pcie" by code_simp
  from bridges_are_registered_as_endpoints [OF 1] this 1 show ?thesis by simp
qed

end
