(* ===== verification/Smbus_Binding.thy ===== *)
theory Smbus_Binding
  imports Pcie_Binding "HOL-Library.Product_Lexorder"
begin

text \<open>
  The SMBus binding (mctpd/src/SMBusBinding.cpp): the scan of the bus and of the buses behind
  its muxes, the discovery rounds that register the devices found and keep the device table,
  the reservation of the mux for one endpoint, the control handlers, and the routing table
  that an endpoint reads from its bus owner. The i2c calls are the parameter \<open>i2c\<close>; structs
  and macros of libmctp's SMBus binding are the fields of a parameter of type \<open>nusmbus\<close>.
  The values \<open>setMuxIdleMode\<close> writes to the files of the muxes are logged. A timer is the
  wait that is pending on it, and the handlers of cancelled and of expired waits are queued
  until they run. A \<open>std::set\<close> is an ascending list.
\<close>

unbundle bit_operations_syntax

section \<open>State\<close>

text \<open>A descriptor is an \<open>int\<close>; a negative one is never scanned.\<close>

type_synonym fd = "32 word"

text \<open>\<open>mctp\_smbus\_pkt\_private\<close> of libmctp, as the code fills it.\<close>

record smbus_private =
  pv_fd :: fd
  pv_mux_hold_timeout :: u32
  pv_mux_flags :: byte
  pv_slave_addr :: byte

type_synonym DeviceTableEntry_t = "eid \<times> smbus_private"
type_synonym bus_device = "fd \<times> byte"

datatype MuxIdleModes = muxIdleModeConnect | muxIdleModeDisconnect

record i2c =
  ioctl_slave :: "fd \<Rightarrow> byte \<Rightarrow> int"
  smbus_read_byte :: "fd \<Rightarrow> byte \<Rightarrow> int"
  smbus_write_quick :: "fd \<Rightarrow> byte \<Rightarrow> int"

record nusmbus =
  IS_MUX_PORT :: byte
  put_private :: "smbus_private \<Rightarrow> byte list"
  get_private :: "byte list \<Rightarrow> smbus_private"
  BINDING_SMBUS :: byte
  entry_starting_eid :: "byte list \<Rightarrow> byte"
  entry_eid_range_size :: "byte list \<Rightarrow> byte"
  entry_binding_id :: "byte list \<Rightarrow> byte"
  next_entry_handle :: "byte list \<Rightarrow> byte"
  sizeof_vdm_command :: nat
  vdm_selector :: "byte list \<Rightarrow> byte"
  vdm_support :: "eid \<Rightarrow> byte list option"
  vdm_answer :: "byte list \<Rightarrow> byte \<Rightarrow> InternalVdmSetDatabase \<Rightarrow> byte list"
  CC_ERROR_INVALID_DATA :: byte

text \<open>
  \<open>bwWait\<close> and \<open>bwHandlers\<close> are \<open>reserveBWTimer\<close>: the pending wait with the private data its
  handler holds, and the queued handlers, each with whether its wait was cancelled. The
  member \<open>ret\<close> is \<open>restarted\<close>. The wait on \<open>smbusRoutingTableTimer\<close> and its queued handlers are
  \<open>routingWait\<close> and \<open>routingHandlers\<close>, those of \<open>scanTimer\<close> are \<open>scanWait\<close> and \<open>scanHandlers\<close>;
  \<open>routingReads\<close> are the coroutines that \<open>updateRoutingTable\<close> has started, each with the
  private data of the bus owner that it holds.
\<close>

record smbus = binding +
  supportedEndpointSlaveAddress :: "byte list"
  outFd :: fd
  smbusDiscoveredFlag :: DiscoveryFlags
  smbusDeviceTable :: "DeviceTableEntry_t list"
  muxPortMap :: "(fd \<times> int) list"
  rootDeviceMap :: "bus_device list"
  addRootDevices :: bool
  busOwnerSlaveAddr :: byte
  busOwnerFd :: fd
  bwWait :: "smbus_private option"
  bwHandlers :: "(bool \<times> smbus_private) list"
  restarted :: nat
  muxModes :: "MuxIdleModes list"
  routingWait :: bool
  routingHandlers :: nat
  routingReads :: "byte list list"
  scanWait :: bool
  scanHandlers :: nat

text \<open>The members \<open>busOwnerSlaveAddr\<close> and \<open>busOwnerFd\<close> are not initialised; nothing reads them before they are set.\<close>

definition SMBusBinding_ctor :: "libmctp \<Rightarrow> Configuration \<Rightarrow> eid set \<Rightarrow> byte list \<Rightarrow> smbus" where
  "SMBusBinding_ctor L conf conf_eidPool addresses =
     (let b = MctpBinding_ctor L conf;
          b' = (if conf_mode conf = BusOwner
                then b\<lparr>eidPool := initializeEidPool conf_eidPool (eidPool b)\<rparr> else b)
      in binding.extend b'
       \<lparr>supportedEndpointSlaveAddress = addresses, outFd = -1,
        smbusDiscoveredFlag = (if bindingModeType b' = BusOwner then NotApplicable else Undiscovered),
        smbusDeviceTable = [], muxPortMap = [], rootDeviceMap = [], addRootDevices = True,
        busOwnerSlaveAddr = 0, busOwnerFd = 0, bwWait = None, bwHandlers = [], restarted = 0,
        muxModes = [], routingWait = False, routingHandlers = 0, routingReads = [],
        scanWait = False, scanHandlers = 0\<rparr>)"

definition convertToString :: "DiscoveryFlags \<Rightarrow> string" where
  "convertToString flag =
     (case flag of Undiscovered \<Rightarrow> ''Undiscovered'' | Discovered \<Rightarrow> ''Discovered''
      | NotApplicable \<Rightarrow> ''NotApplicable'')"

definition updateDiscoveredFlag :: "DiscoveryFlags \<Rightarrow> 'a smbus_scheme \<Rightarrow> 'a smbus_scheme" where
  "updateDiscoveredFlag flag b = b\<lparr>smbusDiscoveredFlag := flag\<rparr>"

definition setMuxIdleMode :: "MuxIdleModes \<Rightarrow> 'a smbus_scheme \<Rightarrow> 'a smbus_scheme" where
  "setMuxIdleMode mode b = b\<lparr>muxModes := muxModes b @ [mode]\<rparr>"

section \<open>The device table\<close>

definition removeDeviceTableEntry :: "eid \<Rightarrow> 'a smbus_scheme \<Rightarrow> 'a smbus_scheme" where
  "removeDeviceTableEntry e b =
     b\<lparr>smbusDeviceTable := filter (\<lambda>tableEntry. \<not> fst tableEntry = e) (smbusDeviceTable b)\<rparr>"

fun eid_of_private :: "libmctp \<Rightarrow> smbus_private \<Rightarrow> DeviceTableEntry_t list \<Rightarrow> eid" where
  "eid_of_private L ptr [] = EID_NULL L"
| "eid_of_private L ptr ((e, entry) # table) =
     (if pv_slave_addr entry = pv_slave_addr ptr \<and> pv_fd entry = pv_fd ptr then e
      else eid_of_private L ptr table)"

definition getEIDFromDeviceTable :: "libmctp \<Rightarrow> nusmbus \<Rightarrow> byte list \<Rightarrow> 'a smbus_scheme \<Rightarrow> eid" where
  "getEIDFromDeviceTable L N bindingPrivate b =
     eid_of_private L (get_private N bindingPrivate) (smbusDeviceTable b)"

definition smbus_getBindingPrivateData ::
    "nusmbus \<Rightarrow> eid \<Rightarrow> 'a smbus_scheme \<Rightarrow> byte list option \<times> 'a smbus_scheme" where
  "smbus_getBindingPrivateData N dstEid b =
     (case map_of (smbusDeviceTable b) dstEid of
        None \<Rightarrow> (None, b)
      | Some temp \<Rightarrow>
          (let mux = (map_of (muxPortMap b) (pv_fd temp) \<noteq> None);
               prvt = \<lparr>pv_fd = pv_fd temp, pv_mux_hold_timeout = (if mux then 1000 else 0),
                       pv_mux_flags = (if mux then IS_MUX_PORT N else 0), pv_slave_addr = pv_slave_addr temp\<rparr>
           in (Some (put_private N prvt), b)))"

text \<open>The null pointer is the empty list.\<close>

definition smbus_addUnknownEIDToDeviceTable ::
    "nusmbus \<Rightarrow> eid \<Rightarrow> byte list \<Rightarrow> 'a smbus_scheme \<Rightarrow> 'a smbus_scheme" where
  "smbus_addUnknownEIDToDeviceTable N e bindingPrivate b =
     (if bindingPrivate = [] then b
      else if e \<in> fst ` set (smbusDeviceTable b) then b
      else (let bindingPtr = get_private N bindingPrivate;
                smbusBindingPvt = bindingPtr\<lparr>pv_slave_addr := pv_slave_addr bindingPtr AND NOT 1\<rparr>
            in b\<lparr>smbusDeviceTable := smbusDeviceTable b @ [(e, smbusBindingPvt)]\<rparr>))"

section \<open>The scan\<close>

definition eeprom_address :: "byte \<Rightarrow> bool" where
  "eeprom_address it \<longleftrightarrow> (it \<ge> 0x30 \<and> it \<le> 0x37) \<or> (it \<ge> 0x50 \<and> it \<le> 0x5F)"

text \<open>The calls after which the loop does not go on to the next address.\<close>

definition slave_answers :: "i2c \<Rightarrow> fd \<Rightarrow> byte \<Rightarrow> bool" where
  "slave_answers I scanFd it \<longleftrightarrow>
     \<not> ioctl_slave I scanFd it < 0 \<and>
     (if eeprom_address it then \<not> smbus_read_byte I scanFd it < 0
      else \<not> smbus_write_quick I scanFd it < 0)"

definition scan_address ::
    "i2c \<Rightarrow> fd \<Rightarrow> 'a smbus_scheme \<Rightarrow> byte \<Rightarrow> bus_device list \<Rightarrow> bus_device list" where
  "scan_address I scanFd b it deviceMap =
     (if \<not> slave_answers I scanFd it then deviceMap
      else if scanFd \<noteq> outFd b \<and> (outFd b, it) \<in> set (rootDeviceMap b) then deviceMap
      else insort_insert (scanFd, it) deviceMap)"

definition scanPort ::
    "i2c \<Rightarrow> fd \<Rightarrow> 'a smbus_scheme \<Rightarrow> bus_device list \<Rightarrow> bus_device list" where
  "scanPort I scanFd b deviceMap =
     (if sint scanFd < 0 then deviceMap
      else fold (scan_address I scanFd b) (supportedEndpointSlaveAddress b) deviceMap)"

definition scanMuxBus :: "i2c \<Rightarrow> 'a smbus_scheme \<Rightarrow> bus_device list \<Rightarrow> bus_device list" where
  "scanMuxBus I b deviceMap = fold (\<lambda>(muxFd, muxPort). scanPort I muxFd b) (muxPortMap b) deviceMap"

text \<open>
  \<open>initializeBinding\<close> after the start of libmctp: \<open>SMBusInit\<close> has opened the bus as \<open>fd\<close>, or
  thrown, and \<open>getMuxFds\<close> has found the muxes, or thrown. It ends with \<open>scanDevices\<close>.
\<close>

definition smbus_initializeBinding ::
    "i2c \<Rightarrow> fd option \<Rightarrow> (fd \<times> int) list option \<Rightarrow> smbus \<Rightarrow> bool \<times> smbus" where
  "smbus_initializeBinding I smbusInit getMuxFds b =
     (case smbusInit of
        None \<Rightarrow> (False, b)
      | Some fd \<Rightarrow>
          (let b1 = setMuxIdleMode muxIdleModeDisconnect (b\<lparr>outFd := fd\<rparr>);
               b2 = b1\<lparr>rootDeviceMap := scanPort I fd b1 (rootDeviceMap b1)\<rparr>
           in (case getMuxFds of
                 None \<Rightarrow> (False, b2)
               | Some muxes \<Rightarrow> (True, b2\<lparr>muxPortMap := muxes\<rparr>))))"

section \<open>Discovery\<close>

definition device_private :: "bus_device \<Rightarrow> 'a smbus_scheme \<Rightarrow> smbus_private" where
  "device_private dev b =
     (let mux = (map_of (muxPortMap b) (fst dev) \<noteq> None)
      in \<lparr>pv_fd = fst dev,
          pv_mux_hold_timeout = (if mux then ctrlTxRetryDelay (ctrlQueue b) else 0),
          pv_mux_flags = (if mux then 0x80 else 0),
          pv_slave_addr = push_bit 1 (snd dev)\<rparr>)"

text \<open>The body of the loop over the devices found; \<open>None\<close> when the registration ends the process.\<close>

definition discover_device ::
    "libmctp \<Rightarrow> nusmbus \<Rightarrow> 'a smbus_scheme exchange \<Rightarrow> bus_device
     \<Rightarrow> 'a smbus_scheme \<Rightarrow> unit option \<times> 'a smbus_scheme" where
  "discover_device L N X dev b =
     (let smbusBindingPvt = device_private dev b;
          bindingPvtVect = put_private N smbusBindingPvt
      in if \<not> isDeviceGoodForInit (deviceWatcher b) bindingPvtVect then (Some (), b)
         else (let registeredEid = getEIDFromDeviceTable L N bindingPvtVect b in
               case registerEndpoint L X bindingPvtVect registeredEid Endpoint b of
                 (Terminate, b1) \<Rightarrow> (None, b1)
               | (Registered e, b1) \<Rightarrow>
                   (let isEidPresent = (e \<in> fst ` set (smbusDeviceTable b1));
                        b2 = (if e \<noteq> registeredEid then
                                (if smbusDeviceTable b1 \<noteq> [] then removeDeviceTableEntry registeredEid b1 else b1)
                              else b1)
                    in if \<not> isEidPresent \<and> e \<noteq> EID_NULL L
                       then (Some (), b2\<lparr>smbusDeviceTable := smbusDeviceTable b2 @ [(e, smbusBindingPvt)]\<rparr>)
                       else (Some (), b2))
               | (NotRegistered, b1) \<Rightarrow>
                   (Some (), if smbusDeviceTable b1 \<noteq> [] then removeDeviceTableEntry registeredEid b1 else b1)))"

fun discover_devices ::
    "libmctp \<Rightarrow> nusmbus \<Rightarrow> 'a smbus_scheme exchange \<Rightarrow> bus_device list
     \<Rightarrow> 'a smbus_scheme \<Rightarrow> unit option \<times> 'a smbus_scheme" where
  "discover_devices L N X [] b = (Some (), b)"
| "discover_devices L N X (dev # devices) b =
     (case discover_device L N X dev b of
        (None, b') \<Rightarrow> (None, b')
      | (Some _, b') \<Rightarrow> discover_devices L N X devices b')"

definition initEndpointDiscovery ::
    "libmctp \<Rightarrow> nusmbus \<Rightarrow> i2c \<Rightarrow> 'a smbus_scheme exchange
     \<Rightarrow> 'a smbus_scheme \<Rightarrow> unit option \<times> 'a smbus_scheme" where
  "initEndpointDiscovery L N I X b =
     (let registerDeviceMap0 = (if addRootDevices b then fold insort_insert (rootDeviceMap b) [] else []);
          registerDeviceMap = scanMuxBus I b registerDeviceMap0
      in if registerDeviceMap = [] then (Some (), b)
         else (case discover_devices L N X registerDeviceMap b of
                 (None, b') \<Rightarrow> (None, b')
               | (Some _, b') \<Rightarrow> (Some (), b'\<lparr>addRootDevices := False\<rparr>)))"

text \<open>The coroutine of \<open>scanDevices\<close>, up to the new wait on the timer.\<close>

definition scanDevices ::
    "libmctp \<Rightarrow> nusmbus \<Rightarrow> i2c \<Rightarrow> 'a smbus_scheme exchange
     \<Rightarrow> 'a smbus_scheme \<Rightarrow> unit option \<times> 'a smbus_scheme" where
  "scanDevices L N I X b =
     (let (r, b1) = (if \<not> rsvBWActive b
                     then initEndpointDiscovery L N I X (b\<lparr>deviceWatcher := deviceDiscoveryInit (deviceWatcher b)\<rparr>)
                     else (Some (), b))
      in case r of
           None \<Rightarrow> (None, b1)
         | Some _ \<Rightarrow> (Some (), b1\<lparr>scanHandlers := scanHandlers b1 + (if scanWait b1 then 1 else 0), scanWait := True\<rparr>))"

definition smbus_triggerDeviceDiscovery :: "'a smbus_scheme \<Rightarrow> 'a smbus_scheme" where
  "smbus_triggerDeviceDiscovery b =
     b\<lparr>scanHandlers := scanHandlers b + (if scanWait b then 1 else 0), scanWait := False\<rparr>"

section \<open>Reservation of the mux\<close>

text \<open>
  \<open>expires\_after\<close> cancels the pending wait and returns how many it cancelled; the handler of
  the cancelled wait is queued. The duration makes no difference to the state.
\<close>

definition startTimerAndReleaseBW ::
    "u16 \<Rightarrow> smbus_private \<Rightarrow> 'a smbus_scheme \<Rightarrow> 'a smbus_scheme" where
  "startTimerAndReleaseBW interval prvt b =
     (case bwWait b of
        None \<Rightarrow> b\<lparr>restarted := 0, bwWait := Some prvt\<rparr>
      | Some p \<Rightarrow> b\<lparr>restarted := 1, bwHandlers := bwHandlers b @ [(True, p)], bwWait := Some prvt\<rparr>)"

text \<open>The wait is over: its handler is queued without an error code.\<close>

definition reserveBWTimer_expires :: "'a smbus_scheme \<Rightarrow> 'a smbus_scheme" where
  "reserveBWTimer_expires b =
     (case bwWait b of
        None \<Rightarrow> b
      | Some p \<Rightarrow> b\<lparr>bwHandlers := bwHandlers b @ [(False, p)], bwWait := None\<rparr>)"

text \<open>The handler of the wait; \<open>exit\_pull\<close> is \<open>mctp\_smbus\_exit\_pull\_model\<close>. The error code is only logged.\<close>

definition reserveBWTimer_handler ::
    "(smbus_private \<Rightarrow> int) \<Rightarrow> 'a smbus_scheme \<Rightarrow> 'a smbus_scheme" where
  "reserveBWTimer_handler exit_pull b =
     (case bwHandlers b of
        [] \<Rightarrow> b
      | (aborted, prvt) # handlers \<Rightarrow>
          (let b1 = b\<lparr>bwHandlers := handlers\<rparr>
           in if restarted b1 \<noteq> 0 then b1\<lparr>restarted := 0\<rparr>
              else (let b2 = setMuxIdleMode muxIdleModeDisconnect b1
                    in if exit_pull prvt < 0 then b2
                       else b2\<lparr>rsvBWActive := False, reservedEID := 0\<rparr>)))"

definition smbus_reserveBandwidth ::
    "nusmbus \<Rightarrow> (smbus_private \<Rightarrow> int) \<Rightarrow> eid \<Rightarrow> u16 \<Rightarrow> 'a smbus_scheme \<Rightarrow> bool \<times> 'a smbus_scheme" where
  "smbus_reserveBandwidth N init_pull e timeout b =
     (if rsvBWActive b \<and> e \<noteq> reservedEID b then (False, b)
      else (case smbus_getBindingPrivateData N e b of
              (None, b1) \<Rightarrow> (False, b1)
            | (Some pvtData, b1) \<Rightarrow>
                (let prvt = get_private N pvtData
                 in if pv_mux_flags prvt \<noteq> IS_MUX_PORT N then (False, b1)
                    else if \<not> rsvBWActive b1 then
                      (if init_pull prvt < 0 then (False, b1)
                       else (let b2 = setMuxIdleMode muxIdleModeConnect b1;
                                 b3 = b2\<lparr>rsvBWActive := True, reservedEID := e\<rparr>
                             in (True, startTimerAndReleaseBW timeout prvt b3)))
                    else (True, startTimerAndReleaseBW timeout prvt b1))))"

definition smbus_releaseBandwidth :: "eid \<Rightarrow> 'a smbus_scheme \<Rightarrow> bool \<times> 'a smbus_scheme" where
  "smbus_releaseBandwidth e b =
     (if \<not> rsvBWActive b \<or> e \<noteq> reservedEID b then (False, b)
      else (True, (case bwWait b of
                     None \<Rightarrow> b
                   | Some p \<Rightarrow> b\<lparr>bwHandlers := bwHandlers b @ [(True, p)], bwWait := None\<rparr>)))"

section \<open>The routing table of an endpoint\<close>

definition isBindingDataSame :: "smbus_private \<Rightarrow> smbus_private \<Rightarrow> bool" where
  "isBindingDataSame dataMain dataTmp \<longleftrightarrow>
     (pv_fd dataMain, pv_slave_addr dataMain) = (pv_fd dataTmp, pv_slave_addr dataTmp)"

definition isDeviceTableChanged :: "DeviceTableEntry_t list \<Rightarrow> DeviceTableEntry_t list \<Rightarrow> bool" where
  "isDeviceTableChanged tableMain tableTmp \<longleftrightarrow>
     length tableMain \<noteq> length tableTmp \<or>
     list_ex (\<lambda>(m, t). fst m \<noteq> fst t \<or> \<not> isBindingDataSame (snd m) (snd t)) (zip tableMain tableTmp)"

definition isDeviceEntryPresent :: "DeviceTableEntry_t \<Rightarrow> DeviceTableEntry_t list \<Rightarrow> bool" where
  "isDeviceEntryPresent deviceEntry deviceTable \<longleftrightarrow>
     list_ex (\<lambda>entry. fst entry = fst deviceEntry) deviceTable"

text \<open>The entries of one response; \<open>None\<close> for an address beyond the end of the response.\<close>

fun smbus_read_entries ::
    "libmctp \<Rightarrow> nusmbus \<Rightarrow> fd \<Rightarrow> byte list \<Rightarrow> nat \<Rightarrow> nat \<Rightarrow> DeviceTableEntry_t list
     \<Rightarrow> DeviceTableEntry_t list option" where
  "smbus_read_entries L N ownerFd resp 0 offset tmp = Some tmp"
| "smbus_read_entries L N ownerFd resp (Suc n) offset tmp =
     (let entry = drop offset resp;
          phyAddrOffset = offset + sizeof_routing_entry L;
          nextOffset = phyAddrOffset + unat (rte_phys_address_size L entry)
      in if entry_binding_id N entry = BINDING_SMBUS N \<and> rte_phys_address_size L entry = 1
         then (if phyAddrOffset < length resp
               then (let smbusBindingPvt = \<lparr>pv_fd = ownerFd, pv_mux_hold_timeout = 0, pv_mux_flags = 0,
                           pv_slave_addr = push_bit 1 (resp ! phyAddrOffset)\<rparr>;
                         range = map (\<lambda>k. (entry_starting_eid N entry + of_nat k, smbusBindingPvt))
                                   [0 ..< unat (entry_eid_range_size N entry)]
                     in smbus_read_entries L N ownerFd resp n nextOffset (tmp @ range))
               else None)
         else smbus_read_entries L N ownerFd resp n nextOffset tmp)"

text \<open>How the loop of the coroutine is left.\<close>

datatype routing_result = CommandFailed | ReadBeyond | TableRead "DeviceTableEntry_t list"

text \<open>The loop does not change \<open>entryHdlCounter\<close>. \<open>None\<close> is a loop that does not end.\<close>

partial_function (option) smbus_routing_loop ::
    "libmctp \<Rightarrow> nusmbus \<Rightarrow> 'a smbus_scheme exchange \<Rightarrow> byte list \<Rightarrow> byte \<Rightarrow> byte
     \<Rightarrow> DeviceTableEntry_t list \<Rightarrow> 'a smbus_scheme \<Rightarrow> (routing_result \<times> 'a smbus_scheme) option" where
  [code]: "smbus_routing_loop L N X prvData entryHandle entryHdlCounter tmp b =
     (if \<not> (entryHandle \<noteq> 0xff \<and> entryHdlCounter < 0xff) then Some (TableRead tmp, b)
      else (case getRoutingTableCtrlCmd L X prvData (busOwnerEid b) entryHandle b of
              (None, b1) \<Rightarrow> Some (CommandFailed, b1)
            | (Some resp, b1) \<Rightarrow>
                (case smbus_read_entries L N (busOwnerFd b1) resp (unat (rt_number_of_entries L resp))
                        (sizeof_routing_table L) tmp of
                   None \<Rightarrow> Some (ReadBeyond, b1)
                 | Some tmp' \<Rightarrow>
                     smbus_routing_loop L N X prvData (next_entry_handle N resp) entryHdlCounter tmp' b1)))"

fun smbus_register_new ::
    "libmctp \<Rightarrow> 'a smbus_scheme exchange \<Rightarrow> byte list \<Rightarrow> DeviceTableEntry_t list
     \<Rightarrow> 'a smbus_scheme \<Rightarrow> 'a smbus_scheme" where
  "smbus_register_new L X prvData [] b = b"
| "smbus_register_new L X prvData (deviceTableEntry # newTable) b =
     (if \<not> isDeviceEntryPresent deviceTableEntry (smbusDeviceTable b)
      then (let (r, b') = registerEndpoint L X prvData (fst deviceTableEntry) Endpoint b
            in smbus_register_new L X prvData newTable b')
      else smbus_register_new L X prvData newTable b)"

definition smbus_processRoutingTableChanges ::
    "libmctp \<Rightarrow> 'a smbus_scheme exchange \<Rightarrow> DeviceTableEntry_t list \<Rightarrow> byte list
     \<Rightarrow> 'a smbus_scheme \<Rightarrow> 'a smbus_scheme" where
  "smbus_processRoutingTableChanges L X newTable prvData b =
     (let b1 = fold (\<lambda>deviceTableEntry b. if \<not> isDeviceEntryPresent deviceTableEntry newTable
                                          then unregisterEndpoint (fst deviceTableEntry) b else b)
                    (smbusDeviceTable b) b
      in smbus_register_new L X prvData newTable b1)"

text \<open>The coroutine that \<open>updateRoutingTable\<close> starts.\<close>

definition read_routing_table ::
    "libmctp \<Rightarrow> nusmbus \<Rightarrow> 'a smbus_scheme exchange \<Rightarrow> byte list
     \<Rightarrow> 'a smbus_scheme \<Rightarrow> (routing_result \<times> 'a smbus_scheme) option" where
  "read_routing_table L N X prvData b =
     (case smbus_routing_loop L N X prvData 0x00 0x00 [] b of
        Some (TableRead smbusDeviceTableTmp, b1) \<Rightarrow>
          (if isDeviceTableChanged (smbusDeviceTable b1) smbusDeviceTableTmp
           then (let b2 = smbus_processRoutingTableChanges L X smbusDeviceTableTmp prvData b1
                 in Some (TableRead smbusDeviceTableTmp, b2\<lparr>smbusDeviceTable := smbusDeviceTableTmp\<rparr>))
           else Some (TableRead smbusDeviceTableTmp, b1))
      | r \<Rightarrow> r)"

text \<open>
  The handler of the wait is \<open>updateRoutingTable\<close> itself, whatever the error code is:
  \<open>routingTimer\_handler\<close> takes it from the queue.
\<close>

definition smbus_updateRoutingTable :: "nusmbus \<Rightarrow> 'a smbus_scheme \<Rightarrow> 'a smbus_scheme" where
  "smbus_updateRoutingTable N b =
     (if smbusDiscoveredFlag b \<noteq> Discovered then b
      else (let pktPrv = \<lparr>pv_fd = busOwnerFd b, pv_mux_hold_timeout = 0, pv_mux_flags = 0,
                          pv_slave_addr = busOwnerSlaveAddr b\<rparr>
            in b\<lparr>routingReads := routingReads b @ [put_private N pktPrv],
                 routingHandlers := routingHandlers b + (if routingWait b then 1 else 0),
                 routingWait := True\<rparr>))"

definition routingTimer_handler :: "nusmbus \<Rightarrow> 'a smbus_scheme \<Rightarrow> 'a smbus_scheme" where
  "routingTimer_handler N b =
     (if routingHandlers b = 0 then b
      else smbus_updateRoutingTable N (b\<lparr>routingHandlers := routingHandlers b - 1\<rparr>))"

definition routingTimer_expires :: "'a smbus_scheme \<Rightarrow> 'a smbus_scheme" where
  "routingTimer_expires b =
     (if routingWait b then b\<lparr>routingWait := False, routingHandlers := routingHandlers b + 1\<rparr> else b)"

section \<open>Control handlers\<close>

definition smbus_handleGetEndpointId :: "libmctp \<Rightarrow> nusmbus \<Rightarrow> 'a smbus_scheme handler" where
  "smbus_handleGetEndpointId L N destEid bindingPrivate request b =
     (case base_handleGetEndpointId L destEid bindingPrivate request b of
        (Reply resp priv, b1) \<Rightarrow>
          (case smbus_getBindingPrivateData N destEid b1 of
             (Some bindingPvtVect, b2) \<Rightarrow> (Reply resp bindingPvtVect, b2)
           | (None, b2) \<Rightarrow> (Silent, b2))
      | r \<Rightarrow> r)"

definition smbus_handleSetEndpointId :: "libmctp \<Rightarrow> nusmbus \<Rightarrow> 'a smbus_scheme handler" where
  "smbus_handleSetEndpointId L N destEid bindingPrivate request b =
     (case base_handleSetEndpointId L destEid bindingPrivate request b of
        (Reply resp0 priv, b1) \<Rightarrow>
          (let resp = resize (sizeof_set_eid L) resp0
           in if resp ! completionCodeIndex = CC_SUCCESS L
              then (let b2 = updateDiscoveredFlag Discovered b1;
                        smbusPrivate = get_private N bindingPrivate;
                        b3 = b2\<lparr>busOwnerSlaveAddr := pv_slave_addr smbusPrivate,
                                busOwnerFd := pv_fd smbusPrivate\<rparr>
                    in (Reply resp priv,
                        if bindingModeType b3 \<noteq> BusOwner then smbus_updateRoutingTable N b3 else b3))
              else (Reply resp priv, b1))
      | r \<Rightarrow> r)"

definition smbus_handleGetVdmSupport :: "libmctp \<Rightarrow> nusmbus \<Rightarrow> 'a smbus_scheme handler" where
  "smbus_handleGetVdmSupport L N destEid bindingPrivate request b =
     (if length request < sizeof_vdm_command N then (Silent, b)
      else (case vdm_support N destEid of
              None \<Rightarrow> (Silent, b)
            | Some resp \<Rightarrow>
                (let setIndex = unat (vdm_selector N request)
                 in if setIndex + 1 > length (vdmSetDatabase b)
                    then (Reply (take 4 (resp[completionCodeIndex := CC_ERROR_INVALID_DATA N])) bindingPrivate, b)
                    else (let sel = (if setIndex + 1 = length (vdmSetDatabase b) then vendorIdNoMoreSets
                                     else of_nat (setIndex + 1))
                          in (Reply (vdm_answer N resp sel (vdmSetDatabase b ! setIndex)) bindingPrivate, b)))))"

text \<open>\<open>handleGetVersionSupport\<close> and \<open>handleGetMsgTypeSupport\<close> only call those of the base class.\<close>

definition smbus_binding ::
    "libmctp \<Rightarrow> nusmbus \<Rightarrow> (smbus_private \<Rightarrow> int) \<Rightarrow> 'a smbus_scheme virtual" where
  "smbus_binding L N init_pull = (base_binding L)\<lparr>
     getBindingPrivateData := smbus_getBindingPrivateData N,
     addUnknownEIDToDeviceTable := smbus_addUnknownEIDToDeviceTable N,
     reserveBandwidth := smbus_reserveBandwidth N init_pull,
     releaseBandwidth := smbus_releaseBandwidth,
     handleGetEndpointId := smbus_handleGetEndpointId L N,
     handleSetEndpointId := smbus_handleSetEndpointId L N,
     handleGetVdmSupport := smbus_handleGetVdmSupport L N\<rparr>"

end
