(* ===== verification/Pldm_Crc.thy ===== *)
theory Pldm_Crc
  imports Pmci_Prelude
begin

text \<open>
  The checksums of the PLDM library (libpldm\_intel/utils.c): \<open>crc32\<close> guards firmware
  package headers, version tables and FRU tables, \<open>crc8\<close> guards PDRs fetched in parts. Both
  are table driven. The lemmas derive the tables from the generator polynomials, so that
  each routine equals the bit-serial computation, and show that a checksum tells apart any
  two messages that differ in one byte.
\<close>

unbundle bit_operations_syntax

section \<open>Model\<close>

definition crc32_tab :: "u32 list" where
  "crc32_tab = [
     0x00000000, 0x77073096, 0xee0e612c, 0x990951ba, 0x076dc419, 0x706af48f,
     0xe963a535, 0x9e6495a3, 0x0edb8832, 0x79dcb8a4, 0xe0d5e91e, 0x97d2d988,
     0x09b64c2b, 0x7eb17cbd, 0xe7b82d07, 0x90bf1d91, 0x1db71064, 0x6ab020f2,
     0xf3b97148, 0x84be41de, 0x1adad47d, 0x6ddde4eb, 0xf4d4b551, 0x83d385c7,
     0x136c9856, 0x646ba8c0, 0xfd62f97a, 0x8a65c9ec, 0x14015c4f, 0x63066cd9,
     0xfa0f3d63, 0x8d080df5, 0x3b6e20c8, 0x4c69105e, 0xd56041e4, 0xa2677172,
     0x3c03e4d1, 0x4b04d447, 0xd20d85fd, 0xa50ab56b, 0x35b5a8fa, 0x42b2986c,
     0xdbbbc9d6, 0xacbcf940, 0x32d86ce3, 0x45df5c75, 0xdcd60dcf, 0xabd13d59,
     0x26d930ac, 0x51de003a, 0xc8d75180, 0xbfd06116, 0x21b4f4b5, 0x56b3c423,
     0xcfba9599, 0xb8bda50f, 0x2802b89e, 0x5f058808, 0xc60cd9b2, 0xb10be924,
     0x2f6f7c87, 0x58684c11, 0xc1611dab, 0xb6662d3d, 0x76dc4190, 0x01db7106,
     0x98d220bc, 0xefd5102a, 0x71b18589, 0x06b6b51f, 0x9fbfe4a5, 0xe8b8d433,
     0x7807c9a2, 0x0f00f934, 0x9609a88e, 0xe10e9818, 0x7f6a0dbb, 0x086d3d2d,
     0x91646c97, 0xe6635c01, 0x6b6b51f4, 0x1c6c6162, 0x856530d8, 0xf262004e,
     0x6c0695ed, 0x1b01a57b, 0x8208f4c1, 0xf50fc457, 0x65b0d9c6, 0x12b7e950,
     0x8bbeb8ea, 0xfcb9887c, 0x62dd1ddf, 0x15da2d49, 0x8cd37cf3, 0xfbd44c65,
     0x4db26158, 0x3ab551ce, 0xa3bc0074, 0xd4bb30e2, 0x4adfa541, 0x3dd895d7,
     0xa4d1c46d, 0xd3d6f4fb, 0x4369e96a, 0x346ed9fc, 0xad678846, 0xda60b8d0,
     0x44042d73, 0x33031de5, 0xaa0a4c5f, 0xdd0d7cc9, 0x5005713c, 0x270241aa,
     0xbe0b1010, 0xc90c2086, 0x5768b525, 0x206f85b3, 0xb966d409, 0xce61e49f,
     0x5edef90e, 0x29d9c998, 0xb0d09822, 0xc7d7a8b4, 0x59b33d17, 0x2eb40d81,
     0xb7bd5c3b, 0xc0ba6cad, 0xedb88320, 0x9abfb3b6, 0x03b6e20c, 0x74b1d29a,
     0xead54739, 0x9dd277af, 0x04db2615, 0x73dc1683, 0xe3630b12, 0x94643b84,
     0x0d6d6a3e, 0x7a6a5aa8, 0xe40ecf0b, 0x9309ff9d, 0x0a00ae27, 0x7d079eb1,
     0xf00f9344, 0x8708a3d2, 0x1e01f268, 0x6906c2fe, 0xf762575d, 0x806567cb,
     0x196c3671, 0x6e6b06e7, 0xfed41b76, 0x89d32be0, 0x10da7a5a, 0x67dd4acc,
     0xf9b9df6f, 0x8ebeeff9, 0x17b7be43, 0x60b08ed5, 0xd6d6a3e8, 0xa1d1937e,
     0x38d8c2c4, 0x4fdff252, 0xd1bb67f1, 0xa6bc5767, 0x3fb506dd, 0x48b2364b,
     0xd80d2bda, 0xaf0a1b4c, 0x36034af6, 0x41047a60, 0xdf60efc3, 0xa867df55,
     0x316e8eef, 0x4669be79, 0xcb61b38c, 0xbc66831a, 0x256fd2a0, 0x5268e236,
     0xcc0c7795, 0xbb0b4703, 0x220216b9, 0x5505262f, 0xc5ba3bbe, 0xb2bd0b28,
     0x2bb45a92, 0x5cb36a04, 0xc2d7ffa7, 0xb5d0cf31, 0x2cd99e8b, 0x5bdeae1d,
     0x9b64c2b0, 0xec63f226, 0x756aa39c, 0x026d930a, 0x9c0906a9, 0xeb0e363f,
     0x72076785, 0x05005713, 0x95bf4a82, 0xe2b87a14, 0x7bb12bae, 0x0cb61b38,
     0x92d28e9b, 0xe5d5be0d, 0x7cdcefb7, 0x0bdbdf21, 0x86d3d2d4, 0xf1d4e242,
     0x68ddb3f8, 0x1fda836e, 0x81be16cd, 0xf6b9265b, 0x6fb077e1, 0x18b74777,
     0x88085ae6, 0xff0f6a70, 0x66063bca, 0x11010b5c, 0x8f659eff, 0xf862ae69,
     0x616bffd3, 0x166ccf45, 0xa00ae278, 0xd70dd2ee, 0x4e048354, 0x3903b3c2,
     0xa7672661, 0xd06016f7, 0x4969474d, 0x3e6e77db, 0xaed16a4a, 0xd9d65adc,
     0x40df0b66, 0x37d83bf0, 0xa9bcae53, 0xdebb9ec5, 0x47b2cf7f, 0x30b5ffe9,
     0xbdbdf21c, 0xcabac28a, 0x53b39330, 0x24b4a3a6, 0xbad03605, 0xcdd70693,
     0x54de5729, 0x23d967bf, 0xb3667a2e, 0xc4614ab8, 0x5d681b02, 0x2a6f2b94,
     0xb40bbe37, 0xc30c8ea1, 0x5a05df1b, 0x2d02ef8d]"

definition crc8_table :: "byte list" where
  "crc8_table = [
     0x00, 0x07, 0x0e, 0x09, 0x1c, 0x1b, 0x12, 0x15, 0x38, 0x3f, 0x36, 0x31,
     0x24, 0x23, 0x2a, 0x2d, 0x70, 0x77, 0x7e, 0x79, 0x6c, 0x6b, 0x62, 0x65,
     0x48, 0x4f, 0x46, 0x41, 0x54, 0x53, 0x5a, 0x5d, 0xe0, 0xe7, 0xee, 0xe9,
     0xfc, 0xfb, 0xf2, 0xf5, 0xd8, 0xdf, 0xd6, 0xd1, 0xc4, 0xc3, 0xca, 0xcd,
     0x90, 0x97, 0x9e, 0x99, 0x8c, 0x8b, 0x82, 0x85, 0xa8, 0xaf, 0xa6, 0xa1,
     0xb4, 0xb3, 0xba, 0xbd, 0xc7, 0xc0, 0xc9, 0xce, 0xdb, 0xdc, 0xd5, 0xd2,
     0xff, 0xf8, 0xf1, 0xf6, 0xe3, 0xe4, 0xed, 0xea, 0xb7, 0xb0, 0xb9, 0xbe,
     0xab, 0xac, 0xa5, 0xa2, 0x8f, 0x88, 0x81, 0x86, 0x93, 0x94, 0x9d, 0x9a,
     0x27, 0x20, 0x29, 0x2e, 0x3b, 0x3c, 0x35, 0x32, 0x1f, 0x18, 0x11, 0x16,
     0x03, 0x04, 0x0d, 0x0a, 0x57, 0x50, 0x59, 0x5e, 0x4b, 0x4c, 0x45, 0x42,
     0x6f, 0x68, 0x61, 0x66, 0x73, 0x74, 0x7d, 0x7a, 0x89, 0x8e, 0x87, 0x80,
     0x95, 0x92, 0x9b, 0x9c, 0xb1, 0xb6, 0xbf, 0xb8, 0xad, 0xaa, 0xa3, 0xa4,
     0xf9, 0xfe, 0xf7, 0xf0, 0xe5, 0xe2, 0xeb, 0xec, 0xc1, 0xc6, 0xcf, 0xc8,
     0xdd, 0xda, 0xd3, 0xd4, 0x69, 0x6e, 0x67, 0x60, 0x75, 0x72, 0x7b, 0x7c,
     0x51, 0x56, 0x5f, 0x58, 0x4d, 0x4a, 0x43, 0x44, 0x19, 0x1e, 0x17, 0x10,
     0x05, 0x02, 0x0b, 0x0c, 0x21, 0x26, 0x2f, 0x28, 0x3d, 0x3a, 0x33, 0x34,
     0x4e, 0x49, 0x40, 0x47, 0x52, 0x55, 0x5c, 0x5b, 0x76, 0x71, 0x78, 0x7f,
     0x6a, 0x6d, 0x64, 0x63, 0x3e, 0x39, 0x30, 0x37, 0x22, 0x25, 0x2c, 0x2b,
     0x06, 0x01, 0x08, 0x0f, 0x1a, 0x1d, 0x14, 0x13, 0xae, 0xa9, 0xa0, 0xa7,
     0xb2, 0xb5, 0xbc, 0xbb, 0x96, 0x91, 0x98, 0x9f, 0x8a, 0x8d, 0x84, 0x83,
     0xde, 0xd9, 0xd0, 0xd7, 0xc2, 0xc5, 0xcc, 0xcb, 0xe6, 0xe1, 0xe8, 0xef,
     0xfa, 0xfd, 0xf4, 0xf3]"

definition crc32_step :: "u32 \<Rightarrow> byte \<Rightarrow> u32" where
  "crc32_step crc b = crc32_tab ! unat ((crc XOR ucast b) AND 0xff) XOR drop_bit 8 crc"

definition crc32 :: "byte list \<Rightarrow> u32" where
  "crc32 data = foldl crc32_step (NOT 0) data XOR NOT 0"

definition crc8_step :: "byte \<Rightarrow> byte \<Rightarrow> byte" where
  "crc8_step crc b = crc8_table ! unat (crc XOR b)"

definition crc8 :: "byte list \<Rightarrow> byte" where
  "crc8 data = foldl crc8_step 0x00 data"

section \<open>Bit-serial computation\<close>

text \<open>One step of division by the reflected polynomial 0xEDB88320, and by x^8+x^2+x+1.\<close>

definition crc32_bit :: "u32 \<Rightarrow> u32" where
  "crc32_bit c = (if bit c 0 then drop_bit 1 c XOR 0xEDB88320 else drop_bit 1 c)"

definition crc8_bit :: "byte \<Rightarrow> byte" where
  "crc8_bit c = (if bit c 7 then push_bit 1 c XOR 0x07 else push_bit 1 c)"

definition crc32_serial :: "byte list \<Rightarrow> u32" where
  "crc32_serial data = foldl (\<lambda>crc b. (crc32_bit ^^ 8) (crc XOR ucast b)) (NOT 0) data XOR NOT 0"

definition crc8_serial :: "byte list \<Rightarrow> byte" where
  "crc8_serial data = foldl (\<lambda>crc b. (crc8_bit ^^ 8) (crc XOR b)) 0 data"

section \<open>The tables hold the bit-serial steps\<close>

lemma crc32_bit_linear: "crc32_bit (a XOR b) = crc32_bit a XOR crc32_bit b"
  by (rule bit_word_eqI) (auto simp: crc32_bit_def bit_xor_iff bit_drop_bit_eq)

lemma crc8_bit_linear: "crc8_bit (a XOR b) = crc8_bit a XOR crc8_bit b"
  by (rule bit_word_eqI) (auto simp: crc8_bit_def bit_xor_iff bit_push_bit_iff)

lemma funpow_linear:
  fixes f :: "'a::len word \<Rightarrow> 'a word"
  assumes "\<And>a b. f (a XOR b) = f a XOR f b"
  shows "(f ^^ n) (a XOR b) = (f ^^ n) a XOR (f ^^ n) b"
  by (induction n) (simp_all add: assms)

text \<open>A table of a linear function doubles: the upper half is the lower half plus one value.\<close>

definition twice :: "'a::len word \<Rightarrow> 'a word list \<Rightarrow> 'a word list" where
  "twice v t = t @ map (\<lambda>x. x XOR v) t"

definition tabulates :: "nat \<Rightarrow> ('a::len word \<Rightarrow> 'a word) \<Rightarrow> 'a word list \<Rightarrow> bool" where
  "tabulates k f t \<longleftrightarrow> length t = 2 ^ k \<and> (\<forall>i < 2 ^ k. t ! i = f (word_of_nat i))"

lemma add_high_bit:
  assumes "i < 2 ^ k"
  shows "(word_of_nat (i + 2 ^ k) :: 'a::len word) = word_of_nat i XOR 2 ^ k"
proof -
  have "\<not> bit i k"
    using assms by (simp add: bit_iff_odd)
  then have "(word_of_nat i :: 'a word) AND 2 ^ k = 0"
    by (intro bit_word_eqI) (auto simp: bit_simps)
  then show ?thesis
    by (simp add: disjunctive_add_eq_xor)
qed

lemma tabulates_twice:
  fixes f :: "'a::len word \<Rightarrow> 'a word"
  assumes lin: "\<And>a b. f (a XOR b) = f a XOR f b"
    and t: "tabulates k f t" and v: "v = f (2 ^ k)"
  shows "tabulates (Suc k) f (twice v t)"
proof -
  have "twice v t ! i = f (word_of_nat i)" if i: "i < 2 ^ Suc k" for i
  proof (cases "i < 2 ^ k")
    case True
    then show ?thesis using t by (simp add: tabulates_def twice_def nth_append)
  next
    case False
    then obtain j where j: "i = j + 2 ^ k" by (metis add.commute le_iff_add not_less)
    with i have "j < 2 ^ k" by simp
    with t v j show ?thesis
      by (simp add: tabulates_def twice_def nth_append add_high_bit lin del: of_nat_add)
  qed
  then show ?thesis
    using t by (simp add: tabulates_def twice_def)
qed

lemma crc32_tab_doubles: "crc32_tab = twice 0xEDB88320 (twice 0x76DC4190 (twice 0x3B6E20C8 (twice 0x1DB71064
    (twice 0x0EDB8832 (twice 0x076DC419 (twice 0xEE0E612C (twice 0x77073096 [0])))))))"
  by (simp add: crc32_tab_def twice_def)

lemma crc8_table_doubles: "crc8_table = twice 0x89 (twice 0xC7 (twice 0xE0 (twice 0x70
    (twice 0x38 (twice 0x1C (twice 0x0E (twice 0x07 [0])))))))"
  by (simp add: crc8_table_def twice_def)

lemma tabulates_0: "f 0 = 0 \<Longrightarrow> tabulates 0 f [0]"
  by (simp add: tabulates_def)

lemma eight: "(f ^^ 8) x = f (f (f (f (f (f (f (f x)))))))"
  by (simp add: numeral_eq_Suc)

lemma crc32_tab_serial: "tabulates 8 (crc32_bit ^^ 8) crc32_tab"
proof -
  note lin = funpow_linear [of crc32_bit, OF crc32_bit_linear, where n = 8]
  note step = tabulates_twice [of "crc32_bit ^^ 8", OF lin]
  have "tabulates (Suc (Suc (Suc (Suc (Suc (Suc (Suc (Suc 0)))))))) (crc32_bit ^^ 8) crc32_tab"
    unfolding crc32_tab_doubles
    by (intro step tabulates_0) (simp_all add: eight crc32_bit_def)
  then show ?thesis by (simp add: numeral_eq_Suc)
qed

lemma crc8_table_serial: "tabulates 8 (crc8_bit ^^ 8) crc8_table"
proof -
  note lin = funpow_linear [of crc8_bit, OF crc8_bit_linear, where n = 8]
  note step = tabulates_twice [of "crc8_bit ^^ 8", OF lin]
  have "tabulates (Suc (Suc (Suc (Suc (Suc (Suc (Suc (Suc 0)))))))) (crc8_bit ^^ 8) crc8_table"
    unfolding crc8_table_doubles
    by (intro step tabulates_0) (simp_all add: eight crc8_bit_def)
  then show ?thesis by (simp add: numeral_eq_Suc)
qed

lemma crc32_tab_nth: "crc32_tab ! unat (ucast (b::byte) :: u32) = (crc32_bit ^^ 8) (ucast b)"
  using crc32_tab_serial byte_less [of b] by (auto simp: tabulates_def)

lemma crc8_table_nth: "crc8_table ! unat b = (crc8_bit ^^ 8) b"
  using crc8_table_serial byte_less [of b] by (auto simp: tabulates_def)

text \<open>Eight steps shift out a word whose low byte is zero.\<close>

lemma crc32_high: "\<forall>n < 8. \<not> bit c n \<Longrightarrow> (crc32_bit ^^ 8) c = drop_bit 8 c"
  by (simp add: eight crc32_bit_def bit_drop_bit_eq) (simp add: numeral_eq_Suc)

lemma crc32_step_serial: "crc32_step crc b = (crc32_bit ^^ 8) (crc XOR ucast b)"
proof -
  let ?x = "crc XOR ucast b" and ?m = "mask 8 :: u32"
  note lin = funpow_linear [of crc32_bit, OF crc32_bit_linear, where n = 8]
  have split: "?x = (?x AND ?m) XOR (?x AND NOT ?m)"
    by (rule bit_word_eqI) (auto simp: bit_simps)
  have m: "(0xFF :: u32) = ?m"
    by (simp add: mask_eq_exp_minus_1)
  have low: "?x AND ?m = ucast (ucast ?x :: byte)"
    by (rule bit_word_eqI) (auto simp: bit_simps)
  have "(crc32_bit ^^ 8) (?x AND NOT ?m) = drop_bit 8 (?x AND NOT ?m)"
    by (rule crc32_high) (simp add: bit_simps)
  also have "\<dots> = drop_bit 8 crc"
  proof (rule bit_word_eqI)
    fix n
    have "\<not> bit b (8 + n)"
      by (auto dest: bit_imp_le_length)
    then show "bit (drop_bit 8 (?x AND NOT ?m)) n = bit (drop_bit 8 crc) n"
      by (auto simp: bit_simps dest: bit_imp_le_length)
  qed
  finally have high: "(crc32_bit ^^ 8) (?x AND NOT ?m) = drop_bit 8 crc" .
  have "(crc32_bit ^^ 8) ?x = (crc32_bit ^^ 8) (?x AND ?m) XOR (crc32_bit ^^ 8) (?x AND NOT ?m)"
    by (subst split) (rule lin)
  then show ?thesis
    unfolding crc32_step_def m low high by (simp only: crc32_tab_nth)
qed

lemma crc8_step_serial: "crc8_step crc b = (crc8_bit ^^ 8) (crc XOR b)"
  by (simp add: crc8_step_def crc8_table_nth)

section \<open>Error detection\<close>

lemma inj_linear:
  fixes f :: "'a::len word \<Rightarrow> 'a word"
  assumes "\<And>a b. f (a XOR b) = f a XOR f b" and "\<And>z. f z = 0 \<Longrightarrow> z = 0"
  shows "inj f"
proof (rule injI)
  fix x y assume "f x = f y"
  then have "f (x XOR y) = 0" by (simp add: assms(1))
  then have "x XOR y = 0" by (rule assms(2))
  then show "x = y" by (metis xor.right_neutral xor_self_eq xor.assoc xor.left_neutral)
qed

lemma inj_crc32_bit: "inj crc32_bit"
proof (rule inj_linear [OF crc32_bit_linear])
  fix z :: u32 assume z: "crc32_bit z = 0"
  have "\<not> bit z 0"
  proof
    assume "bit z 0"
    with z have "bit (drop_bit 1 z XOR 0xEDB88320) 31 = bit (0 :: u32) 31"
      by (simp only: crc32_bit_def if_True)
    then show False
      by (simp add: bit_xor_iff bit_drop_bit_eq) (auto dest: bit_imp_le_length)
  qed
  with z have "\<not> bit z n" for n
    by (cases n) (auto simp: crc32_bit_def bit_drop_bit_eq dest: arg_cong [where f = "\<lambda>w. bit w (n - 1)"])
  then show "z = 0"
    by (simp add: bit_eq_iff)
qed

lemma inj_crc8_bit: "inj crc8_bit"
proof (rule inj_linear [OF crc8_bit_linear])
  fix z :: byte assume z: "crc8_bit z = 0"
  have "\<not> bit z 7"
  proof
    assume "bit z 7"
    with z have "bit (push_bit 1 z XOR 0x07) 0 = bit (0 :: byte) 0"
      by (simp only: crc8_bit_def if_True)
    then show False
      by (simp add: bit_0 even_xor_iff)
  qed
  with z have "push_bit 1 z = 0" by (simp add: crc8_bit_def)
  moreover have "bit (push_bit 1 z) (Suc n) \<longleftrightarrow> Suc n < 8 \<and> bit z n" for n
    unfolding bit_push_bit_iff by auto
  ultimately have low: "Suc n < 8 \<Longrightarrow> \<not> bit z n" for n
    by (metis bit_0_eq bot_apply bot_bool_def)
  have "\<not> bit z n" for n
    using low [of n] \<open>\<not> bit z 7\<close> bit_imp_le_length [of z n]
    by (cases "n = 7") auto
  then show "z = 0"
    by (simp add: bit_eq_iff)
qed

text \<open>A checksum that absorbs one byte at a time without losing information.\<close>

locale byte_checksum =
  fixes absorb :: "'s \<Rightarrow> byte \<Rightarrow> 's" and start :: "'s" and finish :: "'s \<Rightarrow> 's"
  assumes absorb_state: "absorb s b = absorb t b \<Longrightarrow> s = t"
    and absorb_byte: "absorb s a = absorb s b \<Longrightarrow> a = b"
    and finish_inj: "finish s = finish t \<Longrightarrow> s = t"
begin

definition checksum :: "byte list \<Rightarrow> 's" where
  "checksum data = finish (foldl absorb start data)"

lemma foldl_absorb_inj: "foldl absorb s data = foldl absorb t data \<Longrightarrow> s = t"
  by (induction data arbitrary: s t) (auto dest: absorb_state)

lemma one_byte_detected: "checksum (xs @ a # ys) = checksum (xs @ b # ys) \<Longrightarrow> a = b"
  unfolding checksum_def by (auto dest!: finish_inj foldl_absorb_inj absorb_byte)

lemma corrupted_byte_detected:
  assumes "i < length data" "data ! i \<noteq> b"
  shows "checksum (data[i := b]) \<noteq> checksum data"
proof
  assume "checksum (data[i := b]) = checksum data"
  then have "checksum (take i data @ b # drop (Suc i) data)
      = checksum (take i data @ data ! i # drop (Suc i) data)"
    using assms(1) by (simp add: upd_conv_take_nth_drop id_take_nth_drop [symmetric])
  with assms(2) show False
    using one_byte_detected by metis
qed

end

lemma xor_right_cancel: "(x XOR a = y XOR a) = (x = (y :: 'a::len word))"
  by (metis xor.assoc xor.right_neutral xor_self_eq)

lemma xor_left_cancel: "(a XOR x = a XOR y) = (x = (y :: 'a::len word))"
  by (metis xor.assoc xor.left_neutral xor_self_eq)

lemma ucast_byte_inj: "(ucast (a::byte) :: u32) = ucast b \<Longrightarrow> a = b"
  by (metis unat_byte_u32 word_unat_eq_iff)

interpretation crc32: byte_checksum crc32_step "NOT 0" "\<lambda>crc. crc XOR NOT 0"
proof
  show "crc32_step s b = crc32_step t b \<Longrightarrow> s = t" for s t b
    by (auto simp: crc32_step_serial xor_right_cancel dest!: injD [OF inj_fn [OF inj_crc32_bit]])
  show "crc32_step s a = crc32_step s b \<Longrightarrow> a = b" for s a b
    by (auto simp: crc32_step_serial xor_left_cancel dest!: injD [OF inj_fn [OF inj_crc32_bit]]
          dest!: ucast_byte_inj)
  show "s XOR NOT 0 = t XOR NOT 0 \<Longrightarrow> s = t" for s t :: u32
    by (simp only: xor_right_cancel)
qed

interpretation crc8: byte_checksum crc8_step "0x00" "\<lambda>crc. crc"
proof
  show "crc8_step s b = crc8_step t b \<Longrightarrow> s = t" for s t b
    by (auto simp: crc8_step_serial xor_right_cancel dest!: injD [OF inj_fn [OF inj_crc8_bit]])
  show "crc8_step s a = crc8_step s b \<Longrightarrow> a = b" for s a b
    by (auto simp: crc8_step_serial xor_left_cancel dest!: injD [OF inj_fn [OF inj_crc8_bit]])
qed

lemma crc32_checksum: "crc32 = crc32.checksum"
  by (rule ext) (simp only: crc32_def crc32.checksum_def)

lemma crc8_checksum: "crc8 = crc8.checksum"
  by (rule ext) (simp only: crc8_def crc8.checksum_def)

section \<open>Properties\<close>

text \<open>
  C40: The table-driven checksums are the bit-serial divisions by their generator
  polynomials: the 512 table entries are right.
\<close>
theorem checksums_are_bit_serial: "crc32 data = crc32_serial data \<and> crc8 data = crc8_serial data"
  by (simp add: crc32_def crc8_def crc32_serial_def crc8_serial_def crc32_step_serial crc8_step_serial
      cong: foldl_cong)

text \<open>
  Both checksums detect every corruption of a single byte, wherever it is and whatever
  the message.
\<close>
lemma one_corrupted_byte_changes_checksum:
  assumes "i < length data" and "data ! i \<noteq> b"
  shows "crc32 (data[i := b]) \<noteq> crc32 data \<and> crc8 (data[i := b]) \<noteq> crc8 data"
  unfolding crc32_checksum crc8_checksum
  using crc32.corrupted_byte_detected [OF assms] crc8.corrupted_byte_detected [OF assms] by simp

lemma one_corrupted_byte_changes_checksum_witness:
  "crc32 [0x31, 0x33] \<noteq> crc32 [0x31, 0x32] \<and> crc8 [0x31, 0x33] \<noteq> crc8 [0x31, 0x32]"
  using one_corrupted_byte_changes_checksum [of 1 "[0x31, 0x32]" "0x33"] by simp

end
