(* ===== verification/Fwu_Descriptors.thy ===== *)
theory Fwu_Descriptors
  imports Pldm_Crc "HOL-Library.List_Lexorder" "HOL-Library.Char_ord" "HOL-Library.Monad_Syntax"
begin

text \<open>
  The values firmware update works with (pldmd/include/fwu\_utils.hpp) and the descriptors
  that identify a firmware device (pldmd/src/fwu\_utils.cpp). \<open>std::variant\<close> is a datatype
  with one constructor per alternative, a \<open>std::map\<close> keyed by strings a sorted association
  list, a \<open>std::string\<close> read from a packet or file its list of bytes.
\<close>

section \<open>Model\<close>

text \<open>\<open>size\_t\<close> has 32 bits on the ARM SoCs the hardware drivers are written for.\<close>

definition size_sub :: "nat \<Rightarrow> nat \<Rightarrow> nat" where
  "size_sub a b = nat ((int a - int b) mod 2 ^ 32)"

definition size_add :: "nat \<Rightarrow> nat \<Rightarrow> nat" where
  "size_add a b = (a + b) mod 2 ^ 32"

datatype fwu_variant =
    V_u8 byte
  | V_u16 u16
  | V_u32 u32
  | V_u64 u64
  | V_bits16 u16
  | V_bits32 u32
  | V_string "byte list"
  | V_bytes "byte list"

type_synonym fwu_properties = "(string \<times> fwu_variant) list"
type_synonym comp_properties_map = "(u16 \<times> fwu_properties) list"

datatype descriptor_value = D_u8 byte | D_u16 u16 | D_u32 u32

type_synonym descriptors_map = "(string \<times> descriptor_value) list"
type_synonym fd_properties = "fwu_properties \<times> descriptors_map \<times> comp_properties_map"

definition pciVendorID :: u16 where "pciVendorID = 0"
definition pciDeviceID :: u16 where "pciDeviceID = 0x0100"
definition pciSubsystemVendorID :: u16 where "pciSubsystemVendorID = 0x0101"
definition pciSubsystemID :: u16 where "pciSubsystemID = 0x0102"
definition pciRevisionID :: u16 where "pciRevisionID = 0x0103"

text \<open>
  \<open>processDescriptor\<close>: a value of 1, 2 or 4 bytes of one of the five PCI types is kept;
  other types are only logged, and the overload for other sizes does nothing.
\<close>

definition processDescriptor :: "u16 \<Rightarrow> descriptor_value \<Rightarrow> descriptors_map \<Rightarrow> descriptors_map" where
  "processDescriptor ty v m =
     (if ty = pciVendorID then map_assign ''PCIVendorID'' v m
      else if ty = pciDeviceID then map_assign ''PCIDeviceID'' v m
      else if ty = pciSubsystemVendorID then map_assign ''PCISubsystemVendorID'' v m
      else if ty = pciSubsystemID then map_assign ''PCISubsystemID'' v m
      else if ty = pciRevisionID then map_assign ''PCIRevisionID'' v m
      else m)"

text \<open>The bytes at \<open>it\<close> read at the width of the header's size.\<close>

definition unpack_data :: "u16 \<Rightarrow> nat \<Rightarrow> byte list \<Rightarrow> descriptors_map \<Rightarrow> descriptors_map" where
  "unpack_data ty n bs m =
     (if n = 1 then processDescriptor ty (D_u8 (bs ! 0)) m
      else if n = 2 then processDescriptor ty (D_u16 (read16 bs 0)) m
      else if n = 4 then processDescriptor ty (D_u32 (read32 bs 0)) m
      else m)"

text \<open>
  The loop of \<open>unpackDescriptors\<close>: \<open>bs\<close> is what is left of the data, \<open>found\<close> the number of
  descriptors unpacked, \<open>ini\<close> the reference parameter \<open>initialDescriptorType\<close>, which keeps
  the caller's value when no descriptor is found.
\<close>

function unpack_loop :: "nat \<Rightarrow> nat \<Rightarrow> byte list \<Rightarrow> u16 \<Rightarrow> descriptors_map
    \<Rightarrow> nat \<times> u16 \<times> descriptors_map" where
  "unpack_loop count found bs ini m =
     (if bs = [] \<or> found = count then (found, ini, m)
      else if length bs \<le> 4 then (found, ini, m)
      else let ty = read16 bs 0; n = unat (read16 bs 2); rest = drop 4 bs in
        if length rest < n then (found, ini, m)
        else unpack_loop count (found + 1) (drop n rest)
               (if found = 0 then ty else ini) (unpack_data ty n rest m))"
  by pat_completeness auto
termination by (relation "measure (\<lambda>(_, _, bs, _, _). length bs)") auto

declare unpack_loop.simps [simp del]

definition unpackDescriptors :: "byte \<Rightarrow> byte list \<Rightarrow> u16 \<Rightarrow> descriptors_map \<Rightarrow> u16 \<times> descriptors_map" where
  "unpackDescriptors count bs ini m = snd (unpack_loop (unat count) 0 bs ini m)"

text \<open>\<open>isprint\<close> in the C locale, and \<open>toString\<close> of a \<open>variable\_field\<close> (\<open>None\<close> is a null pointer).\<close>

definition isprint :: "byte \<Rightarrow> bool" where
  "isprint c \<longleftrightarrow> 0x20 \<le> c \<and> c \<le> 0x7E"

definition toString :: "byte list option \<Rightarrow> byte list" where
  "toString var = (case var of None \<Rightarrow> [] | Some s \<Rightarrow> map (\<lambda>c. if isprint c then c else 0x20) s)"

section \<open>Encoding of descriptors\<close>

definition enc16 :: "u16 \<Rightarrow> byte list" where
  "enc16 w = [ucast w, ucast (drop_bit 8 w)]"

definition enc32 :: "u32 \<Rightarrow> byte list" where
  "enc32 w = [ucast w, ucast (drop_bit 8 w), ucast (drop_bit 16 w), ucast (drop_bit 24 w)]"

definition enc_descriptor :: "u16 \<times> byte list \<Rightarrow> byte list" where
  "enc_descriptor d = enc16 (fst d) @ enc16 (word_of_nat (length (snd d))) @ snd d"

definition descriptors_of :: "(u16 \<times> byte list) list \<Rightarrow> descriptors_map" where
  "descriptors_of ds = fold (\<lambda>d. unpack_data (fst d) (length (snd d)) (snd d)) ds []"

section \<open>Lemmas\<close>

lemma length_enc16 [simp]: "length (enc16 w) = 2"
  by (simp add: enc16_def)

lemma length_enc32 [simp]: "length (enc32 w) = 4"
  by (simp add: enc32_def)

lemma le16_split: "le16 (ucast w) (ucast (drop_bit 8 w)) = w"
proof -
  have "le16 (ucast w) (ucast (drop_bit 8 w)) = (w AND mask 8) OR (w AND NOT (mask 8))"
    unfolding le16_def
    by (subst disjunctive_add_eq_or) (auto intro!: bit_word_eqI simp: bit_simps)
  then show ?thesis
    by (auto intro!: bit_word_eqI simp: bit_simps)
qed

lemma ucast_low_byte: "ucast (ucast w :: byte) = take_bit 8 (w :: u32)"
  by (rule bit_word_eqI) (auto simp: bit_simps)

lemma unat_of_nat_byte [simp]: "n < 256 \<Longrightarrow> unat (word_of_nat n :: byte) = n"
  by (simp add: unsigned_of_nat take_bit_nat_eq_self)

lemma unat_of_nat_u16 [simp]: "n < 65536 \<Longrightarrow> unat (word_of_nat n :: u16) = n"
  by (simp add: unsigned_of_nat take_bit_nat_eq_self)

lemma unat_of_nat_u32 [simp]: "n < 4294967296 \<Longrightarrow> unat (word_of_nat n :: u32) = n"
  by (simp add: unsigned_of_nat take_bit_nat_eq_self)

lemma le32_split:
  "le32 (ucast w) (ucast (drop_bit 8 w)) (ucast (drop_bit 16 w)) (ucast (drop_bit 24 w)) = w"
proof -
  let ?p = "\<lambda>k. push_bit k (take_bit 8 (drop_bit k w))"
  have "le32 (ucast w) (ucast (drop_bit 8 w)) (ucast (drop_bit 16 w)) (ucast (drop_bit 24 w))
      = ?p 0 + ?p 8 + ?p 16 + ?p 24"
    unfolding le32_def by (simp add: ucast_low_byte)
  also have "?p 0 + ?p 8 = ?p 0 OR ?p 8"
    by (subst disjunctive_add_eq_or) (auto intro!: bit_word_eqI simp: bit_simps)
  also have "(?p 0 OR ?p 8) + ?p 16 = (?p 0 OR ?p 8) OR ?p 16"
    by (subst disjunctive_add_eq_or) (auto intro!: bit_word_eqI simp: bit_simps)
  also have "((?p 0 OR ?p 8) OR ?p 16) + ?p 24 = ((?p 0 OR ?p 8) OR ?p 16) OR ?p 24"
    by (subst disjunctive_add_eq_or) (auto intro!: bit_word_eqI simp: bit_simps)
  also have "\<dots> = w"
  proof (rule bit_word_eqI)
    fix n assume "n < LENGTH(32)"
    then consider "n < 8" | "8 \<le> n" "n < 16" | "16 \<le> n" "n < 24" | "24 \<le> n" "n < 32"
      by fastforce
    then show "bit (((?p 0 OR ?p 8) OR ?p 16) OR ?p 24) n = bit w n"
      by cases (auto simp: bit_simps)
  qed
  finally show ?thesis .
qed

named_theorems read_enc \<open>reads of encoded buffers\<close>

lemma read16_enc [read_enc]: "read16 (enc16 w @ bs) 0 = w"
  by (simp add: read16_def enc16_def le16_split)

lemma read32_enc [read_enc]: "read32 (enc32 w @ bs) 0 = w"
  by (simp add: read32_def enc32_def le32_split)

lemma read16_skip [read_enc]: "length xs \<le> i \<Longrightarrow> read16 (xs @ bs) i = read16 bs (i - length xs)"
  by (simp add: read16_def nth_append Suc_diff_le)

lemma read32_skip [read_enc]: "length xs \<le> i \<Longrightarrow> read32 (xs @ bs) i = read32 bs (i - length xs)"
  by (simp add: read32_def nth_append Suc_diff_le)

lemma read16_Cons [read_enc]: "0 < i \<Longrightarrow> read16 (x # bs) i = read16 bs (i - 1)"
  by (simp add: read16_def nth_Cons')

lemma read32_Cons [read_enc]: "0 < i \<Longrightarrow> read32 (x # bs) i = read32 bs (i - 1)"
  by (simp add: read32_def nth_Cons')

lemma read16_enc_end [read_enc]: "read16 (enc16 w) 0 = w"
  using read16_enc [of w "[]"] by simp

lemma read32_enc_end [read_enc]: "read32 (enc32 w) 0 = w"
  using read32_enc [of w "[]"] by simp

lemma size_sub_le [simp]:
  assumes "b \<le> a" "a < 2 ^ 32"
  shows "size_sub a b = a - b"
proof -
  have "(int a - int b) mod 2 ^ 32 = int a - int b"
    using assms by (intro mod_pos_pos_trivial) auto
  then show ?thesis
    by (simp only: size_sub_def)
qed

lemma size_sub_wraps:
  assumes "a < b" "b \<le> 2 ^ 32"
  shows "size_sub a b = 2 ^ 32 + a - b"
proof -
  have "(int a - int b) mod 2 ^ 32 = (int a - int b + 2 ^ 32) mod 2 ^ 32"
    by (simp only: mod_add_self2)
  also have "\<dots> = int a - int b + 2 ^ 32"
    using assms by (intro mod_pos_pos_trivial) auto
  also have "\<dots> = int (2 ^ 32 + a - b)"
    using assms by (simp add: of_nat_diff)
  finally show ?thesis
    by (simp only: size_sub_def nat_int)
qed

text \<open>Unpacking inverts the encoding of descriptors that hold at least one byte each.\<close>

definition wf_descriptor :: "u16 \<times> byte list \<Rightarrow> bool" where
  "wf_descriptor d \<longleftrightarrow> 0 < length (snd d) \<and> length (snd d) < 65536"

lemma unpack_data_append: "length bs = n \<Longrightarrow> unpack_data ty n (bs @ cs) m = unpack_data ty n bs m"
  by (auto simp: unpack_data_def nth_append read16_def read32_def)

lemma enc_descriptor_pair: "enc_descriptor (ty, bs) = enc16 ty @ enc16 (word_of_nat (length bs)) @ bs"
  by (simp add: enc_descriptor_def)

lemma unpack_loop_enc:
  assumes "\<forall>d \<in> set ds. wf_descriptor d"
  shows "unpack_loop (found + length ds) found (concat (map enc_descriptor ds)) ini m
    = (found + length ds, if found = 0 \<and> ds \<noteq> [] then fst (hd ds) else ini,
       fold (\<lambda>d. unpack_data (fst d) (length (snd d)) (snd d)) ds m)"
  using assms
proof (induction ds arbitrary: found ini m)
  case (Cons d ds)
  obtain ty bs where d: "d = (ty, bs)" by force
  with Cons.prems have bs: "0 < length bs" "length bs < 65536" by (auto simp: wf_descriptor_def)
  show ?case
    using bs Cons.IH [of "Suc found"] Cons.prems
    by (subst unpack_loop.simps)
      (auto simp: d enc_descriptor_pair read_enc unpack_data_append)
qed (simp add: unpack_loop.simps)

lemma unpackDescriptors_enc:
  assumes "\<forall>d \<in> set ds. wf_descriptor d" "length ds < 256"
  shows "unpackDescriptors (word_of_nat (length ds)) (concat (map enc_descriptor ds)) ini []
    = (if ds = [] then ini else fst (hd ds), descriptors_of ds)"
  using unpack_loop_enc [of ds 0 ini "[]"] assms
  by (simp add: unpackDescriptors_def descriptors_of_def)

end
