(* ===== verification/Smbus_Props.thy ===== *)
theory Smbus_Props
  imports Smbus_Binding Pcie_Props Fwu_Descriptors
begin

text \<open>
  Properties of the SMBus binding: what a reservation of the mux guarantees and when it ends,
  the device table that discovery keeps, and the routing table that an endpoint reads.
\<close>

unbundle bit_operations_syntax

section \<open>Reservation of the mux\<close>

text \<open>
  The events of a reservation: the two D-Bus methods, the end of the wait on the timer, and
  the run of a queued handler.
\<close>

datatype bw_event = Reserve eid u16 | Release eid | TimerExpires | RunHandler

fun bw_step ::
    "nusmbus \<Rightarrow> (smbus_private \<Rightarrow> int) \<Rightarrow> (smbus_private \<Rightarrow> int) \<Rightarrow> smbus \<Rightarrow> bw_event \<Rightarrow> smbus" where
  "bw_step N init_pull exit_pull b (Reserve e t) = snd (smbus_reserveBandwidth N init_pull e t b)"
| "bw_step N init_pull exit_pull b (Release e) = snd (smbus_releaseBandwidth e b)"
| "bw_step N init_pull exit_pull b TimerExpires = reserveBWTimer_expires b"
| "bw_step N init_pull exit_pull b RunHandler = reserveBWTimer_handler exit_pull b"

text \<open>An event after which the queued handlers run before the next event arrives.\<close>

definition settle :: "(smbus_private \<Rightarrow> int) \<Rightarrow> smbus \<Rightarrow> smbus" where
  "settle exit_pull b = (reserveBWTimer_handler exit_pull ^^ length (bwHandlers b)) b"

definition bw_round ::
    "nusmbus \<Rightarrow> (smbus_private \<Rightarrow> int) \<Rightarrow> (smbus_private \<Rightarrow> int) \<Rightarrow> smbus \<Rightarrow> bw_event \<Rightarrow> smbus" where
  "bw_round N init_pull exit_pull b ev = settle exit_pull (bw_step N init_pull exit_pull b ev)"

lemmas bw_defs = startTimerAndReleaseBW_def reserveBWTimer_expires_def reserveBWTimer_handler_def
  smbus_releaseBandwidth_def setMuxIdleMode_def

lemma getBindingPrivateData_state [simp]: "snd (smbus_getBindingPrivateData N e b) = b"
  by (simp add: smbus_getBindingPrivateData_def Let_def split: option.split)

lemma reserve_cases:
  assumes "smbus_reserveBandwidth N init_pull e t b = (ok, b')"
  obtains (refused) "\<not> ok" "b' = b"
  | (renewed) p where "ok" "rsvBWActive b" "e = reservedEID b" "b' = startTimerAndReleaseBW t p b"
  | (new) p where "ok" "\<not> rsvBWActive b" "\<not> init_pull p < 0"
      "b' = startTimerAndReleaseBW t p ((setMuxIdleMode muxIdleModeConnect b)\<lparr>rsvBWActive := True, reservedEID := e\<rparr>)"
proof -
  obtain d where d: "smbus_getBindingPrivateData N e b = (d, b)"
    using getBindingPrivateData_state by (metis prod.collapse)
  show thesis
  proof (cases d)
    case None
    then show thesis using assms refused d by (auto simp: smbus_reserveBandwidth_def split: if_splits)
  next
    case (Some priv)
    let ?p = "get_private N priv"
    consider "rsvBWActive b \<and> e \<noteq> reservedEID b \<or> pv_mux_flags ?p \<noteq> IS_MUX_PORT N \<or>
        \<not> rsvBWActive b \<and> init_pull ?p < 0"
      | "rsvBWActive b" "e = reservedEID b" "pv_mux_flags ?p = IS_MUX_PORT N"
      | "\<not> rsvBWActive b" "pv_mux_flags ?p = IS_MUX_PORT N" "\<not> init_pull ?p < 0" by blast
    then show thesis
    proof cases
      case 1
      then show thesis using assms refused d Some by (auto simp: smbus_reserveBandwidth_def Let_def split: if_splits)
    next
      case 2
      then show thesis using assms renewed d Some by (auto simp: smbus_reserveBandwidth_def Let_def)
    next
      case 3
      then show thesis using assms new d Some by (auto simp: smbus_reserveBandwidth_def Let_def)
    qed
  qed
qed

text \<open>The handlers that are still to come: each reservation has one more than the restart swallows.\<close>

definition bw_inv :: "smbus \<Rightarrow> bool" where
  "bw_inv b \<longleftrightarrow>
     (let n = length (bwHandlers b) + (if bwWait b = None then 0 else 1) in
      restarted b \<le> 1 \<and> (rsvBWActive b \<longrightarrow> restarted b < n \<and> last (muxModes b) = muxIdleModeConnect) \<and>
      (\<not> rsvBWActive b \<longrightarrow> muxModes b \<noteq> [] \<longrightarrow> last (muxModes b) = muxIdleModeDisconnect))"

lemma bw_inv_step:
  assumes "bw_inv b" and exit_ok: "\<And>p. 0 \<le> exit_pull p"
  shows "bw_inv (bw_step N init_pull exit_pull b ev)"
proof (cases ev)
  case (Reserve e t)
  obtain ok b' where r: "smbus_reserveBandwidth N init_pull e t b = (ok, b')" by force
  then have "bw_step N init_pull exit_pull b ev = b'" using Reserve by simp
  moreover from r have "bw_inv b'"
    using assms(1)
    by (cases rule: reserve_cases) (auto simp: bw_inv_def bw_defs Let_def split: option.split)
  ultimately show ?thesis by simp
next
  case (Release e)
  then show ?thesis using assms(1)
    by (auto simp: bw_inv_def bw_defs Let_def split: option.split)
next
  case TimerExpires
  then show ?thesis using assms(1) by (auto simp: bw_inv_def bw_defs Let_def split: option.split)
next
  case RunHandler
  have no: "exit_pull p < 0 \<longleftrightarrow> False" for p using exit_ok [of p] by simp
  show ?thesis using RunHandler assms(1)
    by (auto simp: bw_inv_def bw_defs Let_def no split: list.split option.splits if_splits)
qed

interpretation bw: machine "SMBusBinding_ctor L conf pool addresses" "bw_step N init_pull exit_pull"
    "\<lambda>_ _. \<forall>p. 0 \<le> exit_pull p" bw_inv
  for L conf pool addresses N init_pull exit_pull
proof
  show "bw_inv (SMBusBinding_ctor L conf pool addresses)"
    by (simp add: bw_inv_def SMBusBinding_ctor_def MctpBinding_ctor_def Let_def binding.defs)
qed (simp add: bw_inv_step)

text \<open>What holds even when libmctp does not leave the pull model: while the muxes are connected the
  mux is reserved, and a handler is still to come that disconnects them.\<close>

definition connected :: "smbus \<Rightarrow> bool" where
  "connected b \<longleftrightarrow> muxModes b \<noteq> [] \<and> last (muxModes b) = muxIdleModeConnect"

definition mux_inv :: "smbus \<Rightarrow> bool" where
  "mux_inv b \<longleftrightarrow> restarted b \<le> 1 \<and> (connected b \<longrightarrow> rsvBWActive b
     \<and> restarted b < length (bwHandlers b) + (if bwWait b = None then 0 else 1))
     \<and> (\<forall>m \<in> set (muxModes b). m = muxIdleModeConnect \<or> m = muxIdleModeDisconnect)"

lemma mux_inv_step:
  assumes "mux_inv b"
  shows "mux_inv (bw_step N init_pull exit_pull b ev)"
proof (cases ev)
  case (Reserve e t)
  obtain ok b' where r: "smbus_reserveBandwidth N init_pull e t b = (ok, b')" by force
  then have "bw_step N init_pull exit_pull b ev = b'" using Reserve by simp
  moreover from r have "mux_inv b'"
    using assms
    by (cases rule: reserve_cases) (auto simp: mux_inv_def connected_def bw_defs split: option.split)
  ultimately show ?thesis by simp
next
  case RunHandler
  then show ?thesis using assms
    by (auto simp: mux_inv_def connected_def bw_defs Let_def split: list.split option.splits if_splits)
qed (use assms in \<open>auto simp: mux_inv_def connected_def bw_defs split: option.split\<close>)

interpretation mux: machine "SMBusBinding_ctor L conf pool addresses" "bw_step N init_pull exit_pull"
    "\<lambda>_ _. True" mux_inv
  for L conf pool addresses N init_pull exit_pull
proof
  show "mux_inv (SMBusBinding_ctor L conf pool addresses)"
    by (simp add: mux_inv_def connected_def SMBusBinding_ctor_def MctpBinding_ctor_def Let_def binding.defs)
qed (simp add: mux_inv_step)

lemma mux_inv_run: "mux_inv b \<Longrightarrow> mux_inv (run (bw_step N init_pull exit_pull) b es)"
  by (rule mux.inv_run_from) (induction es arbitrary: b; simp)+

lemma bw_inv_run:
  assumes "bw_inv b" "\<forall>p. 0 \<le> exit_pull p"
  shows "bw_inv (run (bw_step N init_pull exit_pull) b es)"
proof -
  have "admissible (bw_step N init_pull exit_pull) (\<lambda>_ _. \<forall>p. 0 \<le> exit_pull p) b es"
    using assms(2) by (induction es arbitrary: b) auto
  then show ?thesis by (rule bw.inv_run_from [OF assms(1)])
qed

subsection \<open>The handlers that are queued\<close>

text \<open>The handlers that disconnect the muxes: all but the one that a restart swallows.\<close>

definition finishing :: "smbus \<Rightarrow> (bool \<times> smbus_private) list" where
  "finishing b = (if restarted b \<noteq> 0 then tl (bwHandlers b) else bwHandlers b)"

lemma settle_Nil: "bwHandlers b = [] \<Longrightarrow> settle exit_pull b = b"
  by (simp add: settle_def)

lemma settle_Cons:
  "bwHandlers b = h # hs \<Longrightarrow> settle exit_pull b = settle exit_pull (reserveBWTimer_handler exit_pull b)"
  by (cases h) (simp add: settle_def funpow_Suc_right bw_defs Let_def del: funpow.simps)

lemma settle_all:
  assumes "restarted b = 0" "bwHandlers b = hs"
  shows "bwHandlers (settle exit_pull b) = [] \<and> bwWait (settle exit_pull b) = bwWait b
    \<and> (rsvBWActive (settle exit_pull b) \<longleftrightarrow> rsvBWActive b \<and> (\<forall>(aborted, p) \<in> set hs. exit_pull p < 0))
    \<and> muxModes (settle exit_pull b) = muxModes b @ replicate (length hs) muxIdleModeDisconnect"
  using assms
proof (induction hs arbitrary: b)
  case Nil
  then show ?case by (simp add: settle_Nil)
next
  case (Cons h hs)
  obtain aborted p where h: "h = (aborted, p)" by force
  let ?b = "reserveBWTimer_handler exit_pull b"
  have b: "restarted ?b = 0" "bwHandlers ?b = hs" "bwWait ?b = bwWait b"
    "rsvBWActive ?b \<longleftrightarrow> rsvBWActive b \<and> exit_pull p < 0"
    "muxModes ?b = muxModes b @ [muxIdleModeDisconnect]"
    using Cons.prems h by (auto simp: bw_defs Let_def)
  then show ?case
    using Cons.IH [OF b(1,2)] settle_Cons [OF Cons.prems(2), of exit_pull] h by auto
qed

lemma settle_result:
  "bwHandlers (settle exit_pull b) = [] \<and> bwWait (settle exit_pull b) = bwWait b
    \<and> (rsvBWActive (settle exit_pull b)
         \<longleftrightarrow> rsvBWActive b \<and> (\<forall>(aborted, p) \<in> set (finishing b). exit_pull p < 0))
    \<and> muxModes (settle exit_pull b) = muxModes b @ replicate (length (finishing b)) muxIdleModeDisconnect"
proof (cases "restarted b \<noteq> 0 \<and> bwHandlers b \<noteq> []")
  case False
  then show ?thesis
    using settle_all [of b "bwHandlers b" exit_pull] settle_Nil [of b exit_pull]
    by (cases "restarted b = 0") (auto simp: finishing_def)
next
  case True
  then obtain h hs where hs: "bwHandlers b = h # hs" by (cases "bwHandlers b") auto
  let ?b = "reserveBWTimer_handler exit_pull b"
  have "restarted ?b = 0" "bwHandlers ?b = hs" "bwWait ?b = bwWait b"
    "rsvBWActive ?b = rsvBWActive b" "muxModes ?b = muxModes b"
    using True hs by (cases h; simp add: bw_defs Let_def)+
  then show ?thesis
    using settle_all [of ?b hs exit_pull] settle_Cons [OF hs, of exit_pull] True hs
    by (simp add: finishing_def)
qed

text \<open>
  C14: The end of the wait on the timer, whatever reservations, renewals, releases and expiries came
  before and in whatever order the handlers of the timer ran between them, and whether or not libmctp
  left the pull model: when the queued handlers have run no wait and no handler is left and the
  muxes are disconnected. The reservation is taken back exactly when for one of the handlers (all
  but the one that a restart swallows) libmctp leaves the pull model without an error; with the
  muxes connected there is such a handler, so that with a libmctp that never fails every
  reservation ends. When it fails for all of them the endpoint keeps the mux reserved
  (\<open>failed\_exit\_reserves\_for\_ever\<close>).
\<close>

theorem wait_ends_the_reservation:
  fixes N init_pull exit_pull b es
  assumes "bw_inv b" "mux_inv b"
  defines "s \<equiv> reserveBWTimer_expires (run (bw_step N init_pull exit_pull) b es)"
  defines "after \<equiv> settle exit_pull s"
  shows "bwWait after = None \<and> bwHandlers after = []
    \<and> (muxModes after \<noteq> [] \<longrightarrow> last (muxModes after) = muxIdleModeDisconnect)
    \<and> (rsvBWActive after \<longleftrightarrow> rsvBWActive s \<and> (\<forall>(aborted, p) \<in> set (finishing s). exit_pull p < 0))
    \<and> (connected s \<longrightarrow> rsvBWActive s \<and> finishing s \<noteq> [])
    \<and> ((\<forall>p. 0 \<le> exit_pull p) \<longrightarrow> \<not> rsvBWActive after)"
proof -
  let ?r = "run (bw_step N init_pull exit_pull) b es"
  have s: "s = bw_step N init_pull exit_pull ?r TimerExpires" by (simp add: s_def)
  have w: "bwWait s = None" by (simp add: s_def reserveBWTimer_expires_def split: option.split)
  have inv: "mux_inv s" unfolding s by (intro mux_inv_step mux_inv_run assms(2))
  then have pending: "connected s \<longrightarrow> rsvBWActive s \<and> finishing s \<noteq> []"
    using w by (cases "bwHandlers s") (auto simp: mux_inv_def finishing_def)
  have modes: "last (muxModes after) = muxIdleModeDisconnect" if "muxModes after \<noteq> []"
  proof (cases "finishing s = []")
    case True
    then have "muxModes after = muxModes s" "\<not> connected s"
      using settle_result [of exit_pull s] pending unfolding after_def by auto
    with that inv show ?thesis by (auto simp: mux_inv_def connected_def dest: last_in_set)
  next
    case False
    then show ?thesis using settle_result [of exit_pull s] unfolding after_def
      by (cases "length (finishing s)") auto
  qed
  have "\<not> rsvBWActive after" if ok: "\<forall>p. 0 \<le> exit_pull p"
  proof
    assume "rsvBWActive after"
    then have act: "rsvBWActive s" and f: "\<forall>(aborted, p) \<in> set (finishing s). exit_pull p < 0"
      using settle_result [of exit_pull s] unfolding after_def by blast+
    have "bw_inv s" unfolding s using ok by (intro bw_inv_step bw_inv_run assms(1)) auto
    then have "finishing s \<noteq> []"
      using act w by (cases "bwHandlers s") (auto simp: bw_inv_def Let_def finishing_def)
    moreover have "\<not> exit_pull p < 0" for p using ok by (simp add: not_less)
    ultimately show False using f by (cases "finishing s") auto
  qed
  with w modes pending settle_result [of exit_pull s] show ?thesis unfolding after_def
    by (intro conjI impI; (blast | metis))
qed

text \<open>A binding with device 9 at address 0x3a behind the mux on descriptor 5 and device 10 on the root bus.\<close>

definition dsp_smbus :: nusmbus where
  "dsp_smbus = \<lparr>IS_MUX_PORT = 0x80,
     put_private = (\<lambda>p. enc32 (pv_fd p) @ enc32 (pv_mux_hold_timeout p) @ [pv_mux_flags p, pv_slave_addr p]),
     get_private = (\<lambda>v. \<lparr>pv_fd = read32 v 0, pv_mux_hold_timeout = read32 v 4,
        pv_mux_flags = v ! 8, pv_slave_addr = v ! 9\<rparr>),
     BINDING_SMBUS = 1, entry_starting_eid = (\<lambda>r. r ! 1), entry_eid_range_size = (\<lambda>r. r ! 0),
     entry_binding_id = (\<lambda>r. r ! 3), next_entry_handle = (\<lambda>r. r ! 4), sizeof_vdm_command = 4,
     vdm_selector = (\<lambda>r. r ! 3), vdm_support = (\<lambda>e. Some [0, 0, 0, 0, 0, 0, 0, 0, 0, 0]),
     vdm_answer = (\<lambda>r sel d. r[4 := sel, 5 := vendorIdFormat d]), CC_ERROR_INVALID_DATA = 2\<rparr>"

definition device_at :: "fd \<Rightarrow> byte \<Rightarrow> smbus_private" where
  "device_at fd addr = \<lparr>pv_fd = fd, pv_mux_hold_timeout = 0, pv_mux_flags = 0, pv_slave_addr = addr\<rparr>"

definition test_smbus :: smbus where
  "test_smbus = (SMBusBinding_ctor dsp0236 test_conf {9, 10} [0x1d])
     \<lparr>outFd := 4, muxPortMap := [(5, 21), (6, 22)],
      smbusDeviceTable := [(9, device_at 5 0x3a), (10, device_at 6 0x3a), (11, device_at 4 0x3c)]\<rparr>"

lemma test_smbus_inv: "bw_inv test_smbus" "mux_inv test_smbus"
  by (simp_all add: bw_inv_def mux_inv_def connected_def test_smbus_def SMBusBinding_ctor_def
      MctpBinding_ctor_def Let_def binding.defs)

text \<open>The same history with a libmctp that leaves the pull model and with one that does not.\<close>

theorem wait_ends_the_reservation_witness:
  "let es = [Reserve 9 10, Release 9, Reserve 9 20, RunHandler, Reserve 9 5, Reserve 9 5];
       after = (\<lambda>exit_pull. settle exit_pull (reserveBWTimer_expires
         (run (bw_step dsp_smbus (\<lambda>_. 0) exit_pull) test_smbus es)))
   in \<not> rsvBWActive (after (\<lambda>_. 0)) \<and> rsvBWActive (after (\<lambda>_. - 1))
     \<and> last (muxModes (after (\<lambda>_. - 1))) = muxIdleModeDisconnect"
proof -
  let ?es = "[Reserve 9 10, Release 9, Reserve 9 20, RunHandler, Reserve 9 5, Reserve 9 5]"
  let ?s = "reserveBWTimer_expires (run (bw_step dsp_smbus (\<lambda>_. 0) (\<lambda>_. - 1)) test_smbus ?es)"
  have "rsvBWActive ?s" "muxModes (settle (\<lambda>_. - 1) ?s) \<noteq> []" by code_simp+
  then show ?thesis
    using wait_ends_the_reservation [OF test_smbus_inv, where N = dsp_smbus and init_pull = "\<lambda>_. 0"
        and exit_pull = "\<lambda>_. 0" and es = ?es]
      wait_ends_the_reservation [OF test_smbus_inv, where N = dsp_smbus and init_pull = "\<lambda>_. 0"
        and exit_pull = "\<lambda>_. - 1" and es = ?es]
    by (auto simp: Let_def)
qed

text \<open>What holds between events while endpoint \<open>e\<close> has the mux.\<close>

definition bw_held :: "eid \<Rightarrow> smbus \<Rightarrow> bool" where
  "bw_held e b \<longleftrightarrow> rsvBWActive b \<and> reservedEID b = e \<and> bwWait b \<noteq> None \<and> bwHandlers b = [] \<and>
     restarted b = 0 \<and> muxModes b \<noteq> [] \<and> last (muxModes b) = muxIdleModeConnect"

text \<open>The events that do not end the reservation of \<open>e\<close>.\<close>

definition keeps_bw :: "eid \<Rightarrow> bw_event \<Rightarrow> bool" where
  "keeps_bw e ev \<longleftrightarrow> (case ev of Reserve _ _ \<Rightarrow> True | Release e' \<Rightarrow> e' \<noteq> e | TimerExpires \<Rightarrow> False | RunHandler \<Rightarrow> True)"

lemma held_step:
  assumes "bw_held e b" "keeps_bw e ev"
  shows "bw_held e (bw_round N init_pull exit_pull b ev)"
proof (cases ev)
  case (Reserve e' t)
  obtain ok b' where r: "smbus_reserveBandwidth N init_pull e' t b = (ok, b')" by force
  then have "bw_round N init_pull exit_pull b ev = settle exit_pull b'" using Reserve by (simp add: bw_round_def)
  moreover from r have "bw_held e (settle exit_pull b')"
    using assms(1)
    by (cases rule: reserve_cases) (auto simp: bw_held_def bw_defs settle_def Let_def)
  ultimately show ?thesis by simp
qed (use assms in \<open>auto simp: bw_held_def keeps_bw_def bw_round_def settle_def bw_defs\<close>)

lemma new_reservation_held:
  assumes "smbus_reserveBandwidth N init_pull e t b = (True, b')" "\<not> rsvBWActive b" "bwHandlers b = []"
  shows "bw_held e (settle exit_pull b')"
  using assms
  by (cases rule: reserve_cases) (auto simp: bw_held_def bw_defs settle_def Let_def split: option.split)

text \<open>
  C13: A granted reservation is exclusive and lasts: when the handlers of the timer run before the
  next call arrives, no sequence of renewals and of calls for other endpoints takes the mux
  away before the wait on the timer is over or the endpoint itself releases it; meanwhile
  the muxes stay connected, and another endpoint can neither reserve nor release the mux nor be
  sent a message.
\<close>

theorem reservation_is_held:
  fixes exit_pull
  assumes "smbus_reserveBandwidth N init_pull e t b = (True, b1)" and "\<not> rsvBWActive b"
    and "bwHandlers b = []" and "\<forall>ev \<in> set es. keeps_bw e ev" and "e' \<noteq> e"
  defines "b2 \<equiv> run (bw_round N init_pull exit_pull) (settle exit_pull b1) es"
  shows "rsvBWActive b2 \<and> reservedEID b2 = e \<and> last (muxModes b2) = muxIdleModeConnect \<and>
     smbus_reserveBandwidth N init_pull e' t' b2 = (False, b2) \<and>
     smbus_releaseBandwidth e' b2 = (False, b2) \<and>
     SendMctpMessagePayload tx V e' msgTag tagOwner msg b2 = (mctpErrorRsvBWIsNotActive, b2)"
proof -
  have "bw_held e (run (bw_round N init_pull exit_pull) c es)" if "bw_held e c" for c
    using assms(4) that by (induction es arbitrary: c) (auto intro: held_step)
  then have "bw_held e b2"
    using new_reservation_held [OF assms(1-3)] by (simp add: b2_def)
  then show ?thesis
    using assms(5) by (simp add: bw_held_def smbus_reserveBandwidth_def smbus_releaseBandwidth_def SendMctpMessagePayload_def)
qed

theorem reservation_is_held_witness:
  "rsvBWActive (run (bw_round dsp_smbus (\<lambda>_. 0) (\<lambda>_. 0))
     (settle (\<lambda>_. 0) (snd (smbus_reserveBandwidth dsp_smbus (\<lambda>_. 0) 9 10 test_smbus)))
     [Reserve 9 20, Reserve 10 5, Release 10, Reserve 9 20])"
proof -
  let ?r = "smbus_reserveBandwidth dsp_smbus (\<lambda>_. 0) 9 10 test_smbus"
  have "fst ?r" by code_simp
  then have 1: "?r = (True, snd ?r)" by (metis prod.collapse)
  have 2: "\<not> rsvBWActive test_smbus" "bwHandlers test_smbus = []" by code_simp+
  show ?thesis
    by (rule reservation_is_held [where e' = 10, OF 1 2, THEN conjunct1]) (simp_all add: keeps_bw_def)
qed

text \<open>
  A renewal that meets a queued handler of the timer loses the mux, although it is answered with
  success: the handler of an expired wait, of the wait that a release has cancelled, or of
  the first of two cancelled waits finds \<open>ret\<close> zero and disconnects the muxes.
\<close>

lemma renewed_reservation_is_lost:
  "let act = (\<lambda>es. let b = run (bw_step dsp_smbus (\<lambda>_. 0) (\<lambda>_. 0)) test_smbus es in
                  (rsvBWActive b, reservedEID b, bwWait b \<noteq> None, last (muxModes b)));
       granted = (\<lambda>es. fst (smbus_reserveBandwidth dsp_smbus (\<lambda>_. 0) 9 10
                        (run (bw_step dsp_smbus (\<lambda>_. 0) (\<lambda>_. 0)) test_smbus es)))
   in granted [Reserve 9 10, TimerExpires] \<and>
      act [Reserve 9 10, TimerExpires, Reserve 9 10, RunHandler] = (False, 0, True, muxIdleModeDisconnect) \<and>
      granted [Reserve 9 10, Release 9] \<and>
      act [Reserve 9 10, Release 9, Reserve 9 10, RunHandler] = (False, 0, True, muxIdleModeDisconnect) \<and>
      granted [Reserve 9 10, Reserve 9 10] \<and>
      act [Reserve 9 10, Reserve 9 10, Reserve 9 10, RunHandler, RunHandler] = (False, 0, True, muxIdleModeDisconnect)"
  by code_simp

text \<open>
  When libmctp fails to leave the pull model the reservation is never taken back: no wait is
  pending, every release is answered with success and does nothing, no other endpoint can
  reserve, and no scan takes place.
\<close>

lemma failed_exit_reserves_for_ever:
  fixes N init_pull
  assumes "rsvBWActive b" "bwWait b = None" "bwHandlers b = [(a, p)]" "restarted b = 0" "exit_pull p < 0"
    and "\<forall>ev \<in> set es. \<forall>t. ev \<noteq> Reserve (reservedEID b) t"
  defines "b' \<equiv> run (bw_step N init_pull exit_pull) (reserveBWTimer_handler exit_pull b) es"
  shows "rsvBWActive b' \<and> reservedEID b' = reservedEID b \<and> smbus_releaseBandwidth (reservedEID b) b' = (True, b')"
proof -
  let ?stuck = "\<lambda>c. rsvBWActive c \<and> reservedEID c = reservedEID b \<and> bwWait c = None \<and> bwHandlers c = []"
  have step: "?stuck (bw_step N init_pull exit_pull c ev)"
    if "?stuck c" "\<forall>t. ev \<noteq> Reserve (reservedEID b) t" for c ev
    using that by (cases ev) (auto simp: bw_defs smbus_reserveBandwidth_def)
  have "?stuck (run (bw_step N init_pull exit_pull) c es)" if "?stuck c" for c
    using assms(6) that
  proof (induction es arbitrary: c)
    case (Cons ev es)
    then show ?case using step [of c ev] by simp
  qed simp
  moreover have "?stuck (reserveBWTimer_handler exit_pull b)" using assms(1-5) by (simp add: bw_defs Let_def)
  ultimately have "?stuck b'" unfolding b'_def by blast
  then show ?thesis by (simp add: smbus_releaseBandwidth_def)
qed

section \<open>The scan\<close>

lemma set_scan_address:
  "set (scan_address I fd b it m) =
     set m \<union> (if slave_answers I fd it \<and> \<not> (fd \<noteq> outFd b \<and> (outFd b, it) \<in> set (rootDeviceMap b))
              then {(fd, it)} else {})"
  by (simp add: scan_address_def set_insort_insert)

text \<open>
  A scan of a port adds exactly the supported addresses at which a device answers; on a port
  of a mux, those at which the root bus has a device are left out.
\<close>

lemma scan_finds:
  "set (scanPort I fd b m) = set m \<union> {(fd, it) | it. \<not> sint fd < 0 \<and> it \<in> set (supportedEndpointSlaveAddress b) \<and>
     slave_answers I fd it \<and> \<not> (fd \<noteq> outFd b \<and> (outFd b, it) \<in> set (rootDeviceMap b))}"
proof -
  have "set (fold (scan_address I fd b) as' m) = set m \<union> {(fd, it) | it. it \<in> set as' \<and>
     slave_answers I fd it \<and> \<not> (fd \<noteq> outFd b \<and> (outFd b, it) \<in> set (rootDeviceMap b))}" for as'
    by (induction as' arbitrary: m) (auto simp: set_scan_address)
  then show ?thesis by (auto simp: scanPort_def)
qed

section \<open>The device table of a bus owner\<close>

definition address_of :: "DeviceTableEntry_t \<Rightarrow> fd \<times> byte" where
  "address_of entry = (pv_fd (snd entry), pv_slave_addr (snd entry))"

definition table_one_to_one :: "libmctp \<Rightarrow> 'a smbus_scheme \<Rightarrow> bool" where
  "table_one_to_one L b \<longleftrightarrow>
     distinct (map fst (smbusDeviceTable b)) \<and> distinct (map address_of (smbusDeviceTable b)) \<and>
     EID_NULL L \<notin> fst ` set (smbusDeviceTable b)"

lemma eid_of_private_found:
  "distinct (map address_of T) \<Longrightarrow> (e, q) \<in> set T \<Longrightarrow> pv_fd q = pv_fd p \<Longrightarrow> pv_slave_addr q = pv_slave_addr p \<Longrightarrow>
     eid_of_private L p T = e"
  by (induction T) (force simp: address_of_def image_iff)+

lemma table_unregister [simp]:
  "smbusDeviceTable (unregisterEndpoint e b) = smbusDeviceTable b"
  by (simp add: unregisterEndpoint_def Let_def split: prod.split)

interpretation table: registry_invariant "\<lambda>b :: 'a smbus_scheme. smbusDeviceTable b = T"
  for T
  by unfold_locales (auto simp: populateEndpointProperties_def Let_def split: if_splits)

text \<open>The handlers that run during the exchanges leave the device table alone, as on a bus owner.\<close>

definition table_untouched :: "'a smbus_scheme exchange \<Rightarrow> bool" where
  "table_untouched X \<longleftrightarrow> (\<forall>T. env_keeps (\<lambda>b. smbusDeviceTable b = T) X)"

lemma register_table:
  "table_untouched X \<Longrightarrow> registerEndpoint L X prv e mode b = (r, b') \<Longrightarrow> smbusDeviceTable b' = smbusDeviceTable b"
  using table.P_register [of "smbusDeviceTable b" X b L prv e mode] by (simp add: table_untouched_def)

lemma device_table_remove:
  "table_one_to_one L b \<Longrightarrow> table_one_to_one L (removeDeviceTableEntry e b)"
  by (auto simp: table_one_to_one_def removeDeviceTableEntry_def distinct_map inj_on_def)

lemma device_table_discover:
  assumes b: "table_one_to_one L b" and X: "table_untouched X"
    and N: "\<And>p. get_private N (put_private N p) = p"
  shows "table_one_to_one L (snd (discover_device L N X dev b))"
proof -
  let ?T = "smbusDeviceTable b" and ?p = "device_private dev b"
  define r where "r = getEIDFromDeviceTable L N (put_private N ?p) b"
  obtain res b1 where 1: "registerEndpoint L X (put_private N ?p) r Endpoint b = (res, b1)" by force
  have T: "smbusDeviceTable b1 = ?T" using register_table [OF X 1] .
  then have b1: "table_one_to_one L b1" using b by (simp add: table_one_to_one_def)
  have rm: "table_one_to_one L (if smbusDeviceTable b1 \<noteq> [] then removeDeviceTableEntry r b1 else b1)"
    using device_table_remove [OF b1] b1 by simp
  have found: "fst entry = r" if "entry \<in> set ?T" "address_of entry = address_of (e, ?p)" for entry e
    using eid_of_private_found [of ?T "fst entry" "snd entry" ?p L] that b
    by (simp add: r_def getEIDFromDeviceTable_def N address_of_def table_one_to_one_def)
  have "address_of (e, ?p) \<notin> address_of ` set (filter (\<lambda>t. \<not> fst t = r) ?T)" for e
    using found [of _ e] by auto
  then have new: "table_one_to_one L (b1\<lparr>smbusDeviceTable := filter (\<lambda>t. \<not> fst t = r) ?T @ [(e, ?p)]\<rparr>)"
    if "e \<notin> fst ` set ?T" "e \<noteq> EID_NULL L" for e
    using that device_table_remove [OF b1, of r]
    by (auto simp: table_one_to_one_def removeDeviceTableEntry_def T)
  have same: "filter (\<lambda>t. \<not> fst t = r) ?T = ?T" if "r \<notin> fst ` set ?T"
    using that by (intro filter_True) auto
  show ?thesis
  proof (cases "isDeviceGoodForInit (deviceWatcher b) (put_private N ?p)")
    case False
    then show ?thesis using b by (simp add: discover_device_def Let_def)
  next
    case True
    show ?thesis
    proof (cases res)
      case (Registered e)
      show ?thesis
      proof (cases "e \<notin> fst ` set ?T \<and> e \<noteq> EID_NULL L")
        case fresh: True
        have "snd (discover_device L N X dev b) =
            b1\<lparr>smbusDeviceTable := filter (\<lambda>t. \<not> fst t = r) ?T @ [(e, ?p)]\<rparr>"
          using True Registered fresh same 1
          by (cases "?T = []"; cases "e = r")
            (auto simp: discover_device_def Let_def r_def [symmetric] T removeDeviceTableEntry_def)
        then show ?thesis using new fresh by simp
      next
        case False
        then show ?thesis
          using True Registered 1 rm b1
          by (auto simp: discover_device_def Let_def r_def [symmetric] T)
      qed
    next
      case NotRegistered
      then show ?thesis using True 1 rm by (simp add: discover_device_def Let_def r_def [symmetric])
    next
      case Terminate
      then show ?thesis using True 1 b1 by (simp add: discover_device_def Let_def r_def [symmetric])
    qed
  qed
qed

lemma device_table_discoveries:
  assumes X: "table_untouched X" and N: "\<And>p. get_private N (put_private N p) = p"
  shows "table_one_to_one L b \<Longrightarrow> table_one_to_one L (snd (discover_devices L N X devs b))"
proof (induction devs arbitrary: b)
  case (Cons dev devs)
  obtain r b1 where 1: "discover_device L N X dev b = (r, b1)" by force
  have "table_one_to_one L b1" using device_table_discover [OF Cons.prems X N, of dev] 1 by simp
  then show ?case using Cons.IH [of b1] 1 by (auto split: option.split)
qed simp

text \<open>
  C15: On a bus owner the device table stays one-to-one through every round of discovery, whatever
  devices the scan finds and however they answer: no EID and no address is listed twice, and no
  entry has the null EID. So looking up the private data of a listed EID and looking up the EID of
  private data are inverse to each other.
\<close>

theorem device_table_is_one_to_one:
  fixes I
  assumes "table_one_to_one L b" and "table_untouched X" and "\<And>p. get_private N (put_private N p) = p"
  defines "b' \<equiv> snd (scanDevices L N I X b)"
  shows "table_one_to_one L b' \<and>
     (\<forall>(e, p) \<in> set (smbusDeviceTable b'). \<exists>priv. smbus_getBindingPrivateData N e b' = (Some priv, b') \<and>
        pv_fd (get_private N priv) = pv_fd p \<and> pv_slave_addr (get_private N priv) = pv_slave_addr p \<and>
        getEIDFromDeviceTable L N priv b' = e)"
proof -
  have w: "table_one_to_one L (c\<lparr>deviceWatcher := w\<rparr>) = table_one_to_one L c"
    "table_one_to_one L (c\<lparr>addRootDevices := f\<rparr>) = table_one_to_one L c"
    "table_one_to_one L (c\<lparr>scanHandlers := h\<rparr>) = table_one_to_one L c"
    "table_one_to_one L (c\<lparr>scanWait := True\<rparr>) = table_one_to_one L c" for c w f h
    by (simp_all add: table_one_to_one_def)
  have i: "table_one_to_one L (snd (initEndpointDiscovery L N I X c))" if "table_one_to_one L c" for c
    using that device_table_discoveries [OF assms(2,3) that]
    by (auto simp: initEndpointDiscovery_def Let_def w split: prod.split option.split) (metis snd_conv)+
  have "table_one_to_one L b'"
    using i [of "b\<lparr>deviceWatcher := deviceDiscoveryInit (deviceWatcher b)\<rparr>"] assms(1)
    by (auto simp: b'_def scanDevices_def Let_def w split: prod.split option.split)
  moreover from this have "\<exists>priv. smbus_getBindingPrivateData N e b' = (Some priv, b') \<and>
        pv_fd (get_private N priv) = pv_fd p \<and> pv_slave_addr (get_private N priv) = pv_slave_addr p \<and>
        getEIDFromDeviceTable L N priv b' = e" if "(e, p) \<in> set (smbusDeviceTable b')" for e p
    using that eid_of_private_found [OF _ that]
    by (simp add: table_one_to_one_def smbus_getBindingPrivateData_def getEIDFromDeviceTable_def assms(3) Let_def)
  ultimately show ?thesis by blast
qed

lemma dsp_smbus_private [simp]: "get_private dsp_smbus (put_private dsp_smbus p) = p"
proof -
  have "length (enc32 w) = 4" for w by (simp add: enc32_def)
  then show ?thesis by (cases p) (simp add: dsp_smbus_def read_enc nth_append)
qed

text \<open>A bus with a device that has no EID yet at address 0x1d, on the root bus and behind a mux.\<close>

definition test_i2c :: i2c where
  "test_i2c = \<lparr>ioctl_slave = (\<lambda>_ _. 0), smbus_read_byte = (\<lambda>_ _. 0), smbus_write_quick = (\<lambda>fd a. 0)\<rparr>"

definition new_smbus :: smbus where
  "new_smbus = snd (smbus_initializeBinding test_i2c (Some 4) (Some [(5, 21)])
     (SMBusBinding_ctor dsp0236 test_conf {9, 10} [0x1d]))"

theorem device_table_is_one_to_one_witness:
  "let b' = snd (scanDevices dsp0236 dsp_smbus test_i2c (device 0 test_uuid 0 True) new_smbus)
   in map fst (smbusDeviceTable b') = [9] \<and> table_one_to_one dsp0236 b'"
proof -
  let ?b = "snd (scanDevices dsp0236 dsp_smbus test_i2c (device 0 test_uuid 0 True) new_smbus)"
  have "table_one_to_one dsp0236 new_smbus" by code_simp
  moreover have "table_untouched (device 0 test_uuid 0 True :: smbus exchange)"
    by (simp add: table_untouched_def env_keeps_def device_def)
  ultimately have "table_one_to_one dsp0236 ?b"
    by (rule device_table_is_one_to_one [THEN conjunct1]) simp
  moreover have "map fst (smbusDeviceTable ?b) = [9]" by code_simp
  ultimately show ?thesis by simp
qed

text \<open>
  A device that comes back at another address keeps its old entry: its EID is listed, so the new
  address is not stored, and messages for it go on being sent to the old address, round after
  round.
\<close>

lemma moved_device_keeps_its_old_address:
  "let b = snd (scanDevices dsp0236 dsp_smbus test_i2c (device 0 test_uuid 0 True) new_smbus);
       moved = b\<lparr>supportedEndpointSlaveAddress := [0x1e]\<rparr>;
       answer = (\<lambda>priv. if pv_slave_addr (get_private dsp_smbus priv) = 0x3c
                        then device 9 test_uuid 0 True priv else silent_bus priv);
       b' = snd (scanDevices dsp0236 dsp_smbus test_i2c answer moved);
       b'' = snd (scanDevices dsp0236 dsp_smbus test_i2c answer b')
   in map (pv_slave_addr \<circ> snd) (smbusDeviceTable b) = [0x3a] \<and>
      smbusDeviceTable b' = smbusDeviceTable b \<and> endpointInterface b' 9 \<noteq> None \<and>
      smbusDeviceTable b'' = smbusDeviceTable b"
  by code_simp

section \<open>The routing table of an endpoint\<close>

text \<open>
  With a bus owner that answers each handle in the same way every time, the handles read follow a
  fixed chain: \<open>nxt h\<close> is the next handle in the response accepted for \<open>h\<close>, if there is one.
\<close>

fun chain_ends :: "(byte \<Rightarrow> byte option) \<Rightarrow> nat \<Rightarrow> byte \<Rightarrow> bool" where
  "chain_ends nxt 0 h \<longleftrightarrow> h = 0xff \<or> nxt h = None"
| "chain_ends nxt (Suc n) h \<longleftrightarrow>
     h = 0xff \<or> (case nxt h of None \<Rightarrow> True | Some h' \<Rightarrow> chain_ends nxt n h')"

lemma accepted_entries_safe:
  "routing_entries_end L resp n off = Some m \<Longrightarrow> off \<le> length resp \<Longrightarrow>
     smbus_read_entries L N fd resp n off tmp \<noteq> None"
proof (induction n arbitrary: off tmp)
  case (Suc n)
  let ?o1 = "off + sizeof_routing_entry L" and ?s = "unat (rte_phys_address_size L (drop off resp))"
  have 1: "?o1 + ?s \<le> length resp" "routing_entries_end L resp n (?o1 + ?s) = Some m"
    using Suc.prems by (auto simp: Let_def split: if_splits)
  have "?s = 1 \<Longrightarrow> ?o1 < length resp" using 1(1) by simp
  then show ?case using Suc.IH [OF 1(2,1)] by (auto simp: Let_def)
qed simp

text \<open>
  Unlike the PCIe binding, this one reads only entries with an address of one byte: a response
  that \<open>getRoutingTableCtrlCmd\<close> accepts is never read beyond its end.
\<close>

lemma routing_loop_reads_safely:
  "smbus_routing_loop L N X prv h c tmp b = Some y \<Longrightarrow> fst y \<noteq> ReadBeyond"
proof (induction rule: smbus_routing_loop.raw_induct [rotated, consumes 1, case_names step])
  case (step loop L N X prv h c tmp b y)
  obtain resp b1 where 1: "getRoutingTableCtrlCmd L X prv (busOwnerEid b) h b = (resp, b1)" by force
  have ok: "resp = Some x \<Longrightarrow> routing_response_ok L x" for x
    using 1 by (auto simp: getRoutingTableCtrlCmd_def split: prod.splits option.splits if_splits)
  have safe: "\<exists>tmp'. smbus_read_entries L N fd x (unat (rt_number_of_entries L x)) (sizeof_routing_table L) tmp = Some tmp'"
    if "resp = Some x" for x fd
    using accepted_entries_safe [of L x _ "sizeof_routing_table L"] ok [OF that] by (auto simp: routing_response_ok_def)
  show ?case
  proof (cases resp)
    case None
    then show ?thesis using step(2) by (auto simp: 1 split: if_splits)
  next
    case (Some x)
    then obtain tmp' where "smbus_read_entries L N (busOwnerFd b1) x (unat (rt_number_of_entries L x))
        (sizeof_routing_table L) tmp = Some tmp'" using safe by blast
    then show ?thesis using step(2) step(1) Some by (auto simp: 1 split: if_splits)
  qed
qed

lemma chain_ends_Suc: "chain_ends nxt n h \<Longrightarrow> chain_ends nxt (Suc n) h"
proof (induction n arbitrary: h)
  case (Suc n)
  then show ?case
    unfolding chain_ends.simps(2) [of nxt "Suc n" h] chain_ends.simps(2) [of nxt n h]
    by (auto split: option.splits simp del: chain_ends.simps)
qed (auto split: option.split)

lemma chain_ends_mono: "chain_ends nxt n h \<Longrightarrow> n \<le> m \<Longrightarrow> chain_ends nxt m h"
  by (induction m) (auto simp: le_Suc_eq dest: chain_ends_Suc simp del: chain_ends.simps(2))

text \<open>255 steps are enough: the set of handles from which \<open>n\<close> steps do not end shrinks until it is stable.\<close>

lemma chain_bound: "chain_ends nxt n h \<longleftrightarrow> (if n \<le> 255 then chain_ends nxt n h else chain_ends nxt 255 h)"
proof -
  let ?B = "\<lambda>n. {h. \<not> chain_ends nxt n h}"
  have stable: "?B (Suc n) = ?B n \<Longrightarrow> ?B (Suc (Suc n)) = ?B (Suc n)" for n
  proof -
    assume "?B (Suc n) = ?B n"
    then have "chain_ends nxt (Suc n) h = chain_ends nxt n h" for h by blast
    then show "?B (Suc (Suc n)) = ?B (Suc n)"
      unfolding chain_ends.simps(2) [of nxt "Suc n"] chain_ends.simps(2) [of nxt n] by presburger
  qed
  have less: "?B (Suc n) \<subseteq> ?B n" for n using chain_ends_Suc by blast
  have "?B (Suc n) = ?B n \<or> card (?B (Suc n)) + Suc n \<le> 255" for n
  proof (induction n)
    case 0
    have "card (?B 0) \<le> card (UNIV - {0xff :: byte})" by (rule card_mono) auto
    then have "card (?B 0) \<le> 255" by (simp add: card_Diff_singleton card_word)
    moreover have "card (?B (Suc 0)) < card (?B 0)" if "?B (Suc 0) \<noteq> ?B 0"
      using less [of 0] that by (intro psubset_card_mono) auto
    ultimately show ?case by linarith
  next
    case (Suc n)
    have "card (?B (Suc (Suc n))) < card (?B (Suc n))" if "?B (Suc (Suc n)) \<noteq> ?B (Suc n)"
      using less [of "Suc n"] that by (intro psubset_card_mono) auto
    then show ?case using Suc stable [of n] by (cases "?B (Suc (Suc n)) = ?B (Suc n)") auto
  qed
  from this [of 255] have 255: "?B (Suc 255) = ?B 255" by linarith
  have "?B (255 + k) = ?B 255 \<and> ?B (Suc (255 + k)) = ?B (255 + k)" for k
  proof (induction k)
    case (Suc k)
    then show ?case using stable [of "255 + k"] by (simp only: add_Suc_right)
  qed (simp only: add_0_right 255)
  from this [of "n - 255"] show ?thesis by (cases "n \<le> 255") (simp_all del: chain_ends.simps, blast)
qed

lemma loop_returns:
  assumes nxt: "\<And>e h b. map_option (next_entry_handle N) (fst (getRoutingTableCtrlCmd L X prv e h b)) = nxt h"
  shows "chain_ends nxt n h \<Longrightarrow> \<exists>r b'. smbus_routing_loop L N X prv h 0 tmp b = Some (r, b')"
proof (induction n arbitrary: h tmp b)
  case 0
  obtain r b1 where "getRoutingTableCtrlCmd L X prv (busOwnerEid b) h b = (r, b1)" by force
  moreover from this have "nxt h = map_option (next_entry_handle N) r" using nxt [of "busOwnerEid b" h b] by simp
  ultimately show ?case using 0 smbus_routing_loop.simps [of L N X prv h 0 tmp b] by auto
next
  case (Suc n)
  obtain r b1 where "getRoutingTableCtrlCmd L X prv (busOwnerEid b) h b = (r, b1)" by force
  moreover from this have "nxt h = map_option (next_entry_handle N) r" using nxt [of "busOwnerEid b" h b] by simp
  ultimately show ?case
    using Suc.prems Suc.IH smbus_routing_loop.simps [of L N X prv h 0 tmp b]
    by (auto split: option.splits)
qed

lemma returned_chain_ends:
  "smbus_routing_loop L N X prv h c tmp b = Some y \<Longrightarrow> c = 0 \<Longrightarrow>
     (\<And>e h b. map_option (next_entry_handle N) (fst (getRoutingTableCtrlCmd L X prv e h b)) = nxt h) \<Longrightarrow>
     \<exists>n. chain_ends nxt n h"
proof (induction rule: smbus_routing_loop.raw_induct [rotated, consumes 1, case_names step])
  case (step loop L N X prv h c tmp b y)
  obtain r b1 where 1: "getRoutingTableCtrlCmd L X prv (busOwnerEid b) h b = (r, b1)" by force
  have r: "nxt h = map_option (next_entry_handle N) r" using step(4) [of "busOwnerEid b" h b] 1 by simp
  consider "h = 0xff \<or> r = None" | resp where "h \<noteq> 0xff" "r = Some resp" by auto
  then show ?case
  proof cases
    case 1
    then have "chain_ends nxt 0 h" using r by auto
    then show ?thesis ..
  next
    case 2
    show ?thesis
    proof (cases "smbus_read_entries L N (busOwnerFd b1) resp (unat (rt_number_of_entries L resp)) (sizeof_routing_table L) tmp")
      case None
      then have "smbus_routing_loop L N X prv h c tmp b = Some (ReadBeyond, b1)"
        using step(3) 2 1 smbus_routing_loop.simps [of L N X prv h c tmp b] by auto
      then show ?thesis using routing_loop_reads_safely by fastforce
    next
      case (Some tmp')
      then have "loop L N X prv (next_entry_handle N resp) c tmp' b1 = Some y" using step(2,3) 2 1 by auto
      from step(1) [OF this step(3,4)] obtain n where "chain_ends nxt n (next_entry_handle N resp)" by blast
      then have "chain_ends nxt (Suc n) h" using 2 r by simp
      then show ?thesis ..
    qed
  qed
qed

text \<open>
  C16: An endpoint finishes reading the routing table of its bus owner exactly when the handles the bus
  owner names lead to the last one, or to a handle it does not answer, within 255 steps; otherwise the
  coroutine asks for ever, because the counter meant to bound the loop never changes. No
  response is read beyond its end. (For a bus owner that answers a handle the same way every time.)
\<close>

theorem routing_table_is_read_iff:
  assumes "\<And>e h b. map_option (next_entry_handle N) (fst (getRoutingTableCtrlCmd L X prv e h b)) = nxt h"
  shows "((\<exists>y. read_routing_table L N X prv b = Some y) \<longleftrightarrow> chain_ends nxt 255 0) \<and>
     (\<forall>y. read_routing_table L N X prv b = Some y \<longrightarrow> fst y \<noteq> ReadBeyond)"
proof -
  have "(\<exists>y. smbus_routing_loop L N X prv 0 0 [] b = Some y) \<longleftrightarrow> chain_ends nxt 255 0"
  proof
    assume "\<exists>y. smbus_routing_loop L N X prv 0 0 [] b = Some y"
    then obtain n where n: "chain_ends nxt n 0" using returned_chain_ends [OF _ refl assms] by blast
    show "chain_ends nxt 255 0"
    proof (cases "n \<le> 255")
      case True
      then show ?thesis by (rule chain_ends_mono [OF n])
    next
      case False
      then show ?thesis using chain_bound [of nxt n 0] n by (simp only: if_False)
    qed
  next
    assume "chain_ends nxt 255 0"
    from loop_returns [OF assms this] show "\<exists>y. smbus_routing_loop L N X prv 0 0 [] b = Some y" by blast
  qed
  moreover have "(\<exists>y. read_routing_table L N X prv b = Some y) \<longleftrightarrow>
      (\<exists>y. smbus_routing_loop L N X prv 0 0 [] b = Some y)"
    by (auto simp: read_routing_table_def Let_def split: option.split prod.split routing_result.split)
  moreover have "fst y \<noteq> ReadBeyond" if "read_routing_table L N X prv b = Some y" for y
    using that routing_loop_reads_safely [of L N X prv 0 0 "[]" b]
    by (auto simp: read_routing_table_def Let_def split: option.splits prod.splits routing_result.splits if_splits)
  ultimately show ?thesis by blast
qed

text \<open>
  A bus owner with one entry per handle: the device with EID \<open>0x20 + h\<close> at address \<open>0x30 + h\<close>.
\<close>

definition owner_network :: "(byte \<Rightarrow> byte) \<Rightarrow> 's exchange" where
  "owner_network nxt priv e req s =
     ((receivedResponse, [0, req ! 1, 0x0a, 0, nxt (req ! 3), 1, 1, 0x20 + req ! 3, 0, 1, 0, 1, 0x30 + req ! 3]), s)"

lemma owner_network_answer:
  "map_option (next_entry_handle dsp_smbus) (fst (getRoutingTableCtrlCmd dsp0236 (owner_network nxt) priv e h b))
     = Some (nxt h)"
proof -
  have "encode_cmd dsp0236 (Get_Routing_Table_Entries h) rq = [0, rq, 0x0a, h]" for rq by (simp add: dsp0236_def)
  then show ?thesis
    by (simp add: getRoutingTableCtrlCmd_def exchange_cmd_def getFormattedReq_def getRqDgramInst_def
        createInstanceId_def Let_def owner_network_def routing_response_ok_def checkMinRespSize_def
        minCmdRespSize_def dsp0236_def dsp_smbus_def eval_nat_numeral)
qed

theorem routing_table_is_read_iff_witness:
  "(\<exists>y. read_routing_table dsp0236 dsp_smbus (owner_network (\<lambda>h. if h = 1 then 0xff else h + 1)) [] new_smbus = Some y) \<and>
   read_routing_table dsp0236 dsp_smbus (owner_network (\<lambda>h. if h = 1 then 0 else h + 1)) [] new_smbus = None"
proof -
  have ends: "chain_ends (\<lambda>h. Some (if h = 1 then 0xff else h + 1)) 255 0"
    by (rule chain_ends_mono [where n = 2]) code_simp+
  let ?read = "\<lambda>nxt. read_routing_table dsp0236 dsp_smbus (owner_network nxt) [] new_smbus"
  have "\<not> chain_ends (\<lambda>h. Some (if h = 1 then 0 else h + 1)) n h" if "h = 0 \<or> h = 1" for n h
    using that by (induction n arbitrary: h) auto
  then have never: "\<not> chain_ends (\<lambda>h. Some (if h = 1 then 0 else h + 1)) 255 0" by (simp del: chain_ends.simps)
  have iff: "(\<exists>y. ?read nxt = Some y) \<longleftrightarrow> chain_ends (\<lambda>h. Some (nxt h)) 255 0" for nxt
    by (rule routing_table_is_read_iff [THEN conjunct1]) (rule owner_network_answer)
  have none: "?read nxt = None \<longleftrightarrow> \<not> (\<exists>y. ?read nxt = Some y)" for nxt
    by (cases "?read nxt") simp_all
  have "?read (\<lambda>h. if h = 1 then 0 else h + 1) = None" unfolding none iff by (rule never)
  with iff [THEN iffD2, OF ends] show ?thesis by (rule conjI)
qed

text \<open>The table an endpoint keeps is the one it has read, and the old one when nothing has changed.\<close>

lemma read_table_is_kept:
  assumes "read_routing_table L N X prv b = Some (TableRead t, b')"
  shows "map fst (smbusDeviceTable b') = map fst t \<and> map address_of (smbusDeviceTable b') = map address_of t"
proof -
  have same: "map fst T = map fst t \<and> map address_of T = map address_of t" if "\<not> isDeviceTableChanged T t" for T
    using that unfolding isDeviceTableChanged_def
    by (induction T t rule: list_induct2') (auto simp: isBindingDataSame_def address_of_def)
  show ?thesis using assms same
    by (auto simp: read_routing_table_def Let_def split: option.splits prod.splits routing_result.splits if_splits)
qed

text \<open>As for PCIe, an EID that has left the table loses its objects.\<close>

lemma smbus_removed_endpoint_disappears:
  assumes "bindingModeType b \<noteq> BusOwner" and X: "env_keeps (gone e) X"
    and "e \<in> fst ` set (smbusDeviceTable b)" and new: "e \<notin> fst ` set newTable"
  shows "endpointInterface (smbus_processRoutingTableChanges L X newTable prvData b) e = None"
proof -
  have reg: "gone e (smbus_register_new L X prv nt c)" if "gone e c" "e \<notin> fst ` set nt" for prv nt c
    using that
  proof (induction nt arbitrary: c)
    case (Cons r nt)
    obtain x c1 where 1: "registerEndpoint L X prv (fst r) Endpoint c = (x, c1)" by force
    have "gone e c1" using gone_register [OF X Cons.prems(1), of "fst r" L prv Endpoint] Cons.prems(2) 1 by force
    then show ?case using Cons 1 by simp
  qed simp
  have absent: "\<not> isDeviceEntryPresent r newTable" if r: "fst r = e" for r
  proof
    assume "isDeviceEntryPresent r newTable"
    then obtain entry where "entry \<in> set newTable" "fst entry = e"
      using r by (auto simp: isDeviceEntryPresent_def list_ex_iff)
    then show False using new by force
  qed
  have "gone e (fold (\<lambda>r b. if \<not> isDeviceEntryPresent r newTable then unregisterEndpoint (fst r) b else b) rs c)"
    if "bindingModeType c \<noteq> BusOwner" "gone e c \<or> e \<in> fst ` set rs" for rs and c :: "'a smbus_scheme"
    using that
  proof (induction rs arbitrary: c)
    case (Cons r rs)
    let ?c = "if \<not> isDeviceEntryPresent r newTable then unregisterEndpoint (fst r) c else c"
    have "gone e ?c \<or> e \<in> fst ` set rs"
      using Cons.prems gone_unregister(1) [of c e] gone_unregister(2) [of e c "fst r"] absent [of r]
      by (cases "fst r = e") auto
    then show ?case using Cons.IH [of ?c] Cons.prems gone_unregister(3) [of "fst r" c] by simp
  qed simp
  from reg [OF this new] show ?thesis
    using assms(1,3) by (simp add: smbus_processRoutingTableChanges_def Let_def gone_def)
qed

text \<open>
  New endpoints are registered with the private data of the bus owner: a new device that only listens
  at its own address is not registered, a bus owner that answers in its place is.
\<close>

lemma registration_asks_the_bus_owner:
  "let b = new_smbus\<lparr>bindingModeType := Endpoint\<rparr>;
       owner = put_private dsp_smbus (device_at 4 0x10);
       at = (\<lambda>a priv. if pv_slave_addr (get_private dsp_smbus priv) = a
                      then device 0x20 test_uuid 0 True priv else silent_bus priv);
       after = (\<lambda>X. smbus_processRoutingTableChanges dsp0236 X [(0x20, device_at 4 0x60)] owner b)
   in endpointInterface (after (at 0x60)) 0x20 = None \<and> endpointInterface (after (at 0x10)) 0x20 \<noteq> None"
  by code_simp

text \<open>
  The handler of the routing timer does not look at its error code, and it cancels the pending wait.
  So once a handler is queued while a wait is pending, as after a second Set Endpoint ID, every run of
  the handler queues the next one: the table is read again and again without any delay.
\<close>

lemma routing_table_is_read_without_delay:
  assumes "smbusDiscoveredFlag b = Discovered" "routingWait b" "0 < routingHandlers b"
  shows "routingHandlers ((routingTimer_handler N ^^ n) b) = routingHandlers b \<and>
     length (routingReads ((routingTimer_handler N ^^ n) b)) = length (routingReads b) + n"
proof -
  have "routingHandlers ((routingTimer_handler N ^^ n) b) = routingHandlers b \<and>
     length (routingReads ((routingTimer_handler N ^^ n) b)) = length (routingReads b) + n \<and>
     smbusDiscoveredFlag ((routingTimer_handler N ^^ n) b) = Discovered \<and>
     routingWait ((routingTimer_handler N ^^ n) b)"
    using assms by (induction n) (auto simp: routingTimer_handler_def smbus_updateRoutingTable_def Let_def)
  then show ?thesis by blast
qed

lemma second_assignment_queues_a_handler:
  "let b0 = SMBusBinding_ctor dsp0236 (test_conf\<lparr>conf_mode := Endpoint\<rparr>) {} [];
       set = (\<lambda>b. snd (smbus_handleSetEndpointId dsp0236 dsp_smbus 8
                   (put_private dsp_smbus (device_at 4 0x10)) [0, 0x80, 1, 0, 0x20] b));
       b = set (set b0)
   in smbusDiscoveredFlag b = Discovered \<and> routingWait b \<and> routingHandlers b = 1"
  by code_simp

end
