(* ===== verification/Fwu_Image.thy ===== *)
theory Fwu_Image
  imports Fwu_Descriptors
begin

text \<open>
  The firmware update package (pldmd/src/pldm\_fwu\_image.cpp): the class \<open>PLDMImg\<close> opens
  the file, reads the package header, checks its checksum and parses the device records and
  the component table into property maps. Iterators into \<open>hdrData\<close> are positions. An access
  through an iterator or pointer outside the header, and the failed \<open>assert\<close> of
  \<open>processPkgHdr\<close>, give \<open>None\<close>: the process has no defined behaviour after them.
\<close>

section \<open>Model\<close>

definition pkgHdrIdentifier :: "byte list" where
  "pkgHdrIdentifier = [0xF0, 0x18, 0x87, 0x8C, 0xCB, 0x7D, 0x49, 0x43,
     0x98, 0x00, 0xA0, 0x2F, 0x05, 0x9A, 0xCA, 0x02]"

text \<open>\<open>PLDM\_FWU\_BASELINE\_TRANSFER\_SIZE\<close> of libpldm\_intel/firmware\_update.h.\<close>

definition baseline_transfer_size :: nat where
  "baseline_transfer_size = 32"

text \<open>The packed structs, read from the bytes they are cast from.\<close>

record pkg_header_info =
  hi_identifier :: "byte list"
  hi_formatRevision :: byte
  hi_size :: u16
  hi_releaseDateTime :: "byte list"
  hi_compBitmapBitLength :: u16
  hi_versionStringType :: byte
  hi_versionStringLen :: byte

definition pkg_header_info_at :: "byte list \<Rightarrow> pkg_header_info" where
  "pkg_header_info_at bs = \<lparr> hi_identifier = take 16 bs, hi_formatRevision = bs ! 16,
     hi_size = read16 bs 17, hi_releaseDateTime = take 13 (drop 19 bs),
     hi_compBitmapBitLength = read16 bs 32, hi_versionStringType = bs ! 34,
     hi_versionStringLen = bs ! 35 \<rparr>"

definition sizeof_pkg_header_info :: nat where "sizeof_pkg_header_info = 36"

record fw_dev_id_record =
  dr_recordLength :: u16
  dr_descriptorCount :: byte
  dr_updateOptionFlags :: u32
  dr_verStrType :: byte
  dr_verStrLen :: byte
  dr_pkgDataLen :: u16

definition fw_dev_id_record_at :: "byte list \<Rightarrow> fw_dev_id_record" where
  "fw_dev_id_record_at bs = \<lparr> dr_recordLength = read16 bs 0, dr_descriptorCount = bs ! 2,
     dr_updateOptionFlags = read32 bs 3, dr_verStrType = bs ! 7, dr_verStrLen = bs ! 8,
     dr_pkgDataLen = read16 bs 9 \<rparr>"

definition sizeof_fw_dev_id_record :: nat where "sizeof_fw_dev_id_record = 11"

record comp_img_info =
  ci_classification :: u16
  ci_identifier :: u16
  ci_comparisonStamp :: u32
  ci_options :: u16
  ci_activationMethod :: u16
  ci_locationOffset :: u32
  ci_size :: u32
  ci_verStrType :: byte
  ci_verStrLen :: byte

definition comp_img_info_at :: "byte list \<Rightarrow> comp_img_info" where
  "comp_img_info_at bs = \<lparr> ci_classification = read16 bs 0, ci_identifier = read16 bs 2,
     ci_comparisonStamp = read32 bs 4, ci_options = read16 bs 8, ci_activationMethod = read16 bs 10,
     ci_locationOffset = read32 bs 12, ci_size = read32 bs 16, ci_verStrType = bs ! 20,
     ci_verStrLen = bs ! 21 \<rparr>"

definition sizeof_comp_img_info :: nat where "sizeof_comp_img_info = 22"

text \<open>
  The class. \<open>image\<close> is the content of the file, \<open>stream\_good\<close> the state of the stream:
  \<open>seekg\<close> clears only the end-of-file bit, so a failed read leaves the stream failed.
\<close>

record pldm_img =
  pldmImgSize :: nat
  image :: "byte list"
  stream_good :: bool
  pkgHdrLen :: u16
  hdrData :: "byte list"
  hdrItr :: nat
  pkgVersionStringLen :: byte
  compBitmapBitLength :: u16
  fwDevPkgDataLen :: u16
  deviceIDRecordCount :: byte
  totalCompCount :: u16
  pkgFWUProperties :: fwu_properties
  pkgDevIDRecords :: "(byte \<times> (fwu_properties \<times> descriptors_map)) list"
  pkgCompProperties :: comp_properties_map
  matchedTermini :: "(byte \<times> tid) list"

text \<open>The constructor; the argument is the content of the file when it can be opened.\<close>

definition PLDMImg_ctor :: "byte list option \<Rightarrow> errc + pldm_img" where
  "PLDMImg_ctor file = (case file of
     None \<Rightarrow> Inl no_such_file_or_directory
   | Some bs \<Rightarrow> Inr \<lparr> pldmImgSize = length bs, image = bs, stream_good = True, pkgHdrLen = 0,
       hdrData = [], hdrItr = 0, pkgVersionStringLen = 0, compBitmapBitLength = 0,
       fwDevPkgDataLen = 0, deviceIDRecordCount = 0, totalCompCount = 0, pkgFWUProperties = [],
       pkgDevIDRecords = [], pkgCompProperties = [], matchedTermini = [] \<rparr>)"

text \<open>\<open>seekg\<close> followed by \<open>read\<close>: the bytes that arrive and the state of the stream.\<close>

definition stream_read :: "pldm_img \<Rightarrow> nat \<Rightarrow> nat \<Rightarrow> byte list \<times> pldm_img" where
  "stream_read img start n =
     (if \<not> stream_good img then ([], img)
      else let got = take n (drop start (image img)) in
        (got, img\<lparr>stream_good := (length got = n)\<rparr>))"

text \<open>\<open>readData\<close>; \<open>data\<close> is the caller's vector, of which the first bytes are overwritten.\<close>

definition readData :: "nat \<Rightarrow> byte list \<Rightarrow> nat \<Rightarrow> pldm_img \<Rightarrow> bool \<times> byte list \<times> pldm_img" where
  "readData startAddr data dataLen img =
     (if size_add startAddr dataLen > pldmImgSize img + baseline_transfer_size
      then (False, data, img)
      else let (got, img') = stream_read img startAddr dataLen in
        (stream_good img', got @ drop (length got) data, img'))"

definition getHdrLen :: "pldm_img \<Rightarrow> u16 \<times> pldm_img" where
  "getHdrLen img =
     (let (got, img') = stream_read img 17 2 in
      if stream_good img' then (read16 got 0, img'\<lparr>pkgHdrLen := read16 got 0\<rparr>) else (0, img'))"

definition matchPkgHdrIdentifier :: "byte list \<Rightarrow> bool" where
  "matchPkgHdrIdentifier ident \<longleftrightarrow> take (length pkgHdrIdentifier) ident = pkgHdrIdentifier"

definition validateHdrDataLen :: "nat \<Rightarrow> nat \<Rightarrow> bool" where
  "validateHdrDataLen bytesLeft nextDataSize \<longleftrightarrow> \<not> bytesLeft < nextDataSize"

definition bytesLeft :: "pldm_img \<Rightarrow> nat" where
  "bytesLeft img = size_sub (length (hdrData img)) (hdrItr img)"

definition advance :: "nat \<Rightarrow> pldm_img \<Rightarrow> pldm_img" where
  "advance n img = img\<lparr>hdrItr := hdrItr img + n\<rparr>"

definition advanceHdrItr :: "nat \<Rightarrow> nat \<Rightarrow> pldm_img \<Rightarrow> bool \<times> pldm_img" where
  "advanceHdrItr dataSize nextDataSize img =
     (let img' = advance dataSize img in (validateHdrDataLen (bytesLeft img') nextDataSize, img'))"

text \<open>\<open>n\<close> bytes of the header from \<open>hdrItr\<close> on.\<close>

definition hdr_bytes :: "nat \<Rightarrow> pldm_img \<Rightarrow> byte list option" where
  "hdr_bytes n img =
     (if hdrItr img + n \<le> length (hdrData img) then Some (take n (drop (hdrItr img) (hdrData img)))
      else None)"

definition put_all :: "(string \<times> fwu_variant) list \<Rightarrow> fwu_properties \<Rightarrow> fwu_properties" where
  "put_all kvs m = fold (\<lambda>(k, v). map_assign k v) kvs m"

definition copyPkgHdrInfoToMap :: "pkg_header_info \<Rightarrow> byte list \<Rightarrow> pldm_img \<Rightarrow> pldm_img" where
  "copyPkgHdrInfoToMap h version img = img\<lparr>
     compBitmapBitLength := hi_compBitmapBitLength h,
     pkgFWUProperties := put_all
       [(''PkgHeaderFormatRevision'', V_u8 (hi_formatRevision h)),
        (''PkgHeaderSize'', V_u16 (hi_size h)),
        (''CompBitmapBitLength'', V_u16 (hi_compBitmapBitLength h)),
        (''PkgVersionStringType'', V_u8 (hi_versionStringType h)),
        (''PkgVersionStringLen'', V_u8 (hi_versionStringLen h)),
        (''PkgVersionString'', V_string version)] (pkgFWUProperties img)\<rparr>"

definition processPkgHdrInfo :: "pldm_img \<Rightarrow> (bool \<times> pldm_img) option" where
  "processPkgHdrInfo img =
     (let img = img\<lparr>hdrItr := 0\<rparr> in
      if hdrData img = [] then Some (False, img)
      else if bytesLeft img < sizeof_pkg_header_info then Some (False, img)
      else do {
        bs \<leftarrow> hdr_bytes sizeof_pkg_header_info img;
        let h = pkg_header_info_at bs;
        if \<not> matchPkgHdrIdentifier (hi_identifier h) then Some (False, img)
        else let (ok, img) = advanceHdrItr sizeof_pkg_header_info (unat (hi_versionStringLen h)) img in
          if \<not> ok then Some (False, img)
          else do {
            version \<leftarrow> hdr_bytes (unat (hi_versionStringLen h)) img;
            Some (True, copyPkgHdrInfoToMap h version
              (img\<lparr>pkgVersionStringLen := hi_versionStringLen h\<rparr>))
          }
      })"

definition verifyPkgHdrChecksum :: "pldm_img \<Rightarrow> (bool \<times> pldm_img) option" where
  "verifyPkgHdrChecksum img =
     (let (ok, checksum, img) = readData (size_sub (unat (pkgHdrLen img)) 4) (replicate 4 0) 4 img in
      if \<not> ok then Some (False, img)
      else let n = size_sub (length (hdrData img)) 4 in
        if length (hdrData img) < n then None
        else Some (read32 checksum 0 = crc32 (take n (hdrData img)), img))"

definition copyCompImgInfoToMap :: "nat \<Rightarrow> comp_img_info \<Rightarrow> byte list \<Rightarrow> pldm_img \<Rightarrow> pldm_img" where
  "copyCompImgInfoToMap count c version img = img\<lparr>pkgCompProperties :=
     map_assign (word_of_nat count) (put_all
       [(''CompClassification'', V_u16 (ci_classification c)),
        (''CompIdentifier'', V_u16 (ci_identifier c)),
        (''CompComparisonStamp'', V_u32 (ci_comparisonStamp c)),
        (''CompOptions'', V_u16 (ci_options c)),
        (''RequestedCompActivationMethod'', V_u16 (ci_activationMethod c)),
        (''CompLocationOffset'', V_u32 (ci_locationOffset c)),
        (''CompSize'', V_u32 (ci_size c)),
        (''CmpVerStrType'', V_u8 (ci_verStrType c)),
        (''CompVerStrLen'', V_u8 (ci_verStrLen c)),
        (''CompVerStr'', V_string version)] []) (pkgCompProperties img)\<rparr>"

text \<open>
  One round of the loop of \<open>processCompImgInfo\<close> (\<open>False\<close> is its \<open>break\<close>), and the loop with
  \<open>n\<close> components still to be found.
\<close>

definition process_comp :: "nat \<Rightarrow> pldm_img \<Rightarrow> (bool \<times> pldm_img) option" where
  "process_comp found img =
     (if bytesLeft img \<le> sizeof_comp_img_info then Some (False, img)
      else do {
        bs \<leftarrow> hdr_bytes sizeof_comp_img_info img;
        let c = comp_img_info_at bs;
        let n = unat (ci_verStrLen c);
        let (ok, img) = advanceHdrItr sizeof_comp_img_info n img;
        if \<not> ok then Some (False, img)
        else do {
          version \<leftarrow> hdr_bytes n img;
          Some (True, copyCompImgInfoToMap found c version (advance n img))
        }
      })"

fun comp_loop :: "nat \<Rightarrow> nat \<Rightarrow> pldm_img \<Rightarrow> (nat \<times> pldm_img) option" where
  "comp_loop 0 found img = Some (found, img)"
| "comp_loop (Suc n) found img =
     (if hdrItr img < length (hdrData img)
      then do {
        (more, img) \<leftarrow> process_comp found img;
        if more then comp_loop n (found + 1) img else Some (found, img)
      }
      else Some (found, img))"

definition processCompImgInfo :: "pldm_img \<Rightarrow> (bool \<times> pldm_img) option" where
  "processCompImgInfo img =
     (let (ok, img) = advanceHdrItr 0 2 img in
      if \<not> ok then Some (False, img)
      else do {
        bs \<leftarrow> hdr_bytes 2 img;
        let img = advance 2 (img\<lparr>totalCompCount := read16 bs 0\<rparr>);
        (found, img) \<leftarrow> comp_loop (unat (totalCompCount img)) 0 img;
        Some (found = unat (totalCompCount img), img)
      })"

definition findMatchedTerminus :: "(tid \<times> fd_properties) list \<Rightarrow> byte \<Rightarrow> descriptors_map
    \<Rightarrow> pldm_img \<Rightarrow> bool \<times> pldm_img" where
  "findMatchedTerminus termini devIdRecord pkgDescriptors img =
     (let img = img\<lparr>matchedTermini := matchedTermini img @
        map (\<lambda>(t, _). (devIdRecord, t)) (filter (\<lambda>(_, fd). fst (snd fd) = pkgDescriptors) termini)\<rparr>
      in (matchedTermini img \<noteq> [], img))"

definition copyDevIdentificationInfoToMap :: "byte \<Rightarrow> u16 \<Rightarrow> fw_dev_id_record \<Rightarrow> byte list
    \<Rightarrow> byte list \<Rightarrow> byte list \<Rightarrow> descriptors_map \<Rightarrow> pldm_img \<Rightarrow> pldm_img" where
  "copyDevIdentificationInfoToMap i initialType d comps version pkgData descriptors img =
     img\<lparr>pkgDevIDRecords := map_assign i (put_all
       [(''InitialDescriptorType'', V_u16 initialType),
        (''DeviceIDRecordCount'', V_u8 i),
        (''RecordLength'', V_u16 (dr_recordLength d)),
        (''DescriptorCount'', V_u8 (dr_descriptorCount d)),
        (''DeviceUpdateOptionFlags'', V_u32 (dr_updateOptionFlags d)),
        (''ComImgSetVerStrType'', V_u8 (dr_verStrType d)),
        (''ComImgSetVerStrLen'', V_u8 (dr_verStrLen d)),
        (''FWDevPkgDataLen'', V_u16 (dr_pkgDataLen d)),
        (''ApplicableComponents'', V_bytes comps),
        (''CompImgSetVerStr'', V_string version),
        (''FirmwareDevicePackageData'', V_bytes pkgData)] [], descriptors) (pkgDevIDRecords img)\<rparr>"

definition getDescriptorDataLen :: "fw_dev_id_record \<Rightarrow> nat \<Rightarrow> nat" where
  "getDescriptorDataLen d applicableComponentsLen =
     size_sub (size_sub (size_sub (size_sub (unat (dr_recordLength d)) sizeof_fw_dev_id_record)
       applicableComponentsLen) (unat (dr_verStrLen d))) (unat (dr_pkgDataLen d))"

text \<open>
  One round of the loop of \<open>processDevIdentificationInfo\<close>. \<open>uninit\<close> is the indeterminate
  value of the local \<open>initialDescriptorType\<close>.
\<close>

definition process_dev_record :: "(tid \<times> fd_properties) list \<Rightarrow> u16 \<Rightarrow> nat \<Rightarrow> pldm_img
    \<Rightarrow> (bool \<times> pldm_img) option" where
  "process_dev_record termini uninit found img =
     (if bytesLeft img < sizeof_fw_dev_id_record then Some (False, img)
      else do {
        bs \<leftarrow> hdr_bytes sizeof_fw_dev_id_record img;
        let d = fw_dev_id_record_at bs;
        let applicableComponentsLen = unat (compBitmapBitLength img) div 8;
        let (ok, img) = advanceHdrItr sizeof_fw_dev_id_record applicableComponentsLen img;
        if \<not> ok then Some (False, img)
        else do {
          comps \<leftarrow> hdr_bytes applicableComponentsLen img;
          let (ok, img) = advanceHdrItr applicableComponentsLen (unat (dr_verStrLen d)) img;
          if \<not> ok then Some (False, img)
          else do {
            version \<leftarrow> hdr_bytes (unat (dr_verStrLen d)) img;
            let descriptorDataLen = getDescriptorDataLen d applicableComponentsLen;
            let (ok, img) = advanceHdrItr (length version) descriptorDataLen img;
            if \<not> ok then Some (False, img)
            else do {
              descriptorData \<leftarrow> hdr_bytes descriptorDataLen img;
              let (initialType, descriptors) =
                unpackDescriptors (dr_descriptorCount d) descriptorData uninit [];
              let (_, img) = findMatchedTerminus termini (word_of_nat found) descriptors img;
              let img = img\<lparr>fwDevPkgDataLen := dr_pkgDataLen d\<rparr>;
              let (ok, img) = advanceHdrItr (length descriptorData) (unat (fwDevPkgDataLen img)) img;
              if \<not> ok then Some (False, img)
              else do {
                pkgData \<leftarrow> hdr_bytes (unat (fwDevPkgDataLen img)) img;
                let img = advance (unat (fwDevPkgDataLen img)) img;
                Some (True, copyDevIdentificationInfoToMap (word_of_nat found) initialType d comps
                  version pkgData descriptors img)
              }
            }
          }
        }
      })"

fun dev_record_loop :: "(tid \<times> fd_properties) list \<Rightarrow> (nat \<Rightarrow> u16) \<Rightarrow> nat \<Rightarrow> nat \<Rightarrow> pldm_img
    \<Rightarrow> (nat \<times> pldm_img) option" where
  "dev_record_loop termini uninit 0 found img = Some (found, img)"
| "dev_record_loop termini uninit (Suc n) found img =
     (if hdrItr img < length (hdrData img)
      then do {
        (more, img) \<leftarrow> process_dev_record termini (uninit found) found img;
        if more then dev_record_loop termini uninit n (found + 1) img else Some (found, img)
      }
      else Some (found, img))"

definition processDevIdentificationInfo :: "(tid \<times> fd_properties) list \<Rightarrow> (nat \<Rightarrow> u16) \<Rightarrow> pldm_img
    \<Rightarrow> (bool \<times> pldm_img) option" where
  "processDevIdentificationInfo termini uninit img =
     (let (ok, img) = advanceHdrItr (unat (pkgVersionStringLen img)) 1 img in
      if \<not> ok then Some (False, img)
      else do {
        bs \<leftarrow> hdr_bytes 1 img;
        let img = advance 1 (img\<lparr>deviceIDRecordCount := bs ! 0\<rparr>);
        (found, img) \<leftarrow> dev_record_loop termini uninit (unat (deviceIDRecordCount img)) 0 img;
        if found \<noteq> unat (deviceIDRecordCount img) then Some (False, img)
        else Some (matchedTermini img \<noteq> [], img)
      })"

definition minPkgHeaderLen :: nat where
  "minPkgHeaderLen = sizeof_pkg_header_info + sizeof_fw_dev_id_record + sizeof_comp_img_info"

definition processPkgHdr :: "(tid \<times> fd_properties) list \<Rightarrow> (nat \<Rightarrow> u16) \<Rightarrow> pldm_img
    \<Rightarrow> (bool \<times> pldm_img) option" where
  "processPkgHdr termini uninit img =
     (let (len, img) = getHdrLen img; img = img\<lparr>pkgHdrLen := len\<rparr> in
      if unat len = minPkgHeaderLen then None
      else let data = take (unat len) (hdrData img @ replicate (unat len) 0);
               (ok, data, img) = readData 0 data (unat len) img; img = img\<lparr>hdrData := data\<rparr> in
        if \<not> ok then Some (False, img)
        else do {
          (ok, img) \<leftarrow> verifyPkgHdrChecksum img;
          if \<not> ok then Some (False, img)
          else do {
            (ok, img) \<leftarrow> processPkgHdrInfo img;
            if \<not> ok then Some (False, img)
            else do {
              (ok, img) \<leftarrow> processDevIdentificationInfo termini uninit img;
              if \<not> ok then Some (False, img)
              else processCompImgInfo img
            }
          }
        })"

text \<open>The typed getters: the value is found only when it has the type asked for.\<close>

definition getPkgProperty :: "(fwu_variant \<Rightarrow> 'a option) \<Rightarrow> string \<Rightarrow> pldm_img \<Rightarrow> 'a option" where
  "getPkgProperty get_if name img = Option.bind (map_of (pkgFWUProperties img) name) get_if"

definition getCompProperty :: "(fwu_variant \<Rightarrow> 'a option) \<Rightarrow> string \<Rightarrow> u16 \<Rightarrow> pldm_img \<Rightarrow> 'a option" where
  "getCompProperty get_if name compCount img =
     Option.bind (map_of (pkgCompProperties img) compCount) (\<lambda>props. Option.bind (map_of props name) get_if)"

definition getDevIdRcrdProperty :: "(fwu_variant \<Rightarrow> 'a option) \<Rightarrow> string \<Rightarrow> byte \<Rightarrow> pldm_img \<Rightarrow> 'a option" where
  "getDevIdRcrdProperty get_if name recordCount img =
     Option.bind (map_of (pkgDevIDRecords img) recordCount)
       (\<lambda>rcd. Option.bind (map_of (fst rcd) name) get_if)"

fun get_u8 :: "fwu_variant \<Rightarrow> byte option" where
  "get_u8 (V_u8 x) = Some x" | "get_u8 _ = None"

fun get_u16 :: "fwu_variant \<Rightarrow> u16 option" where
  "get_u16 (V_u16 x) = Some x" | "get_u16 _ = None"

fun get_u32 :: "fwu_variant \<Rightarrow> u32 option" where
  "get_u32 (V_u32 x) = Some x" | "get_u32 _ = None"

fun get_string :: "fwu_variant \<Rightarrow> byte list option" where
  "get_string (V_string x) = Some x" | "get_string _ = None"

fun get_bytes :: "fwu_variant \<Rightarrow> byte list option" where
  "get_bytes (V_bytes x) = Some x" | "get_bytes _ = None"

definition getUpdatableImagesize :: "pldm_img \<Rightarrow> nat" where
  "getUpdatableImagesize img = (pldmImgSize img + 2 ^ 64 - unat (pkgHdrLen img)) mod 2 ^ 32"

section \<open>The parser stays inside the header\<close>

definition inside :: "byte list \<Rightarrow> pldm_img \<Rightarrow> bool" where
  "inside hs img \<longleftrightarrow> hdrData img = hs \<and> hdrItr img \<le> length hs \<and> length hs < 65536"

text \<open>\<open>a\<close> is a result of the parser: it has a value and leaves the iterator inside the header.\<close>

definition safe :: "byte list \<Rightarrow> ('a \<times> pldm_img) option \<Rightarrow> bool" where
  "safe hs a \<longleftrightarrow> (\<exists>x img. a = Some (x, img) \<and> inside hs img)"

lemma bytesLeft_inside: "inside hs img \<Longrightarrow> bytesLeft img = length hs - hdrItr img"
  by (auto simp: bytesLeft_def inside_def)

lemma safe_Some [intro!]: "inside hs img \<Longrightarrow> safe hs (Some (x, img))"
  by (auto simp: safe_def)

lemma safe_if: "(c \<Longrightarrow> safe hs a) \<Longrightarrow> (\<not> c \<Longrightarrow> safe hs b) \<Longrightarrow> safe hs (if c then a else b)"
  by simp

lemma advance_fields [simp]:
  "hdrData (advance n img) = hdrData img"
  "hdrItr (advance n img) = hdrItr img + n"
  "image (advance n img) = image img"
  "compBitmapBitLength (advance n img) = compBitmapBitLength img"
  "fwDevPkgDataLen (advance n img) = fwDevPkgDataLen img"
  "deviceIDRecordCount (advance n img) = deviceIDRecordCount img"
  "totalCompCount (advance n img) = totalCompCount img"
  "matchedTermini (advance n img) = matchedTermini img"
  "pkgDevIDRecords (advance n img) = pkgDevIDRecords img"
  "pkgCompProperties (advance n img) = pkgCompProperties img"
  "pkgFWUProperties (advance n img) = pkgFWUProperties img"
  "pkgVersionStringLen (advance n img) = pkgVersionStringLen img"
  by (simp_all add: advance_def)

lemma safe_bind:
  "safe hs a \<Longrightarrow> (\<And>x img. inside hs img \<Longrightarrow> safe hs (f x img)) \<Longrightarrow> safe hs (a \<bind> (\<lambda>(x, img). f x img))"
  by (auto simp: safe_def)

lemma safe_bytes:
  assumes "inside hs img" "n \<le> bytesLeft img" "\<And>bs. length bs = n \<Longrightarrow> safe hs (f bs)"
  shows "safe hs (hdr_bytes n img \<bind> f)"
proof -
  have "hdrItr img + n \<le> length (hdrData img)"
    using assms(1,2) by (auto simp: bytesLeft_inside inside_def)
  then show ?thesis
    by (simp add: hdr_bytes_def assms(3))
qed

lemma safe_advance:
  assumes "inside hs img" "m \<le> bytesLeft img"
    and "inside hs (advance m img) \<Longrightarrow> n \<le> bytesLeft (advance m img) \<Longrightarrow> safe hs (f (advance m img))"
  shows "safe hs (case advanceHdrItr m n img of (ok, img') \<Rightarrow> if \<not> ok then Some (False, img') else f img')"
proof -
  have "inside hs (advance m img)"
    using assms(1,2) by (auto simp: inside_def advance_def bytesLeft_inside)
  then show ?thesis
    using assms(3) by (auto simp: advanceHdrItr_def validateHdrDataLen_def Let_def)
qed

lemma inside_advance: "inside hs img \<Longrightarrow> n \<le> bytesLeft img \<Longrightarrow> inside hs (advance n img)"
  by (auto simp: inside_def advance_def bytesLeft_inside)

lemma inside_copy [simp]:
  "inside hs (copyCompImgInfoToMap k c v img) = inside hs img"
  "inside hs (copyDevIdentificationInfoToMap i t d cs v pd ds img) = inside hs img"
  "inside hs (copyPkgHdrInfoToMap h v img) = inside hs img"
  "inside hs (snd (findMatchedTerminus ts i ds img)) = inside hs img"
  by (auto simp: inside_def copyCompImgInfoToMap_def copyDevIdentificationInfoToMap_def
      copyPkgHdrInfoToMap_def findMatchedTerminus_def Let_def)

lemma inside_fields [simp]:
  "inside hs (img\<lparr>totalCompCount := a\<rparr>) = inside hs img"
  "inside hs (img\<lparr>deviceIDRecordCount := b\<rparr>) = inside hs img"
  "inside hs (img\<lparr>fwDevPkgDataLen := c\<rparr>) = inside hs img"
  "inside hs (img\<lparr>pkgVersionStringLen := d\<rparr>) = inside hs img"
  by (simp_all add: inside_def)

lemma bytesLeft_fields [simp]:
  "bytesLeft (img\<lparr>totalCompCount := a\<rparr>) = bytesLeft img"
  "bytesLeft (img\<lparr>deviceIDRecordCount := b\<rparr>) = bytesLeft img"
  "bytesLeft (img\<lparr>fwDevPkgDataLen := c\<rparr>) = bytesLeft img"
  "bytesLeft (img\<lparr>pkgVersionStringLen := d\<rparr>) = bytesLeft img"
  "bytesLeft (snd (findMatchedTerminus ts i ds img)) = bytesLeft img"
  by (simp_all add: bytesLeft_def findMatchedTerminus_def Let_def)

lemma safe_comp: "inside hs img \<Longrightarrow> safe hs (process_comp found img)"
  by (auto simp: process_comp_def Let_def intro!: safe_bytes safe_advance inside_advance)

lemma safe_comp_loop: "inside hs img \<Longrightarrow> safe hs (comp_loop n found img)"
  by (induction n arbitrary: found img) (auto intro!: safe_bind safe_comp)

lemma safe_compImgInfo: "inside hs img \<Longrightarrow> safe hs (processCompImgInfo img)"
  by (auto simp: processCompImgInfo_def Let_def intro!: safe_bytes safe_advance safe_bind safe_comp_loop inside_advance)

lemma safe_unpack:
  assumes "\<And>t ds. safe hs (f t ds)"
  shows "safe hs (case unpackDescriptors n bs u m of (t, ds) \<Rightarrow> f t ds)"
  using assms by (simp split: prod.split)

lemma safe_find:
  assumes "inside hs img"
    and "\<And>x img'. inside hs img' \<Longrightarrow> bytesLeft img' = bytesLeft img \<Longrightarrow> safe hs (f x img')"
  shows "safe hs (case findMatchedTerminus ts i ds img of (x, img') \<Rightarrow> f x img')"
  using assms by (simp add: case_prod_unfold)

lemma safe_dev_record: "inside hs img \<Longrightarrow> safe hs (process_dev_record termini uninit found img)"
  by (auto simp: process_dev_record_def Let_def split del: if_split
      intro!: safe_if safe_bytes safe_advance safe_unpack safe_find inside_advance)

lemma safe_dev_record_loop: "inside hs img \<Longrightarrow> safe hs (dev_record_loop termini uninit n found img)"
  by (induction n arbitrary: found img) (auto intro!: safe_bind safe_dev_record)

lemma safe_devInfo:
  "inside hs img \<Longrightarrow> unat (pkgVersionStringLen img) \<le> bytesLeft img
    \<Longrightarrow> safe hs (processDevIdentificationInfo termini uninit img)"
  by (auto simp: processDevIdentificationInfo_def Let_def split del: if_split
      intro!: safe_if safe_bytes safe_advance safe_bind safe_dev_record_loop inside_advance)

lemma hdrInfo_eq:
  assumes "length (hdrData img) < 65536"
  defines "h \<equiv> pkg_header_info_at (take 36 (hdrData img))" and "img0 \<equiv> img\<lparr>hdrItr := 0\<rparr>"
  shows "processPkgHdrInfo img =
    (let n = unat (hi_versionStringLen h) in
     if length (hdrData img) < 36 \<or> \<not> matchPkgHdrIdentifier (hi_identifier h) then Some (False, img0)
     else if length (hdrData img) < 36 + n then Some (False, advance 36 img0)
     else Some (True, copyPkgHdrInfoToMap h (take n (drop 36 (hdrData img)))
       ((advance 36 img0)\<lparr>pkgVersionStringLen := hi_versionStringLen h\<rparr>)))"
proof -
  have "bytesLeft img0 = length (hdrData img)"
    using assms(1) by (simp add: bytesLeft_def img0_def)
  moreover have "36 \<le> length (hdrData img) \<Longrightarrow> bytesLeft (advance 36 img0) = length (hdrData img) - 36"
    using assms(1) by (simp add: bytesLeft_def img0_def)
  ultimately show ?thesis
    by (auto simp: processPkgHdrInfo_def sizeof_pkg_header_info_def hdr_bytes_def advanceHdrItr_def
        validateHdrDataLen_def Let_def h_def img0_def)
qed

lemma safe_hdrInfo:
  assumes "length (hdrData img) < 65536"
  obtains ok img' where "processPkgHdrInfo img = Some (ok, img')" "inside (hdrData img) img'"
    "ok \<Longrightarrow> unat (pkgVersionStringLen img') \<le> bytesLeft img'"
  using that assms unfolding hdrInfo_eq [OF assms]
  by (fastforce simp: Let_def inside_def copyPkgHdrInfoToMap_def bytesLeft_def split: if_splits)

lemma stream_read_fields [simp]:
  "pldmImgSize (snd (stream_read img a n)) = pldmImgSize img"
  "image (snd (stream_read img a n)) = image img"
  "pkgHdrLen (snd (stream_read img a n)) = pkgHdrLen img"
  "hdrData (snd (stream_read img a n)) = hdrData img"
  "hdrItr (snd (stream_read img a n)) = hdrItr img"
  by (simp_all add: stream_read_def Let_def)

text \<open>The header as it lies in the file: its length field and its last four bytes.\<close>

definition hdr_len_field :: "byte list \<Rightarrow> nat" where
  "hdr_len_field bytes = (if length bytes < 19 then 0 else unat (read16 (drop 17 bytes) 0))"

definition header_of :: "byte list \<Rightarrow> byte list" where
  "header_of bytes = take (hdr_len_field bytes) bytes"

definition checksum_ok :: "byte list \<Rightarrow> bool" where
  "checksum_ok hdr \<longleftrightarrow> 4 \<le> length hdr \<and>
     read32 (drop (length hdr - 4) hdr) 0 = crc32 (take (length hdr - 4) hdr)"

lemma read16_take: "i + 2 \<le> n \<Longrightarrow> read16 (take n bs) i = read16 bs i"
  by (simp add: read16_def)

lemma read32_take: "i + 4 \<le> n \<Longrightarrow> read32 (take n bs) i = read32 bs i"
  by (simp add: read32_def)

lemma hdr_len_less: "hdr_len_field bytes < 65536"
  using u16_less by (simp add: hdr_len_field_def)

lemma verify_checksum:
  assumes "stream_good img" "pldmImgSize img = length (image img)" "length (image img) < 2 ^ 32 - 4"
    and "hdrData img = take (unat (pkgHdrLen img)) (image img)" "unat (pkgHdrLen img) \<le> length (image img)"
  shows "\<exists>img'. verifyPkgHdrChecksum img = Some (checksum_ok (hdrData img), img')
    \<and> hdrData img' = hdrData img \<and> (checksum_ok (hdrData img) \<longrightarrow> img' = img)"
proof (cases "4 \<le> unat (pkgHdrLen img)")
  case True
  let ?n = "unat (pkgHdrLen img)"
  have "size_sub ?n 4 = ?n - 4" "size_add (?n - 4) 4 = ?n"
    using True u16_less [of "pkgHdrLen img"] by (simp_all add: size_add_def)
  then show ?thesis
    using assms True u16_less [of "pkgHdrLen img"]
    by (auto simp: verifyPkgHdrChecksum_def readData_def stream_read_def checksum_ok_def Let_def
        take_drop min_def read32_take)
next
  case False
  let ?n = "unat (pkgHdrLen img)"
  have "size_sub ?n 4 = 2 ^ 32 + ?n - 4" "size_add (2 ^ 32 + ?n - 4) 4 = ?n"
    using False by (simp_all add: size_sub_wraps size_add_def)
  then show ?thesis
    using assms False
    by (auto simp: verifyPkgHdrChecksum_def readData_def stream_read_def checksum_ok_def Let_def)
qed

definition opened :: "byte list \<Rightarrow> pldm_img" where
  "opened bytes = \<lparr> pldmImgSize = length bytes, image = bytes, stream_good = True, pkgHdrLen = 0,
     hdrData = [], hdrItr = 0, pkgVersionStringLen = 0, compBitmapBitLength = 0,
     fwDevPkgDataLen = 0, deviceIDRecordCount = 0, totalCompCount = 0, pkgFWUProperties = [],
     pkgDevIDRecords = [], pkgCompProperties = [], matchedTermini = [] \<rparr>"

lemma PLDMImg_ctor_opened: "PLDMImg_ctor (Some bytes) = Inr img \<longleftrightarrow> img = opened bytes"
  by (auto simp: PLDMImg_ctor_def opened_def)

definition with_header :: "byte list \<Rightarrow> pldm_img" where
  "with_header bytes = (opened bytes)\<lparr>pkgHdrLen := word_of_nat (hdr_len_field bytes),
     hdrData := header_of bytes\<rparr>"

text \<open>The parser after the header has been read and its checksum compared.\<close>

definition parse_header :: "(tid \<times> fd_properties) list \<Rightarrow> (nat \<Rightarrow> u16) \<Rightarrow> pldm_img
    \<Rightarrow> (bool \<times> pldm_img) option" where
  "parse_header termini uninit img = do {
     (ok, img) \<leftarrow> processPkgHdrInfo img;
     if \<not> ok then Some (False, img)
     else do {
       (ok, img) \<leftarrow> processDevIdentificationInfo termini uninit img;
       if \<not> ok then Some (False, img)
       else processCompImgInfo img
     }
   }"

lemma getHdrLen_opened: "fst (getHdrLen (opened bytes)) = word_of_nat (hdr_len_field bytes)"
  by (auto simp: getHdrLen_def stream_read_def opened_def hdr_len_field_def Let_def read16_take)

lemma processPkgHdr_eq:
  assumes "length bytes < 2 ^ 32 - 4"
  shows "if hdr_len_field bytes = minPkgHeaderLen then processPkgHdr termini uninit (opened bytes) = None
    else if 19 \<le> length bytes \<and> hdr_len_field bytes \<le> length bytes \<and> checksum_ok (header_of bytes)
    then processPkgHdr termini uninit (opened bytes) = parse_header termini uninit (with_header bytes)
    else \<exists>img. processPkgHdr termini uninit (opened bytes) = Some (False, img)"
proof -
  let ?L = "hdr_len_field bytes"
  have L: "unat (word_of_nat ?L :: u16) = ?L" "size_add 0 ?L = ?L"
    using hdr_len_less [of bytes] by (simp_all add: size_add_def)
  have short: "length bytes < 19 \<Longrightarrow> ?L = 0" by (simp add: hdr_len_field_def)
  have get: "getHdrLen (opened bytes) = (if length bytes < 19
      then (0, (opened bytes)\<lparr>stream_good := False\<rparr>)
      else (word_of_nat ?L, (opened bytes)\<lparr>pkgHdrLen := word_of_nat ?L\<rparr>))"
    by (auto simp: getHdrLen_def stream_read_def opened_def hdr_len_field_def Let_def read16_take)
  show ?thesis
  proof (cases "?L = minPkgHeaderLen")
    case True
    then have "\<not> length bytes < 19" using short by (auto simp: minPkgHeaderLen_def sizeof_pkg_header_info_def)
    with True L show ?thesis by (simp add: processPkgHdr_def get Let_def)
  next
    case False
    show ?thesis
    proof (cases "19 \<le> length bytes \<and> ?L \<le> length bytes")
      case True
      define img where "img = with_header bytes"
      have img: "stream_good img" "pldmImgSize img = length (image img)" "length (image img) < 2 ^ 32 - 4"
        "hdrData img = take (unat (pkgHdrLen img)) (image img)" "unat (pkgHdrLen img) \<le> length (image img)"
        using assms True L by (simp_all add: img_def with_header_def opened_def header_of_def)
      obtain img' where v: "verifyPkgHdrChecksum img = Some (checksum_ok (hdrData img), img')"
        "checksum_ok (hdrData img) \<longrightarrow> img' = img"
        using verify_checksum [OF img] by blast
      have "processPkgHdr termini uninit (opened bytes) = (do {
          (ok, img) \<leftarrow> verifyPkgHdrChecksum img;
          if \<not> ok then Some (False, img) else parse_header termini uninit img })"
        unfolding processPkgHdr_def get parse_header_def using True False L
        by (simp add: readData_def stream_read_def opened_def img_def with_header_def
            header_of_def Let_def)
      then show ?thesis
        using v False True by (auto simp: img_def [symmetric]) (auto simp: img_def with_header_def)
    next
      case far: False
      then show ?thesis
        unfolding processPkgHdr_def get using False L short
        by (auto simp: readData_def stream_read_def opened_def Let_def)
    qed
  qed
qed

lemma safe_parse_header:
  assumes "length (hdrData img) < 65536"
  shows "safe (hdrData img) (parse_header termini uninit img)"
proof -
  obtain ok img' where *: "processPkgHdrInfo img = Some (ok, img')" "inside (hdrData img) img'"
    "ok \<Longrightarrow> unat (pkgVersionStringLen img') \<le> bytesLeft img'"
    using safe_hdrInfo [OF assms] by blast
  show ?thesis
    unfolding parse_header_def *(1) using *(2,3)
    by (auto intro!: safe_bind safe_devInfo safe_compImgInfo split del: if_split intro!: safe_if)
qed

lemma with_header_fields [simp]:
  "hdrData (with_header bytes) = header_of bytes"
  "pkgCompProperties (with_header bytes) = []"
  "pkgDevIDRecords (with_header bytes) = []"
  "matchedTermini (with_header bytes) = []"
  by (simp_all add: with_header_def opened_def)

lemma header_less: "length (header_of bytes) < 65536"
  using hdr_len_less [of bytes] by (simp add: header_of_def)

text \<open>A corrupted byte changes the sum or its stored copy.\<close>

lemma unat_le32:
  "unat (le32 a b c d) = unat a + 256 * (unat b + 256 * (unat c + 256 * unat d))"
  using byte_less [of a] byte_less [of b] byte_less [of c] byte_less [of d]
  by (simp add: le32_def push_bit_eq_mult unat_word_ariths)

lemma digit: "x < 256 \<Longrightarrow> x' < 256 \<Longrightarrow> x + 256 * y = x' + 256 * y' \<longleftrightarrow> x = x' \<and> y = (y' :: nat)"
  by (metis add.commute div_mult_self4 div_less mod_mult_self2 mod_less add_0 zero_neq_numeral)

lemma le32_inj: "le32 a b c d = le32 a' b' c' d' \<longleftrightarrow> a = a' \<and> b = b' \<and> c = c' \<and> d = d'"
  by (simp only: word_unat_eq_iff unat_le32 digit byte_less)

lemma read32_eq_iff:
  assumes "length xs = 4" "length ys = 4"
  shows "read32 xs 0 = read32 ys 0 \<longleftrightarrow> xs = ys"
proof
  assume "read32 xs 0 = read32 ys 0"
  then have "xs ! 0 = ys ! 0" "xs ! 1 = ys ! 1" "xs ! 2 = ys ! 2" "xs ! 3 = ys ! 3"
    by (simp_all add: read32_def le32_inj numeral_2_eq_2)
  then have "\<forall>k < 4. xs ! k = ys ! k"
    by (simp add: less_Suc_eq numeral_eq_Suc)
  with assms show "xs = ys" by (simp add: nth_equalityI)
qed simp

lemma corrupted_header:
  assumes "checksum_ok hdr" "i < length hdr" "hdr ! i \<noteq> b"
  shows "\<not> checksum_ok (hdr[i := b])"
proof -
  let ?n = "length hdr - 4"
  have n: "4 \<le> length hdr" "read32 (drop ?n hdr) 0 = crc32 (take ?n hdr)"
    using assms(1) by (auto simp: checksum_ok_def)
  show ?thesis
  proof (cases "i < ?n")
    case True
    then have "crc32 ((take ?n hdr)[i := b]) \<noteq> crc32 (take ?n hdr)"
      using crc32.corrupted_byte_detected [of i "take ?n hdr" b] assms by (simp add: crc32_checksum)
    with True n show ?thesis by (simp add: checksum_ok_def take_update_swap)
  next
    case False
    then have i: "i - ?n < length (drop ?n hdr)" "drop ?n hdr ! (i - ?n) = hdr ! i"
      using assms(2) n(1) by auto
    have "(drop ?n hdr)[i - ?n := b] \<noteq> drop ?n hdr"
    proof
      assume "(drop ?n hdr)[i - ?n := b] = drop ?n hdr"
      then have "(drop ?n hdr)[i - ?n := b] ! (i - ?n) = hdr ! i" using i(2) by simp
      with i(1) assms(3) show False by simp
    qed
    then have "read32 ((drop ?n hdr)[i - ?n := b]) 0 \<noteq> read32 (drop ?n hdr) 0"
      using n(1) by (subst read32_eq_iff) auto
    with False n show ?thesis by (simp add: checksum_ok_def drop_update_swap)
  qed
qed

section \<open>Properties\<close>

text \<open>
  Whatever the file holds, the parser never touches a byte outside the header it read,
  and it ends; the only input it does not survive is a header length field of 69, the sum of
  its struct sizes, on which its own assertion fails.
\<close>
lemma package_header_parsed_safely:
  assumes "PLDMImg_ctor (Some bytes) = Inr img" and "length bytes < 2 ^ 32 - 4"
  shows "processPkgHdr termini uninit img = None \<longleftrightarrow> 19 \<le> length bytes \<and> read16 bytes 17 = 69"
proof -
  have img: "img = opened bytes" using assms(1) by (simp add: PLDMImg_ctor_opened)
  have "parse_header termini uninit (with_header bytes) \<noteq> None"
    using safe_parse_header [of "with_header bytes"] header_less [of bytes] by (fastforce simp: safe_def)
  moreover have "hdr_len_field bytes = minPkgHeaderLen \<longleftrightarrow> 19 \<le> length bytes \<and> read16 bytes 17 = 69"
  proof (cases "19 \<le> length bytes")
    case True
    then have "read16 (drop 17 bytes) 0 = read16 bytes 17" by (simp add: read16_def)
    with True show ?thesis
      by (auto simp: hdr_len_field_def minPkgHeaderLen_def sizeof_pkg_header_info_def sizeof_comp_img_info_def
          sizeof_fw_dev_id_record_def word_unat_eq_iff)
  qed (auto simp: hdr_len_field_def minPkgHeaderLen_def sizeof_pkg_header_info_def)
  ultimately show ?thesis
    using processPkgHdr_eq [OF assms(2), of termini uninit] by (auto simp: img split: if_splits)
qed

text \<open>
  Flashing starts only from an intact header: when a package has been accepted, the same
  file with any one byte of the header changed is rejected, as long as the two bytes that
  say how long the header is are not the ones changed.
\<close>
lemma corrupted_package_rejected:
  assumes "PLDMImg_ctor (Some bytes) = Inr img" and "length bytes < 2 ^ 32 - 4"
    and "processPkgHdr termini uninit img = Some (True, img')"
    and "i < unat (read16 bytes 17)" and "i \<noteq> 17" "i \<noteq> 18" and "bytes ! i \<noteq> b"
    and "PLDMImg_ctor (Some (bytes[i := b])) = Inr bad"
  shows "\<exists>bad'. processPkgHdr termini' uninit' bad = Some (False, bad')"
proof -
  have eqs: "img = opened bytes" "bad = opened (bytes[i := b])"
    using assms(1,8) by (simp_all add: PLDMImg_ctor_opened)
  then have ok: "19 \<le> length bytes" "hdr_len_field bytes \<le> length bytes" "checksum_ok (header_of bytes)"
      "hdr_len_field bytes \<noteq> minPkgHeaderLen"
    using processPkgHdr_eq [OF assms(2), of termini uninit] assms(3) by (auto split: if_splits)
  have L: "hdr_len_field bytes = unat (read16 bytes 17)"
    using ok(1) by (simp add: hdr_len_field_def read16_def)
  have L': "hdr_len_field (bytes[i := b]) = hdr_len_field bytes"
    using ok(1) assms(5,6) by (simp add: hdr_len_field_def read16_def)
  have "\<not> checksum_ok ((header_of bytes)[i := b])"
    using ok L assms(4,7) by (intro corrupted_header) (auto simp: header_of_def)
  then have "\<not> checksum_ok (header_of (bytes[i := b]))"
    using L' by (simp add: header_of_def take_update_swap)
  with ok(4) L' show ?thesis
    using processPkgHdr_eq [of "bytes[i := b]" termini' uninit'] assms(2) by (simp add: eqs)
qed

text \<open>
  \<open>readData\<close> bounds a request by the file size plus one transfer unit only, so a request
  that reaches up to 32 bytes past the end passes the check and fails in the stream; the
  stream then stays failed, and no later request of the update succeeds, whatever its range.
\<close>
lemma overreading_poisons_image:
  assumes "start \<le> length bytes" "length bytes < start + n" "start + n \<le> length bytes + baseline_transfer_size"
    and "length bytes + baseline_transfer_size < 2 ^ 32"
  shows "\<exists>data' img'. readData start data n (opened bytes) = (False, data', img') \<and>
    (\<forall>start' data n'. fst (readData start' data n' img') = False)"
  using assms by (auto simp: readData_def stream_read_def opened_def size_add_def Let_def)

lemma overreading_poisons_image_witness:
  "\<exists>data' img'. readData 0 [0, 0, 0] 3 (opened [7, 8]) = (False, data', img') \<and>
    (\<forall>start' data n'. fst (readData start' data n' img') = False)"
  using overreading_poisons_image [of 0 "[7, 8]" 3 "[0, 0, 0]"] by (simp add: baseline_transfer_size_def)

lemma package_header_parsed_safely_witness:
  "processPkgHdr [] (\<lambda>_. 0) (opened [1, 2, 3]) \<noteq> None
    \<and> processPkgHdr [] (\<lambda>_. 0) (opened (replicate 17 0 @ [69, 0])) = None"
  using package_header_parsed_safely [of "[1, 2, 3]" "opened [1, 2, 3]" "[]" "\<lambda>_. 0"]
    package_header_parsed_safely [of "replicate 17 0 @ [69, 0]" "opened (replicate 17 0 @ [69, 0])" "[]" "\<lambda>_. 0"]
  by (simp add: PLDMImg_ctor_opened read16_def le16_def nth_append)

end
