(* ===== verification/Fwu_Package.thy ===== *)
theory Fwu_Package
  imports Fwu_Image
begin

text \<open>
  What a firmware update package is, as an abstract value with its encoding, and the proof
  that \<open>PLDMImg\<close> (theory \<open>Fwu\_Image\<close>) recovers exactly that value from the encoded file.
\<close>

section \<open>Packages and their encoding\<close>

text \<open>A device record with its variable parts, a component with its version string.\<close>

record device_entry =
  de_record :: fw_dev_id_record
  de_components :: "byte list"
  de_version :: "byte list"
  de_descriptors :: "(u16 \<times> byte list) list"
  de_pkgData :: "byte list"

record package =
  pk_info :: pkg_header_info
  pk_version :: "byte list"
  pk_devices :: "device_entry list"
  pk_components :: "(comp_img_info \<times> byte list) list"

definition enc_info :: "pkg_header_info \<Rightarrow> byte list" where
  "enc_info h = hi_identifier h @ hi_formatRevision h # enc16 (hi_size h) @ hi_releaseDateTime h
     @ enc16 (hi_compBitmapBitLength h) @ [hi_versionStringType h, hi_versionStringLen h]"

definition enc_dev_record :: "fw_dev_id_record \<Rightarrow> byte list" where
  "enc_dev_record d = enc16 (dr_recordLength d) @ dr_descriptorCount d # enc32 (dr_updateOptionFlags d)
     @ dr_verStrType d # dr_verStrLen d # enc16 (dr_pkgDataLen d)"

definition enc_comp_info :: "comp_img_info \<Rightarrow> byte list" where
  "enc_comp_info c = enc16 (ci_classification c) @ enc16 (ci_identifier c) @ enc32 (ci_comparisonStamp c)
     @ enc16 (ci_options c) @ enc16 (ci_activationMethod c) @ enc32 (ci_locationOffset c)
     @ enc32 (ci_size c) @ [ci_verStrType c, ci_verStrLen c]"

definition enc_descriptors :: "(u16 \<times> byte list) list \<Rightarrow> byte list" where
  "enc_descriptors ds = concat (map enc_descriptor ds)"

definition enc_device :: "device_entry \<Rightarrow> byte list" where
  "enc_device e = enc_dev_record (de_record e) @ de_components e @ de_version e
     @ enc_descriptors (de_descriptors e) @ de_pkgData e"

definition enc_component :: "comp_img_info \<times> byte list \<Rightarrow> byte list" where
  "enc_component c = enc_comp_info (fst c) @ snd c"

definition enc_body :: "package \<Rightarrow> byte list" where
  "enc_body p = enc_info (pk_info p) @ pk_version p @ word_of_nat (length (pk_devices p))
     # concat (map enc_device (pk_devices p)) @ enc16 (word_of_nat (length (pk_components p)))
     @ concat (map enc_component (pk_components p))"

definition enc_header :: "package \<Rightarrow> byte list" where
  "enc_header p = enc_body p @ enc32 (crc32 (enc_body p))"

definition wf_device :: "u16 \<Rightarrow> device_entry \<Rightarrow> bool" where
  "wf_device bits e \<longleftrightarrow>
     length (de_components e) = unat bits div 8 \<and>
     unat (dr_verStrLen (de_record e)) = length (de_version e) \<and>
     unat (dr_descriptorCount (de_record e)) = length (de_descriptors e) \<and>
     unat (dr_pkgDataLen (de_record e)) = length (de_pkgData e) \<and>
     unat (dr_recordLength (de_record e)) = length (enc_device e) \<and>
     (\<forall>d \<in> set (de_descriptors e). wf_descriptor d)"

definition wf_component :: "comp_img_info \<times> byte list \<Rightarrow> bool" where
  "wf_component c \<longleftrightarrow> unat (ci_verStrLen (fst c)) = length (snd c)"

definition wf_package :: "package \<Rightarrow> bool" where
  "wf_package p \<longleftrightarrow>
     hi_identifier (pk_info p) = pkgHdrIdentifier \<and>
     length (hi_releaseDateTime (pk_info p)) = 13 \<and>
     unat (hi_versionStringLen (pk_info p)) = length (pk_version p) \<and>
     unat (hi_size (pk_info p)) = length (enc_header p) \<and>
     length (pk_devices p) < 256 \<and> length (pk_components p) < 65536 \<and>
     (\<forall>e \<in> set (pk_devices p). wf_device (hi_compBitmapBitLength (pk_info p)) e) \<and>
     (\<forall>c \<in> set (pk_components p). wf_component c)"

text \<open>The property maps the package stands for.\<close>

definition info_properties :: "package \<Rightarrow> fwu_properties" where
  "info_properties p = put_all
     [(''PkgHeaderFormatRevision'', V_u8 (hi_formatRevision (pk_info p))),
      (''PkgHeaderSize'', V_u16 (hi_size (pk_info p))),
      (''CompBitmapBitLength'', V_u16 (hi_compBitmapBitLength (pk_info p))),
      (''PkgVersionStringType'', V_u8 (hi_versionStringType (pk_info p))),
      (''PkgVersionStringLen'', V_u8 (hi_versionStringLen (pk_info p))),
      (''PkgVersionString'', V_string (pk_version p))] []"

definition component_properties :: "comp_img_info \<times> byte list \<Rightarrow> fwu_properties" where
  "component_properties c = (case c of (i, version) \<Rightarrow> put_all
     [(''CompClassification'', V_u16 (ci_classification i)),
      (''CompIdentifier'', V_u16 (ci_identifier i)),
      (''CompComparisonStamp'', V_u32 (ci_comparisonStamp i)),
      (''CompOptions'', V_u16 (ci_options i)),
      (''RequestedCompActivationMethod'', V_u16 (ci_activationMethod i)),
      (''CompLocationOffset'', V_u32 (ci_locationOffset i)),
      (''CompSize'', V_u32 (ci_size i)),
      (''CmpVerStrType'', V_u8 (ci_verStrType i)),
      (''CompVerStrLen'', V_u8 (ci_verStrLen i)),
      (''CompVerStr'', V_string version)] [])"

definition initial_type :: "u16 \<Rightarrow> device_entry \<Rightarrow> u16" where
  "initial_type uninit e = (if de_descriptors e = [] then uninit else fst (hd (de_descriptors e)))"

definition device_properties :: "u16 \<Rightarrow> byte \<Rightarrow> device_entry \<Rightarrow> fwu_properties" where
  "device_properties uninit i e = put_all
     [(''InitialDescriptorType'', V_u16 (initial_type uninit e)),
      (''DeviceIDRecordCount'', V_u8 i),
      (''RecordLength'', V_u16 (dr_recordLength (de_record e))),
      (''DescriptorCount'', V_u8 (dr_descriptorCount (de_record e))),
      (''DeviceUpdateOptionFlags'', V_u32 (dr_updateOptionFlags (de_record e))),
      (''ComImgSetVerStrType'', V_u8 (dr_verStrType (de_record e))),
      (''ComImgSetVerStrLen'', V_u8 (dr_verStrLen (de_record e))),
      (''FWDevPkgDataLen'', V_u16 (dr_pkgDataLen (de_record e))),
      (''ApplicableComponents'', V_bytes (de_components e)),
      (''CompImgSetVerStr'', V_string (de_version e)),
      (''FirmwareDevicePackageData'', V_bytes (de_pkgData e))] []"

definition device_table :: "(nat \<Rightarrow> u16) \<Rightarrow> nat \<Rightarrow> device_entry list
    \<Rightarrow> (byte \<times> (fwu_properties \<times> descriptors_map)) list" where
  "device_table uninit n es = map (\<lambda>(i, e). (word_of_nat i,
     (device_properties (uninit i) (word_of_nat i) e, descriptors_of (de_descriptors e)))) (enumerate n es)"

definition component_table :: "nat \<Rightarrow> (comp_img_info \<times> byte list) list \<Rightarrow> comp_properties_map" where
  "component_table n cs = map (\<lambda>(i, c). (word_of_nat i, component_properties c)) (enumerate n cs)"

text \<open>The termini whose descriptors are those of a device record, with the number of the record.\<close>

definition matches :: "(tid \<times> fd_properties) list \<Rightarrow> nat \<Rightarrow> device_entry list \<Rightarrow> (byte \<times> tid) list" where
  "matches termini n es = concat (map (\<lambda>(i, e). map (\<lambda>(t, _). (word_of_nat i, t))
     (filter (\<lambda>(_, fd). fst (snd fd) = descriptors_of (de_descriptors e)) termini)) (enumerate n es))"

section \<open>Lemmas\<close>

lemma length_dev_record [simp]: "length (enc_dev_record d) = 11"
  by (simp add: enc_dev_record_def)

lemma length_comp_info [simp]: "length (enc_comp_info d) = 22"
  by (simp add: enc_comp_info_def)

lemma dev_record_at_enc: "fw_dev_id_record_at (enc_dev_record d) = d"
  by (simp add: fw_dev_id_record_at_def enc_dev_record_def read_enc nth_append)

lemma comp_info_at_enc: "comp_img_info_at (enc_comp_info c) = c"
  by (simp add: comp_img_info_at_def enc_comp_info_def read_enc nth_append)

lemma header_info_at_enc:
  assumes "length (hi_identifier h) = 16" "length (hi_releaseDateTime h) = 13"
  shows "length (enc_info h) = 36" "pkg_header_info_at (enc_info h) = h"
  using assms by (simp_all add: pkg_header_info_at_def enc_info_def read_enc nth_append)

lemma enc_nonempty [simp]: "enc16 w \<noteq> []" "enc32 v \<noteq> []"
  by (simp_all add: enc16_def enc32_def)

text \<open>What is left of the header.\<close>

definition rest :: "pldm_img \<Rightarrow> byte list" where
  "rest img = drop (hdrItr img) (hdrData img)"

named_theorems parsing \<open>parser steps on the rest of the header\<close>

definition within :: "pldm_img \<Rightarrow> bool" where
  "within img \<longleftrightarrow> inside (hdrData img) img"

lemma bytesLeft_rest [parsing]: "within img \<Longrightarrow> bytesLeft img = length (rest img)"
  by (auto simp: within_def rest_def bytesLeft_inside inside_def)

lemma hdr_bytes_rest [parsing]: "within img \<Longrightarrow> n \<le> length (rest img) \<Longrightarrow> hdr_bytes n img = Some (take n (rest img))"
  by (auto simp: within_def rest_def hdr_bytes_def inside_def)

lemma rest_advance [parsing]: "rest (advance n img) = drop n (rest img)"
  by (simp add: rest_def add.commute)

lemma within_advance [parsing]: "within img \<Longrightarrow> n \<le> length (rest img) \<Longrightarrow> within (advance n img)"
  by (auto simp: within_def rest_def inside_def)

lemma advanceHdrItr_rest [parsing]:
  "within img \<Longrightarrow> m \<le> length (rest img) \<Longrightarrow> advanceHdrItr m n img = (n + m \<le> length (rest img), advance m img)"
  by (auto simp: advanceHdrItr_def validateHdrDataLen_def parsing Let_def)

lemma process_comp_enc:
  assumes "within img" "rest img = enc_component c @ bs" "wf_component c" "bs \<noteq> []"
  shows "process_comp found img = Some (True, img\<lparr>hdrItr := hdrItr img + length (enc_component c),
     pkgCompProperties := map_assign (word_of_nat found) (component_properties c) (pkgCompProperties img)\<rparr>)"
proof -
  obtain i v where c: "c = (i, v)" by force
  have r: "rest img = enc_comp_info i @ v @ bs" "unat (ci_verStrLen i) = length v"
    using assms by (simp_all add: c enc_component_def wf_component_def)
  have b: "bytesLeft img = 22 + length v + length bs" "0 < length bs"
    using assms(1,4) r by (simp_all add: parsing)
  show ?thesis
    using assms(1) r b
    by (simp add: process_comp_def parsing comp_info_at_enc sizeof_comp_img_info_def Let_def)
      (simp add: copyCompImgInfoToMap_def component_properties_def c enc_component_def advance_def)
qed

lemma within_fields [simp]:
  "within (img\<lparr>fwDevPkgDataLen := c\<rparr>) = within img"
  "within (snd (findMatchedTerminus ts i ds img)) = within img"
  "rest (img\<lparr>fwDevPkgDataLen := c\<rparr>) = rest img"
  "rest (snd (findMatchedTerminus ts i ds img)) = rest img"
  by (auto simp: within_def inside_def rest_def findMatchedTerminus_def Let_def)

lemma descriptor_len:
  assumes "wf_device bits e"
  shows "getDescriptorDataLen (de_record e) (length (de_components e)) = length (enc_descriptors (de_descriptors e))"
  using assms u16_less [of "dr_recordLength (de_record e)"]
  by (simp add: getDescriptorDataLen_def wf_device_def enc_device_def sizeof_fw_dev_id_record_def)

lemma process_dev_record_enc:
  assumes "within img" "rest img = enc_device e @ bs" "wf_device (compBitmapBitLength img) e"
  shows "process_dev_record termini uninit found img = Some (True, img\<lparr>
     hdrItr := hdrItr img + length (enc_device e),
     fwDevPkgDataLen := dr_pkgDataLen (de_record e),
     matchedTermini := matchedTermini img @ map (\<lambda>(t, _). (word_of_nat found, t))
       (filter (\<lambda>(_, fd). fst (snd fd) = descriptors_of (de_descriptors e)) termini),
     pkgDevIDRecords := map_assign (word_of_nat found)
       (device_properties uninit (word_of_nat found) e, descriptors_of (de_descriptors e))
       (pkgDevIDRecords img)\<rparr>)"
proof -
  have r: "rest img = enc_dev_record (de_record e) @ de_components e @ de_version e
      @ enc_descriptors (de_descriptors e) @ de_pkgData e @ bs"
    using assms(2) by (simp add: enc_device_def)
  have w: "unat (compBitmapBitLength img) div 8 = length (de_components e)"
    "unat (dr_verStrLen (de_record e)) = length (de_version e)"
    "dr_descriptorCount (de_record e) = word_of_nat (length (de_descriptors e))"
    "length (de_descriptors e) < 256"
    "unat (dr_pkgDataLen (de_record e)) = length (de_pkgData e)"
    "\<forall>d \<in> set (de_descriptors e). wf_descriptor d"
    using assms(3) byte_less [of "dr_descriptorCount (de_record e)"] unfolding wf_device_def
    by (auto simp: word_unat_eq_iff)
  show ?thesis
    using assms(1) r w
    by (simp add: process_dev_record_def parsing dev_record_at_enc sizeof_fw_dev_id_record_def Let_def
        descriptor_len [OF assms(3)] unpackDescriptors_enc enc_descriptors_def case_prod_unfold)
      (auto intro!: pldm_img.equality simp: copyDevIdentificationInfoToMap_def device_properties_def
        initial_type_def enc_device_def enc_descriptors_def findMatchedTerminus_def advance_def case_prod_unfold)
qed

lemma map_assign_last: "\<forall>k' \<in> fst ` set m. k' < k \<Longrightarrow> map_assign k v m = m @ [(k, v)]"
  by (induction m) auto

lemma component_table_snoc: "component_table 0 (cs @ [c]) = component_table 0 cs @ [(word_of_nat (length cs), component_properties c)]"
  by (simp add: component_table_def enumerate_append_eq)

lemma device_table_snoc: "device_table u 0 (es @ [e]) = device_table u 0 es @ [(word_of_nat (length es),
    device_properties (u (length es)) (word_of_nat (length es)) e, descriptors_of (de_descriptors e))]"
  by (simp add: device_table_def enumerate_append_eq)

lemma matches_snoc: "matches ts 0 (es @ [e]) = matches ts 0 es @ map (\<lambda>(t, _). (word_of_nat (length es), t))
    (filter (\<lambda>(_, fd). fst (snd fd) = descriptors_of (de_descriptors e)) ts)"
  by (simp add: matches_def enumerate_append_eq)

lemma word_of_nat_less_u16: "i < n \<Longrightarrow> n < 65536 \<Longrightarrow> (word_of_nat i :: u16) < word_of_nat n"
  by (simp add: word_less_nat_alt)

lemma word_of_nat_less_byte: "i < n \<Longrightarrow> n < 256 \<Longrightarrow> (word_of_nat i :: byte) < word_of_nat n"
  by (simp add: word_less_nat_alt)

lemma component_table_assign:
  "length cs < 65536 \<Longrightarrow> map_assign (word_of_nat (length cs)) (component_properties c) (component_table 0 cs)
    = component_table 0 (cs @ [c])"
  unfolding component_table_snoc
  by (rule map_assign_last) (auto simp: component_table_def in_set_enumerate_eq intro!: word_of_nat_less_u16)

lemma device_table_assign:
  "length es < 256 \<Longrightarrow> map_assign (word_of_nat (length es)) (device_properties (u (length es)) (word_of_nat (length es)) e,
      descriptors_of (de_descriptors e)) (device_table u 0 es) = device_table u 0 (es @ [e])"
  unfolding device_table_snoc
  by (rule map_assign_last) (auto simp: device_table_def in_set_enumerate_eq intro!: word_of_nat_less_byte)

lemma moved:
  assumes "within img" "rest img = xs @ ys" "hdrData img' = hdrData img" "hdrItr img' = hdrItr img + length xs"
  shows "within img'" "rest img' = ys"
proof -
  have "length xs \<le> length (rest img)" using assms(2) by simp
  then show "within img'" using assms(1,3,4) by (auto simp: within_def inside_def rest_def)
  have "rest img' = drop (length xs) (rest img)"
    using assms(3,4) by (simp add: rest_def add.commute)
  then show "rest img' = ys" using assms(2) by simp
qed

lemma rest_nonempty: "rest img \<noteq> [] \<Longrightarrow> hdrItr img < length (hdrData img)"
  by (auto simp: rest_def)

text \<open>The loops, with \<open>done\<close> entries already parsed.\<close>

lemma comp_loop_enc:
  assumes "within img" "rest img = concat (map enc_component cs) @ bs" "bs \<noteq> []"
    and "\<forall>c \<in> set cs. wf_component c" "length (old @ cs) < 65536"
    and "pkgCompProperties img = component_table 0 old"
  shows "comp_loop (length cs) (length old) img = Some (length (old @ cs), img\<lparr>
     hdrItr := hdrItr img + length (concat (map enc_component cs)),
     pkgCompProperties := component_table 0 (old @ cs)\<rparr>)"
  using assms
proof (induction cs arbitrary: old img)
  case (Cons c cs)
  let ?img = "img\<lparr>hdrItr := hdrItr img + length (enc_component c),
     pkgCompProperties := component_table 0 (old @ [c])\<rparr>"
  have "process_comp (length old) img = Some (True, ?img)"
    using Cons.prems process_comp_enc [of img c "concat (map enc_component cs) @ bs" "length old"]
    by (simp add: component_table_assign)
  moreover have "hdrItr img < length (hdrData img)"
    using Cons.prems(2,3) by (intro rest_nonempty) simp
  moreover have "within ?img" "rest ?img = concat (map enc_component cs) @ bs"
    using moved [of img "enc_component c" "concat (map enc_component cs) @ bs" ?img] Cons.prems(1,2) by simp_all
  ultimately show ?case
    using Cons.IH [of ?img "old @ [c]"] Cons.prems by simp
qed (auto intro!: pldm_img.equality)

lemma dev_record_loop_enc:
  assumes "within img" "rest img = concat (map enc_device es) @ bs" "bs \<noteq> []"
    and "\<forall>e \<in> set es. wf_device (compBitmapBitLength img) e" "length (old @ es) < 256"
    and "pkgDevIDRecords img = device_table uninit 0 old" "matchedTermini img = matches termini 0 old"
  shows "\<exists>n. dev_record_loop termini uninit (length es) (length old) img = Some (length (old @ es), img\<lparr>
     hdrItr := hdrItr img + length (concat (map enc_device es)), fwDevPkgDataLen := n,
     matchedTermini := matches termini 0 (old @ es), pkgDevIDRecords := device_table uninit 0 (old @ es)\<rparr>)"
  using assms
proof (induction es arbitrary: old img)
  case Nil
  then show ?case
    by (auto intro!: exI [of _ "fwDevPkgDataLen img"] pldm_img.equality)
next
  case (Cons e es)
  let ?img = "img\<lparr>hdrItr := hdrItr img + length (enc_device e),
     fwDevPkgDataLen := dr_pkgDataLen (de_record e),
     matchedTermini := matches termini 0 (old @ [e]), pkgDevIDRecords := device_table uninit 0 (old @ [e])\<rparr>"
  have "process_dev_record termini (uninit (length old)) (length old) img = Some (True, ?img)"
    using Cons.prems process_dev_record_enc [of img e "concat (map enc_device es) @ bs" termini "uninit (length old)" "length old"]
    by (simp add: device_table_assign matches_snoc)
  moreover have "hdrItr img < length (hdrData img)"
    using Cons.prems(2,3) by (intro rest_nonempty) simp
  moreover have "within ?img" "rest ?img = concat (map enc_device es) @ bs"
    using moved [of img "enc_device e" "concat (map enc_device es) @ bs" ?img] Cons.prems(1,2) by simp_all
  moreover from this obtain n where "dev_record_loop termini uninit (length es) (length (old @ [e])) ?img
      = Some (length ((old @ [e]) @ es), ?img\<lparr>hdrItr := hdrItr ?img + length (concat (map enc_device es)),
        fwDevPkgDataLen := n, matchedTermini := matches termini 0 ((old @ [e]) @ es),
        pkgDevIDRecords := device_table uninit 0 ((old @ [e]) @ es)\<rparr>)"
    using Cons.IH [of ?img "old @ [e]"] Cons.prems by auto
  ultimately show ?case
    by (intro exI [of _ n]) (auto intro!: pldm_img.equality)
qed

lemma within_simps [simp]:
  "within (img\<lparr>deviceIDRecordCount := b\<rparr>) = within img"
  "rest (img\<lparr>deviceIDRecordCount := b\<rparr>) = rest img"
  "within (img\<lparr>totalCompCount := a\<rparr>) = within img"
  "rest (img\<lparr>totalCompCount := a\<rparr>) = rest img"
  by (simp_all add: within_def inside_def rest_def)

lemma processCompImgInfo_enc:
  assumes "within img" "rest img = enc16 (word_of_nat (length cs)) @ concat (map enc_component cs) @ bs" "bs \<noteq> []"
    and "\<forall>c \<in> set cs. wf_component c" "length cs < 65536" "pkgCompProperties img = []"
  shows "\<exists>img'. processCompImgInfo img = Some (True, img') \<and> img' = img\<lparr>hdrItr := hdrItr img',
     totalCompCount := word_of_nat (length cs), pkgCompProperties := component_table 0 cs\<rparr>"
proof -
  let ?img = "advance 2 (img\<lparr>totalCompCount := word_of_nat (length cs)\<rparr>)"
  have "advanceHdrItr 0 2 img = (True, img)"
    using assms(1,2) by (simp add: parsing) (simp add: advance_def)
  moreover have "hdr_bytes 2 img = Some (enc16 (word_of_nat (length cs)))"
    using assms(1,2) by (simp add: parsing)
  moreover have "within ?img" "rest ?img = concat (map enc_component cs) @ bs"
    using assms(1,2) by (simp_all add: parsing)
  then have "comp_loop (length cs) 0 ?img = Some (length cs, ?img\<lparr>
      hdrItr := hdrItr ?img + length (concat (map enc_component cs)), pkgCompProperties := component_table 0 cs\<rparr>)"
    using comp_loop_enc [of ?img cs bs "[]"] assms(3-6) by (simp add: component_table_def)
  ultimately show ?thesis
    using assms(5) by (auto intro!: pldm_img.equality simp: processCompImgInfo_def Let_def read_enc advance_def)
qed

lemma processDevIdentificationInfo_enc:
  assumes "within img" "rest img = v @ word_of_nat (length es) # concat (map enc_device es) @ bs" "bs \<noteq> []"
    and "unat (pkgVersionStringLen img) = length v"
    and "\<forall>e \<in> set es. wf_device (compBitmapBitLength img) e" "length es < 256"
    and "pkgDevIDRecords img = []" "matchedTermini img = []"
  shows "\<exists>img'. processDevIdentificationInfo termini uninit img = Some (matches termini 0 es \<noteq> [], img')
    \<and> within img' \<and> rest img' = bs \<and> img' = img\<lparr>hdrItr := hdrItr img', fwDevPkgDataLen := fwDevPkgDataLen img',
      deviceIDRecordCount := word_of_nat (length es),
      matchedTermini := matches termini 0 es, pkgDevIDRecords := device_table uninit 0 es\<rparr>"
proof -
  let ?mid = "advance (length v) img"
  let ?img = "advance 1 (?mid\<lparr>deviceIDRecordCount := word_of_nat (length es)\<rparr>)"
  have "advanceHdrItr (unat (pkgVersionStringLen img)) 1 img = (True, ?mid)"
    using assms(1,2,4) by (simp add: parsing)
  moreover have "hdr_bytes 1 ?mid = Some [word_of_nat (length es)]"
    using assms(1,2) by (simp add: parsing)
  moreover have *: "within ?img" "rest ?img = concat (map enc_device es) @ bs"
    using assms(1,2) by (simp_all add: parsing)
  moreover obtain n where "dev_record_loop termini uninit (length es) 0 ?img = Some (length es, ?img\<lparr>
      hdrItr := hdrItr ?img + length (concat (map enc_device es)), fwDevPkgDataLen := n,
      matchedTermini := matches termini 0 es, pkgDevIDRecords := device_table uninit 0 es\<rparr>)"
    using dev_record_loop_enc [of ?img es bs "[]" uninit termini] * assms(3,5-8)
    by (auto simp: device_table_def matches_def)
  moreover let ?fin = "?img\<lparr>hdrItr := hdrItr ?img + length (concat (map enc_device es)), fwDevPkgDataLen := n,
      matchedTermini := matches termini 0 es, pkgDevIDRecords := device_table uninit 0 es\<rparr>"
  have "within ?fin" "rest ?fin = bs"
    using moved [OF *(1) *(2), of ?fin] by simp_all
  ultimately show ?thesis
    using assms(6)
    by (intro exI [of _ ?fin]) (auto intro!: pldm_img.equality simp: processDevIdentificationInfo_def Let_def advance_def)
qed

section \<open>Round trip\<close>

definition parsed :: "(tid \<times> fd_properties) list \<Rightarrow> (nat \<Rightarrow> u16) \<Rightarrow> package \<Rightarrow> pldm_img \<Rightarrow> bool" where
  "parsed termini uninit p img \<longleftrightarrow>
     hdrData img = enc_header p \<and>
     unat (pkgHdrLen img) = length (enc_header p) \<and>
     pkgFWUProperties img = info_properties p \<and>
     unat (deviceIDRecordCount img) = length (pk_devices p) \<and>
     unat (totalCompCount img) = length (pk_components p) \<and>
     pkgDevIDRecords img = device_table uninit 0 (pk_devices p) \<and>
     pkgCompProperties img = component_table 0 (pk_components p) \<and>
     matchedTermini img = matches termini 0 (pk_devices p)"

lemma header_facts:
  assumes "wf_package p"
  shows "hdr_len_field (enc_header p @ payload) = length (enc_header p)"
    "header_of (enc_header p @ payload) = enc_header p"
    "checksum_ok (enc_header p)" "36 \<le> length (enc_header p)" "take 36 (enc_header p) = enc_info (pk_info p)"
proof -
  let ?h = "pk_info p"
  have l: "length (hi_identifier ?h) = 16" "length (hi_releaseDateTime ?h) = 13"
    using assms by (simp_all add: wf_package_def pkgHdrIdentifier_def)
  note i = header_info_at_enc [OF l]
  have e: "enc_header p = enc_info ?h @ drop 36 (enc_header p)"
    using i(1) by (simp add: enc_header_def enc_body_def)
  show t: "take 36 (enc_header p) = enc_info ?h" and "36 \<le> length (enc_header p)"
    using i(1) by (simp_all add: enc_header_def enc_body_def)
  then have "18 < length (enc_header p)" by simp
  have "hi_size ?h = read16 (enc_header p @ payload) 17" using t \<open>18 < _\<close>
      arg_cong [OF i(2), of hi_size] read16_take [of 17 36 "enc_header p"]
    by (simp add: pkg_header_info_at_def) (simp add: read16_def nth_append)
  then have "hi_size ?h = read16 (drop 17 (enc_header p @ payload)) 0"
    using \<open>18 < _\<close> less_diff_conv [of "Suc 0" "length (enc_header p)" 17] by (simp add: read16_def nth_append)
  then show "hdr_len_field (enc_header p @ payload) = length (enc_header p)"
    using assms \<open>36 \<le> _\<close> by (simp add: hdr_len_field_def wf_package_def)
  then show "header_of (enc_header p @ payload) = enc_header p"
    by (simp add: header_of_def)
  show "checksum_ok (enc_header p)"
    by (simp add: checksum_ok_def enc_header_def read_enc)
qed

lemma package_parsed:
  assumes "wf_package p" and "length (enc_header p) \<noteq> minPkgHeaderLen"
    and "length (enc_header p @ payload) < 2 ^ 32 - 4"
  shows "\<exists>img. processPkgHdr termini uninit (opened (enc_header p @ payload))
      = Some (matches termini 0 (pk_devices p) \<noteq> [], img)
    \<and> (matches termini 0 (pk_devices p) \<noteq> [] \<longrightarrow> parsed termini uninit p img)"
proof -
  let ?h = "pk_info p" and ?img = "with_header (enc_header p @ payload)"
  note w = assms(1) [unfolded wf_package_def]
  note f = header_facts [OF assms(1)]
  have l: "length (hi_identifier ?h) = 16" "length (hi_releaseDateTime ?h) = 13"
    using w by (simp_all add: pkgHdrIdentifier_def)
  have hdr: "length (enc_header p) < 65536"
    using w u16_less [of "hi_size ?h"] by simp
  have e: "drop 36 (enc_header p) = pk_version p @ word_of_nat (length (pk_devices p))
     # concat (map enc_device (pk_devices p)) @ enc16 (word_of_nat (length (pk_components p)))
     @ concat (map enc_component (pk_components p)) @ enc32 (crc32 (enc_body p))"
    using header_info_at_enc(1) [OF l] by (simp add: enc_header_def enc_body_def)
  have len: "36 + length (pk_version p) \<le> length (enc_header p)"
    using arg_cong [OF e, of length] f(4) by simp
  define img1 where "img1 = copyPkgHdrInfoToMap ?h (pk_version p)
    ((advance 36 (?img\<lparr>hdrItr := 0\<rparr>))\<lparr>pkgVersionStringLen := hi_versionStringLen ?h\<rparr>)"
  have info: "processPkgHdrInfo ?img = Some (True, img1)"
    using hdrInfo_eq [of ?img] f hdr w e len header_info_at_enc [OF l]
    by (simp add: Let_def img1_def matchPkgHdrIdentifier_def)
  have img1: "hdrData img1 = enc_header p" "hdrItr img1 = 36" "within img1"
    "rest img1 = drop 36 (enc_header p)" "pkgVersionStringLen img1 = hi_versionStringLen ?h"
    "compBitmapBitLength img1 = hi_compBitmapBitLength ?h" "pkgFWUProperties img1 = info_properties p"
    "pkgDevIDRecords img1 = []" "matchedTermini img1 = []" "pkgCompProperties img1 = []"
    "pkgHdrLen img1 = word_of_nat (length (enc_header p))"
    using f hdr by (simp_all add: img1_def copyPkgHdrInfoToMap_def advance_def within_def inside_def rest_def
        info_properties_def with_header_def opened_def)
  obtain img2 where dev: "processDevIdentificationInfo termini uninit img1 = Some (matches termini 0 (pk_devices p) \<noteq> [], img2)"
    and img2: "within img2" "rest img2 = enc16 (word_of_nat (length (pk_components p)))
      @ concat (map enc_component (pk_components p)) @ enc32 (crc32 (enc_body p))"
      "img2 = img1\<lparr>hdrItr := hdrItr img2, fwDevPkgDataLen := fwDevPkgDataLen img2,
      deviceIDRecordCount := word_of_nat (length (pk_devices p)), matchedTermini := matches termini 0 (pk_devices p),
      pkgDevIDRecords := device_table uninit 0 (pk_devices p)\<rparr>"
    using processDevIdentificationInfo_enc [of img1 "pk_version p" "pk_devices p"
      "enc16 (word_of_nat (length (pk_components p))) @ concat (map enc_component (pk_components p)) @ enc32 (crc32 (enc_body p))"
      termini uninit] img1 w e by auto
  have "pkgCompProperties img2 = []" by (subst img2(3)) (simp add: img1)
  then obtain img3 where comp: "processCompImgInfo img2 = Some (True, img3)"
    and img3: "img3 = img2\<lparr>hdrItr := hdrItr img3, totalCompCount := word_of_nat (length (pk_components p)),
      pkgCompProperties := component_table 0 (pk_components p)\<rparr>"
    using processCompImgInfo_enc [OF img2(1,2) enc_nonempty(2)] w by auto
  have i3: "hdrData img3 = hdrData img2" "pkgHdrLen img3 = pkgHdrLen img2"
    "pkgFWUProperties img3 = pkgFWUProperties img2" "deviceIDRecordCount img3 = deviceIDRecordCount img2"
    "totalCompCount img3 = word_of_nat (length (pk_components p))"
    "pkgDevIDRecords img3 = pkgDevIDRecords img2" "matchedTermini img3 = matchedTermini img2"
    "pkgCompProperties img3 = component_table 0 (pk_components p)"
    by (subst img3, simp)+
  have i2: "hdrData img2 = hdrData img1" "pkgHdrLen img2 = pkgHdrLen img1"
    "pkgFWUProperties img2 = pkgFWUProperties img1" "deviceIDRecordCount img2 = word_of_nat (length (pk_devices p))"
    "pkgDevIDRecords img2 = device_table uninit 0 (pk_devices p)"
    "matchedTermini img2 = matches termini 0 (pk_devices p)"
    by (subst img2(3), simp)+
  have "parsed termini uninit p img3"
    using w img1 hdr i3 i2 by (simp add: parsed_def)
  moreover have "processPkgHdr termini uninit (opened (enc_header p @ payload)) = parse_header termini uninit ?img"
    using processPkgHdr_eq [OF assms(3), of termini uninit] f assms(2) by simp
  ultimately show ?thesis
    by (auto simp: parse_header_def info dev comp)
qed

definition sample_package :: package where
  "sample_package = \<lparr>
     pk_info = \<lparr> hi_identifier = pkgHdrIdentifier, hi_formatRevision = 1, hi_size = 89,
       hi_releaseDateTime = replicate 13 0, hi_compBitmapBitLength = 8, hi_versionStringType = 1,
       hi_versionStringLen = 1 \<rparr>,
     pk_version = [0x31],
     pk_devices = [\<lparr> de_record = \<lparr> dr_recordLength = 19, dr_descriptorCount = 1, dr_updateOptionFlags = 0,
         dr_verStrType = 1, dr_verStrLen = 1, dr_pkgDataLen = 0 \<rparr>,
       de_components = [0x01], de_version = [0x32],
       de_descriptors = [(pciVendorID, [0x86, 0x80])], de_pkgData = [] \<rparr>],
     pk_components = [(\<lparr> ci_classification = 10, ci_identifier = 7, ci_comparisonStamp = 1, ci_options = 0,
       ci_activationMethod = 0, ci_locationOffset = 89, ci_size = 2, ci_verStrType = 1, ci_verStrLen = 4 \<rparr>,
       [0x33, 0x2E, 0x30, 0x31])] \<rparr>"

definition sample_termini :: "(tid \<times> fd_properties) list" where
  "sample_termini = [(3, ([], [(''PCIVendorID'', D_u16 0x8086)], []))]"

lemma sample_package_wf: "wf_package sample_package" "length (enc_header sample_package) = 89"
  by (simp_all add: wf_package_def sample_package_def enc_header_def enc_body_def enc_info_def enc_device_def
      enc_dev_record_def enc_component_def enc_comp_info_def enc_descriptors_def enc_descriptor_def
      wf_device_def wf_component_def wf_descriptor_def pkgHdrIdentifier_def)

lemma sample_matches: "matches sample_termini 0 (pk_devices sample_package) = [(0, 3)]"
  by (simp add: matches_def sample_termini_def sample_package_def descriptors_of_def unpack_data_def
      processDescriptor_def read16_def le16_def)

text \<open>
  C39: Parsing a well-formed package, whatever payload follows its header, yields exactly its
  properties, its device records with their descriptors and its components, and the termini
  whose descriptors equal those of a record; it fails only when there is no such terminus.
\<close>
theorem package_roundtrip:
  assumes "wf_package p" and "length (enc_header p) \<noteq> minPkgHeaderLen"
    and "length (enc_header p @ payload) < 2 ^ 32 - 4"
  shows "\<exists>img. processPkgHdr termini uninit (opened (enc_header p @ payload))
      = Some (matches termini 0 (pk_devices p) \<noteq> [], img)
    \<and> (matches termini 0 (pk_devices p) \<noteq> [] \<longrightarrow> parsed termini uninit p img)"
  using assms by (rule package_parsed)

lemma package_roundtrip_witness:
  "\<exists>img. processPkgHdr sample_termini (\<lambda>_. 0) (opened (enc_header sample_package @ [0xAA, 0xBB]))
      = Some (True, img) \<and> parsed sample_termini (\<lambda>_. 0) sample_package img
    \<and> matchedTermini img = [(0, 3)]"
  using package_roundtrip [OF sample_package_wf(1), of "[0xAA, 0xBB]" sample_termini "\<lambda>_. 0"]
  by (auto simp: sample_package_wf sample_matches minPkgHeaderLen_def sizeof_pkg_header_info_def
      sizeof_comp_img_info_def sizeof_fw_dev_id_record_def parsed_def)

text \<open>
  Descriptors other than the five PCI ids are dropped before they are compared: a package
  for the device with one UUID is matched with a terminus that reported any other UUID.
\<close>
lemma uuid_devices_are_confused:
  assumes "length wanted = 16" and "length actual = 16"
  shows "findMatchedTerminus
      [(t, props, snd (unpackDescriptors 1 (enc_descriptor (0x0002, actual)) u []), comps)] i
      (snd (unpackDescriptors 1 (enc_descriptor (0x0002, wanted)) u' [])) img
    = (True, img\<lparr>matchedTermini := matchedTermini img @ [(i, t)]\<rparr>)"
proof -
  have "snd (unpackDescriptors 1 (enc_descriptor (0x0002, bs)) v []) = []" if "length bs = 16" for bs v
    using unpackDescriptors_enc [of "[(0x0002, bs)]" v] that
    by (simp add: wf_descriptor_def descriptors_of_def unpack_data_def split: if_splits)
  with assms show ?thesis by (simp add: findMatchedTerminus_def)
qed

lemma uuid_devices_are_confused_witness:
  "fst (findMatchedTerminus
      [(5, [], snd (unpackDescriptors 1 (enc_descriptor (0x0002, replicate 16 0x11)) 0 []), [])] 0
      (snd (unpackDescriptors 1 (enc_descriptor (0x0002, replicate 16 0x22)) 0 [])) (opened []))"
  using uuid_devices_are_confused [of "replicate 16 0x22" "replicate 16 0x11" 5 "[]" 0 "[]" 0 0 "opened []"]
  by simp

lemma sample_accepted:
  "\<exists>img. processPkgHdr sample_termini (\<lambda>_. 0) (opened (enc_header sample_package)) = Some (True, img)"
  using package_parsed [OF sample_package_wf(1), of "[]" sample_termini "\<lambda>_. 0"]
  by (auto simp: sample_package_wf sample_matches minPkgHeaderLen_def sizeof_pkg_header_info_def
      sizeof_comp_img_info_def sizeof_fw_dev_id_record_def)

lemma corrupted_package_rejected_witness:
  "\<exists>img'. processPkgHdr [] (\<lambda>_. 1) (opened ((enc_header sample_package)[40 := 0x55])) = Some (False, img')"
proof -
  have "read16 (enc_header sample_package) 17 = 89" "enc_header sample_package ! 40 \<noteq> 0x55"
    by (simp_all add: sample_package_def enc_header_def enc_body_def enc_info_def read16_def le16_def nth_append
        pkgHdrIdentifier_def enc_device_def enc_dev_record_def enc16_def)
  then show ?thesis
    using sample_accepted corrupted_package_rejected [of "enc_header sample_package" "opened (enc_header sample_package)"
      sample_termini "\<lambda>_. 0" _ 40 "0x55" "opened ((enc_header sample_package)[40 := 0x55])" "[]" "\<lambda>_. 1"]
    by (auto simp: PLDMImg_ctor_opened sample_package_wf)
qed

end
