(* ===== verification/Pldm_Messaging.thy ===== *)
theory Pldm_Messaging
  imports Pmci_Prelude "HOL-Library.Monad_Syntax"
begin

unbundle bit_operations_syntax

text \<open>
  Messaging of the PLDM daemon (pldmd/src/pldmd.cpp, pldmd/include/pldm.hpp): the TID mapper,
  the bandwidth reservation, instance ids, and \<open>sendReceivePldmMessage\<close> and
  \<open>sendPldmMessage\<close>, through which every other part of the daemon talks to a terminus.

  The daemon is one thread with coroutines. A coroutine waits in a call of the MCTP client
  library, in a D-Bus call or in a timer; while it waits other coroutines run. A \<open>world\<close> gives,
  for the calls this coroutine has made and the new one, what the others do to the daemon's
  state meanwhile and the answer of the call. Undefined behaviour (an access outside a vector, a null pointer) is
  \<open>None\<close>.
\<close>

section \<open>Waiting\<close>

datatype ext_call =
    SendReceive eid u16 "byte list"
  | SendMsg eid byte bool "byte list"
  | ReserveBW eid u16
  | ReleaseBW eid
  | TriggerDiscovery eid
  | Timer nat
  | SetProgress byte
  | SetActivation bool

record answer =
  a_error :: bool
  a_rc :: int
  a_bytes :: "byte list"

record pldm =
  rsvBWActive :: bool
  reservedTID :: tid
  reservedPLDMType :: byte
  tidMap :: "(tid \<times> eid) list"
  instanceMap :: "(tid \<times> byte) list"
  calls :: "ext_call list"

type_synonym 's world = "ext_call list \<Rightarrow> ext_call \<Rightarrow> 's \<Rightarrow> 's \<times> answer"

definition wait_for ::
  "'a pldm_scheme world \<Rightarrow> ext_call \<Rightarrow> 'a pldm_scheme \<Rightarrow> answer \<times> 'a pldm_scheme" where
  "wait_for w c s = (case w (calls s) c s of (s', a) \<Rightarrow> (a, s'\<lparr>calls := calls s @ [c]\<rparr>))"

definition pldmInvalidTid :: tid where "pldmInvalidTid = 0"
definition pldmInvalidType :: byte where "pldmInvalidType = 0xFF"

definition pldm_start :: pldm where
  "pldm_start = \<lparr> rsvBWActive = False, reservedTID = pldmInvalidTid,
     reservedPLDMType = pldmInvalidType, tidMap = [], instanceMap = [], calls = [] \<rparr>"

section \<open>Results\<close>

text \<open>Every result of a step satisfies \<open>Q\<close>; a step without a result satisfies everything.\<close>

definition always :: "('r \<Rightarrow> bool) \<Rightarrow> 'r option \<Rightarrow> bool" where
  "always Q m \<longleftrightarrow> (\<forall>r. m = Some r \<longrightarrow> Q r)"

lemma always_None [simp]: "always Q None"
  by (simp add: always_def)

lemma always_Some [simp]: "always Q (Some r) = Q r"
  by (simp add: always_def)

lemma always_bind: "always P m \<Longrightarrow> (\<And>r. P r \<Longrightarrow> always Q (f r)) \<Longrightarrow> always Q (m \<bind> f)"
  by (cases m) auto

lemma always_any: "(\<And>r. m = Some r \<Longrightarrow> always Q (f r)) \<Longrightarrow> always Q (m \<bind> f)"
  by (cases m) auto

section \<open>The TID mapper\<close>

fun getMappedTID :: "eid \<Rightarrow> (tid \<times> eid) list \<Rightarrow> tid option" where
  "getMappedTID e [] = None"
| "getMappedTID e ((t, e') # m) = (if e' = e then Some t else getMappedTID e m)"

definition addEntry :: "tid \<Rightarrow> eid \<Rightarrow> (tid \<times> eid) list \<Rightarrow> bool \<times> (tid \<times> eid) list" where
  "addEntry t e m = (if \<exists>p \<in> set m. snd p = e then (False, m) else (True, map_assign t e m))"

definition removeEntry :: "tid \<Rightarrow> (tid \<times> eid) list \<Rightarrow> (tid \<times> eid) list" where
  "removeEntry t m = map_erase t m"

definition getMappedEID :: "tid \<Rightarrow> (tid \<times> eid) list \<Rightarrow> eid option" where
  "getMappedEID t m = map_of m t"

section \<open>Bandwidth reservation\<close>

definition validateReserveBW :: "tid \<Rightarrow> byte \<Rightarrow> 'a pldm_scheme \<Rightarrow> bool" where
  "validateReserveBW t pldmType s \<longleftrightarrow>
     rsvBWActive s \<and> \<not> (t = reservedTID s \<and> pldmType = reservedPLDMType s)"

definition reserveBandwidth :: "'a pldm_scheme world \<Rightarrow> tid \<Rightarrow> byte \<Rightarrow> u16 \<Rightarrow> 'a pldm_scheme
    \<Rightarrow> bool \<times> 'a pldm_scheme" where
  "reserveBandwidth w t pldmType timeout s =
     (if validateReserveBW t pldmType s then (False, s)
      else case getMappedEID t (tidMap s) of
        None \<Rightarrow> (False, s)
      | Some e \<Rightarrow>
          (case wait_for w (ReserveBW e timeout) s of (a, s1) \<Rightarrow>
             if a_rc a < 0 then (False, s1)
             else (True, s1\<lparr>rsvBWActive := True, reservedTID := t, reservedPLDMType := pldmType\<rparr>)))"

definition releaseBandwidth :: "'a pldm_scheme world \<Rightarrow> tid \<Rightarrow> byte \<Rightarrow> 'a pldm_scheme
    \<Rightarrow> bool \<times> 'a pldm_scheme" where
  "releaseBandwidth w t pldmType s =
     (if \<not> rsvBWActive s then (False, s)
      else if t \<noteq> reservedTID s \<or> pldmType \<noteq> reservedPLDMType s then (False, s)
      else case getMappedEID t (tidMap s) of
        None \<Rightarrow> (False, s)
      | Some e \<Rightarrow>
          (case wait_for w (ReleaseBW e) s of (a, s1) \<Rightarrow>
             if a_rc a < 0 then (False, s1)
             else (True, s1\<lparr>rsvBWActive := False, reservedTID := pldmInvalidTid,
                            reservedPLDMType := pldmInvalidType\<rparr>)))"

definition triggerDeviceDiscovery :: "tid \<Rightarrow> 'a pldm_scheme \<Rightarrow> 'a pldm_scheme" where
  "triggerDeviceDiscovery t s = (case getMappedEID t (tidMap s) of
     None \<Rightarrow> s
   | Some e \<Rightarrow> s\<lparr>calls := calls s @ [TriggerDiscovery e]\<rparr>)"

section \<open>Fields of a message\<close>

text \<open>The masks and the enumeration \<open>MessageType\<close> of libpldm\_intel/base.h.\<close>

definition PLDM_INSTANCE_ID_MASK :: byte where "PLDM_INSTANCE_ID_MASK = 0x1F"
definition PLDM_MSG_TYPE_MASK :: byte where "PLDM_MSG_TYPE_MASK = 0x3F"
definition PLDM_RQ_D_MASK :: byte where "PLDM_RQ_D_MASK = 0xC0"

definition PLDM_RESPONSE :: byte where "PLDM_RESPONSE = 0"
definition PLDM_REQUEST :: byte where "PLDM_REQUEST = 1"
definition PLDM_ASYNC_REQUEST_NOTIFY :: byte where "PLDM_ASYNC_REQUEST_NOTIFY = 3"

definition PLDM_SUCCESS :: int where "PLDM_SUCCESS = 0"

definition mctp_type_pldm :: byte where "mctp_type_pldm = 0x01"

definition getInstanceId_pldm :: "byte list \<Rightarrow> byte option" where
  "getInstanceId_pldm msg = (if msg = [] then None else Some (hd msg AND PLDM_INSTANCE_ID_MASK))"

definition getPldmMessageType :: "byte list \<Rightarrow> byte option" where
  "getPldmMessageType msg =
     (if length msg < 2 then None else Some (msg ! 1 AND PLDM_MSG_TYPE_MASK))"

definition getPldmPacketType :: "byte list \<Rightarrow> byte option" where
  "getPldmPacketType msg =
     (if length msg < 1 then None else Some (drop_bit 6 (msg ! 0 AND PLDM_RQ_D_MASK)))"

definition validatePLDMReqEncode :: "int \<Rightarrow> bool" where
  "validatePLDMReqEncode rc \<longleftrightarrow> rc = PLDM_SUCCESS"

definition validatePLDMRespDecode :: "int \<Rightarrow> int \<Rightarrow> bool" where
  "validatePLDMRespDecode rc completionCode \<longleftrightarrow> rc = PLDM_SUCCESS \<and> completionCode = PLDM_SUCCESS"

definition createInstanceId_pldm :: "tid \<Rightarrow> 'a pldm_scheme \<Rightarrow> byte \<times> 'a pldm_scheme" where
  "createInstanceId_pldm t s =
     (let i = case map_of (instanceMap s) t of None \<Rightarrow> 0 | Some i \<Rightarrow> i;
          next_id = (i + 1) AND PLDM_INSTANCE_ID_MASK
      in (next_id, s\<lparr>instanceMap := map_assign t next_id (instanceMap s)\<rparr>))"

section \<open>Sending and receiving\<close>

text \<open>
  What one received payload does to the request and the response buffer, and whether the
  exchange is over. \<open>msg.erase(msg.begin())\<close> of an empty vector is undefined.
\<close>

definition receive_step :: "byte list \<Rightarrow> byte list \<Rightarrow> (bool \<times> byte list \<times> byte list) option" where
  "receive_step req resp =
     (if length resp < 4 then Some (False, req, resp)
      else if getPldmPacketType resp \<noteq> Some PLDM_RESPONSE then Some (False, req, resp)
      else if resp ! 0 \<noteq> mctp_type_pldm then Some (False, req, resp)
      else if req = [] then None
      else Some (case (getInstanceId_pldm (tl req), getInstanceId_pldm (tl resp)) of
                   (Some i, Some j) \<Rightarrow> i = j
                 | _ \<Rightarrow> False, tl req, tl resp))"

fun sendReceive_loop :: "'a pldm_scheme world \<Rightarrow> tid \<Rightarrow> u16 \<Rightarrow> eid option \<Rightarrow> nat \<Rightarrow> nat
    \<Rightarrow> byte list \<Rightarrow> byte list \<Rightarrow> 'a pldm_scheme \<Rightarrow> (bool \<times> byte list \<times> 'a pldm_scheme) option" where
  "sendReceive_loop w t timeout e 0 retry req resp s = Some (False, resp, s)"
| "sendReceive_loop w t timeout e (Suc n) retry req resp s =
     (case (case e of Some d \<Rightarrow> Some d | None \<Rightarrow> getMappedEID t (tidMap s)) of
        None \<Rightarrow> Some (False, resp, s)
      | Some d \<Rightarrow>
          let sent = (if retry = 0 then mctp_type_pldm # req else req) in
          (case wait_for w (SendReceive d timeout sent) s of (a, s1) \<Rightarrow>
             if a_error a
             then sendReceive_loop w t timeout e n (Suc retry) sent (a_bytes a) s1
             else do {
               r \<leftarrow> receive_step sent (a_bytes a);
               case r of (ok, req1, resp1) \<Rightarrow>
                 if ok then Some (True, resp1, s1)
                 else sendReceive_loop w t timeout e n (Suc retry) req1 resp1 s1 }))"

text \<open>The type of the header is read through \<open>pldmReq.data()\<close>.\<close>

definition header_type :: "byte list \<Rightarrow> byte option" where
  "header_type msg = (if length msg < 2 then None else Some (msg ! 1 AND 0x3F))"

definition sendReceivePldmMessage :: "'a pldm_scheme world \<Rightarrow> tid \<Rightarrow> u16 \<Rightarrow> nat \<Rightarrow> byte list
    \<Rightarrow> byte list \<Rightarrow> eid option \<Rightarrow> 'a pldm_scheme \<Rightarrow> (bool \<times> byte list \<times> 'a pldm_scheme) option" where
  "sendReceivePldmMessage w t timeout retryCount pldmReq pldmResp e s = do {
     ty \<leftarrow> header_type pldmReq;
     if validateReserveBW t ty s then Some (False, pldmResp, s)
     else sendReceive_loop w t timeout e (if retryCount > 5 then 5 else retryCount) 0
            pldmReq pldmResp s }"

definition send_failed :: "answer \<Rightarrow> bool" where
  "send_failed rc \<longleftrightarrow> a_error rc \<or> a_rc rc < 0"

fun send_loop :: "'a pldm_scheme world \<Rightarrow> ext_call \<Rightarrow> nat \<Rightarrow> answer \<Rightarrow> 'a pldm_scheme
    \<Rightarrow> answer \<times> 'a pldm_scheme" where
  "send_loop w c 0 rc s = (rc, s)"
| "send_loop w c (Suc n) rc s =
     (case wait_for w c s of (a, s1) \<Rightarrow>
        if send_failed a then send_loop w c n a s1 else (a, s1))"

definition sendPldmMessage :: "'a pldm_scheme world \<Rightarrow> tid \<Rightarrow> byte \<Rightarrow> byte \<Rightarrow> bool \<Rightarrow> byte list
    \<Rightarrow> 'a pldm_scheme \<Rightarrow> (bool \<times> 'a pldm_scheme) option" where
  "sendPldmMessage w t retryCount msgTag tagOwner payload s = do {
     ty \<leftarrow> header_type payload;
     if validateReserveBW t ty s then Some (False, s)
     else case getMappedEID t (tidMap s) of
       None \<Rightarrow> Some (False, s)
     | Some d \<Rightarrow>
         (case send_loop w (SendMsg d msgTag tagOwner (mctp_type_pldm # payload))
                 (if retryCount > 5 then 5 else unat retryCount)
                 \<lparr> a_error = False, a_rc = 0, a_bytes = [] \<rparr> s of
            (rc, s1) \<Rightarrow> Some (\<not> send_failed rc, s1)) }"

text \<open>
  The receive callback: who gets the message, if anyone. \<open>PLDM\_FWUP\<close> is 5.
\<close>

definition PLDM_FWUP :: byte where "PLDM_FWUP = 5"

definition msgRecvCallback :: "eid \<Rightarrow> byte list \<Rightarrow> 'a pldm_scheme \<Rightarrow> (tid \<times> byte list) option" where
  "msgRecvCallback srcEid payload s =
     (if payload \<noteq> [] \<and> payload ! 0 = mctp_type_pldm
      then case getMappedTID srcEid (tidMap s) of
             None \<Rightarrow> None
           | Some t \<Rightarrow>
               (case getPldmMessageType (tl payload) of
                  None \<Rightarrow> None
                | Some ty \<Rightarrow> if ty = PLDM_FWUP then Some (t, tl payload) else None)
      else None)"

section \<open>The mapper is one to one\<close>

definition one_to_one :: "(tid \<times> eid) list \<Rightarrow> bool" where
  "one_to_one m \<longleftrightarrow> smap m \<and> distinct (map snd m)"

datatype tid_event = Add_entry tid eid | Remove_entry tid

fun tid_step :: "(tid \<times> eid) list \<Rightarrow> tid_event \<Rightarrow> (tid \<times> eid) list" where
  "tid_step m (Add_entry t e) = snd (addEntry t e m)"
| "tid_step m (Remove_entry t) = removeEntry t m"

lemma distinct_assign:
  assumes "distinct (map snd m)" "e \<notin> snd ` set m"
  shows "distinct (map snd (map_assign t e m))"
  using assms
proof (induction m)
  case (Cons p m)
  then show ?case
    using set_assign_subset [of t e m] by (cases p) (auto split: if_splits)
qed simp

lemma one_to_one_add [inv_intros]: "one_to_one m \<Longrightarrow> one_to_one (snd (addEntry t e m))"
  by (auto simp: one_to_one_def addEntry_def intro!: smap_assign distinct_assign)

lemma one_to_one_remove [inv_intros]: "one_to_one m \<Longrightarrow> one_to_one (removeEntry t m)"
  by (auto simp: one_to_one_def removeEntry_def smap_erase) (simp add: map_erase_def distinct_map_filter)

interpretation mapper: machine "[]" tid_step "\<lambda>_ _. True" one_to_one
proof unfold_locales
  show "one_to_one []" by (simp add: one_to_one_def)
next
  fix m e
  assume "one_to_one m"
  then show "one_to_one (tid_step m e)"
    by (cases e) (auto intro: inv_intros)
qed

lemma getMappedTID_SomeD: "getMappedTID e m = Some t \<Longrightarrow> (t, e) \<in> set m"
  by (induction m) (auto split: if_splits)

lemma getMappedTID_None: "getMappedTID e m = None \<longleftrightarrow> e \<notin> snd ` set m"
  by (induction m) force+

lemma mapped_both_ways:
  assumes "one_to_one m"
  shows "getMappedTID e m = Some t \<longleftrightarrow> getMappedEID t m = Some e"
proof -
  from assms have dk: "distinct (map fst m)" and dv: "distinct (map snd m)"
    by (auto simp: one_to_one_def smap_distinct)
  have "getMappedTID e m = Some t \<longleftrightarrow> (t, e) \<in> set m"
  proof
    assume te: "(t, e) \<in> set m"
    then have "e \<in> snd ` set m" by force
    then obtain t' where t': "getMappedTID e m = Some t'"
      using getMappedTID_None [of e m] by auto
    then have "(t', e) \<in> set m" by (rule getMappedTID_SomeD)
    with te dv have "t' = t"
      by (auto simp: distinct_map dest: inj_onD [of snd "set m" "(t', e)" "(t, e)"])
    with t' show "getMappedTID e m = Some t" by simp
  qed (rule getMappedTID_SomeD)
  with dk show ?thesis by (simp add: getMappedEID_def)
qed

text \<open>However entries are added and removed, the two lookups of the mapper are inverse to
  each other, and an entry is refused exactly when its EID has a TID already.\<close>

lemma tids_and_eids_are_one_to_one:
  "(getMappedTID e (run tid_step [] es) = Some t) = (getMappedEID t (run tid_step [] es) = Some e)
   \<and> fst (addEntry t e (run tid_step [] es)) = (getMappedTID e (run tid_step [] es) = None)"
proof
  show "(getMappedTID e (run tid_step [] es) = Some t) = (getMappedEID t (run tid_step [] es) = Some e)"
    by (rule mapped_both_ways, rule mapper.inv_run) simp
  show "fst (addEntry t e (run tid_step [] es)) = (getMappedTID e (run tid_step [] es) = None)"
    by (force simp: addEntry_def getMappedTID_None)
qed

section \<open>Reservations\<close>

lemma refused_while_reserved:
  assumes "validateReserveBW t ty s"
  shows "reserveBandwidth w t ty timeout s = (False, s)"
    and "releaseBandwidth w t ty s = (False, s)"
    and "header_type msg = Some ty \<Longrightarrow>
           sendReceivePldmMessage w t timeout n msg resp e s = Some (False, resp, s)"
    and "header_type msg = Some ty \<Longrightarrow>
           sendPldmMessage w t m msgTag owner msg s = Some (False, s)"
  using assms
  by (auto simp: reserveBandwidth_def releaseBandwidth_def sendReceivePldmMessage_def
      sendPldmMessage_def validateReserveBW_def)

lemma reserve_then_mine:
  assumes "reserveBandwidth w t ty timeout s = (True, s')"
  shows "validateReserveBW t' ty' s' \<longleftrightarrow> (t', ty') \<noteq> (t, ty)"
  using assms by (auto simp: reserveBandwidth_def validateReserveBW_def
      split: if_splits option.splits prod.splits)

text \<open>C37: After a reservation succeeded, no message and no reservation of another terminus or
  another PLDM type reaches the MCTP client library: the calls fail and leave the state as it is.\<close>

theorem reservation_is_exclusive:
  assumes "reserveBandwidth w t ty timeout s = (True, s')" and "(t', ty') \<noteq> (t, ty)"
  shows "reserveBandwidth w t' ty' timeout' s' = (False, s') \<and> releaseBandwidth w t' ty' s' = (False, s')
    \<and> (header_type msg = Some ty' \<longrightarrow>
        sendReceivePldmMessage w t' timeout' n msg resp e s' = Some (False, resp, s')
        \<and> sendPldmMessage w t' m msgTag owner msg s' = Some (False, s'))"
  using refused_while_reserved [of t' ty' s'] reserve_then_mine [OF assms(1)] assms(2) by blast

text \<open>
  The reservation outlives its terminus: once the TID is no longer mapped, or the MCTP daemon
  has ended the reservation by its own timer and refuses the release, it is never released.
\<close>

lemma reservation_outlives_terminus:
  "getMappedEID t (tidMap s) = None \<Longrightarrow> releaseBandwidth w t ty s = (False, s)"
  by (auto simp: releaseBandwidth_def)

lemma refused_release_keeps_reservation:
  assumes "getMappedEID t (tidMap s) = Some e" and "w (calls s) (ReleaseBW e) s = (s, a)" "a_rc a < 0"
  shows "rsvBWActive (snd (releaseBandwidth w t ty s)) = rsvBWActive s"
  using assms by (auto simp: releaseBandwidth_def wait_for_def)

section \<open>Instance ids\<close>

lemma instance_id_range: "fst (createInstanceId_pldm t s) < 32"
  by (auto simp: createInstanceId_pldm_def Let_def PLDM_INSTANCE_ID_MASK_def
      intro: le_less_trans [OF word_and_le1])

section \<open>Exchanges\<close>

lemma receive_step_accepts:
  assumes "receive_step req resp = Some (True, req1, resp1)"
  shows "req1 = tl req \<and> resp1 = tl resp \<and> 4 \<le> length resp \<and> 2 \<le> length req
    \<and> getInstanceId_pldm resp1 = Some (req ! 1 AND 0x1F)"
  using assms
  by (cases req; cases "tl req")
     (auto simp: receive_step_def getInstanceId_pldm_def PLDM_INSTANCE_ID_MASK_def
       split: if_splits option.splits)

lemma receive_step_rejects:
  assumes "receive_step req resp = Some (False, req1, resp1)"
  shows "req1 = req \<or> req1 = tl req \<and> req \<noteq> []"
  using assms by (auto simp: receive_step_def split: if_splits)

lemma sendReceive_loop_step:
  assumes "sendReceive_loop w t timeout e (Suc n) retry req resp0 s = Some (ok, resp, s')"
    and "sent = (if retry = 0 then mctp_type_pldm # req else req)"
  obtains (unmapped) "\<not> ok" "s' = s"
  | (accepted) d s1 bs r where "calls s1 = calls s @ [SendReceive d timeout sent]"
      "s1 = snd (wait_for w (SendReceive d timeout sent) s)"
      "receive_step sent bs = Some (True, r, resp)" "ok" "s' = s1"
  | (again) d s1 r p where "calls s1 = calls s @ [SendReceive d timeout sent]"
      "s1 = snd (wait_for w (SendReceive d timeout sent) s)"
      "sendReceive_loop w t timeout e n (Suc retry) r p s1 = Some (ok, resp, s')"
      "r = sent \<or> r = tl sent \<and> sent \<noteq> []"
proof (cases "case e of Some d \<Rightarrow> Some d | None \<Rightarrow> getMappedEID t (tidMap s)")
  case None
  with assms unmapped show thesis by simp
next
  case (Some d)
  obtain a s1 where w: "wait_for w (SendReceive d timeout sent) s = (a, s1)" by force
  then have c: "calls s1 = calls s @ [SendReceive d timeout sent]"
      "s1 = snd (wait_for w (SendReceive d timeout sent) s)"
    by (auto simp: wait_for_def split: prod.splits)
  note loop = assms(1) [simplified, folded assms(2)] Some w
  show thesis
  proof (cases "a_error a")
    case True
    with loop again [OF c] show thesis by (simp add: Let_def assms(2))
  next
    case False
    with loop obtain fin r p where r: "receive_step sent (a_bytes a) = Some (fin, r, p)"
      by (auto simp: Let_def assms(2) split: bind_splits)
    show thesis
    proof (cases fin)
      case True
      with loop False r accepted [OF c] show thesis by (simp add: Let_def assms(2))
    next
      case no: False
      with r have "r = sent \<or> r = tl sent \<and> sent \<noteq> []"
        by (auto dest: receive_step_rejects)
      with loop False r no again [OF c] show thesis by (simp add: Let_def assms(2))
    qed
  qed
qed

lemma sendReceive_loop_calls:
  "sendReceive_loop w t timeout e n retry req resp0 s = Some (ok, resp, s') \<Longrightarrow>
     sent = (if retry = 0 then mctp_type_pldm # req else req) \<Longrightarrow>
     \<exists>cs. calls s' = calls s @ cs \<and> length cs \<le> n
       \<and> (\<forall>c \<in> set cs. \<exists>d. \<exists>k < n. c = SendReceive d timeout (drop k sent))"
proof (induction n arbitrary: retry req resp0 s sent)
  case (Suc n)
  from Suc.prems show ?case
  proof (cases rule: sendReceive_loop_step)
    case (accepted d s1 bs r)
    then show ?thesis
      by (intro exI [of _ "[SendReceive d timeout sent]"]) (auto intro!: exI [of _ 0])
  next
    case (again d s1 r p)
    from Suc.IH [OF again(3) refl] obtain cs where cs: "calls s' = calls s1 @ cs" "length cs \<le> n"
      "\<forall>c \<in> set cs. \<exists>d. \<exists>k < n. c = SendReceive d timeout (drop k r)" by auto
    have "\<exists>d. \<exists>k < Suc n. c = SendReceive d timeout (drop k sent)" if c: "c \<in> set cs" for c
    proof -
      from cs(3) c obtain d k where k: "k < n" "c = SendReceive d timeout (drop k r)" by auto
      from again(4) show ?thesis
      proof
        assume "r = sent"
        with k show ?thesis by (intro exI [of _ d] exI [of _ k]) auto
      next
        assume "r = tl sent \<and> sent \<noteq> []"
        with k show ?thesis by (intro exI [of _ d] exI [of _ "Suc k"]) (auto simp: drop_Suc)
      qed
    qed
    moreover have "\<exists>k < Suc n. SendReceive d timeout sent = SendReceive d timeout (drop k sent)"
      by (rule exI [of _ 0]) simp
    ultimately show ?thesis
      using again(1) cs(1,2) by (intro exI [of _ "SendReceive d timeout sent # cs"]) auto
  qed auto
qed simp

lemma sendReceive_calls:
  assumes "sendReceivePldmMessage w t timeout n req resp0 e s = Some (ok, resp, s')"
  shows "\<exists>cs. calls s' = calls s @ cs \<and> length cs \<le> min n 5
    \<and> (\<forall>c \<in> set cs. \<exists>d. \<exists>k < min n 5. c = SendReceive d timeout (drop k (mctp_type_pldm # req)))"
proof -
  have m: "(if n > 5 then 5 else n) = min n 5" by auto
  from assms consider "s' = s"
    | "sendReceive_loop w t timeout e (min n 5) 0 req resp0 s = Some (ok, resp, s')"
    unfolding sendReceivePldmMessage_def m by (auto split: bind_splits if_splits)
  then show ?thesis
  proof cases
    case 2
    from sendReceive_loop_calls [OF 2 refl] show ?thesis by auto
  qed auto
qed

lemma sendReceive_loop_success:
  "sendReceive_loop w t timeout e n retry req resp0 s = Some (True, resp, s') \<Longrightarrow>
     sent = (if retry = 0 then mctp_type_pldm # req else req) \<Longrightarrow>
     \<exists>k < n. Suc k < length sent \<and> getInstanceId_pldm resp = Some (sent ! Suc k AND 0x1F)
       \<and> 3 \<le> length resp \<and> (\<exists>d. last (calls s') = SendReceive d timeout (drop k sent))"
proof (induction n arbitrary: retry req resp0 s sent)
  case (Suc n)
  from Suc.prems show ?case
  proof (cases rule: sendReceive_loop_step)
    case (accepted d s1 bs r)
    with receive_step_accepts [OF accepted(3)] show ?thesis
      by (intro exI [of _ 0]) auto
  next
    case (again d s1 r p)
    from Suc.IH [OF again(3) refl] obtain k d where k: "k < n" "Suc k < length r"
      "getInstanceId_pldm resp = Some (r ! Suc k AND 0x1F)" "3 \<le> length resp"
      "last (calls s') = SendReceive d timeout (drop k r)" by auto
    from again(4) show ?thesis
    proof
      assume "r = sent"
      with k show ?thesis by (intro exI [of _ k]) auto
    next
      assume "r = tl sent \<and> sent \<noteq> []"
      with k show ?thesis
        by (intro exI [of _ "Suc k"]) (auto simp: nth_tl drop_Suc)
    qed
  qed simp
qed simp

text \<open>A field that is the same after every wait is the same after an exchange.\<close>

lemma sendReceive_loop_frame:
  assumes "\<And>c s. f (snd (wait_for w c s)) = f s"
  shows "sendReceive_loop w t timeout e n retry req resp0 s = Some (ok, resp, s') \<Longrightarrow> f s' = f s"
proof (induction n arbitrary: retry req resp0 s)
  case (Suc n)
  define sent where "sent = (if retry = 0 then mctp_type_pldm # req else req)"
  from Suc.prems sent_def show ?case
    by (cases rule: sendReceive_loop_step) (use Suc.IH assms in auto)
qed simp

lemma sendReceive_frame:
  assumes "\<And>c s. f (snd (wait_for w c s)) = f s"
    and "sendReceivePldmMessage w t timeout n req resp0 e s = Some (ok, resp, s')"
  shows "f s' = f s"
  using assms(2) sendReceive_loop_frame [of f, OF assms(1)]
  by (auto simp: sendReceivePldmMessage_def split: bind_splits if_splits)

text \<open>The same for a relation between the states before and after.\<close>

lemma sendReceive_loop_rel:
  assumes wait: "\<And>c s. R s (snd (wait_for w c s))"
    and refl: "\<And>s. R s s" and trans: "\<And>a b c. R a b \<Longrightarrow> R b c \<Longrightarrow> R a c"
  shows "sendReceive_loop w t timeout e n retry req resp0 s = Some (ok, resp, s') \<Longrightarrow> R s s'"
proof (induction n arbitrary: retry req resp0 s)
  case (Suc n)
  define sent where "sent = (if retry = 0 then mctp_type_pldm # req else req)"
  from Suc.prems sent_def show ?case
  proof (cases rule: sendReceive_loop_step)
    case (again d s1 r p)
    with trans [OF wait Suc.IH] show ?thesis by blast
  qed (use wait refl in auto)
qed (simp add: refl)

lemma sendReceive_rel:
  assumes wait: "\<And>c s. R s (snd (wait_for w c s))"
    and refl: "\<And>s. R s s" and trans: "\<And>a b c. R a b \<Longrightarrow> R b c \<Longrightarrow> R a c"
    and run: "sendReceivePldmMessage w t timeout n req resp0 e s = Some (ok, resp, s')"
  shows "R s s'"
proof -
  note loop = sendReceive_loop_rel [where R = R, OF wait refl trans]
  from run show ?thesis
    by (auto simp: sendReceivePldmMessage_def refl split: bind_splits if_splits intro: loop)
qed

lemma send_loop_frame:
  assumes "\<And>c s. f (snd (wait_for w c s)) = f s"
  shows "f (snd (send_loop w c n rc s)) = f s"
proof (induction n arbitrary: rc s)
  case (Suc n)
  obtain a s1 where w: "wait_for w c s = (a, s1)" by force
  with assms [of c s] have "f s1 = f s" by simp
  with w Suc.IH [of a s1] show ?case by simp
qed simp

lemma send_loop_calls:
  "\<exists>k \<le> n. calls (snd (send_loop w c n rc s)) = calls s @ replicate k c \<and> (0 < n \<longrightarrow> 0 < k)"
proof (induction n arbitrary: rc s)
  case (Suc n)
  obtain a s1 where w: "wait_for w c s = (a, s1)" by force
  then have c: "calls s1 = calls s @ [c]" by (auto simp: wait_for_def split: prod.splits)
  show ?case
  proof (cases "send_failed a")
    case True
    from Suc.IH [of a s1] obtain k where "k \<le> n"
      "calls (snd (send_loop w c n a s1)) = calls s1 @ replicate k c" by auto
    with w c True show ?thesis by (intro exI [of _ "Suc k"]) simp
  next
    case False
    with w c show ?thesis by (intro exI [of _ 1]) simp
  qed
qed simp

lemma sendPldmMessage_cases:
  assumes "sendPldmMessage w t retryCount msgTag owner payload s = Some (ok, s')"
  obtains (refused) "s' = s" "\<not> ok"
  | (sent) d n a where "getMappedEID t (tidMap s) = Some d" "n \<le> 5" "0 < retryCount \<Longrightarrow> 0 < n"
      "send_loop w (SendMsg d msgTag owner (mctp_type_pldm # payload)) n
         \<lparr> a_error = False, a_rc = 0, a_bytes = [] \<rparr> s = (a, s')" "ok = (\<not> send_failed a)"
proof -
  let ?n = "if retryCount > 5 then 5 else unat retryCount"
  let ?rc = "\<lparr> a_error = False, a_rc = 0, a_bytes = [] \<rparr>"
  have n: "?n \<le> 5" "0 < retryCount \<Longrightarrow> 0 < ?n"
    by (auto simp: word_less_nat_alt)
  from assms obtain ty where ty: "header_type payload = Some ty"
    by (auto simp: sendPldmMessage_def split: bind_splits)
  show thesis
  proof (cases "validateReserveBW t ty s \<or> getMappedEID t (tidMap s) = None")
    case True
    with assms ty show thesis
      by (intro refused; cases "validateReserveBW t ty s") (simp_all add: sendPldmMessage_def)
  next
    case False
    then obtain d where d: "getMappedEID t (tidMap s) = Some d" by auto
    obtain a s1 where l: "send_loop w (SendMsg d msgTag owner (mctp_type_pldm # payload)) ?n ?rc s = (a, s1)"
      by force
    with assms ty False d have "s' = s1" "ok = (\<not> send_failed a)"
      by (simp_all add: sendPldmMessage_def)
    with sent [OF d n] l show thesis by simp
  qed
qed

lemma sendPldmMessage_calls:
  assumes "sendPldmMessage w t retryCount msgTag owner payload s = Some (ok, s')"
  shows "s' = s \<and> \<not> ok
    \<or> (\<exists>d k. getMappedEID t (tidMap s) = Some d \<and> k \<le> 5 \<and> (0 < retryCount \<longrightarrow> 0 < k)
        \<and> calls s' = calls s @ replicate k (SendMsg d msgTag owner (mctp_type_pldm # payload)))"
  using assms
proof (cases rule: sendPldmMessage_cases)
  case (sent d n a)
  from send_loop_calls [of n w _ _ s] sent(2-4) sent(1) show ?thesis
    by (metis le_trans snd_conv)
qed simp

lemma sendPldmMessage_frame:
  assumes "\<And>c s. f (snd (wait_for w c s)) = f s"
    and "sendPldmMessage w t retryCount msgTag owner payload s = Some (ok, s')"
  shows "f s' = f s"
  using assms(2)
proof (cases rule: sendPldmMessage_cases)
  case (sent d n a)
  from send_loop_frame [of f w, OF assms(1)] sent(4) show ?thesis by (metis snd_conv)
qed simp

text \<open>An exchange makes at most five requests. When it succeeds its answer has at least the
  three header bytes and the instance id of the request; after k earlier answers with another
  instance id, however, the request has lost its first k bytes (the MCTP message type among
  them) and the id is compared with the request's byte k instead.\<close>

lemma accepted_answer_matches:
  assumes "sendReceivePldmMessage w t timeout n req resp0 e s = Some (ok, resp, s')"
  shows "(\<exists>cs. calls s' = calls s @ cs \<and> length cs \<le> min n 5)
    \<and> (ok \<longrightarrow> (\<exists>k < min n 5. k < length req \<and> getInstanceId_pldm resp = Some (req ! k AND 0x1F)
         \<and> 3 \<le> length resp
         \<and> (\<exists>d. last (calls s') = SendReceive d timeout (drop k (mctp_type_pldm # req)))))"
proof -
  have m: "(if n > 5 then 5 else n) = min n 5" by auto
  from assms consider "ok = False" "s' = s"
    | "sendReceive_loop w t timeout e (min n 5) 0 req resp0 s = Some (ok, resp, s')"
    unfolding sendReceivePldmMessage_def m by (auto split: bind_splits if_splits)
  then show ?thesis
  proof cases
    case 2
    from sendReceive_loop_calls [OF 2 refl] show ?thesis
      using sendReceive_loop_success [of w t timeout e "min n 5" 0 req resp0 s resp s', OF _ refl] 2
      by auto
  qed auto
qed

text \<open>
  A terminus that answers every request with a request of its own (bit 7 of the header byte
  is set) and another instance id. The second attempt is sent without the MCTP message type
  and the answer is accepted, because its id is that of the request's PLDM type byte.
\<close>

definition confused_world :: "pldm world" where
  "confused_world cs c s = (s, \<lparr> a_error = False, a_rc = 0, a_bytes = [0x01, 0x85, 0x05, 0x02] \<rparr>)"

lemma confused_exchange:
  "sendReceivePldmMessage confused_world 1 100 3 [0x83, 0x05, 0x02] [] (Some 9) pldm_start
   = Some (True, [0x85, 0x05, 0x02], pldm_start\<lparr>calls := [SendReceive 9 100 [0x01, 0x83, 0x05, 0x02],
       SendReceive 9 100 [0x83, 0x05, 0x02]]\<rparr>)"
  by (simp add: sendReceivePldmMessage_def header_type_def validateReserveBW_def wait_for_def
      confused_world_def receive_step_def getPldmPacketType_def getInstanceId_pldm_def pldm_start_def
      PLDM_RESPONSE_def PLDM_RQ_D_MASK_def PLDM_INSTANCE_ID_MASK_def mctp_type_pldm_def Let_def
      eval_nat_numeral)

lemma accepted_answer_matches_witness:
  "\<exists>k < min 3 5. k < length [0x83, 0x05, 0x02 :: byte]
     \<and> getInstanceId_pldm [0x85, 0x05, 0x02] = Some ([0x83, 0x05, 0x02] ! k AND 0x1F)"
  using accepted_answer_matches [OF confused_exchange] by auto

lemma reservation_is_exclusive_witness:
  "\<exists>s'. reserveBandwidth confused_world 1 5 9 (pldm_start\<lparr>tidMap := [(1, 9), (2, 10)]\<rparr>) = (True, s')
      \<and> sendPldmMessage confused_world 2 3 0 True [0x81, 0x05, 0x02] s' = Some (False, s')"
proof -
  obtain s' where r: "reserveBandwidth confused_world 1 5 9 (pldm_start\<lparr>tidMap := [(1, 9), (2, 10)]\<rparr>) = (True, s')"
    by (simp add: reserveBandwidth_def validateReserveBW_def pldm_start_def getMappedEID_def
        wait_for_def confused_world_def)
  have "header_type [0x81, 0x05, 0x02] = Some 5" by (simp add: header_type_def)
  with r reservation_is_exclusive [OF r, where t' = 2 and ty' = 5
      and msg = "[0x81, 0x05, 0x02]" and m = 3 and msgTag = 0 and owner = True]
  show ?thesis by auto
qed

end
