(* ===== verification/Pldm_Base_Codec.thy ===== *)
theory Pldm_Base_Codec
  imports Pldm_Messaging Fwu_Descriptors
begin

unbundle bit_operations_syntax

text \<open>
  The message header and the messages of PLDM type 0 (libpldm\_intel/base.c). A message is
  the list of its bytes: three header bytes and the payload. An encoder gives the completion
  code of its failure or the message it leaves in the caller's buffer, which is filled with
  zeros before; the callers send nothing after a failure. A decoder gives its return code
  and its outputs; \<open>None\<close> is a read past the end of the message. The null checks are left
  out: no caller passes a null pointer.
\<close>

section \<open>Codes\<close>

definition PLDM_ERROR :: int where "PLDM_ERROR = 0x01"
definition PLDM_ERROR_INVALID_DATA :: int where "PLDM_ERROR_INVALID_DATA = 0x02"
definition PLDM_ERROR_INVALID_LENGTH :: int where "PLDM_ERROR_INVALID_LENGTH = 0x03"
definition PLDM_ERROR_INVALID_PLDM_TYPE :: int where "PLDM_ERROR_INVALID_PLDM_TYPE = 0x20"
definition PLDM_INVALID_TRANSFER_OPERATION_FLAG :: int where
  "PLDM_INVALID_TRANSFER_OPERATION_FLAG = 0x21"

lemmas pldm_rcs = PLDM_SUCCESS_def PLDM_ERROR_def PLDM_ERROR_INVALID_DATA_def
  PLDM_ERROR_INVALID_LENGTH_def PLDM_ERROR_INVALID_PLDM_TYPE_def
  PLDM_INVALID_TRANSFER_OPERATION_FLAG_def

definition PLDM_GET_NEXTPART :: byte where "PLDM_GET_NEXTPART = 0"
definition PLDM_GET_FIRSTPART :: byte where "PLDM_GET_FIRSTPART = 1"

definition PLDM_START :: byte where "PLDM_START = 0x01"
definition PLDM_MIDDLE :: byte where "PLDM_MIDDLE = 0x02"
definition PLDM_END :: byte where "PLDM_END = 0x04"
definition PLDM_START_AND_END :: byte where "PLDM_START_AND_END = 0x05"

lemmas transfer_flags = PLDM_GET_NEXTPART_def PLDM_GET_FIRSTPART_def PLDM_START_def
  PLDM_MIDDLE_def PLDM_END_def PLDM_START_AND_END_def

definition check_transfer_flag_valid :: "byte \<Rightarrow> bool" where
  "check_transfer_flag_valid f \<longleftrightarrow> f \<in> {PLDM_START, PLDM_MIDDLE, PLDM_END, PLDM_START_AND_END}"

definition check_transfer_operation_flag_valid :: "byte \<Rightarrow> bool" where
  "check_transfer_operation_flag_valid f \<longleftrightarrow> f \<in> {PLDM_GET_NEXTPART, PLDM_GET_FIRSTPART}"

definition PLDM_BASE :: byte where "PLDM_BASE = 0"
definition PLDM_SET_TID :: byte where "PLDM_SET_TID = 1"
definition PLDM_GET_TID :: byte where "PLDM_GET_TID = 2"
definition PLDM_GET_PLDM_VERSION :: byte where "PLDM_GET_PLDM_VERSION = 3"
definition PLDM_GET_PLDM_TYPES :: byte where "PLDM_GET_PLDM_TYPES = 4"
definition PLDM_GET_PLDM_COMMANDS :: byte where "PLDM_GET_PLDM_COMMANDS = 5"

lemmas base_commands = PLDM_BASE_def PLDM_SET_TID_def PLDM_GET_TID_def PLDM_GET_PLDM_VERSION_def
  PLDM_GET_PLDM_TYPES_def PLDM_GET_PLDM_COMMANDS_def

section \<open>The header\<close>

record pldm_header_info =
  hdr_msg_type :: byte
  hdr_instance :: byte
  hdr_pldm_type :: byte
  hdr_command :: byte

definition pack_pldm_header :: "pldm_header_info \<Rightarrow> int + byte list" where
  "pack_pldm_header h =
     (if hdr_msg_type h \<notin> {PLDM_RESPONSE, PLDM_REQUEST, PLDM_ASYNC_REQUEST_NOTIFY}
      then Inl PLDM_ERROR_INVALID_DATA
      else if hdr_instance h > 32 then Inl PLDM_ERROR_INVALID_DATA
      else if hdr_pldm_type h > 63 then Inl PLDM_ERROR_INVALID_PLDM_TYPE
      else Inr [(if hdr_msg_type h = PLDM_RESPONSE then 0 else 0x80)
                OR (if hdr_msg_type h = PLDM_ASYNC_REQUEST_NOTIFY then 0x40 else 0)
                OR (hdr_instance h AND 0x1F),
                hdr_pldm_type h AND 0x3F, hdr_command h])"

definition unpack_pldm_header :: "byte list \<Rightarrow> pldm_header_info" where
  "unpack_pldm_header msg = \<lparr>
     hdr_msg_type = (if \<not> bit (msg ! 0) 7 then PLDM_RESPONSE
                     else if bit (msg ! 0) 6 then PLDM_ASYNC_REQUEST_NOTIFY else PLDM_REQUEST),
     hdr_instance = msg ! 0 AND 0x1F, hdr_pldm_type = msg ! 1 AND 0x3F, hdr_command = msg ! 2 \<rparr>"

definition encode_pldm_header :: "byte \<Rightarrow> byte \<Rightarrow> byte \<Rightarrow> byte \<Rightarrow> int + byte list" where
  "encode_pldm_header instance_id pldm_type command msg_type =
     pack_pldm_header \<lparr> hdr_msg_type = msg_type, hdr_instance = instance_id,
       hdr_pldm_type = pldm_type, hdr_command = command \<rparr>"

definition encode_header_only_request :: "byte \<Rightarrow> byte \<Rightarrow> byte \<Rightarrow> int + byte list" where
  "encode_header_only_request instance_id pldm_type command =
     encode_pldm_header instance_id pldm_type command PLDM_REQUEST"

text \<open>A message: the header, unless it is refused, and a payload.\<close>

fun with_payload :: "int + byte list \<Rightarrow> byte list \<Rightarrow> int + byte list" where
  "with_payload (Inl rc) payload = Inl rc"
| "with_payload (Inr hdr) payload = Inr (hdr @ payload)"

text \<open>Encoders that ignore the return code of \<open>pack\_pldm\_header\<close>: the buffer keeps its zeros.\<close>

definition header_or_zeros :: "int + byte list \<Rightarrow> byte list" where
  "header_or_zeros h = (case h of Inl rc \<Rightarrow> [0, 0, 0] | Inr hdr \<Rightarrow> hdr)"

definition encode_cc_only_resp :: "byte \<Rightarrow> byte \<Rightarrow> byte \<Rightarrow> byte \<Rightarrow> int + byte list" where
  "encode_cc_only_resp instance_id pldm_type command cc =
     with_payload (encode_pldm_header instance_id pldm_type command PLDM_RESPONSE) [cc]"

text \<open>Reads of the payload that are not preceded by a check of its length.\<close>

definition payload_at :: "byte list \<Rightarrow> nat \<Rightarrow> byte option" where
  "payload_at msg i = (if 3 + i < length msg then Some (msg ! (3 + i)) else None)"

definition decode_cc_only_resp :: "byte list \<Rightarrow> int \<times> byte option" where
  "decode_cc_only_resp msg =
     (if length msg - 3 \<noteq> 1 then (PLDM_ERROR_INVALID_LENGTH, None)
      else (PLDM_SUCCESS, Some (msg ! 3)))"

section \<open>GetPLDMTypes\<close>

definition encode_get_types_req :: "byte \<Rightarrow> byte list" where
  "encode_get_types_req instance_id =
     header_or_zeros (encode_pldm_header instance_id PLDM_BASE PLDM_GET_PLDM_TYPES PLDM_REQUEST)"

definition encode_get_types_resp :: "byte \<Rightarrow> byte \<Rightarrow> byte list \<Rightarrow> byte list" where
  "encode_get_types_resp instance_id cc types =
     header_or_zeros (encode_pldm_header instance_id PLDM_BASE PLDM_GET_PLDM_TYPES PLDM_RESPONSE)
     @ [cc] @ (if cc = 0 then take 8 types else [])"

text \<open>
  The decoders of this library return \<open>PLDM\_SUCCESS\<close> and only the completion code when the
  latter is an error.
\<close>

definition decode_get_types_resp :: "byte list \<Rightarrow> (int \<times> byte \<times> byte list option) option" where
  "decode_get_types_resp msg = do {
     cc \<leftarrow> payload_at msg 0;
     Some (if cc \<noteq> 0 then (PLDM_SUCCESS, cc, None)
           else if length msg - 3 \<noteq> 9 then (PLDM_ERROR_INVALID_LENGTH, cc, None)
           else (PLDM_SUCCESS, cc, Some (take 8 (drop 4 msg)))) }"

section \<open>GetPLDMCommands\<close>

text \<open>\<open>ver32\_t\<close>: major, minor, update and alpha, in the packet in the opposite order.\<close>

type_synonym ver32 = "byte \<times> byte \<times> byte \<times> byte"

fun convert_version :: "ver32 \<Rightarrow> ver32" where
  "convert_version (major, minor, update, alpha) = (alpha, update, minor, major)"

fun ver32_bytes :: "ver32 \<Rightarrow> byte list" where
  "ver32_bytes (major, minor, update, alpha) = [major, minor, update, alpha]"

definition encode_get_commands_req :: "byte \<Rightarrow> byte \<Rightarrow> ver32 \<Rightarrow> byte list" where
  "encode_get_commands_req instance_id ty version =
     header_or_zeros (encode_pldm_header instance_id PLDM_BASE PLDM_GET_PLDM_COMMANDS PLDM_REQUEST)
     @ [ty] @ ver32_bytes (convert_version version)"

definition decode_get_commands_req :: "byte list \<Rightarrow> int \<times> (byte \<times> ver32) option" where
  "decode_get_commands_req msg =
     (if length msg - 3 \<noteq> 5 then (PLDM_ERROR_INVALID_LENGTH, None)
      else (PLDM_SUCCESS, Some (msg ! 3, convert_version (msg ! 4, msg ! 5, msg ! 6, msg ! 7))))"

definition encode_get_commands_resp :: "byte \<Rightarrow> byte \<Rightarrow> byte list \<Rightarrow> byte list" where
  "encode_get_commands_resp instance_id cc cmds =
     header_or_zeros (encode_pldm_header instance_id PLDM_BASE PLDM_GET_PLDM_COMMANDS PLDM_RESPONSE)
     @ [cc] @ (if cc = 0 then take 32 cmds else [])"

definition decode_get_commands_resp :: "byte list \<Rightarrow> (int \<times> byte \<times> byte list option) option" where
  "decode_get_commands_resp msg = do {
     cc \<leftarrow> payload_at msg 0;
     Some (if cc \<noteq> 0 then (PLDM_SUCCESS, cc, None)
           else if length msg - 3 \<noteq> 33 then (PLDM_ERROR_INVALID_LENGTH, cc, None)
           else (PLDM_SUCCESS, cc, Some (take 32 (drop 4 msg)))) }"

section \<open>GetPLDMVersion\<close>

definition encode_get_version_req :: "byte \<Rightarrow> u32 \<Rightarrow> byte \<Rightarrow> byte \<Rightarrow> int + byte list" where
  "encode_get_version_req instance_id handle opflag ty =
     with_payload (encode_pldm_header instance_id PLDM_BASE PLDM_GET_PLDM_VERSION PLDM_REQUEST)
       (enc32 handle @ [opflag, ty])"

definition decode_get_version_req :: "byte list \<Rightarrow> int \<times> (u32 \<times> byte \<times> byte) option" where
  "decode_get_version_req msg =
     (if length msg - 3 \<noteq> 6 then (PLDM_ERROR_INVALID_LENGTH, None)
      else if \<not> check_transfer_operation_flag_valid (msg ! 7) then (PLDM_ERROR_INVALID_DATA, None)
      else (PLDM_SUCCESS, Some (read32 (drop 3 msg) 0, msg ! 7, msg ! 8)))"

definition encode_get_version_resp :: "byte \<Rightarrow> byte \<Rightarrow> u32 \<Rightarrow> byte \<Rightarrow> byte list
    \<Rightarrow> int + byte list" where
  "encode_get_version_resp instance_id cc handle flag version =
     (case encode_pldm_header instance_id PLDM_BASE PLDM_GET_PLDM_VERSION PLDM_RESPONSE of
        Inl rc \<Rightarrow> Inl rc
      | Inr hdr \<Rightarrow>
          if cc \<noteq> 0 then Inr (hdr @ [cc])
          else if \<not> check_transfer_flag_valid flag then Inl PLDM_ERROR_INVALID_DATA
          else if version = [] then Inl PLDM_ERROR_INVALID_DATA
          else Inr (hdr @ [cc] @ enc32 handle @ [flag] @ version))"

text \<open>The outputs are the next handle, the flag and the version data. The first two are also
  written when the flag turns out to be invalid; the caller then drops them.\<close>

definition decode_get_version_resp ::
    "byte list \<Rightarrow> (int \<times> byte \<times> (u32 \<times> byte \<times> byte list) option) option" where
  "decode_get_version_resp msg = do {
     cc \<leftarrow> payload_at msg 0;
     Some (if cc \<noteq> 0 then (PLDM_SUCCESS, cc, None)
           else if length msg - 3 < 6 then (PLDM_ERROR_INVALID_LENGTH, cc, None)
           else if \<not> check_transfer_flag_valid (msg ! 8)
           then (PLDM_ERROR_INVALID_DATA, cc, None)
           else (PLDM_SUCCESS, cc, Some (read32 (drop 3 msg) 1, msg ! 8, drop 9 msg))) }"

section \<open>GetTID and SetTID\<close>

definition encode_get_tid_req :: "byte \<Rightarrow> byte list" where
  "encode_get_tid_req instance_id =
     header_or_zeros (encode_pldm_header instance_id PLDM_BASE PLDM_GET_TID PLDM_REQUEST)"

definition encode_get_tid_resp :: "byte \<Rightarrow> byte \<Rightarrow> tid \<Rightarrow> byte list" where
  "encode_get_tid_resp instance_id cc t =
     header_or_zeros (encode_pldm_header instance_id PLDM_BASE PLDM_GET_TID PLDM_RESPONSE) @ [cc, t]"

definition decode_get_tid_resp :: "byte list \<Rightarrow> (int \<times> byte \<times> tid option) option" where
  "decode_get_tid_resp msg = do {
     cc \<leftarrow> payload_at msg 0;
     Some (if cc \<noteq> 0 then (PLDM_SUCCESS, cc, None)
           else if length msg - 3 \<noteq> 2 then (PLDM_ERROR_INVALID_LENGTH, cc, None)
           else (PLDM_SUCCESS, cc, Some (msg ! 4))) }"

definition encode_set_tid_req :: "byte \<Rightarrow> tid \<Rightarrow> int + byte list" where
  "encode_set_tid_req instance_id t =
     with_payload (encode_pldm_header instance_id PLDM_BASE PLDM_SET_TID PLDM_REQUEST) [t]"

definition decode_set_tid_req :: "byte list \<Rightarrow> int \<times> tid option" where
  "decode_set_tid_req msg =
     (if length msg - 3 \<noteq> 1 then (PLDM_ERROR_INVALID_LENGTH, None)
      else (PLDM_SUCCESS, Some (msg ! 3)))"

section \<open>Round trips\<close>

lemma instance_bits [simp]: "(i::byte) < 32 \<Longrightarrow> i AND 0x1F = i"
  using less_mask_eq [of i 5] by (simp add: mask_eq_exp_minus_1)

lemma type_bits [simp]: "(t::byte) < 64 \<Longrightarrow> t AND 0x3F = t"
  using less_mask_eq [of t 6] by (simp add: mask_eq_exp_minus_1)

lemma less_32_bits [simp]:
  assumes "(i::byte) < 32" "5 \<le> n"
  shows "\<not> bit i n"
proof -
  from assms(1) have "take_bit 5 i = i"
    using less_mask_eq [of i 5] by (simp add: take_bit_eq_mask)
  then have "bit i n = (n < 5 \<and> bit i n)" by (metis bit_take_bit_iff)
  with assms(2) show ?thesis by auto
qed

definition is_msg_type :: "byte \<Rightarrow> bool" where
  "is_msg_type ty \<longleftrightarrow> ty \<in> {PLDM_RESPONSE, PLDM_REQUEST, PLDM_ASYNC_REQUEST_NOTIFY}"

lemma packed_header:
  assumes "is_msg_type ty" "i < 32" "t < 64"
  shows "encode_pldm_header i t c ty
    = Inr [(if ty = PLDM_RESPONSE then i else 0x80 OR ((if ty = PLDM_ASYNC_REQUEST_NOTIFY then 0x40 else 0) OR i)), t, c]"
  using assms
  by (auto simp: encode_pldm_header_def pack_pldm_header_def is_msg_type_def word_less_nat_alt
      word_le_nat_alt PLDM_RESPONSE_def PLDM_REQUEST_def PLDM_ASYNC_REQUEST_NOTIFY_def)

lemma low_bits_of_header [simp]: "(i::byte) < 32 \<Longrightarrow> (0x80 OR i) AND 0x1F = i"
  "(i::byte) < 32 \<Longrightarrow> (0xC0 OR i) AND 0x1F = i"
  by (simp_all add: bit.conj_disj_distrib2)

lemma packed_then_unpacked:
  assumes "is_msg_type ty" "i < 32" "t < 64" "encode_pldm_header i t c ty = Inr hdr"
  shows "unpack_pldm_header (hdr @ payload)
    = \<lparr> hdr_msg_type = ty, hdr_instance = i, hdr_pldm_type = t, hdr_command = c \<rparr>"
  using assms
  by (auto simp: packed_header unpack_pldm_header_def is_msg_type_def bit_or_iff
      PLDM_RESPONSE_def PLDM_REQUEST_def PLDM_ASYNC_REQUEST_NOTIFY_def simp flip: or.assoc)

lemma header_length:
  "i < 32 \<Longrightarrow> length (header_or_zeros (encode_pldm_header i PLDM_BASE c ty)) = 3"
  by (auto simp: header_or_zeros_def encode_pldm_header_def pack_pldm_header_def split: sum.splits)

lemma header_req: "i < 32 \<Longrightarrow> encode_pldm_header i PLDM_BASE c PLDM_REQUEST = Inr [0x80 OR i, 0, c]"
  by (simp add: packed_header is_msg_type_def PLDM_BASE_def PLDM_REQUEST_def PLDM_RESPONSE_def
      PLDM_ASYNC_REQUEST_NOTIFY_def)

lemma header_resp: "i < 32 \<Longrightarrow> encode_pldm_header i PLDM_BASE c PLDM_RESPONSE = Inr [i, 0, c]"
  by (simp add: packed_header is_msg_type_def PLDM_BASE_def)

lemma convert_version_twice [simp]: "convert_version (convert_version v) = v"
  by (cases v) auto

lemma commands_req_roundtrip:
  "i < 32 \<Longrightarrow> decode_get_commands_req (encode_get_commands_req i t v) = (PLDM_SUCCESS, Some (t, v))"
  by (cases v) (auto simp: decode_get_commands_req_def encode_get_commands_req_def header_req
      header_or_zeros_def)

lemma version_req_roundtrip:
  assumes "i < 32" "check_transfer_operation_flag_valid f" "encode_get_version_req i h f t = Inr msg"
  shows "decode_get_version_req msg = (PLDM_SUCCESS, Some (h, f, t))"
  using assms by (auto simp: decode_get_version_req_def encode_get_version_req_def header_req
      read_enc nth_append)

lemma version_resp_roundtrip:
  assumes "i < 32" "encode_get_version_resp i 0 h f v = Inr msg"
  shows "decode_get_version_resp msg = Some (PLDM_SUCCESS, 0, Some (h, f, v))"
  using assms by (auto simp: decode_get_version_resp_def encode_get_version_resp_def header_resp
      payload_at_def read_enc nth_append split: if_splits)

lemma header_roundtrip:
  assumes "is_msg_type ty" "i < 32" "t < 64"
  shows "\<exists>hdr. encode_pldm_header i t c ty = Inr hdr \<and> unpack_pldm_header (hdr @ payload)
    = \<lparr> hdr_msg_type = ty, hdr_instance = i, hdr_pldm_type = t, hdr_command = c \<rparr>"
  using packed_header [OF assms] packed_then_unpacked [OF assms] by blast

lemma cc_only_roundtrip:
  assumes "i < 32" "t < 64"
  shows "\<exists>msg. encode_cc_only_resp i t c cc = Inr msg
    \<and> decode_cc_only_resp msg = (PLDM_SUCCESS, Some cc)"
  using packed_header [of PLDM_RESPONSE i t c] assms
  by (simp add: encode_cc_only_resp_def decode_cc_only_resp_def is_msg_type_def)

text \<open>C38: The decoders of the base messages invert the encoders: what a responder reads from a
  GetPLDMCommands, GetPLDMVersion or SetTID request is what was asked, and what the requester reads
  from a successful GetPLDMTypes, GetPLDMCommands, GetPLDMVersion or GetTID answer, or from an
  answer of a completion code alone, is what was answered. A header of one of the three message
  types is written, and \<open>unpack\_pldm\_header\<close> reads its four fields back from the message whatever
  the payload, for every instance id below 32 and PLDM type below 64.\<close>

theorem base_messages_roundtrip:
  assumes "i < 32"
  shows "decode_get_commands_req (encode_get_commands_req i t v) = (PLDM_SUCCESS, Some (t, v))
    \<and> (\<forall>msg f. check_transfer_operation_flag_valid f \<and> encode_get_version_req i h f t = Inr msg
         \<longrightarrow> decode_get_version_req msg = (PLDM_SUCCESS, Some (h, f, t)))
    \<and> (\<forall>msg f. encode_get_version_resp i 0 h f bs = Inr msg
         \<longrightarrow> decode_get_version_resp msg = Some (PLDM_SUCCESS, 0, Some (h, f, bs)))
    \<and> (length bs = 8 \<longrightarrow>
         decode_get_types_resp (encode_get_types_resp i 0 bs) = Some (PLDM_SUCCESS, 0, Some bs))
    \<and> (length bs = 32 \<longrightarrow>
         decode_get_commands_resp (encode_get_commands_resp i 0 bs) = Some (PLDM_SUCCESS, 0, Some bs))
    \<and> decode_get_tid_resp (encode_get_tid_resp i 0 t) = Some (PLDM_SUCCESS, 0, Some t)
    \<and> (\<forall>msg. encode_set_tid_req i t = Inr msg \<longrightarrow> decode_set_tid_req msg = (PLDM_SUCCESS, Some t))
    \<and> (\<forall>ty pt c payload. ty \<in> {PLDM_RESPONSE, PLDM_REQUEST, PLDM_ASYNC_REQUEST_NOTIFY} \<and> pt < 64
         \<longrightarrow> (\<exists>hdr. encode_pldm_header i pt c ty = Inr hdr \<and> unpack_pldm_header (hdr @ payload)
           = \<lparr> hdr_msg_type = ty, hdr_instance = i, hdr_pldm_type = pt, hdr_command = c \<rparr>))
    \<and> (\<forall>pt c cc. pt < 64 \<longrightarrow> (\<exists>msg. encode_cc_only_resp i pt c cc = Inr msg
         \<and> decode_cc_only_resp msg = (PLDM_SUCCESS, Some cc)))"
proof (intro conjI allI impI)
  show "decode_get_commands_req (encode_get_commands_req i t v) = (PLDM_SUCCESS, Some (t, v))"
    using assms by (rule commands_req_roundtrip)
next
  fix msg f
  assume "check_transfer_operation_flag_valid f \<and> encode_get_version_req i h f t = Inr msg"
  with assms show "decode_get_version_req msg = (PLDM_SUCCESS, Some (h, f, t))"
    by (auto intro: version_req_roundtrip)
next
  fix msg f
  assume "encode_get_version_resp i 0 h f bs = Inr msg"
  with assms show "decode_get_version_resp msg = Some (PLDM_SUCCESS, 0, Some (h, f, bs))"
    by (auto intro: version_resp_roundtrip)
next
  fix ty pt c :: byte and payload
  assume "ty \<in> {PLDM_RESPONSE, PLDM_REQUEST, PLDM_ASYNC_REQUEST_NOTIFY} \<and> pt < 64"
  then show "\<exists>hdr. encode_pldm_header i pt c ty = Inr hdr \<and> unpack_pldm_header (hdr @ payload)
      = \<lparr> hdr_msg_type = ty, hdr_instance = i, hdr_pldm_type = pt, hdr_command = c \<rparr>"
    using header_roundtrip [OF _ assms] by (simp only: is_msg_type_def)
next
  fix pt c cc :: byte
  assume "pt < 64"
  with assms show "\<exists>msg. encode_cc_only_resp i pt c cc = Inr msg
      \<and> decode_cc_only_resp msg = (PLDM_SUCCESS, Some cc)"
    by (rule cc_only_roundtrip)
qed (use assms in \<open>auto simp: decode_get_types_resp_def encode_get_types_resp_def header_or_zeros_def
      decode_get_commands_resp_def encode_get_commands_resp_def decode_get_tid_resp_def
      encode_get_tid_resp_def decode_set_tid_req_def encode_set_tid_req_def header_req header_resp
      payload_at_def\<close>)

lemma base_messages_roundtrip_witness:
  "decode_get_commands_req (encode_get_commands_req 7 2 (0xF1, 0xF0, 0xF0, 0))
      = (PLDM_SUCCESS, Some (2, (0xF1, 0xF0, 0xF0, 0)))
    \<and> (\<exists>msg. encode_cc_only_resp 7 5 0x1A 3 = Inr msg
         \<and> decode_cc_only_resp msg = (PLDM_SUCCESS, Some 3))"
  using base_messages_roundtrip [of 7 2 "(0xF1, 0xF0, 0xF0, 0)"] by simp

text \<open>
  An answer of the header alone has been accepted by \<open>sendReceivePldmMessage\<close>, which counts the
  MCTP message type as one of its four bytes; the decoders then read the completion code past the
  end.
\<close>

lemma header_only_answer_is_read_past_end:
  assumes "length msg = 3"
  shows "decode_get_types_resp msg = None" "decode_get_commands_resp msg = None"
    "decode_get_version_resp msg = None" "decode_get_tid_resp msg = None"
  using assms by (simp_all add: decode_get_types_resp_def decode_get_commands_resp_def
      decode_get_version_resp_def decode_get_tid_resp_def payload_at_def)

text \<open>Instance id 32 passes the check and is sent as 0.\<close>

lemma instance_id_32_is_sent_as_0: "encode_pldm_header 32 t c ty = encode_pldm_header 0 t c ty"
  by (simp add: encode_pldm_header_def pack_pldm_header_def)

end
