(* ===== verification/Fwu_Codecs.thy ===== *)
theory Fwu_Codecs
  imports Pldm_Base_Codec
begin

unbundle bit_operations_syntax

text \<open>
  The messages of firmware update, PLDM type 5 (libpldm\_intel/firmware\_update.c and .h), with
  the conventions of the theory on the base messages. \<open>payload\_length\<close> is an argument where the
  callers' value can differ from the length of the message.
\<close>

section \<open>Codes\<close>

definition NOT_IN_UPDATE_MODE :: int where "NOT_IN_UPDATE_MODE = 0x80"
definition ALREADY_IN_UPDATE_MODE :: int where "ALREADY_IN_UPDATE_MODE = 0x81"
definition DATA_OUT_OF_RANGE :: int where "DATA_OUT_OF_RANGE = 0x82"
definition INVALID_TRANSFER_LENGTH :: int where "INVALID_TRANSFER_LENGTH = 0x83"
definition COMMAND_NOT_EXPECTED :: int where "COMMAND_NOT_EXPECTED = 0x88"
definition RETRY_REQUEST_UPDATE :: byte where "RETRY_REQUEST_UPDATE = 0x8E"
definition DECODE_SUCCESS :: int where "DECODE_SUCCESS = 0xF2"

lemmas fwu_rcs = pldm_rcs NOT_IN_UPDATE_MODE_def ALREADY_IN_UPDATE_MODE_def DATA_OUT_OF_RANGE_def
  INVALID_TRANSFER_LENGTH_def COMMAND_NOT_EXPECTED_def DECODE_SUCCESS_def

definition PLDM_REQUEST_UPDATE :: byte where "PLDM_REQUEST_UPDATE = 0x10"
definition PLDM_GET_PACKAGE_DATA :: byte where "PLDM_GET_PACKAGE_DATA = 0x11"
definition PLDM_GET_DEVICE_META_DATA :: byte where "PLDM_GET_DEVICE_META_DATA = 0x12"
definition PLDM_PASS_COMPONENT_TABLE :: byte where "PLDM_PASS_COMPONENT_TABLE = 0x13"
definition PLDM_UPDATE_COMPONENT :: byte where "PLDM_UPDATE_COMPONENT = 0x14"
definition PLDM_REQUEST_FIRMWARE_DATA :: byte where "PLDM_REQUEST_FIRMWARE_DATA = 0x15"
definition PLDM_TRANSFER_COMPLETE :: byte where "PLDM_TRANSFER_COMPLETE = 0x16"
definition PLDM_VERIFY_COMPLETE :: byte where "PLDM_VERIFY_COMPLETE = 0x17"
definition PLDM_APPLY_COMPLETE :: byte where "PLDM_APPLY_COMPLETE = 0x18"
definition PLDM_GET_META_DATA :: byte where "PLDM_GET_META_DATA = 0x19"
definition PLDM_ACTIVATE_FIRMWARE :: byte where "PLDM_ACTIVATE_FIRMWARE = 0x1A"
definition PLDM_GET_STATUS :: byte where "PLDM_GET_STATUS = 0x1B"
definition PLDM_CANCEL_UPDATE_COMPONENT :: byte where "PLDM_CANCEL_UPDATE_COMPONENT = 0x1C"
definition PLDM_CANCEL_UPDATE :: byte where "PLDM_CANCEL_UPDATE = 0x1D"

lemmas fwu_commands = PLDM_REQUEST_UPDATE_def PLDM_GET_PACKAGE_DATA_def
  PLDM_GET_DEVICE_META_DATA_def PLDM_PASS_COMPONENT_TABLE_def PLDM_UPDATE_COMPONENT_def
  PLDM_REQUEST_FIRMWARE_DATA_def PLDM_TRANSFER_COMPLETE_def PLDM_VERIFY_COMPLETE_def
  PLDM_APPLY_COMPLETE_def PLDM_GET_META_DATA_def PLDM_ACTIVATE_FIRMWARE_def PLDM_GET_STATUS_def
  PLDM_CANCEL_UPDATE_COMPONENT_def PLDM_CANCEL_UPDATE_def PLDM_FWUP_def

text \<open>\<open>pldm\_firmware\_update\_state\<close>.\<close>

definition FD_IDLE :: byte where "FD_IDLE = 0"
definition FD_LEARN_COMPONENTS :: byte where "FD_LEARN_COMPONENTS = 1"
definition FD_READY_XFER :: byte where "FD_READY_XFER = 2"
definition FD_DOWNLOAD :: byte where "FD_DOWNLOAD = 3"
definition FD_VERIFY :: byte where "FD_VERIFY = 4"
definition FD_APPLY :: byte where "FD_APPLY = 5"
definition FD_ACTIVATE :: byte where "FD_ACTIVATE = 6"

lemmas fd_states = FD_IDLE_def FD_LEARN_COMPONENTS_def FD_READY_XFER_def FD_DOWNLOAD_def
  FD_VERIFY_def FD_APPLY_def FD_ACTIVATE_def

section \<open>RequestFirmwareData\<close>

text \<open>The static variables of the library.\<close>

record fw_codec =
  maximum_transfer_size :: u32
  component_image_size :: u32
  seg_offset :: u32
  seg_length :: u32

definition initialize_fw_update :: "u32 \<Rightarrow> u32 \<Rightarrow> fw_codec \<Rightarrow> fw_codec" where
  "initialize_fw_update max_transfer_size comp_image_size c =
     c\<lparr>maximum_transfer_size := max_transfer_size, component_image_size := comp_image_size\<rparr>"

text \<open>The sums are of 64 bits and do not wrap.\<close>

definition check_request_firmware_data_req_validity :: "fw_codec \<Rightarrow> int" where
  "check_request_firmware_data_req_validity c =
     (if \<not> (32 \<le> seg_length c \<and> seg_length c \<le> maximum_transfer_size c)
      then INVALID_TRANSFER_LENGTH
      else if \<not> unat (seg_length c) + unat (seg_offset c) \<le> unat (component_image_size c) + 32
      then DATA_OUT_OF_RANGE
      else PLDM_SUCCESS)"

definition get_padding_length :: "fw_codec \<Rightarrow> int + nat" where
  "get_padding_length c =
     (let padding = uint (seg_length c) + uint (seg_offset c) - uint (component_image_size c)
      in if padding > 32 then Inl DATA_OUT_OF_RANGE else Inr (nat padding))"

text \<open>The second component: the offset and the length, when they have been written.\<close>

definition decode_request_firmware_data_req :: "byte list \<Rightarrow> fw_codec
    \<Rightarrow> int \<times> (u32 \<times> u32) option \<times> fw_codec" where
  "decode_request_firmware_data_req msg c =
     (if length msg - 3 \<noteq> 8 then (PLDM_ERROR_INVALID_LENGTH, None, c)
      else let off = read32 (drop 3 msg) 0;
               len = read32 (drop 3 msg) 4;
               c' = c\<lparr>seg_offset := off, seg_length := len\<rparr>
           in (check_request_firmware_data_req_validity c', Some (off, len), c'))"

definition encode_request_firmware_data_resp :: "byte \<Rightarrow> nat \<Rightarrow> byte \<Rightarrow> byte list \<Rightarrow> fw_codec
    \<Rightarrow> int + byte list" where
  "encode_request_firmware_data_resp instance_id payload_length cc portion c =
     (if payload_length \<noteq> unat (seg_length c + 1) \<or> payload_length < 32 \<or> portion = []
      then Inl PLDM_ERROR_INVALID_LENGTH
      else case encode_pldm_header instance_id PLDM_FWUP PLDM_REQUEST_FIRMWARE_DATA PLDM_RESPONSE of
        Inl rc \<Rightarrow> Inl rc
      | Inr hdr \<Rightarrow>
          (case get_padding_length c of
             Inl rc \<Rightarrow> Inl rc
           | Inr padding \<Rightarrow>
               Inr (hdr @ [cc] @ take (unat (seg_length c) - padding) portion
                    @ replicate padding 0)))"

section \<open>Checks of single fields\<close>

definition check_comp_ver_str_type_valid :: "byte \<Rightarrow> bool" where
  "check_comp_ver_str_type_valid t \<longleftrightarrow> t \<le> 5"

definition check_comp_classification_valid :: "u16 \<Rightarrow> bool" where
  "check_comp_classification_valid c \<longleftrightarrow> c \<le> 0x000D"

definition check_resp_code_valid :: "byte \<Rightarrow> bool" where
  "check_resp_code_valid c \<longleftrightarrow> c \<in> {0, 1, 2, 3, 4, 5, 6, 7, 8, 0x0A, 0x0B} \<or> 0xD0 \<le> c \<and> c \<le> 0xEF"

definition check_comp_resp_valid :: "byte \<Rightarrow> bool" where
  "check_comp_resp_valid r \<longleftrightarrow> r \<in> {0, 1}"

definition check_compatability_resp_code_valid :: "byte \<Rightarrow> bool" where
  "check_compatability_resp_code_valid c \<longleftrightarrow>
     c \<in> {0, 1, 2, 3, 4, 5, 6, 7, 8, 9, 0x0A, 0x0B} \<or> 0xD0 \<le> c \<and> c \<le> 0xEF"

definition check_compatability_resp_valid :: "byte \<Rightarrow> bool" where
  "check_compatability_resp_valid r \<longleftrightarrow> r \<in> {0, 1}"

definition validate_verify_result :: "byte \<Rightarrow> bool" where
  "validate_verify_result r \<longleftrightarrow> r \<in> {0, 1, 2, 0x09, 0x0A} \<or> 0x90 \<le> r \<and> r \<le> 0xAF"

definition validate_transfer_result :: "byte \<Rightarrow> bool" where
  "validate_transfer_result r \<longleftrightarrow> r \<in> {0, 2, 3, 0x09, 0x0A} \<or> 0x70 \<le> r \<and> r \<le> 0x8F"

definition validate_apply_result :: "byte \<Rightarrow> bool" where
  "validate_apply_result r \<longleftrightarrow> r \<in> {0, 1, 2, 0x09, 0x0A} \<or> 0xB0 \<le> r \<and> r \<le> 0xCF"

definition validate_comp_activation_methods_modification :: "u16 \<Rightarrow> bool" where
  "validate_comp_activation_methods_modification m \<longleftrightarrow> m \<le> 5"

definition check_self_contained_activation_req_valid :: "byte \<Rightarrow> bool" where
  "check_self_contained_activation_req_valid r \<longleftrightarrow> r \<in> {0, 1}"

definition check_non_functioning_component_indication_valid :: "byte \<Rightarrow> bool" where
  "check_non_functioning_component_indication_valid r \<longleftrightarrow> r \<in> {0, 1}"

section \<open>Requests of the update agent\<close>

record request_update_req =
  max_transfer_size :: u32
  no_of_comp :: u16
  max_outstand_transfer_req :: byte
  pkg_data_len :: u16
  comp_image_set_ver_str_type :: byte
  comp_image_set_ver_str_len :: byte

definition sizeof_request_update_req :: nat where "sizeof_request_update_req = 11"

definition encode_request_update_req :: "byte \<Rightarrow> nat \<Rightarrow> request_update_req \<Rightarrow> byte list
    \<Rightarrow> int + byte list" where
  "encode_request_update_req instance_id payload_length d ver_str =
     (if payload_length < sizeof_request_update_req then Inl PLDM_ERROR_INVALID_LENGTH
      else if max_outstand_transfer_req d < 1 then Inl PLDM_ERROR_INVALID_DATA
      else if \<not> check_comp_ver_str_type_valid (comp_image_set_ver_str_type d)
      then Inl PLDM_ERROR_INVALID_DATA
      else case encode_pldm_header instance_id PLDM_FWUP PLDM_REQUEST_UPDATE PLDM_REQUEST of
        Inl rc \<Rightarrow> Inl rc
      | Inr hdr \<Rightarrow>
          if max_transfer_size d < 32 then Inl PLDM_ERROR_INVALID_DATA
          else if payload_length \<noteq> sizeof_request_update_req + length ver_str
          then Inl PLDM_ERROR_INVALID_LENGTH
          else Inr (hdr @ enc32 (max_transfer_size d) @ enc16 (no_of_comp d)
                    @ [max_outstand_transfer_req d] @ enc16 (pkg_data_len d)
                    @ [comp_image_set_ver_str_type d, comp_image_set_ver_str_len d] @ ver_str))"

definition decode_request_update_resp :: "byte list
    \<Rightarrow> (int \<times> byte \<times> (u16 \<times> byte) option) option" where
  "decode_request_update_resp msg = do {
     cc \<leftarrow> payload_at msg 0;
     Some (if cc \<noteq> 0 then (DECODE_SUCCESS, cc, None)
           else if length msg - 3 \<noteq> 4 then (PLDM_ERROR_INVALID_LENGTH, cc, None)
           else (PLDM_SUCCESS, cc, Some (read16 msg 4, msg ! 6))) }"

definition encode_get_device_meta_data_req :: "byte \<Rightarrow> u32 \<Rightarrow> byte \<Rightarrow> int + byte list" where
  "encode_get_device_meta_data_req instance_id handle flag =
     (case encode_pldm_header instance_id PLDM_FWUP PLDM_GET_DEVICE_META_DATA PLDM_REQUEST of
        Inl rc \<Rightarrow> Inl rc
      | Inr hdr \<Rightarrow>
          if \<not> check_transfer_operation_flag_valid flag
          then Inl PLDM_INVALID_TRANSFER_OPERATION_FLAG
          else Inr (hdr @ enc32 handle @ [flag]))"

definition decode_get_device_meta_data_resp :: "byte list
    \<Rightarrow> (int \<times> byte \<times> (u32 \<times> byte \<times> byte list) option) option" where
  "decode_get_device_meta_data_resp msg = do {
     cc \<leftarrow> payload_at msg 0;
     Some (if cc \<noteq> 0 then (DECODE_SUCCESS, cc, None)
           else if length msg - 3 < 6 then (PLDM_ERROR_INVALID_LENGTH, cc, None)
           else if \<not> check_transfer_flag_valid (msg ! 8)
           then (PLDM_INVALID_TRANSFER_OPERATION_FLAG, cc, None)
           else (PLDM_SUCCESS, cc, Some (read32 msg 4, msg ! 8, drop 9 msg))) }"

definition encode_activate_firmware_req :: "byte \<Rightarrow> byte \<Rightarrow> int + byte list" where
  "encode_activate_firmware_req instance_id self_contained =
     (case encode_pldm_header instance_id PLDM_FWUP PLDM_ACTIVATE_FIRMWARE PLDM_REQUEST of
        Inl rc \<Rightarrow> Inl rc
      | Inr hdr \<Rightarrow>
          if \<not> check_self_contained_activation_req_valid self_contained
          then Inl PLDM_ERROR_INVALID_DATA
          else Inr (hdr @ [self_contained]))"

definition decode_activate_firmware_resp :: "byte list
    \<Rightarrow> (int \<times> byte \<times> u16 option) option" where
  "decode_activate_firmware_resp msg = do {
     cc \<leftarrow> payload_at msg 0;
     Some (if cc \<noteq> 0 then (DECODE_SUCCESS, cc, None)
           else if length msg - 3 \<noteq> 3 then (PLDM_ERROR_INVALID_LENGTH, cc, None)
           else (PLDM_SUCCESS, cc, Some (read16 msg 4))) }"

record pass_component_table_req =
  pct_transfer_flag :: byte
  pct_comp_classification :: u16
  pct_comp_identifier :: u16
  pct_comp_classification_index :: byte
  pct_comp_comparison_stamp :: u32
  pct_comp_ver_str_type :: byte
  pct_comp_ver_str_len :: byte

definition sizeof_pass_component_table_req :: nat where "sizeof_pass_component_table_req = 12"

definition encode_pass_component_table_req :: "byte \<Rightarrow> nat \<Rightarrow> pass_component_table_req \<Rightarrow> byte list
    \<Rightarrow> int + byte list" where
  "encode_pass_component_table_req instance_id payload_length d ver_str =
     (if payload_length < sizeof_pass_component_table_req then Inl PLDM_ERROR_INVALID_LENGTH
      else if length ver_str \<noteq> unat (pct_comp_ver_str_len d) then Inl PLDM_ERROR_INVALID_LENGTH
      else case encode_pldm_header instance_id PLDM_FWUP PLDM_PASS_COMPONENT_TABLE PLDM_REQUEST of
        Inl rc \<Rightarrow> Inl rc
      | Inr hdr \<Rightarrow>
          if \<not> check_transfer_flag_valid (pct_transfer_flag d)
          then Inl PLDM_INVALID_TRANSFER_OPERATION_FLAG
          else if \<not> check_comp_classification_valid (pct_comp_classification d)
          then Inl PLDM_ERROR_INVALID_DATA
          else if \<not> check_comp_ver_str_type_valid (pct_comp_ver_str_type d)
          then Inl PLDM_ERROR_INVALID_DATA
          else if payload_length \<noteq> sizeof_pass_component_table_req + length ver_str
          then Inl PLDM_ERROR_INVALID_LENGTH
          else Inr (hdr @ [pct_transfer_flag d] @ enc16 (pct_comp_classification d)
                    @ enc16 (pct_comp_identifier d) @ [pct_comp_classification_index d]
                    @ enc32 (pct_comp_comparison_stamp d)
                    @ [pct_comp_ver_str_type d, pct_comp_ver_str_len d] @ ver_str))"

definition decode_pass_component_table_resp :: "byte list
    \<Rightarrow> (int \<times> byte \<times> (byte \<times> byte) option) option" where
  "decode_pass_component_table_resp msg = do {
     cc \<leftarrow> payload_at msg 0;
     Some (if cc \<noteq> 0 then (DECODE_SUCCESS, cc, None)
           else if length msg - 3 \<noteq> 3 then (PLDM_ERROR_INVALID_LENGTH, cc, None)
           else if \<not> check_comp_resp_valid (msg ! 4) then (PLDM_ERROR_INVALID_DATA, cc, None)
           else if \<not> check_resp_code_valid (msg ! 5) then (PLDM_ERROR_INVALID_DATA, cc, None)
           else (PLDM_SUCCESS, cc, Some (msg ! 4, msg ! 5))) }"

record update_component_req =
  uc_comp_classification :: u16
  uc_comp_identifier :: u16
  uc_comp_classification_index :: byte
  uc_comp_comparison_stamp :: u32
  uc_comp_image_size :: u32
  uc_update_option_flags :: u32
  uc_comp_ver_str_type :: byte
  uc_comp_ver_str_len :: byte

definition sizeof_update_component_req :: nat where "sizeof_update_component_req = 19"

definition encode_update_component_req :: "byte \<Rightarrow> nat \<Rightarrow> update_component_req \<Rightarrow> byte list
    \<Rightarrow> int + byte list" where
  "encode_update_component_req instance_id payload_length d ver_str =
     (if payload_length < sizeof_update_component_req then Inl PLDM_ERROR_INVALID_LENGTH
      else case encode_pldm_header instance_id PLDM_FWUP PLDM_UPDATE_COMPONENT PLDM_REQUEST of
        Inl rc \<Rightarrow> Inl rc
      | Inr hdr \<Rightarrow>
          if \<not> check_comp_classification_valid (uc_comp_classification d)
          then Inl PLDM_ERROR_INVALID_DATA
          else if \<not> check_comp_ver_str_type_valid (uc_comp_ver_str_type d)
          then Inl PLDM_ERROR_INVALID_DATA
          else if payload_length \<noteq> sizeof_update_component_req + length ver_str
          then Inl PLDM_ERROR_INVALID_LENGTH
          else Inr (hdr @ enc16 (uc_comp_classification d) @ enc16 (uc_comp_identifier d)
                    @ [uc_comp_classification_index d] @ enc32 (uc_comp_comparison_stamp d)
                    @ enc32 (uc_comp_image_size d) @ enc32 (uc_update_option_flags d)
                    @ [uc_comp_ver_str_type d, uc_comp_ver_str_len d] @ ver_str))"

definition decode_update_component_resp :: "byte list
    \<Rightarrow> (int \<times> byte \<times> (byte \<times> byte \<times> u32 \<times> u16) option) option" where
  "decode_update_component_resp msg = do {
     cc \<leftarrow> payload_at msg 0;
     Some (if cc \<noteq> 0 then (DECODE_SUCCESS, cc, None)
           else if length msg - 3 \<noteq> 9 then (PLDM_ERROR_INVALID_LENGTH, cc, None)
           else if \<not> check_compatability_resp_valid (msg ! 4)
           then (PLDM_ERROR_INVALID_DATA, cc, None)
           else if \<not> check_compatability_resp_code_valid (msg ! 5)
           then (PLDM_ERROR_INVALID_DATA, cc, None)
           else (PLDM_SUCCESS, cc, Some (msg ! 4, msg ! 5, read32 msg 6, read16 msg 10))) }"

definition encode_cancel_update_component_req :: "byte \<Rightarrow> int + byte list" where
  "encode_cancel_update_component_req instance_id =
     encode_header_only_request instance_id PLDM_FWUP PLDM_CANCEL_UPDATE_COMPONENT"

definition decode_cancel_update_component_resp :: "byte list \<Rightarrow> int \<times> byte option" where
  "decode_cancel_update_component_resp msg = decode_cc_only_resp msg"

definition encode_cancel_update_req :: "byte \<Rightarrow> int + byte list" where
  "encode_cancel_update_req instance_id =
     encode_header_only_request instance_id PLDM_FWUP PLDM_CANCEL_UPDATE"

definition decode_cancel_update_resp :: "byte list \<Rightarrow> (int \<times> byte) option" where
  "decode_cancel_update_resp msg = do {
     cc \<leftarrow> payload_at msg 0;
     Some (if cc \<noteq> 0 then (DECODE_SUCCESS, cc)
           else if length msg - 3 \<noteq> 10 then (PLDM_ERROR_INVALID_LENGTH, cc)
           else if \<not> check_non_functioning_component_indication_valid (msg ! 4)
           then (PLDM_ERROR_INVALID_DATA, cc)
           else (PLDM_SUCCESS, cc)) }"

section \<open>Requests of the firmware device\<close>

text \<open>\<open>payload[0]\<close> is read without a check of the length.\<close>

definition decode_verify_complete_req :: "byte list \<Rightarrow> (int \<times> byte option) option" where
  "decode_verify_complete_req msg = do {
     r \<leftarrow> payload_at msg 0;
     Some (if \<not> validate_verify_result r then (PLDM_ERROR_INVALID_DATA, None)
           else (PLDM_SUCCESS, Some r)) }"

definition encode_verify_complete_resp :: "byte \<Rightarrow> byte \<Rightarrow> int + byte list" where
  "encode_verify_complete_resp instance_id cc =
     encode_cc_only_resp instance_id PLDM_FWUP PLDM_VERIFY_COMPLETE cc"

definition decode_transfer_complete_req :: "byte list \<Rightarrow> (int \<times> byte option) option" where
  "decode_transfer_complete_req msg = do {
     r \<leftarrow> payload_at msg 0;
     Some (if \<not> validate_transfer_result r then (PLDM_ERROR_INVALID_DATA, None)
           else (PLDM_SUCCESS, Some r)) }"

definition encode_transfer_complete_resp :: "byte \<Rightarrow> byte \<Rightarrow> int + byte list" where
  "encode_transfer_complete_resp instance_id cc =
     encode_cc_only_resp instance_id PLDM_FWUP PLDM_TRANSFER_COMPLETE cc"

definition decode_apply_complete_req :: "byte list \<Rightarrow> int \<times> (byte \<times> u16) option" where
  "decode_apply_complete_req msg =
     (if length msg - 3 \<noteq> 3 then (PLDM_ERROR_INVALID_LENGTH, None)
      else if \<not> validate_apply_result (msg ! 3) then (PLDM_ERROR_INVALID_DATA, None)
      else if \<not> validate_comp_activation_methods_modification (read16 msg 4)
      then (PLDM_ERROR_INVALID_DATA, None)
      else (PLDM_SUCCESS, Some (msg ! 3, read16 msg 4)))"

definition encode_apply_complete_resp :: "byte \<Rightarrow> byte \<Rightarrow> int + byte list" where
  "encode_apply_complete_resp instance_id cc =
     encode_cc_only_resp instance_id PLDM_FWUP PLDM_APPLY_COMPLETE cc"

text \<open>
  GetPackageData and GetMetaData. The callers pass the size of the request structure as the
  length, whatever the length of the message, so its five bytes are read unchecked.
\<close>

definition decode_firmware_device_data_req :: "byte list \<Rightarrow> nat
    \<Rightarrow> (int \<times> (u32 \<times> byte) option) option" where
  "decode_firmware_device_data_req msg payload_length =
     (if payload_length \<noteq> 5 then Some (PLDM_ERROR_INVALID_LENGTH, None)
      else do {
        flag \<leftarrow> payload_at msg 4;
        Some (if flag > PLDM_GET_FIRSTPART then (PLDM_INVALID_TRANSFER_OPERATION_FLAG, None)
              else (PLDM_SUCCESS, Some (read32 msg 3, flag))) })"

record get_fd_data_resp =
  fdr_completion_code :: byte
  fdr_next_data_transfer_handle :: u32
  fdr_transfer_flag :: byte

definition sizeof_get_fd_data_resp :: nat where "sizeof_get_fd_data_resp = 6"

definition encode_firmware_device_data_resp :: "byte \<Rightarrow> nat \<Rightarrow> byte \<Rightarrow> get_fd_data_resp \<Rightarrow> byte list
    \<Rightarrow> int + byte list" where
  "encode_firmware_device_data_resp instance_id payload_length command d portion =
     (case encode_pldm_header instance_id PLDM_FWUP command PLDM_RESPONSE of
        Inl rc \<Rightarrow> Inl rc
      | Inr hdr \<Rightarrow>
          if payload_length < sizeof_get_fd_data_resp then Inl PLDM_ERROR_INVALID_LENGTH
          else if \<not> check_transfer_flag_valid (fdr_transfer_flag d)
          then Inl PLDM_INVALID_TRANSFER_OPERATION_FLAG
          else Inr (hdr @ [fdr_completion_code d] @ enc32 (fdr_next_data_transfer_handle d)
                    @ [fdr_transfer_flag d] @ portion))"

section \<open>GetStatus\<close>

definition check_state_validity :: "byte \<Rightarrow> bool" where
  "check_state_validity s \<longleftrightarrow> s \<in> {FD_IDLE, FD_LEARN_COMPONENTS, FD_READY_XFER, FD_DOWNLOAD,
     FD_VERIFY, FD_APPLY, FD_ACTIVATE}"

definition check_aux_state_validity :: "byte \<Rightarrow> bool" where
  "check_aux_state_validity s \<longleftrightarrow> s \<le> 3"

definition check_aux_state_status_validity :: "byte \<Rightarrow> bool" where
  "check_aux_state_status_validity s \<longleftrightarrow> s \<in> {0x00, 0x09, 0x0A} \<or> 0x70 \<le> s \<and> s \<le> 0xEF"

definition check_reason_code_validity :: "byte \<Rightarrow> bool" where
  "check_reason_code_validity r \<longleftrightarrow> r \<le> 5 \<or> 200 \<le> r"

record get_status_resp =
  gs_current_state :: byte
  gs_previous_state :: byte
  gs_aux_state :: byte
  gs_aux_state_status :: byte
  gs_progress_percent :: byte
  gs_reason_code :: byte
  gs_update_option_flags_enabled :: u32

definition check_response_msg_validity :: "get_status_resp \<Rightarrow> bool" where
  "check_response_msg_validity r \<longleftrightarrow>
     check_state_validity (gs_current_state r) \<and> check_state_validity (gs_previous_state r)
     \<and> check_aux_state_validity (gs_aux_state r)
     \<and> check_aux_state_status_validity (gs_aux_state_status r)
     \<and> gs_progress_percent r \<le> 0x65 \<and> check_reason_code_validity (gs_reason_code r)"

definition encode_get_status_req :: "byte \<Rightarrow> int + byte list" where
  "encode_get_status_req instance_id = encode_header_only_request instance_id PLDM_FWUP PLDM_GET_STATUS"

definition decode_get_status_resp :: "byte list
    \<Rightarrow> (int \<times> byte \<times> get_status_resp option) option" where
  "decode_get_status_resp msg = do {
     cc \<leftarrow> payload_at msg 0;
     Some (if cc \<noteq> 0 then (DECODE_SUCCESS, cc, None)
           else if length msg - 3 \<noteq> 11 then (PLDM_ERROR_INVALID_LENGTH, cc, None)
           else let r = \<lparr> gs_current_state = msg ! 4, gs_previous_state = msg ! 5,
                          gs_aux_state = msg ! 6, gs_aux_state_status = msg ! 7,
                          gs_progress_percent = msg ! 8, gs_reason_code = msg ! 9,
                          gs_update_option_flags_enabled = read32 msg 10 \<rparr>
                in if \<not> check_response_msg_validity r then (PLDM_ERROR_INVALID_DATA, cc, None)
                   else (PLDM_SUCCESS, cc, Some r)) }"

end
