(* ===== verification/Fwu_Agent.thy ===== *)
theory Fwu_Agent
  imports Fwu_Codecs Fwu_Image
begin

unbundle bit_operations_syntax

text \<open>
  The update agent (pldmd/src/firmware\_update.cpp, pldmd/include/firmware\_update.hpp): the
  class \<open>FWUpdate\<close> drives one firmware device through an update. This theory holds its state,
  the events that reach it while it waits, and its exchanges with the device; the transfer of
  data and the run of an update build on it.

  All functions pass the state explicitly. \<open>None\<close> is undefined behaviour: a request of the
  device read past its end, or a shift by 64 bits or more.
\<close>

section \<open>State\<close>

record fwupdate = pldm +
  passCompCount :: u16
  currentTid :: tid
  expectedCmd :: byte
  msgTag :: byte
  fdReq :: "byte list"
  fdReqMatched :: bool
  isReserveBandwidthActive :: bool
  reserveBWTimer :: bool
  reserving :: bool
  isComponentAvailableForUpdate :: bool
  currentDeviceIDRecord :: byte
  updateMode :: bool
  fdState :: byte
  fwDeviceMetaDataLen :: u16
  currentComp :: u16
  compCount :: u16
  fdWillSendGetPkgDataCmd :: byte
  applicableComponentsVal :: u64
  fdStatus :: get_status_resp
  fdTransferCompleted :: bool
  componentImageSetVersionString :: "byte list"
  completionCode :: byte
  updateProperties :: request_update_req
  targetFDProperties :: fd_properties
  packageData :: "byte list"
  fwDeviceMetaData :: "byte list"
  pldmImg :: pldm_img
  codec :: fw_codec

text \<open>
  The constructor. \<open>expectedCmd\<close> and \<open>msgTag\<close> are not initialised; \<open>reserving\<close> and
  \<open>reserveBWTimer\<close> stand for the coroutine that reserves the bandwidth and its timer.
\<close>

definition FWUpdate_ctor :: "tid \<Rightarrow> byte \<Rightarrow> byte \<Rightarrow> byte \<Rightarrow> pldm_img \<Rightarrow> fw_codec \<Rightarrow> pldm \<Rightarrow> fwupdate" where
  "FWUpdate_ctor t deviceIDRecord uninit_cmd uninit_tag img c d = pldm.extend d
     (fwupdate.fields 0 t uninit_cmd uninit_tag [] False False False False False deviceIDRecord
        False FD_IDLE 0 0 0 0 0 \<lparr> gs_current_state = 0, gs_previous_state = 0, gs_aux_state = 0,
          gs_aux_state_status = 0, gs_progress_percent = 0, gs_reason_code = 0,
          gs_update_option_flags_enabled = 0 \<rparr>
        False [] 0 \<lparr> max_transfer_size = 0, no_of_comp = 0, max_outstand_transfer_req = 0,
          pkg_data_len = 0, comp_image_set_ver_str_type = 0, comp_image_set_ver_str_len = 0 \<rparr>
        ([], [], []) [] [] img c)"

section \<open>Events\<close>

definition validateReqForFWUpdCmd :: "tid \<Rightarrow> byte \<Rightarrow> byte list \<Rightarrow> fwupdate \<Rightarrow> fwupdate" where
  "validateReqForFWUpdCmd t messageTag req s =
     (if length req < 3 then s
      else
        let command = req ! 2;
            s = (if expectedCmd s = PLDM_REQUEST_FIRMWARE_DATA \<and> command = PLDM_TRANSFER_COMPLETE
                 then s\<lparr>expectedCmd := PLDM_TRANSFER_COMPLETE, fdTransferCompleted := True\<rparr> else s)
        in if t \<noteq> currentTid s \<or> command \<noteq> expectedCmd s then s
           else s\<lparr>msgTag := messageTag, fdReqMatched := True, fdReq := req\<rparr>)"

definition pldmMsgRecvFwUpdCallback :: "tid \<Rightarrow> byte \<Rightarrow> bool \<Rightarrow> byte list \<Rightarrow> fwupdate \<Rightarrow> fwupdate" where
  "pldmMsgRecvFwUpdCallback t tag tagOwner message s =
     (if \<not> tagOwner then s else validateReqForFWUpdCmd t tag message s)"

definition getReserveEidTimeOut :: "pldm_img \<Rightarrow> u16" where
  "getReserveEidTimeOut img = word_of_nat ((1 + getUpdatableImagesize img div 2730) * 3)"

definition activateReserveBandwidth :: "fwupdate \<Rightarrow> fwupdate" where
  "activateReserveBandwidth s = s\<lparr>reserving := True\<rparr>"

definition cancelReserveBWTimer :: "fwupdate \<Rightarrow> fwupdate" where
  "cancelReserveBWTimer s = s\<lparr>reserveBWTimer := False\<rparr>"

text \<open>
  The coroutine that \<open>activateReserveBandwidth\<close> starts is taken to run when the MCTP daemon
  answers its reservation; its timer, when it is not cancelled, starts it again.
\<close>

datatype fwu_event =
    Received eid byte bool "byte list"
  | Reserve_answer int
  | Reserve_timer
  | Terminus_removed tid

definition reserve_coroutine :: "int \<Rightarrow> fwupdate \<Rightarrow> fwupdate" where
  "reserve_coroutine rc s =
     (if \<not> reserving s then s
      else case reserveBandwidth (\<lambda>_ _ s. (s, \<lparr> a_error = False, a_rc = rc, a_bytes = [] \<rparr>))
                  (currentTid s) PLDM_FWUP (getReserveEidTimeOut (pldmImg s)) (s\<lparr>reserving := False\<rparr>) of
        (ok, s1) \<Rightarrow> if ok then s1\<lparr>isReserveBandwidthActive := True, reserveBWTimer := True\<rparr> else s1)"

fun deliver :: "fwu_event \<Rightarrow> fwupdate \<Rightarrow> fwupdate" where
  "deliver (Received e tag tagOwner payload) s =
     (case msgRecvCallback e payload s of
        None \<Rightarrow> s
      | Some (t, message) \<Rightarrow> pldmMsgRecvFwUpdCallback t tag tagOwner message s)"
| "deliver (Reserve_answer rc) s = reserve_coroutine rc s"
| "deliver Reserve_timer s =
     (if reserveBWTimer s then activateReserveBandwidth (s\<lparr>reserveBWTimer := False\<rparr>) else s)"
| "deliver (Terminus_removed t) s = s\<lparr>tidMap := removeEntry t (tidMap s)\<rparr>"

type_synonym fwu_world = "ext_call list \<Rightarrow> ext_call \<Rightarrow> fwu_event list \<times> answer"

definition fwu_env :: "fwu_world \<Rightarrow> fwupdate world" where
  "fwu_env W cs c s = (fold deliver (fst (W cs c)) s, snd (W cs c))"

section \<open>Timers, requests and responses\<close>

definition startTimer :: "fwu_world \<Rightarrow> nat \<Rightarrow> fwupdate \<Rightarrow> fwupdate" where
  "startTimer W interval s = snd (wait_for (fwu_env W) (Timer interval) s)"

definition createAsyncDelay :: "fwu_world \<Rightarrow> nat \<Rightarrow> fwupdate \<Rightarrow> fwupdate" where
  "createAsyncDelay W delay s = snd (wait_for (fwu_env W) (Timer delay) s)"

definition request :: "fwu_world \<Rightarrow> byte list \<Rightarrow> fwupdate \<Rightarrow> (bool \<times> byte list \<times> fwupdate) option" where
  "request W pldmReq s =
     sendReceivePldmMessage (fwu_env W) (currentTid s) 100 3 pldmReq [] None s"

definition respond :: "fwu_world \<Rightarrow> byte list \<Rightarrow> fwupdate \<Rightarrow> (bool \<times> fwupdate) option" where
  "respond W pldmResp s = sendPldmMessage (fwu_env W) (currentTid s) 3 (msgTag s) False pldmResp s"

text \<open>The instance id of the device's request, read through the pointer to it.\<close>

definition req_instance :: "byte list \<Rightarrow> byte option" where
  "req_instance req = (if req = [] then None else Some (hd req AND 0x1F))"

definition sendErrorCompletionCode :: "fwu_world \<Rightarrow> byte \<Rightarrow> byte \<Rightarrow> byte \<Rightarrow> fwupdate
    \<Rightarrow> (bool \<times> fwupdate) option" where
  "sendErrorCompletionCode W fdInstanceId complCode command s =
     (case encode_cc_only_resp fdInstanceId PLDM_FWUP command complCode of
        Inl rc \<Rightarrow> Some (False, s)
      | Inr msg \<Rightarrow> respond W msg s)"

text \<open>Refusing a request of the device: the completion code is the low byte of the result.\<close>

definition refuse :: "fwu_world \<Rightarrow> byte list \<Rightarrow> int \<Rightarrow> byte \<Rightarrow> fwupdate \<Rightarrow> (int \<times> fwupdate) option" where
  "refuse W req rc command s = do {
     i \<leftarrow> req_instance req;
     (sent, s) \<leftarrow> sendErrorCompletionCode W i (word_of_int rc) command s;
     Some (rc, s) }"

section \<open>Components\<close>

text \<open>\<open>while (val) val \&= val - 1\<close>: every round clears the lowest bit that is set.\<close>

fun count_rounds :: "nat \<Rightarrow> u64 \<Rightarrow> u16 \<Rightarrow> u16" where
  "count_rounds 0 val n = n"
| "count_rounds (Suc fuel) val n =
     (if val = 0 then n else count_rounds fuel (val AND (val - 1)) (n + 1))"

definition getApplicableComponentsCount :: "u64 \<Rightarrow> u16" where
  "getApplicableComponentsCount val = count_rounds 64 val 0"

fun applicable_bytes :: "byte list \<Rightarrow> nat \<Rightarrow> u64 \<Rightarrow> u64" where
  "applicable_bytes [] byteCount val = val"
| "applicable_bytes (b # bs) byteCount val =
     (let val = val OR push_bit (8 * byteCount) (ucast b)
      in if byteCount + 1 > 7 then val else applicable_bytes bs (byteCount + 1) val)"

definition getApplicableComponents :: "fwupdate \<Rightarrow> u64" where
  "getApplicableComponents s = applicable_bytes
     (case getDevIdRcrdProperty get_bytes ''ApplicableComponents'' (currentDeviceIDRecord s) (pldmImg s) of
        None \<Rightarrow> [] | Some bs \<Rightarrow> bs) 0 0"

definition isComponentApplicable :: "fwupdate \<Rightarrow> bool option" where
  "isComponentApplicable s =
     (if unat (currentComp s) < 64 then Some (bit (applicableComponentsVal s) (unat (currentComp s)))
      else None)"

definition compUpdateProgress :: "fwu_world \<Rightarrow> fwupdate \<Rightarrow> fwupdate option" where
  "compUpdateProgress W s =
     (if compCount s = 0 then None
      else Some (snd (wait_for (fwu_env W)
        (SetProgress (word_of_nat ((unat (currentComp s) + 1) * 100 div unat (compCount s)))) s)))"

section \<open>RequestUpdate\<close>

definition prepareRequestUpdateCommand :: "fwupdate \<Rightarrow> bool \<times> fwupdate" where
  "prepareRequestUpdateCommand s =
     (let img = pldmImg s; rcd = currentDeviceIDRecord s;
          val = getApplicableComponents s;
          p = (updateProperties s)\<lparr>max_transfer_size := 32,
                no_of_comp := getApplicableComponentsCount val, max_outstand_transfer_req := 1\<rparr>;
          s = s\<lparr>applicableComponentsVal := val, updateProperties := p\<rparr>
      in case getDevIdRcrdProperty get_u16 ''FWDevPkgDataLen'' rcd img of
           None \<Rightarrow> (False, s)
         | Some n \<Rightarrow>
             let p = p\<lparr>pkg_data_len := n\<rparr>; s = s\<lparr>updateProperties := p\<rparr>
             in case getDevIdRcrdProperty get_u8 ''ComImgSetVerStrLen'' rcd img of
                  None \<Rightarrow> (False, s)
                | Some l \<Rightarrow>
                    let p = p\<lparr>comp_image_set_ver_str_len := l\<rparr>; s = s\<lparr>updateProperties := p\<rparr>
                    in case getDevIdRcrdProperty get_u8 ''ComImgSetVerStrType'' rcd img of
                         None \<Rightarrow> (False, s)
                       | Some ty \<Rightarrow>
                           let p = p\<lparr>comp_image_set_ver_str_type := ty\<rparr>;
                               s = s\<lparr>updateProperties := p\<rparr>
                           in case getDevIdRcrdProperty get_string ''CompImgSetVerStr'' rcd img of
                                None \<Rightarrow> (False, s)
                              | Some v \<Rightarrow> (True, s\<lparr>componentImageSetVersionString := v\<rparr>))"

text \<open>
  The loop of \<open>requestUpdate\<close> with \<open>n\<close> attempts left. The result is an early return or the
  value of \<open>retVal\<close> after the loop.
\<close>

fun requestUpdate_loop :: "fwu_world \<Rightarrow> byte list \<Rightarrow> nat \<Rightarrow> int \<Rightarrow> fwupdate
    \<Rightarrow> ((int + int) \<times> fwupdate) option" where
  "requestUpdate_loop W pldmReq 0 retVal s = Some (Inr retVal, s)"
| "requestUpdate_loop W pldmReq (Suc n) retVal s = do {
     let s = (if retVal = uint RETRY_REQUEST_UPDATE then createAsyncDelay W 5000 s else s);
     (ok, pldmResp, s) \<leftarrow> request W pldmReq s;
     if \<not> ok then Some (Inl PLDM_ERROR, s)
     else do {
       (retVal, cc, out) \<leftarrow> decode_request_update_resp pldmResp;
       let s = s\<lparr>completionCode := cc\<rparr>;
       let s = (case out of None \<Rightarrow> s
                | Some (len, pkg) \<Rightarrow> s\<lparr>fwDeviceMetaDataLen := len, fdWillSendGetPkgDataCmd := pkg\<rparr>);
       if cc = RETRY_REQUEST_UPDATE \<and> n \<noteq> 0 then requestUpdate_loop W pldmReq n retVal s
       else Some (Inr retVal, s) } }"

definition requestUpdate :: "fwu_world \<Rightarrow> byte list \<Rightarrow> fwupdate \<Rightarrow> (int \<times> fwupdate) option" where
  "requestUpdate W verStr s =
     (case createInstanceId_pldm (currentTid s) s of (instanceID, s) \<Rightarrow>
        case encode_request_update_req instanceID (sizeof_request_update_req + length verStr)
               (updateProperties s) verStr of
          Inl rc \<Rightarrow> Some (rc, s)
        | Inr pldmReq \<Rightarrow> do {
            (r, s) \<leftarrow> requestUpdate_loop W pldmReq 3 PLDM_SUCCESS s;
            Some (case r of
                    Inl rc \<Rightarrow> (rc, s)
                  | Inr retVal \<Rightarrow>
                      if completionCode s = RETRY_REQUEST_UPDATE then (retVal, s)
                      else if \<not> validatePLDMRespDecode retVal (uint (completionCode s)) then (retVal, s)
                      else (PLDM_SUCCESS, s)) })"

definition processRequestUpdate :: "fwu_world \<Rightarrow> fwupdate \<Rightarrow> (int \<times> fwupdate) option" where
  "processRequestUpdate W s =
     (if updateMode s then Some (ALREADY_IN_UPDATE_MODE, s)
      else if fdState s \<noteq> FD_IDLE then Some (NOT_IN_UPDATE_MODE, s)
      else case prepareRequestUpdateCommand s of (ok, s) \<Rightarrow>
        if \<not> ok then Some (PLDM_ERROR, s)
        else requestUpdate W (componentImageSetVersionString s) s)"

section \<open>GetDeviceMetaData\<close>

text \<open>The outputs are the next handle and the transfer flag.\<close>

definition getDeviceMetaData :: "fwu_world \<Rightarrow> u32 \<Rightarrow> byte \<Rightarrow> fwupdate
    \<Rightarrow> (int \<times> (u32 \<times> byte) option \<times> fwupdate) option" where
  "getDeviceMetaData W dataTransferHandle transferOperationFlag s =
     (case createInstanceId_pldm (currentTid s) s of (instanceID, s) \<Rightarrow>
        case encode_get_device_meta_data_req instanceID dataTransferHandle transferOperationFlag of
          Inl rc \<Rightarrow> Some (rc, None, s)
        | Inr pldmReq \<Rightarrow> do {
            (ok, pldmResp, s) \<leftarrow> request W pldmReq s;
            if \<not> ok then Some (PLDM_ERROR, None, s)
            else do {
              (retVal, cc, out) \<leftarrow> decode_get_device_meta_data_resp pldmResp;
              let s = s\<lparr>completionCode := cc\<rparr>;
              Some (case out of
                      None \<Rightarrow> (retVal, None, s)
                    | Some (handle, flag, metaData) \<Rightarrow>
                        (PLDM_SUCCESS, Some (handle, flag),
                         s\<lparr>fwDeviceMetaData := fwDeviceMetaData s @ metaData\<rparr>)) } })"

text \<open>At most 101 answers are taken; the 101st is refused even when it is the last part.\<close>

fun metaData_loop :: "fwu_world \<Rightarrow> nat \<Rightarrow> u32 \<Rightarrow> byte \<Rightarrow> byte \<Rightarrow> fwupdate \<Rightarrow> (int \<times> fwupdate) option" where
  "metaData_loop W 0 handle opFlag nextFlag s = Some (PLDM_ERROR, s\<lparr>fwDeviceMetaData := []\<rparr>)"
| "metaData_loop W (Suc n) handle opFlag nextFlag s =
     (if nextFlag = PLDM_START_AND_END \<or> nextFlag = PLDM_END then Some (PLDM_SUCCESS, s)
      else do {
        (retVal, out, s) \<leftarrow> getDeviceMetaData W handle opFlag s;
        case out of
          None \<Rightarrow> Some (retVal, s)
        | Some (nextHandle, flag) \<Rightarrow>
            if n = 0 then Some (PLDM_ERROR, s\<lparr>fwDeviceMetaData := []\<rparr>)
            else metaData_loop W n nextHandle PLDM_GET_NEXTPART flag s })"

definition processGetDeviceMetaData :: "fwu_world \<Rightarrow> fwupdate \<Rightarrow> (int \<times> fwupdate) option" where
  "processGetDeviceMetaData W s =
     (if \<not> updateMode s then Some (NOT_IN_UPDATE_MODE, s)
      else if fdState s \<noteq> FD_LEARN_COMPONENTS then Some (COMMAND_NOT_EXPECTED, s)
      else if fwDeviceMetaDataLen s = 0 then Some (PLDM_SUCCESS, s)
      else metaData_loop W 101 0 PLDM_GET_FIRSTPART PLDM_START s)"

section \<open>PassComponentTable\<close>

text \<open>\<open>flag\<close> is the value before the call, kept when no branch sets it.\<close>

definition initPassComponentTableTransferFlag :: "byte \<Rightarrow> fwupdate \<Rightarrow> bool \<times> byte \<times> fwupdate" where
  "initPassComponentTableTransferFlag flag s =
     (let n = unat (no_of_comp (updateProperties s)); k = unat (passCompCount s)
      in if n = 1 then (True, PLDM_START_AND_END, s)
         else if n > 1
         then (True, if k = 0 then PLDM_START
                     else if k + 1 < n then PLDM_MIDDLE
                     else if k + 1 = n then PLDM_END else flag,
               s\<lparr>passCompCount := passCompCount s + 1\<rparr>)
         else (False, flag, s))"

definition preparePassComponentRequest :: "u16 \<Rightarrow> fwupdate
    \<Rightarrow> (pass_component_table_req \<times> byte list) option \<times> fwupdate" where
  "preparePassComponentRequest compCnt s =
     (let img = pldmImg s in
      case do {
        classification \<leftarrow> getCompProperty get_u16 ''CompClassification'' compCnt img;
        stamp \<leftarrow> getCompProperty get_u32 ''CompComparisonStamp'' compCnt img;
        identifier \<leftarrow> getCompProperty get_u16 ''CompIdentifier'' compCnt img;
        len \<leftarrow> getCompProperty get_u8 ''CompVerStrLen'' compCnt img;
        ty \<leftarrow> getCompProperty get_u8 ''CmpVerStrType'' compCnt img;
        version \<leftarrow> getCompProperty get_string ''CompVerStr'' compCnt img;
        Some (\<lparr> pct_transfer_flag = 0, pct_comp_classification = classification,
                pct_comp_identifier = identifier, pct_comp_classification_index = 0,
                pct_comp_comparison_stamp = stamp, pct_comp_ver_str_type = ty,
                pct_comp_ver_str_len = len \<rparr>, version)
      } of
        None \<Rightarrow> (None, s)
      | Some (d, version) \<Rightarrow>
          (case initPassComponentTableTransferFlag 0 s of (ok, flag, s) \<Rightarrow>
             (if ok then Some (d\<lparr>pct_transfer_flag := flag\<rparr>, version) else None, s)))"

text \<open>The component's response and its code are only logged by the caller's caller.\<close>

definition passComponentTable :: "fwu_world \<Rightarrow> pass_component_table_req \<Rightarrow> byte list \<Rightarrow> fwupdate
    \<Rightarrow> (int \<times> fwupdate) option" where
  "passComponentTable W componentTable verStr s =
     (case createInstanceId_pldm (currentTid s) s of (instanceID, s) \<Rightarrow>
        case encode_pass_component_table_req instanceID
               (sizeof_pass_component_table_req + length verStr) componentTable verStr of
          Inl rc \<Rightarrow> Some (rc, s)
        | Inr pldmReq \<Rightarrow> do {
            (ok, pldmResp, s) \<leftarrow> request W pldmReq s;
            if \<not> ok then Some (PLDM_ERROR, s)
            else do {
              (retVal, cc, out) \<leftarrow> decode_pass_component_table_resp pldmResp;
              let s = s\<lparr>completionCode := cc\<rparr>;
              Some (if \<not> validatePLDMRespDecode retVal (uint cc) then (retVal, s)
                    else (PLDM_SUCCESS, s)) } })"

fun passComponentTable_loop :: "fwu_world \<Rightarrow> u16 list \<Rightarrow> byte \<Rightarrow> fwupdate \<Rightarrow> (int \<times> fwupdate) option" where
  "passComponentTable_loop W [] accepted s =
     Some (if accepted > 0 then PLDM_SUCCESS else PLDM_ERROR, s)"
| "passComponentTable_loop W (count # counts) accepted s = do {
     let s = s\<lparr>currentComp := count\<rparr>;
     applicable \<leftarrow> isComponentApplicable s;
     if \<not> applicable then passComponentTable_loop W counts accepted s
     else case preparePassComponentRequest count s of
       (None, s) \<Rightarrow> Some (PLDM_ERROR, s)
     | (Some (d, version), s) \<Rightarrow> do {
         (retVal, s) \<leftarrow> passComponentTable W d version s;
         if retVal \<noteq> PLDM_SUCCESS then passComponentTable_loop W counts accepted s
         else passComponentTable_loop W counts (accepted + 1) (createAsyncDelay W 500 s) } }"

definition component_counts :: "fwupdate \<Rightarrow> u16 list" where
  "component_counts s = map word_of_nat [0..<unat (compCount s)]"

definition processPassComponentTable :: "fwu_world \<Rightarrow> fwupdate \<Rightarrow> (int \<times> fwupdate) option" where
  "processPassComponentTable W s =
     (if \<not> updateMode s then Some (NOT_IN_UPDATE_MODE, s)
      else if fdState s \<noteq> FD_LEARN_COMPONENTS then Some (COMMAND_NOT_EXPECTED, s)
      else passComponentTable_loop W (component_counts s) 0 s)"

section \<open>UpdateComponent\<close>

definition prepareUpdateComponentRequest :: "fwupdate \<Rightarrow> (update_component_req \<times> byte list) option" where
  "prepareUpdateComponentRequest s = do {
     let img = pldmImg s;
     let c = currentComp s;
     classification \<leftarrow> getCompProperty get_u16 ''CompClassification'' c img;
     identifier \<leftarrow> getCompProperty get_u16 ''CompIdentifier'' c img;
     stamp \<leftarrow> getCompProperty get_u32 ''CompComparisonStamp'' c img;
     size \<leftarrow> getCompProperty get_u32 ''CompSize'' c img;
     ty \<leftarrow> getCompProperty get_u8 ''CmpVerStrType'' c img;
     len \<leftarrow> getCompProperty get_u8 ''CompVerStrLen'' c img;
     version \<leftarrow> getCompProperty get_string ''CompVerStr'' c img;
     Some (\<lparr> uc_comp_classification = classification, uc_comp_identifier = identifier,
             uc_comp_classification_index = 0, uc_comp_comparison_stamp = stamp,
             uc_comp_image_size = size, uc_update_option_flags = 0, uc_comp_ver_str_type = ty,
             uc_comp_ver_str_len = len \<rparr>, version) }"

text \<open>
  The output that the caller acts on is the compatibility response; it starts as 0 and is only
  read after success.
\<close>

definition updateComponent :: "fwu_world \<Rightarrow> update_component_req \<Rightarrow> byte list \<Rightarrow> fwupdate
    \<Rightarrow> (int \<times> byte \<times> fwupdate) option" where
  "updateComponent W component verStr s =
     (case createInstanceId_pldm (currentTid s) s of (instanceID, s) \<Rightarrow>
        case encode_update_component_req instanceID (sizeof_update_component_req + length verStr)
               component verStr of
          Inl rc \<Rightarrow> Some (rc, 0, s)
        | Inr pldmReq \<Rightarrow> do {
            (ok, pldmResp, s) \<leftarrow> request W pldmReq s;
            if \<not> ok then Some (PLDM_ERROR, 0, s)
            else do {
              (retVal, cc, out) \<leftarrow> decode_update_component_resp pldmResp;
              let s = s\<lparr>completionCode := cc\<rparr>;
              Some (case out of
                      None \<Rightarrow> (retVal, 0, s)
                    | Some (compCompatabilityResp, _) \<Rightarrow> (PLDM_SUCCESS, compCompatabilityResp, s)) } })"

definition processUpdateComponent :: "fwu_world \<Rightarrow> fwupdate \<Rightarrow> (int \<times> byte \<times> fwupdate) option" where
  "processUpdateComponent W s =
     (if \<not> updateMode s then Some (NOT_IN_UPDATE_MODE, 0, s)
      else if fdState s \<noteq> FD_READY_XFER then Some (COMMAND_NOT_EXPECTED, 0, s)
      else case prepareUpdateComponentRequest s of
        None \<Rightarrow> Some (PLDM_SUCCESS, 0, s)
      | Some (component, version) \<Rightarrow> updateComponent W component version s)"

section \<open>TransferComplete, VerifyComplete and ApplyComplete\<close>

definition validateTransferComplete :: "byte \<Rightarrow> int" where
  "validateTransferComplete transferResult =
     (if transferResult = 0 then PLDM_SUCCESS else PLDM_ERROR_INVALID_DATA)"

definition validateVerifyComplete :: "byte \<Rightarrow> int" where
  "validateVerifyComplete verifyResult =
     (if verifyResult = 0 then PLDM_SUCCESS else PLDM_ERROR_INVALID_DATA)"

definition validateApplyComplete :: "byte \<Rightarrow> int" where
  "validateApplyComplete applyResult =
     (if applyResult = 0 \<or> applyResult = 1 then PLDM_SUCCESS else PLDM_ERROR_INVALID_DATA)"

text \<open>Answering a request of the device that was not refused.\<close>

definition answer_with :: "fwu_world \<Rightarrow> int + byte list \<Rightarrow> fwupdate \<Rightarrow> (int \<times> fwupdate) option" where
  "answer_with W resp s = (case resp of
     Inl rc \<Rightarrow> Some (rc, s)
   | Inr pldmResp \<Rightarrow> do {
       (sent, s) \<leftarrow> respond W pldmResp s;
       Some (if sent then PLDM_SUCCESS else PLDM_ERROR, s) })"

definition transferComplete :: "fwu_world \<Rightarrow> byte list \<Rightarrow> fwupdate \<Rightarrow> (int \<times> fwupdate) option" where
  "transferComplete W pldmReq s = do {
     (retVal, out) \<leftarrow> decode_transfer_complete_req pldmReq;
     case out of
       None \<Rightarrow> refuse W pldmReq retVal PLDM_TRANSFER_COMPLETE s
     | Some transferResult \<Rightarrow>
         let retVal = validateTransferComplete transferResult in
         if retVal \<noteq> PLDM_SUCCESS then refuse W pldmReq retVal PLDM_TRANSFER_COMPLETE s
         else do {
           i \<leftarrow> req_instance pldmReq;
           answer_with W (encode_transfer_complete_resp i (word_of_int retVal)) s } }"

definition processTransferComplete :: "fwu_world \<Rightarrow> byte list \<Rightarrow> fwupdate \<Rightarrow> (int \<times> fwupdate) option" where
  "processTransferComplete W pldmReq s =
     (if \<not> updateMode s \<or> fdState s \<noteq> FD_DOWNLOAD
      then refuse W pldmReq COMMAND_NOT_EXPECTED PLDM_TRANSFER_COMPLETE s
      else transferComplete W pldmReq s)"

definition verifyComplete :: "fwu_world \<Rightarrow> byte list \<Rightarrow> fwupdate \<Rightarrow> (int \<times> fwupdate) option" where
  "verifyComplete W pldmReq s = do {
     (retVal, out) \<leftarrow> decode_verify_complete_req pldmReq;
     case out of
       None \<Rightarrow> refuse W pldmReq retVal PLDM_VERIFY_COMPLETE s
     | Some verifyResult \<Rightarrow>
         let retVal = validateVerifyComplete verifyResult in
         if retVal \<noteq> PLDM_SUCCESS then refuse W pldmReq retVal PLDM_VERIFY_COMPLETE s
         else do {
           i \<leftarrow> req_instance pldmReq;
           answer_with W (encode_verify_complete_resp i (word_of_int retVal)) s } }"

definition processVerifyComplete :: "fwu_world \<Rightarrow> byte list \<Rightarrow> fwupdate \<Rightarrow> (int \<times> fwupdate) option" where
  "processVerifyComplete W pldmReq s =
     (if \<not> updateMode s \<or> fdState s \<noteq> FD_VERIFY
      then refuse W pldmReq COMMAND_NOT_EXPECTED PLDM_VERIFY_COMPLETE s
      else verifyComplete W pldmReq s)"

definition applyComplete :: "fwu_world \<Rightarrow> byte list \<Rightarrow> fwupdate \<Rightarrow> (int \<times> fwupdate) option" where
  "applyComplete W pldmReq s =
     (case decode_apply_complete_req pldmReq of
        (retVal, None) \<Rightarrow> refuse W pldmReq retVal PLDM_APPLY_COMPLETE s
      | (retVal, Some (applyResult, modification)) \<Rightarrow> do {
          let compCode = validateApplyComplete applyResult;
          i \<leftarrow> req_instance pldmReq;
          answer_with W (encode_apply_complete_resp i (word_of_int compCode)) s })"

definition processApplyComplete :: "fwu_world \<Rightarrow> byte list \<Rightarrow> fwupdate \<Rightarrow> (int \<times> fwupdate) option" where
  "processApplyComplete W pldmReq s =
     (if \<not> updateMode s \<or> fdState s \<noteq> FD_APPLY
      then refuse W pldmReq COMMAND_NOT_EXPECTED PLDM_APPLY_COMPLETE s
      else applyComplete W pldmReq s)"

section \<open>ActivateFirmware, GetStatus and the cancel commands\<close>

definition activateFirmware :: "fwu_world \<Rightarrow> byte \<Rightarrow> fwupdate \<Rightarrow> (int \<times> fwupdate) option" where
  "activateFirmware W selfContainedActivationReq s =
     (case createInstanceId_pldm (currentTid s) s of (instanceID, s) \<Rightarrow>
        case encode_activate_firmware_req instanceID selfContainedActivationReq of
          Inl rc \<Rightarrow> Some (rc, s)
        | Inr pldmReq \<Rightarrow> do {
            (ok, pldmResp, s) \<leftarrow> request W pldmReq s;
            if \<not> ok then Some (PLDM_ERROR, s)
            else do {
              (retVal, cc, out) \<leftarrow> decode_activate_firmware_resp pldmResp;
              let s = s\<lparr>completionCode := cc\<rparr>;
              Some (if \<not> validatePLDMRespDecode retVal (uint cc) then (retVal, s)
                    else (PLDM_SUCCESS, s)) } })"

definition processActivateFirmware :: "fwu_world \<Rightarrow> byte \<Rightarrow> fwupdate \<Rightarrow> (int \<times> fwupdate) option" where
  "processActivateFirmware W selfContainedActivationReq s =
     (if \<not> updateMode s then Some (NOT_IN_UPDATE_MODE, s)
      else if fdState s \<noteq> FD_READY_XFER then Some (COMMAND_NOT_EXPECTED, s)
      else do {
        (retVal, s) \<leftarrow> activateFirmware W selfContainedActivationReq s;
        Some (if retVal \<noteq> PLDM_SUCCESS then (retVal, s)
              else (PLDM_SUCCESS, s\<lparr>fdState := FD_ACTIVATE\<rparr>)) })"

definition getStatus :: "fwu_world \<Rightarrow> fwupdate \<Rightarrow> (int \<times> fwupdate) option" where
  "getStatus W s =
     (case createInstanceId_pldm (currentTid s) s of (instanceID, s) \<Rightarrow>
        case encode_get_status_req instanceID of
          Inl rc \<Rightarrow> Some (rc, s)
        | Inr pldmReq \<Rightarrow> do {
            (ok, pldmResp, s) \<leftarrow> request W pldmReq s;
            if \<not> ok then Some (PLDM_ERROR, s)
            else do {
              (retVal, cc, out) \<leftarrow> decode_get_status_resp pldmResp;
              let s = s\<lparr>completionCode := cc\<rparr>;
              Some (case out of None \<Rightarrow> (retVal, s)
                    | Some st \<Rightarrow> (PLDM_SUCCESS, s\<lparr>fdStatus := st\<rparr>)) } })"

definition cancelUpdateComponent :: "fwu_world \<Rightarrow> fwupdate \<Rightarrow> (int \<times> fwupdate) option" where
  "cancelUpdateComponent W s =
     (case createInstanceId_pldm (currentTid s) s of (instanceID, s) \<Rightarrow>
        case encode_cancel_update_component_req instanceID of
          Inl rc \<Rightarrow> Some (rc, s)
        | Inr pldmReq \<Rightarrow> do {
            (ok, pldmResp, s) \<leftarrow> request W pldmReq s;
            if \<not> ok then Some (PLDM_ERROR, s)
            else
              let (retVal, out) = decode_cancel_update_component_resp pldmResp;
                  s = (case out of None \<Rightarrow> s | Some cc \<Rightarrow> s\<lparr>completionCode := cc\<rparr>)
              in Some (if \<not> validatePLDMRespDecode retVal (uint (completionCode s)) then (retVal, s)
                       else (PLDM_SUCCESS, s)) })"

definition doCancelUpdateComponent :: "fwu_world \<Rightarrow> fwupdate \<Rightarrow> (int \<times> fwupdate) option" where
  "doCancelUpdateComponent W s =
     (if \<not> updateMode s then Some (NOT_IN_UPDATE_MODE, s)
      else if fdState s \<notin> {FD_DOWNLOAD, FD_VERIFY, FD_APPLY} then Some (COMMAND_NOT_EXPECTED, s)
      else do {
        (retVal, s) \<leftarrow> cancelUpdateComponent W s;
        Some (if retVal \<noteq> PLDM_SUCCESS then (retVal, s)
              else (PLDM_SUCCESS, s\<lparr>fdState := FD_READY_XFER\<rparr>)) })"

definition cancelUpdate :: "fwu_world \<Rightarrow> fwupdate \<Rightarrow> (int \<times> fwupdate) option" where
  "cancelUpdate W s =
     (case createInstanceId_pldm (currentTid s) s of (instanceID, s) \<Rightarrow>
        case encode_cancel_update_req instanceID of
          Inl rc \<Rightarrow> Some (rc, s)
        | Inr pldmReq \<Rightarrow> do {
            (ok, pldmResp, s) \<leftarrow> request W pldmReq s;
            if \<not> ok then Some (PLDM_ERROR, s)
            else do {
              (retVal, cc) \<leftarrow> decode_cancel_update_resp pldmResp;
              let s = s\<lparr>completionCode := cc\<rparr>;
              Some (if \<not> validatePLDMRespDecode retVal (uint cc) then (retVal, s)
                    else (PLDM_SUCCESS, s)) } })"

definition doCancelUpdate :: "fwu_world \<Rightarrow> fwupdate \<Rightarrow> (int \<times> fwupdate) option" where
  "doCancelUpdate W s =
     (if \<not> updateMode s then Some (PLDM_ERROR, s)
      else if fdState s = FD_IDLE \<or> fdState s = FD_ACTIVATE then Some (COMMAND_NOT_EXPECTED, s)
      else do {
        (retVal, s) \<leftarrow> cancelUpdate W s;
        Some (if retVal \<noteq> PLDM_SUCCESS then (retVal, s)
              else (PLDM_SUCCESS, s\<lparr>fdState := FD_IDLE\<rparr>)) })"

text \<open>The bandwidth is given back at the end of an update and when it is terminated.\<close>

definition release_reservation :: "fwu_world \<Rightarrow> fwupdate \<Rightarrow> fwupdate" where
  "release_reservation W s =
     (if isReserveBandwidthActive s
      then snd (releaseBandwidth (fwu_env W) (currentTid s) PLDM_FWUP
             (cancelReserveBWTimer (s\<lparr>isReserveBandwidthActive := False\<rparr>)))
      else s)"

definition terminateFwUpdate :: "fwu_world \<Rightarrow> fwupdate \<Rightarrow> fwupdate option" where
  "terminateFwUpdate W s = do {
     (retVal, s) \<leftarrow> doCancelUpdate W s;
     Some (release_reservation W s) }"

end
