(* ===== verification/Fwu_Transfer.thy ===== *)
theory Fwu_Transfer
  imports Fwu_Agent
begin

unbundle bit_operations_syntax

text \<open>
  The transfer of data to the firmware device (pldmd/src/firmware\_update.cpp): the component
  image, which the device reads with RequestFirmwareData, and the package data and the device
  metadata, which it reads with GetPackageData and GetMetaData.
\<close>

section \<open>Component image\<close>

definition findMaxNumReq :: "u32 \<Rightarrow> u32" where
  "findMaxNumReq sz = (1 + sz div 32) * 3"

text \<open>
  \<open>offset\<close> and \<open>length\<close> are variables of the caller; \<open>length\<close> is shortened to what is left of
  the component.
\<close>

definition requestFirmwareData :: "fwu_world \<Rightarrow> byte list \<Rightarrow> u32 \<Rightarrow> u32 \<Rightarrow> u32 \<Rightarrow> u32 \<Rightarrow> fwupdate
    \<Rightarrow> (int \<times> u32 \<times> u32 \<times> fwupdate) option" where
  "requestFirmwareData W pldmReq offset len componentSize componentOffset s =
     (let (retVal, out, c) = decode_request_firmware_data_req pldmReq (codec s);
          s = s\<lparr>codec := c\<rparr>;
          (offset, len) = (case out of None \<Rightarrow> (offset, len) | Some (off, l) \<Rightarrow> (off, l))
      in if retVal \<noteq> PLDM_SUCCESS
         then do {
           (rc, s) \<leftarrow> refuse W pldmReq retVal PLDM_REQUEST_FIRMWARE_DATA s;
           Some (rc, offset, len, s) }
         else
           let payload_length = size_add 1 (unat len);
               data = replicate (unat len) 0
           in if offset + len > componentSize \<and> \<not> offset < componentSize
              then do {
                (rc, s) \<leftarrow> refuse W pldmReq PLDM_ERROR PLDM_REQUEST_FIRMWARE_DATA s;
                Some (rc, offset, len, s) }
              else
                let len = (if offset + len > componentSize then componentSize - offset else len);
                    (ok, data, img) = readData (unat (offset + componentOffset)) data (unat len) (pldmImg s);
                    s = s\<lparr>pldmImg := img\<rparr>
                in if \<not> ok
                   then do {
                     (rc, s) \<leftarrow> refuse W pldmReq PLDM_ERROR PLDM_REQUEST_FIRMWARE_DATA s;
                     Some (rc, offset, len, s) }
                   else do {
                     i \<leftarrow> req_instance pldmReq;
                     (rc, s) \<leftarrow> answer_with W
                       (encode_request_firmware_data_resp i payload_length (completionCode s) data (codec s)) s;
                     Some (rc, offset, len, s) })"

text \<open>
  The loop of \<open>processRequestFirmwareData\<close>; \<open>n\<close> is what \<open>--maxNumReq\<close> still has to go.
\<close>

fun requestFirmwareData_loop :: "fwu_world \<Rightarrow> u32 \<Rightarrow> u32 \<Rightarrow> nat \<Rightarrow> int \<Rightarrow> u32 \<Rightarrow> u32 \<Rightarrow> fwupdate
    \<Rightarrow> (int \<times> fwupdate) option" where
  "requestFirmwareData_loop W componentSize componentOffset 0 retVal offset len s =
     Some (PLDM_ERROR, s)"
| "requestFirmwareData_loop W componentSize componentOffset (Suc n) retVal offset len s = (
     let s = startTimer W 90000 s in
     if \<not> fdReqMatched s then Some (retVal, s)
     else
       let s = s\<lparr>fdReqMatched := False\<rparr> in
       if fdTransferCompleted s then Some (retVal, s\<lparr>fdTransferCompleted := False\<rparr>)
       else do {
         (retVal, offset, len, s) \<leftarrow>
           requestFirmwareData W (fdReq s) offset len componentSize componentOffset s;
         if retVal \<noteq> PLDM_SUCCESS
         then requestFirmwareData_loop W componentSize componentOffset n retVal offset len s
         else
           let s = s\<lparr>fdReq := []\<rparr> in
           if componentSize = 0 then None
           else if offset + len > componentSize
           then Some (retVal, s\<lparr>expectedCmd := PLDM_TRANSFER_COMPLETE\<rparr>)
           else requestFirmwareData_loop W componentSize componentOffset n retVal offset len s })"

definition processRequestFirmwareData :: "fwu_world \<Rightarrow> fwupdate \<Rightarrow> (int \<times> fwupdate) option" where
  "processRequestFirmwareData W s =
     (if \<not> updateMode s \<or> fdState s \<noteq> FD_DOWNLOAD then Some (COMMAND_NOT_EXPECTED, s)
      else case getCompProperty get_u32 ''CompSize'' (currentComp s) (pldmImg s) of
        None \<Rightarrow> Some (PLDM_ERROR, s)
      | Some componentSize \<Rightarrow>
          (case getCompProperty get_u32 ''CompLocationOffset'' (currentComp s) (pldmImg s) of
             None \<Rightarrow> Some (PLDM_ERROR, s)
           | Some componentOffset \<Rightarrow>
               requestFirmwareData_loop W componentSize componentOffset
                 (unat (findMaxNumReq componentSize - 1)) PLDM_SUCCESS 0 0
                 (s\<lparr>codec := initialize_fw_update (max_transfer_size (updateProperties s))
                               componentSize (codec s)\<rparr>)))"

section \<open>Package data and device metadata\<close>

definition calcMaxNumReq :: "nat \<Rightarrow> nat" where
  "calcMaxNumReq dataSize =
     (if dataSize = 0 then 0
      else dataSize div 32 + (if dataSize mod 32 > 0 then 1 else 0))"

definition setTransferFlag :: "nat \<Rightarrow> nat \<Rightarrow> nat \<Rightarrow> byte" where
  "setTransferFlag offset len dataSize =
     (if size_add offset len < dataSize
      then (if offset = 0 then PLDM_START else PLDM_MIDDLE)
      else (if offset = 0 then PLDM_START_AND_END else PLDM_END))"

text \<open>
  \<open>sendPackageData\<close> and \<open>sendMetaData\<close> are the same code on different data and commands.
  \<open>recvdRequests\<close> is a set, kept as a list without repetitions.
\<close>

definition send_portion :: "fwu_world \<Rightarrow> byte \<Rightarrow> byte list \<Rightarrow> nat \<Rightarrow> nat \<Rightarrow> u32 list \<Rightarrow> fwupdate
    \<Rightarrow> (int \<times> nat \<times> nat \<times> u32 list \<times> fwupdate) option" where
  "send_portion W command data offset len recvdRequests s = do {
     let req = fdReq s;
     (retVal, out) \<leftarrow> decode_firmware_device_data_req req 5;
     case out of
       None \<Rightarrow> do {
         (rc, s) \<leftarrow> refuse W req retVal command s;
         Some (rc, offset, len, recvdRequests, s) }
     | Some (handle, flag) \<Rightarrow>
         let (offset, len, recvdRequests) =
               (if flag = PLDM_GET_FIRSTPART then (0, 32, List.insert 0 recvdRequests)
                else (unat (handle * 32), len, List.insert handle recvdRequests));
             dataSize = length data
         in if size_add offset len > dataSize \<and> \<not> offset < dataSize
            then do {
              (rc, s) \<leftarrow> refuse W req PLDM_ERROR command s;
              Some (rc, offset, len, recvdRequests, s) }
            else
              let len = (if size_add offset len > dataSize then dataSize - offset else len);
                  dataHeader = \<lparr> fdr_completion_code = 0, fdr_next_data_transfer_handle = handle + 1,
                                 fdr_transfer_flag = setTransferFlag offset len dataSize \<rparr>;
                  portion = take len (drop offset data)
              in do {
                i \<leftarrow> req_instance req;
                (rc, s) \<leftarrow> answer_with W
                  (encode_firmware_device_data_resp i (3 + sizeof_get_fd_data_resp + len) command
                     dataHeader portion) s;
                Some (rc, size_add offset len, len, recvdRequests, s) } }"

definition sendPackageData :: "fwu_world \<Rightarrow> nat \<Rightarrow> nat \<Rightarrow> u32 list \<Rightarrow> fwupdate
    \<Rightarrow> (int \<times> nat \<times> nat \<times> u32 list \<times> fwupdate) option" where
  "sendPackageData W offset len recvdRequests s =
     send_portion W PLDM_GET_PACKAGE_DATA (packageData s) offset len recvdRequests s"

definition sendMetaData :: "fwu_world \<Rightarrow> nat \<Rightarrow> nat \<Rightarrow> u32 list \<Rightarrow> fwupdate
    \<Rightarrow> (int \<times> nat \<times> nat \<times> u32 list \<times> fwupdate) option" where
  "sendMetaData W offset len recvdRequests s =
     send_portion W PLDM_GET_META_DATA (fwDeviceMetaData s) offset len recvdRequests s"

fun sendPackageData_loop :: "fwu_world \<Rightarrow> nat \<Rightarrow> nat \<Rightarrow> int \<Rightarrow> nat \<Rightarrow> nat \<Rightarrow> u32 list \<Rightarrow> fwupdate
    \<Rightarrow> (int \<times> fwupdate) option" where
  "sendPackageData_loop W numExpectedRequests 0 retVal offset len recvdRequests s =
     Some (retVal, s\<lparr>expectedCmd := 0\<rparr>)"
| "sendPackageData_loop W numExpectedRequests (Suc n) retVal offset len recvdRequests s = (
     let s = startTimer W 5000 s in
     if \<not> fdReqMatched s then Some (retVal, s\<lparr>expectedCmd := 0\<rparr>)
     else do {
       (retVal, offset, len, recvdRequests, s) \<leftarrow> sendPackageData W offset len recvdRequests s;
       if retVal \<noteq> PLDM_SUCCESS then Some (retVal, s\<lparr>fdReq := [], expectedCmd := 0\<rparr>)
       else
         let s = s\<lparr>fdReq := [], fdReqMatched := False\<rparr> in
         if length recvdRequests = numExpectedRequests then Some (retVal, s\<lparr>expectedCmd := 0\<rparr>)
         else sendPackageData_loop W numExpectedRequests n retVal offset len recvdRequests
                (s\<lparr>expectedCmd := PLDM_GET_PACKAGE_DATA\<rparr>) })"

definition processSendPackageData :: "fwu_world \<Rightarrow> fwupdate \<Rightarrow> (int \<times> fwupdate) option" where
  "processSendPackageData W s =
     (if fdState s \<noteq> FD_LEARN_COMPONENTS \<or> \<not> updateMode s then Some (COMMAND_NOT_EXPECTED, s)
      else if fdWillSendGetPkgDataCmd s \<noteq> 0x01 then Some (PLDM_SUCCESS, s)
      else case getDevIdRcrdProperty get_bytes ''FirmwareDevicePackageData''
                  (currentDeviceIDRecord s) (pldmImg s) of
        None \<Rightarrow> Some (PLDM_ERROR, s)
      | Some data \<Rightarrow>
          let s = s\<lparr>packageData := data\<rparr> in
          if data = [] then Some (PLDM_ERROR, s)
          else sendPackageData_loop W (calcMaxNumReq (length data))
                 (unat (findMaxNumReq (word_of_nat (length data)))) PLDM_SUCCESS 0 32 []
                 (s\<lparr>expectedCmd := PLDM_GET_PACKAGE_DATA\<rparr>))"

fun sendMetaData_loop :: "fwu_world \<Rightarrow> nat \<Rightarrow> nat \<Rightarrow> int \<Rightarrow> nat \<Rightarrow> nat \<Rightarrow> u32 list \<Rightarrow> fwupdate
    \<Rightarrow> (int \<times> fwupdate) option" where
  "sendMetaData_loop W numExpectedRequests 0 retVal offset len recvdRequests s =
     Some (retVal, s\<lparr>expectedCmd := 0, fdReq := []\<rparr>)"
| "sendMetaData_loop W numExpectedRequests (Suc n) retVal offset len recvdRequests s = (
     let s = startTimer W 5000 s in
     if \<not> fdReqMatched s then Some (PLDM_ERROR, s\<lparr>expectedCmd := 0, fdReq := []\<rparr>)
     else do {
       (retVal, offset, len, recvdRequests, s) \<leftarrow> sendMetaData W offset len recvdRequests s;
       if retVal \<noteq> PLDM_SUCCESS then Some (retVal, s\<lparr>expectedCmd := 0, fdReq := []\<rparr>)
       else
         let s = s\<lparr>fdReq := [], fdReqMatched := False\<rparr> in
         if length recvdRequests = numExpectedRequests then Some (retVal, s\<lparr>expectedCmd := 0\<rparr>)
         else sendMetaData_loop W numExpectedRequests n retVal offset len recvdRequests
                (s\<lparr>expectedCmd := PLDM_GET_META_DATA\<rparr>) })"

definition processSendMetaData :: "fwu_world \<Rightarrow> fwupdate \<Rightarrow> (int \<times> fwupdate) option" where
  "processSendMetaData W s =
     (if fdState s = FD_LEARN_COMPONENTS \<or> fdState s = FD_IDLE then Some (COMMAND_NOT_EXPECTED, s)
      else if fwDeviceMetaDataLen s = 0 \<or> fwDeviceMetaData s = [] then Some (PLDM_SUCCESS, s)
      else
        let maxNumReq = findMaxNumReq (word_of_nat (length (fwDeviceMetaData s)));
            s = s\<lparr>expectedCmd := PLDM_GET_META_DATA\<rparr>
        in if maxNumReq = 0 then Some (PLDM_ERROR, s)
           else sendMetaData_loop W (calcMaxNumReq (length (fwDeviceMetaData s))) (unat maxNumReq)
                  PLDM_SUCCESS 0 32 [] s)"

end
