(* ===== verification/Fwu_Run.thy ===== *)
theory Fwu_Run
  imports Fwu_Transfer
begin

text \<open>
  A firmware update from end to end (pldmd/src/firmware\_update.cpp): \<open>runUpdate\<close> takes one
  device through its components, \<open>initUpdate\<close> all devices that the package matches, and
  \<open>StartFWUpdate\<close> is the D-Bus method that starts it.
\<close>

section \<open>One component\<close>

text \<open>After a failure the component is cancelled; the result of that is only logged.\<close>

definition cancel_component :: "fwu_world \<Rightarrow> int \<Rightarrow> fwupdate \<Rightarrow> (int \<times> fwupdate) option" where
  "cancel_component W retVal s = do {
     (ret, s) \<leftarrow> doCancelUpdateComponent W s;
     Some (retVal, s) }"

text \<open>
  The end of a component, its middle and the whole: the body of the loop of \<open>runUpdate\<close>. The
  result is the value of \<open>retVal\<close> after it.
\<close>

definition apply_phase :: "fwu_world \<Rightarrow> int \<Rightarrow> fwupdate \<Rightarrow> (int \<times> fwupdate) option" where
  "apply_phase W retVal s = (
     let s = startTimer W 5000 (s\<lparr>fdState := FD_APPLY, expectedCmd := PLDM_APPLY_COMPLETE\<rparr>) in
     if \<not> fdReqMatched s then Some (retVal, s)
     else do {
       let s = s\<lparr>fdReqMatched := False\<rparr>;
       (retVal, s) \<leftarrow> processApplyComplete W (fdReq s) s;
       if retVal \<noteq> PLDM_SUCCESS then Some (retVal, s)
       else Some (retVal, s\<lparr>isComponentAvailableForUpdate := True, fdState := FD_READY_XFER\<rparr>) })"

definition verify_phase :: "fwu_world \<Rightarrow> int \<Rightarrow> fwupdate \<Rightarrow> (int \<times> fwupdate) option" where
  "verify_phase W retVal s = (
     let s = startTimer W 5000 (s\<lparr>fdState := FD_VERIFY, expectedCmd := PLDM_VERIFY_COMPLETE\<rparr>) in
     if \<not> fdReqMatched s then Some (retVal, s)
     else do {
       let s = s\<lparr>fdReqMatched := False\<rparr>;
       (retVal, s) \<leftarrow> processVerifyComplete W (fdReq s) s;
       if retVal \<noteq> PLDM_SUCCESS then cancel_component W retVal s else apply_phase W retVal s })"

definition download_phase :: "fwu_world \<Rightarrow> fwupdate \<Rightarrow> (int \<times> fwupdate) option" where
  "download_phase W s = do {
     let s = s\<lparr>fdState := FD_DOWNLOAD, expectedCmd := PLDM_REQUEST_FIRMWARE_DATA\<rparr>;
     (retVal, s) \<leftarrow> processRequestFirmwareData W s;
     if retVal \<noteq> PLDM_SUCCESS then cancel_component W retVal s
     else do {
       s \<leftarrow> compUpdateProgress W s;
       (retVal, s) \<leftarrow> processTransferComplete W (fdReq s) s;
       if retVal \<noteq> PLDM_SUCCESS then cancel_component W retVal s else verify_phase W retVal s } }"

definition update_one_component :: "fwu_world \<Rightarrow> u16 \<Rightarrow> int \<Rightarrow> fwupdate \<Rightarrow> (int \<times> fwupdate) option" where
  "update_one_component W count retVal s = do {
     let s = s\<lparr>currentComp := count\<rparr>;
     applicable \<leftarrow> isComponentApplicable s;
     if \<not> applicable then do { s \<leftarrow> compUpdateProgress W s; Some (retVal, s) }
     else do {
       (retVal, compCompatabilityResp, s) \<leftarrow> processUpdateComponent W s;
       if retVal \<noteq> PLDM_SUCCESS then Some (retVal, s)
       else if compCompatabilityResp \<noteq> 0
       then do { s \<leftarrow> compUpdateProgress W s; Some (retVal, s) }
       else download_phase W s } }"

fun update_components :: "fwu_world \<Rightarrow> u16 list \<Rightarrow> int \<Rightarrow> fwupdate \<Rightarrow> (int \<times> fwupdate) option" where
  "update_components W [] retVal s = Some (retVal, s)"
| "update_components W (count # counts) retVal s = do {
     (retVal, s) \<leftarrow> update_one_component W count retVal s;
     update_components W counts retVal s }"

section \<open>One device\<close>

text \<open>
  What follows the components, what comes before them, and \<open>runUpdate\<close>. The timer at the end runs
  for 1000 ms plus the flag \<open>selfContainedActivationReq\<close>, that is 1001 ms.
\<close>

definition activate_phase :: "fwu_world \<Rightarrow> int \<Rightarrow> fwupdate \<Rightarrow> (int \<times> fwupdate) option" where
  "activate_phase W retVal s = (
     let s = release_reservation W s in
     if \<not> isComponentAvailableForUpdate s then Some (retVal, s)
     else do {
       (retVal, s) \<leftarrow> processActivateFirmware W 1 s;
       if retVal \<noteq> PLDM_SUCCESS then Some (retVal, s)
       else Some (PLDM_SUCCESS, triggerDeviceDiscovery (currentTid s) (startTimer W 1001 s)) })"

definition finish_update :: "fwu_world \<Rightarrow> int \<Rightarrow> fwupdate \<Rightarrow> (int \<times> fwupdate) option" where
  "finish_update W retVal s =
     (if fwDeviceMetaDataLen s \<noteq> 0
      then do {
        (retVal, s) \<leftarrow> processSendMetaData W s;
        if retVal \<noteq> PLDM_SUCCESS then Some (retVal, s) else activate_phase W retVal s }
      else activate_phase W retVal s)"

definition learn_phase :: "fwu_world \<Rightarrow> fwupdate \<Rightarrow> (int \<times> fwupdate) option" where
  "learn_phase W s = do {
     let s = s\<lparr>compCount := totalCompCount (pldmImg s)\<rparr>;
     (retVal, s) \<leftarrow> processRequestUpdate W s;
     if retVal \<noteq> PLDM_SUCCESS then Some (retVal, s)
     else do {
       let s = activateReserveBandwidth (createAsyncDelay W 500
                 (s\<lparr>updateMode := True, fdState := FD_LEARN_COMPONENTS\<rparr>));
       (retVal, s) \<leftarrow> processSendPackageData W s;
       if retVal \<noteq> PLDM_SUCCESS then Some (retVal, s)
       else do {
         (retVal, s) \<leftarrow> processGetDeviceMetaData W s;
         if retVal \<noteq> PLDM_SUCCESS then Some (retVal, s) else processPassComponentTable W s } } }"

definition runUpdate :: "fwu_world \<Rightarrow> fwupdate \<Rightarrow> (int \<times> fwupdate) option" where
  "runUpdate W s = do {
     (retVal, s) \<leftarrow> learn_phase W s;
     if retVal \<noteq> PLDM_SUCCESS then Some (retVal, s)
     else do {
       let s = s\<lparr>fdState := FD_READY_XFER\<rparr>;
       (retVal, s) \<leftarrow> update_components W (component_counts s) retVal s;
       finish_update W retVal s } }"

section \<open>All devices\<close>

text \<open>
  The global variables of the module. \<open>fwUpdate\<close> keeps the last update object; the base part of
  its state is that of the daemon when it runs.
\<close>

record fwu_globals =
  g_pldm :: pldm
  g_codec :: fw_codec
  g_image :: "pldm_img option"
  g_fwUpdate :: "fwupdate option"
  terminusFwuProperties :: "(tid \<times> fd_properties) list"

definition keep_update :: "fwupdate \<Rightarrow> fwu_globals \<Rightarrow> fwu_globals" where
  "keep_update s g = g\<lparr>g_pldm := pldm.truncate s, g_codec := codec s, g_image := Some (pldmImg s),
     g_fwUpdate := Some s\<rparr>"

definition setMatchedFDDescriptors :: "(tid \<times> fd_properties) list \<Rightarrow> fwupdate \<Rightarrow> bool \<times> fwupdate" where
  "setMatchedFDDescriptors termini s = (case map_of termini (currentTid s) of
     None \<Rightarrow> (False, s)
   | Some properties \<Rightarrow> (True, s\<lparr>targetFDProperties := properties\<rparr>))"

text \<open>
  The loop of \<open>initUpdate\<close> over the matched termini, with the variable \<open>fwUpdateStatus\<close>. The
  static \<open>updateMode\<close> that guards it is never set. \<open>uninit\<close> gives the indeterminate members
  of each object.
\<close>

fun update_termini :: "fwu_world \<Rightarrow> (tid \<Rightarrow> byte \<times> byte) \<Rightarrow> (byte \<times> tid) list \<Rightarrow> bool \<Rightarrow> fwu_globals
    \<Rightarrow> (bool \<times> fwu_globals) option" where
  "update_termini W uninit [] fwUpdateStatus g = Some (fwUpdateStatus, g)"
| "update_termini W uninit ((rcd, t) # matched) fwUpdateStatus g = do {
     img \<leftarrow> g_image g;
     let s = FWUpdate_ctor t rcd (fst (uninit t)) (snd (uninit t)) img (g_codec g) (g_pldm g);
     case setMatchedFDDescriptors (terminusFwuProperties g) s of (ok, s) \<Rightarrow>
       if \<not> ok then update_termini W uninit matched fwUpdateStatus (keep_update s g)
       else do {
         (retVal, s) \<leftarrow> runUpdate W s;
         if retVal \<noteq> PLDM_SUCCESS
         then do {
           s \<leftarrow> terminateFwUpdate W s;
           update_termini W uninit matched False (keep_update s g) }
         else update_termini W uninit matched fwUpdateStatus (keep_update s g) } }"

text \<open>Afterwards the image is dropped; without any update object its pointer is null.\<close>

definition initUpdate :: "fwu_world \<Rightarrow> (tid \<Rightarrow> byte \<times> byte) \<Rightarrow> fwu_globals \<Rightarrow> fwu_globals option" where
  "initUpdate W uninit g = do {
     img \<leftarrow> g_image g;
     (fwUpdateStatus, g) \<leftarrow> update_termini W uninit (matchedTermini img) True g;
     s \<leftarrow> g_fwUpdate g;
     let s = snd (wait_for (fwu_env W) (SetActivation fwUpdateStatus)
               (pldm.extend (g_pldm g) (pldm.more s)));
     Some ((keep_update s g)\<lparr>g_image := None\<rparr>) }"

text \<open>
  The method \<open>StartFWUpdate\<close>: its answer, and whether \<open>initUpdate\<close> is started. The argument is
  the content of the file when it can be opened.
\<close>

definition StartFWUpdate :: "byte list option \<Rightarrow> (nat \<Rightarrow> u16) \<Rightarrow> fwu_globals
    \<Rightarrow> (int \<times> bool \<times> fwu_globals) option" where
  "StartFWUpdate content uninit g =
     (if g_image g \<noteq> None then Some (-1, False, g)
      else case PLDMImg_ctor content of
        Inl e \<Rightarrow> Some (-1, False, g)
      | Inr img \<Rightarrow> do {
          (ok, img) \<leftarrow> processPkgHdr (terminusFwuProperties g) uninit img;
          Some (if ok then 0 else -1, True, g\<lparr>g_image := Some img\<rparr>) })"

end
