(* ===== verification/Fwu_Safety.thy ===== *)
theory Fwu_Safety
  imports Fwu_Run "HOL-Library.Sublist"
begin

unbundle bit_operations_syntax

text \<open>
  What the update agent guarantees whatever the devices and the rest of the daemon do: its
  invariants, and the order of the commands it sends. Events that reach the agent while it
  waits never touch the fields that \<open>frame\<close> collects, so an invariant over them and the calls
  only has to be kept by the agent's own steps: this is the locale \<open>agent_invariant\<close>.
\<close>

section \<open>What the events leave alone\<close>

lemma validateReq_frame [simp]:
  "isComponentAvailableForUpdate (validateReqForFWUpdCmd t tag req s) = isComponentAvailableForUpdate s"
  "currentTid (validateReqForFWUpdCmd t tag req s) = currentTid s"
  "updateMode (validateReqForFWUpdCmd t tag req s) = updateMode s"
  "fdState (validateReqForFWUpdCmd t tag req s) = fdState s"
  "pldmImg (validateReqForFWUpdCmd t tag req s) = pldmImg s"
  "codec (validateReqForFWUpdCmd t tag req s) = codec s"
  "currentComp (validateReqForFWUpdCmd t tag req s) = currentComp s"
  "compCount (validateReqForFWUpdCmd t tag req s) = compCount s"
  "updateProperties (validateReqForFWUpdCmd t tag req s) = updateProperties s"
  "completionCode (validateReqForFWUpdCmd t tag req s) = completionCode s"
  "applicableComponentsVal (validateReqForFWUpdCmd t tag req s) = applicableComponentsVal s"
  by (simp_all add: validateReqForFWUpdCmd_def Let_def)

lemma reserve_frame [simp]:
  "isComponentAvailableForUpdate (reserve_coroutine rc s) = isComponentAvailableForUpdate s"
  "currentTid (reserve_coroutine rc s) = currentTid s"
  "updateMode (reserve_coroutine rc s) = updateMode s"
  "fdState (reserve_coroutine rc s) = fdState s"
  "pldmImg (reserve_coroutine rc s) = pldmImg s"
  "codec (reserve_coroutine rc s) = codec s"
  "currentComp (reserve_coroutine rc s) = currentComp s"
  "compCount (reserve_coroutine rc s) = compCount s"
  "updateProperties (reserve_coroutine rc s) = updateProperties s"
  "completionCode (reserve_coroutine rc s) = completionCode s"
  "applicableComponentsVal (reserve_coroutine rc s) = applicableComponentsVal s"
  by (auto simp: reserve_coroutine_def reserveBandwidth_def wait_for_def split: option.splits)

lemma deliver_frame [simp]:
  "isComponentAvailableForUpdate (deliver e s) = isComponentAvailableForUpdate s"
  "currentTid (deliver e s) = currentTid s"
  "updateMode (deliver e s) = updateMode s"
  "fdState (deliver e s) = fdState s"
  "pldmImg (deliver e s) = pldmImg s"
  "codec (deliver e s) = codec s"
  "currentComp (deliver e s) = currentComp s"
  "compCount (deliver e s) = compCount s"
  "updateProperties (deliver e s) = updateProperties s"
  "completionCode (deliver e s) = completionCode s"
  "applicableComponentsVal (deliver e s) = applicableComponentsVal s"
  by (cases e; simp add: pldmMsgRecvFwUpdCallback_def activateReserveBandwidth_def split: option.splits)+

text \<open>A field that no event changes is the same after a wait.\<close>

lemma fold_deliver: "(\<And>e s. f (deliver e s) = f s) \<Longrightarrow> f (fold deliver es s) = f s"
  by (induction es arbitrary: s) auto

lemma wait_frame [simp]:
  "isComponentAvailableForUpdate (snd (wait_for (fwu_env W) c s)) = isComponentAvailableForUpdate s"
  "currentTid (snd (wait_for (fwu_env W) c s)) = currentTid s"
  "updateMode (snd (wait_for (fwu_env W) c s)) = updateMode s"
  "fdState (snd (wait_for (fwu_env W) c s)) = fdState s"
  "pldmImg (snd (wait_for (fwu_env W) c s)) = pldmImg s"
  "codec (snd (wait_for (fwu_env W) c s)) = codec s"
  "currentComp (snd (wait_for (fwu_env W) c s)) = currentComp s"
  "compCount (snd (wait_for (fwu_env W) c s)) = compCount s"
  "updateProperties (snd (wait_for (fwu_env W) c s)) = updateProperties s"
  "completionCode (snd (wait_for (fwu_env W) c s)) = completionCode s"
  "applicableComponentsVal (snd (wait_for (fwu_env W) c s)) = applicableComponentsVal s"
  by (simp_all add: wait_for_def fwu_env_def fold_deliver)

lemma wait_calls [simp]: "calls (snd (wait_for w c s)) = calls s @ [c]"
  by (simp add: wait_for_def split: prod.splits)

section \<open>Invariants of the agent\<close>

text \<open>The request ActivateFirmware, with its MCTP message type.\<close>

definition is_activate :: "ext_call \<Rightarrow> bool" where
  "is_activate c = (case c of
     SendReceive d t p \<Rightarrow> length p \<ge> 4 \<and> p ! 0 = 1 \<and> p ! 2 = PLDM_FWUP \<and> p ! 3 = PLDM_ACTIVATE_FIRMWARE
   | _ \<Rightarrow> False)"

text \<open>Every other request of the agent, as it is sent and after retries that lost bytes.\<close>

definition plain_request :: "byte list \<Rightarrow> bool" where
  "plain_request req \<longleftrightarrow>
     (\<exists>b c rest. req = b # PLDM_FWUP # c # rest \<and> bit b 7 \<and> c \<noteq> PLDM_ACTIVATE_FIRMWARE)"

lemma plain_request_no_activate:
  assumes "plain_request req" "k < 3"
  shows "\<not> is_activate (SendReceive d t (drop k (1 # req)))"
proof -
  from assms(1) obtain b c rest where r: "req = b # PLDM_FWUP # c # rest" "bit b 7"
    "c \<noteq> PLDM_ACTIVATE_FIRMWARE" by (auto simp: plain_request_def)
  from r(2) have "b \<noteq> 1" by auto
  with r(1,3) assms(2) show ?thesis
    by (auto simp: is_activate_def PLDM_FWUP_def less_Suc_eq numeral_3_eq_3)
qed

lemma request_header:
  assumes "encode_pldm_header i PLDM_FWUP c PLDM_REQUEST = Inr hdr"
  shows "\<exists>b. hdr = [b, PLDM_FWUP, c] \<and> bit b 7"
  using assms by (auto simp: encode_pldm_header_def pack_pldm_header_def PLDM_FWUP_def
      PLDM_REQUEST_def PLDM_RESPONSE_def PLDM_ASYNC_REQUEST_NOTIFY_def bit_or_iff split: if_splits)

lemma plain_encoders:
  "encode_request_update_req i n d v = Inr req \<Longrightarrow> plain_request req"
  "encode_get_device_meta_data_req i h f = Inr req \<Longrightarrow> plain_request req"
  "encode_pass_component_table_req i n d2 v = Inr req \<Longrightarrow> plain_request req"
  "encode_update_component_req i n d3 v = Inr req \<Longrightarrow> plain_request req"
  "encode_get_status_req i = Inr req \<Longrightarrow> plain_request req"
  "encode_cancel_update_component_req i = Inr req \<Longrightarrow> plain_request req"
  "encode_cancel_update_req i = Inr req \<Longrightarrow> plain_request req"
  by (auto simp: plain_request_def encode_request_update_req_def encode_get_device_meta_data_req_def
      encode_pass_component_table_req_def encode_update_component_req_def encode_get_status_req_def
      encode_cancel_update_component_req_def encode_cancel_update_req_def
      encode_header_only_request_def fwu_commands
      dest!: request_header [unfolded PLDM_FWUP_def] split: if_splits sum.splits)

locale agent_invariant =
  fixes I :: "fwupdate \<Rightarrow> bool"
  assumes depends: "calls s = calls s' \<Longrightarrow>
      isComponentAvailableForUpdate s = isComponentAvailableForUpdate s' \<Longrightarrow> I s = I s'"
    and grows: "I s \<Longrightarrow> \<not> is_activate c \<Longrightarrow> I (s\<lparr>calls := calls s @ [c]\<rparr>)"
begin

lemma wait_inv: "I s \<Longrightarrow> \<not> is_activate c \<Longrightarrow> I (snd (wait_for (fwu_env W) c s))"
  using depends [of "snd (wait_for (fwu_env W) c s)" "s\<lparr>calls := calls s @ [c]\<rparr>"] grows by simp

lemma wait_pair_inv: "I s \<Longrightarrow> \<not> is_activate c \<Longrightarrow> wait_for (fwu_env W) c s = (a, s') \<Longrightarrow> I s'"
  using wait_inv [of s c W] by simp

lemma updates [simp]:
  "I (s\<lparr>expectedCmd := a1\<rparr>) = I s" "I (s\<lparr>fdReq := a2\<rparr>) = I s" "I (s\<lparr>fdReqMatched := a3\<rparr>) = I s"
  "I (s\<lparr>isReserveBandwidthActive := a4\<rparr>) = I s" "I (s\<lparr>reserveBWTimer := a5\<rparr>) = I s"
  "I (s\<lparr>reserving := a6\<rparr>) = I s" "I (s\<lparr>updateMode := a7\<rparr>) = I s" "I (s\<lparr>fdState := a8\<rparr>) = I s"
  "I (s\<lparr>fwDeviceMetaDataLen := a9\<rparr>) = I s" "I (s\<lparr>currentComp := b1\<rparr>) = I s"
  "I (s\<lparr>compCount := b2\<rparr>) = I s" "I (s\<lparr>fdWillSendGetPkgDataCmd := b3\<rparr>) = I s"
  "I (s\<lparr>applicableComponentsVal := b4\<rparr>) = I s" "I (s\<lparr>fdStatus := b5\<rparr>) = I s"
  "I (s\<lparr>fdTransferCompleted := b6\<rparr>) = I s" "I (s\<lparr>componentImageSetVersionString := b7\<rparr>) = I s"
  "I (s\<lparr>completionCode := b8\<rparr>) = I s" "I (s\<lparr>updateProperties := b9\<rparr>) = I s"
  "I (s\<lparr>packageData := c1\<rparr>) = I s" "I (s\<lparr>fwDeviceMetaData := c2\<rparr>) = I s"
  "I (s\<lparr>pldmImg := c3\<rparr>) = I s" "I (s\<lparr>codec := c4\<rparr>) = I s" "I (s\<lparr>passCompCount := c5\<rparr>) = I s"
  "I (s\<lparr>instanceMap := c6\<rparr>) = I s" "I (s\<lparr>rsvBWActive := c7\<rparr>) = I s"
  "I (s\<lparr>reservedTID := c8\<rparr>) = I s" "I (s\<lparr>reservedPLDMType := c9\<rparr>) = I s"
  by (rule depends; simp)+

lemma startTimer_inv: "I s \<Longrightarrow> I (startTimer W n s)"
  unfolding startTimer_def by (rule wait_inv) (simp_all add: is_activate_def)

lemma createAsyncDelay_inv: "I s \<Longrightarrow> I (createAsyncDelay W n s)"
  unfolding createAsyncDelay_def by (rule wait_inv) (simp_all add: is_activate_def)

lemma instance_inv: "createInstanceId_pldm t s = (i, s') \<Longrightarrow> I s' = I s"
  by (auto simp: createInstanceId_pldm_def Let_def)

lemma appended_inv:
  assumes "I s" "calls s' = calls s @ cs" "list_all (\<lambda>c. \<not> is_activate c) cs"
    "isComponentAvailableForUpdate s' = isComponentAvailableForUpdate s"
  shows "I s'"
proof -
  have "I (s\<lparr>calls := calls s @ cs\<rparr>)"
    using assms(3)
  proof (induction cs rule: rev_induct)
    case Nil
    have "I (s\<lparr>calls := calls s @ []\<rparr>) = I s" by (rule depends) simp_all
    with assms(1) show ?case by simp
  next
    case (snoc c cs)
    then have "I (s\<lparr>calls := calls s @ cs\<rparr>)" "\<not> is_activate c" by auto
    from grows [OF this] show ?case by simp
  qed
  with assms(2,4) depends [of s' "s\<lparr>calls := calls s @ cs\<rparr>"] show ?thesis by simp
qed

lemma request_inv:
  assumes "I s" "\<And>d k. k < 3 \<Longrightarrow> \<not> is_activate (SendReceive d 100 (drop k (1 # req)))"
  shows "always (\<lambda>r. I (snd (snd r))) (request W req s)"
proof -
  have "I s'" if r: "request W req s = Some (ok, resp, s')" for ok resp s'
  proof -
    from r have x: "sendReceivePldmMessage (fwu_env W) (currentTid s) 100 3 req [] None s = Some (ok, resp, s')"
      by (simp add: request_def)
    from sendReceive_calls [OF x] obtain cs where
      "calls s' = calls s @ cs" "list_all (\<lambda>c. \<not> is_activate c) cs"
      using assms(2) by (fastforce simp: list_all_iff mctp_type_pldm_def)
    moreover have "isComponentAvailableForUpdate s' = isComponentAvailableForUpdate s"
      by (rule sendReceive_frame [OF _ x]) simp
    ultimately show ?thesis using appended_inv assms(1) by blast
  qed
  then show ?thesis by (auto simp: always_def)
qed

lemma respond_inv:
  assumes "I s" shows "always (\<lambda>r. I (snd r)) (respond W msg s)"
proof -
  have "I s'" if r: "respond W msg s = Some (ok, s')" for ok s'
  proof -
    from r have x: "sendPldmMessage (fwu_env W) (currentTid s) 3 (msgTag s) False msg s = Some (ok, s')"
      by (simp add: respond_def)
    have "isComponentAvailableForUpdate s' = isComponentAvailableForUpdate s"
      by (rule sendPldmMessage_frame [OF _ x]) simp
    with sendPldmMessage_calls [OF x] assms show ?thesis
      by (auto intro!: appended_inv [of s] simp: is_activate_def list_all_iff)
  qed
  then show ?thesis by (auto simp: always_def)
qed

lemma plain_request_inv:
  "I s \<Longrightarrow> plain_request req \<Longrightarrow> always (\<lambda>r. I (snd (snd r))) (request W req s)"
  by (rule request_inv) (auto dest: plain_request_no_activate)

lemma sendErrorCompletionCode_inv:
  "I s \<Longrightarrow> always (\<lambda>r. I (snd r)) (sendErrorCompletionCode W i cc c s)"
  by (auto simp: sendErrorCompletionCode_def intro: respond_inv split: sum.splits)

lemma refuse_inv: "I s \<Longrightarrow> always (\<lambda>r. I (snd r)) (refuse W req rc c s)"
  unfolding refuse_def
  by (auto intro!: always_any [where m = "req_instance req"] always_bind [OF sendErrorCompletionCode_inv])

lemma answer_with_inv: "I s \<Longrightarrow> always (\<lambda>r. I (snd r)) (answer_with W resp s)"
  unfolding answer_with_def by (auto split: sum.splits intro!: always_bind [OF respond_inv])

lemma requestUpdate_loop_inv:
  "I s \<Longrightarrow> plain_request req \<Longrightarrow> always (\<lambda>r. I (snd r)) (requestUpdate_loop W req n retVal s)"
proof (induction n arbitrary: retVal s)
  case (Suc n)
  then show ?case
    by (auto simp: Let_def createAsyncDelay_inv split: option.splits
        intro!: always_bind [OF plain_request_inv]
          always_any [where m = "decode_request_update_resp x" for x])
qed simp

lemma requestUpdate_inv: "I s \<Longrightarrow> always (\<lambda>r. I (snd r)) (requestUpdate W v s)"
  unfolding requestUpdate_def
  by (auto simp: instance_inv split: prod.splits sum.splits
      intro!: always_bind [OF requestUpdate_loop_inv] plain_encoders(1))

lemma prepareRequestUpdateCommand_inv:
  "prepareRequestUpdateCommand s = (ok, s') \<Longrightarrow> I s' = I s"
  by (auto simp: prepareRequestUpdateCommand_def Let_def split: option.splits)

lemma processRequestUpdate_inv: "I s \<Longrightarrow> always (\<lambda>r. I (snd r)) (processRequestUpdate W s)"
  unfolding processRequestUpdate_def
  by (auto simp: prepareRequestUpdateCommand_inv requestUpdate_inv split: prod.splits)

lemma getDeviceMetaData_inv:
  "I s \<Longrightarrow> always (\<lambda>r. I (snd (snd r))) (getDeviceMetaData W h f s)"
  unfolding getDeviceMetaData_def
  by (auto simp: instance_inv Let_def split: prod.splits sum.splits option.splits
      intro!: always_bind [OF plain_request_inv] plain_encoders(2)
        always_any [where m = "decode_get_device_meta_data_resp x" for x])

lemma metaData_loop_inv: "I s \<Longrightarrow> always (\<lambda>r. I (snd r)) (metaData_loop W n h f nf s)"
proof (induction n arbitrary: h f nf s)
  case (Suc n)
  then show ?case
    by (auto split: option.splits intro!: always_bind [OF getDeviceMetaData_inv])
qed simp

lemma processGetDeviceMetaData_inv:
  "I s \<Longrightarrow> always (\<lambda>r. I (snd r)) (processGetDeviceMetaData W s)"
  unfolding processGetDeviceMetaData_def by (simp add: metaData_loop_inv)

lemma preparePassComponentRequest_inv:
  "preparePassComponentRequest c s = (d, s') \<Longrightarrow> I s' = I s"
  by (auto simp: preparePassComponentRequest_def initPassComponentTableTransferFlag_def Let_def
      split: option.splits prod.splits if_splits)

lemma passComponentTable_inv:
  "I s \<Longrightarrow> always (\<lambda>r. I (snd r)) (passComponentTable W d v s)"
  unfolding passComponentTable_def
  by (auto simp: instance_inv Let_def split: prod.splits sum.splits
      intro!: always_bind [OF plain_request_inv] plain_encoders(3)
        always_any [where m = "decode_pass_component_table_resp x" for x])

lemma passComponentTable_loop_inv:
  "I s \<Longrightarrow> always (\<lambda>r. I (snd r)) (passComponentTable_loop W cs n s)"
proof (induction cs arbitrary: n s)
  case (Cons c cs)
  then show ?case
    by (auto simp: Let_def preparePassComponentRequest_inv createAsyncDelay_inv
        split: prod.splits option.splits
        intro!: always_bind [OF passComponentTable_inv]
          always_any [where m = "isComponentApplicable x" for x])
qed simp

lemma processPassComponentTable_inv:
  "I s \<Longrightarrow> always (\<lambda>r. I (snd r)) (processPassComponentTable W s)"
  unfolding processPassComponentTable_def by (simp add: passComponentTable_loop_inv)

lemma updateComponent_inv:
  "I s \<Longrightarrow> always (\<lambda>r. I (snd (snd r))) (updateComponent W d v s)"
  unfolding updateComponent_def
  by (auto simp: instance_inv Let_def split: prod.splits sum.splits option.splits
      intro!: always_bind [OF plain_request_inv] plain_encoders(4)
        always_any [where m = "decode_update_component_resp x" for x])

lemma processUpdateComponent_inv:
  "I s \<Longrightarrow> always (\<lambda>r. I (snd (snd r))) (processUpdateComponent W s)"
  unfolding processUpdateComponent_def by (simp add: updateComponent_inv split: option.split)

lemma transferComplete_inv: "I s \<Longrightarrow> always (\<lambda>r. I (snd r)) (transferComplete W req s)"
  unfolding transferComplete_def
  by (auto simp: Let_def refuse_inv answer_with_inv split: option.splits
      intro!: always_any [where m = "decode_transfer_complete_req x" for x]
        always_any [where m = "req_instance x" for x])

lemma verifyComplete_inv: "I s \<Longrightarrow> always (\<lambda>r. I (snd r)) (verifyComplete W req s)"
  unfolding verifyComplete_def
  by (auto simp: Let_def refuse_inv answer_with_inv split: option.splits
      intro!: always_any [where m = "decode_verify_complete_req x" for x]
        always_any [where m = "req_instance x" for x])

lemma applyComplete_inv: "I s \<Longrightarrow> always (\<lambda>r. I (snd r)) (applyComplete W req s)"
  unfolding applyComplete_def
  by (auto simp: Let_def refuse_inv answer_with_inv split: option.splits prod.splits
      intro!: always_any [where m = "req_instance x" for x])

lemma completes_inv:
  "I s \<Longrightarrow> always (\<lambda>r. I (snd r)) (processTransferComplete W req s)"
  "I s \<Longrightarrow> always (\<lambda>r. I (snd r)) (processVerifyComplete W req s)"
  "I s \<Longrightarrow> always (\<lambda>r. I (snd r)) (processApplyComplete W req s)"
  by (simp_all add: processTransferComplete_def processVerifyComplete_def processApplyComplete_def
      refuse_inv transferComplete_inv verifyComplete_inv applyComplete_inv)

lemma getStatus_inv: "I s \<Longrightarrow> always (\<lambda>r. I (snd r)) (getStatus W s)"
  unfolding getStatus_def
  by (auto simp: instance_inv Let_def split: prod.splits sum.splits option.splits
      intro!: always_bind [OF plain_request_inv] plain_encoders(5)
        always_any [where m = "decode_get_status_resp x" for x])

lemma cancelUpdateComponent_inv:
  "I s \<Longrightarrow> always (\<lambda>r. I (snd r)) (cancelUpdateComponent W s)"
  unfolding cancelUpdateComponent_def
  by (auto simp: instance_inv Let_def split: prod.splits sum.splits option.splits
      intro!: always_bind [OF plain_request_inv] plain_encoders(6))

lemma doCancelUpdateComponent_inv:
  "I s \<Longrightarrow> always (\<lambda>r. I (snd r)) (doCancelUpdateComponent W s)"
  unfolding doCancelUpdateComponent_def
  by (auto intro!: always_bind [OF cancelUpdateComponent_inv])

lemma cancelUpdate_inv: "I s \<Longrightarrow> always (\<lambda>r. I (snd r)) (cancelUpdate W s)"
  unfolding cancelUpdate_def
  by (auto simp: instance_inv Let_def split: prod.splits sum.splits
      intro!: always_bind [OF plain_request_inv] plain_encoders(7)
        always_any [where m = "decode_cancel_update_resp x" for x])

lemma doCancelUpdate_inv: "I s \<Longrightarrow> always (\<lambda>r. I (snd r)) (doCancelUpdate W s)"
  unfolding doCancelUpdate_def by (auto intro!: always_bind [OF cancelUpdate_inv])

lemma compUpdateProgress_inv: "I s \<Longrightarrow> always I (compUpdateProgress W s)"
  by (auto simp: compUpdateProgress_def is_activate_def intro: wait_inv)

lemma release_reservation_inv: "I s \<Longrightarrow> I (release_reservation W s)"
  by (auto simp: release_reservation_def releaseBandwidth_def cancelReserveBWTimer_def
      split: option.split prod.split)
     (erule wait_pair_inv [rotated 2]; simp add: is_activate_def)+

lemma requestFirmwareData_inv:
  "I s \<Longrightarrow> always (\<lambda>r. I (snd (snd (snd r)))) (requestFirmwareData W req off len sz cof s)"
  unfolding requestFirmwareData_def
  by (auto simp: Let_def split: prod.splits option.splits
      intro!: always_bind [OF refuse_inv] always_bind [OF answer_with_inv]
        always_any [where m = "req_instance x" for x])

lemma requestFirmwareData_loop_inv:
  "I s \<Longrightarrow> always (\<lambda>r. I (snd r)) (requestFirmwareData_loop W sz cof n retVal off len s)"
proof (induction n arbitrary: retVal off len s)
  case (Suc n)
  then show ?case
    by (auto simp: Let_def startTimer_inv intro!: always_bind [OF requestFirmwareData_inv])
qed simp

lemma processRequestFirmwareData_inv:
  "I s \<Longrightarrow> always (\<lambda>r. I (snd r)) (processRequestFirmwareData W s)"
  unfolding processRequestFirmwareData_def
  by (auto split: option.splits intro!: requestFirmwareData_loop_inv)

lemma send_portion_inv:
  "I s \<Longrightarrow> always (\<lambda>r. I (snd (snd (snd (snd r))))) (send_portion W c data off len recvd s)"
  unfolding send_portion_def
  by (auto simp: Let_def split: prod.splits option.splits
      intro!: always_bind [OF refuse_inv] always_bind [OF answer_with_inv]
        always_any [where m = "req_instance x" for x]
        always_any [where m = "decode_firmware_device_data_req x n" for x n])

lemma sendPackageData_loop_inv:
  "I s \<Longrightarrow> always (\<lambda>r. I (snd r)) (sendPackageData_loop W m n retVal off len recvd s)"
proof (induction n arbitrary: retVal off len recvd s)
  case (Suc n)
  then show ?case
    by (auto simp: Let_def startTimer_inv sendPackageData_def intro!: always_bind [OF send_portion_inv])
qed simp

lemma sendMetaData_loop_inv:
  "I s \<Longrightarrow> always (\<lambda>r. I (snd r)) (sendMetaData_loop W m n retVal off len recvd s)"
proof (induction n arbitrary: retVal off len recvd s)
  case (Suc n)
  then show ?case
    by (auto simp: Let_def startTimer_inv sendMetaData_def intro!: always_bind [OF send_portion_inv])
qed simp

lemma process_data_inv:
  "I s \<Longrightarrow> always (\<lambda>r. I (snd r)) (processSendPackageData W s)"
  "I s \<Longrightarrow> always (\<lambda>r. I (snd r)) (processSendMetaData W s)"
  unfolding processSendPackageData_def processSendMetaData_def
  by (auto simp: Let_def split: option.splits intro!: sendPackageData_loop_inv sendMetaData_loop_inv)

lemma cancel_component_inv: "I s \<Longrightarrow> always (\<lambda>r. I (snd r)) (cancel_component W rc s)"
  unfolding cancel_component_def by (auto intro!: always_bind [OF doCancelUpdateComponent_inv])

lemma activateReserveBandwidth_inv: "I (activateReserveBandwidth s) = I s"
  by (simp add: activateReserveBandwidth_def)

end

section \<open>Nothing is activated that was not completed\<close>

text \<open>Calls that satisfy the given conditions occur in this order.\<close>

definition in_order :: "(ext_call \<Rightarrow> bool) list \<Rightarrow> ext_call list \<Rightarrow> bool" where
  "in_order Ps cs \<longleftrightarrow> (\<exists>xs. subseq xs cs \<and> list_all2 (\<lambda>P x. P x) Ps xs)"

lemma in_order_append: "in_order Ps cs \<Longrightarrow> in_order Qs ds \<Longrightarrow> in_order (Ps @ Qs) (cs @ ds)"
  unfolding in_order_def by (metis list_emb_append_mono list_all2_appendI)

lemma in_order_Nil [simp]: "in_order [] cs"
  by (auto simp: in_order_def)

lemma in_order_one: "c \<in> set cs \<Longrightarrow> P c \<Longrightarrow> in_order [P] cs"
  unfolding in_order_def by (intro exI [of _ "[c]"]) (simp add: subseq_singleton_left)

lemma in_order_more: "in_order Ps cs \<Longrightarrow> in_order Ps (cs @ ds)"
  using in_order_append [of Ps cs "[]" ds] by simp

lemma in_order_later: "in_order Ps ds \<Longrightarrow> in_order Ps (cs @ ds)"
  using in_order_append [of "[]" cs Ps ds] by simp

text \<open>The agent's answer to a request of the device: the command with a completion code.\<close>

definition answers :: "byte \<Rightarrow> byte \<Rightarrow> ext_call \<Rightarrow> bool" where
  "answers command cc c \<longleftrightarrow> (\<exists>d tag i. c = SendMsg d tag False [1, i, PLDM_FWUP, command, cc])"

text \<open>The three answers of a component that went through.\<close>

definition completed :: "ext_call list \<Rightarrow> bool" where
  "completed cs \<longleftrightarrow> (\<exists>cc. in_order [answers PLDM_TRANSFER_COMPLETE 0, answers PLDM_VERIFY_COMPLETE 0,
     answers PLDM_APPLY_COMPLETE cc] cs)"

definition nothing_activated :: "nat \<Rightarrow> fwupdate \<Rightarrow> bool" where
  "nothing_activated n s \<longleftrightarrow> n \<le> length (calls s) \<and> list_all (\<lambda>c. \<not> is_activate c) (drop n (calls s))
     \<and> (isComponentAvailableForUpdate s \<longrightarrow> completed (drop n (calls s)))"

interpretation unactivated: agent_invariant "nothing_activated n"
  by unfold_locales (auto simp: nothing_activated_def completed_def intro: in_order_more)

definition so_far :: "nat \<Rightarrow> (ext_call \<Rightarrow> bool) list \<Rightarrow> fwupdate \<Rightarrow> bool" where
  "so_far n Ps s \<longleftrightarrow> nothing_activated n s \<and> in_order Ps (drop n (calls s))"

interpretation progress: agent_invariant "so_far n Ps"
proof unfold_locales
  fix s s' :: fwupdate
  assume "calls s = calls s'" "isComponentAvailableForUpdate s = isComponentAvailableForUpdate s'"
  then show "so_far n Ps s = so_far n Ps s'"
    using unactivated.depends [of s s' n] by (simp add: so_far_def)
next
  fix s c
  assume "so_far n Ps s" "\<not> is_activate c"
  then show "so_far n Ps (s\<lparr>calls := calls s @ [c]\<rparr>)"
    using unactivated.grows [of n s c] by (auto simp: so_far_def nothing_activated_def intro: in_order_more)
qed

lemma so_far_weaken: "so_far n Ps s \<Longrightarrow> nothing_activated n s"
  by (simp add: so_far_def)

lemma nothing_activated_so_far: "nothing_activated n s = so_far n [] s"
  by (simp add: so_far_def)

lemma cc_only_message:
  "encode_cc_only_resp i PLDM_FWUP cmd cc = Inr msg \<Longrightarrow> \<exists>b. msg = [b, PLDM_FWUP, cmd, cc]"
  by (auto simp: encode_cc_only_resp_def encode_pldm_header_def pack_pldm_header_def PLDM_FWUP_def
      split: if_splits)

lemma answered:
  assumes "so_far n Ps s"
  shows "always (\<lambda>r. nothing_activated n (snd r)
      \<and> (fst r = PLDM_SUCCESS \<longrightarrow> so_far n (Ps @ [answers cmd cc]) (snd r)))
    (answer_with W (encode_cc_only_resp i PLDM_FWUP cmd cc) s)"
proof (cases "encode_cc_only_resp i PLDM_FWUP cmd cc")
  case (Inl rc)
  with assms have "rc \<noteq> PLDM_SUCCESS"
    by (auto simp: encode_cc_only_resp_def encode_pldm_header_def pack_pldm_header_def pldm_rcs
        split: if_splits)
  with Inl assms show ?thesis by (simp add: answer_with_def so_far_weaken)
next
  case (Inr msg)
  then obtain b where msg: "msg = [b, PLDM_FWUP, cmd, cc]" using cc_only_message by blast
  have "so_far n (Ps @ [answers cmd cc]) s'" if r: "respond W msg s = Some (True, s')" for s'
  proof -
    from r have x: "sendPldmMessage (fwu_env W) (currentTid s) 3 (msgTag s) False msg s = Some (True, s')"
      by (simp add: respond_def)
    from sendPldmMessage_calls [OF x] obtain d k where "0 < k"
      "calls s' = calls s @ replicate k (SendMsg d (msgTag s) False (1 # msg))"
      by (auto simp: mctp_type_pldm_def)
    moreover from this have "in_order [answers cmd cc] (replicate k (SendMsg d (msgTag s) False (1 # msg)))"
      by (intro in_order_one [of "SendMsg d (msgTag s) False (1 # msg)"]) (auto simp: answers_def msg)
    moreover have "so_far n Ps s'"
      using progress.respond_inv [OF assms, of W msg] r by simp
    ultimately show ?thesis
      using assms in_order_append [of Ps "drop n (calls s)"]
      by (auto simp: so_far_def nothing_activated_def)
  qed
  moreover have "nothing_activated n s'" if "respond W msg s = Some (ok, s')" for ok s'
    using progress.respond_inv [OF assms, of W msg] that by (simp add: so_far_weaken)
  ultimately show ?thesis
    using Inr by (auto simp: answer_with_def always_def pldm_rcs split: bind_splits)
qed

lemma refused:
  assumes "so_far n Ps s" "rc \<noteq> PLDM_SUCCESS"
  shows "always (\<lambda>r. nothing_activated n (snd r)
      \<and> (fst r = PLDM_SUCCESS \<longrightarrow> so_far n Qs (snd r))) (refuse W req rc cmd s)"
proof -
  have "always (\<lambda>r. so_far n Ps (snd r)) (refuse W req rc cmd s)"
    using assms(1) by (rule progress.refuse_inv)
  then show ?thesis
    using assms(2) by (auto simp: always_def refuse_def so_far_weaken split: bind_splits)
qed

definition complete_or_not :: "nat \<Rightarrow> (ext_call \<Rightarrow> bool) list \<Rightarrow> int \<times> fwupdate \<Rightarrow> bool" where
  "complete_or_not n Ps r \<longleftrightarrow> nothing_activated n (snd r) \<and> (fst r = PLDM_SUCCESS \<longrightarrow> so_far n Ps (snd r))"

lemma transfer_answered:
  "so_far n Ps s \<Longrightarrow> always (complete_or_not n (Ps @ [answers PLDM_TRANSFER_COMPLETE 0]))
     (processTransferComplete W req s)"
  using answered [where cmd = PLDM_TRANSFER_COMPLETE and cc = 0]
    refused [where cmd = PLDM_TRANSFER_COMPLETE]
  by (auto simp: processTransferComplete_def transferComplete_def complete_or_not_def [abs_def]
      encode_transfer_complete_resp_def validateTransferComplete_def fwu_rcs
      decode_transfer_complete_req_def Let_def split: if_splits option.splits prod.splits
      intro!: always_any [where m = "payload_at x i" for x i] always_any [where m = "req_instance x" for x])

lemma verify_answered:
  "so_far n Ps s \<Longrightarrow> always (complete_or_not n (Ps @ [answers PLDM_VERIFY_COMPLETE 0]))
     (processVerifyComplete W req s)"
  using answered [where cmd = PLDM_VERIFY_COMPLETE and cc = 0]
    refused [where cmd = PLDM_VERIFY_COMPLETE]
  by (auto simp: processVerifyComplete_def verifyComplete_def complete_or_not_def [abs_def]
      encode_verify_complete_resp_def validateVerifyComplete_def fwu_rcs
      decode_verify_complete_req_def Let_def split: if_splits option.splits prod.splits
      intro!: always_any [where m = "payload_at x i" for x i] always_any [where m = "req_instance x" for x])

lemma apply_answered:
  "so_far n Ps s \<Longrightarrow> always (\<lambda>r. \<exists>cc. complete_or_not n (Ps @ [answers PLDM_APPLY_COMPLETE cc]) r)
     (processApplyComplete W req s)"
proof (cases "updateMode s \<and> fdState s = FD_APPLY \<and> snd (decode_apply_complete_req req) \<noteq> None")
  case True
  assume s: "so_far n Ps s"
  from True obtain retVal a m where d: "decode_apply_complete_req req = (retVal, Some (a, m))"
    by (cases "decode_apply_complete_req req") auto
  show ?thesis
    using True d answered [OF s, where cmd = PLDM_APPLY_COMPLETE]
    by (auto simp: processApplyComplete_def applyComplete_def complete_or_not_def
        encode_apply_complete_resp_def always_def split: bind_splits) metis+
next
  case False
  assume s: "so_far n Ps s"
  define rc where "rc = (if updateMode s \<and> fdState s = FD_APPLY
    then fst (decode_apply_complete_req req) else COMMAND_NOT_EXPECTED)"
  have rc: "rc \<noteq> PLDM_SUCCESS" "processApplyComplete W req s = refuse W req rc PLDM_APPLY_COMPLETE s"
    using False by (auto simp: rc_def processApplyComplete_def applyComplete_def
        decode_apply_complete_req_def fwu_rcs split: if_splits)
  with refused [OF s rc(1)] show ?thesis
    by (auto simp: complete_or_not_def always_def)
qed

lemma apply_phase_safe:
  assumes "so_far n [answers PLDM_TRANSFER_COMPLETE 0, answers PLDM_VERIFY_COMPLETE 0] s"
  shows "always (\<lambda>r. nothing_activated n (snd r)) (apply_phase W rc s)"
proof -
  let ?Ps = "[answers PLDM_TRANSFER_COMPLETE 0, answers PLDM_VERIFY_COMPLETE 0]"
  have finished: "nothing_activated n (t\<lparr>isComponentAvailableForUpdate := True\<rparr>)"
    if "so_far n (?Ps @ [answers PLDM_APPLY_COMPLETE cc]) t" for t cc
    using that by (auto simp: so_far_def nothing_activated_def completed_def)
  show ?thesis
    unfolding apply_phase_def
    using assms
    by (auto simp: Let_def complete_or_not_def finished progress.startTimer_inv
        intro: so_far_weaken [OF progress.startTimer_inv] intro!: always_bind [OF apply_answered [of n ?Ps]])
qed

lemma verify_phase_safe:
  assumes "so_far n [answers PLDM_TRANSFER_COMPLETE 0] s"
  shows "always (\<lambda>r. nothing_activated n (snd r)) (verify_phase W rc s)"
  unfolding verify_phase_def
  using assms
  by (auto simp: Let_def complete_or_not_def progress.startTimer_inv
      intro: so_far_weaken [OF progress.startTimer_inv] intro!: always_bind [OF verify_answered [of n "[answers PLDM_TRANSFER_COMPLETE 0]"]]
        unactivated.cancel_component_inv apply_phase_safe)

lemma download_phase_safe:
  assumes "nothing_activated n s"
  shows "always (\<lambda>r. nothing_activated n (snd r)) (download_phase W s)"
  unfolding download_phase_def
  using assms
  by (auto simp: Let_def nothing_activated_so_far [symmetric] complete_or_not_def
      intro!: always_bind [OF unactivated.processRequestFirmwareData_inv]
        always_bind [OF unactivated.compUpdateProgress_inv]
        always_bind [OF transfer_answered [of n "[]", folded nothing_activated_so_far]]
        unactivated.cancel_component_inv verify_phase_safe)

lemma update_one_component_safe:
  assumes "nothing_activated n s"
  shows "always (\<lambda>r. nothing_activated n (snd r)) (update_one_component W c rc s)"
  unfolding update_one_component_def
  using assms
  by (auto simp: Let_def intro!: download_phase_safe always_any [where m = "isComponentApplicable x" for x]
        always_bind [OF unactivated.compUpdateProgress_inv]
        always_bind [OF unactivated.processUpdateComponent_inv])

lemma update_components_safe:
  "nothing_activated n s \<Longrightarrow> always (\<lambda>r. nothing_activated n (snd r)) (update_components W cs rc s)"
proof (induction cs arbitrary: rc s)
  case (Cons c cs)
  then show ?case by (auto intro!: always_bind [OF update_one_component_safe])
qed simp

text \<open>Once something may be activated it stays allowed.\<close>

definition rightly_activated :: "nat \<Rightarrow> fwupdate \<Rightarrow> bool" where
  "rightly_activated n s \<longleftrightarrow> n \<le> length (calls s) \<and>
     (\<forall>pre c post. drop n (calls s) = pre @ c # post \<longrightarrow> is_activate c \<longrightarrow> completed pre)"

lemma nothing_is_right: "nothing_activated n s \<Longrightarrow> rightly_activated n s"
  by (auto simp: nothing_activated_def rightly_activated_def)

lemma completed_more: "completed cs \<Longrightarrow> completed (cs @ ds)"
  by (auto simp: completed_def intro: in_order_more)

lemma right_after_completion:
  assumes "nothing_activated n s" "isComponentAvailableForUpdate s" "calls s' = calls s @ cs"
  shows "rightly_activated n s'"
proof -
  from assms(1,2) have c: "completed (drop n (calls s))"
    and no: "list_all (\<lambda>c. \<not> is_activate c) (drop n (calls s))" and n: "n \<le> length (calls s)"
    by (auto simp: nothing_activated_def)
  have "completed pre" if e: "drop n (calls s) @ cs = pre @ c # post" and a: "is_activate c"
    for pre c post
  proof -
    from e consider us where "drop n (calls s) = pre @ us" "us @ cs = c # post"
      | us where "pre = drop n (calls s) @ us" "cs = us @ c # post"
      by (auto simp: append_eq_append_conv2)
    then show ?thesis
    proof cases
      case 1
      with no a have "us = []" by (cases us) auto
      with 1 c show ?thesis by simp
    next
      case 2
      with c show ?thesis by (simp add: completed_more)
    qed
  qed
  with n assms(3) show ?thesis by (simp add: rightly_activated_def)
qed

lemma activateFirmware_calls:
  "activateFirmware W b s = Some (rc, s') \<Longrightarrow> \<exists>cs. calls s' = calls s @ cs"
proof -
  assume a: "activateFirmware W b s = Some (rc, s')"
  obtain i s1 where i: "createInstanceId_pldm (currentTid s) s = (i, s1)" by force
  then have c1: "calls s1 = calls s" by (auto simp: createInstanceId_pldm_def Let_def)
  show ?thesis
  proof (cases "encode_activate_firmware_req i b")
    case (Inl e)
    with a i c1 show ?thesis by (simp add: activateFirmware_def)
  next
    case (Inr req)
    with a i obtain ok resp s2 where r: "request W req s1 = Some (ok, resp, s2)" "calls s' = calls s2"
      by (auto simp: activateFirmware_def Let_def split: bind_splits if_splits)
    from sendReceive_calls [OF r(1) [unfolded request_def]] r(2) c1 show ?thesis by auto
  qed
qed

lemma activate_phase_right:
  assumes "nothing_activated n s"
  shows "always (\<lambda>r. rightly_activated n (snd r)) (activate_phase W rc s)"
proof -
  define s1 where "s1 = release_reservation W s"
  have n1: "nothing_activated n s1"
    using assms unactivated.release_reservation_inv by (simp add: s1_def)
  show ?thesis
  proof (cases "isComponentAvailableForUpdate s1")
    case False
    with n1 show ?thesis by (simp add: activate_phase_def s1_def [symmetric] nothing_is_right)
  next
    case True
    have "\<exists>cs. calls s3 = calls s1 @ cs" if "processActivateFirmware W 1 s1 = Some (rc, s3)" for rc s3
      using that activateFirmware_calls
      by (fastforce simp: processActivateFirmware_def split: if_splits bind_splits)
    moreover have "\<exists>cs. calls (triggerDeviceDiscovery t (startTimer W k s3)) = calls s3 @ cs" for t k s3
      by (auto simp: triggerDeviceDiscovery_def startTimer_def split: option.split)
    ultimately show ?thesis
      using right_after_completion [OF n1 True]
      by (auto simp: activate_phase_def s1_def [symmetric] True always_def split: bind_splits if_splits)
         (metis append.assoc)+
  qed
qed

lemma finish_update_right:
  assumes "nothing_activated n s"
  shows "always (\<lambda>r. rightly_activated n (snd r)) (finish_update W rc s)"
  unfolding finish_update_def
  using assms by (auto intro!: activate_phase_right nothing_is_right
      always_bind [OF unactivated.process_data_inv(2)])

lemma learn_phase_safe:
  assumes "nothing_activated n s"
  shows "always (\<lambda>r. nothing_activated n (snd r)) (learn_phase W s)"
  unfolding learn_phase_def
  using assms
  by (auto simp: Let_def unactivated.activateReserveBandwidth_inv
      intro!: unactivated.createAsyncDelay_inv unactivated.processPassComponentTable_inv
        always_bind [OF unactivated.processRequestUpdate_inv]
        always_bind [OF unactivated.process_data_inv(1)]
        always_bind [OF unactivated.processGetDeviceMetaData_inv])

lemma runUpdate_right:
  assumes "nothing_activated n s"
  shows "always (\<lambda>r. rightly_activated n (snd r)) (runUpdate W s)"
  unfolding runUpdate_def
  using assms
  by (auto simp: Let_def intro!: nothing_is_right finish_update_right
      always_bind [OF update_components_safe] always_bind [OF learn_phase_safe])

text \<open>C3: Whatever the device, the bus and the other parts of the daemon do, an update asks the
  device to activate its firmware only after it has answered TransferComplete and then
  VerifyComplete of a component with success, and then its ApplyComplete. (The completion code of
  the last answer may be an error: see the findings.)\<close>

theorem activation_follows_a_complete_component:
  assumes "runUpdate W s = Some (rc, s')" and "\<not> isComponentAvailableForUpdate s"
    and "drop (length (calls s)) (calls s') = pre @ c # post" and "is_activate c"
  shows "\<exists>cc. in_order [answers PLDM_TRANSFER_COMPLETE 0, answers PLDM_VERIFY_COMPLETE 0,
           answers PLDM_APPLY_COMPLETE cc] pre"
proof -
  have "nothing_activated (length (calls s)) s"
    using assms(2) by (simp add: nothing_activated_def)
  from runUpdate_right [OF this, of W] assms show ?thesis
    by (simp add: rightly_activated_def completed_def)
qed

end
