(* ===== verification/Fwu_Scenario.thy ===== *)
theory Fwu_Scenario
  imports Fwu_Safety "HOL-Library.Code_Target_Nat"
begin

unbundle bit_operations_syntax

text \<open>
  A complete update of one device with one component of 32 bytes, computed by the model: the
  device requests the component in one piece and reports success at every stage. The other
  scenarios vary it.
\<close>

section \<open>A package and a device\<close>

definition sample_img :: pldm_img where
  "sample_img = \<lparr> pldmImgSize = 42, image = replicate 10 0 @ replicate 16 0xAA @ replicate 16 0xBB,
     stream_good = True, pkgHdrLen = 10, hdrData = [], hdrItr = 0, pkgVersionStringLen = 0,
     compBitmapBitLength = 8, fwDevPkgDataLen = 0, deviceIDRecordCount = 1, totalCompCount = 1,
     pkgFWUProperties = [],
     pkgDevIDRecords = [(0, ([(''FWDevPkgDataLen'', V_u16 0), (''ComImgSetVerStrLen'', V_u8 1),
        (''ComImgSetVerStrType'', V_u8 1), (''CompImgSetVerStr'', V_string [0x31]),
        (''ApplicableComponents'', V_bytes [1])], []))],
     pkgCompProperties = [(0, [(''CompClassification'', V_u16 0x0A), (''CompIdentifier'', V_u16 1),
        (''CompComparisonStamp'', V_u32 7), (''CompSize'', V_u32 32), (''CompLocationOffset'', V_u32 10),
        (''CmpVerStrType'', V_u8 1), (''CompVerStrLen'', V_u8 1), (''CompVerStr'', V_string [0x32])])],
     matchedTermini = [(0, 9)] \<rparr>"

text \<open>The device is EID 20 and TID 9; the position in the run decides what it does.\<close>

definition plain :: "byte list \<Rightarrow> answer" where
  "plain bs = \<lparr> a_error = False, a_rc = 0, a_bytes = bs \<rparr>"

definition from_device :: "byte list \<Rightarrow> fwu_event list" where
  "from_device bs = [Received 20 3 True bs]"

definition sample_device :: "byte \<Rightarrow> fwu_world" where
  "sample_device applyResult cs c = (case length cs of
       0 \<Rightarrow> ([], plain [1, 1, 5, 0x10, 0, 0, 0, 0])
     | Suc n \<Rightarrow>
         if n = 1 then ([], plain [1, 2, 5, 0x13, 0, 0, 0])
         else if n = 3 then ([], plain [1, 3, 5, 0x14, 0, 0, 0, 0, 0, 0, 0, 0, 0])
         else if n = 4 then (from_device [1, 0x80, 5, 0x15, 0, 0, 0, 0, 32, 0, 0, 0], plain [])
         else if n = 6 then (from_device [1, 0x81, 5, 0x16, 0], plain [])
         else if n = 9 then (from_device [1, 0x82, 5, 0x17, 0], plain [])
         else if n = 11 then (from_device [1, 0x83, 5, 0x18, applyResult, 0, 0], plain [])
         else if n = 13 then ([], plain [1, 4, 5, 0x1A, 0, 0, 0])
         else ([], plain []))"

definition update_start :: fwupdate where
  "update_start = FWUpdate_ctor 9 0 0 0 sample_img \<lparr> maximum_transfer_size = 0,
     component_image_size = 0, seg_offset = 0, seg_length = 0 \<rparr> (pldm_start\<lparr>tidMap := [(9, 20)]\<rparr>)"

section \<open>The run, stage by stage\<close>

definition learn_calls :: "ext_call list" where
  "learn_calls = [
     SendReceive 20 100 [1, 0x81, 5, 0x10, 32, 0, 0, 0, 1, 0, 1, 0, 0, 1, 1, 0x31],
     Timer 500,
     SendReceive 20 100 [1, 0x82, 5, 0x13, 5, 10, 0, 1, 0, 0, 7, 0, 0, 0, 1, 1, 0x32],
     Timer 500]"

definition download_calls :: "ext_call list" where
  "download_calls = [
     SendReceive 20 100 [1, 0x83, 5, 0x14, 10, 0, 1, 0, 0, 7, 0, 0, 0, 32, 0, 0, 0, 0, 0, 0, 0, 1, 1, 0x32],
     Timer 90000,
     SendMsg 20 3 False ([1, 0, 5, 0x15, 0] @ replicate 16 0xAA @ replicate 16 0xBB),
     Timer 90000,
     SetProgress 100,
     SendMsg 20 3 False [1, 1, 5, 0x16, 0],
     Timer 5000]"

definition apply_calls :: "byte \<Rightarrow> ext_call list" where
  "apply_calls cc = [
     SendMsg 20 3 False [1, 2, 5, 0x17, 0],
     Timer 5000,
     SendMsg 20 3 False [1, 3, 5, 0x18, cc]]"

definition activate_calls :: "ext_call list" where
  "activate_calls = [SendReceive 20 100 [1, 0x84, 5, 0x1A, 1], Timer 1001, TriggerDiscovery 20]"

definition learned :: fwupdate where
  "learned = update_start\<lparr>instanceMap := [(9, 2)], calls := learn_calls, reserving := True,
     updateMode := True, fdState := FD_LEARN_COMPONENTS, compCount := 1, applicableComponentsVal := 1,
     componentImageSetVersionString := [0x31],
     updateProperties := \<lparr> max_transfer_size = 32, no_of_comp = 1, max_outstand_transfer_req = 1,
       pkg_data_len = 0, comp_image_set_ver_str_type = 1, comp_image_set_ver_str_len = 1 \<rparr>\<rparr>"

definition downloaded :: fwupdate where
  "downloaded = learned\<lparr>instanceMap := [(9, 3)], calls := learn_calls @ download_calls,
     expectedCmd := 0x17, msgTag := 3, fdReq := [0x82, 5, 0x17, 0], fdReqMatched := True,
     fdState := FD_VERIFY,
     codec := \<lparr> maximum_transfer_size = 32, component_image_size = 32, seg_offset = 0, seg_length = 32 \<rparr>\<rparr>"

definition applied :: "byte \<Rightarrow> byte \<Rightarrow> fwupdate" where
  "applied applyResult cc = downloaded\<lparr>calls := learn_calls @ download_calls @ apply_calls cc,
     expectedCmd := 0x18, fdReq := [0x83, 5, 0x18, applyResult, 0, 0], fdReqMatched := False,
     isComponentAvailableForUpdate := True, fdState := FD_READY_XFER\<rparr>"

lemma learn_stage: "learn_phase (sample_device 0) update_start = Some (PLDM_SUCCESS, learned)"
  by code_simp

lemma components_stage:
  "update_components (sample_device 0) (component_counts (learned\<lparr>fdState := FD_READY_XFER\<rparr>)) PLDM_SUCCESS
     (learned\<lparr>fdState := FD_READY_XFER\<rparr>) = Some (PLDM_SUCCESS, applied 0 0)"
  by code_simp

definition activated :: fwupdate where
  "activated = (applied 0 0)\<lparr>instanceMap := [(9, 4)], fdState := FD_ACTIVATE,
     calls := learn_calls @ download_calls @ apply_calls 0 @ activate_calls\<rparr>"

lemma finish_stage: "finish_update (sample_device 0) PLDM_SUCCESS (applied 0 0) = Some (PLDM_SUCCESS, activated)"
  by code_simp

lemma whole_update: "runUpdate (sample_device 0) update_start = Some (PLDM_SUCCESS, activated)"
  by (simp add: runUpdate_def learn_stage components_stage [unfolded PLDM_SUCCESS_def]
      finish_stage [unfolded PLDM_SUCCESS_def] Let_def PLDM_SUCCESS_def)

lemma activation_follows_a_complete_component_witness:
  "\<exists>cc. in_order [answers PLDM_TRANSFER_COMPLETE 0, answers PLDM_VERIFY_COMPLETE 0,
     answers PLDM_APPLY_COMPLETE cc] (learn_calls @ download_calls @ apply_calls 0)"
proof (rule activation_follows_a_complete_component [OF whole_update])
  show "\<not> isComponentAvailableForUpdate update_start"
    by (simp add: update_start_def FWUpdate_ctor_def pldm.defs fwupdate.defs)
  show "drop (length (calls update_start)) (calls activated)
      = (learn_calls @ download_calls @ apply_calls 0) @ hd activate_calls # tl activate_calls"
    by (simp add: update_start_def FWUpdate_ctor_def pldm.defs fwupdate.defs pldm_start_def
        activated_def activate_calls_def)
  show "is_activate (hd activate_calls)"
    by (simp add: activate_calls_def is_activate_def fwu_commands)
qed

end
