(* ===== verification/Fwu_Data.thy ===== *)
theory Fwu_Data
  imports Fwu_Scenario
begin

unbundle bit_operations_syntax

text \<open>
  What the update agent sends: the component image, piece by piece as the device asks for it,
  and the package data and the device metadata in portions of 32 bytes.
\<close>

section \<open>Sending\<close>

text \<open>A mapped device that may use the bandwidth is sent the message, up to three times.\<close>

definition reachable :: "eid \<Rightarrow> fwupdate \<Rightarrow> bool" where
  "reachable d s \<longleftrightarrow> getMappedEID (currentTid s) (tidMap s) = Some d
     \<and> \<not> validateReserveBW (currentTid s) PLDM_FWUP s"

lemma respond_sends:
  assumes "reachable d s" "header_type msg = Some PLDM_FWUP"
  shows "\<exists>ok s' k. respond W msg s = Some (ok, s') \<and> 0 < k \<and> k \<le> 3
    \<and> calls s' = calls s @ replicate k (SendMsg d (msgTag s) False (1 # msg))"
proof -
  let ?c = "SendMsg d (msgTag s) False (1 # msg)"
  obtain a s1 where l: "send_loop (fwu_env W) ?c 3 \<lparr> a_error = False, a_rc = 0, a_bytes = [] \<rparr> s = (a, s1)"
    by force
  from assms l have "respond W msg s = Some (\<not> send_failed a, s1)"
    by (simp add: respond_def sendPldmMessage_def reachable_def mctp_type_pldm_def)
  with send_loop_calls [of 3 "fwu_env W" ?c "\<lparr> a_error = False, a_rc = 0, a_bytes = [] \<rparr>" s] l
  show ?thesis by auto
qed

lemma answer_sends:
  assumes "reachable d s" "header_type msg = Some PLDM_FWUP"
  shows "\<exists>rc s' k. answer_with W (Inr msg) s = Some (rc, s') \<and> 0 < k \<and> k \<le> 3
    \<and> calls s' = calls s @ replicate k (SendMsg d (msgTag s) False (1 # msg))"
  using respond_sends [OF assms, of W] by (auto simp: answer_with_def)

section \<open>The component image\<close>

definition component_bytes :: "pldm_img \<Rightarrow> u32 \<Rightarrow> u32 \<Rightarrow> byte list" where
  "component_bytes img componentSize componentOffset =
     take (unat componentSize) (drop (unat componentOffset) (image img))"

lemma readData_good:
  assumes "stream_good img" "pldmImgSize img = length (image img)" "start + n \<le> length (image img)"
    "length (image img) + 32 < 2 ^ 32"
  shows "readData start data n img = (True, take n (drop start (image img)) @ drop n data, img)"
proof -
  from assms have "size_add start n = start + n"
    by (simp add: size_add_def)
  moreover have "img\<lparr>stream_good := True\<rparr> = img"
    using assms(1) by simp
  ultimately show ?thesis
    using assms by (simp add: readData_def stream_read_def baseline_transfer_size_def Let_def)
qed

lemma padded_piece:
  assumes "off < length bs" "off + n \<le> length bs + 32"
  shows "take (min n (length bs - off)) (drop off bs) @ replicate (off + n - length bs) 0
    = take n (drop off (bs @ replicate 32 (0::byte)))"
proof -
  have "take n (drop off (bs @ replicate 32 0)) = take n (drop off bs) @ replicate (n - (length bs - off)) 0"
    using assms by (simp add: min_def)
  moreover have "take (min n (length bs - off)) (drop off bs) = take n (drop off bs)"
    by (simp add: min_def)
  moreover have "n - (length bs - off) = off + n - length bs"
    using assms(1) by simp
  ultimately show ?thesis by simp
qed

lemma header_resp_fwu:
  "encode_pldm_header (b AND 0x1F) PLDM_FWUP c PLDM_RESPONSE = Inr [b AND 0x1F, PLDM_FWUP, c]"
proof -
  have "b AND 0x1F < 32"
    by (rule le_less_trans [OF word_and_le1]) simp
  then show ?thesis by (simp add: packed_header is_msg_type_def PLDM_FWUP_def)
qed

lemma requestFirmwareData_eq:
  assumes req: "req = [b0, b1, b2] @ enc32 off @ enc32 len"
    and c: "maximum_transfer_size (codec s) = mx" "component_image_size (codec s) = sz"
    and len: "32 \<le> len" "len \<le> mx" "off < sz" "unat off + unat len \<le> unat sz + 32"
    and img: "stream_good (pldmImg s)" "pldmImgSize (pldmImg s) = length (image (pldmImg s))"
      "unat cof + unat sz \<le> length (image (pldmImg s))" "length (image (pldmImg s)) + 64 < 2 ^ 32"
  shows "\<exists>len'. requestFirmwareData W req o0 l0 sz cof s = do {
      (rc, s') \<leftarrow> answer_with W (Inr ([b0 AND 0x1F, PLDM_FWUP, PLDM_REQUEST_FIRMWARE_DATA, completionCode s]
          @ take (unat len) (drop (unat off) (component_bytes (pldmImg s) sz cof @ replicate 32 0))))
        (s\<lparr>codec := (codec s)\<lparr>seg_offset := off, seg_length := len\<rparr>\<rparr>);
      Some (rc, off, len', s') }"
proof -
  define bytes where "bytes = component_bytes (pldmImg s) sz cof"
  have lb: "length bytes = unat sz"
    using img(3) by (simp add: bytes_def component_bytes_def)
  have no: "unat (off + len) = unat off + unat len" "unat (off + cof) = unat off + unat cof"
    using len(3,4) img(3,4) by (subst unat_add_lem [THEN iffD1]; simp add: word_less_nat_alt)+
  define len' where "len' = (if off + len > sz then sz - off else len)"
  have l': "unat len' = min (unat len) (unat sz - unat off)"
    using len(3) no by (auto simp: len'_def word_less_nat_alt word_le_nat_alt unat_sub)
  let ?c = "(codec s)\<lparr>seg_offset := off, seg_length := len\<rparr>"
  have dec: "decode_request_firmware_data_req req (codec s) = (PLDM_SUCCESS, Some (off, len), ?c)"
    using len c by (simp add: decode_request_firmware_data_req_def req read_enc Let_def
        check_request_firmware_data_req_validity_def add.commute)
  have inst: "req_instance req = Some (b0 AND 0x1F)"
    by (simp add: req req_instance_def)
  define data where "data = take (unat len') (drop (unat off) bytes) @ replicate (unat len - unat len') 0"
  have "readData (unat off + unat cof) (replicate (unat len) 0) (unat len') (pldmImg s)
      = (True, take (unat len') (drop (unat off + unat cof) (image (pldmImg s)))
           @ drop (unat len') (replicate (unat len) 0), pldmImg s)"
    by (rule readData_good) (use img len(3) l' in \<open>simp_all add: word_less_nat_alt\<close>)
  moreover have "take (unat len') (drop (unat off + unat cof) (image (pldmImg s)))
      = take (unat len') (drop (unat off) bytes)"
    using l' by (simp add: bytes_def component_bytes_def drop_take min_def)
  ultimately have rd: "readData (unat (off + cof)) (replicate (unat len) 0) (unat len') (pldmImg s)
      = (True, data, pldmImg s)"
    by (simp add: no data_def)
  have pad: "get_padding_length ?c = Inr (unat off + unat len - unat sz)"
  proof -
    have "nat (int (unat len) + int (unat off) - int (unat sz)) = unat off + unat len - unat sz"
      "\<not> int (unat len) + int (unat off) - int (unat sz) > 32"
      using len(4) by linarith+
    with c(2) show ?thesis
      unfolding get_padding_length_def Let_def uint_nat by simp
  qed
  have plen: "size_add (Suc 0) (unat len) = unat (len + 1)" "unat (len + 1) = unat len + 1"
  proof -
    have "Suc (unat len) < 4294967296"
      using len(3,4) img(3,4) by (simp add: word_less_nat_alt)
    then show "unat (len + 1) = unat len + 1" by (simp add: unat_word_ariths)
    then show "size_add (Suc 0) (unat len) = unat (len + 1)"
      using \<open>Suc (unat len) < 4294967296\<close> by (simp add: size_add_def)
  qed
  define piece where "piece = take (unat len) (drop (unat off) (bytes @ replicate 32 0))"
  have enc: "encode_request_firmware_data_resp (b0 AND 0x1F) (size_add (Suc 0) (unat len)) (completionCode s) data ?c
      = Inr ([b0 AND 0x1F, PLDM_FWUP, PLDM_REQUEST_FIRMWARE_DATA, completionCode s] @ piece)"
  proof -
    have "take (unat len - (unat off + unat len - unat sz)) data
        = take (min (unat len) (unat sz - unat off)) (drop (unat off) bytes)"
      using l' lb len(3) by (simp add: data_def word_less_nat_alt min_def)
    with padded_piece [of "unat off" bytes "unat len"] lb len
    have "take (unat len - (unat off + unat len - unat sz)) data @ replicate (unat off + unat len - unat sz) 0
        = piece"
      by (simp only: piece_def word_less_nat_alt)
    moreover have "data \<noteq> []"
      using len(1,3) by (auto simp: data_def word_le_nat_alt word_less_nat_alt lb)
    ultimately show ?thesis
      using len(1) by (simp add: encode_request_firmware_data_resp_def plen header_resp_fwu pad
          word_le_nat_alt)
  qed
  have "requestFirmwareData W req o0 l0 sz cof s = do {
      (rc, s') \<leftarrow> answer_with W (Inr ([b0 AND 0x1F, PLDM_FWUP, PLDM_REQUEST_FIRMWARE_DATA, completionCode s]
          @ piece)) (s\<lparr>codec := ?c\<rparr>);
      Some (rc, off, len', s') }"
    using len(3)
    by (simp add: requestFirmwareData_def dec Let_def inst len'_def [symmetric] rd enc PLDM_SUCCESS_def)
  then show ?thesis unfolding piece_def bytes_def by blast
qed

text \<open>C8: A request for \<open>len\<close> bytes at \<open>off\<close> of a component is answered with exactly these bytes of
  the component in the package, followed by zeros when the request reaches up to 32 bytes past its
  end, under the device's instance id and message tag.\<close>

theorem firmware_data_is_the_component:
  assumes req: "req = [b0, b1, b2] @ enc32 off @ enc32 len"
    and c: "maximum_transfer_size (codec s) = mx" "component_image_size (codec s) = sz"
    and len: "32 \<le> len" "len \<le> mx" "off < sz" "unat off + unat len \<le> unat sz + 32"
    and img: "stream_good (pldmImg s)" "pldmImgSize (pldmImg s) = length (image (pldmImg s))"
      "unat cof + unat sz \<le> length (image (pldmImg s))" "length (image (pldmImg s)) + 64 < 2 ^ 32"
    and d: "reachable d s"
  shows "\<exists>rc len' s' k. requestFirmwareData W req o0 l0 sz cof s = Some (rc, off, len', s')
    \<and> 0 < k \<and> k \<le> 3
    \<and> calls s' = calls s @ replicate k (SendMsg d (msgTag s) False
        ([1, b0 AND 0x1F, PLDM_FWUP, PLDM_REQUEST_FIRMWARE_DATA, completionCode s]
         @ take (unat len) (drop (unat off) (component_bytes (pldmImg s) sz cof @ replicate 32 0))))"
proof -
  let ?s = "s\<lparr>codec := (codec s)\<lparr>seg_offset := off, seg_length := len\<rparr>\<rparr>"
  let ?msg = "[b0 AND 0x1F, PLDM_FWUP, PLDM_REQUEST_FIRMWARE_DATA, completionCode s]
     @ take (unat len) (drop (unat off) (component_bytes (pldmImg s) sz cof @ replicate 32 0))"
  from d have "reachable d ?s"
    by (simp add: reachable_def validateReserveBW_def)
  moreover have "header_type ?msg = Some PLDM_FWUP"
    by (simp add: header_type_def PLDM_FWUP_def)
  ultimately obtain rc s' k where a: "answer_with W (Inr ?msg) ?s = Some (rc, s')" "0 < k" "k \<le> 3"
      "calls s' = calls ?s @ replicate k (SendMsg d (msgTag ?s) False (1 # ?msg))"
    using answer_sends [of d ?s ?msg W] by blast
  from requestFirmwareData_eq [OF req c len img, of W o0 l0] obtain len' where
    "requestFirmwareData W req o0 l0 sz cof s = do {
       (rc, s') \<leftarrow> answer_with W (Inr ?msg) ?s; Some (rc, off, len', s') }" by blast
  with a show ?thesis by auto
qed

lemma firmware_data_is_the_component_witness:
  "\<exists>rc len' s' k. requestFirmwareData (sample_device 0) ([0x85, 5, 0x15] @ enc32 16 @ enc32 48) 0 0 32 10
      (downloaded\<lparr>codec := \<lparr> maximum_transfer_size = 64, component_image_size = 32, seg_offset = 0,
         seg_length = 0 \<rparr>\<rparr>) = Some (rc, 16, len', s')
    \<and> 0 < k \<and> k \<le> 3
    \<and> calls s' = calls downloaded @ replicate k (SendMsg 20 3 False
        ([1, 5, PLDM_FWUP, PLDM_REQUEST_FIRMWARE_DATA, 0] @ replicate 16 0xBB @ replicate 32 0))"
proof -
  let ?s = "downloaded\<lparr>codec := \<lparr> maximum_transfer_size = 64, component_image_size = 32,
     seg_offset = 0, seg_length = 0 \<rparr>\<rparr>"
  note defs = downloaded_def learned_def update_start_def FWUpdate_ctor_def pldm.defs fwupdate.defs
    pldm_start_def sample_img_def
  have "reachable 20 ?s"
    by (simp add: reachable_def getMappedEID_def validateReserveBW_def defs)
  moreover have "take 48 (drop 16 (component_bytes (pldmImg ?s) 32 10 @ replicate 32 0))
      = replicate 16 0xBB @ replicate 32 0"
    by (simp add: component_bytes_def defs)
  ultimately show ?thesis
    using firmware_data_is_the_component [of "[0x85, 5, 0x15] @ enc32 16 @ enc32 48" "0x85" 5 "0x15" 16 48
      ?s 64 32 10 20 "sample_device 0" 0 0] by (simp add: defs)
qed

end
