(* ===== verification/Pldm_Discovery.thy ===== *)
theory Pldm_Discovery
  imports Pldm_Base_Codec Pldm_Crc
begin

unbundle bit_operations_syntax

text \<open>
  Discovery of a PLDM terminus and the assignment of terminus ids (pldmd/src/base.cpp), with the
  events that start and end it (pldmd/src/pldmd.cpp, \<open>initDevice\<close> to \<open>onDeviceUpdate\<close>) and
  \<open>getTerminusUID\<close> of pldmd/src/platform.cpp.

  The order of the elements of an unordered container is unspecified in C++; here it is the order
  of insertion, latest first in \<open>uuidMapping\<close>. As in the messaging theory, the state is passed
  through every exchange and \<open>None\<close> is undefined behaviour.
\<close>

section \<open>State\<close>

text \<open>\<open>CommandSupportTable\<close>: for a PLDM type its versions, for a version the 32 bytes of the
  command bits.\<close>

type_synonym uuid = "byte list"
type_synonym command_table = "(byte \<times> (ver32 \<times> byte list) list) list"

record pldm_msg_types =
  mt_messageCtrl :: bool
  mt_smbios :: bool
  mt_platform :: bool
  mt_bios :: bool
  mt_fru :: bool
  mt_fwup :: bool
  mt_rde :: bool
  mt_oem :: bool

text \<open>What is kept of a terminus: its commands and the properties of its two D-Bus interfaces.\<close>

record discovery_data =
  cmdSupportTable :: command_table
  msgTypeInterface :: pldm_msg_types
  uuidInterface_of :: uuid

record base_state = pldm +
  tidPool :: "(tid \<times> bool) list"
  uuidMapping :: "(uuid \<times> tid) list"
  tidReclaimWindowTimers :: "tid list"
  discoveryDataTable :: "(tid \<times> discovery_data) list"

definition maxTIDPoolSize :: nat where "maxTIDPoolSize = 254"

definition TIDPool_ctor :: "nat \<Rightarrow> (tid \<times> bool) list" where
  "TIDPool_ctor tidRange = map (\<lambda>t. (word_of_nat t, False)) [1..<tidRange + 1]"

definition base_start :: base_state where
  "base_start = pldm.extend pldm_start (base_state.fields (TIDPool_ctor maxTIDPoolSize) [] [] [])"

section \<open>The TID pool\<close>

fun getFreeTID :: "(tid \<times> bool) list \<Rightarrow> tid option \<times> (tid \<times> bool) list" where
  "getFreeTID [] = (None, [])"
| "getFreeTID ((t, flag) # pool) =
     (if \<not> flag then (Some t, (t, True) # pool)
      else case getFreeTID pool of (r, pool) \<Rightarrow> (r, (t, flag) # pool))"

text \<open>Both work on the first entry of the TID that is marked as used, if there is one.\<close>

fun pushFrontUnusedTID :: "tid \<Rightarrow> (tid \<times> bool) list \<Rightarrow> (tid \<times> bool) list" where
  "pushFrontUnusedTID unusedTID [] = []"
| "pushFrontUnusedTID unusedTID ((t, flag) # pool) =
     (if t = unusedTID \<and> flag then (t, False) # pool
      else (t, flag) # pushFrontUnusedTID unusedTID pool)"

definition pushBackFreedTID :: "tid \<Rightarrow> (tid \<times> bool) list \<Rightarrow> (tid \<times> bool) list" where
  "pushBackFreedTID freedTID pool =
     (if (freedTID, True) \<in> set pool then remove1 (freedTID, True) pool @ [(freedTID, False)]
      else pool)"

section \<open>Exchanges with the terminus\<close>

definition defaultTID :: tid where "defaultTID = 0"

definition base_exchange :: "base_state world \<Rightarrow> eid \<Rightarrow> byte list \<Rightarrow> base_state
    \<Rightarrow> (bool \<times> byte list \<times> base_state) option" where
  "base_exchange w e req s = sendReceivePldmMessage w defaultTID 100 3 req [] (Some e) s"

definition getSupportedPLDMTypes :: "base_state world \<Rightarrow> eid \<Rightarrow> base_state
    \<Rightarrow> (byte list option \<times> base_state) option" where
  "getSupportedPLDMTypes w e s =
     (case createInstanceId_pldm defaultTID s of (instanceID, s) \<Rightarrow> do {
        (ok, resp, s) \<leftarrow> base_exchange w e (encode_get_types_req instanceID) s;
        if \<not> ok then Some (None, s)
        else do {
          (rc, cc, types) \<leftarrow> decode_get_types_resp resp;
          Some (if \<not> validatePLDMRespDecode rc (uint cc) then None else types, s) } })"

text \<open>The loop of \<open>getPLDMVersions\<close>. \<open>maxTransfers\<close> starts at 16 and is compared before it is
  decremented, so that \<open>n\<close> starts at 17; the data read so far is returned.\<close>

fun versions_loop :: "base_state world \<Rightarrow> eid \<Rightarrow> byte \<Rightarrow> byte \<Rightarrow> nat \<Rightarrow> u32 \<Rightarrow> byte \<Rightarrow> byte list
    \<Rightarrow> base_state \<Rightarrow> (byte list option \<times> base_state) option" where
  "versions_loop w e instanceID pldmType 0 handle opflag buffer s = Some (None, s)"
| "versions_loop w e instanceID pldmType (Suc n) handle opflag buffer s =
     (case encode_get_version_req instanceID handle opflag pldmType of
        Inl rc \<Rightarrow> Some (None, s)
      | Inr req \<Rightarrow> do {
          (ok, resp, s) \<leftarrow> base_exchange w e req s;
          if \<not> ok then Some (None, s)
          else do {
            (rc, cc, out) \<leftarrow> decode_get_version_resp resp;
            if \<not> validatePLDMRespDecode rc (uint cc) then Some (None, s)
            else case out of
              None \<Rightarrow> Some (None, s)
            | Some (handle, flag, version) \<Rightarrow>
                if flag = PLDM_END \<or> flag = PLDM_START_AND_END
                then Some (Some (buffer @ version), s)
                else versions_loop w e instanceID pldmType n handle PLDM_GET_NEXTPART
                       (buffer @ version) s } })"

text \<open>Four bytes of the packet, which has the fields of a version in the opposite order.\<close>

fun versions_of :: "byte list \<Rightarrow> ver32 list" where
  "versions_of (b0 # b1 # b2 # b3 # bs) = (b3, b2, b1, b0) # versions_of bs"
| "versions_of bs = []"

definition checked_versions :: "byte list \<Rightarrow> ver32 list option" where
  "checked_versions buffer =
     (if length buffer < 8 then None
      else
        let n = length buffer - 4 in
        if n mod 4 \<noteq> 0 then None
        else if read32 buffer n \<noteq> crc32 (take n buffer) then None
        else Some (versions_of (take n buffer)))"

definition getPLDMVersions :: "base_state world \<Rightarrow> eid \<Rightarrow> byte \<Rightarrow> base_state
    \<Rightarrow> (ver32 list option \<times> base_state) option" where
  "getPLDMVersions w e pldmType s =
     (case createInstanceId_pldm defaultTID s of (instanceID, s) \<Rightarrow> do {
        (data, s) \<leftarrow> versions_loop w e instanceID pldmType 17 0 PLDM_GET_FIRSTPART [] s;
        Some (case data of None \<Rightarrow> None | Some buffer \<Rightarrow> checked_versions buffer, s) })"

definition getPLDMCommands :: "base_state world \<Rightarrow> eid \<Rightarrow> byte \<Rightarrow> ver32 \<Rightarrow> base_state
    \<Rightarrow> (byte list option \<times> base_state) option" where
  "getPLDMCommands w e pldmType version s =
     (case createInstanceId_pldm defaultTID s of (instanceID, s) \<Rightarrow> do {
        (ok, resp, s) \<leftarrow> base_exchange w e (encode_get_commands_req instanceID pldmType version) s;
        if \<not> ok then Some (None, s)
        else do {
          (rc, cc, cmds) \<leftarrow> decode_get_commands_resp resp;
          Some (if \<not> validatePLDMRespDecode rc (uint cc) then None else cmds, s) } })"

definition getTID :: "base_state world \<Rightarrow> eid \<Rightarrow> base_state \<Rightarrow> (tid option \<times> base_state) option" where
  "getTID w e s =
     (case createInstanceId_pldm defaultTID s of (instanceID, s) \<Rightarrow> do {
        (ok, resp, s) \<leftarrow> base_exchange w e (encode_get_tid_req instanceID) s;
        if \<not> ok then Some (None, s)
        else do {
          (rc, cc, t) \<leftarrow> decode_get_tid_resp resp;
          Some (if \<not> validatePLDMRespDecode rc (uint cc) then None else t, s) } })"

text \<open>\<open>decode\_set\_tid\_resp\<close> is \<open>decode\_cc\_only\_resp\<close>.\<close>

definition setTID :: "base_state world \<Rightarrow> eid \<Rightarrow> tid \<Rightarrow> base_state
    \<Rightarrow> (bool \<times> base_state) option" where
  "setTID w e t s =
     (case createInstanceId_pldm defaultTID s of (instanceID, s) \<Rightarrow>
        case encode_set_tid_req instanceID t of
          Inl rc \<Rightarrow> Some (False, s)
        | Inr req \<Rightarrow> do {
            (ok, resp, s) \<leftarrow> base_exchange w e req s;
            if \<not> ok then Some (False, s)
            else Some (case decode_cc_only_resp resp of
                         (rc, None) \<Rightarrow> False
                       | (rc, Some cc) \<Rightarrow> validatePLDMRespDecode rc (uint cc), s) })"

section \<open>GetTerminusUID\<close>

definition PLDM_PLATFORM :: byte where "PLDM_PLATFORM = 2"
definition PLDM_FRU :: byte where "PLDM_FRU = 4"
definition PLDM_GET_TERMINUS_UID :: byte where "PLDM_GET_TERMINUS_UID = 3"

definition encode_get_terminus_uid_req :: "byte \<Rightarrow> int + byte list" where
  "encode_get_terminus_uid_req instance_id =
     encode_header_only_request instance_id PLDM_PLATFORM PLDM_GET_TERMINUS_UID"

definition decode_get_terminus_uid_resp :: "byte list \<Rightarrow> (int \<times> byte \<times> uuid option) option" where
  "decode_get_terminus_uid_resp msg = do {
     cc \<leftarrow> payload_at msg 0;
     Some (if cc \<noteq> 0 then (PLDM_SUCCESS, cc, None)
           else if length msg - 3 \<noteq> 17 then (PLDM_ERROR_INVALID_LENGTH, cc, None)
           else (PLDM_SUCCESS, cc, Some (take 16 (drop 4 msg)))) }"

definition getTerminusUID :: "base_state world \<Rightarrow> tid \<Rightarrow> eid option \<Rightarrow> base_state
    \<Rightarrow> (uuid option \<times> base_state) option" where
  "getTerminusUID w t e s =
     (case createInstanceId_pldm t s of (instanceID, s) \<Rightarrow>
        case encode_get_terminus_uid_req instanceID of
          Inl rc \<Rightarrow> Some (None, s)
        | Inr req \<Rightarrow> do {
            (ok, resp, s) \<leftarrow> sendReceivePldmMessage w t 100 3 req [] e s;
            if \<not> ok then Some (None, s)
            else do {
              (rc, cc, u) \<leftarrow> decode_get_terminus_uid_resp resp;
              Some (if \<not> validatePLDMRespDecode rc (uint cc) then None else u, s) } })"

section \<open>Support tables\<close>

text \<open>The bits of one byte from bit 0 on, and the codes of all bytes in increasing order.\<close>

definition getTypeCodesFromSupportedTypes :: "byte list \<Rightarrow> byte list" where
  "getTypeCodesFromSupportedTypes supportedTypes =
     concat (map (\<lambda>i. map (\<lambda>j. word_of_nat (i * 8 + j)) (filter (bit (supportedTypes ! i)) [0..<8]))
       [0..<length supportedTypes])"

fun createVersionSupportTable :: "base_state world \<Rightarrow> eid \<Rightarrow> byte list \<Rightarrow> base_state
    \<Rightarrow> ((byte \<times> ver32 list) list \<times> base_state) option" where
  "createVersionSupportTable w e [] s = Some ([], s)"
| "createVersionSupportTable w e (pldmType # types) s = do {
     (versions, s) \<leftarrow> getPLDMVersions w e pldmType s;
     (table, s) \<leftarrow> createVersionSupportTable w e types s;
     Some (case versions of None \<Rightarrow> table | Some vs \<Rightarrow> (pldmType, vs) # table, s) }"

fun createCommandSupportTable :: "base_state world \<Rightarrow> eid \<Rightarrow> (byte \<times> ver32 list) list \<Rightarrow> base_state
    \<Rightarrow> (command_table \<times> base_state) option" where
  "createCommandSupportTable w e [] s = Some ([], s)"
| "createCommandSupportTable w e ((pldmType, versions) # rest) s =
     (case versions of
        [] \<Rightarrow> createCommandSupportTable w e rest s
      | firstVersion # _ \<Rightarrow> do {
          (cmds, s) \<leftarrow> getPLDMCommands w e pldmType firstVersion s;
          (table, s) \<leftarrow> createCommandSupportTable w e rest s;
          Some (case cmds of None \<Rightarrow> table
                | Some c \<Rightarrow> (pldmType, [(firstVersion, c)]) # table, s) })"

text \<open>The three overloads of \<open>isSupported\<close>: of a table, of a registered terminus, and of a type.\<close>

definition isSupported :: "command_table \<Rightarrow> byte \<Rightarrow> byte \<Rightarrow> bool" where
  "isSupported table pldmType cmd = (case map_of table pldmType of
     None \<Rightarrow> False
   | Some versions \<Rightarrow> \<exists>v \<in> set versions. bit (snd v ! (unat cmd div 8)) (unat cmd mod 8))"

definition isSupported_terminus :: "base_state \<Rightarrow> tid \<Rightarrow> byte \<Rightarrow> byte \<Rightarrow> bool" where
  "isSupported_terminus s t pldmType cmd = (case map_of (discoveryDataTable s) t of
     None \<Rightarrow> False | Some d \<Rightarrow> isSupported (cmdSupportTable d) pldmType cmd)"

definition isSupported_type :: "base_state \<Rightarrow> tid \<Rightarrow> byte \<Rightarrow> bool" where
  "isSupported_type s t pldmType = (case map_of (discoveryDataTable s) t of
     None \<Rightarrow> False | Some d \<Rightarrow> map_of (cmdSupportTable d) pldmType \<noteq> None)"

definition getPldmMsgTypes :: "byte list \<Rightarrow> pldm_msg_types" where
  "getPldmMsgTypes msgType = (let codes = set (getTypeCodesFromSupportedTypes msgType) in
     \<lparr> mt_messageCtrl = 0 \<in> codes, mt_smbios = 1 \<in> codes, mt_platform = 2 \<in> codes,
       mt_bios = 3 \<in> codes, mt_fru = 4 \<in> codes, mt_fwup = 5 \<in> codes, mt_rde = 6 \<in> codes,
       mt_oem = 0x3F \<in> codes \<rparr>)"

section \<open>The reclaim window\<close>

text \<open>A terminus with a UUID that is removed keeps its TID for three minutes. A timer that is
  pending for the TID already stays as it is.\<close>

definition cancelTIDReclaimTimerIfExists :: "tid \<Rightarrow> base_state \<Rightarrow> base_state" where
  "cancelTIDReclaimTimerIfExists t s =
     s\<lparr>tidReclaimWindowTimers := removeAll t (tidReclaimWindowTimers s)\<rparr>"

definition releaseTIDAfterReclaimInterval :: "tid \<Rightarrow> base_state \<Rightarrow> base_state" where
  "releaseTIDAfterReclaimInterval t s =
     s\<lparr>tidReclaimWindowTimers := List.insert t (tidReclaimWindowTimers s)\<rparr>"

definition isTerminusUnregistered :: "tid \<Rightarrow> base_state \<Rightarrow> bool" where
  "isTerminusUnregistered t s \<longleftrightarrow> t \<in> set (tidReclaimWindowTimers s)"

fun erase_mapped :: "tid \<Rightarrow> (uuid \<times> tid) list \<Rightarrow> (uuid \<times> tid) list" where
  "erase_mapped t [] = []"
| "erase_mapped t ((u, t') # m) = (if t' = t then m else (u, t') # erase_mapped t m)"

text \<open>The handler of the timer, when the timer was not cancelled.\<close>

definition tid_reclaimed :: "tid \<Rightarrow> base_state \<Rightarrow> base_state" where
  "tid_reclaimed t s = s\<lparr>uuidMapping := erase_mapped t (uuidMapping s),
     tidPool := pushBackFreedTID t (tidPool s),
     tidReclaimWindowTimers := removeAll t (tidReclaimWindowTimers s)\<rparr>"

section \<open>Registration of a terminus\<close>

record terminus_info =
  ti_pldmTypes :: "byte list"
  ti_commands :: command_table
  ti_assignedTID :: tid
  ti_uuid :: "uuid option"

text \<open>\<open>baseInit\<close> up to the UUID of the terminus: \<open>None\<close> inside is one of its early returns.\<close>

definition learn_terminus :: "base_state world \<Rightarrow> eid \<Rightarrow> base_state
    \<Rightarrow> (terminus_info option \<times> base_state) option" where
  "learn_terminus w e s =
     (if getMappedTID e (tidMap s) \<noteq> None then Some (None, s)
      else do {
        (types, s) \<leftarrow> getSupportedPLDMTypes w e s;
        case types of
          None \<Rightarrow> Some (None, s)
        | Some pldmTypes \<Rightarrow> do {
            (versions, s) \<leftarrow> createVersionSupportTable w e (getTypeCodesFromSupportedTypes pldmTypes) s;
            (commands, s) \<leftarrow> createCommandSupportTable w e versions s;
            (assignedTID, s) \<leftarrow> getTID w e s;
            case assignedTID of
              None \<Rightarrow> Some (None, s)
            | Some assigned \<Rightarrow> do {
                (u, s) \<leftarrow> (if isSupported commands PLDM_PLATFORM PLDM_GET_TERMINUS_UID
                           then getTerminusUID w 0 (Some e) s else Some (None, s));
                Some (Some \<lparr> ti_pldmTypes = pldmTypes, ti_commands = commands,
                             ti_assignedTID = assigned, ti_uuid = u \<rparr>, s) } } })"

text \<open>The TID that \<open>baseInit\<close> chooses for it, if any: the one of its UUID, or a free one.\<close>

definition choose_tid :: "terminus_info \<Rightarrow> base_state \<Rightarrow> tid option \<times> base_state" where
  "choose_tid info s =
     (let known = (case ti_uuid info of None \<Rightarrow> None | Some u \<Rightarrow> map_of (uuidMapping s) u);
          t = (case known of None \<Rightarrow> 0 | Some t \<Rightarrow> t)
      in if known \<noteq> None \<and> ti_assignedTID info \<noteq> 0 \<and> \<not> isTerminusUnregistered t s then (None, s)
         else if t = 0
         then (case getFreeTID (tidPool s) of (r, pool) \<Rightarrow> (r, s\<lparr>tidPool := pool\<rparr>))
         else (Some t, if ti_uuid info \<noteq> None then cancelTIDReclaimTimerIfExists t s else s))"

text \<open>What \<open>baseInit\<close> does with the chosen TID. The two interfaces are part of the table.\<close>

definition register_terminus :: "base_state world \<Rightarrow> eid \<Rightarrow> terminus_info \<Rightarrow> tid \<Rightarrow> base_state
    \<Rightarrow> (bool \<times> base_state) option" where
  "register_terminus w e info t s = do {
     (ok, s) \<leftarrow> (if isSupported (ti_commands info) PLDM_BASE PLDM_SET_TID
                then setTID w e t s else Some (True, s));
     if \<not> ok then Some (False, s\<lparr>tidPool := pushFrontUnusedTID t (tidPool s)\<rparr>)
     else case addEntry t e (tidMap s) of (added, m) \<Rightarrow>
       if \<not> added then Some (False, s\<lparr>tidPool := pushFrontUnusedTID t (tidPool s)\<rparr>)
       else
         let s = s\<lparr>tidMap := m\<rparr>;
             s = (case ti_uuid info of None \<Rightarrow> s
                  | Some u \<Rightarrow> if map_of (uuidMapping s) u \<noteq> None then s
                              else s\<lparr>uuidMapping := (u, t) # uuidMapping s\<rparr>);
             u = (case ti_uuid info of None \<Rightarrow> replicate 16 0 | Some u \<Rightarrow> u)
         in Some (True, s\<lparr>discoveryDataTable := map_assign t
              \<lparr> cmdSupportTable = ti_commands info, msgTypeInterface = getPldmMsgTypes (ti_pldmTypes info),
                uuidInterface_of = u \<rparr> (discoveryDataTable s)\<rparr>) }"

text \<open>The result is the TID and the commands of the terminus when it succeeds.\<close>

definition baseInit :: "base_state world \<Rightarrow> eid \<Rightarrow> base_state
    \<Rightarrow> ((tid \<times> command_table) option \<times> base_state) option" where
  "baseInit w e s = do {
     (info, s) \<leftarrow> learn_terminus w e s;
     case info of
       None \<Rightarrow> Some (None, s)
     | Some info \<Rightarrow>
         (case choose_tid info s of
            (None, s) \<Rightarrow> Some (None, s)
          | (Some t, s) \<Rightarrow> do {
              (ok, s) \<leftarrow> register_terminus w e info t s;
              Some (if ok then Some (t, ti_commands info) else None, s) }) }"

definition deleteDeviceBaseInfo :: "tid \<Rightarrow> base_state \<Rightarrow> bool \<times> base_state" where
  "deleteDeviceBaseInfo t s =
     (let s = (if t \<in> snd ` set (uuidMapping s) then releaseTIDAfterReclaimInterval t s else s);
          s = s\<lparr>tidMap := removeEntry t (tidMap s)\<rparr>
      in (map_of (discoveryDataTable s) t \<noteq> None,
          s\<lparr>discoveryDataTable := map_erase t (discoveryDataTable s)\<rparr>))"

section \<open>Devices come and go\<close>

text \<open>
  \<open>initDevice\<close> and \<open>deleteDevice\<close> start and stop the other PLDM types of a terminus. What these
  do to the state of this theory (which they reach only through the exchanges they make) is the
  argument \<open>types\<close>: for a PLDM type, a start and a stop.
\<close>

type_synonym pldm_type_hooks = "byte \<Rightarrow> (tid \<Rightarrow> base_state \<Rightarrow> base_state) \<times> (tid \<Rightarrow> base_state \<Rightarrow> base_state)"

definition initDevice :: "pldm_type_hooks \<Rightarrow> base_state world \<Rightarrow> eid \<Rightarrow> base_state
    \<Rightarrow> base_state option" where
  "initDevice types w e s = do {
     (r, s) \<leftarrow> baseInit w e s;
     Some (case r of
             None \<Rightarrow> s
           | Some (t, commands) \<Rightarrow>
               fold (\<lambda>ty s. if map_of commands ty \<noteq> None then fst (types ty) t s else s)
                 [PLDM_PLATFORM, PLDM_FRU, PLDM_FWUP] s) }"

definition deleteDevice :: "pldm_type_hooks \<Rightarrow> tid \<Rightarrow> base_state \<Rightarrow> base_state" where
  "deleteDevice types t s =
     snd (deleteDeviceBaseInfo t
       (fold (\<lambda>ty s. if isSupported_type s t ty then snd (types ty) t s else s)
          [PLDM_FWUP, PLDM_FRU, PLDM_PLATFORM] s))"

datatype base_event =
    Device_added "base_state world" eid
  | Device_removed eid
  | Reclaim_expired tid

fun onDeviceUpdate :: "pldm_type_hooks \<Rightarrow> base_event \<Rightarrow> base_state \<Rightarrow> base_state option" where
  "onDeviceUpdate types (Device_added w e) s = initDevice types w e s"
| "onDeviceUpdate types (Device_removed e) s = Some (case getMappedTID e (tidMap s) of
     None \<Rightarrow> s | Some t \<Rightarrow> deleteDevice types t s)"
| "onDeviceUpdate types (Reclaim_expired t) s =
     Some (if t \<in> set (tidReclaimWindowTimers s) then tid_reclaimed t s else s)"

end
