(* ===== verification/Pldm_Tids.thy ===== *)
theory Pldm_Tids
  imports Pldm_Discovery
begin

unbundle bit_operations_syntax

text \<open>
  Which terminus has which TID: the invariant of the TID pool, the UUID table, the reclaim
  timers and the TID mapper, under any interleaving of registrations, and what breaks it.
\<close>

section \<open>The pool\<close>

definition pool_ok :: "(tid \<times> bool) list \<Rightarrow> bool" where
  "pool_ok p \<longleftrightarrow> distinct (map fst p) \<and> fst ` set p = {t. 0 < t \<and> t < 255}"

lemma start_pool_ok: "pool_ok (TIDPool_ctor maxTIDPoolSize)"
proof -
  have "inj_on (\<lambda>n. word_of_nat n :: tid) {1..<255}"
    by (rule inj_onI) (simp add: word_of_nat_eq_iff take_bit_nat_eq_self)
  moreover have "(\<lambda>n. word_of_nat n :: tid) ` {1..<255} = {t. 0 < t \<and> t < 255}"
  proof safe
    fix t :: tid assume "0 < t" "t < 255"
    then have "unat t \<in> {1..<255}" by (simp add: word_less_nat_alt Suc_le_eq)
    then show "t \<in> (\<lambda>n. word_of_nat n :: tid) ` {1..<255}"
      by (intro image_eqI [of _ _ "unat t"]) simp_all
  qed (simp_all add: word_less_nat_alt unat_of_nat take_bit_nat_eq_self unsigned_of_nat)
  ultimately show ?thesis
    by (simp add: pool_ok_def TIDPool_ctor_def maxTIDPoolSize_def comp_def distinct_map image_image
        del: upt_Suc)
qed

lemma getFreeTID_keys [simp]: "map fst (snd (getFreeTID p)) = map fst p"
  by (induction p rule: getFreeTID.induct) (auto split: prod.splits)

lemma getFreeTID_Some:
  "getFreeTID p = (Some t, p') \<Longrightarrow> distinct (map fst p) \<Longrightarrow>
     (t, False) \<in> set p \<and> set p' = insert (t, True) (set p - {(t, False)})"
proof (induction p arbitrary: p' rule: getFreeTID.induct)
  case (2 t0 flag p)
  then show ?case by (auto split: prod.splits if_splits; force)
qed simp

lemma getFreeTID_None: "getFreeTID p = (None, p') \<Longrightarrow> p' = p \<and> (\<forall>t. (t, False) \<notin> set p)"
  by (induction p arbitrary: p' rule: getFreeTID.induct) (auto split: prod.splits if_splits)

lemma pushFront_keys [simp]: "map fst (pushFrontUnusedTID t p) = map fst p"
  by (induction t p rule: pushFrontUnusedTID.induct) auto

lemma pushFront_set:
  "distinct (map fst p) \<Longrightarrow> set (pushFrontUnusedTID t p)
     = (if (t, True) \<in> set p then insert (t, False) (set p - {(t, True)}) else set p)"
proof (induction t p rule: pushFrontUnusedTID.induct)
  case (2 u t flag p)
  then have "t \<notin> fst ` set p" by simp
  then have "(t, b) \<notin> set p" for b by force
  with 2 show ?case by (cases "t = u \<and> flag") auto
qed simp

lemma pool_ok_getFree: "pool_ok p \<Longrightarrow> pool_ok (snd (getFreeTID p))"
  by (simp add: pool_ok_def flip: set_map)

lemma pool_ok_pushFront: "pool_ok p \<Longrightarrow> pool_ok (pushFrontUnusedTID t p)"
  by (simp add: pool_ok_def flip: set_map)

lemma pool_ok_pushBack:
  assumes "pool_ok p"
  shows "pool_ok (pushBackFreedTID t p)"
    and "set (pushBackFreedTID t p)
      = (if (t, True) \<in> set p then insert (t, False) (set p - {(t, True)}) else set p)"
proof -
  from assms have d: "distinct (map fst p)" and dp: "distinct p"
    by (auto simp: pool_ok_def distinct_map)
  show set: "set (pushBackFreedTID t p)
      = (if (t, True) \<in> set p then insert (t, False) (set p - {(t, True)}) else set p)"
    using dp by (auto simp: pushBackFreedTID_def)
  show "pool_ok (pushBackFreedTID t p)"
  proof (cases "(t, True) \<in> set p")
    case True
    then obtain xs ys where p: "p = xs @ (t, True) # ys" "(t, True) \<notin> set xs"
      by (auto dest: split_list_first)
    with d have "pushBackFreedTID t p = xs @ ys @ [(t, False)]"
      by (simp add: pushBackFreedTID_def remove1_append)
    with assms p(1) show ?thesis by (auto simp: pool_ok_def)
  qed (use assms in \<open>simp add: pushBackFreedTID_def\<close>)
qed

section \<open>The invariant\<close>

abbreviation used :: "tid \<Rightarrow> base_state \<Rightarrow> bool" where
  "used t s \<equiv> (t, True) \<in> set (tidPool s)"

abbreviation mapped :: "base_state \<Rightarrow> tid set" where
  "mapped s \<equiv> fst ` set (tidMap s)"

abbreviation known :: "base_state \<Rightarrow> tid set" where
  "known s \<equiv> snd ` set (uuidMapping s)"

definition base_inv :: "base_state \<Rightarrow> bool" where
  "base_inv s \<longleftrightarrow> pool_ok (tidPool s) \<and> one_to_one (tidMap s)
     \<and> distinct (map fst (uuidMapping s)) \<and> distinct (map snd (uuidMapping s))
     \<and> (\<forall>t \<in> mapped s \<union> known s. used t s)
     \<and> set (tidReclaimWindowTimers s) \<subseteq> known s - mapped s"

text \<open>
  What a registration relies on while it waits, and what it guarantees to the others: the
  invariant is kept, a TID that is taken from the pool but not given to anybody yet is left
  alone, and so is the TID of a known UUID whose reclaim timer does not run.
\<close>

definition taken :: "tid \<Rightarrow> base_state \<Rightarrow> bool" where
  "taken t s \<longleftrightarrow> used t s \<and> t \<notin> mapped s \<and> t \<notin> known s"

definition held :: "uuid \<Rightarrow> tid \<Rightarrow> base_state \<Rightarrow> bool" where
  "held u t s \<longleftrightarrow> map_of (uuidMapping s) u = Some t \<and> t \<notin> set (tidReclaimWindowTimers s)"

definition calm :: "base_state \<Rightarrow> base_state \<Rightarrow> bool" where
  "calm s s' \<longleftrightarrow> (base_inv s \<longrightarrow> base_inv s' \<and> (\<forall>t. taken t s \<longrightarrow> taken t s')
     \<and> (\<forall>u t. held u t s \<longrightarrow> held u t s'))"

definition calm_world :: "base_state world \<Rightarrow> bool" where
  "calm_world w \<longleftrightarrow> (\<forall>cs c s. calm s (fst (w cs c s)))"

lemma calm_refl [simp]: "calm s s"
  by (simp add: calm_def)

lemma calm_trans [trans]: "calm a b \<Longrightarrow> calm b c \<Longrightarrow> calm a c"
  by (simp add: calm_def)

text \<open>Only four fields matter.\<close>

lemma calm_other_fields:
  assumes "tidPool s' = tidPool s" "tidMap s' = tidMap s" "uuidMapping s' = uuidMapping s"
    "tidReclaimWindowTimers s' = tidReclaimWindowTimers s"
  shows "base_inv s' = base_inv s" "taken t s' = taken t s" "held u t s' = held u t s" "calm s s'"
  using assms by (simp_all add: calm_def base_inv_def taken_def held_def)

lemma createInstanceId_fields [simp]:
  "tidPool (snd (createInstanceId_pldm t s)) = tidPool s"
  "tidMap (snd (createInstanceId_pldm t s)) = tidMap s"
  "uuidMapping (snd (createInstanceId_pldm t s)) = uuidMapping s"
  "tidReclaimWindowTimers (snd (createInstanceId_pldm t s)) = tidReclaimWindowTimers s"
  by (simp_all add: createInstanceId_pldm_def Let_def)

lemma calm_instance: "createInstanceId_pldm t s = (i, s1) \<Longrightarrow> calm s s1"
  using createInstanceId_fields [of t s] by (intro calm_other_fields(4)) simp_all

lemma calm_wait:
  assumes "calm_world w"
  shows "calm s (snd (wait_for w c s))"
proof -
  obtain s1 a where w: "w (calls s) c s = (s1, a)" by force
  with assms have "calm s s1" unfolding calm_world_def by (metis fst_conv)
  also have "calm s1 (s1\<lparr>calls := calls s @ [c]\<rparr>)"
    by (rule calm_other_fields) simp_all
  finally have "calm s (s1\<lparr>calls := calls s @ [c]\<rparr>)" .
  with w show ?thesis by (simp add: wait_for_def)
qed

section \<open>Exchanges keep it\<close>

text \<open>From here on the other coroutines are calm.\<close>

locale calm_exchanges =
  fixes w :: "base_state world"
  assumes w: "calm_world w"
begin

lemma exchange_calm:
  "calm s0 s \<Longrightarrow> always (\<lambda>r. calm s0 (snd (snd r))) (sendReceivePldmMessage w t timeout n req resp e s)"
proof -
  assume "calm s0 s"
  moreover have "sendReceivePldmMessage w t timeout n req resp e s = Some (ok, resp', s') \<Longrightarrow> calm s s'" for ok resp' s'
    by (rule sendReceive_rel [where R = calm, OF calm_wait [OF w] calm_refl calm_trans])
  ultimately show ?thesis
    by (auto simp: always_def dest: calm_trans)
qed

lemma base_exchange_calm:
  "calm s0 s \<Longrightarrow> always (\<lambda>r. calm s0 (snd (snd r))) (base_exchange w e req s)"
  unfolding base_exchange_def by (rule exchange_calm)

lemma instance_calm: "calm s0 s \<Longrightarrow> createInstanceId_pldm t s = (i, s1) \<Longrightarrow> calm s0 s1"
  using calm_instance calm_trans by blast

lemma types_calm: "calm s0 s \<Longrightarrow> always (\<lambda>r. calm s0 (snd r)) (getSupportedPLDMTypes w e s)"
  unfolding getSupportedPLDMTypes_def
  by (auto split: prod.splits intro!: always_bind [OF base_exchange_calm]
      always_any [where m = "decode_get_types_resp x" for x] intro: instance_calm)

lemma versions_loop_calm:
  "calm s0 s \<Longrightarrow> always (\<lambda>r. calm s0 (snd r)) (versions_loop w e i ty n h f b s)"
proof (induction n arbitrary: h f b s)
  case (Suc n)
  show ?case
    unfolding versions_loop.simps
    using Suc by (auto split: sum.splits option.splits intro!: always_bind [OF base_exchange_calm]
        always_any [where m = "decode_get_version_resp x" for x])
qed simp

lemma getPLDMVersions_calm: "calm s0 s \<Longrightarrow> always (\<lambda>r. calm s0 (snd r)) (getPLDMVersions w e ty s)"
  unfolding getPLDMVersions_def
  by (auto split: prod.splits intro!: always_bind [OF versions_loop_calm] intro: instance_calm)

lemma getPLDMCommands_calm: "calm s0 s \<Longrightarrow> always (\<lambda>r. calm s0 (snd r)) (getPLDMCommands w e ty v s)"
  unfolding getPLDMCommands_def
  by (auto split: prod.splits intro!: always_bind [OF base_exchange_calm]
      always_any [where m = "decode_get_commands_resp x" for x] intro: instance_calm)

lemma getTID_calm: "calm s0 s \<Longrightarrow> always (\<lambda>r. calm s0 (snd r)) (getTID w e s)"
  unfolding getTID_def
  by (auto split: prod.splits intro!: always_bind [OF base_exchange_calm]
      always_any [where m = "decode_get_tid_resp x" for x] intro: instance_calm)

lemma setTID_calm: "calm s0 s \<Longrightarrow> always (\<lambda>r. calm s0 (snd r)) (setTID w e t s)"
  unfolding setTID_def
  by (auto split: prod.splits sum.splits intro!: always_bind [OF base_exchange_calm]
      intro: instance_calm)

lemma getTerminusUID_calm: "calm s0 s \<Longrightarrow> always (\<lambda>r. calm s0 (snd r)) (getTerminusUID w t e s)"
  unfolding getTerminusUID_def
  by (auto split: prod.splits sum.splits intro!: always_bind [OF exchange_calm]
      always_any [where m = "decode_get_terminus_uid_resp x" for x] intro: instance_calm)

lemma version_table_calm:
  "calm s0 s \<Longrightarrow> always (\<lambda>r. calm s0 (snd r)) (createVersionSupportTable w e types s)"
proof (induction types arbitrary: s)
  case (Cons ty types)
  show ?case
    unfolding createVersionSupportTable.simps
    by (rule always_bind [OF getPLDMVersions_calm [OF Cons.prems]])
       (auto intro!: always_bind [OF Cons.IH])
qed simp

lemma command_table_calm:
  "calm s0 s \<Longrightarrow> always (\<lambda>r. calm s0 (snd r)) (createCommandSupportTable w e vs s)"
proof (induction vs arbitrary: s)
  case (Cons v vs)
  note IH = Cons.IH and prems = Cons.prems
  obtain ty versions where v: "v = (ty, versions)" by force
  show ?case
  proof (cases versions)
    case Nil
    with v IH prems show ?thesis by simp
  next
    case (Cons first others)
    show ?thesis
      unfolding v Cons createCommandSupportTable.simps list.case
      by (rule always_bind [OF getPLDMCommands_calm [OF prems]])
         (auto intro!: always_bind [OF IH])
  qed
qed simp

lemma learn_calm: "calm s0 s \<Longrightarrow> always (\<lambda>r. calm s0 (snd r)) (learn_terminus w e s)"
  unfolding learn_terminus_def
  by (auto split: option.splits intro!: always_bind [OF types_calm] always_bind [OF version_table_calm]
      always_bind [OF command_table_calm] always_bind [OF getTID_calm] always_bind [OF getTerminusUID_calm])

end

text \<open>What \<open>choose\_tid\<close> leaves behind: a TID of its own, or the one of the UUID.\<close>

definition chosen :: "terminus_info \<Rightarrow> tid \<Rightarrow> base_state \<Rightarrow> bool" where
  "chosen info t s \<longleftrightarrow> taken t s \<or> (\<exists>u. ti_uuid info = Some u \<and> held u t s)"

lemma known_tid_nonzero:
  assumes "base_inv s" "map_of (uuidMapping s) u = Some t"
  shows "t \<noteq> 0" "used t s"
proof -
  from assms(2) have "t \<in> known s" by (force dest: map_of_SomeD)
  with assms(1) show "used t s" by (auto simp: base_inv_def)
  then have "t \<in> fst ` set (tidPool s)" by force
  with assms(1) show "t \<noteq> 0" by (auto simp: base_inv_def pool_ok_def)
qed

lemma free_tid_taken:
  assumes inv: "base_inv s" and free: "getFreeTID (tidPool s) = (Some t, p)"
  shows "calm s (s\<lparr>tidPool := p\<rparr>)" "taken t (s\<lparr>tidPool := p\<rparr>)" "\<not> used t s"
proof -
  from inv have d: "distinct (map fst (tidPool s))" by (simp add: base_inv_def pool_ok_def)
  from getFreeTID_Some [OF free d] have f: "(t, False) \<in> set (tidPool s)"
    and p: "set p = insert (t, True) (set (tidPool s) - {(t, False)})" by auto
  show u: "\<not> used t s" using f d eq_key_imp_eq_value [OF d f, of True] by auto
  have "pool_ok p"
    using pool_ok_getFree [of "tidPool s"] inv free by (simp add: base_inv_def)
  with inv p show "calm s (s\<lparr>tidPool := p\<rparr>)"
    by (auto simp: calm_def base_inv_def taken_def held_def)
  from inv u p show "taken t (s\<lparr>tidPool := p\<rparr>)"
    by (auto simp: base_inv_def taken_def)
qed

lemma cancelled_held:
  assumes "map_of (uuidMapping s) u = Some t"
  shows "calm s (cancelTIDReclaimTimerIfExists t s)" "held u t (cancelTIDReclaimTimerIfExists t s)"
  using assms by (auto simp: calm_def base_inv_def taken_def held_def cancelTIDReclaimTimerIfExists_def)

lemma choose_calm:
  assumes inv: "base_inv s" and c: "choose_tid info s = (r, s')"
  shows "calm s s'" "r = Some t \<Longrightarrow> chosen info t s'" "r = Some t \<Longrightarrow> taken t s' \<Longrightarrow> \<not> used t s"
proof -
  define k where "k = (case ti_uuid info of None \<Rightarrow> None | Some u \<Rightarrow> map_of (uuidMapping s) u)"
  note c = c [unfolded choose_tid_def, folded k_def]
  have "calm s s' \<and> (\<forall>t. r = Some t \<longrightarrow> chosen info t s' \<and> (taken t s' \<longrightarrow> \<not> used t s))"
  proof (cases k)
    case None
    with c consider "r = None" "s' = s" | t p where "getFreeTID (tidPool s) = (Some t, p)" "r = Some t"
        "s' = s\<lparr>tidPool := p\<rparr>"
      by (cases "getFreeTID (tidPool s)"; cases "fst (getFreeTID (tidPool s))")
         (auto dest: getFreeTID_None)
    then show ?thesis
      by cases (use free_tid_taken [OF inv] in \<open>auto simp: chosen_def\<close>)
  next
    case (Some t)
    then obtain u where u: "ti_uuid info = Some u" "map_of (uuidMapping s) u = Some t"
      by (auto simp: k_def split: option.splits)
    have "t \<noteq> 0" using known_tid_nonzero [OF inv u(2)] by simp
    with c Some u consider "r = None" "s' = s" | "r = Some t" "s' = cancelTIDReclaimTimerIfExists t s"
      by (auto simp: Let_def split: if_splits)
    then show ?thesis
    proof cases
      case 2
      from cancelled_held(2) [OF u(2)] have "\<not> taken t (cancelTIDReclaimTimerIfExists t s)"
        by (force simp: taken_def held_def dest: map_of_SomeD)
      with 2 cancelled_held [OF u(2)] u(1) show ?thesis
        by (auto simp: chosen_def)
    qed simp
  qed
  then show "calm s s'" "r = Some t \<Longrightarrow> chosen info t s'"
    "r = Some t \<Longrightarrow> taken t s' \<Longrightarrow> \<not> used t s" by auto
qed

lemma keys_assign: "fst ` set (map_assign k v m) = insert k (fst ` set m)"
  by (induction k v m rule: map_assign.induct) (simp_all add: insert_commute)

lemma given_back:
  assumes "base_inv s" "taken t s"
  shows "base_inv (s\<lparr>tidPool := pushFrontUnusedTID t (tidPool s)\<rparr>)"
    "t0 \<noteq> t \<Longrightarrow> taken t0 s \<Longrightarrow> taken t0 (s\<lparr>tidPool := pushFrontUnusedTID t (tidPool s)\<rparr>)"
    "held u t1 s \<Longrightarrow> held u t1 (s\<lparr>tidPool := pushFrontUnusedTID t (tidPool s)\<rparr>)"
proof -
  from assms(1) have "distinct (map fst (tidPool s))" by (simp add: base_inv_def pool_ok_def)
  note set = pushFront_set [OF this, of t]
  from assms set show "base_inv (s\<lparr>tidPool := pushFrontUnusedTID t (tidPool s)\<rparr>)"
    by (auto simp: base_inv_def taken_def pool_ok_pushFront)
  show "t0 \<noteq> t \<Longrightarrow> taken t0 s \<Longrightarrow> taken t0 (s\<lparr>tidPool := pushFrontUnusedTID t (tidPool s)\<rparr>)"
    using set by (auto simp: taken_def)
  show "held u t1 s \<Longrightarrow> held u t1 (s\<lparr>tidPool := pushFrontUnusedTID t (tidPool s)\<rparr>)"
    by (simp add: held_def)
qed

text \<open>The state after a successful registration, but for the table of the commands.\<close>

definition registered_state :: "uuid option \<Rightarrow> tid \<Rightarrow> (tid \<times> eid) list \<Rightarrow> base_state \<Rightarrow> base_state" where
  "registered_state u t m s = (case u of
     None \<Rightarrow> s\<lparr>tidMap := m\<rparr>
   | Some u \<Rightarrow> if map_of (uuidMapping s) u \<noteq> None then s\<lparr>tidMap := m\<rparr>
             else s\<lparr>tidMap := m, uuidMapping := (u, t) # uuidMapping s\<rparr>)"

lemma registered_inv:
  assumes inv: "base_inv s" and c: "chosen info t s" and a: "addEntry t e (tidMap s) = (True, m)"
  defines "s' \<equiv> registered_state (ti_uuid info) t m s"
  shows "base_inv s'" "getMappedEID t (tidMap s') = Some e"
    "t0 \<noteq> t \<Longrightarrow> taken t0 s \<Longrightarrow> taken t0 s'" "held u t1 s \<Longrightarrow> held u t1 s'"
proof -
  from a have m: "m = map_assign t e (tidMap s)" by (auto simp: addEntry_def split: if_splits)
  from inv have o: "one_to_one (tidMap s)" by (simp add: base_inv_def)
  have o': "one_to_one m" using one_to_one_add [OF o, of t e] a by simp
  have keys: "fst ` set m = insert t (mapped s)" by (simp add: m keys_assign)
  have ut: "used t s" "t \<notin> set (tidReclaimWindowTimers s)"
    using c inv known_tid_nonzero(2) [OF inv]
    by (auto simp: chosen_def taken_def held_def base_inv_def)
  have map: "map_of m t = Some e"
    using o by (simp add: m one_to_one_def map_of_assign)
  consider (same) "s' = s\<lparr>tidMap := m\<rparr>"
    | (new) u where "ti_uuid info = Some u" "map_of (uuidMapping s) u = None"
        "s' = s\<lparr>tidMap := m, uuidMapping := (u, t) # uuidMapping s\<rparr>"
  proof (cases "ti_uuid info")
    case None
    then show thesis by (intro same) (simp add: s'_def registered_state_def)
  next
    case (Some u)
    then show thesis
      by (cases "map_of (uuidMapping s) u")
         (use same new in \<open>simp_all add: s'_def registered_state_def\<close>)
  qed
  then have "base_inv s' \<and> getMappedEID t (tidMap s') = Some e
    \<and> (t0 \<noteq> t \<longrightarrow> taken t0 s \<longrightarrow> taken t0 s') \<and> (held u t1 s \<longrightarrow> held u t1 s')"
  proof cases
    case same
    with inv o' keys ut map show ?thesis
      by (auto simp: base_inv_def taken_def held_def getMappedEID_def)
  next
    case (new u')
    with c have "taken t s" by (auto simp: chosen_def held_def)
    moreover from new(2) have "u' \<notin> fst ` set (uuidMapping s)" by (simp add: map_of_eq_None_iff)
    ultimately show ?thesis
      using new inv o' keys ut map
      by (auto simp: base_inv_def taken_def held_def getMappedEID_def)
  qed
  then show "base_inv s'" "getMappedEID t (tidMap s') = Some e"
    "t0 \<noteq> t \<Longrightarrow> taken t0 s \<Longrightarrow> taken t0 s'" "held u t1 s \<Longrightarrow> held u t1 s'" by auto
qed

context calm_exchanges
begin

lemma set_tid_calm:
  assumes "(if c then setTID w e t s else Some (True, s)) = Some (ok, s1)"
  shows "calm s s1"
  using assms setTID_calm [OF calm_refl, where e = e and t = t and s = s] by (auto simp: always_def split: if_splits)

lemma register_inv:
  assumes inv: "base_inv s" and c: "chosen info t s"
    and r: "register_terminus w e info t s = Some (ok, s')" and ok: "ok \<or> taken t s"
  shows "base_inv s'" "ok \<Longrightarrow> getMappedEID t (tidMap s') = Some e"
    "t0 \<noteq> t \<Longrightarrow> taken t0 s \<Longrightarrow> taken t0 s'" "held u t1 s \<Longrightarrow> held u t1 s'"
proof -
  let ?set = "if isSupported (ti_commands info) PLDM_BASE PLDM_SET_TID then setTID w e t s else Some (True, s)"
  from r obtain ok1 s1 where s1: "?set = Some (ok1, s1)"
    by (cases ?set) (auto simp: register_terminus_def simp del: if_split)
  have "calm s s1" by (rule set_tid_calm [OF s1])
  with inv c have inv1: "base_inv s1" and c1: "chosen info t s1"
    and keep: "\<And>t. taken t s \<Longrightarrow> taken t s1" "\<And>u t. held u t s \<Longrightarrow> held u t s1"
    by (auto simp: calm_def chosen_def)
  obtain added m where a: "addEntry t e (tidMap s1) = (added, m)" by force
  show "base_inv s'" "ok \<Longrightarrow> getMappedEID t (tidMap s') = Some e"
    "t0 \<noteq> t \<Longrightarrow> taken t0 s \<Longrightarrow> taken t0 s'" "held u t1 s \<Longrightarrow> held u t1 s'"
  proof -
    consider (failed) "\<not> ok" "s' = s1\<lparr>tidPool := pushFrontUnusedTID t (tidPool s1)\<rparr>"
      | (success) d where "added" "ok"
          "s' = (registered_state (ti_uuid info) t m s1)\<lparr>discoveryDataTable := d\<rparr>"
    proof (cases "ok1 \<and> added")
      case True
      let ?d = "map_assign t \<lparr> cmdSupportTable = ti_commands info,
        msgTypeInterface = getPldmMsgTypes (ti_pldmTypes info),
        uuidInterface_of = (case ti_uuid info of None \<Rightarrow> replicate 16 0 | Some u \<Rightarrow> u) \<rparr> (discoveryDataTable s1)"
      from True r s1 a have "added" "ok" "s' = (registered_state (ti_uuid info) t m s1)\<lparr>discoveryDataTable := ?d\<rparr>"
        by (auto simp: register_terminus_def registered_state_def Let_def split: option.splits if_splits)
      then show thesis by (rule success)
    next
      case False
      with r s1 a failed show thesis by (simp add: register_terminus_def split: if_splits)
    qed
    then have "base_inv s' \<and> (ok \<longrightarrow> getMappedEID t (tidMap s') = Some e)
      \<and> (t0 \<noteq> t \<longrightarrow> taken t0 s \<longrightarrow> taken t0 s') \<and> (held u t1 s \<longrightarrow> held u t1 s')"
    proof cases
      case failed
      with ok keep(1) have "taken t s1" by simp
      from given_back [OF inv1 this] failed keep show ?thesis by auto
    next
      case (success d)
      let ?r = "registered_state (ti_uuid info) t m s1"
      have same: "base_inv s' = base_inv ?r" "taken t0 s' = taken t0 ?r" "held u t1 s' = held u t1 ?r"
        unfolding success(3) by (rule calm_other_fields; simp)+
      from registered_inv [OF inv1 c1, of e m] a success keep same show ?thesis by auto
    qed
    then show "base_inv s'" "ok \<Longrightarrow> getMappedEID t (tidMap s') = Some e"
      "t0 \<noteq> t \<Longrightarrow> taken t0 s \<Longrightarrow> taken t0 s'" "held u t1 s \<Longrightarrow> held u t1 s'" by auto
  qed
qed

lemma baseInit_cases:
  assumes "baseInit w e s = Some (r, s')" "base_inv s"
  obtains (refused) "r = None" "calm s s'"
  | (registered) info s1 t s2 ok where "learn_terminus w e s = Some (Some info, s1)" "calm s s1"
      "choose_tid info s1 = (Some t, s2)" "register_terminus w e info t s2 = Some (ok, s')"
      "r = (if ok then Some (t, ti_commands info) else None)"
proof -
  from assms(1) obtain i s1 where l: "learn_terminus w e s = Some (i, s1)"
    by (cases "learn_terminus w e s") (auto simp: baseInit_def)
  then have c: "calm s s1" using learn_calm [OF calm_refl, where e = e and s = s] by (simp add: always_def)
  show thesis
  proof (cases i)
    case None
    with assms(1) l c refused show thesis by (simp add: baseInit_def)
  next
    case (Some info)
    obtain r1 s2 where ch: "choose_tid info s1 = (r1, s2)" by force
    from assms(2) c have "base_inv s1" by (simp add: calm_def)
    from choose_calm(1) [OF this ch] c have c2: "calm s s2" by (rule calm_trans [rotated])
    show thesis
    proof (cases r1)
      case None
      with assms(1) l Some ch c2 refused show thesis by (simp add: baseInit_def)
    next
      case t: (Some t)
      with assms(1) l Some ch obtain ok where
        "register_terminus w e info t s2 = Some (ok, s')" "r = (if ok then Some (t, ti_commands info) else None)"
        by (cases "register_terminus w e info t s2") (auto simp: baseInit_def)
      with registered l Some c ch t show thesis by simp
    qed
  qed
qed

end

section \<open>Registrations, removals and expired timers\<close>

text \<open>The registration that spoils the pool: of a terminus whose UUID has a TID already, and that
  then fails.\<close>

definition fails_with_known_uuid :: "base_state world \<Rightarrow> eid \<Rightarrow> base_state \<Rightarrow> bool" where
  "fails_with_known_uuid w e s = (case learn_terminus w e s of
     Some (Some info, s1) \<Rightarrow>
       (case ti_uuid info of
          None \<Rightarrow> False
        | Some u \<Rightarrow> map_of (uuidMapping s1) u \<noteq> None \<and>
            (case choose_tid info s1 of
               (Some t, s2) \<Rightarrow> map_option fst (register_terminus w e info t s2) = Some False
             | _ \<Rightarrow> False))
   | _ \<Rightarrow> False)"

lemma choose_fresh:
  assumes "base_inv s" "choose_tid info s = (Some t, s')"
    "\<And>u. ti_uuid info = Some u \<Longrightarrow> map_of (uuidMapping s) u = None"
  shows "taken t s'"
proof -
  from assms(2,3) obtain p where "getFreeTID (tidPool s) = (Some t, p)" "s' = s\<lparr>tidPool := p\<rparr>"
    by (cases "getFreeTID (tidPool s)") (auto simp: choose_tid_def split: option.splits)
  with free_tid_taken [OF assms(1)] show ?thesis by simp
qed

context calm_exchanges
begin

lemma baseInit_calm:
  assumes r: "baseInit w e s = Some (r, s')" and ok: "\<not> fails_with_known_uuid w e s"
  shows "calm s s'"
proof (cases "base_inv s")
  case inv: True
  from r inv show ?thesis
  proof (cases rule: baseInit_cases)
    case (registered info s1 t s2 ok1)
    note register = register_inv [OF _ _ registered(4)]
    from inv registered(2) have inv1: "base_inv s1" by (simp add: calm_def)
    note choose = choose_calm [OF inv1 registered(3)]
    from inv1 choose(1) have inv2: "base_inv s2" by (simp add: calm_def)
    have t: "chosen info t s2" by (rule choose(2)) simp
    have fine: "ok1 \<or> taken t s2"
    proof (cases "\<exists>u. ti_uuid info = Some u \<and> map_of (uuidMapping s1) u \<noteq> None")
      case True
      with ok registered(1,3,4) show ?thesis
        by (cases ok1) (auto simp: fails_with_known_uuid_def)
    next
      case False
      then show ?thesis using choose_fresh [OF inv1 registered(3)] by auto
    qed
    note register = register [OF inv2 t fine]
    have new: "t0 \<noteq> t" if "taken t0 s1" for t0
    proof
      assume "t0 = t"
      with that choose(1) inv1 have "taken t s2" by (simp add: calm_def)
      with choose(3) [of t] that \<open>t0 = t\<close> show False by (simp add: taken_def)
    qed
    have "calm s1 s'"
      using register new choose(1) inv1 by (simp add: calm_def)
    with registered(2) show ?thesis by (rule calm_trans)
  qed
qed (simp add: calm_def)

text \<open>A terminus with a known UUID gets its TID back, and its timer is stopped.\<close>

lemma baseInit_known:
  assumes r: "baseInit w e s = Some (Some (t', cmds), s')" and inv: "base_inv s"
    and l: "learn_terminus w e s = Some (Some info, s1)"
    and u: "ti_uuid info = Some u" "map_of (uuidMapping s1) u = Some t"
  shows "t' = t \<and> getMappedEID t (tidMap s') = Some e \<and> held u t s'
    \<and> (ti_assignedTID info = 0 \<or> t \<in> set (tidReclaimWindowTimers s1))"
  using r inv
proof (cases rule: baseInit_cases)
  case (registered info2 s12 t2 s2 ok)
  with l have i: "info2 = info" "s12 = s1" by auto
  from inv registered(2) have inv1: "base_inv s1" by (simp add: calm_def i)
  have t0: "t \<noteq> 0" using known_tid_nonzero [OF inv1 u(2)] by simp
  from registered(3) u t0 i have c: "t2 = t" "s2 = cancelTIDReclaimTimerIfExists t s1"
      "ti_assignedTID info = 0 \<or> t \<in> set (tidReclaimWindowTimers s1)"
    by (auto simp: choose_tid_def isTerminusUnregistered_def split: if_splits)
  from registered(5) have ok: "ok" "t' = t2" by (auto split: if_splits)
  from inv1 cancelled_held [OF u(2)] have inv2: "base_inv s2" "held u t s2"
    by (simp_all add: calm_def c)
  have "chosen info t s2" using u(1) inv2(2) by (auto simp: chosen_def)
  note reg = register_inv [OF inv2(1) this registered(4) [unfolded i c(1)]]
  from reg(2,4) ok c inv2(2) show ?thesis by simp
qed simp

end

text \<open>Removals and expired timers.\<close>

lemma erase_mapped_filter: "distinct (map snd m) \<Longrightarrow> erase_mapped t m = filter (\<lambda>p. snd p \<noteq> t) m"
  by (induction t m rule: erase_mapped.induct) (auto intro!: filter_True [symmetric])

lemma delete_inv:
  assumes "base_inv s"
  shows "base_inv (snd (deleteDeviceBaseInfo t s))"
proof -
  have "fst ` set (removeEntry t (tidMap s)) = mapped s - {t}"
    by (auto simp: removeEntry_def map_erase_def)
  moreover have "one_to_one (removeEntry t (tidMap s))"
    using assms by (simp add: base_inv_def one_to_one_remove)
  ultimately show ?thesis
    using assms by (auto simp: base_inv_def deleteDeviceBaseInfo_def Let_def
        releaseTIDAfterReclaimInterval_def)
qed

lemma reclaim_inv:
  assumes inv: "base_inv s" and t: "t \<in> set (tidReclaimWindowTimers s)"
  shows "base_inv (tid_reclaimed t s)"
proof -
  from inv have p: "pool_ok (tidPool s)" and d: "distinct (map snd (uuidMapping s))"
    by (auto simp: base_inv_def)
  have "distinct (map fst (filter (\<lambda>p. snd p \<noteq> t) (uuidMapping s)))"
    "distinct (map snd (filter (\<lambda>p. snd p \<noteq> t) (uuidMapping s)))"
    using inv by (auto simp: base_inv_def distinct_map_filter)
  with inv t show ?thesis
    using pool_ok_pushBack [OF p, of t] erase_mapped_filter [OF d, of t]
    by (auto simp: base_inv_def tid_reclaimed_def)
qed

text \<open>The other PLDM types of a terminus are taken to be calm as well.\<close>

definition calm_types :: "pldm_type_hooks \<Rightarrow> bool" where
  "calm_types types \<longleftrightarrow> (\<forall>ty t s. calm s (fst (types ty) t s) \<and> calm s (snd (types ty) t s))"

lemma fold_calm: "(\<And>x s. calm s (f x s)) \<Longrightarrow> calm s (fold f xs s)"
  by (induction xs arbitrary: s) (auto intro: calm_trans)

definition base_step :: "pldm_type_hooks \<Rightarrow> base_state option \<Rightarrow> base_event \<Rightarrow> base_state option" where
  "base_step types so ev = Option.bind so (onDeviceUpdate types ev)"

definition base_enabled :: "pldm_type_hooks \<Rightarrow> base_state option \<Rightarrow> base_event \<Rightarrow> bool" where
  "base_enabled types so ev = (calm_types types \<and> (case (so, ev) of
     (Some s, Device_added w e) \<Rightarrow> calm_world w \<and> \<not> fails_with_known_uuid w e s
   | _ \<Rightarrow> True))"

lemma initDevice_inv:
  assumes "calm_types types" "calm_world w" "\<not> fails_with_known_uuid w e s"
    "initDevice types w e s = Some s'"
  shows "calm s s'"
proof -
  from assms(4) obtain r s1 where b: "baseInit w e s = Some (r, s1)"
    by (cases "baseInit w e s") (auto simp: initDevice_def)
  have "calm s s1"
    using calm_exchanges.baseInit_calm [OF calm_exchanges.intro [OF assms(2)] b assms(3)] .
  moreover have "calm s1 s'"
  proof (cases r)
    case (Some r1)
    obtain t cmds where r: "r = Some (t, cmds)" using Some by (cases r1) simp
    let ?f = "\<lambda>ty s. if map_of cmds ty \<noteq> None then fst (types ty) t s else s"
    from assms(4) b r have "s' = fold ?f [PLDM_PLATFORM, PLDM_FRU, PLDM_FWUP] s1"
      by (simp add: initDevice_def)
    moreover have "calm s1 (fold ?f [PLDM_PLATFORM, PLDM_FRU, PLDM_FWUP] s1)"
      by (rule fold_calm) (use assms(1) in \<open>simp add: calm_types_def\<close>)
    ultimately show ?thesis by simp
  qed (use assms(4) b in \<open>simp add: initDevice_def\<close>)
  ultimately show ?thesis by (rule calm_trans)
qed

lemma deleteDevice_inv:
  assumes "calm_types types" "base_inv s"
  shows "base_inv (deleteDevice types t s)"
proof -
  have "calm s (fold (\<lambda>ty s. if isSupported_type s t ty then snd (types ty) t s else s)
      [PLDM_FWUP, PLDM_FRU, PLDM_PLATFORM] s)"
    by (rule fold_calm) (use assms(1) in \<open>simp add: calm_types_def\<close>)
  with assms(2) show ?thesis
    unfolding deleteDevice_def by (intro delete_inv) (simp add: calm_def)
qed

lemma base_start_inv: "base_inv base_start"
  by (simp add: base_inv_def base_start_def pldm.defs base_state.defs start_pool_ok pldm_start_def
      one_to_one_def)

interpretation tids: machine "Some base_start" "base_step types" "base_enabled types"
    "\<lambda>so. \<forall>s. so = Some s \<longrightarrow> base_inv s" for types
proof unfold_locales
  show "\<forall>s. Some base_start = Some s \<longrightarrow> base_inv s" by (simp add: base_start_inv)
next
  fix so ev
  assume i: "\<forall>s. so = Some s \<longrightarrow> base_inv s" and en: "base_enabled types so ev"
  show "\<forall>s. base_step types so ev = Some s \<longrightarrow> base_inv s"
  proof (cases so)
    case (Some s)
    with i have s: "base_inv s" by simp
    show ?thesis
    proof (cases ev)
      case (Device_added w e)
      with Some en initDevice_inv [of types w e s] s show ?thesis
        by (auto simp: base_step_def base_enabled_def calm_def)
    next
      case (Device_removed e)
      with Some en s show ?thesis
        by (auto simp: base_step_def base_enabled_def deleteDevice_inv split: option.splits)
    next
      case (Reclaim_expired t)
      with Some s show ?thesis by (auto simp: base_step_def reclaim_inv)
    qed
  qed (simp add: base_step_def)
qed


section \<open>No two termini share a TID\<close>

text \<open>C17: Whatever devices are added and removed in whatever order, and whatever the registrations
  that overlap do, as long as no terminus with a known UUID fails its registration (one that does
  breaks this, \<open>failed\_return\_frees\_a\_reserved\_tid\<close>) and the other coroutines and the
  PLDM types are calm: the pool holds each of the TIDs 1 to 254 exactly once, the TID of
  every registered terminus and of every known UUID is marked as used in it, a TID whose
  reclaim timer runs is nobody's, different UUIDs have different TIDs, and the TID that the pool
  hands out next belongs to no terminus and to no UUID.\<close>

theorem registered_tids_are_reserved:
  assumes "admissible (base_step types) (base_enabled types) (Some base_start) evs"
    and "run (base_step types) (Some base_start) evs = Some s"
  shows "(getMappedEID t (tidMap s) = Some e \<longrightarrow> (t, True) \<in> set (tidPool s))
    \<and> (map_of (uuidMapping s) u = Some t \<longrightarrow> (t, True) \<in> set (tidPool s)
         \<and> (map_of (uuidMapping s) u' = Some t \<longrightarrow> u = u'))
    \<and> (isTerminusUnregistered t s \<longrightarrow> getMappedEID t (tidMap s) = None)
    \<and> (fst (getFreeTID (tidPool s)) = Some t \<longrightarrow>
         t \<noteq> 0 \<and> getMappedEID t (tidMap s) = None \<and> t \<notin> snd ` set (uuidMapping s))
    \<and> distinct (map fst (tidPool s)) \<and> fst ` set (tidPool s) = {t. 0 < t \<and> t < 255}"
proof -
  from assms have inv: "base_inv s" using tids.inv_run by blast
  have pool: "distinct (map fst (tidPool s)) \<and> fst ` set (tidPool s) = {t. 0 < t \<and> t < 255}"
    using inv by (simp add: base_inv_def pool_ok_def)
  have d: "distinct (map snd (uuidMapping s))" using inv by (simp add: base_inv_def)
  have m: "t \<in> mapped s" if "getMappedEID t (tidMap s) = Some e" for e
    using that by (force simp: getMappedEID_def dest: map_of_SomeD)
  have n: "getMappedEID t (tidMap s) = None" if "t \<notin> mapped s"
    using that by (auto simp: getMappedEID_def map_of_eq_None_iff)
  have "u = u'" if "map_of (uuidMapping s) u = Some t" "map_of (uuidMapping s) u' = Some t"
    using inj_onD [of snd "set (uuidMapping s)" "(u, t)" "(u', t)"] that d
    by (auto simp: distinct_map dest!: map_of_SomeD)
  moreover have "t \<noteq> 0 \<and> t \<notin> mapped s \<and> t \<notin> known s" if free: "fst (getFreeTID (tidPool s)) = Some t"
  proof -
    obtain p where p: "getFreeTID (tidPool s) = (Some t, p)" using free by (cases "getFreeTID (tidPool s)") simp
    note f = free_tid_taken [OF inv p]
    have "(t, False) \<in> set (tidPool s)"
      using getFreeTID_Some [OF p] inv by (simp add: base_inv_def pool_ok_def)
    then have "t \<in> fst ` set (tidPool s)" by force
    then have "t \<noteq> 0" using inv by (auto simp: base_inv_def pool_ok_def)
    with f(2) show ?thesis by (simp add: taken_def)
  qed
  moreover have "used t s" if "getMappedEID t (tidMap s) = Some e"
    using inv m [OF that] by (simp add: base_inv_def)
  moreover have "used t s" if "map_of (uuidMapping s) u = Some t"
    using known_tid_nonzero(2) [OF inv that] .
  moreover have "t \<notin> mapped s" if "isTerminusUnregistered t s"
    using inv that by (auto simp: base_inv_def isTerminusUnregistered_def)
  ultimately show ?thesis using n pool by blast
qed

text \<open>C18: A registration that succeeds maps the TID to the device. If the terminus reports a UUID
  that has a TID, it gets this TID and no other, its reclaim timer is stopped, and the terminus
  had lost its TID or was removed before: one that is registered and still has its TID is
  refused.\<close>

theorem known_terminus_keeps_its_tid:
  assumes "calm_world w" and "base_inv s"
    and "baseInit w e s = Some (Some (t', cmds), s')"
    and "learn_terminus w e s = Some (Some info, s1)"
    and "ti_uuid info = Some u" "map_of (uuidMapping s1) u = Some t"
  shows "t' = t \<and> getMappedEID t (tidMap s') = Some e \<and> \<not> isTerminusUnregistered t s'
    \<and> (ti_assignedTID info = 0 \<or> isTerminusUnregistered t s1)"
  using calm_exchanges.baseInit_known [OF calm_exchanges.intro [OF assms(1)] assms(3,2,4-6)]
  by (simp add: held_def isTerminusUnregistered_def)

section \<open>A registration that fails\<close>

text \<open>When a terminus comes back within the reclaim window and does not accept its TID, the TID
  goes back to the pool although the UUID keeps it: it can be handed to another terminus, and
  when the first one comes back once more it takes the TID over.\<close>

lemma failed_return_frees_a_reserved_tid:
  assumes w: "calm_world w" and inv: "base_inv s"
    and u: "ti_uuid info = Some u" "map_of (uuidMapping s) u = Some t"
    and c: "choose_tid info s = (Some t, s1)"
    and r: "register_terminus w e info t s1 = Some (False, s2)"
  shows "(t, False) \<in> set (tidPool s2) \<and> map_of (uuidMapping s2) u = Some t"
proof -
  have "t \<noteq> 0" using known_tid_nonzero [OF inv u(2)] by simp
  with c u have "s1 = cancelTIDReclaimTimerIfExists t s"
    by (auto simp: choose_tid_def split: if_splits)
  with cancelled_held [OF u(2)] inv have h: "base_inv s1" "held u t s1"
    by (simp_all add: calm_def)
  let ?set = "if isSupported (ti_commands info) PLDM_BASE PLDM_SET_TID then setTID w e t s1 else Some (True, s1)"
  from r obtain ok s3 where s3: "?set = Some (ok, s3)"
    by (cases ?set) (auto simp: register_terminus_def simp del: if_split)
  have "calm s1 s3"
    by (rule calm_exchanges.set_tid_calm [OF calm_exchanges.intro [OF w] s3])
  with h have i3: "base_inv s3" and h3: "map_of (uuidMapping s3) u = Some t"
    by (auto simp: calm_def held_def)
  have "s2 = s3\<lparr>tidPool := pushFrontUnusedTID t (tidPool s3)\<rparr>"
    using r s3 by (cases ok; cases "addEntry t e (tidMap s3)")
      (auto simp: register_terminus_def Let_def split: if_splits)
  with pushFront_set [of "tidPool s3" t] i3 known_tid_nonzero(2) [OF i3 h3] h3 show ?thesis
    by (simp add: base_inv_def pool_ok_def)
qed

section \<open>Concrete termini\<close>

text \<open>A terminus with the TID \<open>assigned\<close> and a UUID of 16 times the byte \<open>u\<close> that implements
  PLDM base and platform and answers SetTID with the completion code \<open>cc\<close>.\<close>

definition version_packet :: "byte list" where
  "version_packet = [0, 0xF0, 0xF0, 0xF1] @ enc32 (crc32 [0, 0xF0, 0xF0, 0xF1])"

definition terminus_answer :: "byte \<Rightarrow> tid \<Rightarrow> byte \<Rightarrow> byte \<Rightarrow> byte \<Rightarrow> byte list" where
  "terminus_answer u assigned cc ty cmd =
     (if ty = 2 then 0 # replicate 16 u
      else if cmd = 4 then 0 # 0x05 # replicate 7 0
      else if cmd = 3 then [0, 0, 0, 0, 0, 5] @ version_packet
      else if cmd = 5 then 0 # 0x3E # replicate 31 0
      else if cmd = 2 then [0, assigned]
      else [cc])"

definition terminus :: "byte \<Rightarrow> tid \<Rightarrow> byte \<Rightarrow> base_state world" where
  "terminus u assigned cc cs c s = (s, \<lparr> a_error = False, a_rc = 0, a_bytes = (case c of
     SendReceive d tm p \<Rightarrow> [1, p ! 1 AND 0x1F, p ! 2, p ! 3] @ terminus_answer u assigned cc (p ! 2) (p ! 3)
   | _ \<Rightarrow> []) \<rparr>)"

lemma terminus_calm [simp]: "calm_world (terminus u a cc)"
  by (simp add: calm_world_def terminus_def)

interpretation sample: calm_exchanges "terminus u a cc" for u a cc
  by unfold_locales simp

definition alike :: "base_state \<Rightarrow> base_state \<Rightarrow> bool" where
  "alike s' s \<longleftrightarrow> tidPool s' = tidPool s \<and> tidMap s' = tidMap s \<and> uuidMapping s' = uuidMapping s
     \<and> tidReclaimWindowTimers s' = tidReclaimWindowTimers s \<and> discoveryDataTable s' = discoveryDataTable s
     \<and> rsvBWActive s' = rsvBWActive s"

lemma terminus_exchange:
  assumes "\<not> rsvBWActive s" "ty < 64"
  shows "\<exists>s'. sendReceivePldmMessage (terminus u a cc) t tm 3 (h # ty # cmd # rest) [] (Some e) s
      = Some (True, (h AND 0x1F) # ty # cmd # terminus_answer u a cc ty cmd, s') \<and> alike s' s"
proof -
  have "receive_step (1 # h # ty # cmd # rest) (1 # (h AND 0x1F) # ty # cmd # terminus_answer u a cc ty cmd)
    = Some (True, h # ty # cmd # rest, (h AND 0x1F) # ty # cmd # terminus_answer u a cc ty cmd)"
    by (simp add: receive_step_def getPldmPacketType_def PLDM_RESPONSE_def PLDM_RQ_D_MASK_def
        mctp_type_pldm_def getInstanceId_pldm_def PLDM_INSTANCE_ID_MASK_def)
  with assms show ?thesis
    by (simp add: sendReceivePldmMessage_def header_type_def validateReserveBW_def numeral_3_eq_3
        wait_for_def terminus_def mctp_type_pldm_def Let_def alike_def)
qed

lemma alike_trans: "alike c b \<Longrightarrow> alike b a \<Longrightarrow> alike c a"
  by (simp add: alike_def)

text \<open>An exchange that starts with a new instance id.\<close>

lemma instance_exchange:
  assumes "\<not> rsvBWActive s" "ty < 64"
  obtains i s1 s2 where "createInstanceId_pldm d s = (i, s1)" "i < 32"
    "sendReceivePldmMessage (terminus u a cc) t tm 3 ((0x80 OR i) # ty # cmd # rest) [] (Some e) s1
      = Some (True, i # ty # cmd # terminus_answer u a cc ty cmd, s2)" "alike s2 s"
proof -
  obtain i s1 where i: "createInstanceId_pldm d s = (i, s1)" by force
  with instance_id_range [of d s] have "i < 32" by simp
  from i have a: "alike s1 s"
    by (auto simp: createInstanceId_pldm_def Let_def alike_def)
  then have "\<not> rsvBWActive s1" using assms(1) by (simp add: alike_def)
  from terminus_exchange [OF this assms(2), of u a cc t tm "0x80 OR i" cmd rest e] \<open>i < 32\<close>
  obtain s2 where "sendReceivePldmMessage (terminus u a cc) t tm 3 ((0x80 OR i) # ty # cmd # rest) [] (Some e) s1
      = Some (True, i # ty # cmd # terminus_answer u a cc ty cmd, s2)" "alike s2 s1" by auto
  with that [OF i \<open>i < 32\<close>] alike_trans [OF _ a] show thesis by blast
qed

lemmas terminus_simps = base_exchange_def header_req [unfolded PLDM_BASE_def] header_or_zeros_def terminus_answer_def
  payload_at_def validatePLDMRespDecode_def PLDM_SUCCESS_def base_commands

lemma types_answer:
  "\<not> rsvBWActive s \<Longrightarrow> \<exists>s'. getSupportedPLDMTypes (terminus u a cc) e s
     = Some (Some (0x05 # replicate 7 0), s') \<and> alike s' s"
  by (rule instance_exchange [of s 0 defaultTID u a cc defaultTID 100 4 "[]" e])
     (auto simp: getSupportedPLDMTypes_def encode_get_types_req_def terminus_simps
       decode_get_types_resp_def)

lemma version_packet_read: "checked_versions version_packet = Some [(0xF1, 0xF0, 0xF0, 0)]"
  by (simp add: checked_versions_def version_packet_def Let_def read_enc)

lemma versions_answer:
  "\<not> rsvBWActive s \<Longrightarrow> \<exists>s'. getPLDMVersions (terminus u a cc) e ty s
     = Some (Some [(0xF1, 0xF0, 0xF0, 0)], s') \<and> alike s' s"
  by (rule instance_exchange [of s 0 defaultTID u a cc defaultTID 100 3
        "enc32 0 @ [PLDM_GET_FIRSTPART, ty]" e])
     (auto simp: getPLDMVersions_def encode_get_version_req_def terminus_simps
       versions_loop.simps(2) [where n = 16, simplified] read32_Cons le32_def
       decode_get_version_resp_def check_transfer_flag_valid_def transfer_flags version_packet_read)


lemma commands_answer:
  "\<not> rsvBWActive s \<Longrightarrow> \<exists>s'. getPLDMCommands (terminus u a cc) e ty (0xF1, 0xF0, 0xF0, 0) s
     = Some (Some (0x3E # replicate 31 0), s') \<and> alike s' s"
  by (rule instance_exchange [of s 0 defaultTID u a cc defaultTID 100 5 "[ty, 0, 0xF0, 0xF0, 0xF1]" e])
     (auto simp: getPLDMCommands_def encode_get_commands_req_def terminus_simps
       decode_get_commands_resp_def)

lemma tid_answer:
  "\<not> rsvBWActive s \<Longrightarrow> \<exists>s'. getTID (terminus u a cc) e s = Some (Some a, s') \<and> alike s' s"
  by (rule instance_exchange [of s 0 defaultTID u a cc defaultTID 100 2 "[]" e])
     (auto simp: getTID_def encode_get_tid_req_def terminus_simps decode_get_tid_resp_def)

lemma set_tid_answer:
  "\<not> rsvBWActive s \<Longrightarrow> \<exists>s'. setTID (terminus u a cc) e t s = Some (cc = 0, s') \<and> alike s' s"
  by (rule instance_exchange [of s 0 defaultTID u a cc defaultTID 100 1 "[t]" e])
     (auto simp: setTID_def encode_set_tid_req_def terminus_simps decode_cc_only_resp_def
       uint_0_iff)

lemma uid_answer:
  "\<not> rsvBWActive s \<Longrightarrow> \<exists>s'. getTerminusUID (terminus u a cc) t (Some e) s
     = Some (Some (replicate 16 u), s') \<and> alike s' s"
  by (rule instance_exchange [of s 2 t u a cc t 100 3 "[]" e])
     (auto simp: getTerminusUID_def encode_get_terminus_uid_req_def encode_header_only_request_def
       packed_header is_msg_type_def PLDM_REQUEST_def PLDM_RESPONSE_def PLDM_ASYNC_REQUEST_NOTIFY_def
       PLDM_PLATFORM_def PLDM_GET_TERMINUS_UID_def terminus_simps decode_get_terminus_uid_resp_def)

definition terminus_info_of :: "byte \<Rightarrow> tid \<Rightarrow> terminus_info" where
  "terminus_info_of u a = \<lparr> ti_pldmTypes = 0x05 # replicate 7 0,
     ti_commands = [(0, [((0xF1, 0xF0, 0xF0, 0), 0x3E # replicate 31 0)]),
                    (2, [((0xF1, 0xF0, 0xF0, 0), 0x3E # replicate 31 0)])],
     ti_assignedTID = a, ti_uuid = Some (replicate 16 u) \<rparr>"

lemma learned_terminus:
  assumes "\<not> rsvBWActive s" "getMappedTID e (tidMap s) = None"
  shows "\<exists>s'. learn_terminus (terminus u a cc) e s = Some (Some (terminus_info_of u a), s') \<and> alike s' s"
proof -
  let ?w = "terminus u a cc" and ?v = "(0xF1, 0xF0, 0xF0, 0) :: ver32"
  have step: "\<not> rsvBWActive s'" if "alike s' s" for s' using that assms(1) by (simp add: alike_def)
  from types_answer [OF assms(1), of u a cc e] obtain s1
    where 1: "getSupportedPLDMTypes ?w e s = Some (Some (0x05 # replicate 7 0), s1)" "alike s1 s" by blast
  from versions_answer [OF step [OF 1(2)], of u a cc e 0] 1(2) obtain s2
    where 2: "getPLDMVersions ?w e 0 s1 = Some (Some [?v], s2)" "alike s2 s" by (blast intro: alike_trans)
  from versions_answer [OF step [OF 2(2)], of u a cc e 2] 2(2) obtain s3
    where 3: "getPLDMVersions ?w e 2 s2 = Some (Some [?v], s3)" "alike s3 s" by (blast intro: alike_trans)
  from commands_answer [OF step [OF 3(2)], of u a cc e 0] 3(2) obtain s4
    where 4: "getPLDMCommands ?w e 0 ?v s3 = Some (Some (0x3E # replicate 31 0), s4)" "alike s4 s"
    by (blast intro: alike_trans)
  from commands_answer [OF step [OF 4(2)], of u a cc e 2] 4(2) obtain s5
    where 5: "getPLDMCommands ?w e 2 ?v s4 = Some (Some (0x3E # replicate 31 0), s5)" "alike s5 s"
    by (blast intro: alike_trans)
  from tid_answer [OF step [OF 5(2)], of u a cc e] 5(2) obtain s6
    where 6: "getTID ?w e s5 = Some (Some a, s6)" "alike s6 s" by (blast intro: alike_trans)
  from uid_answer [OF step [OF 6(2)], of u a cc 0 e] 6(2) obtain s7
    where 7: "getTerminusUID ?w 0 (Some e) s6 = Some (Some (replicate 16 u), s7)" "alike s7 s"
    by (blast intro: alike_trans)
  have codes: "getTypeCodesFromSupportedTypes (0x05 # replicate 7 0) = [0, 2]" by code_simp
  have uid: "isSupported [(0, [(?v, 0x3E # replicate 31 0)]), (2, [(?v, 0x3E # replicate 31 0)])]
      PLDM_PLATFORM PLDM_GET_TERMINUS_UID" by code_simp
  show ?thesis
    using assms(2) 1(1) 2(1) 3(1) 4(1) 5(1) 6(1) 7 uid
    by (simp add: learn_terminus_def codes terminus_info_of_def)
qed


lemma set_tid_supported: "isSupported (ti_commands (terminus_info_of u a)) PLDM_BASE PLDM_SET_TID"
  unfolding terminus_info_of_def terminus_info.simps by code_simp

text \<open>A terminus that is new, and one whose UUID is known and whose reclaim timer runs.\<close>

lemma new_terminus:
  assumes "\<not> rsvBWActive s" "getMappedTID e (tidMap s) = None"
    and "map_of (uuidMapping s) (replicate 16 u) = None" "getFreeTID (tidPool s) = (Some t, p)"
  shows "\<exists>s'. baseInit (terminus u a 0) e s = Some (Some (t, ti_commands (terminus_info_of u a)), s')
    \<and> tidMap s' = map_assign t e (tidMap s) \<and> uuidMapping s' = (replicate 16 u, t) # uuidMapping s"
    and "\<not> fails_with_known_uuid (terminus u a 0) e s"
proof -
  let ?i = "terminus_info_of u a"
  from learned_terminus [OF assms(1,2), of u a 0] obtain s1
    where l: "learn_terminus (terminus u a 0) e s = Some (Some ?i, s1)" "alike s1 s" by blast
  have u: "ti_uuid ?i = Some (replicate 16 u)" by (simp add: terminus_info_of_def)
  have c: "choose_tid ?i s1 = (Some t, s1\<lparr>tidPool := p\<rparr>)"
    using assms(3,4) l(2) by (simp add: choose_tid_def u alike_def)
  have "\<not> rsvBWActive (s1\<lparr>tidPool := p\<rparr>)" using assms(1) l(2) by (simp add: alike_def)
  from set_tid_answer [OF this, of u a 0 e t] obtain s2
    where s2: "setTID (terminus u a 0) e t (s1\<lparr>tidPool := p\<rparr>) = Some (True, s2)" "alike s2 (s1\<lparr>tidPool := p\<rparr>)"
    by auto
  have "addEntry t e (tidMap s2) = (True, map_assign t e (tidMap s))"
    using assms(2) s2(2) l(2) by (auto simp: addEntry_def alike_def getMappedTID_None)
  with l c s2 assms(3) show "\<exists>s'. baseInit (terminus u a 0) e s = Some (Some (t, ti_commands ?i), s')
      \<and> tidMap s' = map_assign t e (tidMap s) \<and> uuidMapping s' = (replicate 16 u, t) # uuidMapping s"
    by (simp add: baseInit_def register_terminus_def set_tid_supported u Let_def alike_def)
  from l assms(3) show "\<not> fails_with_known_uuid (terminus u a 0) e s"
    by (simp add: fails_with_known_uuid_def u alike_def)
qed

lemma start_pool: "getFreeTID (tidPool base_start) = (Some 1, (1, True) # tl (tidPool base_start))"
  by (simp add: base_start_def base_state.defs pldm.defs pldm_start_def TIDPool_ctor_def maxTIDPoolSize_def
      upt_conv_Cons del: upt_Suc)

lemma start_fields: "tidMap base_start = []" "uuidMapping base_start = []" "rsvBWActive base_start = False"
  by (simp_all add: base_start_def base_state.defs pldm.defs pldm_start_def)

definition returning :: base_state where
  "returning = base_start\<lparr>tidPool := (1, True) # tl (tidPool base_start),
     uuidMapping := [(replicate 16 0xA, 1)], tidReclaimWindowTimers := [1]\<rparr>"

lemma returning_inv: "base_inv returning"
proof -
  have "pool_ok ((1, True) # tl (tidPool base_start))"
    using pool_ok_getFree [of "tidPool base_start"] base_start_inv start_pool by (simp add: base_inv_def)
  then show ?thesis by (simp add: base_inv_def returning_def start_fields one_to_one_def)
qed

lemma returning_fields: "\<not> rsvBWActive returning" "getMappedTID e (tidMap returning) = None"
  by (simp_all add: returning_def start_fields)

lemma returning_choice:
  assumes "alike s returning"
  shows "choose_tid (terminus_info_of 0xA 0) s = (Some 1, s\<lparr>tidReclaimWindowTimers := []\<rparr>)"
    "map_of (uuidMapping s) (replicate 16 0xA) = Some 1"
  using assms by (simp_all add: choose_tid_def terminus_info_of_def alike_def returning_def
      cancelTIDReclaimTimerIfExists_def)

text \<open>No PLDM type but base does anything.\<close>

definition no_types :: pldm_type_hooks where
  "no_types ty = (\<lambda>t s. s, \<lambda>t s. s)"

lemma registered_tids_are_reserved_witness:
  "\<exists>s. run (base_step no_types) (Some base_start) [Device_added (terminus 0xA 0 0) 10] = Some s
     \<and> getMappedEID 1 (tidMap s) = Some 10 \<and> (1, True) \<in> set (tidPool s)"
proof -
  let ?w = "terminus 0xA 0 0" and ?evs = "[Device_added (terminus 0xA 0 0) 10]"
  from new_terminus [of base_start 10 "0xA", OF _ _ _ start_pool] obtain s
    where s: "baseInit ?w 10 base_start = Some (Some (1, ti_commands (terminus_info_of 0xA 0)), s)"
      "tidMap s = [(1, 10)]" "\<not> fails_with_known_uuid ?w 10 base_start"
    by (auto simp: start_fields)
  have run: "run (base_step no_types) (Some base_start) ?evs = Some s"
    using s(1) by (simp add: base_step_def initDevice_def no_types_def)
  have adm: "admissible (base_step no_types) (base_enabled no_types) (Some base_start) ?evs"
    using s(3) by (simp add: base_enabled_def calm_types_def no_types_def)
  have "getMappedEID 1 (tidMap s) = Some 10" by (simp add: s(2) getMappedEID_def)
  with registered_tids_are_reserved [OF adm run, of 1 10] run show ?thesis by blast
qed

lemma known_terminus_keeps_its_tid_witness:
  "\<exists>cmds s'. baseInit (terminus 0xA 0 0) 11 returning = Some (Some (1, cmds), s')
     \<and> getMappedEID 1 (tidMap s') = Some 11 \<and> \<not> isTerminusUnregistered 1 s'"
proof -
  let ?i = "terminus_info_of 0xA 0"
  from learned_terminus [OF returning_fields, of "0xA" 0 0 11] obtain s1
    where l: "learn_terminus (terminus 0xA 0 0) 11 returning = Some (Some ?i, s1)" "alike s1 returning" by blast
  note c = returning_choice [OF l(2)]
  have "\<not> rsvBWActive (s1\<lparr>tidReclaimWindowTimers := []\<rparr>)"
    using returning_fields l(2) by (simp add: alike_def)
  from set_tid_answer [OF this, of "0xA" 0 0 11 1] obtain s2
    where s2: "setTID (terminus 0xA 0 0) 11 1 (s1\<lparr>tidReclaimWindowTimers := []\<rparr>) = Some (True, s2)"
      "alike s2 (s1\<lparr>tidReclaimWindowTimers := []\<rparr>)" by auto
  have "addEntry 1 11 (tidMap s2) = (True, [(1, 11)])"
    using s2(2) l(2) by (simp add: addEntry_def alike_def returning_def start_fields)
  with l c s2 obtain s' where b: "baseInit (terminus 0xA 0 0) 11 returning = Some (Some (1, ti_commands ?i), s')"
    by (auto simp: baseInit_def register_terminus_def set_tid_supported Let_def split: option.splits)
  have "ti_uuid ?i = Some (replicate 16 0xA)" by (simp add: terminus_info_of_def)
  from known_terminus_keeps_its_tid [OF terminus_calm returning_inv b l(1) this c(2)] b show ?thesis by blast
qed

lemma failed_return_frees_a_reserved_tid_witness:
  "\<exists>s2. register_terminus (terminus 0xA 0 1) 11 (terminus_info_of 0xA 0) 1
       (returning\<lparr>tidReclaimWindowTimers := []\<rparr>) = Some (False, s2)
     \<and> (1, False) \<in> set (tidPool s2) \<and> map_of (uuidMapping s2) (replicate 16 0xA) = Some 1"
proof -
  let ?s = "returning\<lparr>tidReclaimWindowTimers := []\<rparr>" and ?i = "terminus_info_of 0xA 0"
  have a: "alike returning returning" by (simp add: alike_def)
  have "\<not> rsvBWActive ?s" using returning_fields by simp
  from set_tid_answer [OF this, of "0xA" 0 1 11 1] obtain s2 where
    r: "register_terminus (terminus 0xA 0 1) 11 ?i 1 ?s = Some (False, s2)"
    by (auto simp: register_terminus_def set_tid_supported)
  have "ti_uuid ?i = Some (replicate 16 0xA)" by (simp add: terminus_info_of_def)
  from failed_return_frees_a_reserved_tid [OF terminus_calm returning_inv this
      returning_choice(2) [OF a] returning_choice(1) [OF a] r] r show ?thesis by blast
qed

text \<open>The TID of a terminus without a UUID is never used again once the terminus is removed.\<close>

lemma tid_without_uuid_is_never_reused:
  assumes "t \<notin> snd ` set (uuidMapping s)"
  shows "tidPool (snd (deleteDeviceBaseInfo t s)) = tidPool s"
    "tidReclaimWindowTimers (snd (deleteDeviceBaseInfo t s)) = tidReclaimWindowTimers s"
  using assms by (simp_all add: deleteDeviceBaseInfo_def Let_def)

section \<open>The versions of a PLDM type\<close>

fun version_bytes :: "ver32 \<Rightarrow> byte list" where
  "version_bytes (major, minor, update, alpha) = [alpha, update, minor, major]"

lemma versions_of_bytes: "versions_of (concat (map version_bytes vs)) = vs"
  by (induction vs) (auto simp: split_paired_all)

lemma length_version_bytes: "length (concat (map version_bytes vs)) = 4 * length vs"
  by (induction vs) (auto simp: split_paired_all)

lemma checked_packet:
  assumes "length ds = 4 * Suc k"
  shows "checked_versions (ds @ enc32 c) = (if c = crc32 ds then Some (versions_of ds) else None)"
proof -
  have "read32 (ds @ enc32 c) (length ds) = c"
    by (simp add: read32_skip read32_enc_end)
  with assms show ?thesis by (simp add: checked_versions_def Let_def)
qed

text \<open>The versions a terminus sends, in packets of four bytes followed by their CRC-32, are
  read back exactly, and a packet with any one byte of the versions changed is refused.\<close>

lemma versions_are_checked:
  assumes "vs \<noteq> []"
  defines "data \<equiv> concat (map version_bytes vs)"
  shows "checked_versions (data @ enc32 (crc32 data)) = Some vs
    \<and> (\<forall>i b. i < length data \<and> data ! i \<noteq> b \<longrightarrow> checked_versions (data[i := b] @ enc32 (crc32 data)) = None)"
proof -
  have n: "length data = 4 * length vs" by (simp add: data_def length_version_bytes)
  from assms(1) obtain k where "length vs = Suc k" by (cases vs) auto
  note packet = checked_packet [where k = k and c = "crc32 data"]
  have "checked_versions (data[i := b] @ enc32 (crc32 data)) = None" if "i < length data" "data ! i \<noteq> b" for i b
  proof -
    from crc32.corrupted_byte_detected [OF that] have "crc32 data \<noteq> crc32 (data[i := b])"
      by (simp add: crc32_checksum eq_commute)
    with packet [of "data[i := b]"] n \<open>length vs = Suc k\<close> show ?thesis by simp
  qed
  with packet [of data] n \<open>length vs = Suc k\<close> versions_of_bytes [of vs] show ?thesis
    by (simp add: data_def [symmetric])
qed

lemma versions_are_checked_witness:
  "checked_versions ([0, 0xF0, 0xF0, 0xF1] @ enc32 (crc32 [0, 0xF0, 0xF0, 0xF1])) = Some [(0xF1, 0xF0, 0xF0, 0)]"
  using versions_are_checked [of "[(0xF1, 0xF0, 0xF0, 0)]"] by simp

end
