(* ===== verification/Pdr_Repo.thy ===== *)
theory Pdr_Repo
  imports Fwu_Descriptors "HOL-Library.Monad_Syntax"
begin

text \<open>
  The repository of platform descriptor records and the entity association tree
  (libpldm\_intel/pdr.c, up to \<open>pldm\_entity\_association\_pdr\_extract\<close>).

  The linked list of records is a list and a record is named by its position in it. The tree of
  entities is linked by \<open>first\_child\<close> and \<open>next\_sibling\<close>; here a node holds the list of its
  children, and since nodes move when siblings are inserted before them a node is named by an
  identity given at its allocation. \<open>None\<close> is a failed assertion (the process aborts) or an
  access outside a buffer.
\<close>

section \<open>Records\<close>

record pdr_record =
  record_handle :: u32
  rec_size :: u32
  rec_data :: "byte list"
  is_remote :: bool

record pdr_repo =
  record_count :: u32
  repo_size :: u32
  records :: "pdr_record list"

definition pldm_pdr_init :: pdr_repo where
  "pldm_pdr_init = \<lparr> record_count = 0, repo_size = 0, records = [] \<rparr>"

definition sizeof_pdr_hdr :: nat where "sizeof_pdr_hdr = 10"

text \<open>\<open>pldm\_pdr\_hdr\<close> as it is laid out in a record.\<close>

definition pdr_hdr :: "u32 \<Rightarrow> byte \<Rightarrow> byte \<Rightarrow> u16 \<Rightarrow> u16 \<Rightarrow> byte list" where
  "pdr_hdr handle version type record_change_num len =
     enc32 handle @ [version, type] @ enc16 record_change_num @ enc16 len"

definition get_next_record_handle :: "pdr_repo \<Rightarrow> nat \<Rightarrow> u32" where
  "get_next_record_handle repo i =
     (if Suc i = length (records repo) then 0 else record_handle (records repo ! Suc i))"

definition add_record :: "pdr_repo \<Rightarrow> pdr_record \<Rightarrow> pdr_repo" where
  "add_record repo r = repo\<lparr>records := records repo @ [r],
     repo_size := repo_size repo + rec_size r, record_count := record_count repo + 1\<rparr>"

definition get_new_record_handle :: "pdr_repo \<Rightarrow> u32 option" where
  "get_new_record_handle repo =
     (let last_used_hdl = (if records repo = [] then 0 else record_handle (last (records repo)))
      in if last_used_hdl = 0xFFFFFFFF then None else Some (last_used_hdl + 1))"

text \<open>The new handle is written over the first four bytes of the copied data.\<close>

definition make_new_record :: "pdr_repo \<Rightarrow> byte list \<Rightarrow> u32 \<Rightarrow> u32 \<Rightarrow> bool \<Rightarrow> pdr_record option" where
  "make_new_record repo data sz handle remote =
     (if sz = 0 \<or> length data < unat sz then None
      else do {
        h \<leftarrow> (if handle = 0 then get_new_record_handle repo else Some handle);
        let copy = take (unat sz) data;
        if handle = 0 \<and> unat sz < 4 then None
        else Some \<lparr> record_handle = h, rec_size = sz,
                    rec_data = (if handle = 0 then enc32 h @ drop 4 copy else copy),
                    is_remote = remote \<rparr> })"

definition pldm_pdr_add :: "pdr_repo \<Rightarrow> byte list \<Rightarrow> u32 \<Rightarrow> u32 \<Rightarrow> bool \<Rightarrow> (u32 \<times> pdr_repo) option" where
  "pldm_pdr_add repo data sz handle remote = do {
     r \<leftarrow> make_new_record repo data sz handle remote;
     Some (record_handle r, add_record repo r) }"

fun find_record_loop :: "u32 \<Rightarrow> nat \<Rightarrow> pdr_record list \<Rightarrow> nat option" where
  "find_record_loop handle i [] = None"
| "find_record_loop handle i (r # rs) =
     (if record_handle r = handle then Some i else find_record_loop handle (Suc i) rs)"

text \<open>The record with its size, its data and the handle of the next one. Handle 0 means the first
  record.\<close>

definition pldm_pdr_find_record :: "pdr_repo \<Rightarrow> u32 \<Rightarrow> (nat \<times> u32 \<times> byte list \<times> u32) option" where
  "pldm_pdr_find_record repo handle =
     (let h = (if handle = 0 \<and> records repo \<noteq> [] then record_handle (hd (records repo)) else handle)
      in case find_record_loop h 0 (records repo) of
           None \<Rightarrow> None
         | Some i \<Rightarrow> let r = records repo ! i
                     in Some (i, rec_size r, rec_data r, get_next_record_handle repo i))"

definition pldm_pdr_get_next_record :: "pdr_repo \<Rightarrow> nat \<Rightarrow> (nat \<times> u32 \<times> byte list \<times> u32) option" where
  "pldm_pdr_get_next_record repo i =
     (if Suc i = length (records repo) then None
      else let r = records repo ! Suc i
           in Some (Suc i, rec_size r, rec_data r, get_next_record_handle repo (Suc i)))"

text \<open>The type is the byte at offset 5 of a record.\<close>

fun find_type_loop :: "byte \<Rightarrow> nat \<Rightarrow> pdr_record list \<Rightarrow> nat option option" where
  "find_type_loop type i [] = Some None"
| "find_type_loop type i (r # rs) =
     (if length (rec_data r) < 6 then None
      else if rec_data r ! 5 = type then Some (Some i)
      else find_type_loop type (Suc i) rs)"

definition pldm_pdr_find_record_by_type :: "pdr_repo \<Rightarrow> byte \<Rightarrow> nat option \<Rightarrow> nat option option" where
  "pldm_pdr_find_record_by_type repo type cur =
     (let start = (case cur of None \<Rightarrow> 0 | Some i \<Rightarrow> Suc i)
      in find_type_loop type start (drop start (records repo)))"

definition pldm_pdr_get_record_count :: "pdr_repo \<Rightarrow> u32" where
  "pldm_pdr_get_record_count repo = record_count repo"

definition pldm_pdr_get_repo_size :: "pdr_repo \<Rightarrow> u32" where
  "pldm_pdr_get_repo_size repo = repo_size repo"

definition pldm_pdr_get_record_handle :: "pdr_repo \<Rightarrow> nat \<Rightarrow> u32" where
  "pldm_pdr_get_record_handle repo i = record_handle (records repo ! i)"

definition pldm_pdr_record_is_remote :: "pdr_repo \<Rightarrow> nat \<Rightarrow> bool" where
  "pldm_pdr_record_is_remote repo i = is_remote (records repo ! i)"

text \<open>Removal of the records of remote termini: the list is unlinked from first to last, then
  renumbered if anything was removed.\<close>

fun remove_remote_loop :: "pdr_record list \<Rightarrow> u32 \<Rightarrow> u32 \<Rightarrow> pdr_record list \<times> u32 \<times> u32 \<times> bool" where
  "remove_remote_loop [] count sz = ([], count, sz, False)"
| "remove_remote_loop (r # rs) count sz =
     (if is_remote r
      then case remove_remote_loop rs (count - 1) (sz - rec_size r) of
             (kept, count, sz, removed) \<Rightarrow> (kept, count, sz, True)
      else case remove_remote_loop rs count sz of
             (kept, count, sz, removed) \<Rightarrow> (r # kept, count, sz, removed))"

fun renumber :: "u32 \<Rightarrow> pdr_record list \<Rightarrow> pdr_record list option" where
  "renumber handle [] = Some []"
| "renumber handle (r # rs) =
     (if length (rec_data r) < 4 then None
      else do {
        rs \<leftarrow> renumber (handle + 1) rs;
        Some (r\<lparr>record_handle := handle + 1, rec_data := enc32 (handle + 1) @ drop 4 (rec_data r)\<rparr> # rs) })"

definition pldm_pdr_remove_remote_pdrs :: "pdr_repo \<Rightarrow> pdr_repo option" where
  "pldm_pdr_remove_remote_pdrs repo =
     (case remove_remote_loop (records repo) (record_count repo) (repo_size repo) of
        (kept, count, sz, removed) \<Rightarrow> do {
          kept \<leftarrow> (if removed then renumber 0 kept else Some kept);
          Some \<lparr> record_count = count, repo_size = sz, records = kept \<rparr> })"

section \<open>FRU record sets\<close>

definition PLDM_PDR_FRU_RECORD_SET :: byte where "PLDM_PDR_FRU_RECORD_SET = 20"
definition PLDM_PDR_ENTITY_ASSOCIATION :: byte where "PLDM_PDR_ENTITY_ASSOCIATION = 15"

record fru_record_set =
  frs_terminus_handle :: u16
  frs_fru_rsi :: u16
  frs_entity_type :: u16
  frs_entity_instance_num :: u16
  frs_container_id :: u16

definition sizeof_fru_record_set :: nat where "sizeof_fru_record_set = 10"

definition pldm_pdr_add_fru_record_set :: "pdr_repo \<Rightarrow> fru_record_set \<Rightarrow> (u32 \<times> pdr_repo) option" where
  "pldm_pdr_add_fru_record_set repo f =
     pldm_pdr_add repo
       (pdr_hdr 0 1 PLDM_PDR_FRU_RECORD_SET 0 (word_of_nat sizeof_fru_record_set)
        @ enc16 (frs_terminus_handle f) @ enc16 (frs_fru_rsi f) @ enc16 (frs_entity_type f)
        @ enc16 (frs_entity_instance_num f) @ enc16 (frs_container_id f))
       (word_of_nat (sizeof_pdr_hdr + sizeof_fru_record_set)) 0 False"

definition fru_record_set_at :: "byte list \<Rightarrow> fru_record_set" where
  "fru_record_set_at data = \<lparr> frs_terminus_handle = read16 data 10, frs_fru_rsi = read16 data 12,
     frs_entity_type = read16 data 14, frs_entity_instance_num = read16 data 16,
     frs_container_id = read16 data 18 \<rparr>"

text \<open>The loop over the records of this type from the record after \<open>cur\<close> on; the outputs are zero
  when none has the record set identifier.\<close>

lemma find_type_loop_bounds:
  "find_type_loop type i rs = Some (Some j) \<Longrightarrow> i \<le> j \<and> j < i + length rs"
  by (induction type i rs rule: find_type_loop.induct) (auto split: if_splits)

lemma find_by_type_bounds:
  "pldm_pdr_find_record_by_type repo type cur = Some (Some j) \<Longrightarrow>
     j < length (records repo) \<and> (\<forall>i. cur = Some i \<longrightarrow> i < j)"
  by (auto simp: pldm_pdr_find_record_by_type_def Let_def split: option.splits
      dest!: find_type_loop_bounds)

function fru_find_loop :: "pdr_repo \<Rightarrow> u16 \<Rightarrow> nat option \<Rightarrow> (nat \<times> fru_record_set) option option" where
  "fru_find_loop repo rsi cur =
     (case pldm_pdr_find_record_by_type repo PLDM_PDR_FRU_RECORD_SET cur of
        None \<Rightarrow> None
      | Some None \<Rightarrow> Some None
      | Some (Some i) \<Rightarrow>
          let data = rec_data (records repo ! i); fru = fru_record_set_at data
          in if length data < 14 then None
             else if frs_fru_rsi fru = rsi
             then (if length data < 20 then None else Some (Some (i, fru)))
             else fru_find_loop repo rsi (Some i))"
  by pat_completeness auto
termination
  by (relation "measure (\<lambda>(repo, rsi, cur). case cur of None \<Rightarrow> Suc (length (records repo))
       | Some i \<Rightarrow> length (records repo) - i)")
     (force split: option.splits dest: find_by_type_bounds)+

declare fru_find_loop.simps [simp del]

definition pldm_pdr_fru_record_set_find_by_rsi
    :: "pdr_repo \<Rightarrow> u16 \<Rightarrow> (nat option \<times> fru_record_set) option" where
  "pldm_pdr_fru_record_set_find_by_rsi repo rsi = do {
     r \<leftarrow> fru_find_loop repo rsi None;
     Some (case r of
             None \<Rightarrow> (None, \<lparr> frs_terminus_handle = 0, frs_fru_rsi = rsi, frs_entity_type = 0,
                               frs_entity_instance_num = 0, frs_container_id = 0 \<rparr>)
           | Some (i, fru) \<Rightarrow> (Some i, fru)) }"

end
