(* ===== verification/Pdr_Entities.thy ===== *)
theory Pdr_Entities
  imports Pdr_Repo
begin

text \<open>
  The entity association tree of libpldm\_intel/pdr.c and its records. A list of nodes is a
  chain of siblings; the root of a tree is such a chain too.
\<close>

section \<open>The tree\<close>

record pldm_entity =
  entity_type :: u16
  entity_instance_num :: u16
  entity_container_id :: u16

definition PLDM_ENTITY_ASSOCIAION_PHYSICAL :: byte where "PLDM_ENTITY_ASSOCIAION_PHYSICAL = 0"
definition PLDM_ENTITY_ASSOCIAION_LOGICAL :: byte where "PLDM_ENTITY_ASSOCIAION_LOGICAL = 1"

datatype entity_node =
  Node (node_id: nat) (node_entity: pldm_entity) (association_type: byte)
    (children: "entity_node list")

text \<open>\<open>next\_node\<close> is the identity of the next allocation.\<close>

record entity_tree =
  root :: "entity_node list"
  last_used_container_id :: u16
  next_node :: nat

definition pldm_entity_association_tree_init :: entity_tree where
  "pldm_entity_association_tree_init = \<lparr> root = [], last_used_container_id = 0, next_node = 0 \<rparr>"

definition next_container_id :: "entity_tree \<Rightarrow> (u16 \<times> entity_tree) option" where
  "next_container_id tree =
     (if last_used_container_id tree = 0xFFFF then None
      else Some (last_used_container_id tree + 1,
                 tree\<lparr>last_used_container_id := last_used_container_id tree + 1\<rparr>))"

text \<open>The position in the chain after which a node of this type is inserted.\<close>

fun find_insertion_at :: "u16 \<Rightarrow> entity_node list \<Rightarrow> nat" where
  "find_insertion_at ty (n # m # ns) =
     (if entity_type (node_entity n) = ty \<and> ty \<noteq> entity_type (node_entity m) then 0
      else Suc (find_insertion_at ty (m # ns)))"
| "find_insertion_at ty ns = 0"

text \<open>Nodes by their identity.\<close>

fun find_node :: "nat \<Rightarrow> entity_node list \<Rightarrow> entity_node option" where
  "find_node p [] = None"
| "find_node p (Node i e k cs # ns) =
     (if i = p then Some (Node i e k cs)
      else case find_node p ns of Some n \<Rightarrow> Some n | None \<Rightarrow> find_node p cs)"

fun set_children :: "nat \<Rightarrow> entity_node list \<Rightarrow> entity_node list \<Rightarrow> entity_node list" where
  "set_children p new [] = []"
| "set_children p new (Node i e k cs # ns) =
     (if i = p then Node i e k new else Node i e k (set_children p new cs)) # set_children p new ns"

definition insert_sibling :: "nat \<Rightarrow> u16 \<Rightarrow> byte \<Rightarrow> entity_node list
    \<Rightarrow> (pldm_entity \<times> entity_node list) option" where
  "insert_sibling i ty k chain =
     (let pos = find_insertion_at ty chain; prev = node_entity (chain ! pos)
      in if entity_type prev = ty \<and> entity_instance_num prev = 0xFFFF then None
         else
           let e = \<lparr> entity_type = ty,
                     entity_instance_num = (if entity_type prev = ty then entity_instance_num prev + 1 else 1),
                     entity_container_id = entity_container_id prev \<rparr>
           in Some (e, take (Suc pos) chain @ Node i e k [] # drop (Suc pos) chain))"

text \<open>The result is the new node, its entity as the caller gets it back, and the tree.\<close>

definition pldm_entity_association_tree_add :: "entity_tree \<Rightarrow> u16 \<Rightarrow> nat option \<Rightarrow> byte
    \<Rightarrow> (nat \<times> pldm_entity \<times> entity_tree) option" where
  "pldm_entity_association_tree_add tree ty parent k =
     (let i = next_node tree; first = (\<lambda>cid. \<lparr> entity_type = ty, entity_instance_num = 1,
                                               entity_container_id = cid \<rparr>)
      in if k \<noteq> PLDM_ENTITY_ASSOCIAION_PHYSICAL \<and> k \<noteq> PLDM_ENTITY_ASSOCIAION_LOGICAL then None
         else if root tree = [] then
           (if parent \<noteq> None then None
            else Some (i, first 0, tree\<lparr>root := [Node i (first 0) k []], next_node := Suc i\<rparr>))
         else case parent of
           None \<Rightarrow> do {
             (e, chain) \<leftarrow> insert_sibling i ty k (root tree);
             Some (i, e, tree\<lparr>root := chain, next_node := Suc i\<rparr>) }
         | Some p \<Rightarrow> do {
             node \<leftarrow> find_node p (root tree);
             if children node = [] then do {
               (cid, tree) \<leftarrow> next_container_id tree;
               Some (i, first cid, tree\<lparr>root := set_children p [Node i (first cid) k []] (root tree),
                                        next_node := Suc i\<rparr>) }
             else do {
               (e, chain) \<leftarrow> insert_sibling i ty k (children node);
               Some (i, e, tree\<lparr>root := set_children p chain (root tree), next_node := Suc i\<rparr>) } })"

fun get_num_nodes :: "entity_node list \<Rightarrow> nat" where
  "get_num_nodes [] = 0"
| "get_num_nodes (Node i e k cs # ns) = Suc (get_num_nodes ns + get_num_nodes cs)"

fun entity_association_tree_visit :: "entity_node list \<Rightarrow> pldm_entity list" where
  "entity_association_tree_visit [] = []"
| "entity_association_tree_visit (Node i e k cs # ns) =
     e # entity_association_tree_visit ns @ entity_association_tree_visit cs"

definition pldm_entity_association_tree_visit :: "entity_tree \<Rightarrow> nat \<times> pldm_entity list" where
  "pldm_entity_association_tree_visit tree =
     (get_num_nodes (root tree), entity_association_tree_visit (root tree))"

definition pldm_entity_is_node_parent :: "entity_node \<Rightarrow> bool" where
  "pldm_entity_is_node_parent n \<longleftrightarrow> children n \<noteq> []"

definition pldm_entity_get_num_children :: "entity_node \<Rightarrow> byte \<Rightarrow> byte option" where
  "pldm_entity_get_num_children n k =
     (if k \<noteq> PLDM_ENTITY_ASSOCIAION_PHYSICAL \<and> k \<noteq> PLDM_ENTITY_ASSOCIAION_LOGICAL then None
      else
        let num = length (filter (\<lambda>c. association_type c = k) (children n))
        in if num < 255 then Some (word_of_nat num) else None)"

text \<open>A match ends the search below it and in the siblings after it, but not that of the nodes
  visited later, so that the last match in the order of the search is the result.\<close>

fun entity_association_tree_find :: "u16 \<Rightarrow> u16 \<Rightarrow> entity_node list \<Rightarrow> nat option \<Rightarrow> nat option" where
  "entity_association_tree_find ty inst [] out = out"
| "entity_association_tree_find ty inst (Node i e k cs # ns) out =
     (if entity_type e = ty \<and> entity_instance_num e = inst then Some i
      else entity_association_tree_find ty inst cs (entity_association_tree_find ty inst ns out))"

text \<open>The node that is found, and the container id that is left in the caller's entity.\<close>

definition pldm_entity_association_tree_find :: "entity_tree \<Rightarrow> pldm_entity \<Rightarrow> nat option \<times> pldm_entity" where
  "pldm_entity_association_tree_find tree e =
     (let out = entity_association_tree_find (entity_type e) (entity_instance_num e) (root tree) None
      in (out, case out of None \<Rightarrow> e
               | Some i \<Rightarrow> (case find_node i (root tree) of None \<Rightarrow> e
                   | Some n \<Rightarrow> e\<lparr>entity_container_id := entity_container_id (node_entity n)\<rparr>)))"

section \<open>Association records\<close>

definition enc_entity :: "pldm_entity \<Rightarrow> byte list" where
  "enc_entity e = enc16 (entity_type e) @ enc16 (entity_instance_num e) @ enc16 (entity_container_id e)"

definition sizeof_entity :: nat where "sizeof_entity = 6"

text \<open>The size of a record with \<open>n\<close> contained entities.\<close>

definition association_pdr_size :: "nat \<Rightarrow> nat" where
  "association_pdr_size n = sizeof_pdr_hdr + 2 + 1 + sizeof_entity + 1 + n * sizeof_entity"

definition association_pdr :: "entity_node \<Rightarrow> u16 \<Rightarrow> byte \<Rightarrow> byte \<Rightarrow> byte list" where
  "association_pdr cur sz contained_count k =
     pdr_hdr 0 1 PLDM_PDR_ENTITY_ASSOCIATION 0 (sz - word_of_nat sizeof_pdr_hdr)
     @ enc16 (entity_container_id (node_entity (hd (children cur)))) @ [k]
     @ enc_entity (node_entity cur) @ [contained_count]
     @ concat (map (\<lambda>c. enc_entity (node_entity c)) (filter (\<lambda>c. association_type c = k) (children cur)))"

definition add_association_entry :: "entity_node \<Rightarrow> pdr_repo \<Rightarrow> byte \<Rightarrow> byte \<Rightarrow> bool \<Rightarrow> pdr_repo option" where
  "add_association_entry cur repo contained_count k remote =
     (let sz = word_of_nat (association_pdr_size (unat contained_count)) :: u16
      in map_option snd (pldm_pdr_add repo (association_pdr cur sz contained_count k) (ucast sz) 0 remote))"

definition entity_association_pdr_add_entry :: "entity_node \<Rightarrow> pdr_repo \<Rightarrow> bool \<Rightarrow> pdr_repo option" where
  "entity_association_pdr_add_entry cur repo remote = do {
     logical \<leftarrow> pldm_entity_get_num_children cur PLDM_ENTITY_ASSOCIAION_LOGICAL;
     physical \<leftarrow> pldm_entity_get_num_children cur PLDM_ENTITY_ASSOCIAION_PHYSICAL;
     repo \<leftarrow> (if logical \<noteq> 0
             then add_association_entry cur repo logical PLDM_ENTITY_ASSOCIAION_LOGICAL remote
             else Some repo);
     (if physical \<noteq> 0
      then add_association_entry cur repo physical PLDM_ENTITY_ASSOCIAION_PHYSICAL remote
      else Some repo) }"

fun entity_association_pdr_add :: "entity_node list \<Rightarrow> bool \<Rightarrow> pdr_repo \<Rightarrow> pdr_repo option" where
  "entity_association_pdr_add [] remote repo = Some repo"
| "entity_association_pdr_add (Node i e k cs # ns) remote repo = do {
     repo \<leftarrow> entity_association_pdr_add_entry (Node i e k cs) repo remote;
     repo \<leftarrow> entity_association_pdr_add ns remote repo;
     entity_association_pdr_add cs remote repo }"

definition pldm_entity_association_pdr_add :: "entity_tree \<Rightarrow> pdr_repo \<Rightarrow> bool \<Rightarrow> pdr_repo option" where
  "pldm_entity_association_pdr_add tree repo remote = entity_association_pdr_add (root tree) remote repo"

definition entity_at :: "byte list \<Rightarrow> nat \<Rightarrow> pldm_entity" where
  "entity_at pdr i = \<lparr> entity_type = read16 pdr i, entity_instance_num = read16 pdr (i + 2),
     entity_container_id = read16 pdr (i + 4) \<rparr>"

text \<open>The buffer is \<open>pdr\<close>. Its length is compared with the two fixed structures only; the entities
  are read up to the length in the header.\<close>

definition sizeof_entity_association :: nat where "sizeof_entity_association = 16"

definition pldm_entity_association_pdr_extract :: "byte list \<Rightarrow> pldm_entity list option" where
  "pldm_entity_association_pdr_extract pdr =
     (if length pdr < sizeof_pdr_hdr + sizeof_entity_association then None
      else if pdr ! 5 \<noteq> PLDM_PDR_ENTITY_ASSOCIATION then None
      else
        let num_entities = unat (pdr ! 19) + 1
        in if num_entities < 2 then None
           else if sizeof_pdr_hdr + sizeof_entity_association + sizeof_entity * (num_entities - 2)
                   \<noteq> sizeof_pdr_hdr + unat (read16 pdr 8) then None
           else if length pdr < 20 + sizeof_entity * (num_entities - 1) then None
           else Some (entity_at pdr 13
                      # map (\<lambda>i. entity_at pdr (20 + sizeof_entity * i)) [0..<num_entities - 1]))"

end
