(* ===== verification/Pdr_Repo_Props.thy ===== *)
theory Pdr_Repo_Props
  imports Pdr_Entities
begin

text \<open>
  Properties of the repository of platform descriptor records: its counters, the handles of its
  records and their headers, the walk over all records by their next handles and when it ends, what the removal of
  remote records keeps, and the lookup of FRU record sets.
\<close>

section \<open>The invariants\<close>

text \<open>What holds of the counters and the records whatever handles the callers choose, and what holds
  in addition when no handle is used twice.\<close>

definition repo_base :: "pdr_repo \<Rightarrow> bool" where
  "repo_base repo \<longleftrightarrow> record_count repo = word_of_nat (length (records repo))
     \<and> repo_size repo = sum_list (map rec_size (records repo))
     \<and> (\<forall>r \<in> set (records repo). unat (rec_size r) = length (rec_data r) \<and> 0 < record_handle r)"

definition record_ok :: "pdr_record \<Rightarrow> bool" where
  "record_ok r \<longleftrightarrow> sizeof_pdr_hdr \<le> length (rec_data r) \<and> read32 (rec_data r) 0 = record_handle r"

definition repo_inv :: "pdr_repo \<Rightarrow> bool" where
  "repo_inv repo \<longleftrightarrow> repo_base repo \<and> (\<forall>r \<in> set (records repo). record_ok r)
     \<and> distinct (map record_handle (records repo))"

abbreviation last_handle :: "pdr_repo \<Rightarrow> u32" where
  "last_handle repo \<equiv> (if records repo = [] then 0 else record_handle (last (records repo)))"

text \<open>The last record has the greatest handle, so that the next handle of its own is unused.\<close>

definition last_is_greatest :: "pdr_repo \<Rightarrow> bool" where
  "last_is_greatest repo \<longleftrightarrow> (\<forall>r \<in> set (records repo). record_handle r \<le> last_handle repo)"

lemma read32_header: "read32 (enc32 h @ bs) 0 = h"
  by (rule read32_enc)

lemma u32_Suc: "w \<noteq> 0xFFFFFFFF \<Longrightarrow> unat (w + 1 :: u32) = Suc (unat w)"
proof -
  assume w: "w \<noteq> 0xFFFFFFFF"
  have "1 + w \<noteq> 0"
  proof
    assume "1 + w = 0"
    then have "w = - 1" by (simp add: eq_neg_iff_add_eq_0 add.commute)
    with w show False by simp
  qed
  from unatSuc [OF this] show ?thesis by (simp add: add.commute)
qed

lemma new_handle:
  assumes "get_new_record_handle repo = Some h" shows "last_handle repo < h"
  using assms by (auto simp: get_new_record_handle_def Let_def word_less_nat_alt u32_Suc split: if_splits)

text \<open>The record that is added: under a new handle, which is put into its header, or as it is under
  the handle of the caller.\<close>

lemma pdr_add_cases:
  assumes "pldm_pdr_add repo data sz handle remote = Some (h, repo')" "unat sz = length data"
  obtains r where "repo' = add_record repo r" "record_handle r = h" "rec_size r = sz"
    "length (rec_data r) = length data" "drop 4 (rec_data r) = drop 4 data" "0 < h"
    "handle = 0 \<Longrightarrow> last_handle repo < h \<and> rec_data r = enc32 h @ drop 4 data"
    "handle \<noteq> 0 \<Longrightarrow> h = handle \<and> rec_data r = data"
proof -
  from assms obtain r where r: "make_new_record repo data sz handle remote = Some r"
    "h = record_handle r" "repo' = add_record repo r"
    by (auto simp: pldm_pdr_add_def bind_eq_Some_conv)
  have data: "take (unat sz) data = data" using assms(2) by simp
  show ?thesis
  proof (cases "handle = 0")
    case True
    from r(1) obtain h' where h': "get_new_record_handle repo = Some h'" and len: "4 \<le> length data"
      and r': "r = \<lparr> record_handle = h', rec_size = sz, rec_data = enc32 h' @ drop 4 data, is_remote = remote \<rparr>"
      using data True assms(2)
      by (simp add: make_new_record_def Let_def bind_eq_Some_conv split: if_splits) auto
    have l: "last_handle repo < h" using r(2) r' new_handle [OF h'] by simp
    then have "0 < h" by (rule le_less_trans [OF word_zero_le])
    from that [OF r(3) _ _ _ _ this] show ?thesis using r(2) r' l len True by simp
  next
    case False
    then have r': "r = \<lparr> record_handle = handle, rec_size = sz, rec_data = data, is_remote = remote \<rparr>"
      using r(1) data by (simp add: make_new_record_def Let_def bind_eq_Some_conv split: if_splits)
    with that [OF r(3)] show ?thesis using r(2) False by (simp add: word_gt_0)
  qed
qed

lemma pdr_add_base:
  assumes "repo_base repo" "pldm_pdr_add repo data sz handle remote = Some (h, repo')"
    "unat sz = length data"
  shows "repo_base repo'"
  by (rule pdr_add_cases [OF assms(2,3)]) (use assms in \<open>auto simp: repo_base_def add_record_def\<close>)

text \<open>A handle that the caller chooses is not in use and stands in the header; a record gets a handle
  of the repository's own only when the last one has the greatest.\<close>

definition addable :: "pdr_repo \<Rightarrow> byte list \<Rightarrow> u32 \<Rightarrow> bool" where
  "addable repo data h \<longleftrightarrow> sizeof_pdr_hdr \<le> length data \<and> length data < 4294967296
     \<and> (if h = 0 then last_is_greatest repo
        else read32 data 0 = h \<and> h \<notin> record_handle ` set (records repo))"

lemma pdr_add_inv:
  assumes "repo_inv repo" "pldm_pdr_add repo data sz handle remote = Some (h, repo')"
    "addable repo data handle" "unat sz = length data"
  shows "repo_inv repo' \<and> (handle = 0 \<longrightarrow> last_is_greatest repo')"
proof (rule pdr_add_cases [OF assms(2,4)])
  fix r
  assume r: "repo' = add_record repo r" "record_handle r = h" "length (rec_data r) = length data"
    "handle = 0 \<Longrightarrow> last_handle repo < h \<and> rec_data r = enc32 h @ drop 4 data"
    "handle \<noteq> 0 \<Longrightarrow> h = handle \<and> rec_data r = data"
  have base: "repo_base repo'"
    using pdr_add_base [OF _ assms(2,4)] assms(1) by (simp add: repo_inv_def)
  have less: "record_handle x < h" if "handle = 0" "x \<in> set (records repo)" for x
  proof -
    have "record_handle x \<le> last_handle repo"
      using assms(3) that by (simp add: addable_def last_is_greatest_def)
    also have "\<dots> < h" using r(4) that(1) by simp
    finally show ?thesis .
  qed
  have new: "h \<notin> record_handle ` set (records repo)"
  proof (cases "handle = 0")
    case True
    then show ?thesis using less by fastforce
  next
    case False
    then show ?thesis using assms(3) r(5) by (simp add: addable_def)
  qed
  have "read32 (rec_data r) 0 = h"
    using r(4,5) assms(3) by (cases "handle = 0") (auto simp: addable_def read_enc)
  then have "record_ok r" using r(2,3) assms(3) by (simp add: record_ok_def addable_def)
  moreover have "last_is_greatest repo'" if "handle = 0"
    using less [OF that] r(1,2) by (auto simp: last_is_greatest_def add_record_def intro: less_imp_le)
  ultimately show ?thesis
    using assms(1) base new r(1,2) by (auto simp: repo_inv_def add_record_def)
qed

section \<open>Lookup and the walk over all records\<close>

lemma handle_pos: "repo_base repo \<Longrightarrow> k < length (records repo) \<Longrightarrow> record_handle (records repo ! k) \<noteq> 0"
  by (metis nth_mem order.strict_implies_not_eq repo_base_def)

text \<open>The record at a position, as a lookup returns it, and the records found by their handles.\<close>

abbreviation found_at :: "pdr_repo \<Rightarrow> nat \<Rightarrow> nat \<times> u32 \<times> byte list \<times> u32" where
  "found_at repo k \<equiv> (k, rec_size (records repo ! k), rec_data (records repo ! k),
     get_next_record_handle repo k)"

definition found_by_handle :: "pdr_repo \<Rightarrow> nat \<Rightarrow> bool" where
  "found_by_handle repo k \<longleftrightarrow>
     pldm_pdr_find_record repo (record_handle (records repo ! k)) = Some (found_at repo k)"

lemma find_record_loop_first:
  assumes "k < length rs" "\<forall>i < k. record_handle (rs ! i) \<noteq> record_handle (rs ! k)"
  shows "find_record_loop (record_handle (rs ! k)) i rs = Some (i + k)"
  using assms
proof (induction rs arbitrary: i k)
  case (Cons r rs)
  show ?case
  proof (cases k)
    case (Suc k')
    have "\<forall>i < k'. record_handle (rs ! i) \<noteq> record_handle (rs ! k')"
      using Cons.prems(2) Suc by fastforce
    then have "find_record_loop (record_handle (rs ! k')) (Suc i) rs = Some (Suc i + k')"
      using Cons.IH [of k' "Suc i"] Cons.prems Suc by simp
    moreover have "record_handle r \<noteq> record_handle (rs ! k')"
      using Cons.prems(2) Suc by fastforce
    ultimately show ?thesis using Suc by simp
  qed simp
qed simp

lemma find_record_first_at:
  assumes "repo_base repo" "k < length (records repo)"
    "\<forall>i < k. record_handle (records repo ! i) \<noteq> record_handle (records repo ! k)"
  shows "found_by_handle repo k"
  using find_record_loop_first [OF assms(2,3), of 0] handle_pos [OF assms(1,2)]
  by (simp add: pldm_pdr_find_record_def found_by_handle_def Let_def)

lemma find_record_at:
  assumes "repo_base repo" "distinct (map record_handle (records repo))" "k < length (records repo)"
  shows "found_by_handle repo k"
  by (rule find_record_first_at [OF assms(1,3)])
    (use assms(2,3) in \<open>auto simp: distinct_conv_nth\<close>)

lemma distinct_iff_found:
  assumes "repo_base repo"
  shows "distinct (map record_handle (records repo))
    \<longleftrightarrow> (\<forall>k < length (records repo). found_by_handle repo k)"
proof
  show "\<forall>k < length (records repo). found_by_handle repo k" if "distinct (map record_handle (records repo))"
    using find_record_at [OF assms that] by blast
next
  assume all: "\<forall>k < length (records repo). found_by_handle repo k"
  have "i = j" if "i < length (records repo)" "j < length (records repo)"
    "record_handle (records repo ! i) = record_handle (records repo ! j)" for i j
  proof -
    have "found_by_handle repo i" "found_by_handle repo j" using all that(1,2) by simp_all
    with that(3) show ?thesis by (simp add: found_by_handle_def)
  qed
  then show "distinct (map record_handle (records repo))" by (auto simp: distinct_conv_nth)
qed

lemma find_record_first:
  assumes "repo_base repo" "records repo \<noteq> []"
  shows "pldm_pdr_find_record repo 0 = pldm_pdr_find_record repo (record_handle (records repo ! 0))"
proof -
  have "0 < length (records repo)" using assms(2) by simp
  from handle_pos [OF assms(1) this] assms(2) show ?thesis
    by (simp add: pldm_pdr_find_record_def hd_conv_nth)
qed

text \<open>The data of the records from a handle on, by \<open>n\<close> lookups.\<close>

fun pdr_walk :: "nat \<Rightarrow> pdr_repo \<Rightarrow> u32 \<Rightarrow> byte list list" where
  "pdr_walk 0 repo handle = []"
| "pdr_walk (Suc n) repo handle =
     (case pldm_pdr_find_record repo handle of
        None \<Rightarrow> []
      | Some (i, sz, data, next_handle) \<Rightarrow>
          data # (if next_handle = 0 then [] else pdr_walk n repo next_handle))"

lemma walk_from:
  assumes base: "repo_base repo" and d: "distinct (map record_handle (records repo))"
    and "k < length (records repo)" "length (records repo) \<le> k + n"
  shows "pdr_walk n repo (record_handle (records repo ! k)) = map rec_data (drop k (records repo))"
  using assms(3,4)
proof (induction n arbitrary: k)
  case (Suc n)
  have dr: "drop k (records repo) = records repo ! k # drop (Suc k) (records repo)"
    using Suc.prems(1) by (rule Cons_nth_drop_Suc [symmetric])
  note f = find_record_at [OF base d Suc.prems(1), unfolded found_by_handle_def]
  show ?case
  proof (cases "Suc k = length (records repo)")
    case True
    with dr f show ?thesis by (simp add: get_next_record_handle_def)
  next
    case False
    then have k: "Suc k < length (records repo)" using Suc.prems(1) by simp
    from Suc.IH [OF k] Suc.prems(2) dr handle_pos [OF base k] f False
    show ?thesis by (simp add: get_next_record_handle_def)
  qed
qed simp

lemma walk_start:
  "repo_base repo \<Longrightarrow> records repo \<noteq> []
    \<Longrightarrow> pdr_walk n repo 0 = pdr_walk n repo (record_handle (records repo ! 0))"
  by (cases n) (simp_all add: find_record_first)

lemma walk_all:
  assumes "repo_base repo" "distinct (map record_handle (records repo))" "length (records repo) \<le> n"
  shows "pdr_walk n repo 0 = map rec_data (records repo)"
proof (cases "records repo = []")
  case True
  then show ?thesis by (cases n) (simp_all add: pldm_pdr_find_record_def)
next
  case False
  with walk_start [OF assms(1)] walk_from [of repo 0 n] assms show ?thesis by simp
qed

text \<open>With a handle that is used twice the walk returns to the first record that has it, and never
  ends.\<close>

lemma walk_in_a_circle:
  assumes base: "repo_base repo" and j: "j < length (records repo)" and i: "i < j"
    and same: "record_handle (records repo ! i) = record_handle (records repo ! j)"
    and first: "\<forall>k < j. \<forall>l < k. record_handle (records repo ! l) \<noteq> record_handle (records repo ! k)"
    and "k < j"
  shows "length (pdr_walk n repo (record_handle (records repo ! k))) = n"
  using assms(6)
proof (induction n arbitrary: k)
  case (Suc n)
  have "k < length (records repo)" using Suc.prems j by simp
  from find_record_first_at [OF base this] first Suc.prems
  have f: "pldm_pdr_find_record repo (record_handle (records repo ! k)) = Some (found_at repo k)"
    by (simp add: found_by_handle_def)
  have k: "Suc k < length (records repo)" using Suc.prems j by simp
  obtain k' where "k' < j" "record_handle (records repo ! Suc k) = record_handle (records repo ! k')"
    using Suc.prems i same by (cases "Suc k = j") (auto dest: Suc_lessI)
  with Suc.IH [of k'] f k handle_pos [OF base k] show ?case
    by (simp add: get_next_record_handle_def)
qed simp

lemma walk_never_ends:
  assumes base: "repo_base repo" and dup: "\<not> distinct (map record_handle (records repo))"
  shows "length (pdr_walk n repo 0) = n"
proof -
  let ?dup = "\<lambda>j. j < length (records repo)
    \<and> (\<exists>i < j. record_handle (records repo ! i) = record_handle (records repo ! j))"
  have "\<exists>j. ?dup j" using dup by (fastforce simp: distinct_conv_nth neq_iff)
  then obtain j where j: "?dup j" and least: "\<And>k. k < j \<Longrightarrow> \<not> ?dup k"
    using exists_least_iff [of ?dup] by blast
  from j obtain i where i: "i < j" "record_handle (records repo ! i) = record_handle (records repo ! j)" by blast
  have "\<forall>k < j. \<forall>l < k. record_handle (records repo ! l) \<noteq> record_handle (records repo ! k)"
  proof (intro allI impI)
    fix k l assume "k < j" "l < k"
    with least [of k] j show "record_handle (records repo ! l) \<noteq> record_handle (records repo ! k)" by auto
  qed
  from walk_in_a_circle [OF base _ i this, of 0 n] j i(1) walk_start [OF base] show ?thesis
    by (cases "records repo = []") auto
qed

section \<open>Removal of remote records\<close>

abbreviation local_records :: "pdr_record list \<Rightarrow> pdr_record list" where
  "local_records rs \<equiv> filter (\<lambda>r. \<not> is_remote r) rs"

lemma remove_remote_loop_eq:
  "remove_remote_loop rs count sz =
     (local_records rs, count - word_of_nat (length (filter is_remote rs)),
      sz - sum_list (map rec_size (filter is_remote rs)), \<exists>r \<in> set rs. is_remote r)"
  by (induction rs count sz rule: remove_remote_loop.induct) (auto simp: algebra_simps)

lemma renumber_Some:
  assumes "\<forall>r \<in> set rs. 4 \<le> length (rec_data r)"
  shows "\<exists>rs'. renumber h rs = Some rs' \<and> length rs' = length rs
     \<and> map rec_size rs' = map rec_size rs \<and> map is_remote rs' = map is_remote rs
     \<and> map (drop 4 \<circ> rec_data) rs' = map (drop 4 \<circ> rec_data) rs
     \<and> (\<forall>k < length rs. record_handle (rs' ! k) = h + word_of_nat (Suc k)
            \<and> rec_data (rs' ! k) = enc32 (h + word_of_nat (Suc k)) @ drop 4 (rec_data (rs ! k)))"
  using assms
proof (induction rs arbitrary: h)
  case (Cons r rs)
  from Cons.prems have "\<forall>r \<in> set rs. 4 \<le> length (rec_data r)" by simp
  from Cons.IH [OF this, of "h + 1"] obtain rs' where rs': "renumber (h + 1) rs = Some rs'" "length rs' = length rs"
    "map rec_size rs' = map rec_size rs" "map is_remote rs' = map is_remote rs"
    "map (drop 4 \<circ> rec_data) rs' = map (drop 4 \<circ> rec_data) rs"
    "\<forall>k < length rs. record_handle (rs' ! k) = (h + 1) + word_of_nat (Suc k)
        \<and> rec_data (rs' ! k) = enc32 ((h + 1) + word_of_nat (Suc k)) @ drop 4 (rec_data (rs ! k))"
    by (elim exE conjE)
  let ?r = "r\<lparr>record_handle := h + 1, rec_data := enc32 (h + 1) @ drop 4 (rec_data r)\<rparr>"
  have "renumber h (r # rs) = Some (?r # rs')" using Cons.prems rs'(1) by simp
  moreover have "\<forall>k < length (r # rs). record_handle ((?r # rs') ! k) = h + word_of_nat (Suc k)
      \<and> rec_data ((?r # rs') ! k) = enc32 (h + word_of_nat (Suc k)) @ drop 4 (rec_data ((r # rs) ! k))"
  proof (intro allI impI)
    fix k assume "k < length (r # rs)"
    then show "record_handle ((?r # rs') ! k) = h + word_of_nat (Suc k)
      \<and> rec_data ((?r # rs') ! k) = enc32 (h + word_of_nat (Suc k)) @ drop 4 (rec_data ((r # rs) ! k))"
      using rs'(6) by (cases k) (auto simp: ac_simps)
  qed
  ultimately show ?case using rs'(2-5) by (intro exI [of _ "?r # rs'"]) (simp add: o_def)
qed simp

lemma sum_list_split:
  "sum_list (map rec_size rs)
    = sum_list (map rec_size (filter is_remote rs)) + sum_list (map rec_size (local_records rs))"
  by (induction rs) (auto simp: algebra_simps)

lemma renumber_headers: "renumber h rs = Some rs' \<Longrightarrow> \<forall>r \<in> set rs. 4 \<le> length (rec_data r)"
  by (induction h rs arbitrary: rs' rule: renumber.induct) (auto simp: bind_eq_Some_conv split: if_splits)

text \<open>The removal when there is a remote record: what the records left over have, and the counters.\<close>

lemma remove_remote_some:
  assumes base: "repo_base repo" and small: "length (records repo) < 2 ^ 32"
    and remote: "\<exists>r \<in> set (records repo). is_remote r"
    and headers: "\<forall>r \<in> set (local_records (records repo)). 4 \<le> length (rec_data r)"
  obtains repo' where "pldm_pdr_remove_remote_pdrs repo = Some repo'" "repo_base repo'"
    "map (drop 4 \<circ> rec_data) (records repo') = map (drop 4 \<circ> rec_data) (local_records (records repo))"
    "\<forall>r \<in> set (records repo'). \<not> is_remote r"
    "map (unat \<circ> record_handle) (records repo') = [1..<Suc (length (records repo'))]"
    "\<forall>r \<in> set (records repo'). read32 (rec_data r) 0 = record_handle r"
    "length ` rec_data ` set (records repo') = length ` rec_data ` set (local_records (records repo))"
proof -
  let ?ls = "local_records (records repo)" and ?gone = "filter is_remote (records repo)"
  from renumber_Some [OF headers, of 0] obtain rs' where rs': "renumber 0 ?ls = Some rs'"
    "length rs' = length ?ls" "map rec_size rs' = map rec_size ?ls" "map is_remote rs' = map is_remote ?ls"
    "map (drop 4 \<circ> rec_data) rs' = map (drop 4 \<circ> rec_data) ?ls"
    and k: "\<And>k. k < length ?ls \<Longrightarrow> record_handle (rs' ! k) = word_of_nat (Suc k)
        \<and> rec_data (rs' ! k) = enc32 (word_of_nat (Suc k)) @ drop 4 (rec_data (?ls ! k))"
    unfolding add_0 by (elim exE conjE) blast
  define repo' where "repo' = \<lparr> record_count = record_count repo - word_of_nat (length ?gone),
     repo_size = repo_size repo - sum_list (map rec_size ?gone), records = rs' \<rparr>"
  have repo': "pldm_pdr_remove_remote_pdrs repo = Some repo'"
    using remote rs'(1) by (simp add: pldm_pdr_remove_remote_pdrs_def remove_remote_loop_eq repo'_def)
  have len: "length ?ls < 2 ^ 32" using small length_filter_le le_less_trans by blast
  have handle: "unat (record_handle (rs' ! k)) = Suc k" if "k < length rs'" for k
  proof -
    have "Suc k < 2 ^ 32"
      using that rs'(2) len remote small sum_length_filter_compl [of is_remote "records repo"]
        length_filter_less [of _ "records repo" "\<lambda>r. \<not> is_remote r"] by fastforce
    with k [of k] that rs'(2) show ?thesis
      by (simp add: unsigned_of_nat take_bit_nat_eq_self del: of_nat_Suc)
  qed
  have ls: "length (records repo) = length ?gone + length ?ls"
    using sum_length_filter_compl [of is_remote "records repo"] by simp
  have sz: "sum_list (map rec_size (records repo)) = sum_list (map rec_size ?gone) + sum_list (map rec_size ?ls)"
    by (rule sum_list_split)
  have lens: "length (rec_data (rs' ! k)) = length (rec_data (?ls ! k))" if "k < length rs'" for k
    using k [of k] headers that rs'(2) nth_mem [of k ?ls] by (auto simp del: of_nat_Suc)
  have "unat (rec_size (rs' ! k)) = length (rec_data (rs' ! k)) \<and> 0 < record_handle (rs' ! k)"
    if "k < length rs'" for k
  proof -
    have "?ls ! k \<in> set (records repo)" using that rs'(2) nth_mem [of k ?ls] by auto
    then have "unat (rec_size (?ls ! k)) = length (rec_data (?ls ! k))" using base by (simp add: repo_base_def)
    moreover have "rec_size (rs' ! k) = rec_size (?ls ! k)" using that rs'(2,3) by (metis nth_map)
    ultimately show ?thesis using handle [OF that] lens [OF that] by (simp add: word_less_nat_alt)
  qed
  then have "\<forall>r \<in> set rs'. unat (rec_size r) = length (rec_data r) \<and> 0 < record_handle r"
    by (auto simp: in_set_conv_nth)
  with base ls sz rs'(2,3) have base': "repo_base repo'" by (simp add: repo_base_def repo'_def)
  have hs: "map (unat \<circ> record_handle) rs' = [1..<Suc (length rs')]"
    by (rule nth_equalityI) (use handle in \<open>auto simp del: upt_Suc\<close>)
  have "is_remote ` set rs' = is_remote ` set ?ls" using rs'(4) by (metis set_map)
  then have local: "\<forall>r \<in> set rs'. \<not> is_remote r" by auto
  have headers': "\<forall>r \<in> set rs'. read32 (rec_data r) 0 = record_handle r"
    using k rs'(2) by (auto simp: in_set_conv_nth read_enc simp del: of_nat_Suc)
  have "map (length \<circ> rec_data) rs' = map (length \<circ> rec_data) ?ls"
    using lens rs'(2) by (intro nth_equalityI) auto
  then have "length ` rec_data ` set rs' = length ` rec_data ` set ?ls"
    unfolding image_comp by (metis list.set_map)
  moreover have "records repo' = rs'" by (simp add: repo'_def)
  ultimately show ?thesis
    using that [OF repo' base'] rs'(5) local hs headers' by (simp del: upt_Suc)
qed

lemma unat_distinct: "map (unat \<circ> f) rs = [1..<n] \<Longrightarrow> distinct (map f rs)"
proof -
  assume "map (unat \<circ> f) rs = [1..<n]"
  then have "distinct (map unat (map f rs))" by (simp only: map_map distinct_upt)
  then show "distinct (map f rs)" using distinct_map by blast
qed

lemma remove_remote_base:
  assumes "repo_base repo" "length (records repo) < 2 ^ 32" "pldm_pdr_remove_remote_pdrs repo = Some repo'"
  shows "repo_base repo'"
proof (cases "\<exists>r \<in> set (records repo). is_remote r")
  case False
  with assms show ?thesis
    by (auto simp: pldm_pdr_remove_remote_pdrs_def remove_remote_loop_eq repo_base_def filter_id_conv)
next
  case True
  with assms(3) obtain rs' where "renumber 0 (local_records (records repo)) = Some rs'"
    by (auto simp: pldm_pdr_remove_remote_pdrs_def remove_remote_loop_eq bind_eq_Some_conv)
  from remove_remote_some [OF assms(1,2) True renumber_headers [OF this]] assms(3) show ?thesis
    by (metis option.inject)
qed

lemma remove_remote_cases:
  assumes inv: "repo_inv repo" and small: "length (records repo) < 2 ^ 32"
  obtains repo' where "pldm_pdr_remove_remote_pdrs repo = Some repo'" "repo_inv repo'"
    "map (drop 4 \<circ> rec_data) (records repo') = map (drop 4 \<circ> rec_data) (local_records (records repo))"
    "\<forall>r \<in> set (records repo'). \<not> is_remote r"
    "(\<exists>r \<in> set (records repo). is_remote r) \<Longrightarrow>
       map (unat \<circ> record_handle) (records repo') = [1..<Suc (length (records repo'))]"
    "\<forall>r \<in> set (records repo). \<not> is_remote r \<Longrightarrow> repo' = repo"
proof (cases "\<exists>r \<in> set (records repo). is_remote r")
  case False
  then have "filter is_remote (records repo) = []" "local_records (records repo) = records repo"
    by (auto simp: filter_empty_conv filter_id_conv)
  with False have "pldm_pdr_remove_remote_pdrs repo = Some repo"
    by (simp add: pldm_pdr_remove_remote_pdrs_def remove_remote_loop_eq)
  with False that [of repo] inv show ?thesis by (auto simp: filter_id_conv)
next
  case True
  have base: "repo_base repo" and ok: "\<forall>r \<in> set (records repo). record_ok r"
    using inv by (simp_all add: repo_inv_def)
  have "\<forall>r \<in> set (local_records (records repo)). 4 \<le> length (rec_data r)"
    using ok by (auto simp: record_ok_def sizeof_pdr_hdr_def)
  from remove_remote_some [OF base small True this] obtain repo' where
    r: "pldm_pdr_remove_remote_pdrs repo = Some repo'" "repo_base repo'"
    "map (drop 4 \<circ> rec_data) (records repo') = map (drop 4 \<circ> rec_data) (local_records (records repo))"
    "\<forall>r \<in> set (records repo'). \<not> is_remote r"
    "map (unat \<circ> record_handle) (records repo') = [1..<Suc (length (records repo'))]"
    "\<forall>r \<in> set (records repo'). read32 (rec_data r) 0 = record_handle r"
    "length ` rec_data ` set (records repo') = length ` rec_data ` set (local_records (records repo))"
    by metis
  have "10 \<le> length (rec_data r)" if "r \<in> set (records repo')" for r
  proof -
    have "length (rec_data r) \<in> length ` rec_data ` set (local_records (records repo))"
      using that r(7) by (metis image_eqI)
    then show ?thesis using ok by (auto simp: record_ok_def sizeof_pdr_hdr_def)
  qed
  with r(2,6) unat_distinct [OF r(5)] have "repo_inv repo'"
    by (simp add: repo_inv_def record_ok_def sizeof_pdr_hdr_def)
  moreover have "\<not> (\<forall>r \<in> set (records repo). \<not> is_remote r)" using True by blast
  ultimately show ?thesis using that r(1,3-5) by blast
qed

section \<open>Association records keep it\<close>

lemma length_pdr_hdr [simp]: "length (pdr_hdr h v ty c l) = 10"
  by (simp add: pdr_hdr_def)

lemma length_enc_entity [simp]: "length (enc_entity e) = 6"
  by (simp add: enc_entity_def)

lemma length_entities: "length (concat (map (\<lambda>c. enc_entity (node_entity c)) cs)) = 6 * length cs"
  by (induction cs) simp_all

lemma num_children:
  assumes "pldm_entity_get_num_children n k = Some num"
  shows "unat num = length (filter (\<lambda>c. association_type c = k) (children n))" "unat num < 255"
  using assms by (auto simp: pldm_entity_get_num_children_def Let_def split: if_splits)

lemma length_association_pdr:
  assumes "pldm_entity_get_num_children n k = Some num"
  shows "length (association_pdr n sz num k) = association_pdr_size (unat num)"
    "association_pdr_size (unat num) < 65536"
  using num_children [OF assms]
  by (simp_all add: association_pdr_def length_entities association_pdr_size_def
      sizeof_pdr_hdr_def sizeof_entity_def)

text \<open>A property of the repository that the addition of a record under a handle of its own keeps.\<close>

locale own_handle_law =
  fixes keeps :: "pdr_repo \<Rightarrow> bool"
  assumes keeps_add: "keeps repo \<Longrightarrow> pldm_pdr_add repo data sz 0 remote = Some (h, repo')
      \<Longrightarrow> unat sz = length data \<Longrightarrow> 10 \<le> length data \<Longrightarrow> keeps repo'"
begin

lemma keeps_association:
  assumes "keeps repo" "pldm_entity_get_num_children n k = Some num"
    "add_association_entry n repo num k remote = Some repo'"
  shows "keeps repo'"
proof -
  note len = length_association_pdr [OF assms(2)]
  let ?sz = "word_of_nat (association_pdr_size (unat num)) :: u16"
  have u: "unat (ucast ?sz :: u32) = association_pdr_size (unat num)"
    using len(2) by (simp add: unsigned_ucast_eq unsigned_of_nat take_bit_nat_eq_self)
  from assms(3) obtain h where
    a: "pldm_pdr_add repo (association_pdr n ?sz num k) (ucast ?sz) 0 remote = Some (h, repo')"
    by (auto simp: add_association_entry_def Let_def)
  show ?thesis
    by (rule keeps_add [OF assms(1) a])
      (use len u in \<open>simp_all add: association_pdr_size_def sizeof_pdr_hdr_def\<close>)
qed

lemma keeps_entry:
  assumes "keeps repo" "entity_association_pdr_add_entry n repo remote = Some repo'"
  shows "keeps repo'"
  using assms
  by (auto simp: entity_association_pdr_add_entry_def bind_eq_Some_conv split: if_splits
      intro: keeps_association)

lemma keeps_associations:
  "keeps repo \<Longrightarrow> entity_association_pdr_add ns remote repo = Some repo' \<Longrightarrow> keeps repo'"
proof (induction ns remote repo arbitrary: repo' rule: entity_association_pdr_add.induct)
  case (2 i e k cs ns remote repo)
  from "2.prems"(2) obtain r1 r2 where
    r: "entity_association_pdr_add_entry (Node i e k cs) repo remote = Some r1"
    "entity_association_pdr_add ns remote r1 = Some r2" "entity_association_pdr_add cs remote r2 = Some repo'"
    by (auto simp: bind_eq_Some_conv)
  from "2.IH"(2) [OF r(1,2) "2.IH"(1) [OF r(1) keeps_entry [OF "2.prems"(1) r(1)] r(2)] r(3)] show ?case .
qed simp

end

interpretation base_law: own_handle_law repo_base
  by unfold_locales (rule pdr_add_base)

interpretation fresh_law: own_handle_law "\<lambda>repo. repo_inv repo \<and> last_is_greatest repo"
proof
  fix repo data sz remote h repo'
  assume "repo_inv repo \<and> last_is_greatest repo" "pldm_pdr_add repo data sz 0 remote = Some (h, repo')"
    "unat sz = length data" "10 \<le> length data"
  moreover have "unat sz < 2 ^ LENGTH(32)" by (rule unsigned_less)
  ultimately show "repo_inv repo' \<and> last_is_greatest repo'"
    using pdr_add_inv [of repo data sz 0 remote h repo'] by (simp add: addable_def sizeof_pdr_hdr_def)
qed

section \<open>The repository as a machine\<close>

datatype pdr_event =
    Add_pdr "byte list" u32 bool
  | Add_fru_set fru_record_set
  | Add_associations entity_tree bool
  | Remove_remote

fun pdr_event_step :: "pdr_repo \<Rightarrow> pdr_event \<Rightarrow> pdr_repo option" where
  "pdr_event_step repo (Add_pdr data h remote) =
     map_option snd (pldm_pdr_add repo data (word_of_nat (length data)) h remote)"
| "pdr_event_step repo (Add_fru_set f) = map_option snd (pldm_pdr_add_fru_record_set repo f)"
| "pdr_event_step repo (Add_associations tree remote) = pldm_entity_association_pdr_add tree repo remote"
| "pdr_event_step repo Remove_remote = pldm_pdr_remove_remote_pdrs repo"

definition pdr_step :: "pdr_repo option \<Rightarrow> pdr_event \<Rightarrow> pdr_repo option" where
  "pdr_step s e = Option.bind s (\<lambda>repo. pdr_event_step repo e)"

text \<open>Sizes that the code can hold: records below 4 GiB, and fewer than \<open>2 ^ 32\<close> records when they are
  renumbered.\<close>

fun pdr_event_small :: "pdr_repo \<Rightarrow> pdr_event \<Rightarrow> bool" where
  "pdr_event_small repo (Add_pdr data h remote) \<longleftrightarrow> length data < 4294967296"
| "pdr_event_small repo Remove_remote \<longleftrightarrow> length (records repo) < 4294967296"
| "pdr_event_small repo e \<longleftrightarrow> True"

text \<open>Additions under a fresh handle: one of the caller that is not in use and stands in the header,
  one of the repository's own when the last record has the greatest handle.\<close>

fun pdr_event_fresh :: "pdr_repo \<Rightarrow> pdr_event \<Rightarrow> bool" where
  "pdr_event_fresh repo (Add_pdr data h remote) \<longleftrightarrow> addable repo data h"
| "pdr_event_fresh repo Remove_remote \<longleftrightarrow> length (records repo) < 4294967296"
| "pdr_event_fresh repo e \<longleftrightarrow> last_is_greatest repo"

definition pdr_enabled :: "pdr_repo option \<Rightarrow> pdr_event \<Rightarrow> bool" where
  "pdr_enabled s e \<longleftrightarrow> (case s of None \<Rightarrow> True | Some repo \<Rightarrow> pdr_event_small repo e)"

definition pdr_fresh :: "pdr_repo option \<Rightarrow> pdr_event \<Rightarrow> bool" where
  "pdr_fresh s e \<longleftrightarrow> (case s of None \<Rightarrow> True | Some repo \<Rightarrow> pdr_event_fresh repo e)"

lemma fru_set_addable:
  "\<exists>data. length data = 20 \<and> pldm_pdr_add_fru_record_set repo f = pldm_pdr_add repo data 20 0 False
     \<and> data ! 5 = PLDM_PDR_FRU_RECORD_SET \<and> fru_record_set_at data = f"
proof -
  let ?data = "pdr_hdr 0 1 PLDM_PDR_FRU_RECORD_SET 0 (word_of_nat sizeof_fru_record_set)
        @ enc16 (frs_terminus_handle f) @ enc16 (frs_fru_rsi f) @ enc16 (frs_entity_type f)
        @ enc16 (frs_entity_instance_num f) @ enc16 (frs_container_id f)"
  have "fru_record_set_at ?data = f"
    by (simp add: fru_record_set_at_def read16_skip) (simp add: read_enc)
  moreover have "?data ! 5 = PLDM_PDR_FRU_RECORD_SET"
    by (simp add: pdr_hdr_def enc32_def nth_append)
  moreover have "pldm_pdr_add_fru_record_set repo f = pldm_pdr_add repo ?data 20 0 False"
    by (simp add: pldm_pdr_add_fru_record_set_def sizeof_pdr_hdr_def sizeof_fru_record_set_def)
  ultimately show ?thesis by (intro exI [of _ ?data]) simp
qed

lemma pdr_event_base:
  assumes "repo_base repo" "pdr_event_small repo e" "pdr_event_step repo e = Some repo'"
  shows "repo_base repo'"
proof (cases e)
  case (Add_pdr data h remote)
  then show ?thesis
    using assms pdr_add_base [OF assms(1)]
    by (auto simp: unsigned_of_nat take_bit_nat_eq_self)
next
  case (Add_fru_set f)
  from fru_set_addable obtain data where d: "length data = 20"
    "pldm_pdr_add_fru_record_set repo f = pldm_pdr_add repo data 20 0 False" by blast
  with Add_fru_set assms(3) obtain h where "pldm_pdr_add repo data 20 0 False = Some (h, repo')" by auto
  from pdr_add_base [OF assms(1) this] d show ?thesis by simp
next
  case (Add_associations tree remote)
  with assms(3) have "entity_association_pdr_add (root tree) remote repo = Some repo'"
    by (simp add: pldm_entity_association_pdr_add_def)
  from base_law.keeps_associations [OF assms(1) this] show ?thesis .
next
  case Remove_remote
  with assms remove_remote_base show ?thesis by simp
qed

lemma pdr_event_inv:
  assumes "repo_inv repo" "pdr_event_fresh repo e" "pdr_event_step repo e = Some repo'"
  shows "repo_inv repo'"
proof (cases e)
  case (Add_pdr data h remote)
  then show ?thesis
    using assms pdr_add_inv [OF assms(1)]
    by (auto simp: addable_def unsigned_of_nat take_bit_nat_eq_self)
next
  case (Add_fru_set f)
  from fru_set_addable obtain data where d: "length data = 20"
    "pldm_pdr_add_fru_record_set repo f = pldm_pdr_add repo data 20 0 False" by blast
  with Add_fru_set assms(3) obtain h where "pldm_pdr_add repo data 20 0 False = Some (h, repo')" by auto
  from fresh_law.keeps_add [OF _ this] d assms(1,2) Add_fru_set show ?thesis by simp
next
  case (Add_associations tree remote)
  with assms(3) have "entity_association_pdr_add (root tree) remote repo = Some repo'"
    by (simp add: pldm_entity_association_pdr_add_def)
  from fresh_law.keeps_associations [OF _ this] assms(1,2) Add_associations show ?thesis by simp
next
  case Remove_remote
  with assms have "length (records repo) < 2 ^ 32" by simp
  from remove_remote_cases [OF assms(1) this] Remove_remote assms(3) show ?thesis by auto
qed

lemma pdr_init_inv: "repo_base pldm_pdr_init" "repo_inv pldm_pdr_init"
  by (simp_all add: repo_inv_def repo_base_def pldm_pdr_init_def)

interpretation counters: machine "Some pldm_pdr_init" pdr_step pdr_enabled
  "\<lambda>s. \<forall>repo. s = Some repo \<longrightarrow> repo_base repo"
proof
  show "\<forall>repo. Some pldm_pdr_init = Some repo \<longrightarrow> repo_base repo" by (simp add: pdr_init_inv)
  fix s e assume "\<forall>repo. s = Some repo \<longrightarrow> repo_base repo" "pdr_enabled s e"
  then show "\<forall>repo. pdr_step s e = Some repo \<longrightarrow> repo_base repo"
    by (auto simp: pdr_step_def bind_eq_Some_conv pdr_enabled_def intro: pdr_event_base)
qed

interpretation pdrs: machine "Some pldm_pdr_init" pdr_step pdr_fresh
  "\<lambda>s. \<forall>repo. s = Some repo \<longrightarrow> repo_inv repo"
proof
  show "\<forall>repo. Some pldm_pdr_init = Some repo \<longrightarrow> repo_inv repo" by (simp add: pdr_init_inv)
  fix s e assume "\<forall>repo. s = Some repo \<longrightarrow> repo_inv repo" "pdr_fresh s e"
  then show "\<forall>repo. pdr_step s e = Some repo \<longrightarrow> repo_inv repo"
    by (auto simp: pdr_step_def bind_eq_Some_conv pdr_fresh_def intro: pdr_event_inv)
qed

section \<open>FRU record sets are found again\<close>

lemma find_type_loop_append:
  "find_type_loop ty i rs = Some None \<Longrightarrow> 6 \<le> length (rec_data r) \<Longrightarrow> rec_data r ! 5 = ty \<Longrightarrow>
     find_type_loop ty i (rs @ [r]) = Some (Some (i + length rs))"
  "find_type_loop ty i rs = Some (Some j) \<Longrightarrow> find_type_loop ty i (rs @ [r]) = Some (Some j)"
  by (induction ty i rs rule: find_type_loop.induct) (auto split: if_splits)

lemma find_by_type_append:
  assumes "\<forall>i. cur = Some i \<longrightarrow> i < length (records repo)"
  shows "pldm_pdr_find_record_by_type repo ty cur = Some (Some j) \<Longrightarrow>
      pldm_pdr_find_record_by_type (add_record repo r) ty cur = Some (Some j)"
    "pldm_pdr_find_record_by_type repo ty cur = Some None \<Longrightarrow> 6 \<le> length (rec_data r) \<Longrightarrow>
      rec_data r ! 5 = ty \<Longrightarrow>
      pldm_pdr_find_record_by_type (add_record repo r) ty cur = Some (Some (length (records repo)))"
  using assms
  by (auto simp: pldm_pdr_find_record_by_type_def add_record_def Let_def find_type_loop_append
      split: option.splits)

lemma fru_find_append:
  assumes "fru_find_loop repo rsi cur = Some None" "\<forall>i. cur = Some i \<longrightarrow> i < length (records repo)"
    "length (rec_data r) = 20" "rec_data r ! 5 = PLDM_PDR_FRU_RECORD_SET"
    "frs_fru_rsi (fru_record_set_at (rec_data r)) = rsi"
  shows "fru_find_loop (add_record repo r) rsi cur
    = Some (Some (length (records repo), fru_record_set_at (rec_data r)))"
  using assms
proof (induction repo rsi cur rule: fru_find_loop.induct)
  case (1 repo rsi cur)
  have r: "records (add_record repo r) = records repo @ [r]" by (simp add: add_record_def)
  show ?case
  proof (cases "pldm_pdr_find_record_by_type repo PLDM_PDR_FRU_RECORD_SET cur")
    case None
    with "1.prems"(1) show ?thesis by (subst (asm) fru_find_loop.simps) simp
  next
    case (Some found)
    show ?thesis
    proof (cases found)
      case None
      with Some have f: "pldm_pdr_find_record_by_type (add_record repo r) PLDM_PDR_FRU_RECORD_SET cur
          = Some (Some (length (records repo)))"
        using find_by_type_append(2) [OF "1.prems"(2)] "1.prems"(3,4) by simp
      show ?thesis
        using "1.prems"(3,5) r by (subst fru_find_loop.simps) (simp add: f)
    next
      case (Some i)
      with \<open>_ = Some found\<close> have f: "pldm_pdr_find_record_by_type repo PLDM_PDR_FRU_RECORD_SET cur
          = Some (Some i)" by simp
      then have i: "i < length (records repo)" using find_by_type_bounds by blast
      note f' = find_by_type_append(1) [OF "1.prems"(2) f, of r]
      let ?data = "rec_data (records repo ! i)"
      from "1.prems"(1) f have l: "\<not> length ?data < 14" "frs_fru_rsi (fru_record_set_at ?data) \<noteq> rsi"
        and rest: "fru_find_loop repo rsi (Some i) = Some None"
        by (subst (asm) fru_find_loop.simps, simp add: Let_def split: if_splits)+
      have "fru_find_loop (add_record repo r) rsi (Some i)
          = Some (Some (length (records repo), fru_record_set_at (rec_data r)))"
        using "1.IH" [OF f refl refl refl l rest] i "1.prems"(3-5) by simp
      with f' l i r show ?thesis
        by (subst fru_find_loop.simps) (simp add: nth_append)
    qed
  qed
qed

section \<open>Properties\<close>

lemma sum_sizes:
  "\<forall>r \<in> set rs. unat (rec_size r) = length (rec_data r) \<Longrightarrow>
     sum_list (map rec_size rs) = word_of_nat (sum_list (map (length \<circ> rec_data) rs))"
proof (induction rs)
  case (Cons r rs)
  then have "word_of_nat (length (rec_data r)) = (word_of_nat (unat (rec_size r)) :: u32)" by simp
  then have "word_of_nat (length (rec_data r)) = rec_size r" by simp
  with Cons show ?case by simp
qed simp

text \<open>A run with handles of both kinds, the last ones not in order.\<close>

definition sample_set :: "u16 \<Rightarrow> fru_record_set" where
  "sample_set rsi = \<lparr> frs_terminus_handle = 1, frs_fru_rsi = rsi, frs_entity_type = 0x40,
     frs_entity_instance_num = 1, frs_container_id = 0 \<rparr>"

definition sample_record :: "u32 \<Rightarrow> byte list" where
  "sample_record h = enc32 h @ [1, 2, 0, 0, 0, 0]"

definition sample_events :: "pdr_event list" where
  "sample_events = [Add_fru_set (sample_set 7), Add_pdr (sample_record 0) 0 True,
     Add_pdr (sample_record 9) 9 False, Add_pdr (sample_record 5) 5 False]"

lemma sample_run:
  "run pdr_step (Some pldm_pdr_init) sample_events = Some \<lparr> record_count = 4, repo_size = 50,
     records = [\<lparr> record_handle = 1, rec_size = 20,
                  rec_data = [1, 0, 0, 0, 1, 20, 0, 0, 10, 0, 1, 0, 7, 0, 0x40, 0, 1, 0, 0, 0],
                  is_remote = False \<rparr>,
                \<lparr> record_handle = 2, rec_size = 10, rec_data = sample_record 2, is_remote = True \<rparr>,
                \<lparr> record_handle = 9, rec_size = 10, rec_data = sample_record 9, is_remote = False \<rparr>,
                \<lparr> record_handle = 5, rec_size = 10, rec_data = sample_record 5, is_remote = False \<rparr>] \<rparr>"
  by code_simp

lemma sample_fresh: "admissible pdr_step pdr_fresh (Some pldm_pdr_init) sample_events"
proof -
  have "pdr_step (Some pldm_pdr_init) (Add_fru_set (sample_set 7)) = Some \<lparr> record_count = 1, repo_size = 20,
      records = [\<lparr> record_handle = 1, rec_size = 20,
                  rec_data = [1, 0, 0, 0, 1, 20, 0, 0, 10, 0, 1, 0, 7, 0, 0x40, 0, 1, 0, 0, 0],
                  is_remote = False \<rparr>] \<rparr>" (is "_ = Some ?a") by code_simp
  moreover have "pdr_step (Some ?a) (Add_pdr (sample_record 0) 0 True) = Some \<lparr> record_count = 2,
      repo_size = 30, records = records ?a @
        [\<lparr> record_handle = 2, rec_size = 10, rec_data = sample_record 2, is_remote = True \<rparr>] \<rparr>"
    (is "_ = Some ?b") by code_simp
  moreover have "pdr_step (Some ?b) (Add_pdr (sample_record 9) 9 False) = Some \<lparr> record_count = 3,
      repo_size = 40, records = records ?b @
        [\<lparr> record_handle = 9, rec_size = 10, rec_data = sample_record 9, is_remote = False \<rparr>] \<rparr>"
    (is "_ = Some ?c") by code_simp
  moreover have "pdr_fresh (Some pldm_pdr_init) (Add_fru_set (sample_set 7))"
    by (simp add: pdr_fresh_def last_is_greatest_def pldm_pdr_init_def)
  moreover have "pdr_fresh (Some ?a) (Add_pdr (sample_record 0) 0 True)"
    by (simp add: pdr_fresh_def addable_def sample_record_def sizeof_pdr_hdr_def last_is_greatest_def)
  moreover have "pdr_fresh (Some ?b) (Add_pdr (sample_record 9) 9 False)"
    by (simp add: pdr_fresh_def addable_def sample_record_def sizeof_pdr_hdr_def read32_enc)
  moreover have "pdr_fresh (Some ?c) (Add_pdr (sample_record 5) 5 False)"
    by (simp add: pdr_fresh_def addable_def sample_record_def sizeof_pdr_hdr_def read32_enc)
  ultimately show ?thesis by (simp add: sample_events_def)
qed

text \<open>Fresh additions are small ones.\<close>

lemma fresh_small: "admissible pdr_step pdr_fresh s es \<Longrightarrow> admissible pdr_step pdr_enabled s es"
proof (induction es arbitrary: s)
  case (Cons e es)
  then show ?case
    by (cases e) (auto simp: pdr_fresh_def pdr_enabled_def addable_def split: option.splits)
qed simp

text \<open>
  C27: After any sequence of additions and removals that does not abort (records below 4 GiB, fewer
  than \<open>2 ^ 32\<close> records when they are renumbered) the counters that PDRRepositoryInfo reports are
  those of the list. Nothing in the code keeps a caller from using a handle twice: every record is
  found by its handle, and a walk from handle 0 by the next handles that the lookups return (the
  way a requester reads the repository) yields the data of every record exactly once and in order,
  exactly when no two records have the same handle; otherwise the walk never ends. The handles are
  distinct, and stand in the headers, when every addition is under a fresh one: a handle of the
  caller that is not in use (in whatever order), or the repository's own, the last one plus one,
  while the last one is the greatest.
\<close>

theorem repository_is_walked_completely:
  assumes "admissible pdr_step pdr_enabled (Some pldm_pdr_init) es"
    "run pdr_step (Some pldm_pdr_init) es = Some repo" "length (records repo) < n"
  shows "pldm_pdr_get_record_count repo = word_of_nat (length (records repo))
    \<and> pldm_pdr_get_repo_size repo = word_of_nat (sum_list (map (length \<circ> rec_data) (records repo)))
    \<and> (distinct (map record_handle (records repo)) \<longleftrightarrow> pdr_walk n repo 0 = map rec_data (records repo))
    \<and> (distinct (map record_handle (records repo)) \<longleftrightarrow> (\<forall>k < length (records repo).
         pldm_pdr_find_record repo (record_handle (records repo ! k))
           = Some (k, rec_size (records repo ! k), rec_data (records repo ! k), get_next_record_handle repo k)))
    \<and> (distinct (map record_handle (records repo)) \<or> length (pdr_walk n repo 0) = n)
    \<and> (admissible pdr_step pdr_fresh (Some pldm_pdr_init) es \<longrightarrow>
         distinct (map record_handle (records repo))
         \<and> (\<forall>r \<in> set (records repo). read32 (rec_data r) 0 = record_handle r))"
proof -
  from counters.inv_run [OF assms(1)] assms(2) have base: "repo_base repo" by simp
  then have "\<forall>r \<in> set (records repo). unat (rec_size r) = length (rec_data r)"
    by (simp add: repo_base_def)
  with base sum_sizes have
    size: "repo_size repo = word_of_nat (sum_list (map (length \<circ> rec_data) (records repo)))"
    by (simp add: repo_base_def)
  have ends: "distinct (map record_handle (records repo)) \<or> length (pdr_walk n repo 0) = n"
    using walk_never_ends [OF base] by blast
  then have walk: "distinct (map record_handle (records repo))
      \<longleftrightarrow> pdr_walk n repo 0 = map rec_data (records repo)"
    using walk_all [OF base _ less_imp_le [OF assms(3)]] assms(3) by (metis length_map less_irrefl)
  have "repo_inv repo" if "admissible pdr_step pdr_fresh (Some pldm_pdr_init) es"
    using pdrs.inv_run [OF that] assms(2) by simp
  then have fresh: "admissible pdr_step pdr_fresh (Some pldm_pdr_init) es \<longrightarrow>
      distinct (map record_handle (records repo))
      \<and> (\<forall>r \<in> set (records repo). read32 (rec_data r) 0 = record_handle r)"
    by (simp add: repo_inv_def record_ok_def)
  from size ends walk fresh distinct_iff_found [OF base, unfolded found_by_handle_def] base show ?thesis
    by (simp add: pldm_pdr_get_record_count_def pldm_pdr_get_repo_size_def repo_base_def)
qed

text \<open>The same handle twice: the second record is not found by it.\<close>

definition repeated_events :: "pdr_event list" where
  "repeated_events = [Add_pdr (sample_record 9) 9 False, Add_pdr (9 # sample_record 9) 9 False]"

lemma repeated_run:
  "run pdr_step (Some pldm_pdr_init) repeated_events = Some \<lparr> record_count = 2, repo_size = 21,
     records = [\<lparr> record_handle = 9, rec_size = 10, rec_data = sample_record 9, is_remote = False \<rparr>,
       \<lparr> record_handle = 9, rec_size = 11, rec_data = 9 # sample_record 9, is_remote = False \<rparr>] \<rparr>"
  by code_simp

lemma repeated_small: "admissible pdr_step pdr_enabled (Some pldm_pdr_init) repeated_events"
  by (auto simp: repeated_events_def pdr_enabled_def sample_record_def enc32_def split: option.splits)

lemma repository_is_walked_completely_witness:
  "(\<exists>repo. run pdr_step (Some pldm_pdr_init) sample_events = Some repo \<and> length (records repo) = 4
      \<and> pdr_walk 5 repo 0 = map rec_data (records repo))
    \<and> (\<exists>repo. run pdr_step (Some pldm_pdr_init) repeated_events = Some repo
      \<and> length (pdr_walk 3 repo 0) = 3)"
  using repository_is_walked_completely [OF fresh_small [OF sample_fresh] sample_run, of 5]
    repository_is_walked_completely [OF repeated_small repeated_run, of 3]
    sample_fresh sample_run repeated_run by simp

text \<open>
  Removing the remote records keeps exactly the local ones, in their order and with their data
  after the handle unchanged; when there was a remote record the local ones get the handles from 1
  on without a gap, otherwise the repository is unchanged.
\<close>

lemma remote_records_are_removed:
  assumes "admissible pdr_step pdr_fresh (Some pldm_pdr_init) es"
    "run pdr_step (Some pldm_pdr_init) es = Some repo" "length (records repo) < 2 ^ 32"
  shows "\<exists>repo'. pldm_pdr_remove_remote_pdrs repo = Some repo'
    \<and> map (drop 4 \<circ> rec_data) (records repo')
      = map (drop 4 \<circ> rec_data) (filter (\<lambda>r. \<not> is_remote r) (records repo))
    \<and> (\<forall>r \<in> set (records repo'). \<not> is_remote r)
    \<and> (if \<exists>r \<in> set (records repo). is_remote r
       then map (unat \<circ> record_handle) (records repo') = [1..<Suc (length (records repo'))]
       else repo' = repo)"
proof -
  from pdrs.inv_run [OF assms(1)] assms(2) have inv: "repo_inv repo" by simp
  show ?thesis
  proof (rule remove_remote_cases [OF inv assms(3)], goal_cases)
    case (1 repo')
    then show ?case
      by (intro exI [of _ repo'] conjI) (auto simp del: upt_Suc)
  qed
qed

lemma remote_records_are_removed_witness:
  "\<exists>repo repo'. run pdr_step (Some pldm_pdr_init) sample_events = Some repo
     \<and> pldm_pdr_remove_remote_pdrs repo = Some repo' \<and> (\<exists>r \<in> set (records repo). is_remote r)
     \<and> map (unat \<circ> record_handle) (records repo') = [1..<Suc (length (records repo'))]"
  using remote_records_are_removed [OF sample_fresh sample_run] sample_run by auto

text \<open>
  A FRU record set that is added under a new record set identifier is found again under this
  identifier with all its fields, in the record with the returned handle.
\<close>

lemma fru_set_is_found_again:
  assumes "pldm_pdr_fru_record_set_find_by_rsi repo (frs_fru_rsi f) = Some (None, none)"
    "pldm_pdr_add_fru_record_set repo f = Some (h, repo')"
  shows "pldm_pdr_fru_record_set_find_by_rsi repo' (frs_fru_rsi f) = Some (Some (length (records repo)), f)
    \<and> pldm_pdr_get_record_handle repo' (length (records repo)) = h"
proof -
  from fru_set_addable obtain data where d: "length data = 20"
    "pldm_pdr_add repo data 20 0 False = Some (h, repo')"
    "data ! 5 = PLDM_PDR_FRU_RECORD_SET" "fru_record_set_at data = f"
    using assms(2) by metis
  from pdr_add_cases [OF d(2)] d(1) obtain r where r0: "repo' = add_record repo r" "record_handle r = h"
    "rec_data r = enc32 h @ drop 4 data"
    by auto
  with d(1) have r: "repo' = add_record repo r" "record_handle r = h"
    "drop 4 (rec_data r) = drop 4 data" "length (rec_data r) = 20" by simp_all
  have nth: "rec_data r ! (4 + i) = data ! (4 + i)" for i
  proof -
    have "drop 4 (rec_data r) ! i = rec_data r ! (4 + i)" using r(4) by simp
    moreover have "drop 4 data ! i = data ! (4 + i)" using d(1) by simp
    ultimately show ?thesis using r(3) by simp
  qed
  have "rec_data r ! 5 = data ! 5" using nth [of 1] by simp
  moreover have "fru_record_set_at (rec_data r) = fru_record_set_at data"
    using nth [of 6] nth [of 7] nth [of 8] nth [of 9] nth [of 10] nth [of 11] nth [of 12] nth [of 13]
      nth [of 14] nth [of 15]
    by (simp add: fru_record_set_at_def read16_def)
  moreover have "fru_find_loop repo (frs_fru_rsi f) None = Some None"
  proof -
    from assms(1) obtain x where x: "fru_find_loop repo (frs_fru_rsi f) None = Some x"
      by (auto simp: pldm_pdr_fru_record_set_find_by_rsi_def bind_eq_Some_conv)
    with assms(1) show ?thesis by (cases x) (auto simp: pldm_pdr_fru_record_set_find_by_rsi_def)
  qed
  ultimately have "fru_find_loop repo' (frs_fru_rsi f) None = Some (Some (length (records repo), f))"
    using fru_find_append [of repo "frs_fru_rsi f" None r] r d by simp
  then show ?thesis
    by (simp add: pldm_pdr_fru_record_set_find_by_rsi_def pldm_pdr_get_record_handle_def r add_record_def)
qed

lemma fru_set_is_found_again_witness:
  "\<exists>repo. pldm_pdr_fru_record_set_find_by_rsi repo 7 = Some (Some 1, sample_set 7)"
proof -
  define repo where "repo = \<lparr> record_count = 1, repo_size = 10,
     records = [\<lparr> record_handle = 9, rec_size = 10, rec_data = sample_record 9, is_remote = False \<rparr>] \<rparr>"
  have "pldm_pdr_fru_record_set_find_by_rsi repo 7 =
      Some (None, \<lparr> frs_terminus_handle = 0, frs_fru_rsi = 7, frs_entity_type = 0,
                    frs_entity_instance_num = 0, frs_container_id = 0 \<rparr>)"
    unfolding repo_def by code_simp
  moreover have "pldm_pdr_add_fru_record_set repo (sample_set 7) \<noteq> None"
    unfolding repo_def by code_simp
  then have "\<exists>h repo'. pldm_pdr_add_fru_record_set repo (sample_set 7) = Some (h, repo')" by auto
  moreover have "frs_fru_rsi (sample_set 7) = 7" "length (records repo) = 1"
    by (simp_all add: sample_set_def repo_def)
  ultimately show ?thesis using fru_set_is_found_again [of repo "sample_set 7"] by metis
qed

end
