(* ===== verification/Pdr_Entity_Props.thy ===== *)
theory Pdr_Entity_Props
  imports Pdr_Repo_Props "HOL-Library.Multiset"
begin

text \<open>
  Properties of the entity association tree: the entities of a chain of siblings are grouped by type
  and numbered from 1, every chain has a container id of its own, so that the identification of an
  entity by type, instance number and container id is unique; and the association records of a tree
  give back its containments.
\<close>

section \<open>Chains of siblings\<close>

abbreviation entities :: "entity_node list \<Rightarrow> pldm_entity list" where
  "entities ns \<equiv> map node_entity ns"

abbreviation types_of :: "pldm_entity list \<Rightarrow> u16 list" where
  "types_of es \<equiv> map entity_type es"

text \<open>The instance number counts the entities of the same type up to this one.\<close>

fun numbered :: "u16 list \<Rightarrow> pldm_entity list \<Rightarrow> bool" where
  "numbered ts [] \<longleftrightarrow> True"
| "numbered ts (e # es) \<longleftrightarrow> unat (entity_instance_num e) = Suc (count_list ts (entity_type e))
     \<and> numbered (ts @ [entity_type e]) es"

definition chain_ok :: "pldm_entity list \<Rightarrow> bool" where
  "chain_ok es \<longleftrightarrow> (\<forall>e \<in> set es. entity_container_id e = entity_container_id (hd es))
     \<and> distinct (remdups_adj (types_of es)) \<and> numbered [] es"

lemma numbered_append: "numbered ts (es @ fs) \<longleftrightarrow> numbered ts es \<and> numbered (ts @ types_of es) fs"
  by (induction es arbitrary: ts) auto

lemma numbered_cong:
  "(\<And>e. e \<in> set es \<Longrightarrow> count_list ts (entity_type e) = count_list ts' (entity_type e)) \<Longrightarrow>
     numbered ts es = numbered ts' es"
proof (induction es arbitrary: ts ts')
  case (Cons e es)
  have "numbered (ts @ [entity_type e]) es = numbered (ts' @ [entity_type e]) es"
    by (rule Cons.IH) (simp add: Cons.prems)
  with Cons.prems show ?case by simp
qed simp

lemma numbered_greater:
  "numbered ts es \<Longrightarrow> e \<in> set es \<Longrightarrow> count_list ts (entity_type e) < unat (entity_instance_num e)"
  by (induction es arbitrary: ts) force+

lemma numbered_distinct: "numbered ts es \<Longrightarrow> distinct es"
proof (induction es arbitrary: ts)
  case (Cons e es)
  then have "numbered (ts @ [entity_type e]) es" by simp
  with Cons numbered_greater [OF this, of e] show ?case by auto
qed simp

lemma numbered_no_gap:
  "numbered [] es \<Longrightarrow> 0 < j \<Longrightarrow> j \<le> count_list (types_of es) ty \<Longrightarrow>
     \<exists>e \<in> set es. entity_type e = ty \<and> unat (entity_instance_num e) = j"
proof (induction es rule: rev_induct)
  case (snoc e es)
  show ?case
  proof (cases "j \<le> count_list (types_of es) ty")
    case True
    with snoc show ?thesis by (auto simp: numbered_append)
  next
    case False
    with snoc.prems have "entity_type e = ty" "j = Suc (count_list (types_of es) ty)"
      by (auto split: if_splits)
    with snoc.prems show ?thesis by (auto simp: numbered_append)
  qed
qed simp

lemma numbered_at_most:
  "numbered [] es \<Longrightarrow> e \<in> set es \<Longrightarrow> unat (entity_instance_num e) \<le> count_list (types_of es) (entity_type e)"
  by (induction es rule: rev_induct) (auto simp: numbered_append)

text \<open>Where a node is inserted.\<close>

lemma find_insertion_at_position:
  assumes "ns \<noteq> []" "distinct (remdups_adj (types_of (entities ns)))"
  shows "\<exists>xs prev ys. ns = xs @ prev # ys \<and> find_insertion_at ty ns = length xs
    \<and> ty \<notin> set (types_of (entities ys))
    \<and> (entity_type (node_entity prev) \<noteq> ty \<longrightarrow> ys = [] \<and> ty \<notin> set (types_of (entities ns)))"
  using assms
proof (induction ty ns rule: find_insertion_at.induct)
  case (1 ty n m ns)
  let ?t = "\<lambda>x. entity_type (node_entity x)"
  show ?case
  proof (cases "?t n = ty \<and> ty \<noteq> ?t m")
    case True
    then have "ty \<notin> set (types_of (entities (m # ns)))" using "1.prems" by auto
    with True show ?thesis by (intro exI [of _ "[]"]) auto
  next
    case False
    have "distinct (remdups_adj (types_of (entities (m # ns))))"
      using "1.prems" by (auto split: if_splits)
    from "1.IH" [OF False list.distinct(2) this] obtain xs prev ys where i: "m # ns = xs @ prev # ys"
      "find_insertion_at ty (m # ns) = length xs" "ty \<notin> set (types_of (entities ys))"
      "?t prev \<noteq> ty \<longrightarrow> ys = [] \<and> ty \<notin> set (types_of (entities (m # ns)))" by blast
    have "?t prev \<noteq> ty \<longrightarrow> ty \<notin> set (types_of (entities (n # m # ns)))"
      using i(4) False by auto
    moreover have "n # m # ns = (n # xs) @ prev # ys" using i(1) by simp
    moreover have "find_insertion_at ty (n # m # ns) = length (n # xs)" using i(2) False by auto
    ultimately show ?thesis using i(3,4) by blast
  qed
qed (simp, auto simp: Cons_eq_append_conv)

lemma grouped_repeat: "remdups_adj (xs @ t # t # ys) = remdups_adj (xs @ t # ys)"
  using remdups_adj_append [of xs t "t # ys"] remdups_adj_append [of xs t ys] by simp

lemma grouped_snoc: "xs \<noteq> [] \<Longrightarrow> last xs \<noteq> t \<Longrightarrow> remdups_adj (xs @ [t]) = remdups_adj xs @ [t]"
proof (cases xs rule: rev_cases)
  case (snoc zs z)
  assume "last xs \<noteq> t"
  with snoc remdups_adj_append [of zs z "[t]"] show ?thesis by simp
qed simp

text \<open>An insertion keeps a chain as it should be.\<close>

lemma insert_sibling_chain:
  assumes "insert_sibling i ty k ns = Some (e, ns')" "ns \<noteq> []" "chain_ok (entities ns)"
  obtains xs ys where "ns = xs @ ys" "xs \<noteq> []" "ns' = xs @ Node i e k [] # ys"
    "chain_ok (entities ns')" "entity_type e = ty"
    "entity_container_id e = entity_container_id (hd (entities ns))"
proof -
  have g: "distinct (remdups_adj (types_of (entities ns)))" using assms(3) by (simp add: chain_ok_def)
  from find_insertion_at_position [OF assms(2) g, of ty] obtain xs prev ys where
    ns: "ns = xs @ prev # ys" and pos: "find_insertion_at ty ns = length xs"
    and ty: "ty \<notin> set (types_of (entities ys))"
    and new: "entity_type (node_entity prev) \<noteq> ty \<longrightarrow> ys = [] \<and> ty \<notin> set (types_of (entities ns))"
    by blast
  let ?p = "node_entity prev"
  have at: "ns ! length xs = prev" "take (Suc (length xs)) ns = xs @ [prev]" "drop (Suc (length xs)) ns = ys"
    by (simp_all add: ns)
  from assms(1) have ns': "ns' = (xs @ [prev]) @ Node i e k [] # ys"
    and e: "e = \<lparr> entity_type = ty, entity_instance_num = (if entity_type ?p = ty then entity_instance_num ?p + 1 else 1),
                 entity_container_id = entity_container_id ?p \<rparr>"
    and max: "\<not> (entity_type ?p = ty \<and> entity_instance_num ?p = 0xFFFF)"
    by (auto simp: insert_sibling_def Let_def pos at split: if_splits)
  have n: "numbered [] (entities xs)" "numbered (types_of (entities xs)) (?p # entities ys)"
    using assms(3) by (simp_all add: chain_ok_def ns numbered_append del: numbered.simps)
  have inst: "unat (entity_instance_num e) = Suc (count_list (types_of (entities xs) @ [entity_type ?p]) ty)"
  proof (cases "entity_type ?p = ty")
    case True
    have "unat (entity_instance_num ?p + 1) = Suc (unat (entity_instance_num ?p))"
    proof -
      have "1 + entity_instance_num ?p \<noteq> 0"
      proof
        assume "1 + entity_instance_num ?p = 0"
        then have "entity_instance_num ?p = - 1" by (simp add: eq_neg_iff_add_eq_0 add.commute)
        with max True show False by simp
      qed
      from unatSuc [OF this] show ?thesis by (simp add: add.commute)
    qed
    with n(2) True e show ?thesis by simp
  next
    case False
    then have "ty \<notin> set (types_of (entities ns))" using new by simp
    then have "count_list (types_of (entities xs) @ [entity_type ?p]) ty = 0"
      by (auto simp: ns count_list_0_iff)
    with False e show ?thesis by simp
  qed
  have tail: "numbered (types_of (entities xs) @ [entity_type ?p, ty]) (entities ys)
      = numbered (types_of (entities xs) @ [entity_type ?p]) (entities ys)"
    by (rule numbered_cong) (use ty in auto)
  have "numbered [] (entities ns')"
    using n tail inst e by (simp add: ns' numbered_append)
  moreover have "distinct (remdups_adj (types_of (entities ns')))"
  proof (cases "entity_type ?p = ty")
    case True
    with g e show ?thesis by (simp add: ns ns' grouped_repeat)
  next
    case False
    with new have "ys = []" "ty \<notin> set (types_of (entities ns))" by auto
    with g e False show ?thesis
      using grouped_snoc [of "types_of (entities ns)" ty] by (simp add: ns ns')
  qed
  moreover have c: "\<forall>f \<in> set (entities ns). entity_container_id f = entity_container_id (hd (entities ns))"
    using assms(3) unfolding chain_ok_def by blast
  moreover have cid: "entity_container_id e = entity_container_id (hd (entities ns))"
  proof -
    have "entity_container_id ?p = entity_container_id (hd (entities ns))" using c by (simp add: ns)
    with e show ?thesis by simp
  qed
  moreover have "hd (entities ns') = hd (entities ns)" by (cases xs) (simp_all add: ns ns')
  moreover have "set (entities ns') = insert e (set (entities ns))" by (auto simp: ns ns')
  ultimately have "chain_ok (entities ns')" by (simp only: chain_ok_def) blast
  with cid show ?thesis
    using that [of "xs @ [prev]" ys] ns ns' e by simp
qed

section \<open>The tree\<close>

definition own_chain :: "entity_node list \<Rightarrow> pldm_entity list list" where
  "own_chain ns = (if ns = [] then [] else [entities ns])"

lemma own_chain_Nil [simp]: "own_chain [] = []"
  by (simp add: own_chain_def)

text \<open>The chains below the nodes of a chain, and the identities of all nodes.\<close>

fun child_chains :: "entity_node list \<Rightarrow> pldm_entity list list" where
  "child_chains [] = []"
| "child_chains (Node i e k cs # ns) = own_chain cs @ child_chains cs @ child_chains ns"

fun ids :: "entity_node list \<Rightarrow> nat list" where
  "ids [] = []"
| "ids (Node i e k cs # ns) = i # ids cs @ ids ns"

lemma chains_append: "child_chains (xs @ ys) = child_chains xs @ child_chains ys"
  by (induction xs rule: child_chains.induct) auto

lemma ids_append: "ids (xs @ ys) = ids xs @ ids ys"
  by (induction xs rule: ids.induct) auto

lemma find_node_ids: "find_node p ns = Some n \<Longrightarrow> p \<in> set (ids ns)"
  by (induction p ns arbitrary: n rule: find_node.induct) (auto split: if_splits option.splits)

lemma find_node_None: "p \<notin> set (ids ns) \<Longrightarrow> find_node p ns = None"
  using find_node_ids by fastforce

lemma find_node_chain: "find_node p ns = Some n \<Longrightarrow> children n \<noteq> [] \<Longrightarrow> entities (children n) \<in> set (child_chains ns)"
  by (induction p ns arbitrary: n rule: find_node.induct)
     (auto simp: own_chain_def split: if_splits option.splits)

lemma set_children_other: "p \<notin> set (ids ns) \<Longrightarrow> set_children p new ns = ns"
  by (induction p new ns rule: set_children.induct) auto

lemma set_children_entities [simp]: "entities (set_children p new ns) = entities ns"
  by (induction p new ns rule: set_children.induct) auto

lemma set_children_eq_Nil [simp]: "set_children p new ns = [] \<longleftrightarrow> ns = []"
  by (cases ns) (auto elim: set_children.elims)

lemma own_chain_set_children [simp]: "own_chain (set_children p new ns) = own_chain ns"
  by (simp add: own_chain_def)

lemma set_children_chains:
  assumes "find_node p ns = Some n" "distinct (ids ns)"
  shows "mset (child_chains (set_children p new ns)) + mset (own_chain (children n)) + mset (child_chains (children n))
      = mset (child_chains ns) + mset (own_chain new) + mset (child_chains new)
    \<and> mset (ids (set_children p new ns)) + mset (ids (children n)) = mset (ids ns) + mset (ids new)"
  using assms
proof (induction p ns arbitrary: n rule: find_node.induct)
  case (2 p i e k cs ns)
  show ?case
  proof (cases "i = p")
    case True
    with "2.prems" have "p \<notin> set (ids cs)" "p \<notin> set (ids ns)" "n = Node i e k cs" by auto
    with True show ?thesis by (simp add: set_children_other)
  next
    case False
    show ?thesis
    proof (cases "find_node p ns")
      case (Some m)
      with False "2.prems" have "m = n" "p \<notin> set (ids cs)" using find_node_ids [OF Some] by auto
      with "2.IH"(1) [OF False, of n] Some "2.prems" False show ?thesis
        by (simp add: set_children_other ac_simps)
    next
      case None
      with False "2.prems" have cs: "find_node p cs = Some n" by simp
      then have "p \<notin> set (ids ns)" using find_node_ids [OF cs] "2.prems" by auto
      with "2.IH"(2) [OF False None, of n] cs "2.prems" False show ?thesis
        by (simp add: set_children_other ac_simps)
    qed
  qed
qed simp

text \<open>Every chain is in order and has its own container id; that of the root is 0.\<close>

abbreviation cid :: "pldm_entity list \<Rightarrow> u16" where
  "cid es \<equiv> entity_container_id (hd es)"

definition tree_inv :: "entity_tree \<Rightarrow> bool" where
  "tree_inv tree \<longleftrightarrow> distinct (ids (root tree)) \<and> (\<forall>i \<in> set (ids (root tree)). i < next_node tree)
     \<and> (root tree \<noteq> [] \<longrightarrow> chain_ok (entities (root tree)) \<and> cid (entities (root tree)) = 0)
     \<and> (\<forall>es \<in> set (child_chains (root tree)). es \<noteq> [] \<and> chain_ok es \<and> 0 < cid es \<and> cid es \<le> last_used_container_id tree)
     \<and> distinct (map cid (child_chains (root tree)))"

lemma chain_ok_single [simp]: "entity_instance_num e = 1 \<Longrightarrow> chain_ok [e]"
  by (simp add: chain_ok_def)

text \<open>The chains after a change of one chain.\<close>

lemma chains_extended:
  assumes "mset css' = add_mset es (mset css)" "chain_ok es" "es \<noteq> []" "0 < cid es"
    "\<forall>fs \<in> set css. fs \<noteq> [] \<and> chain_ok fs \<and> 0 < cid fs \<and> cid fs < cid es" "distinct (map cid css)"
  shows "(\<forall>fs \<in> set css'. fs \<noteq> [] \<and> chain_ok fs \<and> 0 < cid fs \<and> cid fs \<le> cid es) \<and> distinct (map cid css')"
proof -
  have "set css' = insert es (set css)"
    using assms(1) by (metis set_mset_add_mset_insert set_mset_mset)
  moreover have "mset (map cid css') = mset (map cid (es # css))" using assms(1) by simp
  then have "distinct (map cid css') = distinct (map cid (es # css))" by (rule mset_eq_imp_distinct_iff)
  ultimately show ?thesis using assms(2-6) by force
qed

lemma chains_replaced:
  assumes "add_mset es (mset css') = add_mset es' (mset css)" "chain_ok es'" "es' \<noteq> []" "cid es' = cid es"
    "es \<in> set css" "\<forall>fs \<in> set css. fs \<noteq> [] \<and> chain_ok fs \<and> 0 < cid fs \<and> cid fs \<le> l" "distinct (map cid css)"
  shows "(\<forall>fs \<in> set css'. fs \<noteq> [] \<and> chain_ok fs \<and> 0 < cid fs \<and> cid fs \<le> l) \<and> distinct (map cid css')"
proof -
  have "set css' \<subseteq> insert es' (set css)"
    using assms(1) by (metis set_mset_add_mset_insert set_mset_mset subset_insertI)
  then have a: "\<forall>fs \<in> set css'. fs \<noteq> [] \<and> chain_ok fs \<and> 0 < cid fs \<and> cid fs \<le> l"
    using assms(2-6) by (metis insert_iff subsetD)
  have "image_mset cid (add_mset es (mset css')) = image_mset cid (add_mset es' (mset css))"
    by (simp only: assms(1))
  then have "mset (map cid css') = mset (map cid css)" using assms(4) by simp
  then have "distinct (map cid css') = distinct (map cid css)" by (rule mset_eq_imp_distinct_iff)
  with a assms(7) show ?thesis by blast
qed

lemma ids_extended: "mset js' = add_mset n (mset js) \<Longrightarrow> distinct js \<Longrightarrow> \<forall>i \<in> set js. i < n \<Longrightarrow>
    distinct js' \<and> (\<forall>i \<in> set js'. i < Suc n)"
proof -
  assume m: "mset js' = add_mset n (mset js)" and js: "distinct js" "\<forall>i \<in> set js. i < n"
  from m have "set js' = insert n (set js)" by (metis set_mset_add_mset_insert set_mset_mset)
  moreover from m have "mset js' = mset (n # js)" by simp
  then have "distinct js' = distinct (n # js)" by (rule mset_eq_imp_distinct_iff)
  ultimately show ?thesis using js by force
qed

lemma u16_Suc: "w \<noteq> 0xFFFF \<Longrightarrow> unat (w + 1 :: u16) = Suc (unat w)"
proof -
  assume w: "w \<noteq> 0xFFFF"
  have "1 + w \<noteq> 0"
  proof
    assume "1 + w = 0"
    then have "w = - 1" by (simp add: eq_neg_iff_add_eq_0 add.commute)
    with w show False by simp
  qed
  from unatSuc [OF this] show ?thesis by (simp add: add.commute)
qed

lemma tree_add_inv:
  assumes inv: "tree_inv tree"
    and add: "pldm_entity_association_tree_add tree ty parent k = Some (i, e, tree')"
  shows "tree_inv tree'"
proof (cases "root tree = []")
  case True
  with add show ?thesis
    by (auto simp: pldm_entity_association_tree_add_def Let_def tree_inv_def split: if_splits)
next
  case nonempty: False
  have i: "i = next_node tree"
    using add by (auto simp: pldm_entity_association_tree_add_def Let_def bind_eq_Some_conv
        split: if_splits option.splits)
  have ids: "distinct (ids (root tree))" "\<forall>j \<in> set (ids (root tree)). j < i"
    and top: "chain_ok (entities (root tree))" "cid (entities (root tree)) = 0"
    and ch: "\<forall>es \<in> set (child_chains (root tree)). es \<noteq> [] \<and> chain_ok es \<and> 0 < cid es \<and> cid es \<le> last_used_container_id tree"
      "distinct (map cid (child_chains (root tree)))"
    using inv nonempty unfolding tree_inv_def i by blast+
  show ?thesis
  proof (cases parent)
    case None
    with add nonempty obtain ns' where ins: "insert_sibling i ty k (root tree) = Some (e, ns')"
      and tree': "tree' = tree\<lparr>root := ns', next_node := Suc i\<rparr>"
      by (auto simp: pldm_entity_association_tree_add_def Let_def bind_eq_Some_conv split: if_splits)
    from insert_sibling_chain [OF ins nonempty top(1)] obtain xs ys where
      r: "root tree = xs @ ys" "xs \<noteq> []" "ns' = xs @ Node i e k [] # ys" "chain_ok (entities ns')" .
    have "cid (entities ns') = 0" using top(2) r(1-3) by (cases xs) simp_all
    moreover have "child_chains ns' = child_chains (root tree)" by (simp add: r chains_append)
    moreover have "distinct (ids ns') \<and> (\<forall>j \<in> set (ids ns'). j < Suc i)"
      by (rule ids_extended [OF _ ids]) (simp add: r ids_append)
    ultimately show ?thesis
      using ch r(4) by (simp add: tree_inv_def tree')
  next
    case (Some p)
    with add nonempty obtain node where n: "find_node p (root tree) = Some node"
      by (auto simp: pldm_entity_association_tree_add_def Let_def bind_eq_Some_conv split: if_splits)
    note sc = set_children_chains [OF n ids(1)]
    show ?thesis
    proof (cases "children node = []")
      case True
      let ?c = "last_used_container_id tree + 1"
      from True Some n add nonempty have l: "last_used_container_id tree \<noteq> 0xFFFF"
        and e: "e = \<lparr> entity_type = ty, entity_instance_num = 1, entity_container_id = ?c \<rparr>"
        and tree': "tree' = tree\<lparr>last_used_container_id := ?c, root := set_children p [Node i e k []] (root tree),
            next_node := Suc i\<rparr>"
        by (auto simp: pldm_entity_association_tree_add_def Let_def bind_eq_Some_conv
            next_container_id_def split: if_splits)
      have less: "last_used_container_id tree < ?c"
        by (simp add: word_less_nat_alt u16_Suc [OF l])
      have m: "mset (child_chains (root tree')) = add_mset [e] (mset (child_chains (root tree)))"
        using sc [of "[Node i e k []]"] True by (simp add: tree' own_chain_def)
      have "(\<forall>fs \<in> set (child_chains (root tree')). fs \<noteq> [] \<and> chain_ok fs \<and> 0 < cid fs \<and> cid fs \<le> cid [e])
          \<and> distinct (map cid (child_chains (root tree')))"
        by (rule chains_extended [OF m])
          (use ch less in \<open>auto simp: e chain_ok_single intro: le_less_trans [OF _ less] le_less_trans [OF word_zero_le]\<close>)
      moreover have "distinct (ids (root tree')) \<and> (\<forall>j \<in> set (ids (root tree')). j < Suc i)"
        by (rule ids_extended [OF _ ids]) (use sc [of "[Node i e k []]"] True in \<open>simp add: tree'\<close>)
      ultimately show ?thesis
        using top nonempty by (simp add: tree_inv_def e) (simp add: tree')
    next
      case False
      with Some n add nonempty obtain ns' where ins: "insert_sibling i ty k (children node) = Some (e, ns')"
        and tree': "tree' = tree\<lparr>root := set_children p ns' (root tree), next_node := Suc i\<rparr>"
        by (auto simp: pldm_entity_association_tree_add_def Let_def bind_eq_Some_conv split: if_splits)
      have mem: "entities (children node) \<in> set (child_chains (root tree))"
        by (rule find_node_chain [OF n False])
      then have "chain_ok (entities (children node))" using ch(1) by blast
      from insert_sibling_chain [OF ins False this] obtain xs ys where
        r: "children node = xs @ ys" "xs \<noteq> []" "ns' = xs @ Node i e k [] # ys" "chain_ok (entities ns')" .
      have c: "cid (entities ns') = cid (entities (children node))" using r(1-3) by (cases xs) simp_all
      have "mset (child_chains ns') = mset (child_chains (children node))" by (simp add: r chains_append)
      then have m: "add_mset (entities (children node)) (mset (child_chains (root tree')))
          = add_mset (entities ns') (mset (child_chains (root tree)))"
        using sc [of ns'] False r(3) by (simp add: tree' own_chain_def)
      have "(\<forall>fs \<in> set (child_chains (root tree')). fs \<noteq> [] \<and> chain_ok fs \<and> 0 < cid fs \<and> cid fs \<le> last_used_container_id tree)
          \<and> distinct (map cid (child_chains (root tree')))"
        by (rule chains_replaced [OF m r(4) _ c mem ch]) (simp add: r)
      moreover have "mset (ids ns') = add_mset i (mset (ids (children node)))" by (simp add: r ids_append)
      then have "distinct (ids (root tree')) \<and> (\<forall>j \<in> set (ids (root tree')). j < Suc i)"
        by (intro ids_extended [OF _ ids]) (use sc [of ns'] in \<open>simp add: tree'\<close>)
      ultimately show ?thesis
        using top nonempty by (simp add: tree_inv_def tree')
    qed
  qed
qed

text \<open>A tree along the additions of nodes.\<close>

definition tree_step :: "entity_tree option \<Rightarrow> u16 \<times> nat option \<times> byte \<Rightarrow> entity_tree option" where
  "tree_step s a = Option.bind s (\<lambda>tree. case a of (ty, parent, k) \<Rightarrow>
     map_option (\<lambda>(i, e, tree). tree) (pldm_entity_association_tree_add tree ty parent k))"

interpretation trees: machine "Some pldm_entity_association_tree_init" tree_step "\<lambda>_ _. True"
  "\<lambda>s. \<forall>tree. s = Some tree \<longrightarrow> tree_inv tree"
proof
  show "\<forall>tree. Some pldm_entity_association_tree_init = Some tree \<longrightarrow> tree_inv tree"
    by (simp add: tree_inv_def pldm_entity_association_tree_init_def)
  fix s a assume "\<forall>tree. s = Some tree \<longrightarrow> tree_inv tree"
  then show "\<forall>tree. tree_step s a = Some tree \<longrightarrow> tree_inv tree"
    by (cases a) (auto simp: tree_step_def bind_eq_Some_conv intro: tree_add_inv)
qed

section \<open>The visit of a tree\<close>

lemma length_visit: "length (entity_association_tree_visit ns) = get_num_nodes ns"
  by (induction ns rule: get_num_nodes.induct) auto

lemma visit_chains:
  "mset (entity_association_tree_visit ns) = mset (entities ns) + mset (concat (child_chains ns))"
  by (induction ns rule: entity_association_tree_visit.induct) (auto simp: own_chain_def)

abbreviation tree_chains :: "entity_tree \<Rightarrow> pldm_entity list list" where
  "tree_chains tree \<equiv> own_chain (root tree) @ child_chains (root tree)"

lemma tree_chains_ok:
  assumes "tree_inv tree"
  shows "distinct (map cid (tree_chains tree))" "\<forall>es \<in> set (tree_chains tree). es \<noteq> [] \<and> chain_ok es"
  using assms by (auto simp: tree_inv_def own_chain_def)

lemma visit_tree: "mset (entity_association_tree_visit (root tree)) = mset (concat (tree_chains tree))"
  by (simp add: visit_chains own_chain_def)

lemma chain_cid: "chain_ok es \<Longrightarrow> e \<in> set es \<Longrightarrow> entity_container_id e = cid es"
  unfolding chain_ok_def by blast

lemma distinct_chains:
  "distinct (map cid css) \<Longrightarrow> \<forall>es \<in> set css. es \<noteq> [] \<and> chain_ok es \<Longrightarrow> distinct (concat css)"
proof (induction css)
  case (Cons es css)
  have "set es \<inter> set (concat css) = {}"
  proof (rule ccontr)
    assume "set es \<inter> set (concat css) \<noteq> {}"
    then obtain e fs where e: "e \<in> set es" "fs \<in> set css" "e \<in> set fs" by auto
    have "chain_ok es" "chain_ok fs" using Cons.prems(2) e(2) by auto
    with e have "cid es = cid fs" using chain_cid by metis
    with Cons.prems(1) e(2) show False by auto
  qed
  moreover have "distinct es"
    using Cons.prems(2) numbered_distinct [of "[]" es] by (simp add: chain_ok_def)
  ultimately show ?case using Cons by simp
qed simp

lemma chain_no_gap:
  assumes "chain_ok es" "e \<in> set es" "0 < j" "j \<le> unat (entity_instance_num e)"
  shows "\<exists>f \<in> set es. entity_type f = entity_type e \<and> entity_container_id f = entity_container_id e
    \<and> unat (entity_instance_num f) = j"
proof -
  have n: "numbered [] es" using assms(1) by (simp add: chain_ok_def)
  from numbered_no_gap [OF this assms(3)] numbered_at_most [OF n assms(2)] assms(4)
  obtain f where f: "f \<in> set es" "entity_type f = entity_type e" "unat (entity_instance_num f) = j"
    using le_trans by blast
  with chain_cid [OF assms(1)] assms(2) show ?thesis by metis
qed

text \<open>
  C28: However nodes are added to an entity association tree, no two of its entities have the same
  type, instance number and container id, and the instance numbers of a type in a container are
  1, 2, ... without a gap. The visit returns as many entities as it counted.
\<close>

theorem entities_are_identified_uniquely:
  assumes "run tree_step (Some pldm_entity_association_tree_init) as = Some tree"
  shows "distinct (snd (pldm_entity_association_tree_visit tree))
    \<and> fst (pldm_entity_association_tree_visit tree) = length (snd (pldm_entity_association_tree_visit tree))
    \<and> (\<forall>e \<in> set (snd (pldm_entity_association_tree_visit tree)). \<forall>j.
         0 < j \<and> j \<le> unat (entity_instance_num e) \<longrightarrow>
         (\<exists>f \<in> set (snd (pldm_entity_association_tree_visit tree)). entity_type f = entity_type e
            \<and> entity_container_id f = entity_container_id e \<and> unat (entity_instance_num f) = j))"
proof -
  from trees.inv_run [of as] assms have inv: "tree_inv tree" by simp
  note ok = tree_chains_ok [OF inv]
  let ?v = "entity_association_tree_visit (root tree)"
  have v: "set ?v = set (concat (tree_chains tree))" using visit_tree by (metis set_mset_mset)
  have "distinct ?v = distinct (concat (tree_chains tree))"
    using visit_tree by (rule mset_eq_imp_distinct_iff)
  then have d: "distinct ?v" using distinct_chains [OF ok] by simp
  have "\<exists>f \<in> set ?v. entity_type f = entity_type e \<and> entity_container_id f = entity_container_id e
      \<and> unat (entity_instance_num f) = j"
    if e: "e \<in> set ?v" and j: "0 < j" "j \<le> unat (entity_instance_num e)" for e j
  proof -
    from e v obtain es where es: "es \<in> set (tree_chains tree)" "e \<in> set es" by auto
    then have "chain_ok es" using ok(2) by blast
    from chain_no_gap [OF this es(2) j] es(1) v show ?thesis by auto
  qed
  with d show ?thesis by (simp add: pldm_entity_association_tree_visit_def length_visit)
qed

definition sample_nodes :: "(u16 \<times> nat option \<times> byte) list" where
  "sample_nodes = [(45, None, 0), (64, Some 0, 0), (67, Some 0, 1), (64, Some 0, 0), (135, Some 1, 0)]"

lemma sample_tree:
  "run tree_step (Some pldm_entity_association_tree_init) sample_nodes = Some \<lparr>
     root = [Node 0 \<lparr> entity_type = 45, entity_instance_num = 1, entity_container_id = 0 \<rparr> 0
       [Node 1 \<lparr> entity_type = 64, entity_instance_num = 1, entity_container_id = 1 \<rparr> 0
          [Node 4 \<lparr> entity_type = 135, entity_instance_num = 1, entity_container_id = 2 \<rparr> 0 []],
        Node 3 \<lparr> entity_type = 64, entity_instance_num = 2, entity_container_id = 1 \<rparr> 0 [],
        Node 2 \<lparr> entity_type = 67, entity_instance_num = 1, entity_container_id = 1 \<rparr> 1 []]],
     last_used_container_id = 2, next_node = 5 \<rparr>"
  by code_simp

lemma entities_are_identified_uniquely_witness:
  "\<exists>tree. run tree_step (Some pldm_entity_association_tree_init) sample_nodes = Some tree
     \<and> fst (pldm_entity_association_tree_visit tree) = 5
     \<and> distinct (snd (pldm_entity_association_tree_visit tree))"
  using entities_are_identified_uniquely [OF sample_tree] sample_tree
  by (auto simp: pldm_entity_association_tree_visit_def)

section \<open>Association records\<close>

lemma entity_at_enc:
  "entity_at (xs @ enc_entity e @ ys) (length xs) = e"
  by (simp add: entity_at_def enc_entity_def read16_skip) (simp add: read_enc)

lemma nth_append_at: "(xs @ x # ys) ! length xs = x"
  by simp

text \<open>The entities of a record with a given handle.\<close>

lemma extract_association:
  assumes num: "pldm_entity_get_num_children n k = Some num" "num \<noteq> 0"
    and data: "d = pdr_hdr h 1 PLDM_PDR_ENTITY_ASSOCIATION 0
        (word_of_nat (association_pdr_size (unat num)) - word_of_nat sizeof_pdr_hdr)
      @ enc16 c @ [k] @ enc_entity (node_entity n) @ [num]
      @ concat (map (\<lambda>c. enc_entity (node_entity c)) (filter (\<lambda>c. association_type c = k) (children n)))"
  shows "pldm_entity_association_pdr_extract d
    = Some (node_entity n # entities (filter (\<lambda>c. association_type c = k) (children n)))"
proof -
  define cs where "cs = filter (\<lambda>c. association_type c = k) (children n)"
  define l :: u16 where "l = word_of_nat (association_pdr_size (unat num)) - word_of_nat sizeof_pdr_hdr"
  have u: "unat num = length cs" using num_children(1) [OF num(1)] by (simp add: cs_def)
  have pos: "0 < length cs" using num(2) u by (metis unat_gt_0)
  have small: "length cs < 255" using num_children(2) [OF num(1)] u by simp
  define body where "body = concat (map (\<lambda>c. enc_entity (node_entity c)) cs)"
  define pre where "pre = pdr_hdr h 1 PLDM_PDR_ENTITY_ASSOCIATION 0 l @ enc16 c @ [k]"
  have d: "d = pre @ enc_entity (node_entity n) @ num # body"
    by (simp add: data pre_def body_def cs_def l_def)
  have pre: "length pre = 13" "pre ! 5 = PLDM_PDR_ENTITY_ASSOCIATION" "read16 pre 8 = l"
    by (simp_all add: pre_def pdr_hdr_def nth_append enc32_def enc16_def read16_def le16_split)
  have len: "length body = 6 * length cs" by (simp add: body_def length_entities)
  have e0: "entity_at d 13 = node_entity n"
    using entity_at_enc [of pre] pre(1) by (simp add: d)
  have d19: "d ! 19 = num"
  proof -
    have "d = (pre @ enc_entity (node_entity n)) @ num # body" by (simp add: d)
    then show ?thesis using nth_append_at [of "pre @ enc_entity (node_entity n)" num body] pre(1) by simp
  qed
  have d5: "d ! 5 = PLDM_PDR_ENTITY_ASSOCIATION" using pre by (simp add: d nth_append)
  have l8: "unat (read16 d 8) = 10 + 6 * length cs"
  proof -
    have "read16 d 8 = l" using pre by (simp add: d read16_def nth_append)
    moreover have "l = word_of_nat (10 + 6 * length cs)"
      by (simp add: l_def u association_pdr_size_def sizeof_pdr_hdr_def sizeof_entity_def)
    ultimately show ?thesis using small by (simp del: of_nat_add of_nat_mult)
  qed
  have child: "entity_at d (20 + 6 * i) = node_entity (cs ! i)" if i: "i < length cs" for i
  proof -
    have split: "cs = take i cs @ cs ! i # drop (Suc i) cs" using i by (rule id_take_nth_drop)
    let ?xs = "pre @ enc_entity (node_entity n) @ num # concat (map (\<lambda>c. enc_entity (node_entity c)) (take i cs))"
    have "body = concat (map (\<lambda>c. enc_entity (node_entity c)) (take i cs))
        @ enc_entity (node_entity (cs ! i)) @ concat (map (\<lambda>c. enc_entity (node_entity c)) (drop (Suc i) cs))"
      unfolding body_def by (subst split) simp
    then have "d = ?xs @ enc_entity (node_entity (cs ! i)) @ concat (map (\<lambda>c. enc_entity (node_entity c)) (drop (Suc i) cs))"
      by (simp add: d)
    moreover have "length ?xs = 20 + 6 * i" using pre(1) i by (simp add: length_entities)
    ultimately show ?thesis using entity_at_enc [of ?xs] by metis
  qed
  have "map (\<lambda>i. entity_at d (20 + sizeof_entity * i)) [0..<length cs] = entities cs"
    by (rule nth_equalityI) (simp_all add: child sizeof_entity_def)
  moreover have "length d = 20 + 6 * length cs" using len pre(1) by (simp add: d)
  moreover have "6 + 6 * (length cs - Suc 0) = 6 * length cs" using pos by (cases cs) simp_all
  ultimately show ?thesis
    using pos e0 d19 d5 l8 u
    by (simp add: pldm_entity_association_pdr_extract_def Let_def sizeof_pdr_hdr_def
        sizeof_entity_association_def sizeof_entity_def cs_def [symmetric])
qed

lemma header_handle: "enc32 h @ drop 4 (pdr_hdr 0 v ty c l @ bs) = pdr_hdr h v ty c l @ bs"
  by (simp add: pdr_hdr_def enc32_def)

lemma add_association_record:
  assumes num: "pldm_entity_get_num_children n k = Some num" "num \<noteq> 0"
    and add: "add_association_entry n repo num k remote = Some repo'"
  shows "map (pldm_entity_association_pdr_extract \<circ> rec_data) (records repo')
    = map (pldm_entity_association_pdr_extract \<circ> rec_data) (records repo)
      @ [Some (node_entity n # entities (filter (\<lambda>c. association_type c = k) (children n)))]"
proof -
  note len = length_association_pdr [OF num(1)]
  define sz :: u16 where "sz = word_of_nat (association_pdr_size (unat num))"
  have u: "unat (ucast sz :: u32) = association_pdr_size (unat num)"
    using len(2) by (simp add: sz_def unsigned_ucast_eq unsigned_of_nat take_bit_nat_eq_self)
  from add obtain h where
    a: "pldm_pdr_add repo (association_pdr n sz num k) (ucast sz) 0 remote = Some (h, repo')"
    by (auto simp: add_association_entry_def Let_def sz_def)
  from pdr_add_cases [OF a] u len(1) obtain r where r: "repo' = add_record repo r"
    "rec_data r = enc32 h @ drop 4 (association_pdr n sz num k)"
    by auto
  have "pldm_entity_association_pdr_extract (rec_data r)
      = Some (node_entity n # entities (filter (\<lambda>c. association_type c = k) (children n)))"
    by (intro extract_association [OF num]) (simp only: association_pdr_def header_handle sz_def r(2))
  then show ?thesis by (simp add: r(1) add_record_def)
qed

text \<open>What the association records of a tree say: the container and its contained entities, those
  of the logical association first.\<close>

definition node_associations :: "entity_node \<Rightarrow> pldm_entity list list" where
  "node_associations n = map (\<lambda>cs. node_entity n # entities cs)
     (filter (\<lambda>cs. cs \<noteq> []) (map (\<lambda>k. filter (\<lambda>c. association_type c = k) (children n))
        [PLDM_ENTITY_ASSOCIAION_LOGICAL, PLDM_ENTITY_ASSOCIAION_PHYSICAL]))"

fun associations :: "entity_node list \<Rightarrow> pldm_entity list list" where
  "associations [] = []"
| "associations (Node i e k cs # ns) =
     node_associations (Node i e k cs) @ associations ns @ associations cs"

abbreviation extracted :: "pdr_repo \<Rightarrow> pldm_entity list option list" where
  "extracted repo \<equiv> map (pldm_entity_association_pdr_extract \<circ> rec_data) (records repo)"

lemma num_zero: "pldm_entity_get_num_children n k = Some num \<Longrightarrow>
    num = 0 \<longleftrightarrow> filter (\<lambda>c. association_type c = k) (children n) = []"
  using num_children(1) [of n k num] by (metis length_0_conv unat_eq_0)

lemma entry_extracted:
  assumes "entity_association_pdr_add_entry n repo remote = Some repo'"
  shows "extracted repo' = extracted repo @ map Some (node_associations n)"
proof -
  let ?L = "PLDM_ENTITY_ASSOCIAION_LOGICAL" and ?P = "PLDM_ENTITY_ASSOCIAION_PHYSICAL"
  from assms obtain l p repo1 where l: "pldm_entity_get_num_children n ?L = Some l"
    and p: "pldm_entity_get_num_children n ?P = Some p"
    and r1: "(if l \<noteq> 0 then add_association_entry n repo l ?L remote else Some repo) = Some repo1"
    and r2: "(if p \<noteq> 0 then add_association_entry n repo1 p ?P remote else Some repo1) = Some repo'"
    by (auto simp: entity_association_pdr_add_entry_def bind_eq_Some_conv)
  have step: "extracted r' = extracted r @ map Some (map (\<lambda>cs. node_entity n # entities cs)
      (filter (\<lambda>cs. cs \<noteq> []) [filter (\<lambda>c. association_type c = k) (children n)]))"
    if "pldm_entity_get_num_children n k = Some num"
      "(if num \<noteq> 0 then add_association_entry n r num k remote else Some r) = Some r'" for k num r r'
    using that add_association_record [OF that(1)] num_zero [OF that(1)]
    by (cases "num = 0") simp_all
  show ?thesis
    using step [OF p r2] step [OF l r1] by (simp add: node_associations_def)
qed

lemma associations_extracted:
  "entity_association_pdr_add ns remote repo = Some repo' \<Longrightarrow>
     extracted repo' = extracted repo @ map Some (associations ns)"
proof (induction ns remote repo arbitrary: repo' rule: entity_association_pdr_add.induct)
  case (2 i e k cs ns remote repo)
  from "2.prems" obtain r1 r2 where
    r: "entity_association_pdr_add_entry (Node i e k cs) repo remote = Some r1"
    "entity_association_pdr_add ns remote r1 = Some r2" "entity_association_pdr_add cs remote r2 = Some repo'"
    by (auto simp: bind_eq_Some_conv)
  from "2.IH"(2) [OF r(1,2,3)] "2.IH"(1) [OF r(1,2)] entry_extracted [OF r(1)] show ?case
    by (simp only: associations.simps map_append append_assoc)
qed simp

text \<open>
  C29: Extracting the entities of the association records that are added for a tree gives back, in
  the order of its visit, every node that contains others followed by the nodes it contains
  logically, then by those it contains physically.
\<close>

theorem association_records_roundtrip:
  assumes "pldm_entity_association_pdr_add tree repo remote = Some repo'"
  shows "map (pldm_entity_association_pdr_extract \<circ> rec_data) (records repo')
    = map (pldm_entity_association_pdr_extract \<circ> rec_data) (records repo) @ map Some (associations (root tree))"
  using assms by (simp only: pldm_entity_association_pdr_add_def associations_extracted)

definition tree_of_sample :: entity_tree where
  "tree_of_sample = the (run tree_step (Some pldm_entity_association_tree_init) sample_nodes)"

lemma association_records_roundtrip_witness:
  "\<exists>repo. pldm_entity_association_pdr_add tree_of_sample pldm_pdr_init False = Some repo
     \<and> length (records repo) = 3
     \<and> map (pldm_entity_association_pdr_extract \<circ> rec_data) (records repo)
       = map Some (associations (root tree_of_sample))"
proof -
  have t: "tree_of_sample = the (run tree_step (Some pldm_entity_association_tree_init) sample_nodes)"
    by (simp add: tree_of_sample_def)
  have "pldm_entity_association_pdr_add tree_of_sample pldm_pdr_init False \<noteq> None"
    unfolding t sample_tree option.sel by code_simp
  then obtain repo where r: "pldm_entity_association_pdr_add tree_of_sample pldm_pdr_init False = Some repo"
    by auto
  have "length (associations (root tree_of_sample)) = 3"
    unfolding t sample_tree option.sel by code_simp
  with association_records_roundtrip [OF r] r show ?thesis
    by (intro exI [of _ repo]) (auto simp: pldm_pdr_init_def dest: arg_cong [where f = length])
qed

text \<open>The three assertions of the extraction hold for this buffer of 26 bytes, whose header announces
  two contained entities (22 bytes), and still the second one is read past the end of the buffer.\<close>

lemma extraction_reads_past_the_buffer:
  defines "pdr \<equiv> pdr_hdr 1 1 PLDM_PDR_ENTITY_ASSOCIATION 0 22 @ [0, 0, 0, 0, 0, 0, 0, 0, 0, 2, 0, 0, 0, 0, 0, 0]"
  shows "sizeof_pdr_hdr + sizeof_entity_association \<le> length pdr" "pdr ! 5 = PLDM_PDR_ENTITY_ASSOCIATION"
    "sizeof_pdr_hdr + sizeof_entity_association + sizeof_entity * (unat (pdr ! 19) + 1 - 2)
       = sizeof_pdr_hdr + unat (read16 pdr 8)"
    "pldm_entity_association_pdr_extract pdr = None"
  unfolding pdr_def by code_simp+

end
