(* ===== verification/Pdr_Parse.thy ===== *)
theory Pdr_Parse
  imports Pdr_Repo
begin

text \<open>
  The parsers of numeric sensor and numeric effecter records (libpldm\_intel/pdr.c, from
  \<open>numeric\_sensor\_pdr\_sensor\_data\_size\_parse\<close> on).

  The input is the list of its bytes. A read past it is \<open>None\<close>, as is a failed assertion; the
  result \<open>Some None\<close> is the return value \<open>false\<close>. The output structure is a value; it is read by
  the callers only after \<open>true\<close>. On the little-endian host the conversions of integers leave them
  as they are. The conversion of a \<open>real32\_t\<close> field is \<open>x = le32toh(x)\<close>, which passes the number
  (not its bits) through a \<open>uint32\_t\<close>: the fraction is cut off, and for a negative number, a
  number of at least \<open>2 ^ 32\<close> or a NaN the conversion is undefined.
\<close>

section \<open>Single precision numbers\<close>

type_synonym real32 = u32

definition f32_negative :: "real32 \<Rightarrow> bool" where
  "f32_negative x = bit x 31"

definition f32_exponent :: "real32 \<Rightarrow> nat" where
  "f32_exponent x = unat (drop_bit 23 x) mod 256"

definition f32_significand :: "real32 \<Rightarrow> nat" where
  "f32_significand x = unat x mod 2 ^ 23 + (if f32_exponent x = 0 then 0 else 2 ^ 23)"

text \<open>The integral part of the absolute value of a finite number.\<close>

definition f32_integral :: "real32 \<Rightarrow> nat" where
  "f32_integral x = (let e = f32_exponent x in
     if 150 \<le> e then f32_significand x * 2 ^ (e - 150) else f32_significand x div 2 ^ (150 - e))"

fun bit_length :: "nat \<Rightarrow> nat" where
  "bit_length n = (if n = 0 then 0 else Suc (bit_length (n div 2)))"

declare bit_length.simps [simp del]

text \<open>The number \<open>n < 2 ^ 32\<close> when it has at most 24 significant bits.\<close>

definition f32_of_nat :: "nat \<Rightarrow> real32" where
  "f32_of_nat n = (if n = 0 then 0
     else let k = bit_length n - 1;
              m = (if k \<le> 23 then n * 2 ^ (23 - k) else n div 2 ^ (k - 23))
          in word_of_nat ((127 + k) * 2 ^ 23 + (m - 2 ^ 23)))"

text \<open>\<open>None\<close> is an undefined conversion.\<close>

definition LE32TOH_real :: "real32 \<Rightarrow> real32 option" where
  "LE32TOH_real x =
     (if f32_exponent x = 255 then None
      else if f32_integral x = 0 then Some 0
      else if f32_negative x \<or> 2 ^ 32 \<le> f32_integral x then None
      else Some (f32_of_nat (f32_integral x)))"

section \<open>Values and reads\<close>

text \<open>The member of a union that was written.\<close>

datatype pdr_value =
    Value_u8 byte
  | Value_s8 byte
  | Value_u16 u16
  | Value_s16 u16
  | Value_u32 u32
  | Value_s32 u32
  | Value_f32 "real32 option"

definition PLDM_DATA_SIZE_UINT8 :: byte where "PLDM_DATA_SIZE_UINT8 = 0"
definition PLDM_DATA_SIZE_SINT8 :: byte where "PLDM_DATA_SIZE_SINT8 = 1"
definition PLDM_DATA_SIZE_UINT16 :: byte where "PLDM_DATA_SIZE_UINT16 = 2"
definition PLDM_DATA_SIZE_SINT16 :: byte where "PLDM_DATA_SIZE_SINT16 = 3"
definition PLDM_DATA_SIZE_UINT32 :: byte where "PLDM_DATA_SIZE_UINT32 = 4"
definition PLDM_DATA_SIZE_SINT32 :: byte where "PLDM_DATA_SIZE_SINT32 = 5"
definition PLDM_RANGE_FIELD_FORMAT_REAL32 :: byte where "PLDM_RANGE_FIELD_FORMAT_REAL32 = 6"

lemmas data_sizes = PLDM_DATA_SIZE_UINT8_def PLDM_DATA_SIZE_SINT8_def PLDM_DATA_SIZE_UINT16_def
  PLDM_DATA_SIZE_SINT16_def PLDM_DATA_SIZE_UINT32_def PLDM_DATA_SIZE_SINT32_def
  PLDM_RANGE_FIELD_FORMAT_REAL32_def

text \<open>Copies from the position \<open>i\<close>, with the position after them.\<close>

definition copy8 :: "byte list \<Rightarrow> nat \<Rightarrow> (byte \<times> nat) option" where
  "copy8 pdr i = (if i + 1 \<le> length pdr then Some (pdr ! i, i + 1) else None)"

definition copy16 :: "byte list \<Rightarrow> nat \<Rightarrow> (u16 \<times> nat) option" where
  "copy16 pdr i = (if i + 2 \<le> length pdr then Some (read16 pdr i, i + 2) else None)"

definition copy32 :: "byte list \<Rightarrow> nat \<Rightarrow> (u32 \<times> nat) option" where
  "copy32 pdr i = (if i + 4 \<le> length pdr then Some (read32 pdr i, i + 4) else None)"

definition copy_value :: "byte \<Rightarrow> byte list \<Rightarrow> nat \<Rightarrow> (pdr_value \<times> nat) option" where
  "copy_value size_tag pdr i =
     (if size_tag = PLDM_DATA_SIZE_UINT8 then map_option (apfst Value_u8) (copy8 pdr i)
      else if size_tag = PLDM_DATA_SIZE_SINT8 then map_option (apfst Value_s8) (copy8 pdr i)
      else if size_tag = PLDM_DATA_SIZE_UINT16 then map_option (apfst Value_u16) (copy16 pdr i)
      else if size_tag = PLDM_DATA_SIZE_SINT16 then map_option (apfst Value_s16) (copy16 pdr i)
      else if size_tag = PLDM_DATA_SIZE_UINT32 then map_option (apfst Value_u32) (copy32 pdr i)
      else if size_tag = PLDM_DATA_SIZE_SINT32 then map_option (apfst Value_s32) (copy32 pdr i)
      else map_option (apfst (\<lambda>x. Value_f32 (LE32TOH_real x))) (copy32 pdr i))"

fun copy_values :: "nat \<Rightarrow> byte \<Rightarrow> byte list \<Rightarrow> nat \<Rightarrow> (pdr_value list \<times> nat) option" where
  "copy_values 0 size_tag pdr i = Some ([], i)"
| "copy_values (Suc n) size_tag pdr i = do {
     (v, i) \<leftarrow> copy_value size_tag pdr i;
     (vs, i) \<leftarrow> copy_values n size_tag pdr i;
     Some (v # vs, i) }"

section \<open>Numeric sensor records\<close>

definition PLDM_NUMERIC_SENSOR_PDR :: byte where "PLDM_NUMERIC_SENSOR_PDR = 2"
definition PLDM_NUMERIC_EFFECTER_PDR :: byte where "PLDM_NUMERIC_EFFECTER_PDR = 9"
definition PLDM_NUMERIC_SENSOR_PDR_MIN_LENGTH :: nat where "PLDM_NUMERIC_SENSOR_PDR_MIN_LENGTH = 69"
definition PLDM_NUMERIC_EFFECTER_PDR_MIN_LENGTH :: nat where "PLDM_NUMERIC_EFFECTER_PDR_MIN_LENGTH = 63"

text \<open>The parts of the structures: the header, what is described and in which unit.\<close>

record pldm_pdr_hdr =
  hd_record_handle :: u32
  hd_version :: byte
  hd_type :: byte
  hd_record_change_num :: u16
  hd_length :: u16

record pdr_subject =
  ps_terminus_handle :: u16
  ps_id :: u16
  ps_entity_type :: u16
  ps_entity_instance :: u16
  ps_container_id :: u16

record pdr_unit =
  pu_base_unit :: byte
  pu_unit_modifier :: byte
  pu_rate_unit :: byte
  pu_base_oem_unit_handle :: byte
  pu_aux_unit :: byte
  pu_aux_unit_modifier :: byte
  pu_aux_rate_unit :: byte
  pu_aux_oem_unit_handle :: byte
  pu_is_linear :: byte
  pu_data_size :: byte
  pu_resolution :: "real32 option"
  pu_offset :: "real32 option"
  pu_accuracy :: u16
  pu_plus_tolerance :: byte
  pu_minus_tolerance :: byte

text \<open>\<open>ns\_range\<close>: nominal value, normal maximum and minimum, warning high and low, critical high
  and low, fatal high and low.\<close>

record numeric_sensor_pdr =
  ns_hdr :: pldm_pdr_hdr
  ns_subject :: pdr_subject
  ns_sensor_init :: byte
  ns_sensor_auxiliary_names_pdr :: byte
  ns_unit :: pdr_unit
  ns_rel :: byte
  ns_hysteresis :: pdr_value
  ns_supported_thresholds :: byte
  ns_threshold_and_hysteresis_volatility :: byte
  ns_state_transition_interval :: "real32 option"
  ns_update_interval :: "real32 option"
  ns_max_readable :: pdr_value
  ns_min_readable :: pdr_value
  ns_range_field_format :: byte
  ns_range_field_support :: byte
  ns_range :: "pdr_value list"

definition pdr_hdr_at :: "byte list \<Rightarrow> pldm_pdr_hdr" where
  "pdr_hdr_at pdr = \<lparr> hd_record_handle = read32 pdr 0, hd_version = pdr ! 4, hd_type = pdr ! 5,
     hd_record_change_num = read16 pdr 6, hd_length = read16 pdr 8 \<rparr>"

definition pdr_subject_at :: "byte list \<Rightarrow> pdr_subject" where
  "pdr_subject_at pdr = \<lparr> ps_terminus_handle = read16 pdr 10, ps_id = read16 pdr 12,
     ps_entity_type = read16 pdr 14, ps_entity_instance = read16 pdr 16, ps_container_id = read16 pdr 18 \<rparr>"

definition sensor_unit_at :: "byte list \<Rightarrow> pdr_unit" where
  "sensor_unit_at pdr = \<lparr> pu_base_unit = pdr ! 22, pu_unit_modifier = pdr ! 23, pu_rate_unit = pdr ! 24,
     pu_base_oem_unit_handle = pdr ! 25, pu_aux_unit = pdr ! 26, pu_aux_unit_modifier = pdr ! 27,
     pu_aux_rate_unit = pdr ! 28, pu_aux_oem_unit_handle = pdr ! 30,
     pu_is_linear = pdr ! 31, pu_data_size = pdr ! 32, pu_resolution = LE32TOH_real (read32 pdr 33),
     pu_offset = LE32TOH_real (read32 pdr 37), pu_accuracy = read16 pdr 41,
     pu_plus_tolerance = pdr ! 43, pu_minus_tolerance = pdr ! 44 \<rparr>"

text \<open>Hysteresis, the ten bytes after it, the maximum and the minimum. The two intervals of a
  sensor with values of one byte are not converted.\<close>

definition numeric_sensor_pdr_sensor_data_size_parse
    :: "byte \<Rightarrow> byte list \<Rightarrow> nat
      \<Rightarrow> ((pdr_value \<times> byte \<times> byte \<times> real32 option \<times> real32 option \<times> pdr_value \<times> pdr_value) \<times> nat) option option" where
  "numeric_sensor_pdr_sensor_data_size_parse size_tag pdr i =
     (if size_tag > PLDM_DATA_SIZE_SINT32 then Some None
      else do {
        (hysteresis, i) \<leftarrow> copy_value size_tag pdr i;
        (thresholds, i) \<leftarrow> copy8 pdr i;
        (volatility, i) \<leftarrow> copy8 pdr i;
        (transition, i) \<leftarrow> copy32 pdr i;
        (update, i) \<leftarrow> copy32 pdr i;
        (maxr, i) \<leftarrow> copy_value size_tag pdr i;
        (minr, i) \<leftarrow> copy_value size_tag pdr i;
        let conv = (if size_tag \<le> PLDM_DATA_SIZE_SINT8 then Some else LE32TOH_real);
        Some (Some ((hysteresis, thresholds, volatility, conv transition, conv update, maxr, minr), i)) })"

definition numeric_sensor_pdr_range_field_format_parse
    :: "byte \<Rightarrow> byte list \<Rightarrow> nat \<Rightarrow> (pdr_value list \<times> nat) option option" where
  "numeric_sensor_pdr_range_field_format_parse format pdr i =
     (if format > PLDM_RANGE_FIELD_FORMAT_REAL32 then Some None
      else map_option Some (copy_values 9 format pdr i))"

text \<open>The extra bytes of a format, per field.\<close>

definition validate_numeric_sensor_pdr_len :: "byte list \<Rightarrow> bool option" where
  "validate_numeric_sensor_pdr_len pdr = do {
     (size_tag, _) \<leftarrow> copy8 pdr 32;
     (if size_tag > PLDM_DATA_SIZE_SINT32 then Some False
      else
        let extra = (if size_tag \<le> PLDM_DATA_SIZE_SINT8 then 0 else if size_tag \<le> PLDM_DATA_SIZE_SINT16 then 3 else 9);
            min_pdr_size = PLDM_NUMERIC_SENSOR_PDR_MIN_LENGTH + extra
        in if length pdr < min_pdr_size then Some False
           else do {
             (format, _) \<leftarrow> copy8 pdr (45 + 13 + extra);
             Some (if format > PLDM_RANGE_FIELD_FORMAT_REAL32 then False
                   else \<not> length pdr < min_pdr_size
                     + (if format \<le> PLDM_DATA_SIZE_SINT8 then 0 else if format \<le> PLDM_DATA_SIZE_SINT16 then 9 else 27)) }) }"

definition pldm_numeric_sensor_pdr_parse :: "byte list \<Rightarrow> numeric_sensor_pdr option option" where
  "pldm_numeric_sensor_pdr_parse pdr =
     (if length pdr < PLDM_NUMERIC_SENSOR_PDR_MIN_LENGTH then Some None
      else if pdr ! 5 \<noteq> PLDM_NUMERIC_SENSOR_PDR then None
      else do {
        valid \<leftarrow> validate_numeric_sensor_pdr_len pdr;
        if \<not> valid then Some None
        else do {
          sized \<leftarrow> numeric_sensor_pdr_sensor_data_size_parse (pdr ! 32) pdr 45;
          case sized of
            None \<Rightarrow> Some None
          | Some ((hysteresis, thresholds, volatility, transition, update, maxr, minr), i) \<Rightarrow> do {
              (format, i) \<leftarrow> copy8 pdr i;
              (support, i) \<leftarrow> copy8 pdr i;
              ranges \<leftarrow> numeric_sensor_pdr_range_field_format_parse format pdr i;
              Some (case ranges of None \<Rightarrow> None
                | Some (rng, i) \<Rightarrow> Some \<lparr> ns_hdr = pdr_hdr_at pdr, ns_subject = pdr_subject_at pdr,
                    ns_sensor_init = pdr ! 20, ns_sensor_auxiliary_names_pdr = pdr ! 21,
                    ns_unit = sensor_unit_at pdr, ns_rel = pdr ! 29, ns_hysteresis = hysteresis,
                    ns_supported_thresholds = thresholds, ns_threshold_and_hysteresis_volatility = volatility,
                    ns_state_transition_interval = transition, ns_update_interval = update,
                    ns_max_readable = maxr, ns_min_readable = minr, ns_range_field_format = format,
                    ns_range_field_support = support, ns_range = rng \<rparr>) } } })"

section \<open>Numeric effecter records\<close>

text \<open>\<open>ne\_range\<close>: nominal value, normal maximum and minimum, rated maximum and minimum.\<close>

record numeric_effecter_pdr =
  ne_hdr :: pldm_pdr_hdr
  ne_subject :: pdr_subject
  ne_effecter_semantic_id :: u16
  ne_effecter_init :: byte
  ne_effecter_auxiliary_names :: byte
  ne_unit :: pdr_unit
  ne_state_transition_interval :: "real32 option"
  ne_transition_interval :: "real32 option"
  ne_max_set_table :: pdr_value
  ne_min_set_table :: pdr_value
  ne_range_field_format :: byte
  ne_range_field_support :: byte
  ne_range :: "pdr_value list"

definition effecter_unit_at :: "byte list \<Rightarrow> pdr_unit" where
  "effecter_unit_at pdr = \<lparr> pu_base_unit = pdr ! 24, pu_unit_modifier = pdr ! 25, pu_rate_unit = pdr ! 26,
     pu_base_oem_unit_handle = pdr ! 27, pu_aux_unit = pdr ! 28, pu_aux_unit_modifier = pdr ! 29,
     pu_aux_rate_unit = pdr ! 30, pu_aux_oem_unit_handle = pdr ! 31, pu_is_linear = pdr ! 32,
     pu_data_size = pdr ! 33, pu_resolution = LE32TOH_real (read32 pdr 34),
     pu_offset = LE32TOH_real (read32 pdr 38), pu_accuracy = read16 pdr 42,
     pu_plus_tolerance = pdr ! 44, pu_minus_tolerance = pdr ! 45 \<rparr>"

definition validate_numeric_effecter_pdr_len :: "byte list \<Rightarrow> bool option" where
  "validate_numeric_effecter_pdr_len pdr = do {
     (size_tag, _) \<leftarrow> copy8 pdr 33;
     (if size_tag > PLDM_DATA_SIZE_SINT32 then Some False
      else
        let extra = (if size_tag \<le> PLDM_DATA_SIZE_SINT8 then 0 else if size_tag \<le> PLDM_DATA_SIZE_SINT16 then 2 else 6);
            min_pdr_size = PLDM_NUMERIC_EFFECTER_PDR_MIN_LENGTH + extra
        in if length pdr < min_pdr_size then Some False
           else do {
             (format, _) \<leftarrow> copy8 pdr (54 + 2 + extra);
             Some (if format > PLDM_RANGE_FIELD_FORMAT_REAL32 then False
                   else \<not> length pdr < min_pdr_size
                     + (if format \<le> PLDM_DATA_SIZE_SINT8 then 0 else if format \<le> PLDM_DATA_SIZE_SINT16 then 5 else 15)) }) }"

definition numeric_effecter_pdr_effecter_data_size_parse
    :: "byte \<Rightarrow> byte list \<Rightarrow> nat \<Rightarrow> ((pdr_value \<times> pdr_value) \<times> nat) option option" where
  "numeric_effecter_pdr_effecter_data_size_parse size_tag pdr i =
     (if size_tag > PLDM_DATA_SIZE_SINT32 then Some None
      else do {
        (maxs, i) \<leftarrow> copy_value size_tag pdr i;
        (mins, i) \<leftarrow> copy_value size_tag pdr i;
        Some (Some ((maxs, mins), i)) })"

definition numeric_effecter_pdr_range_field_format_parse
    :: "byte \<Rightarrow> byte list \<Rightarrow> nat \<Rightarrow> (pdr_value list \<times> nat) option option" where
  "numeric_effecter_pdr_range_field_format_parse format pdr i =
     (if format > PLDM_RANGE_FIELD_FORMAT_REAL32 then Some None
      else map_option Some (copy_values 5 format pdr i))"

definition pldm_numeric_effecter_pdr_parse :: "byte list \<Rightarrow> numeric_effecter_pdr option option" where
  "pldm_numeric_effecter_pdr_parse pdr =
     (if length pdr < PLDM_NUMERIC_EFFECTER_PDR_MIN_LENGTH then Some None
      else if pdr ! 5 \<noteq> PLDM_NUMERIC_EFFECTER_PDR then Some None
      else do {
        valid \<leftarrow> validate_numeric_effecter_pdr_len pdr;
        if \<not> valid then Some None
        else do {
          sized \<leftarrow> numeric_effecter_pdr_effecter_data_size_parse (pdr ! 33) pdr 54;
          case sized of
            None \<Rightarrow> Some None
          | Some ((maxs, mins), i) \<Rightarrow> do {
              (format, i) \<leftarrow> copy8 pdr i;
              (support, i) \<leftarrow> copy8 pdr i;
              ranges \<leftarrow> numeric_effecter_pdr_range_field_format_parse format pdr i;
              Some (case ranges of None \<Rightarrow> None
                | Some (rng, i) \<Rightarrow> Some \<lparr> ne_hdr = pdr_hdr_at pdr, ne_subject = pdr_subject_at pdr,
                    ne_effecter_semantic_id = read16 pdr 20, ne_effecter_init = pdr ! 22,
                    ne_effecter_auxiliary_names = pdr ! 23, ne_unit = effecter_unit_at pdr,
                    ne_state_transition_interval = LE32TOH_real (read32 pdr 46),
                    ne_transition_interval = LE32TOH_real (read32 pdr 50),
                    ne_max_set_table = maxs, ne_min_set_table = mins, ne_range_field_format = format,
                    ne_range_field_support = support, ne_range = rng \<rparr>) } } })"

end
