(* ===== verification/Pdr_Parse_Props.thy ===== *)
theory Pdr_Parse_Props
  imports Pdr_Parse
begin

text \<open>
  Properties of the parsers of numeric sensor and effecter records: no read leaves the record, the
  values have the type that the record announces, parsing inverts the encoding of a record, and what
  the conversion of real numbers does to them.
\<close>

section \<open>Types and sizes of values\<close>

definition value_size :: "byte \<Rightarrow> nat" where
  "value_size tag = (if tag \<le> PLDM_DATA_SIZE_SINT8 then 1 else if tag \<le> PLDM_DATA_SIZE_SINT16 then 2 else 4)"

fun has_type :: "byte \<Rightarrow> pdr_value \<Rightarrow> bool" where
  "has_type tag (Value_u8 v) \<longleftrightarrow> tag = PLDM_DATA_SIZE_UINT8"
| "has_type tag (Value_s8 v) \<longleftrightarrow> tag = PLDM_DATA_SIZE_SINT8"
| "has_type tag (Value_u16 v) \<longleftrightarrow> tag = PLDM_DATA_SIZE_UINT16"
| "has_type tag (Value_s16 v) \<longleftrightarrow> tag = PLDM_DATA_SIZE_SINT16"
| "has_type tag (Value_u32 v) \<longleftrightarrow> tag = PLDM_DATA_SIZE_UINT32"
| "has_type tag (Value_s32 v) \<longleftrightarrow> tag = PLDM_DATA_SIZE_SINT32"
| "has_type tag (Value_f32 v) \<longleftrightarrow> tag = PLDM_RANGE_FIELD_FORMAT_REAL32"

lemma tag_cases:
  assumes "\<not> tag > PLDM_RANGE_FIELD_FORMAT_REAL32"
  obtains "tag = PLDM_DATA_SIZE_UINT8" | "tag = PLDM_DATA_SIZE_SINT8" | "tag = PLDM_DATA_SIZE_UINT16"
    | "tag = PLDM_DATA_SIZE_SINT16" | "tag = PLDM_DATA_SIZE_UINT32" | "tag = PLDM_DATA_SIZE_SINT32"
    | "tag = PLDM_RANGE_FIELD_FORMAT_REAL32"
proof -
  have "unat tag \<le> 6" using assms by (simp add: data_sizes word_less_nat_alt)
  then consider "unat tag = 0" | "unat tag = 1" | "unat tag = 2" | "unat tag = 3" | "unat tag = 4"
    | "unat tag = 5" | "unat tag = 6" by fastforce
  then show ?thesis
    using that by cases (simp_all add: data_sizes word_unat_eq_iff)
qed

lemma value_size_tags [simp]:
  "value_size PLDM_DATA_SIZE_UINT8 = 1" "value_size PLDM_DATA_SIZE_SINT8 = 1"
  "value_size PLDM_DATA_SIZE_UINT16 = 2" "value_size PLDM_DATA_SIZE_SINT16 = 2"
  "value_size PLDM_DATA_SIZE_UINT32 = 4" "value_size PLDM_DATA_SIZE_SINT32 = 4"
  "value_size PLDM_RANGE_FIELD_FORMAT_REAL32 = 4"
  by code_simp+

lemma copy_value_tags [simp]:
  "copy_value PLDM_DATA_SIZE_UINT8 pdr i = map_option (apfst Value_u8) (copy8 pdr i)"
  "copy_value PLDM_DATA_SIZE_SINT8 pdr i = map_option (apfst Value_s8) (copy8 pdr i)"
  "copy_value PLDM_DATA_SIZE_UINT16 pdr i = map_option (apfst Value_u16) (copy16 pdr i)"
  "copy_value PLDM_DATA_SIZE_SINT16 pdr i = map_option (apfst Value_s16) (copy16 pdr i)"
  "copy_value PLDM_DATA_SIZE_UINT32 pdr i = map_option (apfst Value_u32) (copy32 pdr i)"
  "copy_value PLDM_DATA_SIZE_SINT32 pdr i = map_option (apfst Value_s32) (copy32 pdr i)"
  "copy_value PLDM_RANGE_FIELD_FORMAT_REAL32 pdr i
     = map_option (apfst (\<lambda>x. Value_f32 (LE32TOH_real x))) (copy32 pdr i)"
  by (simp_all add: copy_value_def data_sizes)

lemma copy_value_ok:
  assumes "\<not> tag > PLDM_RANGE_FIELD_FORMAT_REAL32" "i + value_size tag \<le> length pdr"
  shows "\<exists>v. copy_value tag pdr i = Some (v, i + value_size tag) \<and> has_type tag v"
  using assms(2)
  by (cases rule: tag_cases [OF assms(1)]) (auto simp: copy8_def copy16_def copy32_def)

lemma copy_values_ok:
  "\<not> tag > PLDM_RANGE_FIELD_FORMAT_REAL32 \<Longrightarrow> i + n * value_size tag \<le> length pdr \<Longrightarrow>
     \<exists>vs. copy_values n tag pdr i = Some (vs, i + n * value_size tag)
        \<and> length vs = n \<and> (\<forall>v \<in> set vs. has_type tag v)"
proof (induction n arbitrary: i)
  case (Suc n)
  then have "i + value_size tag \<le> length pdr" by simp
  from copy_value_ok [OF Suc.prems(1) this] obtain v where
    v: "copy_value tag pdr i = Some (v, i + value_size tag)" "has_type tag v" by blast
  have "i + value_size tag + n * value_size tag \<le> length pdr" using Suc.prems(2) by simp
  from Suc.IH [OF Suc.prems(1) this] obtain vs where
    "copy_values n tag pdr (i + value_size tag) = Some (vs, i + value_size tag + n * value_size tag)"
    "length vs = n" "\<forall>v \<in> set vs. has_type tag v" by blast
  with v show ?case by (simp add: add.assoc)
qed simp

section \<open>The parsers\<close>

text \<open>The length that a record needs.\<close>

definition sensor_record_length :: "byte list \<Rightarrow> nat" where
  "sensor_record_length pdr =
     (let d = value_size (pdr ! 32) in 57 + 3 * d + 9 * value_size (pdr ! (55 + 3 * d)))"

definition effecter_record_length :: "byte list \<Rightarrow> nat" where
  "effecter_record_length pdr =
     (let d = value_size (pdr ! 33) in 56 + 2 * d + 5 * value_size (pdr ! (54 + 2 * d)))"

text \<open>The checks of the lengths, and what they mean.\<close>

lemma value_size_values: "value_size tag = 1 \<or> value_size tag = 2 \<or> value_size tag = 4"
  by (simp add: value_size_def)

lemma sint32_real32: "\<not> tag > PLDM_DATA_SIZE_SINT32 \<Longrightarrow> \<not> tag > PLDM_RANGE_FIELD_FORMAT_REAL32"
  by (simp add: data_sizes word_less_nat_alt)

lemma sensor_len:
  assumes "69 \<le> length pdr" "\<not> pdr ! 32 > PLDM_DATA_SIZE_SINT32" "value_size (pdr ! 32) = d"
  shows "\<exists>b. validate_numeric_sensor_pdr_len pdr = Some b
    \<and> (b \<longleftrightarrow> 66 + 3 * d \<le> length pdr \<and> \<not> pdr ! (55 + 3 * d) > PLDM_RANGE_FIELD_FORMAT_REAL32
        \<and> sensor_record_length pdr \<le> length pdr)"
proof -
  have d: "d = 1 \<or> d = 2 \<or> d = 4" using value_size_values [of "pdr ! 32"] assms(3) by simp
  have e: "(if pdr ! 32 \<le> PLDM_DATA_SIZE_SINT8 then 0 else if pdr ! 32 \<le> PLDM_DATA_SIZE_SINT16 then 3 else 9)
      = 3 * d - (3 :: nat)"
    by (simp add: assms(3) [symmetric] value_size_def)
  have l: "sensor_record_length pdr = 57 + 3 * d + 9 * value_size (pdr ! (55 + 3 * d))"
    by (simp add: sensor_record_length_def assms(3))
  have f: "(if f \<le> PLDM_DATA_SIZE_SINT8 then 0 else if f \<le> PLDM_DATA_SIZE_SINT16 then 9 else 27)
      = 9 * value_size f - (9 :: nat)" for f
    by (simp add: value_size_def)
  have "1 \<le> value_size f" for f by (simp add: value_size_def)
  note v = this [of "pdr ! (55 + 3 * d)"]
  show ?thesis
    using assms(1,2) d v
    by (elim disjE) (auto simp: validate_numeric_sensor_pdr_len_def copy8_def e f l
        PLDM_NUMERIC_SENSOR_PDR_MIN_LENGTH_def Let_def)
qed

lemma effecter_len:
  assumes "63 \<le> length pdr" "\<not> pdr ! 33 > PLDM_DATA_SIZE_SINT32" "value_size (pdr ! 33) = d"
  shows "\<exists>b. validate_numeric_effecter_pdr_len pdr = Some b
    \<and> (b \<longleftrightarrow> 61 + 2 * d \<le> length pdr \<and> \<not> pdr ! (54 + 2 * d) > PLDM_RANGE_FIELD_FORMAT_REAL32
        \<and> effecter_record_length pdr \<le> length pdr)"
proof -
  have d: "d = 1 \<or> d = 2 \<or> d = 4" using value_size_values [of "pdr ! 33"] assms(3) by simp
  have e: "(if pdr ! 33 \<le> PLDM_DATA_SIZE_SINT8 then 0 else if pdr ! 33 \<le> PLDM_DATA_SIZE_SINT16 then 2 else 6)
      = 2 * d - (2 :: nat)"
    by (simp add: assms(3) [symmetric] value_size_def)
  have l: "effecter_record_length pdr = 56 + 2 * d + 5 * value_size (pdr ! (54 + 2 * d))"
    by (simp add: effecter_record_length_def assms(3))
  have f: "(if f \<le> PLDM_DATA_SIZE_SINT8 then 0 else if f \<le> PLDM_DATA_SIZE_SINT16 then 5 else 15)
      = 5 * value_size f - (5 :: nat)" for f
    by (simp add: value_size_def)
  have "1 \<le> value_size f" for f by (simp add: value_size_def)
  note v = this [of "pdr ! (54 + 2 * d)"]
  show ?thesis
    using assms(1,2) d v
    by (elim disjE) (auto simp: validate_numeric_effecter_pdr_len_def copy8_def e f l
        PLDM_NUMERIC_EFFECTER_PDR_MIN_LENGTH_def Let_def)
qed

definition sensor_record_ok :: "byte list \<Rightarrow> bool" where
  "sensor_record_ok pdr \<longleftrightarrow> 69 \<le> length pdr \<and> \<not> pdr ! 32 > PLDM_DATA_SIZE_SINT32
     \<and> 66 + 3 * value_size (pdr ! 32) \<le> length pdr
     \<and> \<not> pdr ! (55 + 3 * value_size (pdr ! 32)) > PLDM_RANGE_FIELD_FORMAT_REAL32
     \<and> sensor_record_length pdr \<le> length pdr"

definition effecter_record_ok :: "byte list \<Rightarrow> bool" where
  "effecter_record_ok pdr \<longleftrightarrow> 63 \<le> length pdr \<and> \<not> pdr ! 33 > PLDM_DATA_SIZE_SINT32
     \<and> 61 + 2 * value_size (pdr ! 33) \<le> length pdr
     \<and> \<not> pdr ! (54 + 2 * value_size (pdr ! 33)) > PLDM_RANGE_FIELD_FORMAT_REAL32
     \<and> effecter_record_length pdr \<le> length pdr"

text \<open>The values have the types that the record announces.\<close>

definition typed_sensor :: "numeric_sensor_pdr \<Rightarrow> bool" where
  "typed_sensor s \<longleftrightarrow> (\<forall>v \<in> {ns_hysteresis s, ns_max_readable s, ns_min_readable s}.
       has_type (pu_data_size (ns_unit s)) v)
     \<and> pu_data_size (ns_unit s) \<le> PLDM_DATA_SIZE_SINT32
     \<and> length (ns_range s) = 9 \<and> (\<forall>v \<in> set (ns_range s). has_type (ns_range_field_format s) v)"

definition typed_effecter :: "numeric_effecter_pdr \<Rightarrow> bool" where
  "typed_effecter e \<longleftrightarrow> (\<forall>v \<in> {ne_max_set_table e, ne_min_set_table e}. has_type (pu_data_size (ne_unit e)) v)
     \<and> pu_data_size (ne_unit e) \<le> PLDM_DATA_SIZE_SINT32
     \<and> length (ne_range e) = 5 \<and> (\<forall>v \<in> set (ne_range e). has_type (ne_range_field_format e) v)"

lemma sensor_parsed:
  assumes "sensor_record_ok pdr" "pdr ! 5 = PLDM_NUMERIC_SENSOR_PDR"
  shows "\<exists>s. pldm_numeric_sensor_pdr_parse pdr = Some (Some s) \<and> typed_sensor s
    \<and> ns_hdr s = pdr_hdr_at pdr \<and> ns_subject s = pdr_subject_at pdr \<and> ns_unit s = sensor_unit_at pdr"
proof -
  let ?t = "pdr ! 32"
  define d where "d = value_size ?t"
  define f where "f = pdr ! (55 + 3 * d)"
  have t: "\<not> ?t > PLDM_DATA_SIZE_SINT32" and len: "69 \<le> length pdr" "66 + 3 * d \<le> length pdr"
    and f: "\<not> f > PLDM_RANGE_FIELD_FORMAT_REAL32" and l: "57 + 3 * d + 9 * value_size f \<le> length pdr"
    using assms(1) by (auto simp: sensor_record_ok_def sensor_record_length_def Let_def d_def f_def)
  note t' = sint32_real32 [OF t]
  from sensor_len [OF len(1) t d_def [symmetric]] len(2) f l
  have v: "validate_numeric_sensor_pdr_len pdr = Some True"
    by (auto simp: f_def sensor_record_length_def Let_def d_def)
  from copy_value_ok [OF t', of 45 pdr] len(2) obtain h where
    h: "copy_value ?t pdr 45 = Some (h, 45 + d)" "has_type ?t h" by (auto simp: d_def)
  from copy_value_ok [OF t', of "55 + d" pdr] len(2) obtain a where
    a: "copy_value ?t pdr (55 + d) = Some (a, 55 + d + d)" "has_type ?t a" by (auto simp: d_def)
  from copy_value_ok [OF t', of "55 + d + d" pdr] len(2) obtain b where
    b: "copy_value ?t pdr (55 + d + d) = Some (b, 55 + d + d + d)" "has_type ?t b" by (auto simp: d_def)
  have i: "55 + d + d + d = 55 + 3 * d" by simp
  from copy_values_ok [OF f, of "57 + 3 * d" 9 pdr] l obtain vs where
    vs: "copy_values 9 f pdr (57 + 3 * d) = Some (vs, 57 + 3 * d + 9 * value_size f)"
      "length vs = 9" "\<forall>v \<in> set vs. has_type f v" by auto
  have c: "copy8 pdr (45 + d) = Some (pdr ! (45 + d), 46 + d)" "copy8 pdr (46 + d) = Some (pdr ! (46 + d), 47 + d)"
    "copy32 pdr (47 + d) = Some (read32 pdr (47 + d), 51 + d)" "copy32 pdr (51 + d) = Some (read32 pdr (51 + d), 55 + d)"
    "copy8 pdr (3 * d + 55) = Some (f, 56 + 3 * d)" "copy8 pdr (56 + 3 * d) = Some (pdr ! (56 + 3 * d), 57 + 3 * d)"
    using len(2) by (auto simp: copy8_def copy32_def f_def add.commute)
  show ?thesis
    using assms(2) len(1) t f v h a b vs c
    by (simp add: pldm_numeric_sensor_pdr_parse_def numeric_sensor_pdr_sensor_data_size_parse_def i
        numeric_sensor_pdr_range_field_format_parse_def PLDM_NUMERIC_SENSOR_PDR_MIN_LENGTH_def
        typed_sensor_def sensor_unit_at_def not_less)
qed

lemma sensor_rejected:
  assumes "\<not> sensor_record_ok pdr" "69 \<le> length pdr \<longrightarrow> pdr ! 5 = PLDM_NUMERIC_SENSOR_PDR"
  shows "pldm_numeric_sensor_pdr_parse pdr = Some None"
proof (cases "69 \<le> length pdr \<and> \<not> pdr ! 32 > PLDM_DATA_SIZE_SINT32")
  case True
  with sensor_len [of pdr, OF _ _ refl] assms(1)
  have "validate_numeric_sensor_pdr_len pdr = Some False"
    by (auto simp: sensor_record_ok_def)
  with True assms(2) show ?thesis by (simp add: pldm_numeric_sensor_pdr_parse_def)
next
  case False
  then show ?thesis
    using assms(2)
    by (auto simp: pldm_numeric_sensor_pdr_parse_def validate_numeric_sensor_pdr_len_def copy8_def
        PLDM_NUMERIC_SENSOR_PDR_MIN_LENGTH_def)
qed

lemma effecter_parsed:
  assumes "effecter_record_ok pdr" "pdr ! 5 = PLDM_NUMERIC_EFFECTER_PDR"
  shows "\<exists>e. pldm_numeric_effecter_pdr_parse pdr = Some (Some e) \<and> typed_effecter e
    \<and> ne_hdr e = pdr_hdr_at pdr \<and> ne_subject e = pdr_subject_at pdr \<and> ne_unit e = effecter_unit_at pdr"
proof -
  let ?t = "pdr ! 33"
  define d where "d = value_size ?t"
  define f where "f = pdr ! (54 + 2 * d)"
  have t: "\<not> ?t > PLDM_DATA_SIZE_SINT32" and len: "63 \<le> length pdr" "61 + 2 * d \<le> length pdr"
    and f: "\<not> f > PLDM_RANGE_FIELD_FORMAT_REAL32" and l: "56 + 2 * d + 5 * value_size f \<le> length pdr"
    using assms(1) by (auto simp: effecter_record_ok_def effecter_record_length_def Let_def d_def f_def)
  note t' = sint32_real32 [OF t]
  from effecter_len [OF len(1) t d_def [symmetric]] len(2) f l
  have v: "validate_numeric_effecter_pdr_len pdr = Some True"
    by (auto simp: f_def effecter_record_length_def Let_def d_def)
  from copy_value_ok [OF t', of 54 pdr] len(2) obtain a where
    a: "copy_value ?t pdr 54 = Some (a, 54 + d)" "has_type ?t a" by (auto simp: d_def)
  from copy_value_ok [OF t', of "54 + d" pdr] len(2) obtain b where
    b: "copy_value ?t pdr (54 + d) = Some (b, 54 + d + d)" "has_type ?t b" by (auto simp: d_def)
  from copy_values_ok [OF f, of "56 + 2 * d" 5 pdr] l obtain vs where
    vs: "copy_values 5 f pdr (56 + 2 * d) = Some (vs, 56 + 2 * d + 5 * value_size f)"
      "length vs = 5" "\<forall>v \<in> set vs. has_type f v" by auto
  have c: "copy8 pdr (2 * d + 54) = Some (f, 55 + 2 * d)" "copy8 pdr (55 + 2 * d) = Some (pdr ! (55 + 2 * d), 56 + 2 * d)"
    using len(2) by (auto simp: copy8_def f_def add.commute)
  show ?thesis
    using assms(2) len(1) t f v a b vs c
    by (simp add: pldm_numeric_effecter_pdr_parse_def numeric_effecter_pdr_effecter_data_size_parse_def
        numeric_effecter_pdr_range_field_format_parse_def PLDM_NUMERIC_EFFECTER_PDR_MIN_LENGTH_def
        typed_effecter_def effecter_unit_at_def not_less)
qed

lemma effecter_rejected:
  assumes "\<not> effecter_record_ok pdr \<or> pdr ! 5 \<noteq> PLDM_NUMERIC_EFFECTER_PDR"
  shows "pldm_numeric_effecter_pdr_parse pdr = Some None"
proof (cases "63 \<le> length pdr \<and> \<not> pdr ! 33 > PLDM_DATA_SIZE_SINT32 \<and> pdr ! 5 = PLDM_NUMERIC_EFFECTER_PDR")
  case True
  with effecter_len [of pdr, OF _ _ refl] assms
  have "validate_numeric_effecter_pdr_len pdr = Some False"
    by (auto simp: effecter_record_ok_def)
  with True show ?thesis by (simp add: pldm_numeric_effecter_pdr_parse_def)
next
  case False
  show ?thesis
  proof (cases "63 \<le> length pdr")
    case True
    then have "validate_numeric_effecter_pdr_len pdr = Some False" if "pdr ! 33 > PLDM_DATA_SIZE_SINT32"
      using that by (simp add: validate_numeric_effecter_pdr_len_def copy8_def)
    with True False show ?thesis
      by (cases "pdr ! 5 = PLDM_NUMERIC_EFFECTER_PDR") (simp_all add: pldm_numeric_effecter_pdr_parse_def
          PLDM_NUMERIC_EFFECTER_PDR_MIN_LENGTH_def)
  qed (simp add: pldm_numeric_effecter_pdr_parse_def PLDM_NUMERIC_EFFECTER_PDR_MIN_LENGTH_def)
qed

section \<open>Properties\<close>

text \<open>
  C30: Whatever bytes a numeric effecter record consists of, the parser reads none past its end. For
  a numeric sensor record the same holds, except that the process aborts when it is of another type.
  A record is accepted exactly when it has the length that its own formats need.
\<close>

theorem records_are_read_within_bounds:
  "pldm_numeric_effecter_pdr_parse pdr \<noteq> None
   \<and> (pldm_numeric_sensor_pdr_parse pdr = None \<longleftrightarrow> 69 \<le> length pdr \<and> pdr ! 5 \<noteq> PLDM_NUMERIC_SENSOR_PDR)
   \<and> ((\<exists>e. pldm_numeric_effecter_pdr_parse pdr = Some (Some e))
       \<longleftrightarrow> effecter_record_ok pdr \<and> pdr ! 5 = PLDM_NUMERIC_EFFECTER_PDR)
   \<and> ((\<exists>s. pldm_numeric_sensor_pdr_parse pdr = Some (Some s))
       \<longleftrightarrow> sensor_record_ok pdr \<and> pdr ! 5 = PLDM_NUMERIC_SENSOR_PDR)"
proof -
  have abort: "pldm_numeric_sensor_pdr_parse pdr = None"
    if "69 \<le> length pdr" "pdr ! 5 \<noteq> PLDM_NUMERIC_SENSOR_PDR"
    using that by (simp add: pldm_numeric_sensor_pdr_parse_def PLDM_NUMERIC_SENSOR_PDR_MIN_LENGTH_def)
  have long: "sensor_record_ok pdr \<Longrightarrow> 69 \<le> length pdr" by (simp add: sensor_record_ok_def)
  have "pldm_numeric_effecter_pdr_parse pdr \<noteq> None \<and> ((\<exists>e. pldm_numeric_effecter_pdr_parse pdr = Some (Some e))
       \<longleftrightarrow> effecter_record_ok pdr \<and> pdr ! 5 = PLDM_NUMERIC_EFFECTER_PDR)"
  proof (cases "effecter_record_ok pdr \<and> pdr ! 5 = PLDM_NUMERIC_EFFECTER_PDR")
    case True
    then obtain e where "pldm_numeric_effecter_pdr_parse pdr = Some (Some e)"
      using effecter_parsed [of pdr] by blast
    with True show ?thesis by simp
  next
    case False
    then have "pldm_numeric_effecter_pdr_parse pdr = Some None"
      by (intro effecter_rejected) blast
    with False show ?thesis by simp
  qed
  moreover have "(pldm_numeric_sensor_pdr_parse pdr = None \<longleftrightarrow> 69 \<le> length pdr \<and> pdr ! 5 \<noteq> PLDM_NUMERIC_SENSOR_PDR)
     \<and> ((\<exists>s. pldm_numeric_sensor_pdr_parse pdr = Some (Some s))
       \<longleftrightarrow> sensor_record_ok pdr \<and> pdr ! 5 = PLDM_NUMERIC_SENSOR_PDR)"
  proof (cases "69 \<le> length pdr \<and> pdr ! 5 \<noteq> PLDM_NUMERIC_SENSOR_PDR")
    case True
    with abort show ?thesis by simp
  next
    case False
    show ?thesis
    proof (cases "sensor_record_ok pdr")
      case True
      with long False have t: "pdr ! 5 = PLDM_NUMERIC_SENSOR_PDR" by blast
      with True obtain s where "pldm_numeric_sensor_pdr_parse pdr = Some (Some s)"
        using sensor_parsed [of pdr] by blast
      with True t show ?thesis by simp
    next
      case not_ok: False
      from False have "69 \<le> length pdr \<longrightarrow> pdr ! 5 = PLDM_NUMERIC_SENSOR_PDR" by blast
      with not_ok have "pldm_numeric_sensor_pdr_parse pdr = Some None" by (rule sensor_rejected)
      with not_ok False show ?thesis by simp
    qed
  qed
  ultimately show ?thesis by blast
qed

text \<open>
  C31: In every accepted record the values that follow the data size have the type it announces, and
  the nine (five for an effecter) range values have the type of the range field format, so that the
  union members that are read later are those that were written.
\<close>

theorem parsed_values_are_typed:
  "(pldm_numeric_sensor_pdr_parse pdr = Some (Some s) \<longrightarrow> typed_sensor s)
   \<and> (pldm_numeric_effecter_pdr_parse pdr = Some (Some e) \<longrightarrow> typed_effecter e)"
proof (intro conjI impI)
  assume p: "pldm_numeric_sensor_pdr_parse pdr = Some (Some s)"
  then have "sensor_record_ok pdr" "pdr ! 5 = PLDM_NUMERIC_SENSOR_PDR"
    using sensor_rejected [of pdr]
    by (auto simp: pldm_numeric_sensor_pdr_parse_def PLDM_NUMERIC_SENSOR_PDR_MIN_LENGTH_def split: if_splits)
  from sensor_parsed [OF this] p show "typed_sensor s" by auto
next
  assume p: "pldm_numeric_effecter_pdr_parse pdr = Some (Some e)"
  then have "effecter_record_ok pdr" "pdr ! 5 = PLDM_NUMERIC_EFFECTER_PDR"
    using effecter_rejected [of pdr] by auto
  from effecter_parsed [OF this] p show "typed_effecter e" by auto
qed

section \<open>Encoding\<close>

definition enc_real :: "real32 option \<Rightarrow> byte list" where
  "enc_real x = enc32 (case x of None \<Rightarrow> 0 | Some b \<Rightarrow> b)"

fun enc_value :: "pdr_value \<Rightarrow> byte list" where
  "enc_value (Value_u8 v) = [v]"
| "enc_value (Value_s8 v) = [v]"
| "enc_value (Value_u16 v) = enc16 v"
| "enc_value (Value_s16 v) = enc16 v"
| "enc_value (Value_u32 v) = enc32 v"
| "enc_value (Value_s32 v) = enc32 v"
| "enc_value (Value_f32 v) = enc_real v"

text \<open>A number that the conversion keeps.\<close>

definition whole :: "real32 option \<Rightarrow> bool" where
  "whole x \<longleftrightarrow> (case x of None \<Rightarrow> False | Some b \<Rightarrow> LE32TOH_real b = Some b)"

fun whole_value :: "pdr_value \<Rightarrow> bool" where
  "whole_value (Value_f32 v) = whole v"
| "whole_value v = True"

definition enc_hdr :: "pldm_pdr_hdr \<Rightarrow> byte list" where
  "enc_hdr h = pdr_hdr (hd_record_handle h) (hd_version h) (hd_type h) (hd_record_change_num h) (hd_length h)"

definition enc_subject :: "pdr_subject \<Rightarrow> byte list" where
  "enc_subject p = enc16 (ps_terminus_handle p) @ enc16 (ps_id p) @ enc16 (ps_entity_type p)
     @ enc16 (ps_entity_instance p) @ enc16 (ps_container_id p)"

definition enc_sensor_unit :: "pdr_unit \<Rightarrow> byte \<Rightarrow> byte list" where
  "enc_sensor_unit u rel = [pu_base_unit u, pu_unit_modifier u, pu_rate_unit u, pu_base_oem_unit_handle u,
     pu_aux_unit u, pu_aux_unit_modifier u, pu_aux_rate_unit u, rel, pu_aux_oem_unit_handle u,
     pu_is_linear u, pu_data_size u] @ enc_real (pu_resolution u) @ enc_real (pu_offset u)
     @ enc16 (pu_accuracy u) @ [pu_plus_tolerance u, pu_minus_tolerance u]"

definition enc_sensor :: "numeric_sensor_pdr \<Rightarrow> byte list" where
  "enc_sensor s = enc_hdr (ns_hdr s) @ enc_subject (ns_subject s)
     @ [ns_sensor_init s, ns_sensor_auxiliary_names_pdr s] @ enc_sensor_unit (ns_unit s) (ns_rel s)
     @ enc_value (ns_hysteresis s) @ [ns_supported_thresholds s, ns_threshold_and_hysteresis_volatility s]
     @ enc_real (ns_state_transition_interval s) @ enc_real (ns_update_interval s)
     @ enc_value (ns_max_readable s) @ enc_value (ns_min_readable s)
     @ [ns_range_field_format s, ns_range_field_support s] @ concat (map enc_value (ns_range s))"

definition whole_sensor :: "numeric_sensor_pdr \<Rightarrow> bool" where
  "whole_sensor s \<longleftrightarrow> whole (pu_resolution (ns_unit s)) \<and> whole (pu_offset (ns_unit s))
     \<and> whole (ns_state_transition_interval s) \<and> whole (ns_update_interval s)
     \<and> (\<forall>v \<in> set (ns_range s). whole_value v)"

lemma length_enc_real [simp]: "length (enc_real x) = 4"
  by (simp add: enc_real_def)

lemma copy8_at: "length xs = i \<Longrightarrow> copy8 (xs @ b # ys) i = Some (b, i + 1)"
  by (auto simp: copy8_def)

lemma copy16_at: "length xs = i \<Longrightarrow> copy16 (xs @ enc16 w @ ys) i = Some (w, i + 2)"
  by (auto simp: copy16_def read16_skip read_enc)

lemma copy32_at: "length xs = i \<Longrightarrow> copy32 (xs @ enc32 w @ ys) i = Some (w, i + 4)"
  by (auto simp: copy32_def read32_skip read_enc)

lemma copy_real_at: "whole x \<Longrightarrow> length xs = i \<Longrightarrow>
    \<exists>w. copy32 (xs @ enc_real x @ ys) i = Some (w, i + 4) \<and> LE32TOH_real w = x \<and> x = Some w"
  by (auto simp: whole_def enc_real_def copy32_at split: option.splits)

lemma copy_value_at:
  assumes "has_type tag v" "whole_value v" "length xs = i"
  shows "copy_value tag (xs @ enc_value v @ ys) i = Some (v, i + value_size tag)"
proof (cases v)
  case (Value_f32 x)
  with assms copy_real_at [of x xs i ys] show ?thesis by auto
qed (use assms in \<open>auto simp: copy8_at copy16_at copy32_at\<close>)

lemma length_enc_value: "has_type tag v \<Longrightarrow> length (enc_value v) = value_size tag"
  by (cases v) auto

lemma copy_values_at:
  "\<forall>v \<in> set vs. has_type tag v \<and> whole_value v \<Longrightarrow> length xs = i \<Longrightarrow>
     copy_values (length vs) tag (xs @ concat (map enc_value vs)) i = Some (vs, i + length vs * value_size tag)"
proof (induction vs arbitrary: xs i)
  case (Cons v vs)
  have v: "has_type tag v" "whole_value v" using Cons.prems by auto
  have "copy_values (length vs) tag ((xs @ enc_value v) @ concat (map enc_value vs)) (i + value_size tag)
      = Some (vs, i + value_size tag + length vs * value_size tag)"
    by (rule Cons.IH) (use Cons.prems length_enc_value [OF v(1)] in auto)
  with copy_value_at [OF v Cons.prems(2), of "concat (map enc_value vs)"] show ?case
    by (simp add: add.assoc)
qed simp

text \<open>The fixed part of 45 bytes.\<close>

lemma fixed_part:
  assumes "whole (pu_resolution (ns_unit s))" "whole (pu_offset (ns_unit s))"
  shows "\<exists>fixed. enc_sensor s = fixed @ enc_value (ns_hysteresis s)
       @ [ns_supported_thresholds s, ns_threshold_and_hysteresis_volatility s]
       @ enc_real (ns_state_transition_interval s) @ enc_real (ns_update_interval s)
       @ enc_value (ns_max_readable s) @ enc_value (ns_min_readable s)
       @ [ns_range_field_format s, ns_range_field_support s] @ concat (map enc_value (ns_range s))
     \<and> length fixed = 45 \<and> (\<forall>rest. pdr_hdr_at (fixed @ rest) = ns_hdr s
       \<and> pdr_subject_at (fixed @ rest) = ns_subject s \<and> sensor_unit_at (fixed @ rest) = ns_unit s
       \<and> (fixed @ rest) ! 20 = ns_sensor_init s \<and> (fixed @ rest) ! 21 = ns_sensor_auxiliary_names_pdr s
       \<and> (fixed @ rest) ! 29 = ns_rel s)"
proof -
  let ?fixed = "enc_hdr (ns_hdr s) @ enc_subject (ns_subject s)
     @ [ns_sensor_init s, ns_sensor_auxiliary_names_pdr s] @ enc_sensor_unit (ns_unit s) (ns_rel s)"
  have h: "length (enc_hdr h) = 10" for h by (simp add: enc_hdr_def pdr_hdr_def)
  have p: "length (enc_subject p) = 10" for p by (simp add: enc_subject_def)
  have "pdr_hdr_at (?fixed @ rest) = ns_hdr s" for rest
    by (simp add: pdr_hdr_at_def enc_hdr_def pdr_hdr_def nth_append read16_skip read_enc)
  moreover have "pdr_subject_at (?fixed @ rest) = ns_subject s" for rest
    by (simp add: pdr_subject_at_def enc_subject_def h read16_skip) (simp add: read_enc)
  moreover have "sensor_unit_at (?fixed @ rest) = ns_unit s" for rest
  proof -
    obtain r off where ro: "pu_resolution (ns_unit s) = Some r" "LE32TOH_real r = Some r"
      "pu_offset (ns_unit s) = Some off" "LE32TOH_real off = Some off"
      using assms by (auto simp: whole_def split: option.splits)
    show ?thesis
      by (simp add: sensor_unit_at_def enc_sensor_unit_def h p nth_append read16_skip read32_skip
          read16_Cons read32_Cons enc_real_def ro) (simp add: read_enc ro)
  qed
  ultimately show ?thesis
    by (intro exI [of _ ?fixed]) (simp add: enc_sensor_def h p enc_sensor_unit_def nth_append)
qed

lemma has_type_tag: "has_type tag v \<Longrightarrow> \<not> tag > PLDM_RANGE_FIELD_FORMAT_REAL32"
  by (cases v) (auto simp: data_sizes word_less_nat_alt)

lemma length_enc_values: "\<forall>v \<in> set vs. has_type tag v \<Longrightarrow>
    length (concat (map enc_value vs)) = length vs * value_size tag"
  by (induction vs) (auto simp: length_enc_value)

lemma has_type_sized: "has_type tag v \<Longrightarrow> tag \<le> PLDM_DATA_SIZE_SINT32 \<Longrightarrow> whole_value v"
  by (cases v) (auto simp: data_sizes word_le_nat_alt)

text \<open>
  C32: Parsing the encoding of a numeric sensor record gives the record back with every field, for
  every combination of data size and range field format, as far as its real numbers are whole and
  fit 32 bits.
\<close>

theorem sensor_record_roundtrip:
  assumes "typed_sensor s" "whole_sensor s" "hd_type (ns_hdr s) = PLDM_NUMERIC_SENSOR_PDR"
  shows "pldm_numeric_sensor_pdr_parse (enc_sensor s) = Some (Some s)"
proof -
  define d where "d = enc_sensor s"
  define t where "t = pu_data_size (ns_unit s)"
  define D where "D = value_size t"
  define f where "f = ns_range_field_format s"
  define F where "F = value_size f"
  note w = assms(2) [unfolded whole_sensor_def]
  from fixed_part w obtain fixed where d: "d = fixed @ enc_value (ns_hysteresis s)
       @ [ns_supported_thresholds s, ns_threshold_and_hysteresis_volatility s]
       @ enc_real (ns_state_transition_interval s) @ enc_real (ns_update_interval s)
       @ enc_value (ns_max_readable s) @ enc_value (ns_min_readable s)
       @ [f, ns_range_field_support s] @ concat (map enc_value (ns_range s))"
    and fx: "length fixed = 45" "\<And>rest. pdr_hdr_at (fixed @ rest) = ns_hdr s"
      "\<And>rest. pdr_subject_at (fixed @ rest) = ns_subject s" "\<And>rest. sensor_unit_at (fixed @ rest) = ns_unit s"
      "\<And>rest. (fixed @ rest) ! 20 = ns_sensor_init s" "\<And>rest. (fixed @ rest) ! 21 = ns_sensor_auxiliary_names_pdr s"
      "\<And>rest. (fixed @ rest) ! 29 = ns_rel s"
    unfolding d_def f_def by blast
  have ty: "has_type t (ns_hysteresis s)" "has_type t (ns_max_readable s)" "has_type t (ns_min_readable s)"
    "t \<le> PLDM_DATA_SIZE_SINT32" "length (ns_range s) = 9" "\<forall>v \<in> set (ns_range s). has_type f v"
    using assms(1) by (auto simp: typed_sensor_def t_def f_def)
  have wv: "whole_value (ns_hysteresis s)" "whole_value (ns_max_readable s)" "whole_value (ns_min_readable s)"
    using ty(1-4) has_type_sized by blast+
  have f6: "\<not> f > PLDM_RANGE_FIELD_FORMAT_REAL32"
    using ty(5,6) has_type_tag [of f "hd (ns_range s)"] by (cases "ns_range s") auto
  have len: "length (enc_value (ns_hysteresis s)) = D" "length (enc_value (ns_max_readable s)) = D"
    "length (enc_value (ns_min_readable s)) = D" "length (concat (map enc_value (ns_range s))) = 9 * F"
    using length_enc_value ty(1-3) length_enc_values [OF ty(6)] ty(5) by (auto simp: D_def F_def)
  have c1: "copy_value t d 45 = Some (ns_hysteresis s, 45 + D)"
    using copy_value_at [OF ty(1) wv(1) fx(1)] by (simp add: d D_def)
  have c2: "copy8 d (45 + D) = Some (ns_supported_thresholds s, 46 + D)"
    using copy8_at [of "fixed @ enc_value (ns_hysteresis s)" "45 + D"] by (simp add: d fx len)
  have c3: "copy8 d (46 + D) = Some (ns_threshold_and_hysteresis_volatility s, 47 + D)"
    using copy8_at [of "fixed @ enc_value (ns_hysteresis s) @ [ns_supported_thresholds s]" "46 + D"]
    by (simp add: d fx len)
  from copy_real_at [of "ns_state_transition_interval s" "fixed @ enc_value (ns_hysteresis s)
      @ [ns_supported_thresholds s, ns_threshold_and_hysteresis_volatility s]" "47 + D"] w
  obtain r1 where c4: "copy32 d (47 + D) = Some (r1, 51 + D)" "LE32TOH_real r1 = ns_state_transition_interval s"
    "ns_state_transition_interval s = Some r1"
    by (force simp: d fx len)
  from copy_real_at [of "ns_update_interval s" "fixed @ enc_value (ns_hysteresis s)
      @ [ns_supported_thresholds s, ns_threshold_and_hysteresis_volatility s]
      @ enc_real (ns_state_transition_interval s)" "51 + D"] w
  obtain r2 where c5: "copy32 d (51 + D) = Some (r2, 55 + D)" "LE32TOH_real r2 = ns_update_interval s"
    "ns_update_interval s = Some r2"
    by (force simp: d fx len)
  define pre where "pre = fixed @ enc_value (ns_hysteresis s)
      @ [ns_supported_thresholds s, ns_threshold_and_hysteresis_volatility s]
      @ enc_real (ns_state_transition_interval s) @ enc_real (ns_update_interval s)"
  have pre: "length pre = 55 + D" by (simp add: pre_def fx len)
  have d': "d = pre @ enc_value (ns_max_readable s) @ enc_value (ns_min_readable s)
       @ [f, ns_range_field_support s] @ concat (map enc_value (ns_range s))"
    by (simp add: d pre_def)
  have c6: "copy_value t d (55 + D) = Some (ns_max_readable s, 55 + 2 * D)"
    using copy_value_at [OF ty(2) wv(2) pre] by (simp add: d' D_def)
  have c7: "copy_value t d (55 + 2 * D) = Some (ns_min_readable s, 55 + 3 * D)"
    using copy_value_at [OF ty(3) wv(3), of "pre @ enc_value (ns_max_readable s)" "55 + 2 * D"]
    by (simp add: d' pre len D_def)
  have c8: "copy8 d (55 + 3 * D) = Some (f, 56 + 3 * D)"
    using copy8_at [of "pre @ enc_value (ns_max_readable s) @ enc_value (ns_min_readable s)" "55 + 3 * D"]
    by (simp add: d' pre len)
  have c9: "copy8 d (56 + 3 * D) = Some (ns_range_field_support s, 57 + 3 * D)"
    using copy8_at [of "pre @ enc_value (ns_max_readable s) @ enc_value (ns_min_readable s) @ [f]" "56 + 3 * D"]
    by (simp add: d' pre len)
  have c10: "copy_values 9 f d (57 + 3 * D) = Some (ns_range s, 57 + 3 * D + 9 * F)"
    using copy_values_at [of "ns_range s" f "pre @ enc_value (ns_max_readable s) @ enc_value (ns_min_readable s)
        @ [f, ns_range_field_support s]" "57 + 3 * D"] ty(5,6) w
    by (simp add: d' pre len F_def)
  have total: "length d = 57 + 3 * D + 9 * F" by (simp add: d' pre len)
  have head: "pdr_hdr_at d = ns_hdr s" "pdr_subject_at d = ns_subject s" "sensor_unit_at d = ns_unit s"
    "d ! 20 = ns_sensor_init s" "d ! 21 = ns_sensor_auxiliary_names_pdr s" "d ! 29 = ns_rel s"
    using fx by (simp_all add: d)
  have t32: "d ! 32 = t" using head(3) by (metis pdr_unit.select_convs(10) sensor_unit_at_def t_def)
  have t5: "d ! 5 = PLDM_NUMERIC_SENSOR_PDR"
    using head(1) assms(3) by (metis pdr_hdr_at_def pldm_pdr_hdr.select_convs(3))
  have f55: "d ! (55 + 3 * D) = f" using c8 by (auto simp: copy8_def split: if_splits)
  have pos: "1 \<le> D" "1 \<le> F" by (simp_all add: D_def F_def value_size_def)
  have l69: "69 \<le> length d" using total pos by simp
  have "\<not> d ! 32 > PLDM_DATA_SIZE_SINT32" using ty(4) t32 by simp
  from sensor_len [OF l69 this, of D] have v: "validate_numeric_sensor_pdr_len d = Some True"
    using total pos f6 f55 t32 by (auto simp: D_def sensor_record_length_def F_def Let_def)
  have conv: "(if t \<le> PLDM_DATA_SIZE_SINT8 then Some else LE32TOH_real) r1 = ns_state_transition_interval s"
    "(if t \<le> PLDM_DATA_SIZE_SINT8 then Some else LE32TOH_real) r2 = ns_update_interval s"
    using c4(2,3) c5(2,3) by auto
  show ?thesis
    unfolding d_def [symmetric] pldm_numeric_sensor_pdr_parse_def numeric_sensor_pdr_sensor_data_size_parse_def
      numeric_sensor_pdr_range_field_format_parse_def t32 head
    using ty(4) f6 l69 t5 conv
    by (simp add: v c1 c2 c3 c4(1) c5(1) c6 c7 c8 c9 c10 PLDM_NUMERIC_SENSOR_PDR_MIN_LENGTH_def not_less)
       (simp add: f_def)
qed

text \<open>Resolution 1, offset 0, the update interval 1 s.\<close>

definition sample_sensor :: numeric_sensor_pdr where
  "sample_sensor = \<lparr> ns_hdr = \<lparr> hd_record_handle = 1, hd_version = 1, hd_type = 2, hd_record_change_num = 0, hd_length = 62 \<rparr>,
     ns_subject = \<lparr> ps_terminus_handle = 1, ps_id = 0x10, ps_entity_type = 0x87, ps_entity_instance = 1, ps_container_id = 1 \<rparr>,
     ns_sensor_init = 0, ns_sensor_auxiliary_names_pdr = 1,
     ns_unit = \<lparr> pu_base_unit = 2, pu_unit_modifier = 0, pu_rate_unit = 0, pu_base_oem_unit_handle = 0, pu_aux_unit = 0,
       pu_aux_unit_modifier = 0, pu_aux_rate_unit = 0, pu_aux_oem_unit_handle = 0, pu_is_linear = 1, pu_data_size = 3,
       pu_resolution = Some 0x3F800000, pu_offset = Some 0, pu_accuracy = 0, pu_plus_tolerance = 0, pu_minus_tolerance = 0 \<rparr>,
     ns_rel = 0, ns_hysteresis = Value_s16 2, ns_supported_thresholds = 0x1B, ns_threshold_and_hysteresis_volatility = 0,
     ns_state_transition_interval = Some 0, ns_update_interval = Some 0x3F800000,
     ns_max_readable = Value_s16 127, ns_min_readable = Value_s16 (- 40), ns_range_field_format = 1, ns_range_field_support = 0x78,
     ns_range = [Value_s8 25, Value_s8 60, Value_s8 0, Value_s8 80, Value_s8 (- 5), Value_s8 90, Value_s8 (- 10),
       Value_s8 100, Value_s8 (- 20)] \<rparr>"

lemma real_zero: "LE32TOH_real 0 = Some 0"
  by (simp add: LE32TOH_real_def f32_integral_def f32_exponent_def f32_significand_def)

lemma real_one: "LE32TOH_real 0x3F800000 = Some 0x3F800000"
proof -
  have "drop_bit 23 (0x3F800000 :: u32) = 127" by code_simp
  then have "unat (0x3F800000 :: u32) = 1065353216" "unat (drop_bit 23 (0x3F800000 :: u32)) = 127" by simp_all
  then have e: "f32_exponent 0x3F800000 = 127" and "f32_significand 0x3F800000 = 2 ^ 23"
    by (simp_all add: f32_exponent_def f32_significand_def)
  then have i: "f32_integral 0x3F800000 = 1" by (simp add: f32_integral_def)
  have n: "\<not> f32_negative 0x3F800000" by (simp add: f32_negative_def)
  have "bit_length 1 = 1" by (subst bit_length.simps) (simp, subst bit_length.simps, simp)
  then have "f32_of_nat 1 = 0x3F800000" by (simp add: f32_of_nat_def)
  with e i n show ?thesis by (simp add: LE32TOH_real_def)
qed

lemma sensor_record_roundtrip_witness:
  "pldm_numeric_sensor_pdr_parse (enc_sensor sample_sensor) = Some (Some sample_sensor) \<and> length (enc_sensor sample_sensor) = 72"
proof -
  have ty: "typed_sensor sample_sensor"
    by (simp add: typed_sensor_def sample_sensor_def data_sizes word_le_nat_alt)
  have "whole_sensor sample_sensor"
    by (simp add: whole_sensor_def sample_sensor_def whole_def real_zero real_one)
  moreover have "length (enc_sensor sample_sensor) = 72"
    by (simp add: enc_sensor_def sample_sensor_def enc_hdr_def pdr_hdr_def enc_subject_def enc_sensor_unit_def)
  ultimately show ?thesis
    using sensor_record_roundtrip [OF ty]
    by (simp add: sample_sensor_def PLDM_NUMERIC_SENSOR_PDR_def)
qed

section \<open>Real numbers\<close>

lemma significand_bounds: "f32_significand x < 2 ^ 24" "f32_exponent x \<noteq> 0 \<Longrightarrow> 2 ^ 23 \<le> f32_significand x"
proof -
  have "unat x mod 2 ^ 23 < 2 ^ 23" by simp
  then show "f32_significand x < 2 ^ 24" unfolding f32_significand_def by (cases "f32_exponent x = 0") simp_all
  show "f32_exponent x \<noteq> 0 \<Longrightarrow> 2 ^ 23 \<le> f32_significand x" by (simp add: f32_significand_def)
qed

lemma integral_zero: "f32_exponent x < 127 \<Longrightarrow> f32_integral x = 0"
proof -
  assume e: "f32_exponent x < 127"
  have "(2 :: nat) ^ 24 \<le> 2 ^ (150 - f32_exponent x)" by (rule power_increasing) (use e in simp_all)
  with significand_bounds(1) [of x] have "f32_significand x < 2 ^ (150 - f32_exponent x)"
    by (rule less_le_trans)
  with e show ?thesis by (simp add: f32_integral_def Let_def)
qed

lemma integral_pos: "127 \<le> f32_exponent x \<Longrightarrow> 0 < f32_integral x"
proof -
  assume e: "127 \<le> f32_exponent x"
  then have s: "2 ^ 23 \<le> f32_significand x" by (intro significand_bounds(2)) simp
  show ?thesis
  proof (cases "150 \<le> f32_exponent x")
    case True
    with s show ?thesis by (simp add: f32_integral_def Let_def)
  next
    case False
    have "2 ^ (150 - f32_exponent x) \<le> (2 :: nat) ^ 23" using e by (intro power_increasing) auto
    with s have "2 ^ (150 - f32_exponent x) \<le> f32_significand x" by linarith
    with False show ?thesis by (simp add: f32_integral_def Let_def div_greater_zero_iff)
  qed
qed

text \<open>
  The resolution of every accepted numeric sensor record whose resolution lies below 1 is read
  as 0, so that all readings become the offset; and the offset of every accepted record whose offset
  is -1 or less goes through an undefined conversion.
\<close>

lemma fractions_of_the_resolution_are_lost:
  assumes "pldm_numeric_sensor_pdr_parse pdr = Some (Some s)"
  shows "(f32_exponent (read32 pdr 33) < 127 \<longrightarrow> pu_resolution (ns_unit s) = Some 0)
    \<and> (f32_negative (read32 pdr 37) \<and> 127 \<le> f32_exponent (read32 pdr 37) \<longrightarrow> pu_offset (ns_unit s) = None)"
proof -
  have "sensor_record_ok pdr" "pdr ! 5 = PLDM_NUMERIC_SENSOR_PDR"
    using sensor_rejected [of pdr] assms
    by (auto simp: pldm_numeric_sensor_pdr_parse_def PLDM_NUMERIC_SENSOR_PDR_MIN_LENGTH_def split: if_splits)
  from sensor_parsed [OF this] assms have u: "ns_unit s = sensor_unit_at pdr" by auto
  have "LE32TOH_real x = Some 0" if "f32_exponent x < 127" for x
    using that integral_zero [OF that] by (simp add: LE32TOH_real_def)
  moreover have "LE32TOH_real x = None" if "f32_negative x" "127 \<le> f32_exponent x" for x
    using that integral_pos [OF that(2)] by (simp add: LE32TOH_real_def)
  ultimately show ?thesis by (simp add: u sensor_unit_at_def)
qed

text \<open>Resolution 0.5.\<close>

definition half_sensor :: "byte list" where
  "half_sensor = enc_sensor (sample_sensor\<lparr>ns_unit := (ns_unit sample_sensor)\<lparr>pu_resolution := Some 0x3F000000\<rparr>\<rparr>)"

lemma fractions_of_the_resolution_are_lost_witness:
  "\<exists>s. pldm_numeric_sensor_pdr_parse half_sensor = Some (Some s) \<and> pu_resolution (ns_unit s) = Some 0"
proof -
  have "sensor_record_ok half_sensor" "half_sensor ! 5 = PLDM_NUMERIC_SENSOR_PDR" by code_simp+
  from sensor_parsed [OF this] obtain s where s: "pldm_numeric_sensor_pdr_parse half_sensor = Some (Some s)"
    by blast
  have "drop_bit 23 (read32 half_sensor 33) = 126" by code_simp
  then have "f32_exponent (read32 half_sensor 33) < 127" by (simp add: f32_exponent_def)
  with fractions_of_the_resolution_are_lost [OF s] s show ?thesis by blast
qed

lemma parsed_values_are_typed_witness:
  "\<exists>s. pldm_numeric_sensor_pdr_parse half_sensor = Some (Some s) \<and> typed_sensor s"
proof -
  have "sensor_record_ok half_sensor" "half_sensor ! 5 = PLDM_NUMERIC_SENSOR_PDR" by code_simp+
  from sensor_parsed [OF this] obtain s where "pldm_numeric_sensor_pdr_parse half_sensor = Some (Some s)"
    by blast
  with parsed_values_are_typed [of half_sensor s] show ?thesis by blast
qed

end
