(* ===== verification/Platform_Codec.thy ===== *)
theory Platform_Codec
  imports Pldm_Discovery Pdr_Parse
begin

unbundle bit_operations_syntax

text \<open>
  The messages of platform monitoring and control, PLDM type 2 (libpldm\_intel/platform.c and .h),
  with the conventions of the theory on the base messages: an encoder gives the completion code of
  its failure or the message, a decoder its return code, the completion code of the answer and
  its outputs when they are complete. The outer \<open>None\<close> is a read past the end of a message or of
  an array of the caller. The host is little-endian: \<open>htole16\<close> and its kind keep a word as it is.
\<close>

section \<open>Codes\<close>

definition PLDM_SET_NUMERIC_SENSOR_ENABLE :: byte where "PLDM_SET_NUMERIC_SENSOR_ENABLE = 0x10"
definition PLDM_GET_SENSOR_READING :: byte where "PLDM_GET_SENSOR_READING = 0x11"
definition PLDM_GET_SENSOR_THRESHOLD :: byte where "PLDM_GET_SENSOR_THRESHOLD = 0x12"
definition PLDM_SET_SENSOR_THRESHOLD :: byte where "PLDM_SET_SENSOR_THRESHOLD = 0x13"
definition PLDM_GET_SENSOR_HYSTERESIS :: byte where "PLDM_GET_SENSOR_HYSTERESIS = 0x15"
definition PLDM_SET_SENSOR_HYSTERESIS :: byte where "PLDM_SET_SENSOR_HYSTERESIS = 0x16"
definition PLDM_SET_STATE_SENSOR_ENABLE :: byte where "PLDM_SET_STATE_SENSOR_ENABLE = 0x20"
definition PLDM_GET_STATE_SENSOR_READINGS :: byte where "PLDM_GET_STATE_SENSOR_READINGS = 0x21"
definition PLDM_SET_NUMERIC_EFFECTER_ENABLE :: byte where "PLDM_SET_NUMERIC_EFFECTER_ENABLE = 0x30"
definition PLDM_SET_NUMERIC_EFFECTER_VALUE :: byte where "PLDM_SET_NUMERIC_EFFECTER_VALUE = 0x31"
definition PLDM_GET_NUMERIC_EFFECTER_VALUE :: byte where "PLDM_GET_NUMERIC_EFFECTER_VALUE = 0x32"
definition PLDM_SET_STATE_EFFECTER_ENABLE :: byte where "PLDM_SET_STATE_EFFECTER_ENABLE = 0x38"
definition PLDM_SET_STATE_EFFECTER_STATES :: byte where "PLDM_SET_STATE_EFFECTER_STATES = 0x39"
definition PLDM_GET_STATE_EFFECTER_STATES :: byte where "PLDM_GET_STATE_EFFECTER_STATES = 0x3A"
definition PLDM_GET_PDR_REPOSITORY_INFO :: byte where "PLDM_GET_PDR_REPOSITORY_INFO = 0x50"
definition PLDM_GET_PDR :: byte where "PLDM_GET_PDR = 0x51"
definition PLDM_PLATFORM_EVENT_MESSAGE :: byte where "PLDM_PLATFORM_EVENT_MESSAGE = 0x0A"

definition PLDM_STATE_SENSOR_PDR :: byte where "PLDM_STATE_SENSOR_PDR = 4"
definition PLDM_STATE_EFFECTER_PDR :: byte where "PLDM_STATE_EFFECTER_PDR = 11"

definition EFFECTER_OPER_STATE_INTEST :: byte where "EFFECTER_OPER_STATE_INTEST = 8"
definition PLDM_SENSOR_UNAVAILABLE :: byte where "PLDM_SENSOR_UNAVAILABLE = 2"
definition PLDM_STATE_EVENTS_ONLY_ENABLED :: byte where "PLDM_STATE_EVENTS_ONLY_ENABLED = 4"
definition PLDM_ENABLE_EVENTS :: byte where "PLDM_ENABLE_EVENTS = 0"
definition PLDM_DISABLE_EVENTS :: byte where "PLDM_DISABLE_EVENTS = 1"
definition PLDM_NO_CHANGE_EVENTS :: byte where "PLDM_NO_CHANGE_EVENTS = 0xFF"
definition PLDM_EVENT_LOGGING_REJECTED :: byte where "PLDM_EVENT_LOGGING_REJECTED = 5"
definition PLDM_HEARTBEAT_TIMER_ELAPSED_EVENT :: byte where "PLDM_HEARTBEAT_TIMER_ELAPSED_EVENT = 6"
definition PLDM_SENSOR_OP_STATE :: byte where "PLDM_SENSOR_OP_STATE = 0"
definition PLDM_STATE_SENSOR_STATE :: byte where "PLDM_STATE_SENSOR_STATE = 1"
definition PLDM_NUMERIC_SENSOR_STATE :: byte where "PLDM_NUMERIC_SENSOR_STATE = 2"

lemmas platform_codes = PLDM_PLATFORM_def data_sizes EFFECTER_OPER_STATE_INTEST_def
  PLDM_SENSOR_UNAVAILABLE_def PLDM_STATE_EVENTS_ONLY_ENABLED_def PLDM_ENABLE_EVENTS_def
  PLDM_DISABLE_EVENTS_def PLDM_NO_CHANGE_EVENTS_def PLDM_EVENT_LOGGING_REJECTED_def
  PLDM_HEARTBEAT_TIMER_ELAPSED_EVENT_def PLDM_SENSOR_OP_STATE_def PLDM_STATE_SENSOR_STATE_def
  PLDM_NUMERIC_SENSOR_STATE_def

section \<open>Memory\<close>

text \<open>\<open>n\<close> bytes from the position \<open>i\<close> of a block, and of the payload of a message.\<close>

definition memory :: "byte list \<Rightarrow> nat \<Rightarrow> nat \<Rightarrow> byte list option" where
  "memory bs i n = (if i + n \<le> length bs then Some (take n (drop i bs)) else None)"

definition payload_bytes :: "byte list \<Rightarrow> nat \<Rightarrow> nat \<Rightarrow> byte list option" where
  "payload_bytes msg i n = memory msg (3 + i) n"

text \<open>The number of bytes of a value, by its data size (at most \<open>SINT32\<close>).\<close>

definition value_width :: "byte \<Rightarrow> nat" where
  "value_width data_size =
     (if data_size = PLDM_DATA_SIZE_UINT8 \<or> data_size = PLDM_DATA_SIZE_SINT8 then 1
      else if data_size = PLDM_DATA_SIZE_UINT16 \<or> data_size = PLDM_DATA_SIZE_SINT16 then 2
      else 4)"

section \<open>Records of state effecters and state sensors\<close>

text \<open>
  The walk over the possible states: \<open>n\<close> entries of a 16-bit state set, the number of bytes of
  states and the states. \<open>None\<close> is an access past the block. The result is the number of bytes.
\<close>

fun possible_states_walk :: "nat \<Rightarrow> byte list \<Rightarrow> nat option" where
  "possible_states_walk 0 states = Some 0"
| "possible_states_walk (Suc n) states =
     (if length states < 3 then None
      else let k = 3 + unat (states ! 2) in
        map_option ((+) k) (possible_states_walk n (drop k states)))"

text \<open>The structures without their last member, the possible states.\<close>

record state_effecter_pdr =
  se_hdr :: pldm_pdr_hdr
  se_subject :: pdr_subject
  se_effecter_semantic_id :: u16
  se_effecter_init :: byte
  se_has_description_pdr :: byte
  se_composite_effecter_count :: byte

record state_sensor_pdr =
  ss_hdr :: pldm_pdr_hdr
  ss_subject :: pdr_subject
  ss_sensor_init :: byte
  ss_sensor_auxiliary_names_pdr :: byte
  ss_composite_sensor_count :: byte

definition subject_bytes :: "pdr_subject \<Rightarrow> byte list" where
  "subject_bytes s = enc16 (ps_terminus_handle s) @ enc16 (ps_id s) @ enc16 (ps_entity_type s)
     @ enc16 (ps_entity_instance s) @ enc16 (ps_container_id s)"

text \<open>The results: the return code, the actual size and the bytes of the structure.\<close>

definition encode_state_effecter_pdr :: "state_effecter_pdr \<Rightarrow> nat \<Rightarrow> byte list \<Rightarrow> nat
    \<Rightarrow> (int \<times> nat \<times> byte list option) option" where
  "encode_state_effecter_pdr effecter allocation_size possible_states possible_states_size = do {
     n \<leftarrow> possible_states_walk (unat (se_composite_effecter_count effecter)) possible_states;
     if possible_states_size \<noteq> n then Some (PLDM_ERROR, 0, None)
     else let actual_size = 26 + possible_states_size - 1 in
       if allocation_size < actual_size then Some (PLDM_ERROR_INVALID_LENGTH, 0, None)
       else do {
         states \<leftarrow> memory possible_states 0 possible_states_size;
         Some (PLDM_SUCCESS, actual_size, Some
           (pdr_hdr (hd_record_handle (se_hdr effecter)) 1 PLDM_STATE_EFFECTER_PDR
              (hd_record_change_num (se_hdr effecter)) (word_of_nat (actual_size - 10))
            @ subject_bytes (se_subject effecter) @ enc16 (se_effecter_semantic_id effecter)
            @ [se_effecter_init effecter, se_has_description_pdr effecter,
               se_composite_effecter_count effecter] @ states)) } }"

definition encode_state_sensor_pdr :: "state_sensor_pdr \<Rightarrow> nat \<Rightarrow> byte list \<Rightarrow> nat
    \<Rightarrow> (int \<times> nat \<times> byte list option) option" where
  "encode_state_sensor_pdr sensor allocation_size possible_states possible_states_size = do {
     n \<leftarrow> possible_states_walk (unat (ss_composite_sensor_count sensor)) possible_states;
     if possible_states_size \<noteq> n then Some (PLDM_ERROR, 0, None)
     else let actual_size = 24 + possible_states_size - 1 in
       if allocation_size < actual_size then Some (PLDM_ERROR_INVALID_LENGTH, 0, None)
       else do {
         states \<leftarrow> memory possible_states 0 possible_states_size;
         Some (PLDM_SUCCESS, actual_size, Some
           (pdr_hdr (hd_record_handle (ss_hdr sensor)) 1 PLDM_STATE_SENSOR_PDR
              (hd_record_change_num (ss_hdr sensor)) (word_of_nat (actual_size - 10))
            @ subject_bytes (ss_subject sensor)
            @ [ss_sensor_init sensor, ss_sensor_auxiliary_names_pdr sensor,
               ss_composite_sensor_count sensor] @ states)) } }"

section \<open>SetStateEffecterStates\<close>

abbreviation platform_header :: "byte \<Rightarrow> byte \<Rightarrow> byte \<Rightarrow> int + byte list" where
  "platform_header instance_id command msg_type \<equiv>
     encode_pldm_header instance_id PLDM_PLATFORM command msg_type"

record set_effecter_state_field =
  set_request :: byte
  effecter_state :: byte

definition encode_set_state_effecter_states_resp :: "byte \<Rightarrow> byte \<Rightarrow> int + byte list" where
  "encode_set_state_effecter_states_resp instance_id cc =
     with_payload (platform_header instance_id PLDM_SET_STATE_EFFECTER_STATES PLDM_RESPONSE) [cc]"

definition encode_set_state_effecter_states_req :: "byte \<Rightarrow> u16 \<Rightarrow> byte
    \<Rightarrow> set_effecter_state_field list \<Rightarrow> (int + byte list) option" where
  "encode_set_state_effecter_states_req instance_id effecter_id comp_effecter_count field =
     (case platform_header instance_id PLDM_SET_STATE_EFFECTER_STATES PLDM_REQUEST of
        Inl rc \<Rightarrow> Some (Inl rc)
      | Inr hdr \<Rightarrow>
          if comp_effecter_count < 1 \<or> comp_effecter_count > 8
          then Some (Inl PLDM_ERROR_INVALID_DATA)
          else if length field < unat comp_effecter_count then None
          else Some (Inr (hdr @ enc16 effecter_id @ [comp_effecter_count]
            @ concat (map (\<lambda>f. [set_request f, effecter_state f])
                (take (unat comp_effecter_count) field)))))"

definition decode_set_state_effecter_states_resp :: "byte list \<Rightarrow> (int \<times> byte) option" where
  "decode_set_state_effecter_states_resp msg = do {
     cc \<leftarrow> payload_at msg 0;
     Some (if cc \<noteq> 0 then (PLDM_SUCCESS, cc)
           else if length msg - 3 > 1 then (PLDM_ERROR_INVALID_LENGTH, cc)
           else (PLDM_SUCCESS, cc)) }"

text \<open>The fields follow each other in the payload; the number of them is bounded neither by the
  length of the payload nor by the eight fields that the caller has to allocate.\<close>

fun set_fields_of :: "byte list \<Rightarrow> set_effecter_state_field list" where
  "set_fields_of (r # s # bs) = \<lparr> set_request = r, effecter_state = s \<rparr> # set_fields_of bs"
| "set_fields_of bs = []"

definition decode_set_state_effecter_states_req :: "byte list
    \<Rightarrow> (int \<times> (u16 \<times> byte \<times> set_effecter_state_field list) option) option" where
  "decode_set_state_effecter_states_req msg =
     (if length msg - 3 > 19 then Some (PLDM_ERROR_INVALID_LENGTH, None)
      else do {
        effecter_id \<leftarrow> payload_bytes msg 0 2;
        comp_effecter_count \<leftarrow> payload_at msg 2;
        fields \<leftarrow> payload_bytes msg 3 (2 * unat comp_effecter_count);
        Some (PLDM_SUCCESS,
          Some (read16 effecter_id 0, comp_effecter_count, set_fields_of fields)) })"

section \<open>GetPDR\<close>

record get_pdr_req =
  gp_record_handle :: u32
  gp_data_transfer_handle :: u32
  gp_transfer_op_flag :: byte
  gp_request_count :: u16
  gp_record_change_number :: u16

definition decode_get_pdr_req :: "byte list \<Rightarrow> int \<times> get_pdr_req option" where
  "decode_get_pdr_req msg =
     (if length msg - 3 \<noteq> 13 then (PLDM_ERROR_INVALID_LENGTH, None)
      else (PLDM_SUCCESS, Some \<lparr> gp_record_handle = read32 msg 3,
        gp_data_transfer_handle = read32 msg 7, gp_transfer_op_flag = msg ! 11,
        gp_request_count = read16 msg 12, gp_record_change_number = read16 msg 14 \<rparr>))"

definition encode_get_pdr_req :: "byte \<Rightarrow> get_pdr_req \<Rightarrow> nat \<Rightarrow> int + byte list" where
  "encode_get_pdr_req instance_id r payload_length =
     (case platform_header instance_id PLDM_GET_PDR PLDM_REQUEST of
        Inl rc \<Rightarrow> Inl rc
      | Inr hdr \<Rightarrow>
          if payload_length \<noteq> 13 then Inl PLDM_ERROR_INVALID_LENGTH
          else Inr (hdr @ enc32 (gp_record_handle r) @ enc32 (gp_data_transfer_handle r)
            @ [gp_transfer_op_flag r] @ enc16 (gp_request_count r)
            @ enc16 (gp_record_change_number r)))"

record get_pdr_resp =
  gr_next_record_handle :: u32
  gr_next_data_transfer_handle :: u32
  gr_transfer_flag :: byte
  gr_response_count :: u16

text \<open>\<open>None\<close> as record data is the null pointer: the bytes of the buffer are kept. The checksum
  follows the data of a last part.\<close>

definition encode_get_pdr_resp :: "byte \<Rightarrow> byte \<Rightarrow> get_pdr_resp \<Rightarrow> byte list option \<Rightarrow> byte
    \<Rightarrow> (int + byte list) option" where
  "encode_get_pdr_resp instance_id cc r record_data transfer_crc =
     (case platform_header instance_id PLDM_GET_PDR PLDM_RESPONSE of
        Inl rc \<Rightarrow> Some (Inl rc)
      | Inr hdr \<Rightarrow>
          if cc \<noteq> 0 then Some (Inr (hdr @ [cc]))
          else do {
            data \<leftarrow> (case record_data of
                None \<Rightarrow> Some (replicate (unat (gr_response_count r)) 0)
              | Some bs \<Rightarrow> memory bs 0 (unat (gr_response_count r)));
            Some (Inr (hdr @ [cc] @ enc32 (gr_next_record_handle r)
              @ enc32 (gr_next_data_transfer_handle r) @ [gr_transfer_flag r]
              @ enc16 (gr_response_count r) @ data
              @ (if gr_transfer_flag r = PLDM_END then [transfer_crc] else []))) })"

text \<open>\<open>record\_data\_length\<close> is the size of the caller's buffer, \<open>None\<close> for a null pointer. The
  outputs are the fields, the data and, for a last part, the checksum.\<close>

definition decode_get_pdr_resp :: "byte list \<Rightarrow> nat option
    \<Rightarrow> (int \<times> byte \<times> (get_pdr_resp \<times> byte list option \<times> byte option) option) option" where
  "decode_get_pdr_resp msg record_data_length = do {
     cc \<leftarrow> payload_at msg 0;
     if cc \<noteq> 0 then Some (PLDM_SUCCESS, cc, None)
     else if length msg - 3 < 12 then Some (PLDM_ERROR_INVALID_LENGTH, cc, None)
     else do {
       fields \<leftarrow> payload_bytes msg 1 11;
       (let n = length msg - 3;
            r = \<lparr> gr_next_record_handle = read32 fields 0,
                  gr_next_data_transfer_handle = read32 fields 4,
                  gr_transfer_flag = fields ! 8, gr_response_count = read16 fields 9 \<rparr>;
            k = unat (gr_response_count r)
        in if gr_transfer_flag r \<noteq> PLDM_END \<and> n \<noteq> 12 + k
           then Some (PLDM_ERROR_INVALID_LENGTH, cc, None)
           else if gr_transfer_flag r = PLDM_END \<and> n \<noteq> 12 + k + 1
           then Some (PLDM_ERROR_INVALID_LENGTH, cc, None)
           else if k > 0 \<and> (case record_data_length of None \<Rightarrow> False | Some l \<Rightarrow> l < k)
           then Some (PLDM_ERROR_INVALID_LENGTH, cc, None)
           else do {
             data \<leftarrow> (if k > 0 \<and> record_data_length \<noteq> None
                     then map_option Some (payload_bytes msg 12 k) else Some None);
             crc \<leftarrow> (if gr_transfer_flag r = PLDM_END
                     then map_option Some (payload_at msg (12 + k)) else Some None);
             Some (PLDM_SUCCESS, cc, Some (r, data, crc)) }) } }"

section \<open>Numeric effecters\<close>

text \<open>The value is given as the bytes in the memory of the caller.\<close>

definition decode_set_numeric_effecter_value_req ::
    "byte list \<Rightarrow> int \<times> (u16 \<times> byte \<times> byte list) option" where
  "decode_set_numeric_effecter_value_req msg =
     (let n = length msg - 3; data_size = msg ! 5 in
      if n < 4 then (PLDM_ERROR_INVALID_LENGTH, None)
      else if data_size > PLDM_DATA_SIZE_SINT32 then (PLDM_ERROR_INVALID_DATA, None)
      else if n \<noteq> 4 + (value_width data_size - 1) then (PLDM_ERROR_INVALID_LENGTH, None)
      else (PLDM_SUCCESS,
        Some (read16 msg 3, data_size, take (value_width data_size) (drop 6 msg))))"

definition encode_set_numeric_effecter_value_resp :: "byte \<Rightarrow> byte \<Rightarrow> nat \<Rightarrow> int + byte list" where
  "encode_set_numeric_effecter_value_resp instance_id cc payload_length =
     (if payload_length \<noteq> 1 then Inl PLDM_ERROR_INVALID_LENGTH
      else with_payload
        (platform_header instance_id PLDM_SET_NUMERIC_EFFECTER_VALUE PLDM_RESPONSE) [cc])"

definition encode_set_numeric_effecter_value_req :: "byte \<Rightarrow> u16 \<Rightarrow> byte \<Rightarrow> byte list \<Rightarrow> nat
    \<Rightarrow> (int + byte list) option" where
  "encode_set_numeric_effecter_value_req instance_id effecter_id data_size effecter_value
      payload_length =
     (case platform_header instance_id PLDM_SET_NUMERIC_EFFECTER_VALUE PLDM_REQUEST of
        Inl rc \<Rightarrow> Some (Inl rc)
      | Inr hdr \<Rightarrow>
          if data_size > PLDM_DATA_SIZE_SINT32 then Some (Inl PLDM_ERROR_INVALID_DATA)
          else if payload_length \<noteq> 4 + (value_width data_size - 1)
          then Some (Inl PLDM_ERROR_INVALID_LENGTH)
          else map_option (\<lambda>v. Inr (hdr @ enc16 effecter_id @ [data_size] @ v))
            (memory effecter_value 0 (value_width data_size)))"

definition decode_set_numeric_effecter_value_resp :: "byte list \<Rightarrow> int \<times> byte option" where
  "decode_set_numeric_effecter_value_resp msg =
     (if length msg - 3 \<noteq> 1 then (PLDM_ERROR_INVALID_LENGTH, None)
      else (PLDM_SUCCESS, Some (msg ! 3)))"

definition encode_get_numeric_effecter_value_req :: "byte \<Rightarrow> u16 \<Rightarrow> int + byte list" where
  "encode_get_numeric_effecter_value_req instance_id effecter_id =
     with_payload (platform_header instance_id PLDM_GET_NUMERIC_EFFECTER_VALUE PLDM_REQUEST)
       (enc16 effecter_id)"

definition decode_get_numeric_effecter_value_req :: "byte list \<Rightarrow> int \<times> u16 option" where
  "decode_get_numeric_effecter_value_req msg =
     (if length msg - 3 \<noteq> 2 then (PLDM_ERROR_INVALID_LENGTH, None)
      else (PLDM_SUCCESS, Some (read16 msg 3)))"

definition encode_get_numeric_effecter_value_resp :: "byte \<Rightarrow> byte \<Rightarrow> byte \<Rightarrow> byte \<Rightarrow> byte list
    \<Rightarrow> byte list \<Rightarrow> nat \<Rightarrow> (int + byte list) option" where
  "encode_get_numeric_effecter_value_resp instance_id cc data_size oper_state pending_value
      present_value payload_length =
     (if data_size > PLDM_DATA_SIZE_SINT32 then Some (Inl PLDM_ERROR_INVALID_DATA)
      else if oper_state > EFFECTER_OPER_STATE_INTEST then Some (Inl PLDM_ERROR_INVALID_DATA)
      else case platform_header instance_id PLDM_GET_NUMERIC_EFFECTER_VALUE PLDM_RESPONSE of
        Inl rc \<Rightarrow> Some (Inl rc)
      | Inr hdr \<Rightarrow>
          if payload_length \<noteq> 5 + (2 * value_width data_size - 2)
          then Some (Inl PLDM_ERROR_INVALID_LENGTH)
          else do {
            pending \<leftarrow> memory pending_value 0 (value_width data_size);
            present \<leftarrow> memory present_value 0 (value_width data_size);
            Some (Inr (hdr @ [cc, data_size, oper_state] @ pending @ present)) })"

definition decode_get_numeric_effecter_value_resp :: "byte list
    \<Rightarrow> (int \<times> byte \<times> (byte \<times> byte \<times> byte list \<times> byte list) option) option" where
  "decode_get_numeric_effecter_value_resp msg = do {
     cc \<leftarrow> payload_at msg 0;
     if cc \<noteq> 0 then Some (PLDM_SUCCESS, cc, None)
     else if length msg - 3 < 5 then Some (PLDM_ERROR_INVALID_LENGTH, cc, None)
     else do {
       data_size \<leftarrow> payload_at msg 1;
       oper_state \<leftarrow> payload_at msg 2;
       (let k = value_width data_size
        in if data_size > PLDM_DATA_SIZE_SINT32 then Some (PLDM_ERROR_INVALID_DATA, cc, None)
           else if oper_state > EFFECTER_OPER_STATE_INTEST
           then Some (PLDM_ERROR_INVALID_DATA, cc, None)
           else if length msg - 3 \<noteq> 5 + (2 * k - 2) then Some (PLDM_ERROR_INVALID_LENGTH, cc, None)
           else do {
             pending \<leftarrow> payload_bytes msg 3 k;
             present \<leftarrow> payload_bytes msg (3 + k) k;
             Some (PLDM_SUCCESS, cc, Some (data_size, oper_state, pending, present)) }) } }"

section \<open>GetStateSensorReadings and GetStateEffecterStates\<close>

record get_sensor_state_field =
  sf_sensor_op_state :: byte
  sf_present_state :: byte
  sf_previous_state :: byte
  sf_event_state :: byte

definition sensor_field_bytes :: "get_sensor_state_field \<Rightarrow> byte list" where
  "sensor_field_bytes f = [sf_sensor_op_state f, sf_present_state f, sf_previous_state f, sf_event_state f]"

fun sensor_fields_of :: "byte list \<Rightarrow> get_sensor_state_field list" where
  "sensor_fields_of (a # b # c # d # bs) = \<lparr> sf_sensor_op_state = a, sf_present_state = b,
     sf_previous_state = c, sf_event_state = d \<rparr> # sensor_fields_of bs"
| "sensor_fields_of bs = []"

definition encode_get_state_sensor_readings_resp :: "byte \<Rightarrow> byte \<Rightarrow> byte
    \<Rightarrow> get_sensor_state_field list \<Rightarrow> (int + byte list) option" where
  "encode_get_state_sensor_readings_resp instance_id cc comp_sensor_count field =
     (case platform_header instance_id PLDM_GET_STATE_SENSOR_READINGS PLDM_RESPONSE of
        Inl rc \<Rightarrow> Some (Inl rc)
      | Inr hdr \<Rightarrow>
          if comp_sensor_count < 1 \<or> comp_sensor_count > 8 then Some (Inl PLDM_ERROR_INVALID_DATA)
          else if length field < unat comp_sensor_count then None
          else Some (Inr (hdr @ [cc, comp_sensor_count]
            @ concat (map sensor_field_bytes (take (unat comp_sensor_count) field)))))"

definition encode_get_state_sensor_readings_req :: "byte \<Rightarrow> u16 \<Rightarrow> byte \<Rightarrow> byte
    \<Rightarrow> int + byte list" where
  "encode_get_state_sensor_readings_req instance_id sensor_id sensor_rearm reserved =
     with_payload (platform_header instance_id PLDM_GET_STATE_SENSOR_READINGS PLDM_REQUEST)
       (enc16 sensor_id @ [sensor_rearm, reserved])"

text \<open>\<open>capacity\<close> is the number of fields the caller has room for. The length of the payload is
  bounded from above only: the fields the answer announces may not be in it.\<close>

definition decode_get_state_sensor_readings_resp :: "byte list \<Rightarrow> byte
    \<Rightarrow> (int \<times> byte \<times> (byte \<times> get_sensor_state_field list) option) option" where
  "decode_get_state_sensor_readings_resp msg capacity = do {
     cc \<leftarrow> payload_at msg 0;
     if cc \<noteq> 0 then Some (PLDM_SUCCESS, cc, None)
     else if length msg - 3 > 2 + 4 * unat capacity
     then Some (PLDM_ERROR_INVALID_LENGTH, cc, None)
     else do {
       count \<leftarrow> payload_at msg 1;
       if count < 1 \<or> count > 8 then Some (PLDM_ERROR_INVALID_DATA, cc, None)
       else if count > capacity then Some (PLDM_ERROR_INVALID_LENGTH, cc, None)
       else do {
         fields \<leftarrow> payload_bytes msg 2 (4 * unat count);
         Some (PLDM_SUCCESS, cc, Some (count, sensor_fields_of fields)) } } }"

definition decode_get_state_sensor_readings_req :: "byte list \<Rightarrow> int \<times> (u16 \<times> byte \<times> byte) option" where
  "decode_get_state_sensor_readings_req msg =
     (if length msg - 3 \<noteq> 4 then (PLDM_ERROR_INVALID_LENGTH, None)
      else (PLDM_SUCCESS, Some (read16 msg 3, msg ! 5, msg ! 6)))"

record get_effecter_state_field =
  effecter_op_state :: byte
  pending_effecter_state :: byte
  present_effecter_state :: byte

fun effecter_fields_of :: "byte list \<Rightarrow> get_effecter_state_field list" where
  "effecter_fields_of (a # b # c # bs) = \<lparr> effecter_op_state = a, pending_effecter_state = b,
     present_effecter_state = c \<rparr> # effecter_fields_of bs"
| "effecter_fields_of bs = []"

definition encode_get_state_effecter_states_req :: "byte \<Rightarrow> u16 \<Rightarrow> int + byte list" where
  "encode_get_state_effecter_states_req instance_id effecter_id =
     with_payload (platform_header instance_id PLDM_GET_STATE_EFFECTER_STATES PLDM_REQUEST)
       (enc16 effecter_id)"

definition decode_get_state_effecter_states_resp :: "byte list \<Rightarrow> byte
    \<Rightarrow> (int \<times> byte \<times> (byte \<times> get_effecter_state_field list) option) option" where
  "decode_get_state_effecter_states_resp msg capacity = do {
     cc \<leftarrow> payload_at msg 0;
     if cc \<noteq> 0 then Some (PLDM_SUCCESS, cc, None)
     else if length msg - 3 > 2 + 3 * unat capacity
     then Some (PLDM_ERROR_INVALID_LENGTH, cc, None)
     else do {
       count \<leftarrow> payload_at msg 1;
       if count < 1 \<or> count > 8 then Some (PLDM_ERROR_INVALID_DATA, cc, None)
       else if count > capacity then Some (PLDM_ERROR_INVALID_LENGTH, cc, None)
       else do {
         fields \<leftarrow> payload_bytes msg 2 (3 * unat count);
         Some (PLDM_SUCCESS, cc, Some (count, effecter_fields_of fields)) } } }"

section \<open>Event messages\<close>

text \<open>Without event data (\<open>None\<close> as size of its memory) only the size is computed.\<close>

definition encode_sensor_event_data :: "nat option \<Rightarrow> u16 \<Rightarrow> byte \<Rightarrow> byte \<Rightarrow> byte \<Rightarrow> byte
    \<Rightarrow> int \<times> nat \<times> byte list option" where
  "encode_sensor_event_data event_data_size sensor_id event_class offset state previous_state =
     (case event_data_size of
        None \<Rightarrow> (PLDM_SUCCESS, 6, None)
      | Some sz \<Rightarrow>
          if sz < 6 then (PLDM_ERROR_INVALID_LENGTH, 0, None)
          else (PLDM_SUCCESS, 6,
            Some (enc16 sensor_id @ [event_class, offset, state, previous_state])))"

text \<open>The last output is the offset of the event data.\<close>

definition decode_platform_event_message_req ::
    "byte list \<Rightarrow> int \<times> (byte \<times> byte \<times> byte \<times> nat) option" where
  "decode_platform_event_message_req msg =
     (if length msg - 3 \<le> 3 then (PLDM_ERROR_INVALID_LENGTH, None)
      else (PLDM_SUCCESS, Some (msg ! 3, msg ! 4, msg ! 5, 3)))"

definition encode_platform_event_message_resp :: "byte \<Rightarrow> byte \<Rightarrow> byte \<Rightarrow> int + byte list" where
  "encode_platform_event_message_resp instance_id cc platform_event_status =
     (if platform_event_status > PLDM_EVENT_LOGGING_REJECTED then Inl PLDM_ERROR_INVALID_DATA
      else with_payload (platform_header instance_id PLDM_PLATFORM_EVENT_MESSAGE PLDM_RESPONSE)
        [cc, platform_event_status])"

definition encode_platform_event_message_req :: "byte \<Rightarrow> byte \<Rightarrow> byte \<Rightarrow> byte \<Rightarrow> byte list \<Rightarrow> nat
    \<Rightarrow> nat \<Rightarrow> (int + byte list) option" where
  "encode_platform_event_message_req instance_id format_version tid event_class event_data
      event_data_length payload_length =
     (if format_version \<noteq> 1 then Some (Inl PLDM_ERROR_INVALID_DATA)
      else if event_data_length = 0 then Some (Inl PLDM_ERROR_INVALID_DATA)
      else if payload_length \<noteq> 3 + event_data_length then Some (Inl PLDM_ERROR_INVALID_LENGTH)
      else if event_class > PLDM_HEARTBEAT_TIMER_ELAPSED_EVENT
        \<and> \<not> (event_class \<ge> 0xF0 \<and> event_class \<le> 0xFE) then Some (Inl PLDM_ERROR_INVALID_DATA)
      else case platform_header instance_id PLDM_PLATFORM_EVENT_MESSAGE PLDM_REQUEST of
        Inl rc \<Rightarrow> Some (Inl rc)
      | Inr hdr \<Rightarrow> map_option (\<lambda>data. Inr (hdr @ [format_version, tid, event_class] @ data))
          (memory event_data 0 event_data_length))"

definition decode_platform_event_message_resp ::
    "byte list \<Rightarrow> (int \<times> byte \<times> byte option) option" where
  "decode_platform_event_message_resp msg = do {
     cc \<leftarrow> payload_at msg 0;
     if cc \<noteq> 0 then Some (PLDM_SUCCESS, cc, None)
     else if length msg - 3 \<noteq> 2 then Some (PLDM_ERROR_INVALID_LENGTH, cc, None)
     else do {
       status \<leftarrow> payload_at msg 1;
       Some (if status > PLDM_EVENT_LOGGING_REJECTED
             then (PLDM_ERROR_INVALID_DATA, cc, Some status)
             else (PLDM_SUCCESS, cc, Some status)) } }"

text \<open>The outputs: the sensor, the class of the event and the offset of its data.\<close>

definition decode_sensor_event_data :: "byte list \<Rightarrow> int \<times> (u16 \<times> byte \<times> nat) option" where
  "decode_sensor_event_data event_data =
     (let n = length event_data - 3; ty = event_data ! 2;
          ok = (PLDM_SUCCESS, Some (read16 event_data 0, ty, 3)) in
      if length event_data < 5 then (PLDM_ERROR_INVALID_LENGTH, None)
      else if ty = PLDM_SENSOR_OP_STATE then
        (if n \<noteq> 2 then (PLDM_ERROR_INVALID_LENGTH, None) else ok)
      else if ty = PLDM_STATE_SENSOR_STATE then
        (if n \<noteq> 3 then (PLDM_ERROR_INVALID_LENGTH, None) else ok)
      else if ty = PLDM_NUMERIC_SENSOR_STATE then
        (if n < 4 \<or> n > 7 then (PLDM_ERROR_INVALID_LENGTH, None) else ok)
      else (PLDM_ERROR_INVALID_DATA, None))"

definition decode_sensor_op_data :: "byte list \<Rightarrow> int \<times> (byte \<times> byte) option" where
  "decode_sensor_op_data sensor_data =
     (if length sensor_data \<noteq> 2 then (PLDM_ERROR_INVALID_LENGTH, None)
      else (PLDM_SUCCESS, Some (sensor_data ! 0, sensor_data ! 1)))"

definition decode_state_sensor_data :: "byte list \<Rightarrow> int \<times> (byte \<times> byte \<times> byte) option" where
  "decode_state_sensor_data sensor_data =
     (if length sensor_data \<noteq> 3 then (PLDM_ERROR_INVALID_LENGTH, None)
      else (PLDM_SUCCESS, Some (sensor_data ! 0, sensor_data ! 1, sensor_data ! 2)))"

text \<open>
  The present reading is assembled with its first byte as the highest one. (In C the shift of a
  byte of at least 128 by 24 leaves the range of \<open>int\<close>; the model takes the bits that result.)
\<close>

definition be16 :: "byte list \<Rightarrow> u32" where
  "be16 p = ucast (p ! 1) OR push_bit 8 (ucast (p ! 0))"

definition be32 :: "byte list \<Rightarrow> u32" where
  "be32 p = ucast (p ! 3) OR push_bit 8 (ucast (p ! 2)) OR push_bit 16 (ucast (p ! 1))
     OR push_bit 24 (ucast (p ! 0))"

definition decode_numeric_sensor_data :: "byte list \<Rightarrow> int \<times> (byte \<times> byte \<times> byte \<times> u32) option" where
  "decode_numeric_sensor_data sensor_data =
     (let n = length sensor_data; data_size = sensor_data ! 2; p = drop 3 sensor_data;
          ok = (\<lambda>reading. (PLDM_SUCCESS,
            Some (sensor_data ! 0, sensor_data ! 1, data_size, reading))) in
      if n < 4 \<or> n > 7 then (PLDM_ERROR_INVALID_LENGTH, None)
      else if data_size = PLDM_DATA_SIZE_UINT8 \<or> data_size = PLDM_DATA_SIZE_SINT8 then
        (if n \<noteq> 4 then (PLDM_ERROR_INVALID_LENGTH, None) else ok (ucast (p ! 0)))
      else if data_size = PLDM_DATA_SIZE_UINT16 \<or> data_size = PLDM_DATA_SIZE_SINT16 then
        (if n \<noteq> 5 then (PLDM_ERROR_INVALID_LENGTH, None) else ok (be16 p))
      else if data_size = PLDM_DATA_SIZE_UINT32 \<or> data_size = PLDM_DATA_SIZE_SINT32 then
        (if n \<noteq> 7 then (PLDM_ERROR_INVALID_LENGTH, None) else ok (be32 p))
      else (PLDM_ERROR_INVALID_DATA, None))"

section \<open>Changes of a PDR repository\<close>

text \<open>\<open>n\<close> change records from the arrays of operations, of numbers of entries and of entries.\<close>

fun change_records_bytes :: "nat \<Rightarrow> byte list \<Rightarrow> byte list \<Rightarrow> u32 list list \<Rightarrow> byte list option" where
  "change_records_bytes 0 ops counts entries = Some []"
| "change_records_bytes (Suc n) (op # ops) (count # counts) (es # entries) =
     (if length es < unat count then None
      else map_option (\<lambda>rest. [op, count] @ concat (map enc32 (take (unat count) es)) @ rest)
        (change_records_bytes n ops counts entries))"
| "change_records_bytes (Suc n) ops counts entries = None"

text \<open>\<open>max\_size\<close> is \<open>None\<close> when there is no event data to write: only the size is computed.\<close>

definition encode_pldm_pdr_repository_chg_event_data :: "byte \<Rightarrow> byte \<Rightarrow> byte list \<Rightarrow> byte list
    \<Rightarrow> u32 list list \<Rightarrow> nat option \<Rightarrow> (int \<times> nat \<times> byte list option) option" where
  "encode_pldm_pdr_repository_chg_event_data format number ops counts entries max_size =
     (let n = unat number;
          expected_size = 2 + n + n + sum_list (map (\<lambda>c. 4 * unat c) (take n counts)) in
      if length counts < n then None
      else case max_size of
        None \<Rightarrow> Some (PLDM_SUCCESS, expected_size, None)
      | Some sz \<Rightarrow>
          if sz < expected_size then Some (PLDM_ERROR_INVALID_LENGTH, expected_size, None)
          else map_option (\<lambda>recs. (PLDM_SUCCESS, expected_size, Some ([format, number] @ recs)))
            (change_records_bytes n ops counts entries))"

definition decode_pldm_pdr_repository_chg_event_data ::
    "byte list \<Rightarrow> int \<times> (byte \<times> byte \<times> nat) option" where
  "decode_pldm_pdr_repository_chg_event_data event_data =
     (if length event_data < 2 then (PLDM_ERROR_INVALID_LENGTH, None)
      else (PLDM_SUCCESS, Some (event_data ! 0, event_data ! 1, 2)))"

definition decode_pldm_pdr_repository_change_record_data ::
    "byte list \<Rightarrow> int \<times> (byte \<times> byte \<times> nat) option" where
  "decode_pldm_pdr_repository_change_record_data data =
     (if length data < 2 then (PLDM_ERROR_INVALID_LENGTH, None)
      else (PLDM_SUCCESS, Some (data ! 0, data ! 1, 2)))"

section \<open>Thresholds and hysteresis\<close>

definition decode_set_sensor_threshold_resp :: "byte list \<Rightarrow> (int \<times> byte) option" where
  "decode_set_sensor_threshold_resp msg = do {
     cc \<leftarrow> payload_at msg 0;
     Some (if cc \<noteq> 0 then (PLDM_SUCCESS, cc)
           else if length msg - 3 > 1 then (PLDM_ERROR_INVALID_LENGTH, cc)
           else (PLDM_SUCCESS, cc)) }"

definition encode_set_sensor_threshold_req :: "byte \<Rightarrow> u16 \<Rightarrow> byte \<Rightarrow> byte list
    \<Rightarrow> (int + byte list) option" where
  "encode_set_sensor_threshold_req instance_id sensor_id data_size thresholds =
     (if data_size > PLDM_DATA_SIZE_SINT32 then Some (Inl PLDM_ERROR_INVALID_DATA)
      else case platform_header instance_id PLDM_SET_SENSOR_THRESHOLD PLDM_REQUEST of
        Inl rc \<Rightarrow> Some (Inl rc)
      | Inr hdr \<Rightarrow> map_option (\<lambda>v. Inr (hdr @ enc16 sensor_id @ [data_size] @ v))
          (memory thresholds 0 (value_width data_size * 6)))"

definition encode_get_sensor_threshold_req :: "byte \<Rightarrow> u16 \<Rightarrow> int + byte list" where
  "encode_get_sensor_threshold_req instance_id sensor_id =
     with_payload (platform_header instance_id PLDM_GET_SENSOR_THRESHOLD PLDM_REQUEST)
       (enc16 sensor_id)"

definition decode_get_sensor_threshold_resp ::
    "byte list \<Rightarrow> (int \<times> byte \<times> (byte \<times> byte list) option) option" where
  "decode_get_sensor_threshold_resp msg = do {
     cc \<leftarrow> payload_at msg 0;
     if cc \<noteq> 0 then Some (PLDM_SUCCESS, cc, None)
     else if length msg - 3 < 8 then Some (PLDM_ERROR_INVALID_LENGTH, cc, None)
     else do {
       data_size \<leftarrow> payload_at msg 1;
       (let k = value_width data_size
        in if data_size > PLDM_DATA_SIZE_SINT32 then Some (PLDM_ERROR_INVALID_DATA, cc, None)
           else if length msg - 3 \<noteq> 8 + (6 * k - 6) then Some (PLDM_ERROR_INVALID_LENGTH, cc, None)
           else map_option (\<lambda>v. (PLDM_SUCCESS, cc, Some (data_size, v)))
                  (payload_bytes msg 2 (k * 6))) } }"

definition decode_set_sensor_hysteresis_resp :: "byte list \<Rightarrow> (int \<times> byte) option" where
  "decode_set_sensor_hysteresis_resp msg = do {
     cc \<leftarrow> payload_at msg 0;
     Some (if cc \<noteq> 0 then (PLDM_SUCCESS, cc)
           else if length msg - 3 > 1 then (PLDM_ERROR_INVALID_LENGTH, cc)
           else (PLDM_SUCCESS, cc)) }"

definition encode_set_sensor_hysteresis_req :: "byte \<Rightarrow> u16 \<Rightarrow> byte \<Rightarrow> byte list
    \<Rightarrow> (int + byte list) option" where
  "encode_set_sensor_hysteresis_req instance_id sensor_id data_size hysteresis =
     (if data_size > PLDM_DATA_SIZE_SINT32 then Some (Inl PLDM_ERROR_INVALID_DATA)
      else case platform_header instance_id PLDM_SET_SENSOR_HYSTERESIS PLDM_REQUEST of
        Inl rc \<Rightarrow> Some (Inl rc)
      | Inr hdr \<Rightarrow> map_option (\<lambda>v. Inr (hdr @ enc16 sensor_id @ [data_size] @ v))
          (memory hysteresis 0 (value_width data_size)))"

definition encode_get_sensor_hysteresis_req :: "byte \<Rightarrow> u16 \<Rightarrow> int + byte list" where
  "encode_get_sensor_hysteresis_req instance_id sensor_id =
     with_payload (platform_header instance_id PLDM_GET_SENSOR_HYSTERESIS PLDM_REQUEST)
       (enc16 sensor_id)"

text \<open>For a value of four bytes the decoder expects a payload of five, and copies four from the
  offset 2.\<close>

definition decode_get_sensor_hysteresis_resp ::
    "byte list \<Rightarrow> (int \<times> byte \<times> (byte \<times> byte list) option) option" where
  "decode_get_sensor_hysteresis_resp msg = do {
     cc \<leftarrow> payload_at msg 0;
     if cc \<noteq> 0 then Some (PLDM_SUCCESS, cc, None)
     else if length msg - 3 < 3 then Some (PLDM_ERROR_INVALID_LENGTH, cc, None)
     else do {
       data_size \<leftarrow> payload_at msg 1;
       (let k = value_width data_size
        in if data_size > PLDM_DATA_SIZE_SINT32 then Some (PLDM_ERROR_INVALID_DATA, cc, None)
           else if length msg - 3 \<noteq> (if k = 1 then 3 else if k = 2 then 3 + 1 else 3 + 2)
           then Some (PLDM_ERROR_INVALID_LENGTH, cc, None)
           else map_option (\<lambda>v. (PLDM_SUCCESS, cc, Some (data_size, v))) (payload_bytes msg 2 k)) } }"

section \<open>GetSensorReading\<close>

text \<open>The fields of an answer before the present reading.\<close>

record sensor_reading =
  sr_data_size :: byte
  sr_operational_state :: byte
  sr_event_message_enable :: byte
  sr_present_state :: byte
  sr_previous_state :: byte
  sr_event_state :: byte

definition encode_get_sensor_reading_req :: "byte \<Rightarrow> u16 \<Rightarrow> byte \<Rightarrow> int + byte list" where
  "encode_get_sensor_reading_req instance_id sensor_id rearm_event_state =
     with_payload (platform_header instance_id PLDM_GET_SENSOR_READING PLDM_REQUEST)
       (enc16 sensor_id @ [rearm_event_state])"

text \<open>\<open>largest\<close> is the greatest data size that the caller accepts.\<close>

definition decode_get_sensor_reading_resp :: "byte list \<Rightarrow> byte
    \<Rightarrow> (int \<times> byte \<times> (sensor_reading \<times> byte list) option) option" where
  "decode_get_sensor_reading_resp msg largest = do {
     cc \<leftarrow> payload_at msg 0;
     if cc \<noteq> 0 then Some (PLDM_SUCCESS, cc, None)
     else if length msg - 3 < 8 then Some (PLDM_ERROR_INVALID_LENGTH, cc, None)
     else do {
       data_size \<leftarrow> payload_at msg 1;
       (let k = value_width data_size
        in if data_size > PLDM_DATA_SIZE_SINT32 then Some (PLDM_ERROR_INVALID_DATA, cc, None)
           else if data_size > largest then Some (PLDM_ERROR_INVALID_LENGTH, cc, None)
           else do {
             operational_state \<leftarrow> payload_at msg 2;
             event_message_enable \<leftarrow> payload_at msg 3;
             present_state \<leftarrow> payload_at msg 4;
             previous_state \<leftarrow> payload_at msg 5;
             event_state \<leftarrow> payload_at msg 6;
             if length msg - 3 \<noteq> 8 + (k - 1) then Some (PLDM_ERROR_INVALID_LENGTH, cc, None)
             else do {
               present_reading \<leftarrow> payload_bytes msg 7 k;
               Some (PLDM_SUCCESS, cc, Some (\<lparr> sr_data_size = data_size,
                 sr_operational_state = operational_state,
                 sr_event_message_enable = event_message_enable,
                 sr_present_state = present_state, sr_previous_state = previous_state,
                 sr_event_state = event_state \<rparr>, present_reading)) } }) } }"

definition encode_get_sensor_reading_resp :: "byte \<Rightarrow> byte \<Rightarrow> sensor_reading \<Rightarrow> byte list \<Rightarrow> nat
    \<Rightarrow> (int + byte list) option" where
  "encode_get_sensor_reading_resp instance_id cc r present_reading payload_length =
     (if sr_data_size r > PLDM_DATA_SIZE_SINT32 then Some (Inl PLDM_ERROR_INVALID_DATA)
      else case platform_header instance_id PLDM_GET_SENSOR_READING PLDM_RESPONSE of
        Inl rc \<Rightarrow> Some (Inl rc)
      | Inr hdr \<Rightarrow>
          if payload_length \<noteq> 8 + (value_width (sr_data_size r) - 1)
          then Some (Inl PLDM_ERROR_INVALID_LENGTH)
          else map_option (\<lambda>v. Inr (hdr @ [cc, sr_data_size r, sr_operational_state r,
              sr_event_message_enable r, sr_present_state r, sr_previous_state r,
              sr_event_state r] @ v))
            (memory present_reading 0 (value_width (sr_data_size r))))"

text \<open>The decoder of the responder wants one byte more than the encoder writes.\<close>

definition decode_get_sensor_reading_req :: "byte list \<Rightarrow> int \<times> (u16 \<times> byte) option" where
  "decode_get_sensor_reading_req msg =
     (if length msg - 3 \<noteq> 4 then (PLDM_ERROR_INVALID_LENGTH, None)
      else (PLDM_SUCCESS, Some (read16 msg 3, msg ! 5)))"

section \<open>GetPDRRepositoryInfo\<close>

record pdr_repository_info =
  pi_repository_state :: byte
  pi_update_time :: "byte list"
  pi_oem_update_time :: "byte list"
  pi_record_count :: u32
  pi_repository_size :: u32
  pi_largest_record_size :: u32
  pi_data_transfer_handle_timeout :: byte

definition encode_get_pdr_repository_info_req :: "byte \<Rightarrow> int + byte list" where
  "encode_get_pdr_repository_info_req instance_id =
     encode_header_only_request instance_id PLDM_PLATFORM PLDM_GET_PDR_REPOSITORY_INFO"

definition decode_get_pdr_repository_info_resp ::
    "byte list \<Rightarrow> (int \<times> byte \<times> pdr_repository_info option) option" where
  "decode_get_pdr_repository_info_resp msg = do {
     cc \<leftarrow> payload_at msg 0;
     if cc \<noteq> 0 then Some (PLDM_SUCCESS, cc, None)
     else if length msg - 3 \<noteq> 41 then Some (PLDM_ERROR_INVALID_LENGTH, cc, None)
     else do {
       info \<leftarrow> payload_bytes msg 1 40;
       Some (if info ! 0 \<notin> {0, 1, 2} then (PLDM_ERROR_INVALID_DATA, cc, None)
             else (PLDM_SUCCESS, cc, Some \<lparr> pi_repository_state = info ! 0,
                     pi_update_time = take 13 (drop 1 info),
                     pi_oem_update_time = take 13 (drop 14 info),
                     pi_record_count = read32 info 27, pi_repository_size = read32 info 31,
                     pi_largest_record_size = read32 info 35,
                     pi_data_transfer_handle_timeout = info ! 39 \<rparr>)) } }"

section \<open>Enabling sensors and effecters\<close>

definition decode_set_state_sensor_enable_resp ::
    "byte list \<Rightarrow> (int \<times> byte \<times> (byte \<times> byte) option) option" where
  "decode_set_state_sensor_enable_resp msg = do {
     cc \<leftarrow> payload_at msg 0;
     if cc \<noteq> 0 then Some (PLDM_SUCCESS, cc, None)
     else if length msg - 3 > 3 then Some (PLDM_ERROR_INVALID_LENGTH, cc, None)
     else do {
       state \<leftarrow> payload_at msg 1;
       enable \<leftarrow> payload_at msg 2;
       Some (PLDM_SUCCESS, cc, Some (state, enable)) } }"

definition decode_set_numeric_sensor_enable_resp :: "byte list \<Rightarrow> (int \<times> byte) option" where
  "decode_set_numeric_sensor_enable_resp msg = do {
     cc \<leftarrow> payload_at msg 0;
     Some (if cc \<noteq> 0 then (PLDM_SUCCESS, cc)
           else if length msg - 3 > 1 then (PLDM_ERROR_INVALID_LENGTH, cc)
           else (PLDM_SUCCESS, cc)) }"

definition encode_set_numeric_sensor_enable_req :: "byte \<Rightarrow> u16 \<Rightarrow> byte \<Rightarrow> byte
    \<Rightarrow> int + byte list" where
  "encode_set_numeric_sensor_enable_req instance_id sensor_id operational_state
      event_message_enable =
     (if event_message_enable > PLDM_STATE_EVENTS_ONLY_ENABLED
        \<or> operational_state > PLDM_SENSOR_UNAVAILABLE then Inl PLDM_ERROR_INVALID_DATA
      else with_payload (platform_header instance_id PLDM_SET_NUMERIC_SENSOR_ENABLE PLDM_REQUEST)
        (enc16 sensor_id @ [operational_state, event_message_enable]))"

record state_sensor_op_field =
  so_operational_state :: byte
  so_event_message_enable :: byte

record state_effecter_op_field =
  eo_operational_state :: byte
  eo_event_message_enable :: byte

definition is_state_sensor_op_field_valid :: "byte \<Rightarrow> byte \<Rightarrow> bool" where
  "is_state_sensor_op_field_valid operational_state event_message_enable \<longleftrightarrow>
     \<not> (event_message_enable > PLDM_ENABLE_EVENTS \<and> event_message_enable \<noteq> PLDM_NO_CHANGE_EVENTS
        \<or> operational_state > PLDM_SENSOR_UNAVAILABLE)"

definition is_state_effecter_op_field_valid :: "byte \<Rightarrow> byte \<Rightarrow> bool" where
  "is_state_effecter_op_field_valid event_message_enable operational_state \<longleftrightarrow>
     \<not> (event_message_enable > PLDM_DISABLE_EVENTS \<and> event_message_enable \<noteq> PLDM_NO_CHANGE_EVENTS
        \<or> operational_state > EFFECTER_OPER_STATE_INTEST)"

text \<open>The loop over \<open>n\<close> fields: it stops at the first one that is not valid.\<close>

fun op_fields_bytes :: "('f \<Rightarrow> bool) \<Rightarrow> ('f \<Rightarrow> byte list) \<Rightarrow> nat \<Rightarrow> 'f list
    \<Rightarrow> (int + byte list) option" where
  "op_fields_bytes valid bytes 0 fs = Some (Inr [])"
| "op_fields_bytes valid bytes (Suc n) [] = None"
| "op_fields_bytes valid bytes (Suc n) (f # fs) =
     (if \<not> valid f then Some (Inl PLDM_ERROR_INVALID_DATA)
      else map_option (map_sum id ((@) (bytes f))) (op_fields_bytes valid bytes n fs))"

definition encode_set_state_sensor_enable_req :: "byte \<Rightarrow> u16 \<Rightarrow> byte
    \<Rightarrow> state_sensor_op_field list \<Rightarrow> (int + byte list) option" where
  "encode_set_state_sensor_enable_req instance_id sensor_id composite_sensor_count op_fields =
     (if composite_sensor_count < 1 \<or> composite_sensor_count > 8
      then Some (Inl PLDM_ERROR_INVALID_DATA)
      else case platform_header instance_id PLDM_SET_STATE_SENSOR_ENABLE PLDM_REQUEST of
        Inl rc \<Rightarrow> Some (Inl rc)
      | Inr hdr \<Rightarrow>
          map_option (map_sum id (\<lambda>v. hdr @ enc16 sensor_id @ [composite_sensor_count] @ v))
            (op_fields_bytes
               (\<lambda>f. is_state_sensor_op_field_valid (so_operational_state f)
                  (so_event_message_enable f))
               (\<lambda>f. [so_operational_state f, so_event_message_enable f])
               (unat composite_sensor_count) op_fields))"

definition encode_set_numeric_effecter_enable_req :: "byte \<Rightarrow> u16 \<Rightarrow> byte \<Rightarrow> int + byte list" where
  "encode_set_numeric_effecter_enable_req instance_id effecter_id operational_state =
     (if operational_state > PLDM_SENSOR_UNAVAILABLE then Inl PLDM_ERROR_INVALID_DATA
      else with_payload
        (platform_header instance_id PLDM_SET_NUMERIC_EFFECTER_ENABLE PLDM_REQUEST)
        (enc16 effecter_id @ [operational_state]))"

definition encode_set_state_effecter_enable_req :: "byte \<Rightarrow> u16 \<Rightarrow> byte
    \<Rightarrow> state_effecter_op_field list \<Rightarrow> (int + byte list) option" where
  "encode_set_state_effecter_enable_req instance_id effecter_id composite_effecter_count op_fields =
     (if composite_effecter_count < 1 \<or> composite_effecter_count > 8
      then Some (Inl PLDM_ERROR_INVALID_DATA)
      else case platform_header instance_id PLDM_SET_STATE_EFFECTER_ENABLE PLDM_REQUEST of
        Inl rc \<Rightarrow> Some (Inl rc)
      | Inr hdr \<Rightarrow>
          map_option (map_sum id (\<lambda>v. hdr @ enc16 effecter_id @ [composite_effecter_count] @ v))
            (op_fields_bytes
               (\<lambda>f. is_state_effecter_op_field_valid (eo_event_message_enable f)
                  (eo_operational_state f))
               (\<lambda>f. [eo_operational_state f, eo_event_message_enable f])
               (unat composite_effecter_count) op_fields))"

end
