(* ===== verification/Platform_Props.thy ===== *)
theory Platform_Props
  imports Platform_Codec
begin

unbundle bit_operations_syntax

text \<open>
  The decoders of platform monitoring and control invert the encoders, and which of them keep to
  the bytes of the message.
\<close>

section \<open>Encoded messages\<close>

lemma platform_req: "i < 32 \<Longrightarrow> platform_header i c PLDM_REQUEST = Inr [0x80 OR i, 2, c]"
  by (simp add: packed_header is_msg_type_def PLDM_PLATFORM_def PLDM_REQUEST_def PLDM_RESPONSE_def
      PLDM_ASYNC_REQUEST_NOTIFY_def)

lemma platform_resp: "i < 32 \<Longrightarrow> platform_header i c PLDM_RESPONSE = Inr [i, 2, c]"
  by (simp add: packed_header is_msg_type_def PLDM_PLATFORM_def)

lemma value_width_pos [simp]: "0 < value_width sz" "value_width sz \<le> 4"
  by (auto simp: value_width_def)

lemma value_width_ge [simp]: "Suc 0 \<le> value_width sz"
  by (auto simp: value_width_def)

lemma two_values_ge [simp]: "\<not> 2 * value_width sz < Suc (Suc 0)"
  using value_width_ge [of sz] by linarith

lemma memory_Some: "memory bs i n = Some v \<longleftrightarrow> i + n \<le> length bs \<and> v = take n (drop i bs)"
  by (auto simp: memory_def)

lemma set_fields_of_bytes:
  "set_fields_of (concat (map (\<lambda>f. [set_request f, effecter_state f]) fs)) = fs"
  by (induction fs) auto

lemma sensor_fields_of_bytes: "sensor_fields_of (concat (map sensor_field_bytes fs)) = fs"
  by (induction fs) (auto simp: sensor_field_bytes_def)

lemma length_set_fields:
  "length (concat (map (\<lambda>f. [set_request f, effecter_state f]) fs)) = 2 * length fs"
  by (induction fs) auto

lemma length_sensor_fields: "length (concat (map sensor_field_bytes fs)) = 4 * length fs"
  by (induction fs) (auto simp: sensor_field_bytes_def)

lemma payload_at_skip: "payload_at (a # b # c # bs) n = (if n < length bs then Some (bs ! n) else None)"
  by (simp add: payload_at_def)

lemma payload_bytes_skip: "payload_bytes (a # b # c # bs) n k = memory bs n k"
  by (simp add: payload_bytes_def memory_def numeral_3_eq_3)

lemma set_states_roundtrip:
  assumes "i < 32" "encode_set_state_effecter_states_req i e n fs = Some (Inr msg)"
  shows "decode_set_state_effecter_states_req msg
    = Some (PLDM_SUCCESS, Some (e, n, take (unat n) fs))"
proof -
  let ?bs = "concat (map (\<lambda>f. [set_request f, effecter_state f]) (take (unat n) fs))"
  from assms have n: "\<not> 8 < n" "unat n \<le> length fs"
    and msg: "msg = [0x80 OR i, 2, PLDM_SET_STATE_EFFECTER_STATES] @ enc16 e @ [n] @ ?bs"
    by (auto simp: encode_set_state_effecter_states_req_def platform_req split: if_splits)
  then have len: "length ?bs = 2 * unat n" "unat n \<le> 8"
    by (auto simp: length_set_fields word_less_nat_alt)
  then show ?thesis
    by (simp add: msg decode_set_state_effecter_states_req_def payload_at_skip payload_bytes_skip
        memory_def read_enc nth_append set_fields_of_bytes)
qed

lemma readings_roundtrip:
  assumes "i < 32" "encode_get_state_sensor_readings_resp i 0 n fs = Some (Inr msg)" "n \<le> capacity"
  shows "decode_get_state_sensor_readings_resp msg capacity
    = Some (PLDM_SUCCESS, 0, Some (n, take (unat n) fs))"
proof -
  let ?bs = "concat (map sensor_field_bytes (take (unat n) fs))"
  from assms have n: "\<not> n < 1" "\<not> 8 < n" "unat n \<le> length fs"
    and msg: "msg = [i, 2, PLDM_GET_STATE_SENSOR_READINGS] @ [0, n] @ ?bs"
    by (auto simp: encode_get_state_sensor_readings_resp_def platform_resp split: if_splits)
  then have len: "length ?bs = 4 * unat n" by (auto simp: length_sensor_fields)
  from assms(3) have "unat n \<le> unat capacity" "\<not> capacity < n" by (auto simp: word_le_nat_alt word_less_nat_alt)
  with n len show ?thesis
    by (simp add: msg decode_get_state_sensor_readings_resp_def payload_at_skip payload_bytes_skip
        memory_def sensor_fields_of_bytes)
qed

lemma get_pdr_req_roundtrip:
  assumes "i < 32" "encode_get_pdr_req i r n = Inr msg"
  shows "decode_get_pdr_req msg = (PLDM_SUCCESS, Some r)"
  using assms
  by (auto simp: encode_get_pdr_req_def decode_get_pdr_req_def platform_req read_enc nth_append
      split: if_splits)

lemma get_pdr_resp_roundtrip:
  assumes "i < 32" "encode_get_pdr_resp i 0 r (Some data) crc = Some (Inr msg)"
    "unat (gr_response_count r) \<le> capacity"
  shows "decode_get_pdr_resp msg (Some capacity) = Some (PLDM_SUCCESS, 0,
    Some (r, if 0 < unat (gr_response_count r) then Some (take (unat (gr_response_count r)) data) else None,
      if gr_transfer_flag r = PLDM_END then Some crc else None))"
proof -
  let ?k = "unat (gr_response_count r)"
  let ?tail = "if gr_transfer_flag r = PLDM_END then [crc] else []"
  let ?fields = "take 11 (drop 4 msg)"
  from assms have k: "?k \<le> length data"
    and msg: "msg = [i, 2, PLDM_GET_PDR] @ [0] @ enc32 (gr_next_record_handle r)
      @ enc32 (gr_next_data_transfer_handle r) @ [gr_transfer_flag r]
      @ enc16 (gr_response_count r) @ take ?k data @ ?tail"
    by (auto simp: encode_get_pdr_resp_def platform_resp memory_def split: bind_splits if_splits)
  have fields: "?fields = enc32 (gr_next_record_handle r)
      @ enc32 (gr_next_data_transfer_handle r) @ [gr_transfer_flag r]
      @ enc16 (gr_response_count r)"
    by (simp add: msg)
  have reads: "read32 ?fields 0 = gr_next_record_handle r" "?fields ! 8 = gr_transfer_flag r"
    "read32 ?fields 4 = gr_next_data_transfer_handle r" "read16 ?fields 9 = gr_response_count r"
    "msg ! 3 = 0" "drop 15 msg = take ?k data @ ?tail"
    using k by (simp_all add: fields read_enc nth_append) (simp_all add: msg nth_append)
  have len: "length msg = 15 + ?k + length ?tail" using k by (simp add: msg)
  have "msg ! (15 + ?k) = crc" if "gr_transfer_flag r = PLDM_END"
    using that k by (simp add: msg nth_append)
  with reads len assms(3) show ?thesis
    by (auto simp: decode_get_pdr_resp_def payload_at_def payload_bytes_def memory_def min_absorb1 k)
qed

lemma set_numeric_roundtrip:
  assumes "i < 32" "encode_set_numeric_effecter_value_req i e sz v n = Some (Inr msg)"
  shows "decode_set_numeric_effecter_value_req msg = (PLDM_SUCCESS, Some (e, sz, take (value_width sz) v))"
  using assms
  by (auto simp: encode_set_numeric_effecter_value_req_def decode_set_numeric_effecter_value_req_def
      platform_req memory_Some read_enc nth_append min_absorb1 split: if_splits)

lemma get_numeric_roundtrip:
  assumes "i < 32" "encode_get_numeric_effecter_value_resp i 0 sz st p q n = Some (Inr msg)"
  shows "decode_get_numeric_effecter_value_resp msg
    = Some (PLDM_SUCCESS, 0, Some (sz, st, take (value_width sz) p, take (value_width sz) q))"
proof -
  let ?k = "value_width sz"
  from assms have ok: "\<not> PLDM_DATA_SIZE_SINT32 < sz" "\<not> EFFECTER_OPER_STATE_INTEST < st"
    and k: "?k \<le> length p" "?k \<le> length q"
    and msg: "msg = [i, 2, PLDM_GET_NUMERIC_EFFECTER_VALUE] @ [0, sz, st] @ take ?k p @ take ?k q"
    by (auto simp: encode_get_numeric_effecter_value_resp_def platform_resp memory_Some
        split: if_splits bind_splits)
  have "drop (6 + ?k) msg = drop ?k (drop 6 msg)" by (simp add: add.commute)
  moreover have "length msg = 6 + 2 * ?k" "msg ! 3 = 0" "msg ! 4 = sz" "msg ! 5 = st"
    "take ?k (drop 6 msg) = take ?k p" "take ?k (drop ?k (drop 6 msg)) = take ?k q"
    using k by (simp_all only: msg) simp_all
  ultimately show ?thesis using ok
    by (simp add: decode_get_numeric_effecter_value_resp_def payload_at_def payload_bytes_def
        memory_def Let_def)
qed

lemma sensor_reading_roundtrip:
  assumes "i < 32" "encode_get_sensor_reading_resp i 0 r v n = Some (Inr msg)"
    "sr_data_size r \<le> largest"
  shows "decode_get_sensor_reading_resp msg largest
    = Some (PLDM_SUCCESS, 0, Some (r, take (value_width (sr_data_size r)) v))"
proof -
  let ?k = "value_width (sr_data_size r)"
  from assms(1,2) have ok: "\<not> PLDM_DATA_SIZE_SINT32 < sr_data_size r" and k: "?k \<le> length v"
    and msg: "msg = [i, 2, PLDM_GET_SENSOR_READING] @ [0, sr_data_size r, sr_operational_state r,
        sr_event_message_enable r, sr_present_state r, sr_previous_state r, sr_event_state r]
      @ take ?k v"
    by (auto simp: encode_get_sensor_reading_resp_def platform_resp memory_Some split: if_splits)
  have "length msg = 10 + ?k" "msg ! 3 = 0" "msg ! 4 = sr_data_size r"
    "msg ! 5 = sr_operational_state r" "msg ! 6 = sr_event_message_enable r"
    "msg ! 7 = sr_present_state r" "msg ! 8 = sr_previous_state r" "msg ! 9 = sr_event_state r"
    "take ?k (drop 10 msg) = take ?k v"
    using k by (simp_all add: msg)
  moreover have "1 \<le> ?k" "\<not> largest < sr_data_size r" using assms(3) by auto
  ultimately show ?thesis using ok
    by (simp add: decode_get_sensor_reading_resp_def payload_at_def payload_bytes_def memory_def Let_def)
qed

lemma numeric_request_roundtrip:
  "i < 32 \<Longrightarrow> encode_get_numeric_effecter_value_req i e = Inr msg
    \<Longrightarrow> decode_get_numeric_effecter_value_req msg = (PLDM_SUCCESS, Some e)"
  by (auto simp: encode_get_numeric_effecter_value_req_def decode_get_numeric_effecter_value_req_def
      platform_req read_enc)

lemma readings_request_roundtrip:
  "i < 32 \<Longrightarrow> encode_get_state_sensor_readings_req i e a b = Inr msg
    \<Longrightarrow> decode_get_state_sensor_readings_req msg = (PLDM_SUCCESS, Some (e, a, b))"
  by (auto simp: encode_get_state_sensor_readings_req_def decode_get_state_sensor_readings_req_def
      platform_req read_enc nth_append)

lemma event_roundtrip:
  assumes "i < 32" "encode_platform_event_message_req i v t c data n l = Some (Inr msg)"
  shows "decode_platform_event_message_req msg = (PLDM_SUCCESS, Some (v, t, c, 3))
    \<and> drop 3 (drop 3 msg) = take n data"
  using assms
  by (auto simp: encode_platform_event_message_req_def decode_platform_event_message_req_def
      platform_req memory_Some min_absorb1 split: if_splits)

lemmas event_data_roundtrip = event_roundtrip [THEN conjunct2, unfolded drop_drop, simplified]

text \<open>C33: What is decoded from an encoded platform message is what was encoded: the GetPDR request
  and a part of a record with its checksum, the requests to set and get a numeric effecter and its
  two values, a sensor reading, the readings of a composite state sensor, the states to set of a
  composite effecter, and an event with its data. The caller must have room for what is decoded.\<close>

theorem platform_messages_roundtrip:
  assumes "i < 32"
  shows "(\<forall>r n msg. encode_get_pdr_req i r n = Inr msg
        \<longrightarrow> decode_get_pdr_req msg = (PLDM_SUCCESS, Some r))
    \<and> (\<forall>r data crc msg k. encode_get_pdr_resp i 0 r (Some data) crc = Some (Inr msg)
          \<and> k = unat (gr_response_count r) \<and> k \<le> capacity
        \<longrightarrow> decode_get_pdr_resp msg (Some capacity) = Some (PLDM_SUCCESS, 0,
          Some (r, if 0 < k then Some (take k data) else None,
            if gr_transfer_flag r = PLDM_END then Some crc else None)))
    \<and> (\<forall>e sz v n msg. encode_set_numeric_effecter_value_req i e sz v n = Some (Inr msg)
        \<longrightarrow> decode_set_numeric_effecter_value_req msg
          = (PLDM_SUCCESS, Some (e, sz, take (value_width sz) v)))
    \<and> (\<forall>sz st p q n msg.
          encode_get_numeric_effecter_value_resp i 0 sz st p q n = Some (Inr msg)
        \<longrightarrow> decode_get_numeric_effecter_value_resp msg = Some (PLDM_SUCCESS, 0,
          Some (sz, st, take (value_width sz) p, take (value_width sz) q)))
    \<and> (\<forall>r v n msg. encode_get_sensor_reading_resp i 0 r v n = Some (Inr msg)
          \<and> sr_data_size r \<le> largest
        \<longrightarrow> decode_get_sensor_reading_resp msg largest
          = Some (PLDM_SUCCESS, 0, Some (r, take (value_width (sr_data_size r)) v)))
    \<and> (\<forall>n fs msg. encode_get_state_sensor_readings_resp i 0 n fs = Some (Inr msg) \<and> n \<le> room
        \<longrightarrow> decode_get_state_sensor_readings_resp msg room
          = Some (PLDM_SUCCESS, 0, Some (n, take (unat n) fs)))
    \<and> (\<forall>e n fs msg. encode_set_state_effecter_states_req i e n fs = Some (Inr msg)
        \<longrightarrow> decode_set_state_effecter_states_req msg
          = Some (PLDM_SUCCESS, Some (e, n, take (unat n) fs)))
    \<and> (\<forall>v t c data n l msg. encode_platform_event_message_req i v t c data n l = Some (Inr msg)
        \<longrightarrow> decode_platform_event_message_req msg = (PLDM_SUCCESS, Some (v, t, c, 3))
          \<and> drop 6 msg = take n data)
    \<and> (\<forall>e msg. encode_get_numeric_effecter_value_req i e = Inr msg
        \<longrightarrow> decode_get_numeric_effecter_value_req msg = (PLDM_SUCCESS, Some e))"
  by (intro conjI allI impI; (elim conjE)?; (hypsubst)?;
      (rule get_pdr_req_roundtrip [OF assms] get_pdr_resp_roundtrip [OF assms]
         set_numeric_roundtrip [OF assms] get_numeric_roundtrip [OF assms]
         sensor_reading_roundtrip [OF assms] readings_roundtrip [OF assms]
         set_states_roundtrip [OF assms] event_roundtrip [OF assms, THEN conjunct1]
         event_data_roundtrip [OF assms] numeric_request_roundtrip [OF assms]);
      assumption)

definition last_part :: get_pdr_resp where
  "last_part = \<lparr> gr_next_record_handle = 7, gr_next_data_transfer_handle = 0,
     gr_transfer_flag = PLDM_END, gr_response_count = 2 \<rparr>"

lemma last_part_encoded:
  "encode_get_pdr_resp 3 0 last_part (Some [9, 8]) 0x55
    = Some (Inr [3, 2, 0x51, 0, 7, 0, 0, 0, 0, 0, 0, 0, 4, 2, 0, 9, 8, 0x55])"
  by code_simp

theorem platform_messages_roundtrip_witness:
  "decode_get_pdr_resp [3, 2, 0x51, 0, 7, 0, 0, 0, 0, 0, 0, 0, 4, 2, 0, 9, 8, 0x55] (Some 2)
    = Some (PLDM_SUCCESS, 0, Some (last_part, Some [9, 8], Some 0x55))"
proof -
  let ?msg = "[3, 2, 0x51, 0, 7, 0, 0, 0, 0, 0, 0, 0, 4, 2, 0, 9, 8, 0x55]"
  have "(3::byte) < 32" by simp
  from platform_messages_roundtrip [OF this, of 2 0 0, THEN conjunct2, THEN conjunct1,
      THEN spec [where x = "last_part"], THEN spec [where x = "[9, 8]"], THEN spec [where x = "0x55"],
      THEN spec [where x = "?msg"], THEN spec [where x = "2"]]
  show ?thesis using last_part_encoded by (simp add: last_part_def)
qed

section \<open>Reads within a message\<close>

lemma get_pdr_resp_in_bounds:
  assumes "4 \<le> length msg"
  shows "decode_get_pdr_resp msg capacity \<noteq> None"
proof -
  have cc: "payload_at msg 0 = Some (msg ! 3)" using assms by (simp add: payload_at_def)
  have fields: "payload_bytes msg 1 11 = Some (take 11 (drop 4 msg))" if "\<not> length msg - 3 < 12"
    using that by (simp add: payload_bytes_def memory_def)
  have data: "\<exists>d. payload_bytes msg 12 k = Some d"
    if "length msg - 3 = 12 + k \<or> length msg - 3 = 12 + k + 1" for k
    using that by (auto simp: payload_bytes_def memory_def)
  have crc: "\<exists>c. payload_at msg (12 + k) = Some c" if "length msg - 3 = 12 + k + 1" for k
    using that by (simp add: payload_at_def)
  show ?thesis
    unfolding decode_get_pdr_resp_def cc Let_def
    using fields data [of "unat (read16 (take 11 (drop 4 msg)) 9)"]
      crc [of "unat (read16 (take 11 (drop 4 msg)) 9)"]
    by (simp split del: if_split) (auto split: option.splits)
qed

lemma get_numeric_in_bounds:
  assumes "4 \<le> length msg"
  shows "decode_get_numeric_effecter_value_resp msg \<noteq> None"
proof -
  let ?k = "value_width (msg ! 4)"
  have "payload_bytes msg 3 ?k \<noteq> None \<and> payload_bytes msg (3 + ?k) ?k \<noteq> None"
    if "length msg - 3 = 5 + (2 * ?k - 2)"
    using that value_width_ge [of "msg ! 4"]
    by (simp add: payload_bytes_def memory_def del: value_width_ge value_width_pos two_values_ge)
  with assms show ?thesis
    by (auto simp: decode_get_numeric_effecter_value_resp_def payload_at_def Let_def)
qed

lemma sensor_reading_in_bounds:
  assumes "4 \<le> length msg"
  shows "decode_get_sensor_reading_resp msg largest \<noteq> None"
proof -
  let ?k = "value_width (msg ! 4)"
  have "payload_bytes msg 7 ?k \<noteq> None" if "length msg - 3 = 8 + (?k - 1)"
    using that value_width_ge [of "msg ! 4"]
    by (simp add: payload_bytes_def memory_def del: value_width_ge value_width_pos two_values_ge)
  with assms show ?thesis
    by (auto simp: decode_get_sensor_reading_resp_def payload_at_def Let_def)
qed

lemma threshold_in_bounds: "4 \<le> length msg \<Longrightarrow> decode_get_sensor_threshold_resp msg \<noteq> None"
  by (auto simp: decode_get_sensor_threshold_resp_def payload_at_def payload_bytes_def memory_def
      value_width_def Let_def)

lemma repository_info_in_bounds: "4 \<le> length msg \<Longrightarrow> decode_get_pdr_repository_info_resp msg \<noteq> None"
  by (auto simp: decode_get_pdr_repository_info_resp_def payload_at_def payload_bytes_def memory_def)

lemma sensor_enable_in_bounds: "4 \<le> length msg
    \<Longrightarrow> decode_set_state_sensor_enable_resp msg = None \<longleftrightarrow> msg ! 3 = 0 \<and> length msg < 6"
  by (auto simp: decode_set_state_sensor_enable_resp_def payload_at_def)

text \<open>The values of the six data sizes.\<close>

lemma data_size_cases:
  assumes "\<not> PLDM_DATA_SIZE_SINT32 < sz"
  obtains "sz = PLDM_DATA_SIZE_UINT8" | "sz = PLDM_DATA_SIZE_SINT8" | "sz = PLDM_DATA_SIZE_UINT16"
  | "sz = PLDM_DATA_SIZE_SINT16" | "sz = PLDM_DATA_SIZE_UINT32" | "sz = PLDM_DATA_SIZE_SINT32"
proof -
  from assms have "unat sz \<in> {0, 1, 2, 3, 4, 5}" by (auto simp: data_sizes word_less_nat_alt)
  then have "sz \<in> {0, 1, 2, 3, 4, 5}" by (auto simp: word_unat_eq_iff)
  with that show thesis by (auto simp: data_sizes)
qed

lemma hysteresis_in_bounds:
  assumes "4 \<le> length msg"
  shows "decode_get_sensor_hysteresis_resp msg = None \<longleftrightarrow> msg ! 3 = 0 \<and> length msg = 8
    \<and> msg ! 4 \<in> {PLDM_DATA_SIZE_UINT32, PLDM_DATA_SIZE_SINT32}"
proof (cases "PLDM_DATA_SIZE_SINT32 < msg ! 4")
  case True
  then show ?thesis using assms
    by (auto simp: decode_get_sensor_hysteresis_resp_def payload_at_def Let_def data_sizes)
next
  case False
  from False show ?thesis
    by (rule data_size_cases)
      (use assms False in \<open>auto simp: decode_get_sensor_hysteresis_resp_def payload_at_def
        payload_bytes_def memory_def value_width_def Let_def data_sizes\<close>)
qed

lemma readings_in_bounds:
  assumes "4 \<le> length msg"
  shows "decode_get_state_sensor_readings_resp msg room = None \<longleftrightarrow>
         msg ! 3 = 0 \<and> length msg \<le> 5 + 4 * unat room
         \<and> (length msg = 4 \<or> 1 \<le> unat (msg ! 4) \<and> unat (msg ! 4) \<le> 8 \<and> msg ! 4 \<le> room
              \<and> length msg < 5 + 4 * unat (msg ! 4))"
proof (cases "length msg = 4")
  case True
  then show ?thesis
    by (simp add: decode_get_state_sensor_readings_resp_def payload_at_def)
next
  case False
  have "msg ! 4 < 1 \<or> 8 < msg ! 4 \<longleftrightarrow> \<not> (1 \<le> unat (msg ! 4) \<and> unat (msg ! 4) \<le> 8)"
    by (auto simp: word_less_nat_alt)
  with False assms show ?thesis
    by (simp add: decode_get_state_sensor_readings_resp_def payload_at_def payload_bytes_def
        memory_def not_less not_le) (auto simp: not_less)
qed

text \<open>C34: Given an answer with a payload, the decoders of GetPDR, GetNumericEffecterValue,
  GetSensorReading, GetSensorThreshold and GetPDRRepositoryInfo read no byte past it. Three
  decoders may: GetStateSensorReadings when fewer fields follow than are announced (or the number
  itself is missing), GetSensorHysteresis exactly on a payload of five bytes with a value of four,
  SetStateSensorEnables when one of the two bytes it returns is missing.\<close>

theorem platform_answers_are_read_within_bounds:
  assumes "4 \<le> length msg"
  shows "decode_get_pdr_resp msg capacity \<noteq> None
    \<and> decode_get_numeric_effecter_value_resp msg \<noteq> None
    \<and> decode_get_sensor_reading_resp msg largest \<noteq> None
    \<and> decode_get_sensor_threshold_resp msg \<noteq> None
    \<and> decode_get_pdr_repository_info_resp msg \<noteq> None
    \<and> (decode_get_state_sensor_readings_resp msg room = None \<longleftrightarrow>
         msg ! 3 = 0 \<and> length msg \<le> 5 + 4 * unat room
         \<and> (length msg = 4 \<or> 1 \<le> unat (msg ! 4) \<and> unat (msg ! 4) \<le> 8 \<and> msg ! 4 \<le> room
              \<and> length msg < 5 + 4 * unat (msg ! 4)))
    \<and> (decode_get_sensor_hysteresis_resp msg = None \<longleftrightarrow>
         msg ! 3 = 0 \<and> length msg = 8 \<and> msg ! 4 \<in> {PLDM_DATA_SIZE_UINT32, PLDM_DATA_SIZE_SINT32})
    \<and> (decode_set_state_sensor_enable_resp msg = None \<longleftrightarrow> msg ! 3 = 0 \<and> length msg < 6)"
  using get_pdr_resp_in_bounds [OF assms] get_numeric_in_bounds [OF assms]
    sensor_reading_in_bounds [OF assms] threshold_in_bounds [OF assms]
    repository_info_in_bounds [OF assms] readings_in_bounds [OF assms]
    hysteresis_in_bounds [OF assms] sensor_enable_in_bounds [OF assms]
  by (intro conjI) assumption+

theorem platform_answers_are_read_within_bounds_witness:
  "decode_get_sensor_hysteresis_resp [3, 2, 0x15, 0, 4, 1, 2, 3] = None
    \<and> decode_get_state_sensor_readings_resp [3, 2, 0x21, 0, 2, 0, 1, 1, 1] 2 = None"
  using platform_answers_are_read_within_bounds
      [of "[3, 2, 0x15, 0, 4, 1, 2, 3]" None 0 0]
    platform_answers_are_read_within_bounds [of "[3, 2, 0x21, 0, 2, 0, 1, 1, 1]" None 0 2]
  by (simp add: data_sizes)

section \<open>Where the two sides disagree\<close>

text \<open>The answer with a hysteresis of four bytes that follows the specification is refused.\<close>

lemma four_byte_hysteresis_is_refused:
  assumes "length v = 4"
  shows "decode_get_sensor_hysteresis_resp ([a, b, c] @ [0, PLDM_DATA_SIZE_UINT32] @ v)
    = Some (PLDM_ERROR_INVALID_LENGTH, 0, None)"
  using assms
  by (simp add: decode_get_sensor_hysteresis_resp_def payload_at_def value_width_def data_sizes)

text \<open>The request that the encoder writes is refused by the decoder of the responder.\<close>

lemma sensor_reading_request_is_refused:
  assumes "i < 32" "encode_get_sensor_reading_req i s r = Inr msg"
  shows "decode_get_sensor_reading_req msg = (PLDM_ERROR_INVALID_LENGTH, None)"
  using assms
  by (auto simp: encode_get_sensor_reading_req_def decode_get_sensor_reading_req_def platform_req)

text \<open>A reading of two bytes in an event is taken with its bytes exchanged.\<close>

lemma event_reading_is_swapped:
  "decode_numeric_sensor_data [e, p, PLDM_DATA_SIZE_UINT16, lo, hi]
    = (PLDM_SUCCESS, Some (e, p, PLDM_DATA_SIZE_UINT16, ucast hi OR push_bit 8 (ucast lo)))"
  by (simp add: decode_numeric_sensor_data_def be16_def data_sizes)

text \<open>The events of a state sensor cannot be disabled, those of a state effecter can.\<close>

lemma sensor_events_cannot_be_disabled:
  "\<not> is_state_sensor_op_field_valid st PLDM_DISABLE_EVENTS"
  "is_state_effecter_op_field_valid PLDM_DISABLE_EVENTS 0"
  by (simp_all add: is_state_sensor_op_field_valid_def is_state_effecter_op_field_valid_def
      platform_codes)

text \<open>The record of a state sensor has the size and the length that are announced.\<close>

lemma state_sensor_record_length:
  assumes "encode_state_sensor_pdr sensor n states k = Some (PLDM_SUCCESS, m, Some bs)"
  shows "length bs = m \<and> m \<le> n \<and> read16 bs 8 = word_of_nat (m - 10) \<and> bs ! 5 = PLDM_STATE_SENSOR_PDR"
  using assms
  by (auto simp: encode_state_sensor_pdr_def pdr_hdr_def subject_bytes_def memory_Some read_enc
      nth_append pldm_rcs Let_def split: bind_splits if_splits)

lemma state_effecter_record_length:
  assumes "encode_state_effecter_pdr effecter n states k = Some (PLDM_SUCCESS, m, Some bs)"
  shows "length bs = m \<and> m \<le> n \<and> read16 bs 8 = word_of_nat (m - 10) \<and> bs ! 5 = PLDM_STATE_EFFECTER_PDR"
  using assms
  by (auto simp: encode_state_effecter_pdr_def pdr_hdr_def subject_bytes_def memory_Some read_enc
      nth_append pldm_rcs Let_def split: bind_splits if_splits)

end
