(* ===== verification/Pdr_Fetch.thy ===== *)
theory Pdr_Fetch
  imports Platform_Codec Pldm_Crc "HOL-Library.Multiset"
begin

text \<open>
  How the PDR manager of a terminus fetches the records of the terminus
  (pldmd/src/pdr\_manager.cpp up to \<open>constructPDRRepo\<close>). A coroutine wait goes through the world
  as in the theory on messaging; the repository is a value. The records of a device are kept in an
  \<open>unordered\_map\<close>: \<open>devs\<close> lists its entries, and \<open>ord\<close> gives the order in which a loop visits them.
\<close>

section \<open>One record\<close>

definition maxPLDMMessageLen :: nat where "maxPLDMMessageLen = 64 - 1 - 3"

definition getPDRRepositoryInfo :: "'a pldm_scheme world \<Rightarrow> tid \<Rightarrow> 'a pldm_scheme
    \<Rightarrow> (pdr_repository_info option \<times> 'a pldm_scheme) option" where
  "getPDRRepositoryInfo w t s =
     (case createInstanceId_pldm t s of (i, s) \<Rightarrow>
        case encode_get_pdr_repository_info_req i of
          Inl rc \<Rightarrow> Some (None, s)
        | Inr req \<Rightarrow> do {
            (ok, resp, s) \<leftarrow> sendReceivePldmMessage w t 100 3 req [] None s;
            if \<not> ok then Some (None, s)
            else do {
              (rc, cc, info) \<leftarrow> decode_get_pdr_repository_info_resp resp;
              Some (if validatePLDMRespDecode rc (uint cc) then info else None, s) } })"

text \<open>The variables of a transfer in several parts.\<close>

record pdr_transfer =
  pt_next_record :: u32
  pt_op_flag :: byte
  pt_change_num :: u16
  pt_handle :: u32
  pt_complete :: bool
  pt_record :: "byte list"

definition start_transfer :: pdr_transfer where
  "start_transfer = \<lparr> pt_next_record = 0, pt_op_flag = PLDM_GET_FIRSTPART, pt_change_num = 0,
     pt_handle = 0, pt_complete = False, pt_record = [] \<rparr>"

text \<open>
  The answer is decoded twice, to learn the length of the data and to copy them. The change number
  is read from the record collected so far, whatever its length.
\<close>

definition handleGetPDRResp :: "byte list \<Rightarrow> pdr_transfer \<Rightarrow> (bool \<times> pdr_transfer) option" where
  "handleGetPDRResp resp tr = do {
     (rc, cc, out) \<leftarrow> decode_get_pdr_resp resp None;
     if \<not> validatePLDMRespDecode rc (uint cc) then Some (False, tr)
     else do {
       (r, _, _) \<leftarrow> out;
       (rc, cc, out) \<leftarrow> decode_get_pdr_resp resp (Some (unat (gr_response_count r)));
       if \<not> validatePLDMRespDecode rc (uint cc) then Some (False, tr)
       else do {
         (r, pdrData, transferCRC) \<leftarrow> out;
         (let flag = gr_transfer_flag r;
             rec = pt_record tr @ (case pdrData of None \<Rightarrow> [] | Some data \<Rightarrow> data);
             complete = (flag = PLDM_END \<or> flag = PLDM_START_AND_END);
             crc = (case transferCRC of None \<Rightarrow> 0 | Some c \<Rightarrow> c);
             tr = tr\<lparr>pt_next_record := gr_next_record_handle r,
                     pt_op_flag := (if complete then pt_op_flag tr else PLDM_GET_NEXTPART),
                     pt_change_num := (if flag = PLDM_START then read16 rec 6 else pt_change_num tr),
                     pt_handle := gr_next_data_transfer_handle r,
                     pt_complete := complete, pt_record := rec\<rparr>
          in if flag = PLDM_START \<and> length rec < 8 then None
             else Some (\<not> (flag = PLDM_END \<and> crc8 rec \<noteq> crc), tr)) } } }"

text \<open>The loop of \<open>getDevicePDRRecord\<close>: the number is the limit on the parts that is left.\<close>

fun record_loop :: "'a pldm_scheme world \<Rightarrow> tid \<Rightarrow> u32 \<Rightarrow> u32 \<Rightarrow> nat \<Rightarrow> pdr_transfer
    \<Rightarrow> 'a pldm_scheme \<Rightarrow> (bool \<times> pdr_transfer \<times> 'a pldm_scheme) option" where
  "record_loop w t largest h 0 tr s = Some (False, tr, s)"
| "record_loop w t largest h (Suc n) tr s =
     (case createInstanceId_pldm t s of (i, s) \<Rightarrow>
        case encode_get_pdr_req i \<lparr> gp_record_handle = h, gp_data_transfer_handle = pt_handle tr,
            gp_transfer_op_flag = pt_op_flag tr,
            gp_request_count = word_of_nat (maxPLDMMessageLen - 12),
            gp_record_change_number = pt_change_num tr \<rparr> 13 of
          Inl rc \<Rightarrow> Some (False, tr, s)
        | Inr req \<Rightarrow> do {
            (ok, resp, s) \<leftarrow> sendReceivePldmMessage w t 100 3 req [] None s;
            if \<not> ok then Some (False, tr, s)
            else do {
              (ok, tr) \<leftarrow> handleGetPDRResp resp tr;
              if \<not> ok then Some (False, tr, s)
              else if length (pt_record tr) > unat largest \<or> n = 0 then Some (False, tr, s)
              else if pt_complete tr then Some (True, tr, s)
              else record_loop w t largest h n tr s } })"

text \<open>The result with the handle of the next record and the record.\<close>

definition getDevicePDRRecord :: "'a pldm_scheme world \<Rightarrow> tid \<Rightarrow> u32 \<Rightarrow> u32 \<Rightarrow> 'a pldm_scheme
    \<Rightarrow> (bool \<times> u32 \<times> byte list \<times> 'a pldm_scheme) option" where
  "getDevicePDRRecord w t largest h s = do {
     (complete, tr, s) \<leftarrow> record_loop w t largest h 100 start_transfer s;
     Some (complete, pt_next_record tr, if complete then pt_record tr else [], s) }"

section \<open>All records\<close>

definition unordered_emplace :: "'k \<Rightarrow> 'v \<Rightarrow> ('k \<times> 'v) list \<Rightarrow> ('k \<times> 'v) list" where
  "unordered_emplace k v m = (if map_of m k = None then m @ [(k, v)] else m)"

text \<open>The loop of \<open>getDevicePDRRepo\<close>, with the number of rounds that are left.\<close>

fun repo_loop :: "'a pldm_scheme world \<Rightarrow> tid \<Rightarrow> u32 \<Rightarrow> nat \<Rightarrow> u32 \<Rightarrow> (u32 \<times> byte list) list
    \<Rightarrow> 'a pldm_scheme \<Rightarrow> (bool \<times> (u32 \<times> byte list) list \<times> 'a pldm_scheme) option" where
  "repo_loop w t largest 0 h devs s = Some (True, devs, s)"
| "repo_loop w t largest (Suc n) h devs s = do {
     (ok, nexth, pdr, s) \<leftarrow> getDevicePDRRecord w t largest h s;
     if \<not> ok then Some (False, devs, s)
     else if pdr \<noteq> [] \<and> length pdr < 4 then None
     else
       let devs = (if pdr = [] then devs else unordered_emplace (read32 pdr 0) pdr devs) in
       if nexth = 0 then Some (True, devs, s) else repo_loop w t largest n nexth devs s }"

text \<open>The count is decremented before it is tested: 0 stands for \<open>2 ^ 32\<close> rounds.\<close>

definition getDevicePDRRepo :: "'a pldm_scheme world \<Rightarrow> tid \<Rightarrow> u32 \<Rightarrow> u32
    \<Rightarrow> (u32 \<times> byte list) list \<Rightarrow> 'a pldm_scheme
    \<Rightarrow> (bool \<times> (u32 \<times> byte list) list \<times> 'a pldm_scheme) option" where
  "getDevicePDRRepo w t largest recordCount devs s =
     repo_loop w t largest (if recordCount = 0 then 2 ^ 32 else unat recordCount) 0 devs s"

definition PLDM_TERMINUS_LOCATOR_PDR :: byte where "PLDM_TERMINUS_LOCATOR_PDR = 1"
definition PLDM_TL_PDR_VALID :: byte where "PLDM_TL_PDR_VALID = 1"

text \<open>
  The records are added in the order of the list. The TID is written over the one in the locator
  record, at the offset 13; the state is the repository, the container id and whether a valid locator
  has been found.
\<close>

fun add_pdr_loop :: "tid \<Rightarrow> (u32 \<times> byte list) list \<Rightarrow> bool \<Rightarrow> u16 \<Rightarrow> pdr_repo
    \<Rightarrow> (bool \<times> u16 \<times> pdr_repo) option" where
  "add_pdr_loop t [] found cid repo = Some (True, cid, repo)"
| "add_pdr_loop t ((h, pdr) # devs) found cid repo =
     (let locator = (pdr ! 5 = PLDM_TERMINUS_LOCATOR_PDR);
          valid = (locator \<and> pdr ! 12 = PLDM_TL_PDR_VALID);
          pdr' = (if valid then pdr[13 := t] else pdr)
      in if length pdr < 6 \<or> locator \<and> length pdr < 13 then None
         else if valid \<and> found then Some (False, cid, repo)
         else if valid \<and> length pdr < 16 then None
         else do {
           (_, repo) \<leftarrow> pldm_pdr_add repo pdr' (word_of_nat (length pdr')) h True;
           add_pdr_loop t devs (found \<or> valid) (if valid then read16 pdr 14 else cid) repo })"

definition addDevicePDRToRepo :: "tid \<Rightarrow> (u32 \<times> byte list) list \<Rightarrow> u16 \<Rightarrow> pdr_repo
    \<Rightarrow> (bool \<times> u16 \<times> pdr_repo) option" where
  "addDevicePDRToRepo t devs cid repo = add_pdr_loop t devs False cid repo"

text \<open>The tries to fetch all records; \<open>None\<close> inside is the failure of the last one.\<close>

fun fetch_tries :: "'a pldm_scheme world \<Rightarrow> tid \<Rightarrow> u32 \<Rightarrow> u32 \<Rightarrow> nat \<Rightarrow> 'a pldm_scheme
    \<Rightarrow> ((u32 \<times> byte list) list option \<times> 'a pldm_scheme) option" where
  "fetch_tries w t largest recordCount 0 s = Some (Some [], s)"
| "fetch_tries w t largest recordCount (Suc n) s = do {
     (ok, devs, s) \<leftarrow> getDevicePDRRepo w t largest recordCount [] s;
     if ok then Some (Some devs, s)
     else if n = 0 then Some (None, s)
     else fetch_tries w t largest recordCount n s }"

type_synonym visit_order = "(u32 \<times> byte list) list \<Rightarrow> (u32 \<times> byte list) list"

definition constructPDRRepo :: "'a pldm_scheme world \<Rightarrow> visit_order \<Rightarrow> tid \<Rightarrow> pdr_repository_info
    \<Rightarrow> u16 \<Rightarrow> pdr_repo \<Rightarrow> 'a pldm_scheme \<Rightarrow> (bool \<times> u16 \<times> pdr_repo \<times> 'a pldm_scheme) option" where
  "constructPDRRepo w ord t info cid repo s =
     (if pi_repository_state info \<noteq> 0 then Some (False, cid, repo, s)
      else if pi_record_count info = 0 then Some (False, cid, repo, s)
      else do {
        (devs, s) \<leftarrow> fetch_tries w t (pi_largest_record_size info) (pi_record_count info) 3 s;
        case devs of
          None \<Rightarrow> Some (False, cid, repo, s)
        | Some devs \<Rightarrow> do {
            (ok, cid, repo) \<leftarrow> addDevicePDRToRepo t (ord devs) cid repo;
            Some (ok \<and> pldm_pdr_get_record_count repo = pi_record_count info, cid, repo, s) } })"

end
