(* ===== verification/Pdr_Hierarchy.thy ===== *)
theory Pdr_Hierarchy
  imports Pdr_Entities Pdr_Fetch
begin

text \<open>
  The names and the hierarchy of entities that the PDR manager derives from the records of a
  terminus (pldmd/src/pdr\_manager.cpp, from \<open>getAuxName\<close> to \<open>getEntityAssociationPaths\<close>).
  \<open>EntityNode\<close>s are linked by shared pointers; every node has one parent at most, so that a tree
  is a value, and the node a search returns is named by its path.
\<close>

section \<open>Auxiliary names\<close>

definition pldm_str :: "byte list \<Rightarrow> string" where
  "pldm_str bs = map (\<lambda>b. char_of (unat b)) bs"

text \<open>Strings up to their terminator; \<open>None\<close> is a read past the record.\<close>

fun c_string :: "byte list \<Rightarrow> byte list option" where
  "c_string [] = None"
| "c_string (b # bs) = (if b = 0 then Some [] else map_option ((#) b) (c_string bs))"

fun c_string16 :: "byte list \<Rightarrow> u16 list option" where
  "c_string16 (a # b # bs) =
     (if le16 a b = 0 then Some [] else map_option ((#) (le16 a b)) (c_string16 bs))"
| "c_string16 bs = None"

text \<open>UTF-16 to UTF-8; \<open>None\<close> is the exception that is thrown for an ill-formed sequence.\<close>

definition utf8_bytes :: "nat \<Rightarrow> nat list" where
  "utf8_bytes c =
     (if c < 0x80 then [c]
      else if c < 0x800 then [0xC0 + c div 64, 0x80 + c mod 64]
      else if c < 0x10000 then [0xE0 + c div 4096, 0x80 + c div 64 mod 64, 0x80 + c mod 64]
      else [0xF0 + c div 262144, 0x80 + c div 4096 mod 64, 0x80 + c div 64 mod 64, 0x80 + c mod 64])"

fun utf16_to_utf8 :: "nat list \<Rightarrow> nat list option" where
  "utf16_to_utf8 [] = Some []"
| "utf16_to_utf8 [c] = (if 0xD800 \<le> c \<and> c < 0xE000 then None else Some (utf8_bytes c))"
| "utf16_to_utf8 (c # d # cs) =
     (if 0xD800 \<le> c \<and> c < 0xDC00 then
        (if 0xDC00 \<le> d \<and> d < 0xE000
         then map_option ((@) (utf8_bytes (0x10000 + (c - 0xD800) * 1024 + (d - 0xDC00))))
                (utf16_to_utf8 cs)
         else None)
      else if 0xDC00 \<le> c \<and> c < 0xE000 then None
      else map_option ((@) (utf8_bytes c)) (utf16_to_utf8 (d # cs)))"

definition name_char :: "nat \<Rightarrow> bool" where
  "name_char c \<longleftrightarrow> 97 \<le> c \<and> c \<le> 122 \<or> 65 \<le> c \<and> c \<le> 90 \<or> 48 \<le> c \<and> c \<le> 57 \<or> c = 95 \<or> c = 47"

text \<open>Every longest run of other characters becomes one underscore; the flag says whether the
  last character belonged to a run.\<close>

fun replace_runs :: "bool \<Rightarrow> nat list \<Rightarrow> nat list" where
  "replace_runs in_run [] = []"
| "replace_runs in_run (c # cs) =
     (if name_char c then c # replace_runs False cs
      else if in_run then replace_runs True cs else 95 # replace_runs True cs)"

definition format_aux_name :: "nat list \<Rightarrow> string option" where
  "format_aux_name units = map_option (\<lambda>bs. map char_of (replace_runs False bs)) (utf16_to_utf8 units)"

definition maxStrLen :: nat where "maxStrLen = 64"

text \<open>\<open>n\<close> names are left, \<open>adv\<close> bytes of \<open>data\<close> have been passed. The language tag and the name are
  cut off after 65 characters, which is one too many.\<close>

fun aux_name_loop :: "nat \<Rightarrow> nat \<Rightarrow> nat \<Rightarrow> byte list \<Rightarrow> string option option" where
  "aux_name_loop 0 adv len data = Some None"
| "aux_name_loop (Suc n) adv len data =
     (if \<not> adv < len then Some None
      else do {
        tag \<leftarrow> c_string (drop adv data);
        if length tag > maxStrLen then Some None
        else do {
          let pos = adv + length tag + 1;
          units \<leftarrow> c_string16 (drop pos data);
          if length units > maxStrLen then Some None
          else if pldm_str tag = ''en'' then do {
            name \<leftarrow> format_aux_name (map (\<lambda>u. unat (byte_swap16 u)) units);
            Some (if name = ''_'' then None else Some name) }
          else aux_name_loop n (pos + 2 * length units + 2) len data } })"

definition getAuxName :: "byte \<Rightarrow> nat \<Rightarrow> byte list \<Rightarrow> string option option" where
  "getAuxName nameStrCount auxNamesLen data = aux_name_loop (unat nameStrCount) 0 auxNamesLen data"

text \<open>\<open>std::to\_string\<close>.\<close>

fun to_string :: "nat \<Rightarrow> string" where
  "to_string n = (if n < 10 then [char_of (48 + n)] else to_string (n div 10) @ [char_of (48 + n mod 10)])"

declare to_string.simps [simp del]

type_synonym entity_names = "(pldm_entity \<times> string) list"

text \<open>
  The names of a range of entities. The bound is an \<open>int\<close>, the instance number and the counter have
  16 bits; the entity that is the key is the same in every round. \<open>None\<close> is a loop that does not
  end.
\<close>

partial_function (option) shared_names_loop ::
    "pldm_entity \<Rightarrow> string \<Rightarrow> nat \<Rightarrow> u16 \<Rightarrow> u16 \<Rightarrow> entity_names \<Rightarrow> entity_names option" where
  "shared_names_loop e name bound instance_number cnt names =
     (if unat instance_number \<le> bound
      then shared_names_loop e name bound (instance_number + 1) (cnt + 1)
             (unordered_emplace e (name @ ''_'' @ to_string (unat cnt)) names)
      else Some names)"

definition parseEntityAuxNamesPDR :: "byte list \<Rightarrow> entity_names \<Rightarrow> entity_names option" where
  "parseEntityAuxNamesPDR pdr names =
     (if length pdr < 18 then Some names
      else do {
        name \<leftarrow> getAuxName (pdr ! 17) (length pdr - 18) (drop 18 pdr);
        case name of
          None \<Rightarrow> Some names
        | Some name \<Rightarrow>
            let e = entity_at pdr 10; shared = pdr ! 16 in
            if shared = 0 then Some (unordered_emplace e name names)
            else shared_names_loop e name (unat (entity_instance_num e) + unat shared)
                   (entity_instance_num e) 0 names })"

section \<open>Entity associations\<close>

datatype assoc_node =
  Assoc (container_entity: pldm_entity) (contained_entities: "assoc_node list")

definition getEntityAssociation :: "pldm_entity list \<Rightarrow> assoc_node option" where
  "getEntityAssociation es = (case es of [] \<Rightarrow> None
     | e # cs \<Rightarrow> Some (Assoc e (map (\<lambda>c. Assoc c []) cs)))"

definition mergeContainedEntities :: "assoc_node \<Rightarrow> assoc_node \<Rightarrow> assoc_node option" where
  "mergeContainedEntities node assoc =
     (if container_entity node = container_entity assoc
      then Some (Assoc (container_entity node) (contained_entities node @ contained_entities assoc))
      else None)"

fun merge_into :: "assoc_node \<Rightarrow> assoc_node list \<Rightarrow> assoc_node list" where
  "merge_into assoc [] = [assoc]"
| "merge_into assoc (n # ns) = (case mergeContainedEntities n assoc of
     Some n' \<Rightarrow> n' # ns | None \<Rightarrow> n # merge_into assoc ns)"

definition parseEntityAssociationPDR :: "byte list \<Rightarrow> assoc_node list \<Rightarrow> assoc_node list option" where
  "parseEntityAssociationPDR pdr nodes = do {
     entities \<leftarrow> pldm_entity_association_pdr_extract pdr;
     Some (case getEntityAssociation entities of None \<Rightarrow> nodes | Some a \<Rightarrow> merge_into a nodes) }"

text \<open>The breadth-first search: the queue holds nodes with their paths.\<close>

lemma smaller_children: "sum_list (map size ns) < size (Assoc e ns)"
  by (simp add: size_list_conv_sum_list)

definition with_paths :: "nat list \<Rightarrow> assoc_node list \<Rightarrow> (nat list \<times> assoc_node) list" where
  "with_paths p ns = map (\<lambda>(i, n). (p @ [i], n)) (enumerate 0 ns)"

lemma nodes_with_paths [simp]: "map snd (with_paths p ns) = ns"
  by (simp add: with_paths_def case_prod_unfold comp_def)

lemma sizes_with_paths: "map (\<lambda>x. size (snd x)) (with_paths p ns) = map size ns"
proof -
  have "map size (map snd (with_paths p ns)) = map size ns" by simp
  then show ?thesis by (simp only: map_map comp_def)
qed

function contained_search :: "pldm_entity \<Rightarrow> (nat list \<times> assoc_node) list \<Rightarrow> (nat list \<times> assoc_node) option"
  where
  "contained_search e [] = None"
| "contained_search e ((p, Assoc c ns) # queue) =
     (if c = e then Some (p, Assoc c ns)
      else contained_search e (queue @ with_paths p ns))"
  by pat_completeness auto
termination
  by (relation "measure (\<lambda>(e, queue). sum_list (map (\<lambda>x. size (snd x)) queue))")
     (simp_all add: sizes_with_paths smaller_children del: assoc_node.size)

definition getContainedNode :: "assoc_node \<Rightarrow> pldm_entity \<Rightarrow> (nat list \<times> assoc_node) option" where
  "getContainedNode tree e = contained_search e [([], tree)]"

fun update_node :: "nat list \<Rightarrow> (assoc_node \<Rightarrow> assoc_node) \<Rightarrow> assoc_node \<Rightarrow> assoc_node" where
  "update_node [] f n = f n"
| "update_node (i # p) f (Assoc e ns) =
     (if i < length ns then Assoc e (ns[i := update_node p f (ns ! i)]) else Assoc e ns)"

text \<open>What is contained is appended one by one, unless it is found below the parent by then.\<close>

definition add_contained :: "assoc_node \<Rightarrow> assoc_node \<Rightarrow> assoc_node" where
  "add_contained parent n =
     (if getContainedNode parent (container_entity n) = None
      then Assoc (container_entity parent) (contained_entities parent @ [n]) else parent)"

definition insertToAssociationTree :: "assoc_node \<Rightarrow> assoc_node \<Rightarrow> assoc_node" where
  "insertToAssociationTree parent assoc = foldl add_contained parent (contained_entities assoc)"

text \<open>The root is built from the associations of the container; the others are kept.\<close>

fun extract_root_loop :: "u16 \<Rightarrow> assoc_node option \<Rightarrow> assoc_node list
    \<Rightarrow> assoc_node option \<times> assoc_node list" where
  "extract_root_loop cid tree [] = (tree, [])"
| "extract_root_loop cid tree (a # assocs) =
     (if entity_container_id (container_entity a) \<noteq> cid
      then apsnd ((#) a) (extract_root_loop cid tree assocs)
      else let r = (case tree of None \<Rightarrow> Assoc (container_entity a) [] | Some r \<Rightarrow> r)
           in extract_root_loop cid (Some (insertToAssociationTree r a)) assocs)"

definition extractRootNode :: "assoc_node list \<Rightarrow> u16 \<Rightarrow> assoc_node option \<times> assoc_node list" where
  "extractRootNode assocs cid = extract_root_loop cid None assocs"

text \<open>One pass over the associations: those whose container is in the tree are attached to it.\<close>

fun attach_pass :: "assoc_node \<Rightarrow> assoc_node list \<Rightarrow> assoc_node \<times> assoc_node list" where
  "attach_pass tree [] = (tree, [])"
| "attach_pass tree (a # assocs) =
     (case getContainedNode tree (container_entity a) of
        None \<Rightarrow> apsnd ((#) a) (attach_pass tree assocs)
      | Some (p, n) \<Rightarrow> attach_pass (update_node p (\<lambda>n. insertToAssociationTree n a) tree) assocs)"

function attach_loop :: "assoc_node \<Rightarrow> assoc_node list \<Rightarrow> assoc_node \<times> assoc_node list" where
  "attach_loop tree assocs =
     (if assocs = [] then (tree, [])
      else case attach_pass tree assocs of (tree, rest) \<Rightarrow>
        if \<not> length rest < length assocs then (tree, rest) else attach_loop tree rest)"
  by pat_completeness auto
termination
  by (relation "measure (\<lambda>(tree, assocs). length assocs)") (auto dest!: sym [of "(_, _)"])

declare attach_loop.simps [simp del]

text \<open>The tree, when there is a root, and the associations that are left.\<close>

definition createEntityAssociationTree :: "assoc_node list \<Rightarrow> u16 \<Rightarrow> assoc_node option \<times> assoc_node list" where
  "createEntityAssociationTree assocs cid =
     (case extractRootNode assocs cid of
        (None, rest) \<Rightarrow> (None, rest)
      | (Some tree, rest) \<Rightarrow> apfst Some (attach_loop tree rest))"

text \<open>The paths from the root to the leaves.\<close>

fun getEntityAssociationPaths :: "assoc_node \<Rightarrow> pldm_entity list \<Rightarrow> pldm_entity list list" where
  "getEntityAssociationPaths (Assoc e ns) path =
     (if ns = [] then [path @ [e]]
      else concat (map (\<lambda>n. getEntityAssociationPaths n (path @ [e])) ns))"

end
