(* ===== verification/Pdr_Manager.thy ===== *)
theory Pdr_Manager
  imports Pdr_Hierarchy
begin

text \<open>
  The PDR manager of a terminus: its state and the parsers that turn the records of the repository
  into the system hierarchy, the sensors, the effecters and the FRU record sets
  (pldmd/src/pdr\_manager.cpp, from \<open>populateSystemHierarchy\<close> on). \<open>None\<close> is a failed assertion, an
  exception, an access outside a record or a loop that does not end. D-Bus interfaces are entries of
  \<open>interfaces\<close>, each with its path and its name.
\<close>

section \<open>State\<close>

text \<open>\<open>StateSensorPDR\<close> and \<open>StateEffecterPDR\<close>: the structure and the possible states in increasing order.\<close>

record 'p state_pdr =
  st_pdr :: 'p
  st_stateSetID :: u16
  st_values :: "byte list"

record pdr_manager =
  mg_tid :: tid
  mg_repo :: pdr_repo
  mg_containerID :: u16
  entityAuxNames :: entity_names
  associationNodes :: "assoc_node list"
  associationTree :: "assoc_node option"
  entityObjectPaths :: "pldm_entity list list"
  systemHierarchy :: "(pldm_entity \<times> string) list"
  sensorAuxNames :: "(u16 \<times> string) list"
  effecterAuxNames :: "(u16 \<times> string) list"
  numericSensorPDR :: "(u16 \<times> numeric_sensor_pdr) list"
  stateSensorPDR :: "(u16 \<times> state_sensor_pdr state_pdr) list"
  numericEffecterPDR :: "(u16 \<times> numeric_effecter_pdr) list"
  stateEffecterPDR :: "(u16 \<times> state_effecter_pdr state_pdr) list"
  sensorIntf :: "(u16 \<times> string) list"
  effecterIntf :: "(u16 \<times> string) list"
  fruRecordSetIntf :: "(u16 \<times> string) list"
  interfaces :: "(string \<times> string) list"

text \<open>The container id is left as the memory has it: no constructor sets it.\<close>

definition PDRManager_ctor :: "tid \<Rightarrow> u16 \<Rightarrow> pdr_manager" where
  "PDRManager_ctor t cid = \<lparr> mg_tid = t, mg_repo = pldm_pdr_init, mg_containerID = cid, entityAuxNames = [],
     associationNodes = [], associationTree = None, entityObjectPaths = [], systemHierarchy = [],
     sensorAuxNames = [], effecterAuxNames = [], numericSensorPDR = [], stateSensorPDR = [],
     numericEffecterPDR = [], stateEffecterPDR = [], sensorIntf = [], effecterIntf = [],
     fruRecordSetIntf = [], interfaces = [] \<rparr>"

definition unordered_assign :: "'k \<Rightarrow> 'v \<Rightarrow> ('k \<times> 'v) list \<Rightarrow> ('k \<times> 'v) list" where
  "unordered_assign k v m =
     (if map_of m k = None then m @ [(k, v)] else map (\<lambda>p. if fst p = k then (k, v) else p) m)"

definition add_interface :: "string \<Rightarrow> string \<Rightarrow> pdr_manager \<Rightarrow> pdr_manager" where
  "add_interface path name mg = mg\<lparr>interfaces := interfaces mg @ [(path, name)]\<rparr>"

definition device_object :: "pdr_manager \<Rightarrow> string" where
  "device_object mg = ''/xyz/openbmc_project/system/'' @ to_string (unat (mg_tid mg))"

section \<open>System hierarchy\<close>

definition entity_name :: "entity_names \<Rightarrow> pldm_entity \<Rightarrow> string" where
  "entity_name names e = (case map_of names e of
     Some n \<Rightarrow> n
   | None \<Rightarrow> to_string (unat (entity_type e)) @ ''_'' @ to_string (unat (entity_instance_num e))
       @ ''_'' @ to_string (unat (entity_container_id e)))"

text \<open>The entities of one path; the second argument is the name of the path so far.\<close>

fun populate_path :: "pldm_entity list \<Rightarrow> string \<Rightarrow> pdr_manager \<Rightarrow> pdr_manager" where
  "populate_path [] name mg = mg"
| "populate_path (e # es) name mg =
     (let name = name @ ''/'' @ entity_name (entityAuxNames mg) e;
          path = device_object mg @ name;
          mg = add_interface path ''xyz.openbmc_project.PLDM.Entity'' mg
      in populate_path es name
           (mg\<lparr>systemHierarchy := unordered_emplace e path (systemHierarchy mg)\<rparr>))"

definition populateSystemHierarchy :: "pdr_manager \<Rightarrow> pdr_manager" where
  "populateSystemHierarchy mg =
     (fold (\<lambda>path. populate_path path '''') (entityObjectPaths mg) mg)\<lparr>entityObjectPaths := []\<rparr>"

definition getEntityObjectPath :: "pldm_entity \<Rightarrow> pdr_manager \<Rightarrow> string option" where
  "getEntityObjectPath e mg = map_of (systemHierarchy mg) e"

section \<open>Names of sensors and effecters\<close>

definition with_tid :: "pdr_manager \<Rightarrow> string \<Rightarrow> string" where
  "with_tid mg name = name @ ''_'' @ to_string (unat (mg_tid mg))"

definition parseSensorAuxNamesPDR :: "byte list \<Rightarrow> pdr_manager \<Rightarrow> pdr_manager option" where
  "parseSensorAuxNamesPDR pdr mg =
     (if length pdr < 17 then Some mg
      else do {
        name \<leftarrow> getAuxName (pdr ! 15) (length pdr - (17 - 1)) (drop 16 pdr);
        Some (case name of
                None \<Rightarrow> mg
              | Some name \<Rightarrow> mg\<lparr>sensorAuxNames :=
                  unordered_assign (read16 pdr 12) (with_tid mg name) (sensorAuxNames mg)\<rparr>) })"

definition parseEffecterAuxNamesPDR :: "byte list \<Rightarrow> pdr_manager \<Rightarrow> pdr_manager option" where
  "parseEffecterAuxNamesPDR pdr mg =
     (if length pdr < 17 then Some mg
      else do {
        name \<leftarrow> getAuxName (pdr ! 15) (length pdr - (17 - 1)) (drop 16 pdr);
        Some (case name of
                None \<Rightarrow> mg
              | Some name \<Rightarrow> mg\<lparr>effecterAuxNames :=
                  unordered_assign (read16 pdr 12) (with_tid mg name) (effecterAuxNames mg)\<rparr>) })"

definition getSensorAuxNames :: "u16 \<Rightarrow> pdr_manager \<Rightarrow> string option" where
  "getSensorAuxNames i mg = map_of (sensorAuxNames mg) i"

definition createSensorName :: "u16 \<Rightarrow> pdr_manager \<Rightarrow> string \<times> pdr_manager" where
  "createSensorName i mg =
     (let name = with_tid mg (''PLDM_Sensor_'' @ to_string (unat i))
      in (name, mg\<lparr>sensorAuxNames := unordered_assign i name (sensorAuxNames mg)\<rparr>))"

definition createSensorObjPath :: "pldm_entity \<Rightarrow> u16 \<Rightarrow> byte \<Rightarrow> pdr_manager
    \<Rightarrow> string option \<times> pdr_manager" where
  "createSensorObjPath e i auxNamePDR mg =
     (let found = (if auxNamePDR \<noteq> 0 then case getSensorAuxNames i mg of None \<Rightarrow> '''' | Some n \<Rightarrow> n else '''')
      in case (if found = '''' then createSensorName i mg else (found, mg)) of
           (name, mg) \<Rightarrow> (map_option (\<lambda>path. path @ ''/'' @ name) (getEntityObjectPath e mg), mg))"

definition getEffecterAuxNames :: "u16 \<Rightarrow> pdr_manager \<Rightarrow> string option" where
  "getEffecterAuxNames i mg = map_of (effecterAuxNames mg) i"

definition createEffecterName :: "u16 \<Rightarrow> pdr_manager \<Rightarrow> string \<times> pdr_manager" where
  "createEffecterName i mg =
     (let name = with_tid mg (''PLDM_Effecter_'' @ to_string (unat i))
      in (name, mg\<lparr>effecterAuxNames := unordered_assign i name (effecterAuxNames mg)\<rparr>))"

definition createEffecterObjPath :: "pldm_entity \<Rightarrow> u16 \<Rightarrow> byte \<Rightarrow> pdr_manager
    \<Rightarrow> string option \<times> pdr_manager" where
  "createEffecterObjPath e i auxNamePDR mg =
     (case (case (if auxNamePDR \<noteq> 0 then getEffecterAuxNames i mg else None) of
              None \<Rightarrow> createEffecterName i mg
            | Some n \<Rightarrow> (n, mg)) of
        (name, mg) \<Rightarrow> (map_option (\<lambda>path. path @ ''/'' @ name) (getEntityObjectPath e mg), mg))"

section \<open>Sensors\<close>

definition subject_entity :: "pdr_subject \<Rightarrow> pldm_entity" where
  "subject_entity s = \<lparr> entity_type = ps_entity_type s, entity_instance_num = ps_entity_instance s,
     entity_container_id = ps_container_id s \<rparr>"

definition expose_sensor :: "string \<Rightarrow> u16 \<Rightarrow> string option \<Rightarrow> pdr_manager \<Rightarrow> pdr_manager" where
  "expose_sensor intf i path mg = (case path of
     None \<Rightarrow> mg
   | Some p \<Rightarrow> (add_interface p intf mg)\<lparr>sensorIntf := map_emplace i p (sensorIntf mg)\<rparr>)"

definition expose_effecter :: "string \<Rightarrow> u16 \<Rightarrow> string \<Rightarrow> pdr_manager \<Rightarrow> pdr_manager" where
  "expose_effecter intf i p mg =
     (add_interface p intf mg)\<lparr>effecterIntf := map_emplace i p (effecterIntf mg)\<rparr>"

definition parseNumericSensorPDR :: "byte list \<Rightarrow> pdr_manager \<Rightarrow> pdr_manager option" where
  "parseNumericSensorPDR pdr mg = do {
     parsed \<leftarrow> pldm_numeric_sensor_pdr_parse pdr;
     Some (case parsed of
             None \<Rightarrow> mg
           | Some sensor \<Rightarrow>
               let i = ps_id (ns_subject sensor);
                   mg = mg\<lparr>numericSensorPDR := map_emplace i sensor (numericSensorPDR mg)\<rparr>
               in case createSensorObjPath (subject_entity (ns_subject sensor)) i
                         (ns_sensor_auxiliary_names_pdr sensor) mg of
                    (path, mg) \<Rightarrow> expose_sensor ''xyz.openbmc_project.PLDM.NumericSensor'' i path mg) }"

text \<open>The positions of the bits that are set, of at most 32 bytes.\<close>

definition possible_values :: "byte list \<Rightarrow> byte list" where
  "possible_values states = map word_of_nat
     (filter (\<lambda>pos. bit (states ! (pos div 8)) (pos mod 8)) [0..<8 * min 32 (length states)])"

definition parseStateSensorPDR :: "byte list \<Rightarrow> pdr_manager \<Rightarrow> pdr_manager" where
  "parseStateSensorPDR pdr mg =
     (if length pdr < 24 - 1 + 4 then mg
      else if length pdr < 24 - 1 + 4 - 1 + unat (pdr ! 25) then mg
      else
        let subject = pdr_subject_at pdr; i = ps_id subject;
            sensor = \<lparr> ss_hdr = pdr_hdr_at pdr, ss_subject = subject, ss_sensor_init = pdr ! 20,
                       ss_sensor_auxiliary_names_pdr = pdr ! 21, ss_composite_sensor_count = pdr ! 22 \<rparr>;
            cached = \<lparr> st_pdr = sensor, st_stateSetID = read16 pdr 23,
                       st_values = possible_values (take (unat (pdr ! 25)) (drop 26 pdr)) \<rparr>;
            mg = mg\<lparr>stateSensorPDR := unordered_emplace i cached (stateSensorPDR mg)\<rparr>
        in case createSensorObjPath (subject_entity subject) i (pdr ! 21) mg of
             (path, mg) \<Rightarrow> expose_sensor ''xyz.openbmc_project.PLDM.StateSensor'' i path mg)"

section \<open>Effecters\<close>

text \<open>A numeric effecter is cached when it has a path only, the other kinds always.\<close>

definition parseNumericEffecterPDR :: "byte list \<Rightarrow> pdr_manager \<Rightarrow> pdr_manager option" where
  "parseNumericEffecterPDR pdr mg = do {
     parsed \<leftarrow> pldm_numeric_effecter_pdr_parse pdr;
     Some (case parsed of
             None \<Rightarrow> mg
           | Some effecter \<Rightarrow>
               let i = ps_id (ne_subject effecter)
               in case createEffecterObjPath (subject_entity (ne_subject effecter)) i
                         (ne_effecter_auxiliary_names effecter) mg of
                    (None, mg) \<Rightarrow> mg
                  | (Some path, mg) \<Rightarrow>
                      (expose_effecter ''xyz.openbmc_project.PLDM.NumericEffecter'' i path mg)
                        \<lparr>numericEffecterPDR := map_emplace i effecter (numericEffecterPDR mg)\<rparr>) }"

definition parseStateEffecterPDR :: "byte list \<Rightarrow> pdr_manager \<Rightarrow> pdr_manager" where
  "parseStateEffecterPDR pdr mg =
     (if length pdr < 26 - 1 + 4 then mg
      else if length pdr < 26 - 1 + 4 - 1 + unat (pdr ! 27) then mg
      else
        let subject = pdr_subject_at pdr; i = ps_id subject;
            effecter = \<lparr> se_hdr = pdr_hdr_at pdr, se_subject = subject,
                         se_effecter_semantic_id = read16 pdr 20, se_effecter_init = pdr ! 22,
                         se_has_description_pdr = pdr ! 23, se_composite_effecter_count = pdr ! 24 \<rparr>;
            cached = \<lparr> st_pdr = effecter, st_stateSetID = read16 pdr 25,
                       st_values = possible_values (take (unat (pdr ! 27)) (drop 28 pdr)) \<rparr>;
            mg = mg\<lparr>stateEffecterPDR := unordered_emplace i cached (stateEffecterPDR mg)\<rparr>
        in case createEffecterObjPath (subject_entity subject) i (pdr ! 23) mg of
             (None, mg) \<Rightarrow> mg
           | (Some path, mg) \<Rightarrow> expose_effecter ''xyz.openbmc_project.PLDM.StateEffecter'' i path mg)"

section \<open>FRU record sets\<close>

definition parseFRURecordSetPDR :: "byte list \<Rightarrow> pdr_manager \<Rightarrow> pdr_manager" where
  "parseFRURecordSetPDR pdr mg =
     (if length pdr \<noteq> 20 then mg
      else
        let f = fru_record_set_at pdr;
            e = \<lparr> entity_type = frs_entity_type f, entity_instance_num = frs_entity_instance_num f,
                  entity_container_id = frs_container_id f \<rparr>
        in case getEntityObjectPath e mg of
             None \<Rightarrow> mg
           | Some path \<Rightarrow> (add_interface path ''xyz.openbmc_project.PLDM.FRURecordSet'' mg)
               \<lparr>fruRecordSetIntf := map_emplace (frs_fru_rsi f) path (fruRecordSetIntf mg)\<rparr>)"

section \<open>All records of a type\<close>

definition PLDM_SENSOR_AUXILIARY_NAMES_PDR :: byte where "PLDM_SENSOR_AUXILIARY_NAMES_PDR = 6"
definition PLDM_EFFECTER_AUXILIARY_NAMES_PDR :: byte where "PLDM_EFFECTER_AUXILIARY_NAMES_PDR = 13"
definition PLDM_ENTITY_AUXILIARY_NAMES_PDR :: byte where "PLDM_ENTITY_AUXILIARY_NAMES_PDR = 16"

lemmas pdr_type_codes = PLDM_SENSOR_AUXILIARY_NAMES_PDR_def PLDM_EFFECTER_AUXILIARY_NAMES_PDR_def
  PLDM_ENTITY_AUXILIARY_NAMES_PDR_def PLDM_PDR_ENTITY_ASSOCIATION_def PLDM_PDR_FRU_RECORD_SET_def
  PLDM_NUMERIC_SENSOR_PDR_def PLDM_NUMERIC_EFFECTER_PDR_def PLDM_STATE_SENSOR_PDR_def
  PLDM_STATE_EFFECTER_PDR_def

definition parse_record :: "byte \<Rightarrow> byte list \<Rightarrow> pdr_manager \<Rightarrow> pdr_manager option" where
  "parse_record pdrType pdr mg =
     (if pdrType = PLDM_SENSOR_AUXILIARY_NAMES_PDR then parseSensorAuxNamesPDR pdr mg
      else if pdrType = PLDM_EFFECTER_AUXILIARY_NAMES_PDR then parseEffecterAuxNamesPDR pdr mg
      else if pdrType = PLDM_NUMERIC_SENSOR_PDR then parseNumericSensorPDR pdr mg
      else if pdrType = PLDM_STATE_SENSOR_PDR then Some (parseStateSensorPDR pdr mg)
      else if pdrType = PLDM_NUMERIC_EFFECTER_PDR then parseNumericEffecterPDR pdr mg
      else if pdrType = PLDM_STATE_EFFECTER_PDR then Some (parseStateEffecterPDR pdr mg)
      else if pdrType = PLDM_PDR_FRU_RECORD_SET then Some (parseFRURecordSetPDR pdr mg)
      else if pdrType = PLDM_ENTITY_AUXILIARY_NAMES_PDR
      then map_option (\<lambda>names. mg\<lparr>entityAuxNames := names\<rparr>)
             (parseEntityAuxNamesPDR pdr (entityAuxNames mg))
      else map_option (\<lambda>nodes. mg\<lparr>associationNodes := nodes\<rparr>)
             (parseEntityAssociationPDR pdr (associationNodes mg)))"

function parse_loop :: "pdr_repo \<Rightarrow> byte \<Rightarrow> nat option \<Rightarrow> pdr_manager \<Rightarrow> pdr_manager option" where
  "parse_loop repo pdrType cur mg =
     (case pldm_pdr_find_record_by_type repo pdrType cur of
        None \<Rightarrow> None
      | Some None \<Rightarrow> Some mg
      | Some (Some i) \<Rightarrow>
          (case parse_record pdrType (rec_data (records repo ! i)) mg of
             None \<Rightarrow> None
           | Some mg \<Rightarrow> parse_loop repo pdrType (Some i) mg))"
  by pat_completeness auto
termination
  by (relation "measure (\<lambda>(repo, pdrType, cur, mg). case cur of None \<Rightarrow> Suc (length (records repo))
       | Some i \<Rightarrow> length (records repo) - i)")
     (force split: option.splits dest: find_by_type_bounds)+

declare parse_loop.simps [simp del]

definition parsePDR :: "byte \<Rightarrow> pdr_manager \<Rightarrow> pdr_manager option" where
  "parsePDR pdrType mg = do {
     mg \<leftarrow> parse_loop (mg_repo mg) pdrType None mg;
     Some (if pdrType = PLDM_PDR_ENTITY_ASSOCIATION \<and> associationNodes mg \<noteq> []
           then case createEntityAssociationTree (associationNodes mg) (mg_containerID mg) of
                  (None, rest) \<Rightarrow> mg\<lparr>associationNodes := rest\<rparr>
                | (Some tree, rest) \<Rightarrow> mg\<lparr>associationTree := Some tree, associationNodes := rest\<rparr>
           else mg) }"

section \<open>Look-up\<close>

definition getNumericSensorPDR :: "pdr_manager \<Rightarrow> u16 \<Rightarrow> numeric_sensor_pdr option" where
  "getNumericSensorPDR mg sensorID = map_of (numericSensorPDR mg) sensorID"

definition getStateSensorPDR :: "pdr_manager \<Rightarrow> u16 \<Rightarrow> state_sensor_pdr state_pdr option" where
  "getStateSensorPDR mg sensorID = map_of (stateSensorPDR mg) sensorID"

definition getNumericEffecterPDR :: "pdr_manager \<Rightarrow> u16 \<Rightarrow> numeric_effecter_pdr option" where
  "getNumericEffecterPDR mg effecterID = map_of (numericEffecterPDR mg) effecterID"

definition getStateEffecterPDR :: "pdr_manager \<Rightarrow> u16 \<Rightarrow> state_effecter_pdr state_pdr option" where
  "getStateEffecterPDR mg effecterID = map_of (stateEffecterPDR mg) effecterID"

definition getSensors :: "pdr_manager \<Rightarrow> (u16 \<times> string) list" where
  "getSensors mg = sensorAuxNames mg"

definition getEffecters :: "pdr_manager \<Rightarrow> (u16 \<times> string) list" where
  "getEffecters mg = effecterAuxNames mg"

section \<open>The dump of the repository\<close>

text \<open>The records of one type from a record on, and the number of records still to be dumped; the
  method returns as soon as that is 0.\<close>

function dump_type :: "pdr_repo \<Rightarrow> byte \<Rightarrow> nat option \<Rightarrow> u32 \<Rightarrow> (byte list list \<times> u32) option" where
  "dump_type repo pdrType cur noOfRecords =
     (case pldm_pdr_find_record_by_type repo pdrType cur of
        None \<Rightarrow> None
      | Some None \<Rightarrow> Some ([], noOfRecords)
      | Some (Some i) \<Rightarrow>
          (let data = rec_data (records repo ! i) in
           if noOfRecords - 1 = 0 then Some ([data], 0)
           else map_option (apfst ((#) data)) (dump_type repo pdrType (Some i) (noOfRecords - 1))))"
  by pat_completeness auto
termination
  by (relation "measure (\<lambda>(repo, pdrType, cur, n). case cur of None \<Rightarrow> Suc (length (records repo))
       | Some i \<Rightarrow> length (records repo) - i)")
     (force split: option.splits dest: find_by_type_bounds)+

declare dump_type.simps [simp del]

fun dump_types :: "pdr_repo \<Rightarrow> byte list \<Rightarrow> u32 \<Rightarrow> byte list list option" where
  "dump_types repo [] noOfRecords = Some []"
| "dump_types repo (pdrType # types) noOfRecords =
     (case dump_type repo pdrType None noOfRecords of
        None \<Rightarrow> None
      | Some (datas, n) \<Rightarrow> if n = 0 then Some datas else map_option ((@) datas) (dump_types repo types n))"

definition PLDM_OEM_PDR :: byte where "PLDM_OEM_PDR = 127"

definition DumpPDR :: "pdr_manager \<Rightarrow> byte list list option" where
  "DumpPDR mg =
     (let noOfRecords = pldm_pdr_get_record_count (mg_repo mg) in
      if noOfRecords = 0 then Some []
      else dump_types (mg_repo mg)
             (map word_of_nat [unat PLDM_TERMINUS_LOCATOR_PDR..<unat PLDM_OEM_PDR]) noOfRecords)"

section \<open>Initialisation\<close>

definition find_paths :: "pdr_manager \<Rightarrow> pdr_manager" where
  "find_paths mg = (case associationTree mg of
     None \<Rightarrow> mg
   | Some tree \<Rightarrow> mg\<lparr>entityObjectPaths := entityObjectPaths mg @ getEntityAssociationPaths tree []\<rparr>)"

text \<open>What happens to the records once they are in the repository.\<close>

definition parse_all :: "pdr_manager \<Rightarrow> pdr_manager option" where
  "parse_all mg = do {
     mg \<leftarrow> parsePDR PLDM_ENTITY_AUXILIARY_NAMES_PDR mg;
     mg \<leftarrow> parsePDR PLDM_PDR_ENTITY_ASSOCIATION mg;
     mg \<leftarrow> parsePDR PLDM_SENSOR_AUXILIARY_NAMES_PDR (populateSystemHierarchy (find_paths mg));
     mg \<leftarrow> parsePDR PLDM_EFFECTER_AUXILIARY_NAMES_PDR mg;
     mg \<leftarrow> parsePDR PLDM_NUMERIC_SENSOR_PDR mg;
     mg \<leftarrow> parsePDR PLDM_STATE_SENSOR_PDR mg;
     mg \<leftarrow> parsePDR PLDM_NUMERIC_EFFECTER_PDR mg;
     mg \<leftarrow> parsePDR PLDM_STATE_EFFECTER_PDR mg;
     parsePDR PLDM_PDR_FRU_RECORD_SET mg }"

definition pdrManagerInit :: "'a pldm_scheme world \<Rightarrow> visit_order \<Rightarrow> pdr_manager \<Rightarrow> 'a pldm_scheme
    \<Rightarrow> (bool \<times> pdr_manager \<times> 'a pldm_scheme) option" where
  "pdrManagerInit w ord mg s = do {
     (info, s) \<leftarrow> getPDRRepositoryInfo w (mg_tid mg) s;
     case info of
       None \<Rightarrow> Some (False, mg, s)
     | Some info \<Rightarrow> do {
         (ok, cid, repo, s) \<leftarrow> constructPDRRepo w ord (mg_tid mg) info (mg_containerID mg) pldm_pdr_init s;
         let mg = mg\<lparr>mg_containerID := cid, mg_repo := repo\<rparr>;
         if \<not> ok then Some (False, mg, s)
         else do {
           mg \<leftarrow> parse_all (add_interface (device_object mg) ''xyz.openbmc_project.PLDM.PDR'' mg);
           Some (True, mg, s) } } }"

end
