(* ===== verification/Pdr_Hierarchy_Props.thy ===== *)
theory Pdr_Hierarchy_Props
  imports Pdr_Manager
begin

text \<open>
  The tree of entities that the PDR manager builds holds what the association records reach from
  the container of the terminus, and these entities and no others get an object path.
\<close>

section \<open>Entities and edges of a tree\<close>

fun tree_entities :: "assoc_node \<Rightarrow> pldm_entity set" where
  "tree_entities (Assoc e ns) = insert e (\<Union>n \<in> set ns. tree_entities n)"

fun tree_edges :: "assoc_node \<Rightarrow> (pldm_entity \<times> pldm_entity) set" where
  "tree_edges (Assoc e ns) = (\<Union>n \<in> set ns. insert (e, container_entity n) (tree_edges n))"

fun node_at :: "nat list \<Rightarrow> assoc_node \<Rightarrow> assoc_node option" where
  "node_at [] n = Some n"
| "node_at (i # p) (Assoc e ns) = (if i < length ns then node_at p (ns ! i) else None)"

lemma container_entity_in_tree [simp, intro]: "container_entity n \<in> tree_entities n"
  by (cases n) simp

lemma node_at_append: "node_at (p @ q) t = Option.bind (node_at p t) (node_at q)"
  by (induction p t rule: node_at.induct) auto

lemma with_paths_mem: "(p', n) \<in> set (with_paths p ns) \<longleftrightarrow> (\<exists>i < length ns. p' = p @ [i] \<and> n = ns ! i)"
  by (auto simp: with_paths_def in_set_enumerate_eq image_iff Bex_def)

lemma UN_with_paths: "(\<Union>x \<in> set (with_paths p ns). f (snd x)) = (\<Union>n \<in> set ns. f n)"
proof -
  have "snd ` set (with_paths p ns) = set ns" by (simp flip: set_map)
  then have "(\<Union>n \<in> snd ` set (with_paths p ns). f n) = (\<Union>n \<in> set ns. f n)" by simp
  then show ?thesis by simp
qed

lemma search_finds:
  "contained_search e queue = None \<longleftrightarrow> e \<notin> (\<Union>x \<in> set queue. tree_entities (snd x))"
  by (induction e queue rule: contained_search.induct) (auto simp: UN_with_paths)

lemma getContainedNode_None: "getContainedNode t e = None \<longleftrightarrow> e \<notin> tree_entities t"
  by (simp add: getContainedNode_def search_finds)

lemma search_sound:
  assumes "contained_search e queue = Some (p, n)"
    and "\<forall>(q, m) \<in> set queue. node_at q t = Some m"
  shows "node_at p t = Some n \<and> container_entity n = e"
  using assms
proof (induction e queue rule: contained_search.induct)
  case (2 e q c ns queue)
  then have q: "node_at q t = Some (Assoc c ns)" by simp
  show ?case
  proof (cases "c = e")
    case False
    with 2 q show ?thesis
      by (intro "2.IH") (auto simp: with_paths_mem node_at_append)
  qed (use 2 in auto)
qed simp

lemma getContainedNode_Some:
  "getContainedNode t e = Some (p, n) \<Longrightarrow> node_at p t = Some n \<and> container_entity n = e"
  unfolding getContainedNode_def by (erule search_sound) simp

lemma entities_of_node: "node_at p t = Some n \<Longrightarrow> tree_entities n \<subseteq> tree_entities t"
  by (induction p t rule: node_at.induct) (auto split: if_splits)

lemma edges_of_node: "node_at p t = Some n \<Longrightarrow> tree_edges n \<subseteq> tree_edges t"
proof (induction p t rule: node_at.induct)
  case (2 i p e ns)
  then have "i < length ns" "tree_edges n \<subseteq> tree_edges (ns ! i)" by (auto split: if_splits)
  moreover from this have "tree_edges (ns ! i) \<subseteq> tree_edges (Assoc e ns)"
    using nth_mem [of i ns] by (simp only: tree_edges.simps) blast
  ultimately show ?case by blast
qed simp

lemma UN_list_update:
  assumes "i < length xs" "f (xs ! i) \<subseteq> f x"
  shows "(\<Union>y \<in> set (xs[i := x]). f y) = (\<Union>y \<in> set xs. f y) \<union> f x"
proof (intro equalityI subsetI)
  fix z assume "z \<in> (\<Union>y \<in> set xs. f y) \<union> f x"
  then consider "z \<in> f x" | j where "j < length xs" "z \<in> f (xs ! j)" by (auto simp: in_set_conv_nth)
  then show "z \<in> (\<Union>y \<in> set (xs[i := x]). f y)"
  proof cases
    case 1
    with assms(1) show ?thesis by (auto intro: set_update_memI)
  next
    case 2
    with assms have "z \<in> f (xs[i := x] ! j)" by (cases "j = i") auto
    with 2 show ?thesis by (metis UN_I length_list_update nth_mem)
  qed
qed (use set_update_subset_insert [of xs i x] in auto)

text \<open>A change of one node that keeps its entity and what is below it.\<close>

lemma entities_of_update:
  assumes "node_at p t = Some n" "tree_entities n \<subseteq> tree_entities (f n)"
  shows "tree_entities (update_node p f t) = tree_entities t \<union> tree_entities (f n)"
  using assms
proof (induction p f t rule: update_node.induct)
  case (2 i p f e ns)
  then have i: "i < length ns" and at: "node_at p (ns ! i) = Some n" by (auto split: if_splits)
  have IH: "tree_entities (update_node p f (ns ! i)) = tree_entities (ns ! i) \<union> tree_entities (f n)"
    using 2 i at by simp
  have "tree_entities (ns ! i) \<subseteq> (\<Union>m \<in> set ns. tree_entities m)" using i by (metis UN_upper nth_mem)
  with IH i show ?case by (simp add: UN_list_update) blast
qed auto

lemma update_keeps_entity:
  "container_entity (f n) = container_entity n \<Longrightarrow> node_at p t = Some n
    \<Longrightarrow> container_entity (update_node p f t) = container_entity t"
  by (cases p; cases t) auto

text \<open>The edges. A changed node may get new edges.\<close>

lemma edges_of_update:
  assumes "node_at p t = Some n" "container_entity (f n) = container_entity n"
  shows "tree_edges (update_node p f t) \<subseteq> tree_edges t \<union> tree_edges (f n)"
  using assms
proof (induction p f t rule: update_node.induct)
  case (2 i p f e ns)
  then have i: "i < length ns" and at: "node_at p (ns ! i) = Some n" by (auto split: if_splits)
  let ?m = "update_node p f (ns ! i)"
  have IH: "tree_edges ?m \<subseteq> tree_edges (ns ! i) \<union> tree_edges (f n)"
    using 2 i at by simp
  have ent: "container_entity ?m = container_entity (ns ! i)"
    using update_keeps_entity [of f n p "ns ! i"] 2 at by simp
  have "set (ns[i := ?m]) \<subseteq> insert ?m (set ns)" by (rule set_update_subset_insert)
  then have "tree_edges (update_node (i # p) f (Assoc e ns))
      \<subseteq> insert (e, container_entity ?m) (tree_edges ?m) \<union> tree_edges (Assoc e ns)"
    using i by auto
  also have "\<dots> \<subseteq> tree_edges (Assoc e ns) \<union> tree_edges (f n)"
    using IH ent nth_mem [OF i] by auto
  finally show ?case .
qed auto

section \<open>Insertion\<close>

text \<open>Associations as the records give them: what is contained has no children yet.\<close>

definition flat :: "assoc_node \<Rightarrow> bool" where
  "flat a \<longleftrightarrow> (\<forall>n \<in> set (contained_entities a). contained_entities n = [])"

abbreviation members :: "assoc_node \<Rightarrow> pldm_entity set" where
  "members a \<equiv> container_entity ` set (contained_entities a)"

lemma leaf_entities [simp]: "contained_entities n = [] \<Longrightarrow> tree_entities n = {container_entity n}"
  by (cases n) simp

lemma leaf_edges [simp]: "contained_entities n = [] \<Longrightarrow> tree_edges n = {}"
  by (cases n) simp

lemma add_contained_leaf:
  assumes "contained_entities n = []"
  shows "container_entity (add_contained t n) = container_entity t"
    and "tree_entities (add_contained t n) = insert (container_entity n) (tree_entities t)"
    and "tree_edges (add_contained t n) \<subseteq> insert (container_entity t, container_entity n) (tree_edges t)"
  using assms by (cases t; auto simp: add_contained_def getContainedNode_None)+

lemma insert_leaves:
  assumes "\<forall>n \<in> set ns. contained_entities n = []"
  shows "container_entity (foldl add_contained t ns) = container_entity t"
    and "tree_entities (foldl add_contained t ns) = tree_entities t \<union> container_entity ` set ns"
    and "tree_edges (foldl add_contained t ns) \<subseteq> tree_edges t \<union> {container_entity t} \<times> container_entity ` set ns"
  using assms
proof (induction ns arbitrary: t)
  case (Cons n ns)
  {
    case 1
    with Cons show ?case by (simp add: add_contained_leaf)
  next
    case 2
    with Cons show ?case by (simp add: add_contained_leaf)
  next
    case 3
    with Cons have "tree_edges (foldl add_contained (add_contained t n) ns)
        \<subseteq> tree_edges (add_contained t n) \<union> {container_entity t} \<times> container_entity ` set ns"
      using Cons.IH(3) [of "add_contained t n"] by (simp add: add_contained_leaf)
    with 3 add_contained_leaf(3) [of n t] show ?case by fastforce
  }
qed simp_all

lemma insertToAssociationTree_flat:
  assumes "flat a"
  shows "container_entity (insertToAssociationTree t a) = container_entity t"
    and "tree_entities (insertToAssociationTree t a) = tree_entities t \<union> members a"
    and "tree_edges (insertToAssociationTree t a) \<subseteq> tree_edges t \<union> {container_entity t} \<times> members a"
  using assms insert_leaves [of "contained_entities a" t]
  by (simp_all add: insertToAssociationTree_def flat_def)

section \<open>What is reachable\<close>

text \<open>The entities reachable from the first association of the container. All associations of the
  container count as the root's.\<close>

definition in_container :: "u16 \<Rightarrow> assoc_node \<Rightarrow> bool" where
  "in_container cid a \<longleftrightarrow> entity_container_id (container_entity a) = cid"

inductive_set hierarchy :: "assoc_node list \<Rightarrow> u16 \<Rightarrow> pldm_entity set"
  for assocs :: "assoc_node list" and cid :: u16 where
  root: "find (in_container cid) assocs = Some a \<Longrightarrow> container_entity a \<in> hierarchy assocs cid"
| root_member: "a \<in> set assocs \<Longrightarrow> in_container cid a \<Longrightarrow> e \<in> members a \<Longrightarrow> e \<in> hierarchy assocs cid"
| member: "container_entity a \<in> hierarchy assocs cid \<Longrightarrow> a \<in> set assocs \<Longrightarrow> e \<in> members a
    \<Longrightarrow> e \<in> hierarchy assocs cid"

text \<open>The edges that the records state.\<close>

definition stated_edges :: "assoc_node list \<Rightarrow> u16 \<Rightarrow> (pldm_entity \<times> pldm_entity) set" where
  "stated_edges assocs cid = {(p, e). \<exists>a \<in> set assocs. e \<in> members a \<and>
     (p = container_entity a \<or>
      in_container cid a \<and> (\<exists>r. find (in_container cid) assocs = Some r \<and> p = container_entity r))}"

section \<open>The root\<close>

lemma extract_root_continues:
  assumes "\<forall>a \<in> set assocs. flat a"
  shows "\<exists>t'. extract_root_loop cid (Some t) assocs = (Some t', filter (\<lambda>a. \<not> in_container cid a) assocs)
    \<and> container_entity t' = container_entity t
    \<and> tree_entities t' = tree_entities t \<union> (\<Union>a \<in> set (filter (in_container cid) assocs). members a)
    \<and> tree_edges t' \<subseteq> tree_edges t \<union> {container_entity t} \<times> (\<Union>a \<in> set (filter (in_container cid) assocs). members a)"
  using assms
proof (induction assocs arbitrary: t)
  case (Cons a assocs)
  show ?case
  proof (cases "in_container cid a")
    case True
    from Cons.IH [of "insertToAssociationTree t a"] Cons.prems
    obtain t' where "extract_root_loop cid (Some (insertToAssociationTree t a)) assocs
          = (Some t', filter (\<lambda>a. \<not> in_container cid a) assocs)"
      and "container_entity t' = container_entity t"
      and "tree_entities t' = tree_entities t \<union> members a \<union> (\<Union>a \<in> set (filter (in_container cid) assocs). members a)"
      and "tree_edges t' \<subseteq> tree_edges (insertToAssociationTree t a)
        \<union> {container_entity t} \<times> (\<Union>a \<in> set (filter (in_container cid) assocs). members a)"
      by (auto simp: insertToAssociationTree_flat)
    moreover have "tree_edges (insertToAssociationTree t a) \<subseteq> tree_edges t \<union> {container_entity t} \<times> members a"
      using Cons.prems by (simp add: insertToAssociationTree_flat)
    ultimately show ?thesis
      using True by (intro exI [of _ t']) (auto simp: in_container_def)
  next
    case False
    with Cons.IH [of t] Cons.prems show ?thesis by (auto simp: in_container_def)
  qed
qed simp

lemma extractRootNode_flat:
  assumes "\<forall>a \<in> set assocs. flat a" "find (in_container cid) assocs = Some r"
  shows "\<exists>t. extractRootNode assocs cid = (Some t, filter (\<lambda>a. \<not> in_container cid a) assocs)
    \<and> container_entity t = container_entity r
    \<and> tree_entities t = insert (container_entity r) (\<Union>a \<in> set (filter (in_container cid) assocs). members a)
    \<and> tree_edges t \<subseteq> {container_entity r} \<times> (\<Union>a \<in> set (filter (in_container cid) assocs). members a)"
  using assms unfolding extractRootNode_def
proof (induction assocs)
  case (Cons a assocs)
  show ?case
  proof (cases "in_container cid a")
    case True
    with Cons.prems have r: "r = a" by simp
    from extract_root_continues [of "a # assocs" cid "Assoc (container_entity a) []"] Cons.prems(1) True r
    show ?thesis by (auto simp: in_container_def)
  next
    case False
    with Cons show ?thesis by (auto simp: in_container_def)
  qed
qed simp

lemma extractRootNode_none:
  "find (in_container cid) assocs = None \<Longrightarrow> extractRootNode assocs cid = (None, assocs)"
  unfolding extractRootNode_def
  by (induction assocs) (auto simp: in_container_def split: if_splits)

section \<open>Passes over the other associations\<close>

definition attached :: "assoc_node \<Rightarrow> assoc_node list \<Rightarrow> assoc_node \<Rightarrow> assoc_node list \<Rightarrow> bool" where
  "attached t xs t' ys \<longleftrightarrow>
     container_entity t' = container_entity t \<and> tree_entities t \<subseteq> tree_entities t' \<and> set ys \<subseteq> set xs
   \<and> (\<forall>E. tree_entities t' \<subseteq> E \<longrightarrow>
        filter (\<lambda>a. container_entity a \<notin> E) ys = filter (\<lambda>a. container_entity a \<notin> E) xs)
   \<and> (\<forall>a \<in> set xs. a \<notin> set ys \<longrightarrow> members a \<subseteq> tree_entities t')
   \<and> (\<forall>H. tree_entities t \<subseteq> H \<longrightarrow> (\<forall>a \<in> set xs. container_entity a \<in> H \<longrightarrow> members a \<subseteq> H)
        \<longrightarrow> tree_entities t' \<subseteq> H)
   \<and> tree_edges t' \<subseteq> tree_edges t \<union> (\<Union>a \<in> set xs. {container_entity a} \<times> members a)"

lemma attachedD:
  assumes "attached t xs t' ys"
  shows "container_entity t' = container_entity t"
    and "tree_entities t \<subseteq> tree_entities t'"
    and "set ys \<subseteq> set xs"
    and "tree_entities t' \<subseteq> E \<Longrightarrow>
      filter (\<lambda>a. container_entity a \<notin> E) ys = filter (\<lambda>a. container_entity a \<notin> E) xs"
    and "a \<in> set xs \<Longrightarrow> a \<notin> set ys \<Longrightarrow> members a \<subseteq> tree_entities t'"
    and "tree_entities t \<subseteq> H \<Longrightarrow> \<forall>a \<in> set xs. container_entity a \<in> H \<longrightarrow> members a \<subseteq> H
      \<Longrightarrow> tree_entities t' \<subseteq> H"
    and "tree_edges t' \<subseteq> tree_edges t \<union> (\<Union>a \<in> set xs. {container_entity a} \<times> members a)"
  using assms unfolding attached_def by (elim conjE; (assumption | simp))+

lemma attachedI:
  assumes "container_entity t' = container_entity t"
    and "tree_entities t \<subseteq> tree_entities t'"
    and "set ys \<subseteq> set xs"
    and "\<And>E. tree_entities t' \<subseteq> E \<Longrightarrow>
      filter (\<lambda>a. container_entity a \<notin> E) ys = filter (\<lambda>a. container_entity a \<notin> E) xs"
    and "\<And>a. a \<in> set xs \<Longrightarrow> a \<notin> set ys \<Longrightarrow> members a \<subseteq> tree_entities t'"
    and "\<And>H. tree_entities t \<subseteq> H \<Longrightarrow> \<forall>a \<in> set xs. container_entity a \<in> H \<longrightarrow> members a \<subseteq> H
      \<Longrightarrow> tree_entities t' \<subseteq> H"
    and "tree_edges t' \<subseteq> tree_edges t \<union> (\<Union>a \<in> set xs. {container_entity a} \<times> members a)"
  shows "attached t xs t' ys"
  unfolding attached_def by (intro conjI allI impI ballI) (fact assms | rule assms; assumption)+

lemma attached_refl [simp]: "attached t xs t xs"
  by (rule attachedI) auto

lemma attached_skip:
  assumes "attached t xs t' ys"
  shows "attached t (a # xs) t' (a # ys)"
proof (rule attachedI)
  note at = attachedD [OF assms]
  show "container_entity t' = container_entity t" "tree_entities t \<subseteq> tree_entities t'"
    "set (a # ys) \<subseteq> set (a # xs)" using at(1-3) by auto
  show "filter (\<lambda>a. container_entity a \<notin> E) (a # ys) = filter (\<lambda>a. container_entity a \<notin> E) (a # xs)"
    if "tree_entities t' \<subseteq> E" for E using at(4) [OF that] by simp
  show "members b \<subseteq> tree_entities t'" if "b \<in> set (a # xs)" "b \<notin> set (a # ys)" for b
    using at(5) [of b] that by simp
  show "tree_entities t' \<subseteq> H" if "tree_entities t \<subseteq> H"
    "\<forall>b \<in> set (a # xs). container_entity b \<in> H \<longrightarrow> members b \<subseteq> H" for H using at(6) that by simp
  show "tree_edges t' \<subseteq> tree_edges t \<union> (\<Union>b \<in> set (a # xs). {container_entity b} \<times> members b)"
    using at(7) by auto
qed

lemma attached_step:
  assumes "attached t1 xs t' ys" and sub: "tree_entities t1 = tree_entities t \<union> members a"
    and c: "container_entity t1 = container_entity t" "container_entity a \<in> tree_entities t"
    and ed: "tree_edges t1 \<subseteq> tree_edges t \<union> {container_entity a} \<times> members a"
  shows "attached t (a # xs) t' ys"
proof (rule attachedI)
  note at = attachedD [OF assms(1)]
  show "container_entity t' = container_entity t" using at(1) c(1) by simp
  have up: "tree_entities t \<union> members a \<subseteq> tree_entities t'" using at(2) sub by simp
  then show "tree_entities t \<subseteq> tree_entities t'" by simp
  show "set ys \<subseteq> set (a # xs)" using at(3) by auto
  show "filter (\<lambda>a. container_entity a \<notin> E) ys = filter (\<lambda>a. container_entity a \<notin> E) (a # xs)"
    if "tree_entities t' \<subseteq> E" for E using at(4) [OF that] that up c(2) by auto
  show "members b \<subseteq> tree_entities t'" if "b \<in> set (a # xs)" "b \<notin> set ys" for b
    using at(5) [of b] that up by (cases "b = a") simp_all
  show "tree_entities t' \<subseteq> H" if H: "tree_entities t \<subseteq> H"
    "\<forall>b \<in> set (a # xs). container_entity b \<in> H \<longrightarrow> members b \<subseteq> H" for H
  proof (rule at(6))
    have "members a \<subseteq> H" using H c(2) by auto
    then show "tree_entities t1 \<subseteq> H" using sub H(1) by simp
  qed (use H(2) in simp)
  have "tree_edges t' \<subseteq> (tree_edges t \<union> {container_entity a} \<times> members a)
      \<union> (\<Union>b \<in> set xs. {container_entity b} \<times> members b)" using at(7) ed by blast
  then show "tree_edges t' \<subseteq> tree_edges t \<union> (\<Union>b \<in> set (a # xs). {container_entity b} \<times> members b)"
    by simp blast
qed

lemma attached_trans:
  assumes "attached t xs t1 ys" "attached t1 ys t' zs"
  shows "attached t xs t' zs"
proof (rule attachedI)
  note a = attachedD [OF assms(1)] and b = attachedD [OF assms(2)]
  show "container_entity t' = container_entity t" using a(1) b(1) by simp
  show up: "tree_entities t \<subseteq> tree_entities t'" "set zs \<subseteq> set xs" using a(2,3) b(2,3) by simp_all
  show "filter (\<lambda>a. container_entity a \<notin> E) zs = filter (\<lambda>a. container_entity a \<notin> E) xs"
    if "tree_entities t' \<subseteq> E" for E
    using a(4) [OF order.trans [OF b(2) that]] b(4) [OF that] by simp
  show "members c \<subseteq> tree_entities t'" if "c \<in> set xs" "c \<notin> set zs" for c
    using a(5) [of c] b(5) [of c] b(2) that by (cases "c \<in> set ys") simp_all
  show "tree_entities t' \<subseteq> H" if H: "tree_entities t \<subseteq> H"
    "\<forall>b \<in> set xs. container_entity b \<in> H \<longrightarrow> members b \<subseteq> H" for H
    by (rule b(6) [OF a(6) [OF H]]) (use H(2) a(3) in blast)
  show "tree_edges t' \<subseteq> tree_edges t \<union> (\<Union>a \<in> set xs. {container_entity a} \<times> members a)"
    by (rule order.trans [OF b(7) Un_least [OF a(7) order.trans [OF UN_mono [OF a(3) subset_refl] Un_upper2]]])
qed

text \<open>One association at the node its container is found at.\<close>

lemma attach_one:
  assumes "flat a" "getContainedNode t (container_entity a) = Some (p, n)"
  defines "t1 \<equiv> update_node p (\<lambda>n. insertToAssociationTree n a) t"
  shows "tree_entities t1 = tree_entities t \<union> members a"
    and "container_entity t1 = container_entity t" "container_entity a \<in> tree_entities t"
    and "tree_edges t1 \<subseteq> tree_edges t \<union> {container_entity a} \<times> members a"
proof -
  let ?f = "\<lambda>n. insertToAssociationTree n a"
  note at = getContainedNode_Some [OF assms(2)]
  note f = insertToAssociationTree_flat [OF assms(1), of n]
  from at have n: "node_at p t = Some n" "container_entity n = container_entity a" by auto
  show "tree_entities t1 = tree_entities t \<union> members a"
    using entities_of_update [OF n(1), of ?f] f(2) entities_of_node [OF n(1)] unfolding t1_def by auto
  show "container_entity t1 = container_entity t"
    unfolding t1_def using f(1) n(1) by (intro update_keeps_entity)
  show "container_entity a \<in> tree_entities t"
    using entities_of_node [OF n(1)] n(2) container_entity_in_tree [of n] by auto
  show "tree_edges t1 \<subseteq> tree_edges t \<union> {container_entity a} \<times> members a"
    using edges_of_update [OF n(1), of ?f] f(1,3) n(2) edges_of_node [OF n(1)] unfolding t1_def by auto
qed

lemma attach_pass_attaches:
  "\<forall>a \<in> set xs. flat a \<Longrightarrow> attach_pass t xs = (t', ys) \<Longrightarrow> attached t xs t' ys"
proof (induction t xs arbitrary: ys rule: attach_pass.induct)
  case (2 t a xs)
  show ?case
  proof (cases "getContainedNode t (container_entity a)")
    case None
    with 2 show ?thesis by (auto split: prod.splits intro: attached_skip simp: apsnd_def map_prod_def)
  next
    case (Some x)
    obtain p n where x: "x = (p, n)" by (cases x)
    have "flat a" using 2 by simp
    note one = attach_one [OF this, of t p n]
    show ?thesis
      using one 2 Some x by (intro attached_step [where t = t]) auto
  qed
qed simp

text \<open>A pass that attaches nothing has found no container.\<close>

lemma attach_pass_length: "attach_pass t xs = (t', ys) \<Longrightarrow> length ys \<le> length xs"
  by (induction t xs arbitrary: ys rule: attach_pass.induct) (fastforce split: option.splits prod.splits simp: apsnd_def map_prod_def)+

lemma attach_pass_stuck:
  "attach_pass t xs = (t', ys) \<Longrightarrow> length ys = length xs
    \<Longrightarrow> t' = t \<and> ys = xs \<and> (\<forall>a \<in> set xs. container_entity a \<notin> tree_entities t)"
proof (induction t xs arbitrary: ys rule: attach_pass.induct)
  case (2 t a xs)
  show ?case
  proof (cases "getContainedNode t (container_entity a)")
    case None
    with 2 show ?thesis
      by (auto split: prod.splits simp: getContainedNode_None apsnd_def map_prod_def)
  next
    case (Some x)
    with 2(3,4) show ?thesis by (cases x) (auto dest!: attach_pass_length)
  qed
qed simp

section \<open>The tree\<close>

lemma attach_loop_attaches:
  "\<forall>a \<in> set xs. flat a \<Longrightarrow> attach_loop t xs = (t', ys)
    \<Longrightarrow> attached t xs t' ys \<and> (\<forall>a \<in> set ys. container_entity a \<notin> tree_entities t')"
proof (induction t xs arbitrary: t' ys rule: attach_loop.induct)
  case (1 t xs)
  show ?case
  proof (cases "xs = []")
    case True
    with 1(3) show ?thesis by (simp add: attach_loop.simps [of t])
  next
    case False
    obtain t1 zs where p: "attach_pass t xs = (t1, zs)" by (cases "attach_pass t xs")
    then have at: "attached t xs t1 zs" using attach_pass_attaches 1(2) by blast
    show ?thesis
    proof (cases "length zs < length xs")
      case True
      with 1(3) False p have "attach_loop t1 zs = (t', ys)" by (simp add: attach_loop.simps [of t])
      moreover have "\<forall>a \<in> set zs. flat a" using attachedD(3) [OF at] 1(2) by auto
      ultimately have "attached t1 zs t' ys \<and> (\<forall>a \<in> set ys. container_entity a \<notin> tree_entities t')"
        using 1(1) [OF False] p True by simp
      then show ?thesis using attached_trans [OF at] by blast
    next
      case no: False
      with 1(3) False p have "t' = t1" "ys = zs" by (simp_all add: attach_loop.simps [of t])
      moreover have "length zs = length xs" using no attach_pass_length [OF p] by simp
      ultimately show ?thesis using attach_pass_stuck [OF p] by simp
    qed
  qed
qed

lemma hierarchy_member:
  "a \<in> set assocs \<Longrightarrow> \<not> in_container cid a \<Longrightarrow> container_entity a \<in> hierarchy assocs cid
    \<Longrightarrow> members a \<subseteq> hierarchy assocs cid"
  by (auto intro: hierarchy.member)

lemma tree_holds_what_is_reachable:
  assumes "\<forall>a \<in> set assocs. flat a" "find (in_container cid) assocs = Some r"
  shows "\<exists>tree. createEntityAssociationTree assocs cid
      = (Some tree, filter (\<lambda>a. container_entity a \<notin> hierarchy assocs cid \<and> \<not> in_container cid a) assocs)
    \<and> container_entity tree = container_entity r
    \<and> tree_entities tree = hierarchy assocs cid
    \<and> tree_edges tree \<subseteq> stated_edges assocs cid"
proof -
  let ?H = "hierarchy assocs cid" and ?rest = "filter (\<lambda>a. \<not> in_container cid a) assocs"
  let ?top = "\<Union>a \<in> set (filter (in_container cid) assocs). members a"
  obtain t where t: "extractRootNode assocs cid = (Some t, ?rest)" "container_entity t = container_entity r"
    "tree_entities t = insert (container_entity r) ?top" "tree_edges t \<subseteq> {container_entity r} \<times> ?top"
    using extractRootNode_flat [OF assms] by blast
  obtain t' ys where l: "attach_loop t ?rest = (t', ys)" by (cases "attach_loop t ?rest")
  have "\<forall>a \<in> set ?rest. flat a" using assms(1) by simp
  from attach_loop_attaches [OF this l] have at: "attached t ?rest t' ys"
    and left: "\<forall>a \<in> set ys. container_entity a \<notin> tree_entities t'" by auto
  note at = attachedD [OF at]
  have start: "tree_entities t \<subseteq> ?H"
    using t(3) assms(2) by (auto intro: hierarchy.root hierarchy.root_member)
  have sound: "tree_entities t' \<subseteq> ?H"
    by (rule at(6) [OF start]) (use hierarchy_member in auto)
  have ys: "ys = filter (\<lambda>a. container_entity a \<notin> tree_entities t') ?rest"
    using at(4) [of "tree_entities t'"] left by (simp add: filter_id_conv [THEN iffD2])
  have "e \<in> tree_entities t'" if "e \<in> ?H" for e
    using that
  proof induction
    case (root a)
    with assms(2) t(3) at(2) show ?case by auto
  next
    case (root_member a e)
    with t(3) at(2) show ?case by auto
  next
    case (member a e)
    show ?case
    proof (cases "in_container cid a")
      case True
      with member t(3) at(2) show ?thesis by auto
    next
      case False
      with member have "a \<in> set ?rest" "a \<notin> set ys" using left by auto
      with at(5) member show ?thesis by blast
    qed
  qed
  with sound have H: "tree_entities t' = ?H" by blast
  moreover have "createEntityAssociationTree assocs cid = (Some t', ys)"
    by (simp add: createEntityAssociationTree_def t(1) l)
  moreover have "tree_edges t' \<subseteq> stated_edges assocs cid"
    using at(7) t(4) assms(2) by (fastforce simp: stated_edges_def)
  ultimately show ?thesis using t(2) at(1) ys H by (simp add: conj_commute)
qed

text \<open>
  The check for cycles looks below the parent only: when two records contain each other's entity, the
  first entity occurs a second time, below the entity it contains, and gets a second path.
\<close>

lemma cycle_through_the_parent_is_kept:
  assumes "e \<noteq> f" "entity_container_id e = cid" "entity_container_id f \<noteq> cid"
  shows "createEntityAssociationTree [Assoc e [Assoc f []], Assoc f [Assoc e []]] cid
      = (Some (Assoc e [Assoc f [Assoc e []]]), [])"
    and "getEntityAssociationPaths (Assoc e [Assoc f [Assoc e []]]) [] = [[e, f, e]]"
  using assms
  by (simp_all add: createEntityAssociationTree_def extractRootNode_def insertToAssociationTree_def
      add_contained_def getContainedNode_def with_paths_def attach_loop.simps Let_def)

text \<open>An association record that is too short, or of a length that its counts do not give, is an
  assertion that fails: the records come from the terminus.\<close>

lemma malformed_association_aborts:
  "length pdr < 26 \<Longrightarrow> parseEntityAssociationPDR pdr nodes = None"
  "26 \<le> length pdr \<Longrightarrow> pdr ! 5 = PLDM_PDR_ENTITY_ASSOCIATION \<Longrightarrow>
     unat (read16 pdr 8) \<noteq> 10 + 6 * unat (pdr ! 19) \<Longrightarrow> parseEntityAssociationPDR pdr nodes = None"
  by (auto simp: parseEntityAssociationPDR_def pldm_entity_association_pdr_extract_def Let_def
      sizeof_pdr_hdr_def sizeof_entity_association_def sizeof_entity_def)

section \<open>Records\<close>

lemma flat_merge: "flat n \<Longrightarrow> flat a \<Longrightarrow> mergeContainedEntities n a = Some m \<Longrightarrow> flat m"
proof -
  assume n: "flat n" "flat a" and m: "mergeContainedEntities n a = Some m"
  from m have "m = Assoc (container_entity n) (contained_entities n @ contained_entities a)"
    by (simp add: mergeContainedEntities_def split: if_splits)
  then have "flat m \<longleftrightarrow> flat n \<and> flat a" by (simp only: flat_def assoc_node.sel set_append ball_Un)
  with n show "flat m" by simp
qed

lemma merge_keeps_flat: "flat a \<Longrightarrow> list_all flat ns \<Longrightarrow> list_all flat (merge_into a ns)"
  by (induction ns) (auto dest: flat_merge split: option.split)

lemma associations_are_flat:
  assumes "parseEntityAssociationPDR pdr ns = Some ns'" "list_all flat ns"
  shows "list_all flat ns'"
proof -
  have "flat a" if "getEntityAssociation es = Some a" for es a
    using that by (auto simp: getEntityAssociation_def flat_def split: list.splits)
  then show ?thesis
    using assms merge_keeps_flat
    by (auto simp: parseEntityAssociationPDR_def bind_eq_Some_conv split: option.splits)
qed

text \<open>The records of associations change nothing but the associations.\<close>

lemma association_records_add_associations:
  "parse_loop repo PLDM_PDR_ENTITY_ASSOCIATION cur mg = Some mg' \<Longrightarrow> list_all flat (associationNodes mg)
    \<Longrightarrow> \<exists>ns. mg' = mg\<lparr>associationNodes := ns\<rparr> \<and> list_all flat ns"
proof (induction repo "PLDM_PDR_ENTITY_ASSOCIATION" cur mg rule: parse_loop.induct)
  case (1 repo cur mg)
  consider (last) "pldm_pdr_find_record_by_type repo PLDM_PDR_ENTITY_ASSOCIATION cur = Some None" "mg' = mg"
    | (more) i nodes where
      "pldm_pdr_find_record_by_type repo PLDM_PDR_ENTITY_ASSOCIATION cur = Some (Some i)"
      "parse_record PLDM_PDR_ENTITY_ASSOCIATION (rec_data (records repo ! i)) mg = Some (mg\<lparr>associationNodes := nodes\<rparr>)"
      "parseEntityAssociationPDR (rec_data (records repo ! i)) (associationNodes mg) = Some nodes"
      "parse_loop repo PLDM_PDR_ENTITY_ASSOCIATION (Some i) (mg\<lparr>associationNodes := nodes\<rparr>) = Some mg'"
    using 1(2) unfolding parse_loop.simps [of repo _ cur]
    by (auto simp: parse_record_def pdr_type_codes split: option.splits)
  then show ?case
  proof cases
    case last
    with 1(3) show ?thesis by (intro exI [of _ "associationNodes mg"]) simp
  next
    case more
    from associations_are_flat [OF more(3) 1(3)] have "list_all flat nodes" .
    with 1(1) [OF more(1) refl more(2)] more(4) show ?thesis by auto
  qed
qed

section \<open>Paths and objects\<close>

lemma entities_of_paths:
  "(\<Union>path \<in> set (getEntityAssociationPaths t p). set path) = set p \<union> tree_entities t"
proof (induction t p rule: getEntityAssociationPaths.induct)
  case (1 e ns p)
  then show ?case by (cases ns) auto
qed

lemma populate_path_objects:
  "dom (map_of (systemHierarchy (populate_path es name mg))) = dom (map_of (systemHierarchy mg)) \<union> set es"
proof (induction es arbitrary: name mg)
  case (Cons e es)
  have "dom (map_of (unordered_emplace e path m)) = insert e (dom (map_of m))" for path and m :: "(pldm_entity \<times> string) list"
    by (auto simp: unordered_emplace_def map_add_def split: option.splits)
  with Cons show ?case by (auto simp: Let_def add_interface_def)
qed simp

lemma populated_objects:
  "dom (map_of (systemHierarchy (populateSystemHierarchy mg)))
    = dom (map_of (systemHierarchy mg)) \<union> (\<Union>path \<in> set (entityObjectPaths mg). set path)"
proof -
  have "dom (map_of (systemHierarchy (fold (\<lambda>path. populate_path path '''') paths mg)))
      = dom (map_of (systemHierarchy mg)) \<union> (\<Union>path \<in> set paths. set path)" for paths
    by (induction paths arbitrary: mg) (auto simp: populate_path_objects)
  then show ?thesis by (simp add: populateSystemHierarchy_def)
qed

lemma nothing_reachable:
  assumes "find (in_container cid) assocs = None"
  shows "hierarchy assocs cid = {}"
proof -
  have "False" if "e \<in> hierarchy assocs cid" for e
    using that assms by induction (simp_all add: find_None_iff)
  then show ?thesis by blast
qed

text \<open>
  C25: Once the association records of a terminus have been parsed, an entity has an object path exactly
  when the records reach it from the container of the terminus, whatever the order of the records; the
  tree behind it has these entities, the first entity of the container as its root and only edges
  that a record states. The loops over the records end.
\<close>
theorem reachable_entities_get_an_object:
  assumes "associationNodes mg0 = []" "associationTree mg0 = None"
    and "entityObjectPaths mg0 = []" "systemHierarchy mg0 = []"
    and "parse_loop (mg_repo mg0) PLDM_PDR_ENTITY_ASSOCIATION None mg0 = Some mg"
  shows "\<exists>mg1. parsePDR PLDM_PDR_ENTITY_ASSOCIATION mg0 = Some mg1
    \<and> (\<forall>e. getEntityObjectPath e (populateSystemHierarchy (find_paths mg1)) \<noteq> None
         \<longleftrightarrow> e \<in> hierarchy (associationNodes mg) (mg_containerID mg))
    \<and> (case find (in_container (mg_containerID mg)) (associationNodes mg) of
         None \<Rightarrow> associationTree mg1 = None
       | Some r \<Rightarrow> (\<exists>tree. associationTree mg1 = Some tree \<and> container_entity tree = container_entity r
           \<and> tree_entities tree = hierarchy (associationNodes mg) (mg_containerID mg)
           \<and> tree_edges tree \<subseteq> stated_edges (associationNodes mg) (mg_containerID mg)))"
proof -
  let ?ns = "associationNodes mg" and ?cid = "mg_containerID mg"
  from association_records_add_associations [OF assms(5)] assms(1)
  obtain ns where mg: "mg = mg0\<lparr>associationNodes := ns\<rparr>" and "list_all flat ns" by auto
  then have flat: "\<forall>n \<in> set ?ns. flat n" by (simp add: list_all_iff)
  from mg assms(2-4) have same: "associationTree mg = None" "entityObjectPaths mg = []" "systemHierarchy mg = []"
    by simp_all
  have objects: "getEntityObjectPath e (populateSystemHierarchy (find_paths m)) = None
      \<longleftrightarrow> (case associationTree m of None \<Rightarrow> True | Some t \<Rightarrow> e \<notin> tree_entities t)"
    if "entityObjectPaths m = []" "systemHierarchy m = []" for e m
  proof -
    have "getEntityObjectPath e (populateSystemHierarchy (find_paths m)) = None
        \<longleftrightarrow> e \<notin> dom (map_of (systemHierarchy (populateSystemHierarchy (find_paths m))))"
      by (simp only: getEntityObjectPath_def domIff not_not)
    moreover have "(\<forall>x \<in> set (getEntityAssociationPaths t []). e \<notin> set x) \<longleftrightarrow> e \<notin> tree_entities t" for t
      using entities_of_paths [of t "[]"] by auto
    ultimately show ?thesis using that
      by (simp add: populated_objects find_paths_def split: option.split)
  qed
  show ?thesis
  proof (cases "find (in_container ?cid) ?ns")
    case None
    then show ?thesis using assms(5) same
      by (auto simp: parsePDR_def objects nothing_reachable createEntityAssociationTree_def extractRootNode_none)
  next
    case (Some r)
    then have "?ns \<noteq> []" by auto
    moreover from tree_holds_what_is_reachable [OF flat Some] obtain tree rest where
      "createEntityAssociationTree ?ns ?cid = (Some tree, rest)" "container_entity tree = container_entity r"
      "tree_entities tree = hierarchy ?ns ?cid" "tree_edges tree \<subseteq> stated_edges ?ns ?cid" by blast
    ultimately show ?thesis using assms(5) same Some
      by (simp add: parsePDR_def objects del: not_None_eq)
  qed
qed

text \<open>Three records, not in the order of the hierarchy; the entities of the second are nowhere.\<close>

definition entity_no :: "byte \<Rightarrow> byte \<Rightarrow> byte list" where
  "entity_no i c = [64, 0, i, 0, c, 0]"

definition association_record :: "byte \<Rightarrow> byte list \<Rightarrow> byte list list \<Rightarrow> byte list" where
  "association_record h container parts =
     [h, 0, 0, 0, 1, 15, 0, 0, word_of_nat (10 + 6 * length parts), 0, 1, 0, 0]
     @ container @ [word_of_nat (length parts)] @ concat parts"

definition three_associations :: pdr_manager where
  "three_associations = (PDRManager_ctor 1 1)\<lparr>mg_repo := pldm_pdr_init\<lparr>records :=
     map (\<lambda>r. \<lparr> record_handle = read32 r 0, rec_size = word_of_nat (length r), rec_data = r, is_remote = True \<rparr>)
     [association_record 1 (entity_no 3 2) [entity_no 5 3],
      association_record 2 (entity_no 9 9) [entity_no 10 9],
      association_record 3 (entity_no 1 1) [entity_no 2 2, entity_no 3 2]]\<rparr>\<rparr>"

lemma three_associations_parsed:
  "map_option (\<lambda>mg. length (associationNodes mg))
     (parse_loop (mg_repo three_associations) PLDM_PDR_ENTITY_ASSOCIATION None three_associations) = Some 3"
  by code_simp

theorem reachable_entities_get_an_object_witness:
  "\<exists>mg :: pdr_manager. \<exists>mg1. parsePDR PLDM_PDR_ENTITY_ASSOCIATION three_associations = Some mg1
     \<and> length (associationNodes mg) = 3
     \<and> (\<forall>e. getEntityObjectPath e (populateSystemHierarchy (find_paths mg1)) \<noteq> None
          \<longleftrightarrow> e \<in> hierarchy (associationNodes mg) (mg_containerID mg))"
proof -
  from three_associations_parsed obtain mg where
    "parse_loop (mg_repo three_associations) PLDM_PDR_ENTITY_ASSOCIATION None three_associations = Some mg"
    "length (associationNodes mg) = 3" by auto
  moreover from this reachable_entities_get_an_object [of three_associations mg]
  obtain mg1 where "parsePDR PLDM_PDR_ENTITY_ASSOCIATION three_associations = Some mg1"
    "\<forall>e. getEntityObjectPath e (populateSystemHierarchy (find_paths mg1)) \<noteq> None
       \<longleftrightarrow> e \<in> hierarchy (associationNodes mg) (mg_containerID mg)"
    by (auto simp: three_associations_def PDRManager_ctor_def)
  ultimately show ?thesis by blast
qed

end
