(* ===== verification/Pdr_Fetch_Props.thy ===== *)
theory Pdr_Fetch_Props
  imports Pdr_Fetch Platform_Props Pdr_Repo_Props
begin

unbundle bit_operations_syntax

text \<open>
  The repository that the PDR manager builds holds the records of the terminus. The terminus is
  described by what it answers: \<open>device\_answer\<close> is a responder that cuts its records into parts
  of the requested length.
\<close>

section \<open>A terminus with records\<close>

fun next_handle :: "(u32 \<times> byte list) list \<Rightarrow> u32 \<Rightarrow> u32" where
  "next_handle ((h, pdr) # (h', pdr') # recs) x =
     (if h = x then h' else next_handle ((h', pdr') # recs) x)"
| "next_handle recs x = 0"

definition part_flag :: "nat \<Rightarrow> bool \<Rightarrow> byte" where
  "part_flag off is_last = (if off = 0 then (if is_last then PLDM_START_AND_END else PLDM_START)
     else if is_last then PLDM_END else PLDM_MIDDLE)"

definition device_part :: "(u32 \<times> byte list) list \<Rightarrow> u32 \<Rightarrow> byte list \<Rightarrow> nat \<Rightarrow> nat \<Rightarrow> get_pdr_resp" where
  "device_part recs h pdr off k = \<lparr> gr_next_record_handle = next_handle recs h,
     gr_next_data_transfer_handle = (if off + k = length pdr then 0 else word_of_nat (off + k)),
     gr_transfer_flag = part_flag off (off + k = length pdr), gr_response_count = word_of_nat k \<rparr>"

definition device_answer :: "(u32 \<times> byte list) list \<Rightarrow> byte list \<Rightarrow> byte list" where
  "device_answer recs req = (case decode_get_pdr_req req of
     (rc, None) \<Rightarrow> [0, 0, 0, 1]
   | (rc, Some q) \<Rightarrow>
       let h = (if gp_record_handle q = 0 then fst (hd recs) else gp_record_handle q);
           off = (if gp_transfer_op_flag q = PLDM_GET_FIRSTPART then 0
                  else unat (gp_data_transfer_handle q))
       in case map_of recs h of
            None \<Rightarrow> [0, 0, 0, 1]
          | Some pdr \<Rightarrow>
              let k = min (unat (gp_request_count q)) (length pdr - off) in
              (case encode_get_pdr_resp (req ! 0 AND 0x1F) 0 (device_part recs h pdr off k)
                  (Some (drop off pdr)) (crc8 pdr) of
                 Some (Inr msg) \<Rightarrow> msg
               | _ \<Rightarrow> [0, 0, 0, 1]))"

text \<open>What a wait may change while a terminus is read, and a world in which it answers.\<close>

definition reachable_still :: "'a pldm_scheme \<Rightarrow> 'a pldm_scheme \<Rightarrow> bool" where
  "reachable_still s' s \<longleftrightarrow> tidMap s' = tidMap s \<and> rsvBWActive s' = rsvBWActive s"

definition serves :: "'a pldm_scheme world \<Rightarrow> (u32 \<times> byte list) list \<Rightarrow> bool" where
  "serves w recs \<longleftrightarrow> (\<forall>cs d tm p s. \<exists>s'. reachable_still s' s \<and>
     w cs (SendReceive d tm p) s = (s', \<lparr> a_error = False, a_rc = 0,
       a_bytes = 1 # device_answer recs (tl p) \<rparr>))"

lemma reachable_refl [simp]: "reachable_still s s"
  by (simp add: reachable_still_def)

lemma reachable_trans: "reachable_still c b \<Longrightarrow> reachable_still b a \<Longrightarrow> reachable_still c a"
  by (simp add: reachable_still_def)

lemma instance_reachable:
  "createInstanceId_pldm t s = (i, s') \<Longrightarrow> reachable_still s' s \<and> i < 32"
  using instance_id_range [of t s]
  by (auto simp: createInstanceId_pldm_def Let_def reachable_still_def)

section \<open>One part\<close>

text \<open>The request for the part of the record \<open>h\<close> from the offset \<open>off\<close> on.\<close>

definition part_request :: "u32 \<Rightarrow> nat \<Rightarrow> u16 \<Rightarrow> get_pdr_req" where
  "part_request h off chg = \<lparr> gp_record_handle = h, gp_data_transfer_handle = word_of_nat off,
     gp_transfer_op_flag = (if off = 0 then PLDM_GET_FIRSTPART else PLDM_GET_NEXTPART),
     gp_request_count = word_of_nat (maxPLDMMessageLen - 12), gp_record_change_number = chg \<rparr>"

abbreviation part_len :: "byte list \<Rightarrow> nat \<Rightarrow> nat" where
  "part_len pdr off \<equiv> min 48 (length pdr - off)"

lemma part_answer:
  assumes "encode_get_pdr_req i (part_request h0 off chg) 13 = Inr req" "i < 32"
    and "map_of recs h = Some pdr" "h0 = h \<and> h0 \<noteq> 0 \<or> h0 = 0 \<and> h = fst (hd recs)"
    and "off < length pdr" "length pdr < 65536"
  shows "encode_get_pdr_resp i 0 (device_part recs h pdr off (part_len pdr off)) (Some (drop off pdr))
       (crc8 pdr) = Some (Inr (device_answer recs req))"
proof -
  let ?k = "part_len pdr off"
  have req: "req ! 0 AND 0x1F = i"
    using assms(1,2) by (auto simp: encode_get_pdr_req_def platform_req split: if_splits)
  have "unat (word_of_nat off :: u32) = off" using assms(5,6) by (simp add: unat_of_nat_u32)
  then have off: "(if gp_transfer_op_flag (part_request h0 off chg) = PLDM_GET_FIRSTPART then 0
      else unat (gp_data_transfer_handle (part_request h0 off chg))) = off"
    by (simp add: part_request_def transfer_flags)
  have k: "min (unat (gp_request_count (part_request h0 off chg))) (length pdr - off) = ?k"
    by (simp add: part_request_def maxPLDMMessageLen_def)
  have h: "(if gp_record_handle (part_request h0 off chg) = 0 then fst (hd recs)
      else gp_record_handle (part_request h0 off chg)) = h"
    using assms(4) by (auto simp: part_request_def)
  obtain msg where msg: "encode_get_pdr_resp i 0 (device_part recs h pdr off ?k) (Some (drop off pdr))
      (crc8 pdr) = Some (Inr msg)"
    using assms(2,6) by (auto simp: encode_get_pdr_resp_def platform_resp memory_def device_part_def
        unat_of_nat_u16)
  with get_pdr_req_roundtrip [OF assms(2,1)] show ?thesis
    by (simp add: device_answer_def off h k req assms(3) Let_def)
qed

lemma decode_without_buffer:
  "decode_get_pdr_resp msg (Some n) = Some (rc, cc, Some (r, d, c))
    \<Longrightarrow> decode_get_pdr_resp msg None = Some (rc, cc, Some (r, None, c))"
  by (auto simp: decode_get_pdr_resp_def Let_def split: bind_splits if_splits)

text \<open>The variables after the part.\<close>

definition after_part :: "(u32 \<times> byte list) list \<Rightarrow> u32 \<Rightarrow> byte list \<Rightarrow> nat \<Rightarrow> pdr_transfer \<Rightarrow> bool" where
  "after_part recs h pdr off tr \<longleftrightarrow> pt_record tr = take off pdr
     \<and> pt_complete tr = (off = length pdr) \<and> pt_next_record tr = next_handle recs h
     \<and> (off < length pdr \<longrightarrow> pt_handle tr = word_of_nat off \<and> pt_op_flag tr = PLDM_GET_NEXTPART)"

lemma part_handled:
  assumes "encode_get_pdr_resp i 0 (device_part recs h pdr off (part_len pdr off)) (Some (drop off pdr))
      (crc8 pdr) = Some (Inr msg)" "i < 32"
    and "off < length pdr" "length pdr < 65536" "pt_record tr = take off pdr"
  obtains tr' where "handleGetPDRResp msg tr = Some (True, tr')"
    "after_part recs h pdr (off + part_len pdr off) tr'"
proof -
  let ?k = "part_len pdr off" and ?r = "device_part recs h pdr off (part_len pdr off)"
  have k: "unat (gr_response_count ?r) = ?k" "0 < ?k"
    using assms(3) by (auto simp: device_part_def unat_of_nat_u16)
  let ?crc = "if gr_transfer_flag ?r = PLDM_END then Some (crc8 pdr) else None"
  from get_pdr_resp_roundtrip [OF assms(2,1), of ?k] k
  have d: "decode_get_pdr_resp msg (Some ?k) = Some (PLDM_SUCCESS, 0,
      Some (?r, Some (take ?k (drop off pdr)), ?crc))" by simp
  note d0 = decode_without_buffer [OF d]
  have rec: "take off pdr @ take ?k (drop off pdr) = take (off + ?k) pdr"
    by (simp add: take_add)
  have eight: "\<not> off + ?k < 8" if "gr_transfer_flag ?r = PLDM_START"
    using that by (auto simp: device_part_def part_flag_def transfer_flags split: if_splits)
  have whole: "take (off + ?k) pdr = pdr" if "gr_transfer_flag ?r = PLDM_END"
    using that by (auto simp: device_part_def part_flag_def transfer_flags split: if_splits)
  have fin: "gr_transfer_flag ?r = PLDM_END \<or> gr_transfer_flag ?r = PLDM_START_AND_END
      \<longleftrightarrow> off + ?k = length pdr"
    by (auto simp: device_part_def part_flag_def transfer_flags)
  let ?tr = "tr\<lparr>pt_next_record := gr_next_record_handle ?r,
      pt_op_flag := (if off + ?k = length pdr then pt_op_flag tr else PLDM_GET_NEXTPART),
      pt_change_num := (if gr_transfer_flag ?r = PLDM_START then read16 (take (off + ?k) pdr) 6 else pt_change_num tr),
      pt_handle := gr_next_data_transfer_handle ?r, pt_complete := (off + ?k = length pdr),
      pt_record := take (off + ?k) pdr\<rparr>"
  have "handleGetPDRResp msg tr = Some (True, ?tr)"
    using d d0 k eight whole fin
    by (simp add: handleGetPDRResp_def validatePLDMRespDecode_def PLDM_SUCCESS_def rec assms(5) Let_def
        del: take_append)
  moreover have "after_part recs h pdr (off + ?k) ?tr"
    by (auto simp: after_part_def device_part_def)
  ultimately show thesis by (rule that)
qed

section \<open>All parts of a record\<close>

lemma encoded_part:
  "encode_get_pdr_resp i 0 r data crc = Some (Inr msg) \<Longrightarrow> i < 32 \<Longrightarrow>
    \<exists>ys. msg = i # 2 # PLDM_GET_PDR # 0 # ys"
  by (auto simp: encode_get_pdr_resp_def platform_resp split: bind_splits)

lemma served_exchange:
  assumes "serves w recs" "getMappedEID t (tidMap s) = Some d" "\<not> rsvBWActive s" "i < 32"
    and "req = (0x80 OR i) # 2 # PLDM_GET_PDR # xs" "device_answer recs req = i # 2 # PLDM_GET_PDR # cc # ys"
  obtains s' where "sendReceivePldmMessage w t 100 3 req [] None s
      = Some (True, device_answer recs req, s')" "reachable_still s' s"
proof -
  from assms(1) obtain s1 where s1: "reachable_still s1 s"
    "w (calls s) (SendReceive d 100 (1 # req)) s = (s1, \<lparr> a_error = False, a_rc = 0,
       a_bytes = 1 # device_answer recs req \<rparr>)"
    unfolding serves_def by (metis list.sel(3))
  have "receive_step (1 # req) (1 # device_answer recs req) = Some (True, req, device_answer recs req)"
    unfolding assms(6) using assms(4)
    by (simp add: assms(5) receive_step_def getPldmPacketType_def PLDM_RESPONSE_def
        PLDM_RQ_D_MASK_def mctp_type_pldm_def getInstanceId_pldm_def PLDM_INSTANCE_ID_MASK_def)
  with s1 assms(2,3) have "sendReceivePldmMessage w t 100 3 req [] None s
      = Some (True, device_answer recs req, s1\<lparr>calls := calls s @ [SendReceive d 100 (1 # req)]\<rparr>)"
    by (simp add: sendReceivePldmMessage_def header_type_def validateReserveBW_def numeral_3_eq_3
        wait_for_def mctp_type_pldm_def Let_def assms(5))
  with s1(1) that show thesis by (simp add: reachable_still_def)
qed

lemma record_fetched:
  assumes "serves w recs" "getMappedEID t (tidMap s) = Some d" "\<not> rsvBWActive s"
    and "map_of recs h = Some pdr" "h0 = h \<and> h0 \<noteq> 0 \<or> h0 = 0 \<and> h = fst (hd recs)"
    and "off < length pdr" "length pdr < 65536" "length pdr \<le> unat largest"
    and "length pdr - off \<le> 48 * n" "pt_record tr = take off pdr"
    and "pt_handle tr = word_of_nat off"
    and "pt_op_flag tr = (if off = 0 then PLDM_GET_FIRSTPART else PLDM_GET_NEXTPART)"
  shows "\<exists>tr' s'. record_loop w t largest h0 (Suc n) tr s = Some (True, tr', s')
    \<and> pt_record tr' = pdr \<and> pt_next_record tr' = next_handle recs h \<and> reachable_still s' s"
  using assms(2,3,6,9-12)
proof (induction n arbitrary: off tr s)
  case (Suc n)
  let ?k = "part_len pdr off"
  obtain i s1 where i: "createInstanceId_pldm t s = (i, s1)" by force
  note s1 = instance_reachable [OF i]
  let ?q = "part_request h0 off (pt_change_num tr)"
  from s1 obtain req xs where req: "encode_get_pdr_req i ?q 13 = Inr req"
    "req = (0x80 OR i) # 2 # PLDM_GET_PDR # xs"
    by (simp add: encode_get_pdr_req_def platform_req)
  note enc = part_answer [OF req(1) conjunct2 [OF s1] assms(4,5) Suc.prems(3) assms(7)]
  from encoded_part [OF this conjunct2 [OF s1]]
  obtain ys where ys: "device_answer recs req = i # 2 # PLDM_GET_PDR # 0 # ys" by blast
  have "getMappedEID t (tidMap s1) = Some d" "\<not> rsvBWActive s1"
    using s1 Suc.prems(1,2) by (auto simp: reachable_still_def)
  then obtain s2 where s2: "sendReceivePldmMessage w t 100 3 req [] None s1
      = Some (True, device_answer recs req, s2)" "reachable_still s2 s1"
    using served_exchange [OF assms(1) _ _ conjunct2 [OF s1] req(2) ys] by blast
  from s1 s2(2) have s: "reachable_still s2 s" by (blast intro: reachable_trans)
  from part_handled [OF enc conjunct2 [OF s1] Suc.prems(3) assms(7) Suc.prems(5)]
  obtain tr' where tr': "handleGetPDRResp (device_answer recs req) tr = Some (True, tr')"
    "after_part recs h pdr (off + ?k) tr'" by blast
  have q: "\<lparr> gp_record_handle = h0, gp_data_transfer_handle = pt_handle tr,
      gp_transfer_op_flag = pt_op_flag tr, gp_request_count = word_of_nat (maxPLDMMessageLen - 12),
      gp_record_change_number = pt_change_num tr \<rparr> = ?q"
    by (simp add: part_request_def Suc.prems(6,7))
  have "length (pt_record tr') \<le> unat largest" using tr'(2) assms(8) by (simp add: after_part_def)
  then have loop: "record_loop w t largest h0 (Suc (Suc n)) tr s
      = (if pt_complete tr' then Some (True, tr', s2) else record_loop w t largest h0 (Suc n) tr' s2)"
    using i req(1) s2(1) tr'(1) by (simp add: q del: record_loop.simps(2) add: record_loop.simps(2) [of w t largest h0 "Suc n"])
  show ?case
  proof (cases "off + ?k = length pdr")
    case True
    with tr'(2) s show ?thesis by (auto simp: loop after_part_def simp del: record_loop.simps(2))
  next
    case False
    have more: "off + ?k < length pdr" "length pdr - (off + ?k) \<le> 48 * n" "off + ?k \<noteq> 0"
      using False Suc.prems(3,4) by auto
    have "getMappedEID t (tidMap s2) = Some d" "\<not> rsvBWActive s2"
      using s Suc.prems(1,2) by (auto simp: reachable_still_def)
    from Suc.IH [OF this more(1,2), of tr'] tr'(2) more(1,3) False
    obtain tr2 s3 where "record_loop w t largest h0 (Suc n) tr' s2 = Some (True, tr2, s3)"
      "pt_record tr2 = pdr" "pt_next_record tr2 = next_handle recs h" "reachable_still s3 s2"
      by (auto simp: after_part_def simp del: record_loop.simps(2))
    with s tr'(2) False show ?thesis
      by (auto simp: loop after_part_def simp del: record_loop.simps(2) intro: reachable_trans)
  qed
qed simp

section \<open>All records\<close>

definition valid_locator :: "byte list \<Rightarrow> bool" where
  "valid_locator pdr \<longleftrightarrow> pdr ! 5 = PLDM_TERMINUS_LOCATOR_PDR \<and> pdr ! 12 = PLDM_TL_PDR_VALID"

text \<open>A record that can be fetched: it carries its handle, is as long as the structures that are
  read from it, fits the announced size and at most 99 parts of 48 bytes.\<close>

definition fetchable :: "u32 \<Rightarrow> u32 \<times> byte list \<Rightarrow> bool" where
  "fetchable largest p = (case p of (h, pdr) \<Rightarrow> h \<noteq> 0 \<and> 16 \<le> length pdr \<and> read32 pdr 0 = h
     \<and> length pdr \<le> 48 * 99 \<and> length pdr \<le> unat largest)"

lemma next_handle_split: "distinct (map fst (xs @ (h, pdr) # ys)) \<Longrightarrow>
    next_handle (xs @ (h, pdr) # ys) h = (case ys of [] \<Rightarrow> 0 | (h', pdr') # zs \<Rightarrow> h')"
proof (induction xs)
  case Nil
  then show ?case by (cases ys) auto
next
  case (Cons x xs)
  then show ?case by (cases x; cases xs) auto
qed

lemma records_fetched:
  assumes "serves w recs" "distinct (map fst recs)" "list_all (fetchable largest) recs"
    and "getMappedEID t (tidMap s) = Some d" "\<not> rsvBWActive s"
    and "recs = xs @ ys" "ys \<noteq> []" "h0 = (if xs = [] then 0 else fst (hd ys))" "length ys \<le> n"
  shows "\<exists>s'. repo_loop w t largest n h0 xs s = Some (True, recs, s') \<and> reachable_still s' s"
  using assms(4-9)
proof (induction ys arbitrary: xs n h0 s)
  case (Cons y ys)
  obtain h pdr where y: "y = (h, pdr)" by force
  from Cons.prems(6) obtain m where n: "n = Suc m" by (cases n) auto
  from assms(3) Cons.prems(3) y have ok: "fetchable largest (h, pdr)" by auto
  have at: "map_of recs h = Some pdr"
    using Cons.prems(3) y by (intro map_of_is_SomeI [OF assms(2)]) simp
  have h0: "h0 = h \<and> h0 \<noteq> 0 \<or> h0 = 0 \<and> h = fst (hd recs)"
    using ok Cons.prems(3,5) y by (auto simp: fetchable_def)
  have "\<exists>tr' s'. record_loop w t largest h0 (Suc 99) start_transfer s = Some (True, tr', s')
    \<and> pt_record tr' = pdr \<and> pt_next_record tr' = next_handle recs h \<and> reachable_still s' s"
    using ok by (intro record_fetched [OF assms(1) Cons.prems(1,2) at h0, of 0])
      (auto simp: fetchable_def start_transfer_def)
  then obtain s1 where s1: "getDevicePDRRecord w t largest h0 s
      = Some (True, next_handle recs h, pdr, s1)" "reachable_still s1 s"
    by (auto simp: getDevicePDRRecord_def simp del: record_loop.simps)
  have nexth: "next_handle recs h = (case ys of [] \<Rightarrow> 0 | (h', pdr') # zs \<Rightarrow> h')"
    using next_handle_split [of xs h pdr ys] assms(2) Cons.prems(3) y by simp
  have new: "unordered_emplace (read32 pdr 0) pdr xs = xs @ [y]"
    using ok assms(2) Cons.prems(3) y
    by (auto simp: unordered_emplace_def fetchable_def map_of_eq_None_iff)
  have loop: "repo_loop w t largest n h0 xs s = (if next_handle recs h = 0 then Some (True, xs @ [y], s1)
      else repo_loop w t largest m (next_handle recs h) (xs @ [y]) s1)"
    using s1 ok by (auto simp: n new fetchable_def)
  show ?case
  proof (cases ys)
    case Nil
    with loop nexth s1(2) Cons.prems(3) show ?thesis by auto
  next
    case (Cons z zs)
    obtain h' pdr' where z: "z = (h', pdr')" by force
    from assms(3) Cons.prems(3) Cons z have "h' \<noteq> 0" by (auto simp: fetchable_def)
    moreover have "\<exists>s'. repo_loop w t largest m h' (xs @ [y]) s1 = Some (True, recs, s') \<and> reachable_still s' s1"
      using Cons.prems s1(2) Cons z n
      by (intro Cons.IH) (auto simp: reachable_still_def)
    ultimately show ?thesis using loop nexth Cons z s1(2) by (auto intro: reachable_trans)
  qed
qed simp

section \<open>The repository\<close>

definition fetched_record :: "tid \<Rightarrow> u32 \<times> byte list \<Rightarrow> pdr_record" where
  "fetched_record t p = (case p of (h, pdr) \<Rightarrow> \<lparr> record_handle = h,
     rec_size = word_of_nat (length pdr),
     rec_data = (if valid_locator pdr then pdr[13 := t] else pdr), is_remote = True \<rparr>)"

definition located_container :: "(u32 \<times> byte list) list \<Rightarrow> u16 \<Rightarrow> u16" where
  "located_container devs cid = (case filter (\<lambda>p. valid_locator (snd p)) devs of
     [] \<Rightarrow> cid | p # ps \<Rightarrow> read16 (snd p) 14)"

lemma records_added:
  assumes "list_all (fetchable largest) devs"
    and "length (filter (\<lambda>p. valid_locator (snd p)) devs) \<le> (if found then 0 else 1)"
  shows "\<exists>repo'. add_pdr_loop t devs found cid repo = Some (True, located_container devs cid, repo')
    \<and> records repo' = records repo @ map (fetched_record t) devs
    \<and> record_count repo' = record_count repo + word_of_nat (length devs)"
  using assms
proof (induction devs arbitrary: found cid repo)
  case Nil
  then show ?case by (simp add: located_container_def)
next
  case (Cons p devs)
  obtain h pdr where p: "p = (h, pdr)" by force
  let ?r = "fetched_record t p"
  have ok: "h \<noteq> 0" "16 \<le> length pdr" "length pdr \<le> 4752"
    using Cons.prems(1) p by (auto simp: fetchable_def)
  have sz: "unat (word_of_nat (length pdr) :: u32) = length pdr" "word_of_nat (length pdr) \<noteq> (0::u32)"
    using ok by (auto simp: unat_of_nat_u32 simp flip: unat_eq_0)
  have add: "pldm_pdr_add repo (if valid_locator pdr then pdr[13 := t] else pdr)
      (word_of_nat (length pdr)) h True = Some (h, add_record repo ?r)"
    using ok sz by (simp add: pldm_pdr_add_def make_new_record_def p fetched_record_def)
  have once: "\<not> (valid_locator pdr \<and> found)" using Cons.prems(2) p by auto
  let ?cid = "if valid_locator pdr then read16 pdr 14 else cid"
  have "\<exists>repo'. add_pdr_loop t devs (found \<or> valid_locator pdr) ?cid (add_record repo ?r)
      = Some (True, located_container devs ?cid, repo')
    \<and> records repo' = records (add_record repo ?r) @ map (fetched_record t) devs
    \<and> record_count repo' = record_count (add_record repo ?r) + word_of_nat (length devs)"
    using Cons.prems p by (intro Cons.IH) (auto split: if_splits)
  moreover have "located_container devs ?cid = located_container (p # devs) cid"
    using Cons.prems(2) p by (auto simp: located_container_def split: if_splits list.splits)
  moreover have "add_pdr_loop t (p # devs) found cid repo
      = add_pdr_loop t devs (found \<or> valid_locator pdr) ?cid (add_record repo ?r)"
    using ok add once by (auto simp: p valid_locator_def Let_def)
  ultimately show ?case by (auto simp: add_record_def)
qed

lemma short_mset: "mset xs = mset ys \<Longrightarrow> length ys \<le> 1 \<Longrightarrow> xs = ys"
  by (cases ys) auto

text \<open>C24: When a terminus answers GetPDR by the parts of its records, the repository that is built
  for it holds exactly its records, with their handles and their bytes, in the order in which the
  container of fetched records is visited. Only the TID in the terminus locator is replaced by the one the
  terminus was given, and the container id is that of the locator. The records are assumed to
  carry distinct handles other than 0, to have at least 16 and at most 4752 bytes and no more than
  announced, and at most one is a valid locator; the terminus stays mapped, and no bandwidth is
  reserved.\<close>

theorem repository_is_fetched:
  assumes "serves w recs" "distinct (map fst recs)" "list_all (fetchable largest) recs"
    and "recs \<noteq> []" "length recs < 4294967296"
    and "length (filter (\<lambda>p. valid_locator (snd p)) recs) \<le> 1"
    and "getMappedEID t (tidMap s) = Some d" "\<not> rsvBWActive s"
    and "pi_repository_state info = 0" "pi_record_count info = word_of_nat (length recs)"
    and "pi_largest_record_size info = largest" "mset (ord recs) = mset recs"
  obtains repo s' where "constructPDRRepo w ord t info cid pldm_pdr_init s
      = Some (True, located_container recs cid, repo, s')"
    "records repo = map (fetched_record t) (ord recs)" "reachable_still s' s"
proof -
  have n: "unat (word_of_nat (length recs) :: u32) = length recs"
    using assms(5) by (simp add: unat_of_nat_u32)
  with assms(4) have n0: "word_of_nat (length recs) \<noteq> (0::u32)"
    by (metis length_0_conv unat_0)
  obtain s' where s': "getDevicePDRRepo w t largest (word_of_nat (length recs)) [] s
      = Some (True, recs, s')" "reachable_still s' s"
    using records_fetched [OF assms(1-3,7,8), of "[]" recs 0 "length recs"] assms(4) n n0
    by (auto simp: getDevicePDRRepo_def)
  have tries: "fetch_tries w t largest (word_of_nat (length recs)) 3 s = Some (Some recs, s')"
    using s'(1) by (simp add: numeral_3_eq_3)
  let ?f = "filter (\<lambda>p. valid_locator (snd p))"
  have ord: "mset (?f (ord recs)) = mset (?f recs)" "length (ord recs) = length recs"
    using assms(12) by (auto simp: mset_filter dest: mset_eq_length)
  then have one: "length (?f (ord recs)) \<le> 1" using assms(6) by (metis mset_eq_length)
  have "?f (ord recs) = ?f recs" using ord(1) assms(6) by (rule short_mset)
  then have cid: "located_container (ord recs) cid = located_container recs cid"
    by (simp add: located_container_def)
  have "list_all (fetchable largest) (ord recs)"
    using assms(3,12) by (metis list_all_iff set_mset_mset)
  from records_added [OF this, of False t cid pldm_pdr_init] one cid ord(2)
  obtain repo where "addDevicePDRToRepo t (ord recs) cid pldm_pdr_init
      = Some (True, located_container recs cid, repo)"
    "records repo = map (fetched_record t) (ord recs)"
    "record_count repo = word_of_nat (length recs)"
    by (auto simp: addDevicePDRToRepo_def pldm_pdr_init_def)
  with that [of repo s'] tries s'(2) assms(9-11) n0 show thesis
    by (auto simp: constructPDRRepo_def pldm_pdr_get_record_count_def)
qed

definition pdr_device :: "(u32 \<times> byte list) list \<Rightarrow> 'a pldm_scheme world" where
  "pdr_device recs cs c s = (s, \<lparr> a_error = False, a_rc = 0, a_bytes = (case c of
     SendReceive d tm p \<Rightarrow> 1 # device_answer recs (tl p) | _ \<Rightarrow> []) \<rparr>)"

lemma pdr_device_serves: "serves (pdr_device recs) recs"
  unfolding serves_def by (auto simp: pdr_device_def intro: exI [of _ s for s])

text \<open>A locator record with container 100 and a record of 60 bytes, which takes two parts.\<close>

definition locator_record :: "byte list" where
  "locator_record = enc32 5 @ [1, 1, 0, 0, 9, 0, 0, 0, 1, 0, 100, 0, 1, 1, 8]"

definition long_record :: "byte list" where
  "long_record = enc32 9 @ [1, 4] @ replicate 54 0"

definition sample_info :: pdr_repository_info where
  "sample_info = \<lparr> pi_repository_state = 0, pi_update_time = replicate 13 0,
     pi_oem_update_time = replicate 13 0, pi_record_count = 2, pi_repository_size = 79,
     pi_largest_record_size = 60, pi_data_transfer_handle_timeout = 0 \<rparr>"

definition one_terminus :: pldm where
  "one_terminus = pldm_start\<lparr>tidMap := [(7, 20)]\<rparr>"

lemma sample_records:
  "list_all (fetchable 60) [(5, locator_record), (9, long_record)]"
  "valid_locator locator_record" "\<not> valid_locator long_record"
  by (auto simp: fetchable_def valid_locator_def locator_record_def long_record_def read_enc nth_append
      PLDM_TERMINUS_LOCATOR_PDR_def PLDM_TL_PDR_VALID_def)

theorem repository_is_fetched_witness:
  "\<exists>repo s'. constructPDRRepo (pdr_device [(5, locator_record), (9, long_record)]) rev 7 sample_info 0
      pldm_pdr_init one_terminus = Some (True, 100, repo, s')
    \<and> records repo = [fetched_record 7 (9, long_record), fetched_record 7 (5, locator_record)]"
proof -
  have cid: "located_container [(5, locator_record), (9, long_record)] 0 = 100"
    using sample_records by (simp add: located_container_def)
      (simp add: locator_record_def read16_def le16_def nth_append)
  show ?thesis
  proof (rule repository_is_fetched [OF pdr_device_serves,
      where recs = "[(5, locator_record), (9, long_record)]" and largest = 60 and t = 7 and d = 20
        and s = one_terminus and info = sample_info and ord = rev and cid = 0])
    show "list_all (fetchable 60) [(5, locator_record), (9, long_record)]" by (rule sample_records)
    show "length (filter (\<lambda>p. valid_locator (snd p)) [(5, locator_record), (9, long_record)]) \<le> 1"
      using sample_records(2,3) by simp
    fix repo s'
    assume "constructPDRRepo (pdr_device [(5, locator_record), (9, long_record)]) rev 7 sample_info 0
        pldm_pdr_init one_terminus
      = Some (True, located_container [(5, locator_record), (9, long_record)] 0, repo, s')"
      "records repo = map (fetched_record 7) (rev [(5, locator_record), (9, long_record)])"
    then show ?thesis by (simp add: cid)
  qed (simp_all add: one_terminus_def pldm_start_def sample_info_def getMappedEID_def)
qed

section \<open>What is accepted\<close>

definition closing_part :: "byte list \<Rightarrow> u32 \<Rightarrow> byte list \<Rightarrow> bool" where
  "closing_part resp nexth pdr \<longleftrightarrow> (\<exists>k r d c.
     decode_get_pdr_resp resp (Some k) = Some (PLDM_SUCCESS, 0, Some (r, d, c))
     \<and> gr_next_record_handle r = nexth
     \<and> (gr_transfer_flag r = PLDM_START_AND_END
        \<or> gr_transfer_flag r = PLDM_END \<and> crc8 pdr = (case c of None \<Rightarrow> 0 | Some x \<Rightarrow> x)))"

lemma handled_part:
  assumes "handleGetPDRResp resp tr = Some (True, tr')" "pt_complete tr'"
  shows "closing_part resp (pt_next_record tr') (pt_record tr')"
proof -
  from assms obtain cc0 rc0 r0 d0 c0 where first: "decode_get_pdr_resp resp None = Some (rc0, cc0, Some (r0, d0, c0))"
    by (auto simp: handleGetPDRResp_def split: bind_splits if_splits)
  with assms(1) obtain rc cc out where second: "decode_get_pdr_resp resp (Some (unat (gr_response_count r0)))
      = Some (rc, cc, out)" "validatePLDMRespDecode rc (uint cc)"
    by (auto simp: handleGetPDRResp_def split: bind_splits if_splits)
  then have ok: "rc = PLDM_SUCCESS" "cc = 0"
    by (auto simp: validatePLDMRespDecode_def PLDM_SUCCESS_def uint_0_iff)
  from assms(1) first second obtain r d c where out: "out = Some (r, d, c)"
    by (auto simp: handleGetPDRResp_def split: bind_splits if_splits)
  from assms first second out have "pt_next_record tr' = gr_next_record_handle r"
    "gr_transfer_flag r = PLDM_END \<or> gr_transfer_flag r = PLDM_START_AND_END"
    "gr_transfer_flag r = PLDM_END \<longrightarrow> crc8 (pt_record tr') = (case c of None \<Rightarrow> 0 | Some x \<Rightarrow> x)"
    by (auto simp: handleGetPDRResp_def Let_def split: bind_splits if_splits)
  moreover have "decode_get_pdr_resp resp (Some (unat (gr_response_count r0)))
      = Some (PLDM_SUCCESS, 0, Some (r, d, c))" using second(1) ok out by simp
  ultimately show ?thesis unfolding closing_part_def by metis
qed

lemma record_loop_accepts:
  assumes "record_loop w t largest h n tr s = Some (True, tr', s')"
  shows "length (pt_record tr') \<le> unat largest
    \<and> (\<exists>resp. closing_part resp (pt_next_record tr') (pt_record tr'))"
  using assms
proof (induction n arbitrary: tr s)
  case (Suc n)
  then show ?case
    by (force split: prod.splits sum.splits bind_splits if_splits simp: Let_def dest: handled_part)
qed simp

text \<open>A record that is accepted is not longer than announced, and the part that ended it was a
  single one or carried the checksum of the whole record.\<close>

lemma accepted_record_is_checked:
  assumes "getDevicePDRRecord w t largest h s = Some (True, nexth, pdr, s')"
  shows "length pdr \<le> unat largest \<and> (\<exists>resp. closing_part resp nexth pdr)"
  using assms record_loop_accepts
  by (fastforce simp: getDevicePDRRecord_def split: bind_splits)

text \<open>A first part of less than eight bytes is read past its end.\<close>

lemma short_first_part_is_read_past_its_end:
  "handleGetPDRResp ([3, 2, 0x51, 0] @ enc32 0 @ enc32 1 @ [PLDM_START] @ enc16 1 @ [9]) start_transfer = None"
  by code_simp

end
