(* ===== verification/Pdr_Manager_Props.thy ===== *)
theory Pdr_Manager_Props
  imports Pdr_Manager Pdr_Fetch_Props Pdr_Entity_Props
begin

unbundle bit_operations_syntax

text \<open>
  What the PDR manager makes of the records: the names of entities and when their loop ends, the
  tree of entities, and the possible states of a state sensor.
\<close>

section \<open>Names for a range of entities\<close>

lemma emplace_twice [simp]:
  "unordered_emplace k x (unordered_emplace k y m) = unordered_emplace k y m"
  by (auto simp: unordered_emplace_def map_add_def split: option.splits)

lemma endless_names:
  assumes "shared_names_loop e name bound i c names = Some names'"
  shows "bound < 65535"
  using assms
proof (induction rule: shared_names_loop.raw_induct [rotated, consumes 1, case_names step])
  case (step loop e name bound i c names names')
  then show ?case using u16_less [of i] by (auto split: if_splits)
qed

lemma names_of_range:
  assumes "bound < 65535" "unat i \<le> bound"
  shows "shared_names_loop e name bound i c names
    = Some (unordered_emplace e (name @ ''_'' @ to_string (unat c)) names)"
  using assms(2)
proof (induction "bound - unat i" arbitrary: i c names)
  case 0
  then have "unat i = bound" by simp
  moreover from this assms(1) have "unat (i + 1) = Suc bound"
    by (cases "i = 0xFFFF") (simp_all add: u16_Suc)
  ultimately show ?case
    using shared_names_loop.simps [of e name bound i]
      shared_names_loop.simps [of e name bound "i + 1"] by simp
next
  case (Suc k)
  from Suc.prems assms(1) have "unat (i + 1) = Suc (unat i)"
    by (cases "i = 0xFFFF") (simp_all add: u16_Suc)
  with Suc.hyps(2) Suc.prems show ?case
    using Suc.hyps(1) [of "i + 1"] shared_names_loop.simps [of e name bound i c names] by simp
qed

text \<open>
  C26: A record that names a range of entities is read to the end exactly when the last instance number
  of the range is below 65535; otherwise the 16-bit instance number wraps around and the loop goes
  on forever. When it ends, one name has been added, for the first entity of the range.
\<close>
theorem shared_names_loop_ends_iff:
  assumes "18 \<le> length pdr" "pdr ! 16 \<noteq> 0"
    and "getAuxName (pdr ! 17) (length pdr - 18) (drop 18 pdr) = Some (Some name)"
  shows "parseEntityAuxNamesPDR pdr names
    = (if unat (entity_instance_num (entity_at pdr 10)) + unat (pdr ! 16) < 65535
       then Some (unordered_emplace (entity_at pdr 10) (name @ ''_0'') names) else None)"
proof -
  let ?e = "entity_at pdr 10" and ?i = "entity_instance_num (entity_at pdr 10)"
  let ?loop = "shared_names_loop ?e name (unat ?i + unat (pdr ! 16)) ?i 0 names"
  have "parseEntityAuxNamesPDR pdr names = ?loop"
    using assms by (simp add: parseEntityAuxNamesPDR_def Let_def)
  moreover have "to_string 0 = ''0''" by code_simp
  moreover have "?loop = None" if "\<not> unat ?i + unat (pdr ! 16) < 65535"
    using that endless_names [of ?e name _ ?i 0 names] by (cases ?loop) auto
  ultimately show ?thesis
    using names_of_range [of "unat ?i + unat (pdr ! 16)" ?i ?e name 0 names] by simp
qed

definition names_record :: "byte \<Rightarrow> byte \<Rightarrow> byte list" where
  "names_record inst shared =
     [1, 0, 0, 0, 1, 16, 0, 0, 18, 0, 64, 0, inst, inst, 1, 0, shared, 1]
     @ [0x65, 0x6E, 0, 0, 0x41, 0, 0]"

theorem shared_names_loop_ends_iff_witness:
  "parseEntityAuxNamesPDR (names_record 0 2) []
     = Some [(\<lparr> entity_type = 64, entity_instance_num = 0, entity_container_id = 1 \<rparr>, ''A_0'')]
   \<and> parseEntityAuxNamesPDR (names_record 0xFF 1) [] = None"
proof -
  have n: "getAuxName (names_record i s ! 17) (length (names_record i s) - 18) (drop 18 (names_record i s))
      = Some (Some ''A'')" for i s
  proof -
    have "map char_of [65 :: nat, 101, 110] = ''Aen''" by code_simp
    then have "getAuxName 1 7 [0x65, 0x6E, 0, 0, 0x41, 0, 0] = Some (Some ''A'')"
      by (simp add: getAuxName_def maxStrLen_def pldm_str_def format_aux_name_def utf8_bytes_def name_char_def
        le16_def byte_swap16_def)
    then show ?thesis by (simp add: names_record_def eval_nat_numeral)
  qed
  have e: "entity_at (names_record 0 s) 10
      = \<lparr> entity_type = 64, entity_instance_num = 0, entity_container_id = 1 \<rparr>"
    "unat (entity_instance_num (entity_at (names_record 0xFF s) 10)) = 65535" for s
    by (simp_all add: names_record_def entity_at_def read16_def le16_def)
  have "parseEntityAuxNamesPDR (names_record 0 2) []
      = (if unat (entity_instance_num (entity_at (names_record 0 2) 10)) + unat (names_record 0 2 ! 16) < 65535
         then Some (unordered_emplace (entity_at (names_record 0 2) 10) (''A'' @ ''_0'') []) else None)"
    by (rule shared_names_loop_ends_iff) (simp_all add: n, simp_all add: names_record_def)
  moreover have "parseEntityAuxNamesPDR (names_record 0xFF 1) []
      = (if unat (entity_instance_num (entity_at (names_record 0xFF 1) 10)) + unat (names_record 0xFF 1 ! 16) < 65535
         then Some (unordered_emplace (entity_at (names_record 0xFF 1) 10) (''A'' @ ''_0'') []) else None)"
    by (rule shared_names_loop_ends_iff) (simp_all add: n, simp_all add: names_record_def)
  ultimately show ?thesis
    by (simp only: e) (simp add: names_record_def unordered_emplace_def)
qed

section \<open>Possible states\<close>

text \<open>The bits of a byte of the possible states.\<close>

definition state_byte :: "byte list \<Rightarrow> nat \<Rightarrow> byte" where
  "state_byte V k = fold (\<lambda>v w. if unat v div 8 = k then set_bit (unat v mod 8) w else w) V 0"

lemma position_of_bit:
  fixes u :: nat
  shows "j < 8 \<Longrightarrow> 8 * k + j = u \<longleftrightarrow> u div 8 = k \<and> u mod 8 = j"
  using mult_div_mod_eq [of 8 u] by auto

lemma bit_state_byte:
  assumes "j < 8"
  shows "bit (state_byte V k) j \<longleftrightarrow> 8 * k + j \<in> unat ` set V"
proof -
  have "bit (fold (\<lambda>v w. if unat v div 8 = k then set_bit (unat v mod 8) w else w) V (w :: byte)) j
      \<longleftrightarrow> bit w j \<or> 8 * k + j \<in> unat ` set V" for w
  proof (induction V arbitrary: w)
    case (Cons v V)
    note eq = position_of_bit [OF assms, of k "unat v"]
    have "bit (set_bit m w) j \<longleftrightarrow> bit w j \<or> m = j" for m
      using assms by (auto simp: bit_set_bit_iff)
    then have "bit (if unat v div 8 = k then set_bit (unat v mod 8) w else w) j
        \<longleftrightarrow> bit w j \<or> 8 * k + j = unat v"
      by (simp only: eq split: if_split) simp
    with Cons [of "if unat v div 8 = k then set_bit (unat v mod 8) w else w"] show ?case
      by (simp only: fold_simps list.set image_insert insert_iff comp_apply disj_assoc)
  qed simp
  then show ?thesis by (simp add: state_byte_def)
qed

lemma filter_upt_sorted:
  assumes "sorted xs" "distinct xs" "\<forall>x \<in> set xs. x < m"
  shows "filter (\<lambda>x. x \<in> set xs) [0..<m] = xs"
proof (rule sorted_distinct_set_unique)
  show "set (filter (\<lambda>x. x \<in> set xs) [0..<m]) = set xs" using assms(3) by auto
  show "sorted (filter (\<lambda>x. x \<in> set xs) [0..<m])" by (simp add: sorted_wrt_filter)
qed (use assms in auto)

lemma possible_values_of_bytes:
  assumes "sorted V" "distinct V" "\<forall>v \<in> set V. unat v < 8 * n" "n \<le> 32"
  shows "possible_values (map (state_byte V) [0..<n]) = V"
proof -
  let ?xs = "map unat V"
  have "filter (\<lambda>pos. bit (map (state_byte V) [0..<n] ! (pos div 8)) (pos mod 8)) [0..<8 * min 32 n]
      = filter (\<lambda>pos. pos \<in> set ?xs) [0..<8 * n]"
    using assms(4) by (intro filter_cong) (auto simp: bit_state_byte min_def less_mult_imp_div_less mult.commute)
  also have "\<dots> = ?xs"
  proof (rule filter_upt_sorted)
    show "sorted ?xs" using assms(1) by (auto simp: sorted_map word_le_nat_alt elim: sorted_wrt_mono_rel [rotated])
    show "distinct ?xs" using assms(2) by (simp add: distinct_map inj_on_def flip: word_unat_eq_iff)
  qed (use assms(3) in auto)
  finally show ?thesis by (simp add: possible_values_def map_idI)
qed

text \<open>The block of possible states in a record.\<close>

definition state_block :: "u16 \<Rightarrow> nat \<Rightarrow> byte list \<Rightarrow> byte list" where
  "state_block set_id n V = enc16 set_id @ [word_of_nat n] @ map (state_byte V) [0..<n]"

lemma byte_of_small: "n \<le> 32 \<Longrightarrow> unat (word_of_nat n :: byte) = n"
  by (simp add: unat_of_nat take_bit_nat_eq_self)

lemma state_block_walk:
  "n \<le> 32 \<Longrightarrow> possible_states_walk (Suc 0) (state_block set_id n V) = Some (3 + n)"
  by (simp add: state_block_def enc16_def byte_of_small)

lemma state_block_memory: "memory (state_block set_id n V) 0 (3 + n) = Some (state_block set_id n V)"
  by (simp add: memory_def state_block_def enc16_def)

lemma sensor_path_keeps_states:
  "createSensorObjPath e i a mg = (p, mg') \<Longrightarrow> stateSensorPDR mg' = stateSensorPDR mg"
  by (auto simp: createSensorObjPath_def createSensorName_def Let_def split: if_splits prod.splits)

lemma effecter_path_keeps_states:
  "createEffecterObjPath e i a mg = (p, mg') \<Longrightarrow> stateEffecterPDR mg' = stateEffecterPDR mg"
  by (auto simp: createEffecterObjPath_def createEffecterName_def Let_def split: if_splits prod.splits option.splits)

lemma emplace_found: "map_of m k = None \<Longrightarrow> map_of (unordered_emplace k x m) k = Some x"
  by (simp add: unordered_emplace_def map_add_def)

text \<open>A record of a sensor with one set of states, at its fields.\<close>

definition sensor_record :: "state_sensor_pdr \<Rightarrow> byte list \<Rightarrow> byte list" where
  "sensor_record s blk = pdr_hdr (hd_record_handle (ss_hdr s)) 1 PLDM_STATE_SENSOR_PDR
     (hd_record_change_num (ss_hdr s)) (word_of_nat (13 + length blk))
     @ subject_bytes (ss_subject s)
     @ [ss_sensor_init s, ss_sensor_auxiliary_names_pdr s, ss_composite_sensor_count s] @ blk"

lemma sensor_record_fields:
  "pdr_subject_at (sensor_record s blk) = ss_subject s"
  "sensor_record s blk ! 20 = ss_sensor_init s" "sensor_record s blk ! 21 = ss_sensor_auxiliary_names_pdr s"
  "sensor_record s blk ! 22 = ss_composite_sensor_count s"
  "length (sensor_record s blk) = 23 + length blk"
  "read16 (sensor_record s (state_block set_id n V)) 23 = set_id"
  "sensor_record s (state_block set_id n V) ! 25 = word_of_nat n"
  "drop 26 (sensor_record s (state_block set_id n V)) = map (state_byte V) [0..<n]"
  by (simp_all add: sensor_record_def pdr_hdr_def enc32_def enc16_def subject_bytes_def state_block_def
      pdr_subject_at_def read16_def le16_split)

lemma cached_sensor:
  fixes set_id :: u16
  assumes V: "sorted V" "distinct V" "\<forall>v \<in> set V. unat v < 8 * n" and n: "1 \<le> n" "n \<le> 32"
    and "map_of (stateSensorPDR mg) (ps_id (ss_subject s)) = None"
  defines "r \<equiv> sensor_record s (state_block set_id n V)"
  shows "map_of (stateSensorPDR (parseStateSensorPDR r mg)) (ps_id (ss_subject s))
    = Some \<lparr> st_pdr = s\<lparr>ss_hdr := pdr_hdr_at r\<rparr>, st_stateSetID = set_id, st_values = V \<rparr>"
proof -
  have "length (state_block set_id n V) = 3 + n" by (simp add: state_block_def enc16_def)
  with n assms(6) show ?thesis
    unfolding r_def
    by (simp add: parseStateSensorPDR_def sensor_record_fields byte_of_small Let_def emplace_found
        possible_values_of_bytes [OF V n(2)] expose_sensor_def add_interface_def
        split: prod.split option.split)
       (auto dest!: sensor_path_keeps_states simp: emplace_found)
qed

text \<open>The same of an effecter.\<close>

definition effecter_record :: "state_effecter_pdr \<Rightarrow> byte list \<Rightarrow> byte list" where
  "effecter_record s blk = pdr_hdr (hd_record_handle (se_hdr s)) 1 PLDM_STATE_EFFECTER_PDR
     (hd_record_change_num (se_hdr s)) (word_of_nat (15 + length blk))
     @ subject_bytes (se_subject s) @ enc16 (se_effecter_semantic_id s)
     @ [se_effecter_init s, se_has_description_pdr s, se_composite_effecter_count s] @ blk"

lemma effecter_record_fields:
  "pdr_subject_at (effecter_record s blk) = se_subject s"
  "read16 (effecter_record s blk) 20 = se_effecter_semantic_id s"
  "effecter_record s blk ! 22 = se_effecter_init s" "effecter_record s blk ! 23 = se_has_description_pdr s"
  "effecter_record s blk ! 24 = se_composite_effecter_count s"
  "length (effecter_record s blk) = 25 + length blk"
  "read16 (effecter_record s (state_block set_id n V)) 25 = set_id"
  "effecter_record s (state_block set_id n V) ! 27 = word_of_nat n"
  "drop 28 (effecter_record s (state_block set_id n V)) = map (state_byte V) [0..<n]"
  by (simp_all add: effecter_record_def pdr_hdr_def enc32_def enc16_def subject_bytes_def state_block_def
      pdr_subject_at_def read16_def le16_split)

lemma cached_effecter:
  fixes set_id :: u16
  assumes V: "sorted V" "distinct V" "\<forall>v \<in> set V. unat v < 8 * n" and n: "1 \<le> n" "n \<le> 32"
    and "map_of (stateEffecterPDR mg) (ps_id (se_subject s)) = None"
  defines "r \<equiv> effecter_record s (state_block set_id n V)"
  shows "map_of (stateEffecterPDR (parseStateEffecterPDR r mg)) (ps_id (se_subject s))
    = Some \<lparr> st_pdr = s\<lparr>se_hdr := pdr_hdr_at r\<rparr>, st_stateSetID = set_id, st_values = V \<rparr>"
proof -
  have "length (state_block set_id n V) = 3 + n" by (simp add: state_block_def enc16_def)
  with n assms(6) show ?thesis
    unfolding r_def
    by (simp add: parseStateEffecterPDR_def effecter_record_fields byte_of_small Let_def emplace_found
        possible_values_of_bytes [OF V n(2)] expose_effecter_def add_interface_def
        split: prod.split option.split)
       (auto dest!: effecter_path_keeps_states simp: emplace_found)
qed

text \<open>
  What a terminus encodes with \<open>libpldm\_intel\<close> is what the PDR manager caches: the record that
  \<open>encode\_state\_sensor\_pdr\<close> (\<open>encode\_state\_effecter\_pdr\<close>) makes of a sensor (an effecter) with one
  set of states is accepted, and its entry has the same structure, the same state set and exactly the
  possible states that were encoded, up to 256 of them.
\<close>
lemma state_records_roundtrip:
  assumes "sorted V" "distinct V" "\<forall>v \<in> set V. unat v < 8 * n" "1 \<le> n" "n \<le> 32" "28 + n \<le> alloc"
    and "ss_composite_sensor_count sensor = 1" "map_of (stateSensorPDR mg) (ps_id (ss_subject sensor)) = None"
    and "se_composite_effecter_count effecter = 1"
      "map_of (stateEffecterPDR mg) (ps_id (se_subject effecter)) = None"
  shows "(\<exists>r. encode_state_sensor_pdr sensor alloc (state_block set_id n V) (3 + n)
        = Some (PLDM_SUCCESS, 26 + n, Some r)
      \<and> map_of (stateSensorPDR (parseStateSensorPDR r mg)) (ps_id (ss_subject sensor))
        = Some \<lparr> st_pdr = sensor\<lparr>ss_hdr := pdr_hdr_at r\<rparr>, st_stateSetID = set_id, st_values = V \<rparr>)
    \<and> (\<exists>r. encode_state_effecter_pdr effecter alloc (state_block set_id n V) (3 + n)
        = Some (PLDM_SUCCESS, 28 + n, Some r)
      \<and> map_of (stateEffecterPDR (parseStateEffecterPDR r mg)) (ps_id (se_subject effecter))
        = Some \<lparr> st_pdr = effecter\<lparr>se_hdr := pdr_hdr_at r\<rparr>, st_stateSetID = set_id, st_values = V \<rparr>)"
proof (intro conjI exI)
  have len: "length (state_block set_id n V) = 3 + n" by (simp add: state_block_def enc16_def)
  note simps = state_block_walk [OF assms(5)] state_block_memory len Let_def
  show "encode_state_sensor_pdr sensor alloc (state_block set_id n V) (3 + n)
      = Some (PLDM_SUCCESS, 26 + n, Some (sensor_record sensor (state_block set_id n V)))"
    using assms(6,7) by (simp add: encode_state_sensor_pdr_def sensor_record_def simps del: possible_states_walk.simps)
  show "encode_state_effecter_pdr effecter alloc (state_block set_id n V) (3 + n)
      = Some (PLDM_SUCCESS, 28 + n, Some (effecter_record effecter (state_block set_id n V)))"
    using assms(6,9) by (simp add: encode_state_effecter_pdr_def effecter_record_def simps del: possible_states_walk.simps)
qed (rule cached_sensor cached_effecter; fact assms)+

definition some_hdr :: pldm_pdr_hdr where
  "some_hdr = \<lparr> hd_record_handle = 3, hd_version = 1, hd_type = 4, hd_record_change_num = 0, hd_length = 17 \<rparr>"

definition some_subject :: pdr_subject where
  "some_subject = \<lparr> ps_terminus_handle = 1, ps_id = 7, ps_entity_type = 64, ps_entity_instance = 1, ps_container_id = 1 \<rparr>"

definition some_sensor :: state_sensor_pdr where
  "some_sensor = \<lparr> ss_hdr = some_hdr, ss_subject = some_subject, ss_sensor_init = 0,
     ss_sensor_auxiliary_names_pdr = 0, ss_composite_sensor_count = 1 \<rparr>"

definition some_effecter :: state_effecter_pdr where
  "some_effecter = \<lparr> se_hdr = some_hdr, se_subject = some_subject, se_effecter_semantic_id = 0,
     se_effecter_init = 0, se_has_description_pdr = 0, se_composite_effecter_count = 1 \<rparr>"

theorem state_records_roundtrip_witness:
  "(\<exists>r. encode_state_sensor_pdr some_sensor 40 (state_block 9 2 [1, 2, 12]) 5 = Some (PLDM_SUCCESS, 28, Some r)
      \<and> map_option st_values (map_of (stateSensorPDR (parseStateSensorPDR r (PDRManager_ctor 1 1))) 7)
        = Some [1, 2, 12])
    \<and> (\<exists>r. encode_state_effecter_pdr some_effecter 40 (state_block 9 2 [1, 2, 12]) 5
        = Some (PLDM_SUCCESS, 30, Some r)
      \<and> map_option st_values (map_of (stateEffecterPDR (parseStateEffecterPDR r (PDRManager_ctor 1 1))) 7)
        = Some [1, 2, 12])"
  using state_records_roundtrip [of "[1, 2, 12]" 2 40 some_sensor "PDRManager_ctor 1 1" some_effecter 9]
  by (auto simp: some_sensor_def some_effecter_def some_subject_def PDRManager_ctor_def)

end
