(* ===== verification/Fru_Codec.thy ===== *)
theory Fru_Codec
  imports Platform_Codec
begin

unbundle bit_operations_syntax

text \<open>
  The messages and tables of FRU data, PLDM type 4 (libpldm\_intel/fru.c and fru.h), with the
  conventions of the theory on platform messages: the outer \<open>None\<close> is an access outside a message
  or a buffer or a failed assertion; a decoder gives its return code, the completion code and the
  outputs when they are complete.
\<close>

section \<open>Codes\<close>

definition PLDM_GET_FRU_RECORD_TABLE_METADATA :: byte where "PLDM_GET_FRU_RECORD_TABLE_METADATA = 1"
definition PLDM_GET_FRU_RECORD_TABLE :: byte where "PLDM_GET_FRU_RECORD_TABLE = 2"
definition PLDM_SET_FRU_RECORD_TABLE :: byte where "PLDM_SET_FRU_RECORD_TABLE = 3"
definition PLDM_GET_FRU_RECORD_BY_OPTION :: byte where "PLDM_GET_FRU_RECORD_BY_OPTION = 4"

definition PLDM_FRU_RECORD_TYPE_GENERAL :: byte where "PLDM_FRU_RECORD_TYPE_GENERAL = 1"
definition PLDM_FRU_RECORD_TYPE_OEM :: byte where "PLDM_FRU_RECORD_TYPE_OEM = 0xFE"

lemmas fru_codes = PLDM_FRU_def PLDM_GET_FRU_RECORD_TABLE_METADATA_def PLDM_GET_FRU_RECORD_TABLE_def
  PLDM_SET_FRU_RECORD_TABLE_def PLDM_GET_FRU_RECORD_BY_OPTION_def

abbreviation fru_header :: "byte \<Rightarrow> byte \<Rightarrow> byte \<Rightarrow> int + byte list" where
  "fru_header instance_id command msg_type \<equiv> encode_pldm_header instance_id PLDM_FRU command msg_type"

section \<open>GetFRURecordTableMetadata\<close>

record fru_table_metadata =
  fm_data_major_version :: byte
  fm_data_minor_version :: byte
  fm_table_maximum_size :: u32
  fm_table_length :: u32
  fm_total_record_set_identifiers :: u16
  fm_total_table_records :: u16
  fm_checksum :: u32

definition encode_get_fru_record_table_metadata_req :: "byte \<Rightarrow> nat \<Rightarrow> int + byte list" where
  "encode_get_fru_record_table_metadata_req instance_id payload_length =
     (if payload_length \<noteq> 0 then Inl PLDM_ERROR_INVALID_LENGTH
      else fru_header instance_id PLDM_GET_FRU_RECORD_TABLE_METADATA PLDM_REQUEST)"

definition encode_get_fru_record_table_metadata_resp ::
    "byte \<Rightarrow> byte \<Rightarrow> fru_table_metadata \<Rightarrow> int + byte list" where
  "encode_get_fru_record_table_metadata_resp instance_id cc m =
     with_payload (fru_header instance_id PLDM_GET_FRU_RECORD_TABLE_METADATA PLDM_RESPONSE)
       (cc # (if cc = 0
              then [fm_data_major_version m, fm_data_minor_version m]
                @ enc32 (fm_table_maximum_size m) @ enc32 (fm_table_length m)
                @ enc16 (fm_total_record_set_identifiers m) @ enc16 (fm_total_table_records m)
                @ enc32 (fm_checksum m)
              else []))"

definition decode_get_fru_record_table_metadata_resp ::
    "byte list \<Rightarrow> (int \<times> byte \<times> fru_table_metadata option) option" where
  "decode_get_fru_record_table_metadata_resp msg = do {
     cc \<leftarrow> payload_at msg 0;
     Some (if cc \<noteq> 0 then (PLDM_SUCCESS, cc, None)
           else if length msg - 3 \<noteq> 19 then (PLDM_ERROR_INVALID_LENGTH, cc, None)
           else (PLDM_SUCCESS, cc, Some \<lparr> fm_data_major_version = msg ! 4,
                   fm_data_minor_version = msg ! 5, fm_table_maximum_size = read32 msg 6,
                   fm_table_length = read32 msg 10, fm_total_record_set_identifiers = read16 msg 14,
                   fm_total_table_records = read16 msg 16, fm_checksum = read32 msg 18 \<rparr>)) }"

section \<open>GetFRURecordTable\<close>

definition encode_get_fru_record_table_req :: "byte \<Rightarrow> u32 \<Rightarrow> byte \<Rightarrow> nat \<Rightarrow> int + byte list" where
  "encode_get_fru_record_table_req instance_id data_transfer_handle transfer_operation_flag payload_length =
     (if payload_length \<noteq> 5 then Inl PLDM_ERROR_INVALID_LENGTH
      else with_payload (fru_header instance_id PLDM_GET_FRU_RECORD_TABLE PLDM_REQUEST)
             (enc32 data_transfer_handle @ [transfer_operation_flag]))"

definition decode_get_fru_record_table_req :: "byte list \<Rightarrow> int \<times> (u32 \<times> byte) option" where
  "decode_get_fru_record_table_req msg =
     (if length msg - 3 \<noteq> 5 then (PLDM_ERROR_INVALID_LENGTH, None)
      else (PLDM_SUCCESS, Some (read32 msg 3, msg ! 7)))"

text \<open>The table data are appended by the caller.\<close>

definition encode_get_fru_record_table_resp :: "byte \<Rightarrow> byte \<Rightarrow> u32 \<Rightarrow> byte \<Rightarrow> int + byte list" where
  "encode_get_fru_record_table_resp instance_id cc next_data_transfer_handle transfer_flag =
     with_payload (fru_header instance_id PLDM_GET_FRU_RECORD_TABLE PLDM_RESPONSE)
       (cc # (if cc = 0 then enc32 next_data_transfer_handle @ [transfer_flag] else []))"

definition decode_get_fru_record_table_resp ::
    "byte list \<Rightarrow> (int \<times> byte \<times> (u32 \<times> byte \<times> byte list) option) option" where
  "decode_get_fru_record_table_resp msg = do {
     cc \<leftarrow> payload_at msg 0;
     Some (if cc \<noteq> 0 then (PLDM_SUCCESS, cc, None)
           else if length msg - 3 \<le> 6 then (PLDM_ERROR_INVALID_LENGTH, cc, None)
           else (PLDM_SUCCESS, cc, Some (read32 msg 4, msg ! 8, drop 9 msg))) }"

section \<open>SetFRURecordTable\<close>

definition encode_set_fru_record_table_req :: "byte \<Rightarrow> u32 \<Rightarrow> byte \<Rightarrow> byte list \<Rightarrow> nat \<Rightarrow> int + byte list" where
  "encode_set_fru_record_table_req instance_id data_transfer_handle transfer_flag table_data payload_length =
     (if payload_length \<noteq> 5 + length table_data \<or> table_data = [] then Inl PLDM_ERROR_INVALID_LENGTH
      else if \<not> check_transfer_flag_valid transfer_flag then Inl PLDM_ERROR_INVALID_DATA
      else with_payload (fru_header instance_id PLDM_SET_FRU_RECORD_TABLE PLDM_REQUEST)
             (enc32 data_transfer_handle @ [transfer_flag] @ table_data))"

definition decode_set_fru_record_table_resp :: "byte list \<Rightarrow> (int \<times> byte \<times> u32 option) option" where
  "decode_set_fru_record_table_resp msg = do {
     cc \<leftarrow> payload_at msg 0;
     Some (if cc \<noteq> 0 then (PLDM_SUCCESS, cc, None)
           else if length msg - 3 \<noteq> 5 then (PLDM_ERROR_INVALID_LENGTH, cc, None)
           else (PLDM_SUCCESS, cc, Some (read32 msg 4))) }"

section \<open>GetFRURecordByOption\<close>

record fru_option_req =
  fo_data_transfer_handle :: u32
  fo_fru_table_handle :: u16
  fo_record_set_identifier :: u16
  fo_record_type :: byte
  fo_field_type :: byte
  fo_transfer_op_flag :: byte

definition encode_get_fru_record_by_option_req :: "byte \<Rightarrow> fru_option_req \<Rightarrow> nat \<Rightarrow> int + byte list" where
  "encode_get_fru_record_by_option_req instance_id r payload_length =
     (if payload_length \<noteq> 11 then Inl PLDM_ERROR_INVALID_LENGTH
      else with_payload (fru_header instance_id PLDM_GET_FRU_RECORD_BY_OPTION PLDM_REQUEST)
             (enc32 (fo_data_transfer_handle r) @ enc16 (fo_fru_table_handle r)
              @ enc16 (fo_record_set_identifier r)
              @ [fo_record_type r, fo_field_type r, fo_transfer_op_flag r]))"

definition decode_get_fru_record_by_option_req :: "byte list \<Rightarrow> int \<times> fru_option_req option" where
  "decode_get_fru_record_by_option_req msg =
     (if length msg - 3 \<noteq> 11 then (PLDM_ERROR_INVALID_LENGTH, None)
      else (PLDM_SUCCESS, Some \<lparr> fo_data_transfer_handle = read32 msg 3,
              fo_fru_table_handle = read16 msg 7, fo_record_set_identifier = read16 msg 9,
              fo_record_type = msg ! 11, fo_field_type = msg ! 12, fo_transfer_op_flag = msg ! 13 \<rparr>))"

definition encode_get_fru_record_by_option_resp ::
    "byte \<Rightarrow> byte \<Rightarrow> u32 \<Rightarrow> byte \<Rightarrow> byte list \<Rightarrow> nat \<Rightarrow> int + byte list" where
  "encode_get_fru_record_by_option_resp instance_id cc next_data_transfer_handle transfer_flag
       fru_structure_data payload_length =
     (if payload_length < 6 then Inl PLDM_ERROR_INVALID_LENGTH
      else case fru_header instance_id PLDM_GET_FRU_RECORD_BY_OPTION PLDM_RESPONSE of
             Inl rc \<Rightarrow> Inl rc
           | Inr hdr \<Rightarrow>
               let fixed = hdr @ [cc] @ enc32 next_data_transfer_handle @ [transfer_flag] in
               if cc \<noteq> 0 then Inr fixed
               else if payload_length \<noteq> 6 + length fru_structure_data then Inl PLDM_ERROR_INVALID_LENGTH
               else Inr (fixed @ fru_structure_data))"

definition decode_get_fru_record_by_option_resp ::
    "byte list \<Rightarrow> (int \<times> byte \<times> (u32 \<times> byte \<times> byte list) option) option" where
  "decode_get_fru_record_by_option_resp msg = do {
     cc \<leftarrow> payload_at msg 0;
     Some (if cc \<noteq> 0 then (PLDM_SUCCESS, cc, None)
           else if length msg - 3 < 6 then (PLDM_ERROR_INVALID_LENGTH, cc, None)
           else (PLDM_SUCCESS, cc, Some (read32 msg 4, msg ! 8, drop 9 msg))) }"

section \<open>Tables\<close>

text \<open>A record is a header of five bytes and its fields, each a type, a length and a value.\<close>

definition fru_record_header :: "u16 \<Rightarrow> byte \<Rightarrow> byte \<Rightarrow> byte \<Rightarrow> byte list" where
  "fru_record_header record_set_id record_type num_fru_fields encoding_type =
     enc16 record_set_id @ [record_type, num_fru_fields, encoding_type]"

definition overwrite :: "byte list \<Rightarrow> nat \<Rightarrow> byte list \<Rightarrow> byte list option" where
  "overwrite bs i xs =
     (if i + length xs \<le> length bs then Some (take i bs @ xs @ drop (i + length xs) bs) else None)"

text \<open>The result: the return code, the current size and the table.\<close>

definition encode_fru_record :: "byte list \<Rightarrow> nat \<Rightarrow> nat \<Rightarrow> u16 \<Rightarrow> byte \<Rightarrow> byte \<Rightarrow> byte
    \<Rightarrow> byte list option \<Rightarrow> nat \<Rightarrow> (int \<times> nat \<times> byte list) option" where
  "encode_fru_record fru_table total_size curr_size record_set_id record_type num_frus enc tlvs tlvs_size =
     (if tlvs_size = 0 then Some (PLDM_ERROR_INVALID_DATA, curr_size, fru_table)
      else if curr_size + 5 + tlvs_size \<noteq> total_size
      then Some (PLDM_ERROR_INVALID_LENGTH, curr_size, fru_table)
      else do {
        table \<leftarrow> overwrite fru_table curr_size (fru_record_header record_set_id record_type num_frus enc);
        case tlvs of
          None \<Rightarrow> Some (PLDM_SUCCESS, curr_size + 5, table)
        | Some bytes \<Rightarrow> do {
            data \<leftarrow> memory bytes 0 tlvs_size;
            table \<leftarrow> overwrite table (curr_size + 5) data;
            Some (PLDM_SUCCESS, curr_size + 5 + tlvs_size, table) } })"

text \<open>The fields from a position on: where they end, and those of a type (0 is every type) with
  their number, appended to what the destination holds. The destination has \<open>cap\<close> bytes, and an
  assertion says that it never becomes full.\<close>

fun skip_fields :: "nat \<Rightarrow> byte list \<Rightarrow> nat \<Rightarrow> nat option" where
  "skip_fields 0 table p = Some p"
| "skip_fields (Suc n) table p =
     (if p + 1 < length table then skip_fields n table (p + 2 + unat (table ! (p + 1))) else None)"

fun copy_fields :: "nat \<Rightarrow> byte list \<Rightarrow> nat \<Rightarrow> byte \<Rightarrow> nat \<Rightarrow> nat \<Rightarrow> byte list \<Rightarrow> (nat \<times> byte list \<times> nat) option"
  where
  "copy_fields 0 table p ft cap cnt out = Some (cnt, out, p)"
| "copy_fields (Suc n) table p ft cap cnt out =
     (if \<not> p + 1 < length table then None
      else let len = 2 + unat (table ! (p + 1)) in
        if table ! p = ft \<or> ft = 0
        then (if \<not> length out + len < cap then None
              else do {
                field \<leftarrow> memory table p len;
                copy_fields n table (p + len) ft cap (cnt + 1) (out @ field) })
        else copy_fields n table (p + len) ft cap cnt out)"

lemma skip_fields_advances: "skip_fields n table p = Some q \<Longrightarrow> p \<le> q"
  by (induction n table p rule: skip_fields.induct) (auto split: if_splits)

lemma copy_fields_advances: "copy_fields n table p ft cap cnt out = Some (c, out', q) \<Longrightarrow> p \<le> q"
  by (induction n arbitrary: p cnt out)
     (fastforce simp: Let_def bind_eq_Some_conv split: if_splits)+

function by_option_loop :: "byte list \<Rightarrow> nat \<Rightarrow> nat \<Rightarrow> u16 \<Rightarrow> byte \<Rightarrow> byte \<Rightarrow> nat \<Rightarrow> byte list \<Rightarrow> byte list option"
  where
  "by_option_loop table table_size p rsi rt ft cap out =
     (if p = table_size then Some out
      else if \<not> p + 3 < length table then None
      else if read16 table p \<noteq> rsi \<and> rsi \<noteq> 0 \<or> table ! (p + 2) \<noteq> rt \<and> rt \<noteq> 0
      then (case skip_fields (unat (table ! (p + 3))) table (p + 5) of
              None \<Rightarrow> None
            | Some q \<Rightarrow> by_option_loop table table_size q rsi rt ft cap out)
      else if \<not> length out + 5 < cap \<or> \<not> p + 4 < length table then None
      else (case copy_fields (unat (table ! (p + 3))) table (p + 5) ft cap 0
                   (out @ take 5 (drop p table)) of
              None \<Rightarrow> None
            | Some (cnt, out', q) \<Rightarrow>
                by_option_loop table table_size q rsi rt ft cap (out'[length out + 3 := word_of_nat cnt])))"
  by pat_completeness auto
termination
  by (relation "measure (\<lambda>(table, table_size, p, rsi, rt, ft, cap, out). length table - p)")
     (fastforce dest: skip_fields_advances copy_fields_advances)+

declare by_option_loop.simps [simp del]

text \<open>The bytes of the destination that are written; their number is the new record size.\<close>

definition get_fru_record_by_option :: "byte list \<Rightarrow> nat \<Rightarrow> nat \<Rightarrow> u16 \<Rightarrow> byte \<Rightarrow> byte \<Rightarrow> byte list option" where
  "get_fru_record_by_option table table_size record_size rsi rt ft =
     by_option_loop table table_size 0 rsi rt ft record_size []"

end
