(* ===== verification/Fru_Manager.thy ===== *)
theory Fru_Manager
  imports Fru_Codec Pdr_Hierarchy
begin

unbundle bit_operations_syntax

text \<open>
  FRU support of the PLDM daemon (pldmd/src/fru.cpp, fru\_support.cpp and their headers): the record
  table of a terminus is fetched part by part, checked and parsed into properties; these are mapped
  to an IPMI FRU that can be read as a whole. Waiting goes through the world as in the theory on
  messaging. \<open>None\<close> is an access outside the table, a wild pointer or an uncaught exception.
\<close>

section \<open>State\<close>

datatype fru_variant = FRU_u8 byte | FRU_u32 u32 | FRU_string string

type_synonym fru_metadata = "(string \<times> u32) list"
type_synonym fru_properties = "(string \<times> fru_variant) list"

text \<open>A D-Bus interface is its path with the properties that are registered.\<close>

record fru_state = pldm +
  setFRUIface :: bool
  terminusFRUMetadata :: "(tid \<times> fru_metadata) list"
  terminusFRUProperties :: "(tid \<times> fru_properties) list"
  fruData :: "(tid \<times> byte list) list"
  fruInterface :: "(string \<times> fru_properties) list"
  ipmiFruInterface :: "(tid \<times> (string \<times> fru_properties)) list"
  ipmiFRUProperties :: "(tid \<times> fru_properties) list"

definition fru_start :: fru_state where
  "fru_start = pldm.extend pldm_start (fru_state.fields False [] [] [] [] [] [])"

definition fru_getProperties :: "tid \<Rightarrow> fru_state \<Rightarrow> fru_properties option" where
  "fru_getProperties t s = map_of (terminusFRUProperties s) t"

section \<open>Fields\<close>

datatype field_parser = ParserString | ParserTimestamp | ParserU32

definition fru_isprint :: "byte \<Rightarrow> bool" where
  "fru_isprint b \<longleftrightarrow> 32 \<le> unat b \<and> unat b \<le> 126"

text \<open>The parsers get the memory from the value on and the length.\<close>

definition fruFieldParserString :: "byte list \<Rightarrow> byte \<Rightarrow> string option" where
  "fruFieldParserString mem len =
     (if len < 1 then Some ''''
      else do {
        value \<leftarrow> memory mem 0 (unat len);
        Some (pldm_str (map (\<lambda>b. if fru_isprint b then b else 32) value)) })"

definition timeStamp104Size :: byte where "timeStamp104Size = 13"

text \<open>The parts of the time are checked with a disjunction.\<close>

definition timestamp_string :: "byte list \<Rightarrow> string" where
  "timestamp_string b =
     (let month = unat (b ! 3); day = unat (b ! 4); hour = unat (b ! 5); minute = unat (b ! 6);
          sec = unat (b ! 7)
      in if month \<ge> 1 \<and> month \<le> 12 \<or> day \<ge> 1 \<and> day \<le> 31 \<or> hour < 24 \<or> minute < 60 \<or> sec < 60
         then to_string (unat (read16 b 1)) @ ''-'' @ to_string month @ ''-'' @ to_string day
           @ '' '' @ to_string hour @ '':'' @ to_string minute @ '':'' @ to_string sec
         else '''')"

definition fruFieldParserTimestamp :: "byte list \<Rightarrow> byte \<Rightarrow> string option" where
  "fruFieldParserTimestamp mem len =
     (if len \<noteq> timeStamp104Size then Some ''''
      else map_option timestamp_string (memory mem 0 (unat timeStamp104Size)))"

text \<open>A value of four bytes is copied into a variable that is then used as a pointer.\<close>

definition fruFieldParserU32 :: "byte list \<Rightarrow> byte \<Rightarrow> string option" where
  "fruFieldParserU32 mem len = (if len = 4 then None else Some '''')"

fun run_parser :: "field_parser \<Rightarrow> byte list \<Rightarrow> byte \<Rightarrow> string option" where
  "run_parser ParserString = fruFieldParserString"
| "run_parser ParserTimestamp = fruFieldParserTimestamp"
| "run_parser ParserU32 = fruFieldParserU32"

definition fruGeneralFieldTypes :: "(byte \<times> (string \<times> field_parser)) list" where
  "fruGeneralFieldTypes = [(0x01, (''ChassisType'', ParserString)), (0x02, (''Model'', ParserString)),
     (0x03, (''PN'', ParserString)), (0x04, (''SN'', ParserString)), (0x05, (''Manufacturer'', ParserString)),
     (0x06, (''ManufacturerDate'', ParserTimestamp)), (0x07, (''Vendor'', ParserString)),
     (0x08, (''Name'', ParserString)), (0x09, (''SKU'', ParserString)), (0x0A, (''Version'', ParserString)),
     (0x0B, (''AssetTag'', ParserString)), (0x0C, (''Description'', ParserString)),
     (0x0D, (''ECLevel'', ParserString)), (0x0F, (''IANA'', ParserU32))]"

definition fruOEMFieldTypes :: "(byte \<times> (string \<times> field_parser)) list" where
  "fruOEMFieldTypes = [(1, (''Vendor IANA'', ParserU32))]"

definition fruFieldTypes :: "(byte \<times> (byte \<times> (string \<times> field_parser)) list) list" where
  "fruFieldTypes = [(PLDM_FRU_RECORD_TYPE_GENERAL, fruGeneralFieldTypes),
     (PLDM_FRU_RECORD_TYPE_OEM, fruOEMFieldTypes)]"

definition parseFRUField :: "byte \<Rightarrow> byte \<Rightarrow> byte \<Rightarrow> byte list \<Rightarrow> fru_properties
    \<Rightarrow> (bool \<times> fru_properties) option" where
  "parseFRUField recordType type len mem props =
     (case Option.bind (map_of fruFieldTypes recordType) (\<lambda>fields. map_of fields type) of
        None \<Rightarrow> Some (False, props)
      | Some (name, parser) \<Rightarrow>
          map_option (\<lambda>v. (True, map_assign name (FRU_string v) props)) (run_parser parser mem len))"

section \<open>The table\<close>

text \<open>Positions count from the start of the table; a position past its end is not the end.\<close>

definition isTableEnd :: "byte list \<Rightarrow> nat \<Rightarrow> bool" where
  "isTableEnd table p \<longleftrightarrow> p \<le> length table \<and> length table - p \<le> 7"

fun parse_fields :: "nat \<Rightarrow> byte \<Rightarrow> byte list \<Rightarrow> nat \<Rightarrow> fru_properties \<Rightarrow> (nat \<times> fru_properties) option" where
  "parse_fields 0 recordType table p props = Some (p, props)"
| "parse_fields (Suc n) recordType table p props =
     (if \<not> p + 1 < length table then None
      else do {
        (_, props) \<leftarrow> (if recordType = PLDM_FRU_RECORD_TYPE_GENERAL
                       then parseFRUField recordType (table ! p) (table ! (p + 1)) (drop (p + 2) table) props
                       else Some (False, props));
        parse_fields n recordType table (p + 2 + unat (table ! (p + 1))) props })"

lemma parse_fields_advances: "parse_fields n rt table p props = Some (q, props') \<Longrightarrow> p \<le> q"
proof (induction n rt table p props rule: parse_fields.induct)
  case (2 n rt table p props)
  then show ?case by (fastforce simp: bind_eq_Some_conv split: if_splits)
qed simp

function parse_table_loop :: "byte list \<Rightarrow> nat \<Rightarrow> fru_properties \<Rightarrow> fru_properties option option" where
  "parse_table_loop table p props =
     (if isTableEnd table p then Some (Some props)
      else if \<not> p + 4 < length table then None
      else if table ! (p + 3) < 1 then Some None
      else (case parse_fields (unat (table ! (p + 3))) (table ! (p + 2)) table (p + 5) props of
              None \<Rightarrow> None
            | Some (q, props) \<Rightarrow> parse_table_loop table q props))"
  by pat_completeness auto
termination
  by (relation "measure (\<lambda>(table, p, props). length table - p)")
     (fastforce dest: parse_fields_advances)+

declare parse_table_loop.simps [simp del]

definition parseTable :: "byte list \<Rightarrow> fru_properties option option" where
  "parseTable table = parse_table_loop table 0 []"

section \<open>Fetching\<close>

text \<open>The table is padded with zeros to a multiple of four bytes; the padding stays.\<close>

definition pad4 :: "byte list \<Rightarrow> byte list" where
  "pad4 bs = bs @ replicate (if length bs mod 4 \<noteq> 0 then 4 - length bs mod 4 else 0) 0"

definition verifyCRC :: "fru_metadata \<Rightarrow> byte list \<Rightarrow> bool \<times> byte list" where
  "verifyCRC md fruTable =
     (case map_of md ''Checksum'' of
        None \<Rightarrow> (False, fruTable)
      | Some crc \<Rightarrow> (crc = crc32 (pad4 fruTable), pad4 fruTable))"

definition getFRURecordTableMetadataCmd :: "fru_state world \<Rightarrow> tid \<Rightarrow> fru_metadata \<Rightarrow> fru_state
    \<Rightarrow> (int \<times> fru_metadata \<times> fru_state) option" where
  "getFRURecordTableMetadataCmd w t md s =
     (case createInstanceId_pldm t s of (i, s) \<Rightarrow>
        case encode_get_fru_record_table_metadata_req i 0 of
          Inl rc \<Rightarrow> Some (PLDM_ERROR, md, s)
        | Inr req \<Rightarrow> do {
            (ok, resp, s) \<leftarrow> sendReceivePldmMessage w t 100 3 req [] None s;
            if \<not> ok then Some (PLDM_ERROR, md, s)
            else do {
              (rc, cc, out) \<leftarrow> decode_get_fru_record_table_metadata_resp resp;
              if \<not> validatePLDMRespDecode rc (uint cc) then Some (PLDM_ERROR, md, s)
              else do {
                m \<leftarrow> out;
                Some (PLDM_SUCCESS,
                  map_assign ''Checksum'' (fm_checksum m)
                    (map_assign ''FRUTableLength'' (fm_table_length m)
                      (map_assign ''FRUTableMaximumSize'' (fm_table_maximum_size m) md)), s) } } })"

text \<open>The loop over the parts: \<open>n\<close> is the limit that is left, the result the table when it is
  complete. The limit is 100 at the start and never 0 here.\<close>

fun fru_table_loop :: "fru_state world \<Rightarrow> tid \<Rightarrow> fru_metadata \<Rightarrow> nat \<Rightarrow> u32 \<Rightarrow> byte \<Rightarrow> byte \<Rightarrow> byte list
    \<Rightarrow> fru_state \<Rightarrow> (byte list option \<times> fru_state) option" where
  "fru_table_loop w t md 0 handle op flag data s = Some (None, s)"
| "fru_table_loop w t md (Suc n) handle op flag data s =
     (if flag = PLDM_END \<or> flag = PLDM_START_AND_END then Some (Some data, s)
      else case map_of md ''FRUTableLength'' of
        None \<Rightarrow> Some (None, s)
      | Some len \<Rightarrow>
          if length data > unat len \<or> n = 0 then Some (None, s)
          else case createInstanceId_pldm t s of (i, s) \<Rightarrow>
            case encode_get_fru_record_table_req i handle op 5 of
              Inl rc \<Rightarrow> Some (None, s)
            | Inr req \<Rightarrow> do {
                (ok, resp, s) \<leftarrow> sendReceivePldmMessage w t 100 3 req [] None s;
                if \<not> ok then Some (None, s)
                else if length resp - 3 < 6 then Some (None, s)
                else do {
                  (rc, cc, out) \<leftarrow> decode_get_fru_record_table_resp resp;
                  if \<not> validatePLDMRespDecode rc (uint cc) then Some (None, s)
                  else do {
                    (nextHandle, flag, part) \<leftarrow> out;
                    fru_table_loop w t md n nextHandle PLDM_GET_NEXTPART flag (data @ part) s } } })"

definition fruPath :: string where "fruPath = ''/xyz/openbmc_project/pldm/fru/''"

definition string_properties :: "fru_properties \<Rightarrow> fru_properties" where
  "string_properties props = filter (\<lambda>p. case snd p of FRU_string v \<Rightarrow> True | _ \<Rightarrow> False) props"

definition addFRUObjectToDbus :: "string \<Rightarrow> fru_properties \<Rightarrow> fru_state \<Rightarrow> fru_state" where
  "addFRUObjectToDbus path props s = s\<lparr>fruInterface := fruInterface s @ [(path, string_properties props)]\<rparr>"

definition getFRURecordTableCmd :: "fru_state world \<Rightarrow> tid \<Rightarrow> fru_metadata \<Rightarrow> fru_state
    \<Rightarrow> (int \<times> fru_properties \<times> fru_state) option" where
  "getFRURecordTableCmd w t md s = do {
     (fetched, s) \<leftarrow> fru_table_loop w t md 100 0 PLDM_GET_FIRSTPART 0 [] s;
     case fetched of
       None \<Rightarrow> Some (PLDM_ERROR, [], s)
     | Some data \<Rightarrow>
         (case verifyCRC md data of (ok, table) \<Rightarrow>
            if \<not> ok then Some (PLDM_ERROR, [], s)
            else do {
              let s = s\<lparr>fruData := unordered_emplace t table (map_erase t (fruData s))\<rparr>;
              parsed \<leftarrow> parseTable table;
              case parsed of
                None \<Rightarrow> Some (PLDM_ERROR_INVALID_DATA, [], s)
              | Some props \<Rightarrow>
                  Some (PLDM_SUCCESS, props, addFRUObjectToDbus (fruPath @ to_string (unat t)) props s) }) }"

definition runGetFRUCommands :: "fru_state world \<Rightarrow> tid \<Rightarrow> fru_state \<Rightarrow> (bool \<times> fru_state) option" where
  "runGetFRUCommands w t s = do {
     (rc, md, s) \<leftarrow> getFRURecordTableMetadataCmd w t [] s;
     if rc \<noteq> PLDM_SUCCESS then Some (False, s)
     else do {
       (rc, props, s) \<leftarrow> getFRURecordTableCmd w t md s;
       if rc \<noteq> PLDM_SUCCESS then Some (False, s)
       else Some (True, s\<lparr>terminusFRUMetadata := map_assign t md (terminusFRUMetadata s),
                         terminusFRUProperties := map_assign t props (terminusFRUProperties s)\<rparr>) } }"

definition getPLDMFruRecordData :: "tid \<Rightarrow> fru_state \<Rightarrow> byte list option" where
  "getPLDMFruRecordData t s =
     (if map_of (terminusFRUMetadata s) t = None then None else map_of (fruData s) t)"

section \<open>IPMI properties\<close>

definition mappedIpmiProperties :: "(string \<times> string) list" where
  "mappedIpmiProperties = [(''PN'', ''PRODUCT_PART_NUMBER''), (''Manufacturer'', ''PRODUCT_MANUFACTURER''),
     (''SN'', ''PRODUCT_SERIAL_NUMBER''), (''Name'', ''PRODUCT_PRODUCT_NAME''),
     (''Version'', ''PRODUCT_VERSION''), (''AssetTag'', ''ASSET_TAG''), (''Vendor'', ''PRODUCT_MANUFACTURER'')]"

definition isspace :: "char \<Rightarrow> bool" where
  "isspace c \<longleftrightarrow> c = CHR 0x20 \<or> c \<in> {CHR 0x09, CHR 0x0A, CHR 0x0B, CHR 0x0C, CHR 0x0D}"

definition trim :: "string \<Rightarrow> string" where
  "trim s = rev (dropWhile isspace (rev (dropWhile isspace s)))"

text \<open>What the interface registers and what is kept for the raw FRU.\<close>

fun map_properties :: "bool \<Rightarrow> fru_properties \<Rightarrow> fru_properties \<times> fru_properties
    \<Rightarrow> fru_properties \<times> fru_properties" where
  "map_properties hasVendor [] acc = acc"
| "map_properties hasVendor ((name, value) # props) (iface, ipmiProps) =
     map_properties hasVendor props
       (case (value, map_of mappedIpmiProperties name) of
          (FRU_string v, Some mapped) \<Rightarrow>
            if name = ''Manufacturer'' \<and> hasVendor then (iface, ipmiProps)
            else (iface @ [(mapped, FRU_string v)], map_emplace mapped (FRU_string v) ipmiProps)
        | _ \<Rightarrow> (iface, ipmiProps))"

definition convertFRUToIpmiFRU :: "tid \<Rightarrow> fru_properties \<Rightarrow> fru_state \<Rightarrow> fru_state option" where
  "convertFRUToIpmiFRU t props s =
     (case map_of props ''Name'' of
        None \<Rightarrow> Some s
      | Some (FRU_string name) \<Rightarrow>
          if name = '''' then Some s
          else
            (let productName = map (\<lambda>c. if c = CHR 0x20 then CHR ''_'' else c) (trim name);
                 path = ''/xyz/openbmc_project/FruDevice/'' @ productName @ ''_'' @ to_string (unat t)
             in case map_properties (map_of props ''Vendor'' \<noteq> None) props ([], []) of (iface, ipmiProps) \<Rightarrow>
                  Some (s\<lparr>ipmiFruInterface := unordered_emplace t
                            (path, iface @ [(''BUS'', FRU_u32 254), (''ADDRESS'', FRU_u32 (ucast t))])
                            (ipmiFruInterface s),
                          ipmiFRUProperties := map_emplace t ipmiProps (ipmiFRUProperties s)\<rparr>))
      | Some _ \<Rightarrow> None)"

definition removeInterfaces :: "tid \<Rightarrow> fru_state \<Rightarrow> fru_state" where
  "removeInterfaces t s =
     (if map_of (ipmiFruInterface s) t \<noteq> None
      then s\<lparr>ipmiFruInterface := map_erase t (ipmiFruInterface s),
             ipmiFRUProperties := map_erase t (ipmiFRUProperties s)\<rparr>
      else s)"

section \<open>Deletion\<close>

fun fru_removeInterface :: "string \<Rightarrow> (string \<times> 'a) list \<Rightarrow> (string \<times> 'a) list" where
  "fru_removeInterface path [] = []"
| "fru_removeInterface path (i # ifaces) = (if fst i = path then ifaces else i # fru_removeInterface path ifaces)"

definition deleteFRUDevice :: "tid \<Rightarrow> fru_state \<Rightarrow> bool \<times> fru_state" where
  "deleteFRUDevice t s =
     (if map_of (terminusFRUMetadata s) t = None then (False, s)
      else let s = s\<lparr>terminusFRUMetadata := map_erase t (terminusFRUMetadata s)\<rparr> in
        if map_of (terminusFRUProperties s) t = None then (True, s)
        else let s = s\<lparr>terminusFRUProperties := map_erase t (terminusFRUProperties s)\<rparr> in
          if map_of (fruData s) t = None then (True, s)
          else (True, removeInterfaces t
                 (s\<lparr>fruData := map_erase t (fruData s),
                    fruInterface := fru_removeInterface (fruPath @ to_string (unat t)) (fruInterface s)\<rparr>)))"

section \<open>Setting a table\<close>

definition setFruRecordTableCmd :: "fru_state world \<Rightarrow> tid \<Rightarrow> byte list \<Rightarrow> fru_state
    \<Rightarrow> (int \<times> fru_state) option" where
  "setFruRecordTableCmd w t setFruData s =
     (let fits = (case map_of (terminusFRUMetadata s) t of
                    None \<Rightarrow> True
                  | Some md \<Rightarrow> (case map_of md ''FRUTableMaximumSize'' of
                                  None \<Rightarrow> False
                                | Some n \<Rightarrow> length setFruData \<le> unat n))
      in if \<not> fits then Some (PLDM_ERROR, s)
         else case createInstanceId_pldm t s of (i, s) \<Rightarrow>
           case encode_set_fru_record_table_req i 1 PLDM_START_AND_END setFruData (5 + length setFruData) of
             Inl rc \<Rightarrow> Some (PLDM_ERROR, s)
           | Inr req \<Rightarrow> do {
               (ok, resp, s) \<leftarrow> sendReceivePldmMessage w t 100 3 req [] None s;
               if \<not> ok then Some (PLDM_ERROR, s)
               else do {
                 (rc, cc, out) \<leftarrow> decode_set_fru_record_table_resp resp;
                 if \<not> validatePLDMRespDecode rc (uint cc) then Some (PLDM_ERROR, s)
                 else (case (if map_of (terminusFRUMetadata s) t \<noteq> None then deleteFRUDevice t s
                             else (True, s)) of
                         (deleted, s) \<Rightarrow>
                           if \<not> deleted then Some (PLDM_ERROR, s)
                           else do {
                             (ok, s) \<leftarrow> runGetFRUCommands w t s;
                             Some (if ok then PLDM_SUCCESS else PLDM_ERROR, s) }) } })"

definition fruInit :: "fru_state world \<Rightarrow> tid \<Rightarrow> fru_state \<Rightarrow> (bool \<times> fru_state) option" where
  "fruInit w t s = do {
     (ok, s) \<leftarrow> runGetFRUCommands w t (s\<lparr>setFRUIface := True\<rparr>);
     if \<not> ok then Some (False, s)
     else case map_of (terminusFRUProperties s) t of
       None \<Rightarrow> Some (True, s)
     | Some props \<Rightarrow> map_option (\<lambda>s. (True, s)) (convertFRUToIpmiFRU t props s) }"

section \<open>The raw IPMI FRU\<close>

definition calculateChecksum :: "byte list \<Rightarrow> byte" where
  "calculateChecksum bs = word_of_int (256 - int (sum_list (map unat bs)))"

text \<open>The offset of an area and the running offset.\<close>

definition setHeaderAreaOffset :: "byte \<Rightarrow> byte \<Rightarrow> byte \<times> byte" where
  "setHeaderAreaOffset fruOffset areaOffset =
     (if areaOffset = 0 then 0 else if fruOffset = 0 \<and> areaOffset > 0 then 1 else fruOffset,
      fruOffset + areaOffset)"

definition setCommonHeader :: "byte \<Rightarrow> byte \<Rightarrow> byte \<Rightarrow> byte \<Rightarrow> byte list" where
  "setCommonHeader internalAreaLen chassisAreaLen boardAreaLen productAreaLen =
     (let (o1, fruOffset) = setHeaderAreaOffset 0 internalAreaLen;
          (o2, fruOffset) = setHeaderAreaOffset fruOffset chassisAreaLen;
          (o3, fruOffset) = setHeaderAreaOffset fruOffset boardAreaLen;
          (o4, fruOffset) = setHeaderAreaOffset fruOffset productAreaLen;
          hdr = [1, o1, o2, o3, o4, 0, 0]
      in hdr @ [calculateChecksum hdr])"

definition ipmiProductProperties :: "string list" where
  "ipmiProductProperties = [''PRODUCT_MANUFACTURER'', ''PRODUCT_PRODUCT_NAME'', ''PRODUCT_PART_NUMBER'',
     ''PRODUCT_VERSION'', ''PRODUCT_SERIAL_NUMBER'', ''ASSET_TAG'', ''FRU_FILE_ID'']"

definition strip_spaces :: "string \<Rightarrow> string" where
  "strip_spaces s = rev (dropWhile (\<lambda>c. c = CHR 0x20) (rev s))"

text \<open>One field: the type and length byte and the characters.\<close>

definition product_field :: "string \<Rightarrow> byte list" where
  "product_field v = (word_of_nat (length v) OR 0xC0) # map (\<lambda>c. word_of_nat (of_char c)) v"

fun product_fields :: "string list \<Rightarrow> fru_properties \<Rightarrow> byte list option" where
  "product_fields [] props = Some []"
| "product_fields (name # names) props = do {
     field \<leftarrow> (case map_of props name of
                 None \<Rightarrow> Some [0xC0]
               | Some (FRU_string v) \<Rightarrow> Some (product_field (strip_spaces v))
               | Some _ \<Rightarrow> None);
     fields \<leftarrow> product_fields names props;
     Some (field @ fields) }"

definition pad8 :: "byte list \<Rightarrow> byte list" where
  "pad8 bs = bs @ replicate (if length bs mod 8 \<noteq> 0 then 8 - length bs mod 8 else 0) 0"

definition setInternalArea :: "byte list \<Rightarrow> byte \<times> byte list" where "setInternalArea d = (0, d)"
definition setChassisArea :: "byte list \<Rightarrow> byte \<times> byte list" where "setChassisArea d = (0, d)"
definition setBoardArea :: "byte list \<Rightarrow> byte \<times> byte list" where "setBoardArea d = (0, d)"

definition setProductArea :: "fru_properties \<Rightarrow> byte list \<Rightarrow> (byte \<times> byte list) option" where
  "setProductArea props d = do {
     fields \<leftarrow> product_fields ipmiProductProperties props;
     let productData = pad8 ([1, 0, 0] @ fields @ [0xC1, 0]);
         n = length productData;
         dataSize = (if n mod 8 \<noteq> 0 then n div 8 + 1 else n div 8)
     in if dataSize > 255 then Some (0, d)
        else let area = productData[1 := word_of_nat dataSize]
             in Some (word_of_nat dataSize, d @ area @ [calculateChecksum area]) }"

definition getRawFRURecordData :: "tid \<Rightarrow> fru_state \<Rightarrow> byte list option option" where
  "getRawFRURecordData t s =
     (case map_of (ipmiFRUProperties s) t of
        None \<Rightarrow> Some None
      | Some props \<Rightarrow>
          (case setInternalArea [] of (internalAreaLen, raw) \<Rightarrow>
           case setChassisArea raw of (chassisAreaLen, raw) \<Rightarrow>
           case setBoardArea raw of (boardAreaLen, raw) \<Rightarrow>
           case setProductArea props raw of
             None \<Rightarrow> None
           | Some (productAreaLen, raw) \<Rightarrow>
               Some (Some (setCommonHeader internalAreaLen chassisAreaLen boardAreaLen productAreaLen @ raw))))"

end
