(* ===== verification/Fru_Props.thy ===== *)
theory Fru_Props
  imports Fru_Manager
begin

unbundle bit_operations_syntax

text \<open>
  FRU tables and messages: what a terminus encodes with libpldm\_intel is what the selection of records
  and the parser of the daemon read, and the messages of PLDM type 4 round-trip.
\<close>

section \<open>Tables as lists of records\<close>

record fru_record =
  fr_set_id :: u16
  fr_type :: byte
  fr_encoding :: byte
  fr_fields :: "(byte \<times> byte list) list"

definition enc_field :: "byte \<times> byte list \<Rightarrow> byte list" where
  "enc_field f = fst f # word_of_nat (length (snd f)) # snd f"

definition enc_fields :: "(byte \<times> byte list) list \<Rightarrow> byte list" where
  "enc_fields fs = concat (map enc_field fs)"

definition enc_record :: "fru_record \<Rightarrow> byte list" where
  "enc_record r = fru_record_header (fr_set_id r) (fr_type r) (word_of_nat (length (fr_fields r))) (fr_encoding r)
     @ enc_fields (fr_fields r)"

definition enc_table :: "fru_record list \<Rightarrow> byte list" where
  "enc_table rs = concat (map enc_record rs)"

text \<open>Numbers of fields and lengths of values are bytes.\<close>

definition sized_fields :: "(byte \<times> byte list) list \<Rightarrow> bool" where
  "sized_fields fs \<longleftrightarrow> length fs < 256 \<and> (\<forall>f \<in> set fs. length (snd f) < 256)"

lemma enc_fields_simps [simp]:
  "enc_fields [] = []" "enc_fields (f # fs) = enc_field f @ enc_fields fs"
  by (simp_all add: enc_fields_def)

lemma enc_table_simps [simp]:
  "enc_table [] = []" "enc_table (r # rs) = enc_record r @ enc_table rs"
  by (simp_all add: enc_table_def)

lemma length_enc_field [simp]: "length (enc_field f) = 2 + length (snd f)"
  by (simp add: enc_field_def)

lemma length_fru_header [simp]: "length (fru_record_header i t n e) = 5"
  by (simp add: fru_record_header_def enc16_def)

lemma small_byte [simp]: "n < 256 \<Longrightarrow> unat (word_of_nat n :: byte) = n"
  by (simp add: unat_of_nat take_bit_nat_eq_self)

lemma nth_field:
  "length xs = p \<Longrightarrow> (xs @ enc_field f @ ys) ! p = fst f"
  "length xs = p \<Longrightarrow> (xs @ enc_field f @ ys) ! Suc p = word_of_nat (length (snd f))"
  "length xs = p \<Longrightarrow> drop (p + 2) (xs @ enc_field f @ ys) = snd f @ ys"
  by (simp_all add: enc_field_def nth_append)

lemma skip_encoded:
  "sized_fields fs \<Longrightarrow> length xs = p
    \<Longrightarrow> skip_fields (length fs) (xs @ enc_fields fs @ ys) p = Some (p + length (enc_fields fs))"
proof (induction fs arbitrary: xs p)
  case (Cons f fs)
  have IH: "skip_fields (length fs) ((xs @ enc_field f) @ enc_fields fs @ ys) (p + 2 + length (snd f))
      = Some (p + 2 + length (snd f) + length (enc_fields fs))"
    using Cons.prems by (intro Cons.IH) (auto simp: sized_fields_def)
  then show ?case
    using Cons.prems nth_field(2) [of xs p f "enc_fields fs @ ys"]
    by (simp add: sized_fields_def)
qed simp

text \<open>The fields of a type.\<close>

definition of_field_type :: "byte \<Rightarrow> (byte \<times> byte list) list \<Rightarrow> (byte \<times> byte list) list" where
  "of_field_type ft fs = filter (\<lambda>f. fst f = ft \<or> ft = 0) fs"

lemma memory_field: "length xs = p \<Longrightarrow> memory (xs @ enc_field f @ ys) p (2 + length (snd f)) = Some (enc_field f)"
  by (simp add: memory_def)

lemma copy_encoded:
  "sized_fields fs \<Longrightarrow> length xs = p
    \<Longrightarrow> copy_fields (length fs) (xs @ enc_fields fs @ ys) p ft cap cnt out
      = (if of_field_type ft fs = [] \<or> length out + length (enc_fields (of_field_type ft fs)) < cap
         then Some (cnt + length (of_field_type ft fs), out @ enc_fields (of_field_type ft fs),
                    p + length (enc_fields fs))
         else None)"
proof (induction fs arbitrary: xs p cnt out)
  case Nil
  then show ?case by (simp add: of_field_type_def)
next
  case (Cons f fs)
  let ?q = "p + 2 + length (snd f)"
  have IH: "copy_fields (length fs) ((xs @ enc_field f) @ enc_fields fs @ ys) ?q ft cap c o'
      = (if of_field_type ft fs = [] \<or> length o' + length (enc_fields (of_field_type ft fs)) < cap
         then Some (c + length (of_field_type ft fs), o' @ enc_fields (of_field_type ft fs),
                    ?q + length (enc_fields fs))
         else None)" for c o'
    using Cons.prems by (intro Cons.IH) (auto simp: sized_fields_def)
  have len: "length (snd f) < 256" using Cons.prems by (simp add: sized_fields_def)
  have n: "(xs @ enc_field f @ enc_fields fs @ ys) ! p = fst f"
    "(xs @ enc_field f @ enc_fields fs @ ys) ! Suc p = word_of_nat (length (snd f))"
    "memory (xs @ enc_field f @ enc_fields fs @ ys) p (2 + length (snd f)) = Some (enc_field f)"
    using Cons.prems(2) by (simp_all only: nth_field memory_field)
  show ?case
    using Cons.prems(2) len n IH by (auto simp: of_field_type_def Let_def)
qed

text \<open>Encoding a record at the end of what a buffer holds already.\<close>

lemma encode_fru_record_appends:
  assumes "length space = length (enc_record r)" "fr_fields r \<noteq> []"
  shows "encode_fru_record (table @ space) (length table + length (enc_record r)) (length table)
      (fr_set_id r) (fr_type r) (word_of_nat (length (fr_fields r))) (fr_encoding r)
      (Some (enc_fields (fr_fields r))) (length (enc_fields (fr_fields r)))
    = Some (PLDM_SUCCESS, length table + length (enc_record r), table @ enc_record r)"
proof -
  have "enc_fields (fr_fields r) \<noteq> []" using assms(2) by (cases "fr_fields r") (auto simp: enc_field_def)
  then show ?thesis
    using assms(1) by (simp add: encode_fru_record_def enc_record_def overwrite_def memory_def)
qed

section \<open>Selection of records\<close>

definition selected :: "u16 \<Rightarrow> byte \<Rightarrow> fru_record \<Rightarrow> bool" where
  "selected rsi rt r \<longleftrightarrow> (fr_set_id r = rsi \<or> rsi = 0) \<and> (fr_type r = rt \<or> rt = 0)"

definition selection :: "u16 \<Rightarrow> byte \<Rightarrow> byte \<Rightarrow> fru_record list \<Rightarrow> fru_record list" where
  "selection rsi rt ft rs =
     map (\<lambda>r. r\<lparr>fr_fields := of_field_type ft (fr_fields r)\<rparr>) (filter (selected rsi rt) rs)"

lemma nth_header:
  assumes "length xs = p"
  shows "read16 (xs @ enc_record r @ ys) p = fr_set_id r"
    and "(xs @ enc_record r @ ys) ! (p + 2) = fr_type r"
    and "(xs @ enc_record r @ ys) ! (p + 3) = word_of_nat (length (fr_fields r))"
    and "take 5 (drop p (xs @ enc_record r @ ys))
      = fru_record_header (fr_set_id r) (fr_type r) (word_of_nat (length (fr_fields r))) (fr_encoding r)"
proof -
  have hdr: "enc_record r @ ys = [ucast (fr_set_id r), ucast (drop_bit 8 (fr_set_id r)), fr_type r,
      word_of_nat (length (fr_fields r)), fr_encoding r] @ enc_fields (fr_fields r) @ ys"
    by (simp add: enc_record_def fru_record_header_def enc16_def)
  show "read16 (xs @ enc_record r @ ys) p = fr_set_id r"
    and "(xs @ enc_record r @ ys) ! (p + 2) = fr_type r"
    and "(xs @ enc_record r @ ys) ! (p + 3) = word_of_nat (length (fr_fields r))"
    and "take 5 (drop p (xs @ enc_record r @ ys))
      = fru_record_header (fr_set_id r) (fr_type r) (word_of_nat (length (fr_fields r))) (fr_encoding r)"
    using assms unfolding hdr
    by (simp_all add: read16_def nth_append le16_split fru_record_header_def enc16_def)
qed

lemma length_enc_record: "length (enc_record r) = 5 + length (enc_fields (fr_fields r))"
  by (simp add: enc_record_def)

lemma set_count:
  "length out = k \<Longrightarrow> (out @ fru_record_header i t n e @ fs)[k + 3 := c] = out @ fru_record_header i t c e @ fs"
  by (simp add: fru_record_header_def enc16_def list_update_append numeral_eq_Suc)

lemma of_field_type_simps [simp]: "of_field_type ft [] = []"
  by (simp add: of_field_type_def)

lemma selection_simps:
  "selection rsi rt ft [] = []"
  "selection rsi rt ft (r # rs) = (if selected rsi rt r
     then r\<lparr>fr_fields := of_field_type ft (fr_fields r)\<rparr> # selection rsi rt ft rs else selection rsi rt ft rs)"
  by (simp_all add: selection_def)

text \<open>The steps of the loop at a record.\<close>

lemma by_option_step:
  assumes "sized_fields (fr_fields r)" "length xs = p" "p + length (enc_record r) \<le> sz"
  shows "by_option_loop (xs @ enc_record r @ ys) sz p rsi rt ft cap out
    = (if \<not> selected rsi rt r
       then by_option_loop (xs @ enc_record r @ ys) sz (p + length (enc_record r)) rsi rt ft cap out
       else let r' = r\<lparr>fr_fields := of_field_type ft (fr_fields r)\<rparr> in
         if length out + length (enc_record r') < cap
         then by_option_loop (xs @ enc_record r @ ys) sz (p + length (enc_record r)) rsi rt ft cap
                (out @ enc_record r')
         else None)"
proof -
  let ?t = "xs @ enc_record r @ ys" and ?fs = "fr_fields r"
  let ?h = "fru_record_header (fr_set_id r) (fr_type r) (word_of_nat (length ?fs)) (fr_encoding r)"
  note at = nth_header [OF assms(2), of r ys]
  have t: "?t = (xs @ ?h) @ enc_fields ?fs @ ys" by (simp add: enc_record_def)
  have q: "length (xs @ ?h) = p + 5" using assms(2) by simp
  have n: "unat (word_of_nat (length ?fs) :: byte) = length ?fs"
    using assms(1) by (simp add: sized_fields_def)
  have skip: "skip_fields (length ?fs) ?t (p + 5) = Some (p + length (enc_record r))"
    using skip_encoded [OF assms(1) q, of ys] unfolding t by (simp add: length_enc_record)
  have copy: "copy_fields (length ?fs) ?t (p + 5) ft cap 0 (out @ ?h)
      = (if of_field_type ft ?fs = [] \<or> length out + 5 + length (enc_fields (of_field_type ft ?fs)) < cap
         then Some (length (of_field_type ft ?fs), out @ ?h @ enc_fields (of_field_type ft ?fs),
                    p + length (enc_record r))
         else None)"
    using copy_encoded [OF assms(1) q, of ys ft cap 0 "out @ ?h"] unfolding t by (simp add: length_enc_record)
  have "p \<noteq> sz" "p + 4 < length ?t" using assms(2,3) by (auto simp: length_enc_record)
  then show ?thesis
    using at n skip copy
    by (subst by_option_loop.simps)
       (auto simp: selected_def Let_def set_count length_enc_record enc_record_def)
qed

lemma by_option_selects:
  assumes "\<forall>r \<in> set rs. sized_fields (fr_fields r)" "length xs = p"
  shows "by_option_loop (xs @ enc_table rs) (length (xs @ enc_table rs)) p rsi rt ft cap out
    = (if selection rsi rt ft rs = [] \<or> length out + length (enc_table (selection rsi rt ft rs)) < cap
       then Some (out @ enc_table (selection rsi rt ft rs)) else None)"
  using assms
proof (induction rs arbitrary: xs p out)
  case Nil
  then show ?case by (subst by_option_loop.simps) (simp add: selection_simps)
next
  case (Cons r rs)
  define sz where "sz = length (xs @ enc_record r @ enc_table rs)"
  have IH: "by_option_loop (xs @ enc_record r @ enc_table rs) sz (p + length (enc_record r)) rsi rt ft cap o'
      = (if selection rsi rt ft rs = [] \<or> length o' + length (enc_table (selection rsi rt ft rs)) < cap
         then Some (o' @ enc_table (selection rsi rt ft rs)) else None)" for o'
    using Cons.IH [of "xs @ enc_record r" "p + length (enc_record r)" o'] Cons.prems
    by (simp add: sz_def)
  have "sized_fields (fr_fields r)" "p + length (enc_record r) \<le> sz"
    using Cons.prems by (simp_all add: sz_def)
  note step = by_option_step [OF this(1) Cons.prems(2) this(2), of "enc_table rs" rsi rt ft cap out]
  have "by_option_loop (xs @ enc_record r @ enc_table rs) sz p rsi rt ft cap out
      = (if selection rsi rt ft (r # rs) = [] \<or> length out + length (enc_table (selection rsi rt ft (r # rs))) < cap
         then Some (out @ enc_table (selection rsi rt ft (r # rs))) else None)"
    unfolding step by (simp add: IH selection_simps Let_def)
  then show ?case by (simp add: sz_def)
qed

text \<open>
  From a table of records the library selects exactly the records of a record set and of a type
  (0 stands for every one), with exactly the fields of a type, and counts the fields it copied, as
  long as they leave a byte of the buffer free; when they do not, an assertion fails.
\<close>
lemma records_are_selected:
  assumes "\<forall>r \<in> set rs. sized_fields (fr_fields r)"
  shows "get_fru_record_by_option (enc_table rs) (length (enc_table rs)) record_size rsi rt ft
    = (if selection rsi rt ft rs = [] \<or> length (enc_table (selection rsi rt ft rs)) < record_size
       then Some (enc_table (selection rsi rt ft rs)) else None)"
  using by_option_selects [OF assms, of "[]" 0 rsi rt ft record_size "[]"]
  by (simp add: get_fru_record_by_option_def)

definition two_records :: "fru_record list" where
  "two_records = [\<lparr> fr_set_id = 1, fr_type = 1, fr_encoding = 1, fr_fields = [(8, [0x41, 0x20, 0x42]), (4, [0x37])] \<rparr>,
     \<lparr> fr_set_id = 2, fr_type = 0xFE, fr_encoding = 1, fr_fields = [(1, [0x57, 1])] \<rparr>]"

theorem records_are_selected_witness:
  "get_fru_record_by_option (enc_table two_records) (length (enc_table two_records)) 64 1 0 4
    = Some [1, 0, 1, 1, 1, 4, 1, 0x37]"
  using records_are_selected [of two_records 64 1 0 4]
  by (simp add: two_records_def sized_fields_def selection_def selected_def of_field_type_def enc_record_def
      enc_field_def fru_record_header_def enc16_def)

text \<open>A buffer of just the right size is refused.\<close>

lemma exact_buffer_aborts:
  assumes "\<forall>r \<in> set rs. sized_fields (fr_fields r)" "selection rsi rt ft rs \<noteq> []"
  shows "get_fru_record_by_option (enc_table rs) (length (enc_table rs))
    (length (enc_table (selection rsi rt ft rs))) rsi rt ft = None"
  using by_option_selects [OF assms(1), of "[]" 0] assms(2) by (simp add: get_fru_record_by_option_def)

section \<open>Parsing a table\<close>

text \<open>What a field of a general record stands for.\<close>

definition printable :: "byte list \<Rightarrow> string" where
  "printable v = pldm_str (map (\<lambda>b. if fru_isprint b then b else 32) v)"

fun field_text :: "field_parser \<Rightarrow> byte list \<Rightarrow> string" where
  "field_text ParserString v = printable v"
| "field_text ParserTimestamp v = (if length v = 13 then timestamp_string v else '''')"
| "field_text ParserU32 v = ''''"

definition with_field :: "byte \<times> byte list \<Rightarrow> fru_properties \<Rightarrow> fru_properties" where
  "with_field f props = (case map_of fruGeneralFieldTypes (fst f) of
     None \<Rightarrow> props
   | Some (name, parser) \<Rightarrow> map_assign name (FRU_string (field_text parser (snd f))) props)"

definition with_record :: "fru_record \<Rightarrow> fru_properties \<Rightarrow> fru_properties" where
  "with_record r props =
     (if fr_type r = PLDM_FRU_RECORD_TYPE_GENERAL then fold with_field (fr_fields r) props else props)"

text \<open>A record that the parser survives: no vendor IANA number of four bytes.\<close>

definition tame_fields :: "(byte \<times> byte list) list \<Rightarrow> bool" where
  "tame_fields fs \<longleftrightarrow> (\<forall>f \<in> set fs. \<not> (fst f = 0x0F \<and> length (snd f) = 4))"

lemma memory_prefix: "n = length v \<Longrightarrow> memory (v @ ys) 0 n = Some v"
  by (simp add: memory_def)

lemma parser_of_field:
  assumes "length v < 256" "\<not> (p = ParserU32 \<and> length v = 4)"
  shows "run_parser p (v @ ys) (word_of_nat (length v)) = Some (field_text p v)"
proof -
  have u: "unat (word_of_nat (length v) :: byte) = length v" using assms(1) by simp
  have eq: "(word_of_nat (length v) :: byte) = w \<longleftrightarrow> length v = unat w" for w
    using u by (metis unsigned_word_eqI)
  show ?thesis
  proof (cases p)
    case ParserString
    have "(word_of_nat (length v) :: byte) < 1 \<longleftrightarrow> v = []" using eq [of 0] by auto
    with ParserString u show ?thesis
      by (auto simp: fruFieldParserString_def memory_prefix printable_def pldm_str_def)
  next
    case ParserTimestamp
    then show ?thesis using eq [of 13]
      by (auto simp: fruFieldParserTimestamp_def timeStamp104Size_def memory_prefix)
  next
    case ParserU32
    with assms(2) eq [of 4] show ?thesis by (auto simp: fruFieldParserU32_def)
  qed
qed

lemma u32_field: "map_of fruGeneralFieldTypes t = Some (name, ParserU32) \<Longrightarrow> t = 0x0F"
  by (auto simp: fruGeneralFieldTypes_def split: if_splits)

lemma parse_general_field:
  assumes "length (snd f) < 256" "\<not> (fst f = 0x0F \<and> length (snd f) = 4)"
  shows "\<exists>ok. parseFRUField PLDM_FRU_RECORD_TYPE_GENERAL (fst f) (word_of_nat (length (snd f))) (snd f @ ys) props
    = Some (ok, with_field f props)"
proof (cases "map_of fruGeneralFieldTypes (fst f)")
  case None
  then show ?thesis
    by (intro exI [of _ False]) (simp add: parseFRUField_def fruFieldTypes_def with_field_def)
next
  case (Some x)
  obtain name p where x: "x = (name, p)" by (cases x)
  with Some u32_field assms have "run_parser p (snd f @ ys) (word_of_nat (length (snd f))) = Some (field_text p (snd f))"
    by (intro parser_of_field) auto
  with Some x show ?thesis
    by (intro exI [of _ True]) (simp add: parseFRUField_def fruFieldTypes_def with_field_def)
qed

lemma parse_encoded_fields:
  assumes "sized_fields fs" "length xs = p" "rt = PLDM_FRU_RECORD_TYPE_GENERAL \<longrightarrow> tame_fields fs"
  shows "parse_fields (length fs) rt (xs @ enc_fields fs @ ys) p props
    = Some (p + length (enc_fields fs),
            if rt = PLDM_FRU_RECORD_TYPE_GENERAL then fold with_field fs props else props)"
  using assms
proof (induction fs arbitrary: xs p props)
  case (Cons f fs)
  have IH: "parse_fields (length fs) rt ((xs @ enc_field f) @ enc_fields fs @ ys) (p + 2 + length (snd f)) ps
      = Some (p + 2 + length (snd f) + length (enc_fields fs),
              if rt = PLDM_FRU_RECORD_TYPE_GENERAL then fold with_field fs ps else ps)" for ps
    using Cons.prems by (intro Cons.IH) (auto simp: sized_fields_def tame_fields_def)
  have len: "length (snd f) < 256" using Cons.prems by (simp add: sized_fields_def)
  let ?t = "xs @ enc_field f @ enc_fields fs @ ys"
  note n = nth_field [OF Cons.prems(2), of f "enc_fields fs @ ys"]
  have "p + 1 < length ?t" using Cons.prems(2) by simp
  moreover have "\<exists>ok. (if rt = PLDM_FRU_RECORD_TYPE_GENERAL
      then parseFRUField rt (?t ! p) (?t ! (p + 1)) (drop (p + 2) ?t) props else Some (False, props))
    = Some (ok, if rt = PLDM_FRU_RECORD_TYPE_GENERAL then with_field f props else props)"
    using parse_general_field [OF len, of "enc_fields fs @ ys" props] Cons.prems(3) n
    by (auto simp: tame_fields_def)
  ultimately show ?case using n len IH by auto
qed simp

lemma parse_encoded_table:
  assumes "\<forall>r \<in> set rs. sized_fields (fr_fields r) \<and> 8 \<le> length (enc_record r)
      \<and> (fr_type r = PLDM_FRU_RECORD_TYPE_GENERAL \<longrightarrow> tame_fields (fr_fields r))"
    and "length xs = p" "length ys \<le> 7"
  shows "parse_table_loop (xs @ enc_table rs @ ys) p props = Some (Some (fold with_record rs props))"
  using assms(1,2)
proof (induction rs arbitrary: xs p props)
  case Nil
  with assms(3) show ?case by (subst parse_table_loop.simps) (simp add: isTableEnd_def)
next
  case (Cons r rs)
  let ?fs = "fr_fields r" and ?t = "xs @ enc_record r @ enc_table rs @ ys"
  let ?h = "fru_record_header (fr_set_id r) (fr_type r) (word_of_nat (length ?fs)) (fr_encoding r)"
  note at = nth_header [OF Cons.prems(2), of r "enc_table rs @ ys"]
  have t: "?t = (xs @ ?h) @ enc_fields ?fs @ enc_table rs @ ys" by (simp add: enc_record_def)
  have r: "sized_fields ?fs" "8 \<le> length (enc_record r)"
    "fr_type r = PLDM_FRU_RECORD_TYPE_GENERAL \<longrightarrow> tame_fields ?fs" using Cons.prems(1) by auto
  have n: "unat (word_of_nat (length ?fs) :: byte) = length ?fs" using r(1) by (simp add: sized_fields_def)
  have "?fs \<noteq> []" using r(2) by (auto simp: length_enc_record)
  with n have pos: "\<not> (word_of_nat (length ?fs) :: byte) < 1" by (auto simp: word_less_nat_alt)
  have "length (xs @ ?h) = p + 5" using Cons.prems(2) by simp
  from parse_encoded_fields [OF r(1) this r(3), of "enc_table rs @ ys" props]
  have fields: "parse_fields (length ?fs) (fr_type r) ?t (p + 5) props
      = Some (p + length (enc_record r), with_record r props)"
    unfolding t by (simp add: length_enc_record with_record_def)
  have "\<not> isTableEnd ?t p" "p + 4 < length ?t"
    using Cons.prems(2) r(2) by (simp_all add: isTableEnd_def)
  then have "parse_table_loop ?t p props = parse_table_loop ?t (p + length (enc_record r)) (with_record r props)"
    using at n fields pos by (subst parse_table_loop.simps) simp
  also have "\<dots> = Some (Some (fold with_record rs (with_record r props)))"
    using Cons.IH [of "xs @ enc_record r" "p + length (enc_record r)" "with_record r props"] Cons.prems
    by simp
  finally show ?case by simp
qed

text \<open>The table that a terminus builds record by record in a buffer of the right size.\<close>

fun build_table :: "fru_record list \<Rightarrow> byte list \<Rightarrow> byte list option" where
  "build_table [] table = Some table"
| "build_table (r # rs) table =
     (case encode_fru_record (table @ replicate (length (enc_record r)) 0)
             (length table + length (enc_record r)) (length table)
             (fr_set_id r) (fr_type r) (word_of_nat (length (fr_fields r))) (fr_encoding r)
             (Some (enc_fields (fr_fields r))) (length (enc_fields (fr_fields r))) of
        Some (rc, _, table) \<Rightarrow> if rc = PLDM_SUCCESS then build_table rs table else None
      | None \<Rightarrow> None)"

lemma built_table:
  "\<forall>r \<in> set rs. fr_fields r \<noteq> [] \<Longrightarrow> build_table rs table = Some (table @ enc_table rs)"
  by (induction rs arbitrary: table) (simp_all add: encode_fru_record_appends)

text \<open>
  The table that a terminus builds with \<open>encode\_fru\_record\<close>, padded to a multiple of four bytes, is
  parsed to the end, and the properties are those of the fields of its general records, in order: a
  later field of the same kind replaces an earlier one, characters that cannot be printed become
  spaces, other records and unknown fields are passed over.
\<close>
lemma fru_table_roundtrip:
  assumes "\<forall>r \<in> set rs. sized_fields (fr_fields r) \<and> 8 \<le> length (enc_record r)
    \<and> (fr_type r = PLDM_FRU_RECORD_TYPE_GENERAL \<longrightarrow> tame_fields (fr_fields r))"
  shows "\<exists>table. build_table rs [] = Some table
    \<and> parseTable (pad4 table) = Some (Some (fold with_record rs []))"
proof -
  have "\<forall>r \<in> set rs. fr_fields r \<noteq> []" using assms by (auto simp: length_enc_record)
  moreover define ys where "ys = replicate (if length (enc_table rs) mod 4 \<noteq> 0
    then 4 - length (enc_table rs) mod 4 else 0) (0 :: byte)"
  then have "length ys \<le> 7" by auto
  from parse_encoded_table [OF assms _ this, of "[]" 0 "[]"]
  have "parseTable (pad4 (enc_table rs)) = Some (Some (fold with_record rs []))"
    by (simp add: parseTable_def pad4_def ys_def)
  ultimately show ?thesis using built_table [of rs "[]"] by simp
qed

theorem fru_table_roundtrip_witness:
  "\<exists>table. build_table two_records [] = Some table
    \<and> parseTable (pad4 table) = Some (Some [(''Name'', FRU_string ''A B''), (''SN'', FRU_string ''7'')])"
proof -
  have names: "fold with_record two_records [] = [(''Name'', FRU_string ''A B''), (''SN'', FRU_string ''7'')]"
    by code_simp
  have "\<forall>r \<in> set two_records. sized_fields (fr_fields r) \<and> 8 \<le> length (enc_record r)
    \<and> (fr_type r = PLDM_FRU_RECORD_TYPE_GENERAL \<longrightarrow> tame_fields (fr_fields r))"
    by (simp add: two_records_def sized_fields_def tame_fields_def enc_record_def)
  from fru_table_roundtrip [OF this] show ?thesis unfolding names .
qed

text \<open>A vendor IANA number in a general record is used as an address.\<close>

lemma iana_number_is_dereferenced:
  assumes "n \<noteq> 0"
  shows "parseTable (fru_record_header i PLDM_FRU_RECORD_TYPE_GENERAL n e @ enc_field (0x0F, [a, b, c, d]) @ zs)
    = None"
proof -
  obtain m where m: "unat n = Suc m" using assms by (metis not0_implies_Suc unat_eq_zero)
  with assms have "\<not> n < 1" by (simp add: word_less_nat_alt)
  with m show ?thesis unfolding parseTable_def
    by (subst parse_table_loop.simps)
       (simp add: isTableEnd_def fru_record_header_def enc16_def enc_field_def parseFRUField_def
          fruFieldTypes_def fruGeneralFieldTypes_def PLDM_FRU_RECORD_TYPE_GENERAL_def fruFieldParserU32_def)
qed

text \<open>A date with an impossible month is accepted because the hour is right.\<close>

lemma impossible_dates_are_accepted:
  "timestamp_string [0, 20, 0, 77, 99, 1, 2, 3, 0, 0, 0, 0, 0] = ''20-77-99 1:2:3''"
proof -
  have "map to_string [20, 77, 99, Suc 0, 2, 3] = [''20'', ''77'', ''99'', ''1'', ''2'', ''3'']"
    by code_simp
  then show ?thesis by (simp add: timestamp_string_def read16_def le16_def)
qed

section \<open>Messages\<close>

lemma fru_req: "i < 32 \<Longrightarrow> fru_header i c PLDM_REQUEST = Inr [0x80 OR i, 4, c]"
  by (simp add: packed_header is_msg_type_def PLDM_FRU_def PLDM_REQUEST_def PLDM_RESPONSE_def
      PLDM_ASYNC_REQUEST_NOTIFY_def)

lemma fru_resp: "i < 32 \<Longrightarrow> fru_header i c PLDM_RESPONSE = Inr [i, 4, c]"
  by (simp add: packed_header is_msg_type_def PLDM_FRU_def)

lemma metadata_roundtrip:
  assumes "i < 32"
  shows "\<exists>msg. encode_get_fru_record_table_metadata_resp i 0 m = Inr msg
    \<and> decode_get_fru_record_table_metadata_resp msg = Some (PLDM_SUCCESS, 0, Some m)"
  using assms
  by (simp add: encode_get_fru_record_table_metadata_resp_def fru_resp
      decode_get_fru_record_table_metadata_resp_def payload_at_def enc32_def enc16_def
      read32_def read16_def le32_split le16_split)

lemma table_request_roundtrip:
  assumes "i < 32"
  shows "\<exists>msg. encode_get_fru_record_table_req i h op 5 = Inr msg
    \<and> decode_get_fru_record_table_req msg = (PLDM_SUCCESS, Some (h, op))"
  using assms
  by (simp add: encode_get_fru_record_table_req_def fru_req decode_get_fru_record_table_req_def
      enc32_def read32_def le32_split)

lemma table_part_roundtrip:
  assumes "i < 32" "part \<noteq> []"
  shows "\<exists>msg. encode_get_fru_record_table_resp i 0 h flag = Inr msg
    \<and> decode_get_fru_record_table_resp (msg @ part) = Some (PLDM_SUCCESS, 0, Some (h, flag, part))"
  using assms
  by (cases part) (simp_all add: encode_get_fru_record_table_resp_def fru_resp decode_get_fru_record_table_resp_def
      payload_at_def enc32_def read32_def le32_split)

lemma option_request_roundtrip:
  assumes "i < 32"
  shows "\<exists>msg. encode_get_fru_record_by_option_req i r 11 = Inr msg
    \<and> decode_get_fru_record_by_option_req msg = (PLDM_SUCCESS, Some r)"
  using assms
  by (simp add: encode_get_fru_record_by_option_req_def fru_req decode_get_fru_record_by_option_req_def
      enc32_def enc16_def read32_def read16_def le32_split le16_split)

lemma option_answer_roundtrip:
  assumes "i < 32"
  shows "\<exists>msg. encode_get_fru_record_by_option_resp i 0 h flag recs (6 + length recs) = Inr msg
    \<and> decode_get_fru_record_by_option_resp msg = Some (PLDM_SUCCESS, 0, Some (h, flag, recs))"
  using assms
  by (simp add: encode_get_fru_record_by_option_resp_def fru_resp decode_get_fru_record_by_option_resp_def
      Let_def payload_at_def enc32_def read32_def le32_split)

lemma fru_failure_roundtrip:
  assumes "i < 32" "cc \<noteq> 0"
  shows "\<exists>msg. encode_get_fru_record_table_resp i cc h flag = Inr msg
    \<and> decode_get_fru_record_table_resp msg = Some (PLDM_SUCCESS, cc, None)"
  using assms
  by (simp add: encode_get_fru_record_table_resp_def fru_resp decode_get_fru_record_table_resp_def payload_at_def)

text \<open>
  The messages of PLDM type 4 round-trip through the encoders and decoders of the library: the
  metadata of the table, a part of the table (when it is not empty), the requests for parts and for
  selected records, and the selected records; a failure is decoded as its completion code.
\<close>
lemma fru_messages_roundtrip:
  assumes "i < 32" "part \<noteq> []" "cc \<noteq> 0"
  shows "(\<exists>msg. encode_get_fru_record_table_metadata_resp i 0 m = Inr msg
      \<and> decode_get_fru_record_table_metadata_resp msg = Some (PLDM_SUCCESS, 0, Some m))
    \<and> (\<exists>msg. encode_get_fru_record_table_req i h op 5 = Inr msg
      \<and> decode_get_fru_record_table_req msg = (PLDM_SUCCESS, Some (h, op)))
    \<and> (\<exists>msg. encode_get_fru_record_table_resp i 0 h flag = Inr msg
      \<and> decode_get_fru_record_table_resp (msg @ part) = Some (PLDM_SUCCESS, 0, Some (h, flag, part)))
    \<and> (\<exists>msg. encode_get_fru_record_by_option_req i r 11 = Inr msg
      \<and> decode_get_fru_record_by_option_req msg = (PLDM_SUCCESS, Some r))
    \<and> (\<exists>msg. encode_get_fru_record_by_option_resp i 0 h flag part (6 + length part) = Inr msg
      \<and> decode_get_fru_record_by_option_resp msg = Some (PLDM_SUCCESS, 0, Some (h, flag, part)))
    \<and> (\<exists>msg. encode_get_fru_record_table_resp i cc h flag = Inr msg
      \<and> decode_get_fru_record_table_resp msg = Some (PLDM_SUCCESS, cc, None))"
  using assms
  by (intro conjI metadata_roundtrip table_request_roundtrip table_part_roundtrip option_request_roundtrip
      option_answer_roundtrip fru_failure_roundtrip)

theorem fru_messages_roundtrip_witness:
  "\<exists>msg. encode_get_fru_record_table_resp 3 0 7 PLDM_MIDDLE = Inr msg
     \<and> decode_get_fru_record_table_resp (msg @ [0x41]) = Some (PLDM_SUCCESS, 0, Some (7, PLDM_MIDDLE, [0x41]))"
  using fru_messages_roundtrip [of 3 "[0x41]" 1] by simp

end
