(* ===== verification/Fru_Fetch_Props.thy ===== *)
theory Fru_Fetch_Props
  imports Fru_Props Pdr_Fetch_Props
begin

unbundle bit_operations_syntax

text \<open>
  The FRU table that the daemon keeps of a terminus: it has passed the check, and a terminus that
  gives its table in parts is read completely.
\<close>

section \<open>An accepted table\<close>

lemma map_of_map_assign [simp]: "map_of (map_assign k v m) x = (if x = k then Some v else map_of m x)"
  by (induction k v m rule: map_assign.induct) auto

lemma replaced_entry: "map_of (unordered_emplace k v (map_erase k m)) k = Some v"
  by (auto simp: unordered_emplace_def map_of_erase map_add_def split: option.splits)

lemma fetched_table:
  assumes "getFRURecordTableCmd w t md s = Some (PLDM_SUCCESS, props, s')"
  shows "\<exists>table. map_of (fruData s') t = Some table \<and> length table mod 4 = 0
    \<and> map_of md ''Checksum'' = Some (crc32 table) \<and> parseTable table = Some (Some props)"
proof -
  have pad: "length (pad4 data) mod 4 = 0" for data
    by (simp add: pad4_def) presburger
  have "pad4 (pad4 data) = pad4 data" for data
    using pad [of data] by (simp add: pad4_def [of "pad4 data"])
  note pad = pad this
  obtain fetched s1 where loop: "fru_table_loop w t md 100 0 PLDM_GET_FIRSTPART 0 [] s = Some (fetched, s1)"
    using assms by (auto simp: getFRURecordTableCmd_def bind_eq_Some_conv)
  have codes: "PLDM_ERROR \<noteq> PLDM_SUCCESS" "PLDM_ERROR_INVALID_DATA \<noteq> PLDM_SUCCESS"
    by (simp_all add: PLDM_SUCCESS_def PLDM_ERROR_def PLDM_ERROR_INVALID_DATA_def)
  show ?thesis
  proof (cases fetched)
    case None
    with assms loop codes show ?thesis by (simp add: getFRURecordTableCmd_def)
  next
    case (Some data)
    with assms loop codes have crc: "map_of md ''Checksum'' = Some (crc32 (pad4 data))"
      by (auto simp: getFRURecordTableCmd_def verifyCRC_def split: option.splits if_splits)
    with assms loop Some codes obtain props' where "parseTable (pad4 data) = Some (Some props')"
      by (auto simp: getFRURecordTableCmd_def verifyCRC_def Let_def bind_eq_Some_conv split: option.splits)
    with assms loop Some crc pad show ?thesis
      by (auto simp: getFRURecordTableCmd_def verifyCRC_def Let_def addFRUObjectToDbus_def replaced_entry)
  qed
qed

text \<open>
  C20: However the other coroutines interleave: when the FRU commands of a terminus have succeeded, the
  table that is kept of it is padded to whole words, its CRC-32 is the checksum of the metadata that
  is kept with it, and the properties are what the parser makes of it.
\<close>
theorem kept_fru_table_is_checked:
  assumes "runGetFRUCommands w t s = Some (True, s')"
  shows "\<exists>md table props. map_of (terminusFRUMetadata s') t = Some md
    \<and> getPLDMFruRecordData t s' = Some table \<and> fru_getProperties t s' = Some props
    \<and> length table mod 4 = 0 \<and> map_of md ''Checksum'' = Some (crc32 table)
    \<and> parseTable table = Some (Some props)"
proof -
  from assms obtain md s1 props s2 where
    "getFRURecordTableCmd w t md s1 = Some (PLDM_SUCCESS, props, s2)"
    and s': "s' = s2\<lparr>terminusFRUMetadata := map_assign t md (terminusFRUMetadata s2),
        terminusFRUProperties := map_assign t props (terminusFRUProperties s2)\<rparr>"
    by (auto simp: runGetFRUCommands_def bind_eq_Some_conv split: if_splits)
  from fetched_table [OF this(1)] show ?thesis
    by (auto simp: s' getPLDMFruRecordData_def fru_getProperties_def)
qed

section \<open>A terminus with a table\<close>

text \<open>A world in which the terminus answers with \<open>dev\<close>.\<close>

definition answering :: "'a pldm_scheme world \<Rightarrow> (byte list \<Rightarrow> byte list) \<Rightarrow> bool" where
  "answering w dev \<longleftrightarrow> (\<forall>cs d tm p s. \<exists>s'. reachable_still s' s \<and>
     w cs (SendReceive d tm p) s = (s', \<lparr> a_error = False, a_rc = 0, a_bytes = 1 # dev (tl p) \<rparr>))"

lemma answered_exchange:
  assumes "answering w dev" "getMappedEID t (tidMap s) = Some d" "\<not> rsvBWActive s" "i < 32"
    and "req = (0x80 OR i) # ty # c # xs" "dev req = i # ty # c # ys"
  obtains s' where "sendReceivePldmMessage w t 100 3 req [] None s = Some (True, dev req, s')"
    "reachable_still s' s"
proof -
  from assms(1) obtain s1 where s1: "reachable_still s1 s"
    "w (calls s) (SendReceive d 100 (1 # req)) s = (s1, \<lparr> a_error = False, a_rc = 0, a_bytes = 1 # dev req \<rparr>)"
    unfolding answering_def by (metis list.sel(3))
  have "receive_step (1 # req) (1 # dev req) = Some (True, req, dev req)"
    unfolding assms(6) using assms(4)
    by (simp add: assms(5) receive_step_def getPldmPacketType_def PLDM_RESPONSE_def
        PLDM_RQ_D_MASK_def mctp_type_pldm_def getInstanceId_pldm_def PLDM_INSTANCE_ID_MASK_def)
  with s1 assms(2,3) have "sendReceivePldmMessage w t 100 3 req [] None s
      = Some (True, dev req, s1\<lparr>calls := calls s @ [SendReceive d 100 (1 # req)]\<rparr>)"
    by (simp add: sendReceivePldmMessage_def header_type_def validateReserveBW_def numeral_3_eq_3
        wait_for_def mctp_type_pldm_def Let_def assms(5))
  with s1(1) that show thesis by (simp add: reachable_still_def)
qed

text \<open>The terminus gives its table in parts; the handle of a part is its number.\<close>

definition fru_device :: "fru_table_metadata \<Rightarrow> byte list list \<Rightarrow> byte list \<Rightarrow> byte list" where
  "fru_device m parts req =
     (let i = req ! 0 AND 0x1F in
      if req ! 2 = PLDM_GET_FRU_RECORD_TABLE_METADATA
      then (case encode_get_fru_record_table_metadata_resp i 0 m of Inr msg \<Rightarrow> msg | Inl rc \<Rightarrow> [])
      else case decode_get_fru_record_table_req req of
             (rc, None) \<Rightarrow> []
           | (rc, Some (h, op)) \<Rightarrow>
               let k = (if op = PLDM_GET_FIRSTPART then 0 else unat h) in
               if k < length parts
               then (case encode_get_fru_record_table_resp i 0 (word_of_nat (Suc k))
                            (part_flag k (Suc k = length parts)) of
                       Inr msg \<Rightarrow> msg @ parts ! k | Inl rc \<Rightarrow> [])
               else [])"

lemma metadata_fetched:
  assumes "answering w (fru_device m parts)" "getMappedEID t (tidMap s) = Some d" "\<not> rsvBWActive s"
  obtains s' where "getFRURecordTableMetadataCmd w t [] s = Some (PLDM_SUCCESS,
      map_assign ''Checksum'' (fm_checksum m) (map_assign ''FRUTableLength'' (fm_table_length m)
        (map_assign ''FRUTableMaximumSize'' (fm_table_maximum_size m) [])), s')"
    "reachable_still s' s"
proof -
  obtain i s1 where i: "createInstanceId_pldm t s = (i, s1)" by force
  note s1 = instance_reachable [OF i]
  let ?req = "[0x80 OR i, 4, PLDM_GET_FRU_RECORD_TABLE_METADATA]"
  have enc: "encode_get_fru_record_table_metadata_req i 0 = Inr ?req"
    using s1 by (simp add: encode_get_fru_record_table_metadata_req_def fru_req)
  from metadata_roundtrip [of i m] s1 obtain msg where
    msg: "encode_get_fru_record_table_metadata_resp i 0 m = Inr msg"
    "decode_get_fru_record_table_metadata_resp msg = Some (PLDM_SUCCESS, 0, Some m)" by blast
  then have dev: "fru_device m parts ?req = msg"
    using s1 by (simp add: fru_device_def)
  obtain ys where ys: "msg = i # 4 # PLDM_GET_FRU_RECORD_TABLE_METADATA # ys"
    using msg(1) s1 by (auto simp: encode_get_fru_record_table_metadata_resp_def fru_resp)
  with dev have ans: "fru_device m parts ?req = i # 4 # PLDM_GET_FRU_RECORD_TABLE_METADATA # ys" by simp
  have at: "getMappedEID t (tidMap s1) = Some d" "\<not> rsvBWActive s1"
    using s1 assms(2,3) by (auto simp: reachable_still_def)
  obtain s2 where "sendReceivePldmMessage w t 100 3 ?req [] None s1 = Some (True, msg, s2)"
    "reachable_still s2 s1"
    using answered_exchange [OF assms(1) at conjunct2 [OF s1] refl ans] dev by metis
  with i enc msg(2) have "getFRURecordTableMetadataCmd w t [] s = Some (PLDM_SUCCESS,
      map_assign ''Checksum'' (fm_checksum m) (map_assign ''FRUTableLength'' (fm_table_length m)
        (map_assign ''FRUTableMaximumSize'' (fm_table_maximum_size m) [])), s2)"
    by (simp add: getFRURecordTableMetadataCmd_def validatePLDMRespDecode_def PLDM_SUCCESS_def
        del: map_assign.simps)
  moreover have "reachable_still s2 s"
    using reachable_trans [OF \<open>reachable_still s2 s1\<close>] s1 by blast
  ultimately show thesis by (rule that)
qed

text \<open>One round of the loop at part \<open>k\<close>.\<close>

definition part_op :: "nat \<Rightarrow> byte" where
  "part_op k = (if k = 0 then PLDM_GET_FIRSTPART else PLDM_GET_NEXTPART)"

lemma fru_part_answer:
  assumes "i < 32" "k < length parts" "length parts \<le> 99" "parts ! k \<noteq> []"
  defines "req \<equiv> [0x80 OR i, 4, PLDM_GET_FRU_RECORD_TABLE] @ enc32 (word_of_nat k) @ [part_op k]"
  shows "\<exists>ys. fru_device m parts req = i # 4 # PLDM_GET_FRU_RECORD_TABLE # 0 # ys \<and> 6 \<le> length ys"
    and "decode_get_fru_record_table_resp (fru_device m parts req)
      = Some (PLDM_SUCCESS, 0, Some (word_of_nat (Suc k), part_flag k (Suc k = length parts), parts ! k))"
proof -
  have k: "unat (word_of_nat k :: u32) = k" using assms(2,3) by (simp add: unat_of_nat_u32)
  from table_request_roundtrip [OF assms(1), of "word_of_nat k" "part_op k"] assms(1)
  have dec: "decode_get_fru_record_table_req req = (PLDM_SUCCESS, Some (word_of_nat k, part_op k))"
    by (auto simp: req_def encode_get_fru_record_table_req_def fru_req)
  have cmd: "req ! 2 \<noteq> PLDM_GET_FRU_RECORD_TABLE_METADATA" "req ! 0 AND 0x1F = i"
    using assms(1) by (simp_all add: req_def PLDM_GET_FRU_RECORD_TABLE_METADATA_def PLDM_GET_FRU_RECORD_TABLE_def)
  have off: "(if part_op k = PLDM_GET_FIRSTPART then 0 else unat (word_of_nat k :: u32)) = k"
    using k by (simp add: part_op_def transfer_flags)
  obtain msg where msg: "encode_get_fru_record_table_resp i 0 (word_of_nat (Suc k))
      (part_flag k (Suc k = length parts)) = Inr msg"
    "decode_get_fru_record_table_resp (msg @ parts ! k)
      = Some (PLDM_SUCCESS, 0, Some (word_of_nat (Suc k), part_flag k (Suc k = length parts), parts ! k))"
    using table_part_roundtrip [OF assms(1,4)] by blast
  have dev: "fru_device m parts req = msg @ parts ! k"
    using cmd dec off msg(1) assms(2) unfolding fru_device_def Let_def by simp
  with msg(2) show "decode_get_fru_record_table_resp (fru_device m parts req)
      = Some (PLDM_SUCCESS, 0, Some (word_of_nat (Suc k), part_flag k (Suc k = length parts), parts ! k))"
    by simp
  show "\<exists>ys. fru_device m parts req = i # 4 # PLDM_GET_FRU_RECORD_TABLE # 0 # ys \<and> 6 \<le> length ys"
    using msg(1) assms(1,4) unfolding dev
    by (cases "parts ! k") (auto simp: encode_get_fru_record_table_resp_def fru_resp enc32_def)
qed

lemma table_parts_fetched:
  assumes "answering w (fru_device m parts)" "length parts \<le> 99" "\<forall>p \<in> set parts. p \<noteq> []"
    and "map_of md ''FRUTableLength'' = Some len" "length (concat parts) \<le> unat len"
    and "getMappedEID t (tidMap s) = Some d" "\<not> rsvBWActive s"
    and "k < length parts" "length parts - k \<le> n" "flag \<noteq> PLDM_END" "flag \<noteq> PLDM_START_AND_END"
  shows "\<exists>s'. fru_table_loop w t md (Suc n) (word_of_nat k) (part_op k) flag (concat (take k parts)) s
    = Some (Some (concat parts), s') \<and> reachable_still s' s"
  using assms(6-11)
proof (induction n arbitrary: k flag s)
  case (Suc n)
  obtain i s1 where i: "createInstanceId_pldm t s = (i, s1)" by force
  note s1 = instance_reachable [OF i]
  let ?xs = "enc32 (word_of_nat k) @ [part_op k]"
  let ?req = "[0x80 OR i, 4, PLDM_GET_FRU_RECORD_TABLE] @ ?xs"
  have enc: "encode_get_fru_record_table_req i (word_of_nat k) (part_op k) 5 = Inr ?req"
    using s1 by (simp add: encode_get_fru_record_table_req_def fru_req)
  have part: "parts ! k \<noteq> []" using assms(3) Suc.prems(3) by auto
  note ans = fru_part_answer [OF conjunct2 [OF s1] Suc.prems(3) assms(2) part, of m]
  from ans(1) obtain ys where
    ys: "fru_device m parts ?req = i # 4 # PLDM_GET_FRU_RECORD_TABLE # 0 # ys" "6 \<le> length ys" by blast
  have at: "getMappedEID t (tidMap s1) = Some d" "\<not> rsvBWActive s1"
    using s1 Suc.prems(1,2) by (auto simp: reachable_still_def)
  have req: "?req = (0x80 OR i) # 4 # PLDM_GET_FRU_RECORD_TABLE # ?xs" by simp
  obtain s2 where s2: "sendReceivePldmMessage w t 100 3 ?req [] None s1
      = Some (True, fru_device m parts ?req, s2)" "reachable_still s2 s1"
    using answered_exchange [OF assms(1) at conjunct2 [OF s1] req ys(1)] by blast
  from s1 s2(2) have s: "reachable_still s2 s" by (blast intro: reachable_trans)
  have "concat parts = concat (take k parts) @ concat (drop k parts)"
    by (metis append_take_drop_id concat_append)
  then have fits: "\<not> length (concat (take k parts)) > unat len" using assms(5) by simp
  have more: "concat (take k parts) @ parts ! k = concat (take (Suc k) parts)"
    using Suc.prems(3) by (simp add: take_Suc_conv_app_nth)
  have long: "\<not> length (fru_device m parts ?req) - 3 < 6" using ys by simp
  let ?flag = "part_flag k (Suc k = length parts)"
  have loop: "fru_table_loop w t md (Suc (Suc n)) (word_of_nat k) (part_op k) flag (concat (take k parts)) s
      = fru_table_loop w t md (Suc n) (word_of_nat (Suc k)) PLDM_GET_NEXTPART ?flag (concat (take (Suc k) parts)) s2"
    using Suc.prems(5,6) assms(4) fits i enc s2(1) long ans(2) more
    by (simp add: fru_table_loop.simps(2) [of w t md "Suc n"] validatePLDMRespDecode_def PLDM_SUCCESS_def
        del: fru_table_loop.simps)
  show ?case
  proof (cases "Suc k = length parts")
    case True
    then have "?flag = PLDM_END \<or> ?flag = PLDM_START_AND_END" by (simp add: part_flag_def)
    with True s show ?thesis unfolding loop by simp
  next
    case False
    have "Suc k < length parts" "length parts - Suc k \<le> n" using False Suc.prems(3,4) by auto
    moreover have "?flag \<noteq> PLDM_END" "?flag \<noteq> PLDM_START_AND_END"
      using False by (simp_all add: part_flag_def transfer_flags)
    moreover have "getMappedEID t (tidMap s2) = Some d" "\<not> rsvBWActive s2"
      using s Suc.prems(1,2) by (auto simp: reachable_still_def)
    ultimately obtain s3 where "fru_table_loop w t md (Suc n) (word_of_nat (Suc k)) (part_op (Suc k)) ?flag
        (concat (take (Suc k) parts)) s2 = Some (Some (concat parts), s3)" "reachable_still s3 s2"
      using Suc.IH by blast
    with s show ?thesis unfolding loop by (auto simp: part_op_def intro: reachable_trans)
  qed
qed simp

lemma device_fetched:
  assumes "answering w (fru_device m parts)" "getMappedEID t (tidMap s) = Some d" "\<not> rsvBWActive s"
    and "parts \<noteq> []" "\<forall>p \<in> set parts. p \<noteq> []" "length parts \<le> 99" "concat parts = enc_table rs"
    and "length (enc_table rs) \<le> unat (fm_table_length m)" "fm_checksum m = crc32 (pad4 (enc_table rs))"
    and "\<forall>r \<in> set rs. sized_fields (fr_fields r) \<and> 8 \<le> length (enc_record r)
      \<and> (fr_type r = PLDM_FRU_RECORD_TYPE_GENERAL \<longrightarrow> tame_fields (fr_fields r))"
  shows "\<exists>s'. runGetFRUCommands w t s = Some (True, s')
    \<and> getPLDMFruRecordData t s' = Some (pad4 (enc_table rs))
    \<and> fru_getProperties t s' = Some (fold with_record rs [])"
proof -
  define md where "md = map_assign ''Checksum'' (fm_checksum m) (map_assign ''FRUTableLength'' (fm_table_length m)
      (map_assign ''FRUTableMaximumSize'' (fm_table_maximum_size m) []))"
  have md_at: "map_of md ''FRUTableLength'' = Some (fm_table_length m)" "map_of md ''Checksum'' = Some (fm_checksum m)"
    by (simp_all add: md_def del: map_assign.simps)
  obtain s1 where s1: "getFRURecordTableMetadataCmd w t [] s = Some (PLDM_SUCCESS, md, s1)" "reachable_still s1 s"
    using metadata_fetched [OF assms(1-3)] unfolding md_def by blast
  then have at: "getMappedEID t (tidMap s1) = Some d" "\<not> rsvBWActive s1"
    using assms(2,3) by (auto simp: reachable_still_def)
  have "0 < length parts" "length parts - 0 \<le> 99" "(0 :: byte) \<noteq> PLDM_END" "(0 :: byte) \<noteq> PLDM_START_AND_END"
    using assms(4,6) by (simp_all add: transfer_flags)
  moreover have "length (concat parts) \<le> unat (fm_table_length m)" using assms(7,8) by simp
  ultimately obtain s2 where s2: "fru_table_loop w t md (Suc 99) 0 PLDM_GET_FIRSTPART 0 [] s1
      = Some (Some (enc_table rs), s2)"
    using table_parts_fetched [OF assms(1,6,5) md_at(1) _ at, of 0 99 0] assms(7)
    by (auto simp: part_op_def simp del: fru_table_loop.simps)
  have "length (replicate (if length (enc_table rs) mod 4 \<noteq> 0 then 4 - length (enc_table rs) mod 4 else 0) (0 :: byte)) \<le> 7"
    by auto
  from parse_encoded_table [OF assms(10) _ this, of "[]" 0 "[]"]
  have parsed: "parseTable (pad4 (enc_table rs)) = Some (Some (fold with_record rs []))"
    by (simp add: parseTable_def pad4_def)
  have "getFRURecordTableCmd w t md s1 = Some (PLDM_SUCCESS, fold with_record rs [],
      addFRUObjectToDbus (fruPath @ to_string (unat t)) (fold with_record rs [])
        (s2\<lparr>fruData := unordered_emplace t (pad4 (enc_table rs)) (map_erase t (fruData s2))\<rparr>))"
    using s2 md_at(2) assms(9) parsed
    by (simp add: getFRURecordTableCmd_def verifyCRC_def Let_def del: fru_table_loop.simps)
  with s1(1) show ?thesis
    by (simp add: runGetFRUCommands_def addFRUObjectToDbus_def getPLDMFruRecordData_def fru_getProperties_def
        replaced_entry)
qed

text \<open>The properties that the parser yields are strings.\<close>

definition only_strings :: "fru_properties \<Rightarrow> bool" where
  "only_strings props \<longleftrightarrow> (\<forall>p \<in> set props. \<exists>v. snd p = FRU_string v)"

lemma assign_string: "only_strings props \<Longrightarrow> only_strings (map_assign name (FRU_string v) props)"
  by (induction name "FRU_string v" props rule: map_assign.induct) (auto simp: only_strings_def)

lemma fields_are_strings: "only_strings props \<Longrightarrow> only_strings (fold with_field fs props)"
  by (induction fs arbitrary: props)
     (simp_all add: with_field_def assign_string split: option.split prod.split)

lemma records_are_strings: "only_strings props \<Longrightarrow> only_strings (fold with_record rs props)"
  by (induction rs arbitrary: props) (simp_all add: with_record_def fields_are_strings)

lemma strings_convert:
  assumes "only_strings props"
  shows "\<exists>s'. convertFRUToIpmiFRU t props s = Some s' \<and> terminusFRUMetadata s' = terminusFRUMetadata s
    \<and> terminusFRUProperties s' = terminusFRUProperties s \<and> fruData s' = fruData s"
proof (cases "map_of props ''Name''")
  case None
  then show ?thesis by (simp add: convertFRUToIpmiFRU_def)
next
  case (Some x)
  with assms map_of_SomeD [OF Some] obtain v where "x = FRU_string v" by (auto simp: only_strings_def)
  with Some show ?thesis
    by (cases "v = []") (simp_all add: convertFRUToIpmiFRU_def Let_def split: prod.split)
qed

text \<open>
  C19: From a terminus that answers, the daemon fetches the whole FRU table when the device is
  initialised: \<open>fruInit\<close> succeeds, the raw data that are kept are the padded table, and the properties
  are those of the fields of its general records. The other coroutines may do anything meanwhile that
  leaves the terminus reachable. The table comes in at most 99 parts, none of them empty, is not longer
  than its metadata announce and has their checksum, its records have eight bytes or more and fields
  with their sizes, and no general record has a Vendor IANA field of four bytes: the parser supports
  that field, and the daemon crashes on it (\<open>iana\_number\_is\_dereferenced\<close>).
\<close>
theorem fru_is_fetched_and_parsed:
  assumes "answering w (fru_device m parts)" "getMappedEID t (tidMap s) = Some d" "\<not> rsvBWActive s"
    and "parts \<noteq> []" "\<forall>p \<in> set parts. p \<noteq> []" "length parts \<le> 99" "concat parts = enc_table rs"
    and "length (enc_table rs) \<le> unat (fm_table_length m)" "fm_checksum m = crc32 (pad4 (enc_table rs))"
    and "\<forall>r \<in> set rs. sized_fields (fr_fields r) \<and> 8 \<le> length (enc_record r)
      \<and> (fr_type r = PLDM_FRU_RECORD_TYPE_GENERAL \<longrightarrow> tame_fields (fr_fields r))"
  shows "\<exists>s'. fruInit w t s = Some (True, s')
    \<and> getPLDMFruRecordData t s' = Some (pad4 (enc_table rs))
    \<and> fru_getProperties t s' = Some (fold with_record rs [])"
proof -
  let ?s = "s\<lparr>setFRUIface := True\<rparr>"
  have "getMappedEID t (tidMap ?s) = Some d" "\<not> rsvBWActive ?s" using assms(2,3) by simp_all
  from device_fetched [OF assms(1) this assms(4-10)] obtain s1 where
    s1: "runGetFRUCommands w t ?s = Some (True, s1)"
    "getPLDMFruRecordData t s1 = Some (pad4 (enc_table rs))"
    "fru_getProperties t s1 = Some (fold with_record rs [])" by blast
  have "only_strings (fold with_record rs [])" by (rule records_are_strings) (simp add: only_strings_def)
  then obtain s2 where "convertFRUToIpmiFRU t (fold with_record rs []) s1 = Some s2"
    "terminusFRUMetadata s2 = terminusFRUMetadata s1" "terminusFRUProperties s2 = terminusFRUProperties s1"
    "fruData s2 = fruData s1" using strings_convert by blast
  with s1 show ?thesis
    by (auto simp: fruInit_def fru_getProperties_def getPLDMFruRecordData_def split: if_splits)
qed

text \<open>The two records of the example in two parts.\<close>

definition example_metadata :: fru_table_metadata where
  "example_metadata = \<lparr> fm_data_major_version = 1, fm_data_minor_version = 0, fm_table_maximum_size = 64,
     fm_table_length = 24, fm_total_record_set_identifiers = 2, fm_total_table_records = 2,
     fm_checksum = crc32 (pad4 (enc_table two_records)) \<rparr>"

definition example_parts :: "byte list list" where
  "example_parts = [take 10 (enc_table two_records), drop 10 (enc_table two_records)]"

definition example_world :: "fru_state world" where
  "example_world cs c s = (s, \<lparr> a_error = False, a_rc = 0, a_bytes = (case c of
     SendReceive d tm p \<Rightarrow> 1 # fru_device example_metadata example_parts (tl p) | _ \<Rightarrow> []) \<rparr>)"

lemma example_device:
  defines "s \<equiv> fru_start\<lparr>tidMap := [(5, 9)]\<rparr>"
  shows "answering example_world (fru_device example_metadata example_parts)"
    and "getMappedEID 5 (tidMap s) = Some 9" "\<not> rsvBWActive s"
    and "example_parts \<noteq> []" "\<forall>p \<in> set example_parts. p \<noteq> []" "length example_parts \<le> 99"
    and "concat example_parts = enc_table two_records"
    and "length (enc_table two_records) \<le> unat (fm_table_length example_metadata)"
    and "fm_checksum example_metadata = crc32 (pad4 (enc_table two_records))"
    and "\<forall>r \<in> set two_records. sized_fields (fr_fields r) \<and> 8 \<le> length (enc_record r)
      \<and> (fr_type r = PLDM_FRU_RECORD_TYPE_GENERAL \<longrightarrow> tame_fields (fr_fields r))"
proof -
  have len: "length (enc_table two_records) = 22"
    by (simp add: two_records_def enc_record_def)
  show "answering example_world (fru_device example_metadata example_parts)"
    by (simp add: answering_def example_world_def)
  show "getMappedEID 5 (tidMap s) = Some 9" "\<not> rsvBWActive s"
    by (simp_all add: s_def getMappedEID_def fru_start_def pldm.defs pldm_start_def)
  show "example_parts \<noteq> []" "\<forall>p \<in> set example_parts. p \<noteq> []" "length example_parts \<le> 99"
    "concat example_parts = enc_table two_records"
    using len by (auto simp: example_parts_def)
  show "length (enc_table two_records) \<le> unat (fm_table_length example_metadata)"
    "fm_checksum example_metadata = crc32 (pad4 (enc_table two_records))"
    by (simp_all add: len example_metadata_def)
  show "\<forall>r \<in> set two_records. sized_fields (fr_fields r) \<and> 8 \<le> length (enc_record r)
      \<and> (fr_type r = PLDM_FRU_RECORD_TYPE_GENERAL \<longrightarrow> tame_fields (fr_fields r))"
    by (simp add: two_records_def sized_fields_def tame_fields_def enc_record_def)
qed

theorem fru_is_fetched_and_parsed_witness:
  "\<exists>s'. fruInit example_world 5 (fru_start\<lparr>tidMap := [(5, 9)]\<rparr>) = Some (True, s')
    \<and> fru_getProperties 5 s' = Some [(''Name'', FRU_string ''A B''), (''SN'', FRU_string ''7'')]"
proof -
  have "fold with_record two_records [] = [(''Name'', FRU_string ''A B''), (''SN'', FRU_string ''7'')]"
    by code_simp
  with fru_is_fetched_and_parsed [OF example_device] show ?thesis by auto
qed

theorem kept_fru_table_is_checked_witness:
  "\<exists>s' md table. runGetFRUCommands example_world 5 (fru_start\<lparr>tidMap := [(5, 9)]\<rparr>) = Some (True, s')
    \<and> map_of (terminusFRUMetadata s') 5 = Some md \<and> getPLDMFruRecordData 5 s' = Some table
    \<and> map_of md ''Checksum'' = Some (crc32 table)"
  using device_fetched [OF example_device] kept_fru_table_is_checked [of example_world 5] by metis

end
