(* ===== verification/Fru_Device_Props.thy ===== *)
theory Fru_Device_Props
  imports Fru_Fetch_Props
begin

unbundle bit_operations_syntax

text \<open>
  What the daemon offers of a FRU device: the IPMI FRU can be read by a reader of that format, and
  what is kept of the devices agrees with each other and goes with the device.
\<close>

section \<open>Reading an IPMI FRU\<close>

text \<open>The fields of an area: a type and length byte each, up to the byte that ends them.\<close>

function ipmi_fields :: "byte list \<Rightarrow> byte list list option" where
  "ipmi_fields [] = None"
| "ipmi_fields (b # bs) =
     (if b = 0xC1 then Some []
      else if unat (b AND 0x3F) \<le> length bs
      then map_option ((#) (take (unat (b AND 0x3F)) bs)) (ipmi_fields (drop (unat (b AND 0x3F)) bs))
      else None)"
  by pat_completeness auto
termination
  by (relation "measure length") simp_all

definition ascii :: "string \<Rightarrow> byte list" where
  "ascii v = map (\<lambda>c. word_of_nat (of_char c)) v"

lemma six_bits: "n < 64 \<Longrightarrow> (word_of_nat n OR 0xC0) AND 0x3F = (word_of_nat n :: byte)"
  using type_bits [of "word_of_nat n"] by (simp add: bit.conj_disj_distrib2 word_less_nat_alt)

lemma read_product_field:
  assumes "length v < 64" "length v \<noteq> 1"
  shows "ipmi_fields (product_field v @ bs) = map_option ((#) (ascii v)) (ipmi_fields bs)"
proof -
  let ?b = "word_of_nat (length v) OR 0xC0 :: byte"
  have n: "unat (?b AND 0x3F) = length v"
    using assms(1) by (simp add: six_bits)
  have "?b \<noteq> 0xC1"
  proof
    assume "?b = 0xC1"
    then have "unat (?b AND 0x3F) = 1" by simp
    with n assms(2) show False by simp
  qed
  then show ?thesis by (simp add: product_field_def n ascii_def)
qed

text \<open>The value of a property, and properties whose values can be told from the end.\<close>

definition ipmi_value :: "fru_properties \<Rightarrow> string \<Rightarrow> byte list" where
  "ipmi_value props name = (case map_of props name of
     Some (FRU_string v) \<Rightarrow> ascii (strip_spaces v) | _ \<Rightarrow> [])"

definition ipmi_ok :: "fru_properties \<Rightarrow> string \<Rightarrow> bool" where
  "ipmi_ok props name = (case map_of props name of
     None \<Rightarrow> True
   | Some (FRU_string v) \<Rightarrow> length (strip_spaces v) < 64 \<and> length (strip_spaces v) \<noteq> 1
   | Some _ \<Rightarrow> False)"

lemma read_product_fields:
  assumes "\<forall>name \<in> set names. ipmi_ok props name"
  shows "\<exists>bs. product_fields names props = Some bs \<and> length bs \<le> 64 * length names
    \<and> ipmi_fields (bs @ 0xC1 # zs) = Some (map (ipmi_value props) names)"
  using assms
proof (induction names)
  case (Cons name names)
  then obtain bs where bs: "product_fields names props = Some bs" "length bs \<le> 64 * length names"
    "ipmi_fields (bs @ 0xC1 # zs) = Some (map (ipmi_value props) names)" by auto
  show ?case
  proof (cases "map_of props name")
    case None
    with bs show ?thesis by (simp add: ipmi_value_def)
  next
    case (Some x)
    with Cons.prems obtain v where v: "x = FRU_string v" "length (strip_spaces v) < 64"
      "length (strip_spaces v) \<noteq> 1" by (auto simp: ipmi_ok_def split: fru_variant.splits)
    then have "length (product_field (strip_spaces v)) \<le> 64" by (simp add: product_field_def)
    with bs v Some read_product_field [OF v(2,3), of "bs @ 0xC1 # zs"] show ?thesis
      by (simp add: ipmi_value_def)
  qed
qed simp

lemma checksum_closes: "sum_list bs + calculateChecksum bs = 0"
proof -
  have "word_of_nat (sum_list (map unat bs)) = sum_list bs" by (induction bs) simp_all
  then show ?thesis by (simp add: calculateChecksum_def)
qed

lemma pad8_padded:
  obtains zs where "pad8 bs = bs @ zs" "length (pad8 bs) mod 8 = 0" "length zs < 8"
proof (rule that)
  show "pad8 bs = bs @ replicate (if length bs mod 8 \<noteq> 0 then 8 - length bs mod 8 else 0) 0"
    by (simp add: pad8_def)
  show "length (pad8 bs) mod 8 = 0" by (simp add: pad8_def) presburger
qed simp

text \<open>
  The raw FRU of a device can be read by a reader of the IPMI format: the header closes with its
  checksum and points to the product area, whose bytes and checksum sum to zero, and the fields of
  the area are the values of the properties (empty when there is none) without trailing spaces,
  provided none of them has exactly one character or more than 63. The length in the area counts the
  padded fields, without the checksum.
\<close>
lemma raw_fru_is_readable:
  assumes "map_of (ipmiFRUProperties s) t = Some props" "\<forall>name \<in> set ipmiProductProperties. ipmi_ok props name"
  shows "\<exists>raw. getRawFRURecordData t s = Some (Some raw)
    \<and> sum_list (take 8 raw) = 0 \<and> raw ! 4 = 1 \<and> sum_list (drop 8 raw) = 0
    \<and> length raw = 8 + 8 * unat (raw ! 9) + 1
    \<and> ipmi_fields (drop 11 raw) = Some (map (ipmi_value props) ipmiProductProperties)"
proof -
  obtain bs where bs: "product_fields ipmiProductProperties props = Some bs"
    "length bs \<le> 64 * length ipmiProductProperties"
    and read: "ipmi_fields (bs @ 0xC1 # zs) = Some (map (ipmi_value props) ipmiProductProperties)" for zs
    using read_product_fields [OF assms(2)] by (metis option.inject)
  obtain zs where zs: "pad8 ([1, 0, 0] @ bs @ [0xC1, 0]) = ([1, 0, 0] @ bs @ [0xC1, 0]) @ zs"
    "length (pad8 ([1, 0, 0] @ bs @ [0xC1, 0])) mod 8 = 0" "length zs < 8" by (rule pad8_padded)
  define n where "n = length (pad8 ([1, 0, 0] @ bs @ [0xC1, 0])) div 8"
  have len: "8 * n = 5 + length bs + length zs"
  proof -
    have "length (pad8 ([1, 0, 0] @ bs @ [0xC1, 0])) = 5 + length bs + length zs"
      unfolding zs(1) by simp
    with zs(2) show ?thesis unfolding n_def by presburger
  qed
  have "length bs \<le> 448" using bs(2) by (simp add: ipmiProductProperties_def)
  with len zs(3) have n: "n < 64" "0 < n" by auto
  let ?area = "[1, word_of_nat n, 0] @ bs @ [0xC1, 0] @ zs"
  let ?raw = "setCommonHeader 0 0 0 (word_of_nat n) @ ?area @ [calculateChecksum ?area]"
  have area: "(pad8 ([1, 0, 0] @ bs @ [0xC1, 0]))[1 := word_of_nat n] = ?area"
    unfolding zs(1) by simp
  have "setProductArea props [] = Some (word_of_nat n, ?area @ [calculateChecksum ?area])"
    using n(1) zs(2) area unfolding setProductArea_def bs(1) Let_def bind.simps n_def [symmetric] by simp
  then have raw: "getRawFRURecordData t s = Some (Some ?raw)"
    unfolding getRawFRURecordData_def setInternalArea_def setChassisArea_def setBoardArea_def assms(1) by simp
  have "unat (word_of_nat n :: byte) = n" using n(1) by simp
  with n(2) have pos: "(word_of_nat n :: byte) \<noteq> 0" by (auto simp del: word_of_nat_eq_0_iff)
  have hdr: "setCommonHeader 0 0 0 (word_of_nat n) = [1, 0, 0, 0, 1, 0, 0] @ [calculateChecksum [1, 0, 0, 0, 1, 0, 0]]"
    using pos by (simp add: setCommonHeader_def setHeaderAreaOffset_def word_gt_0)
  show ?thesis
  proof (intro exI conjI)
    show "getRawFRURecordData t s = Some (Some ?raw)" by (rule raw)
    show "sum_list (take 8 ?raw) = 0" using checksum_closes [of "[1, 0, 0, 0, 1, 0, 0]"] unfolding hdr by simp
    show "?raw ! 4 = 1" unfolding hdr by simp
    show "sum_list (drop 8 ?raw) = 0" using checksum_closes [of ?area] unfolding hdr by (simp add: add.assoc)
    show "length ?raw = 8 + 8 * unat (?raw ! 9) + 1" using n len unfolding hdr by simp
    show "ipmi_fields (drop 11 ?raw) = Some (map (ipmi_value props) ipmiProductProperties)"
      using read [of "0 # zs @ [calculateChecksum ?area]"] unfolding hdr by simp
  qed
qed

theorem raw_fru_is_readable_witness:
  "\<exists>raw. getRawFRURecordData 5 (fru_start\<lparr>ipmiFRUProperties := [(5, [(''PRODUCT_PRODUCT_NAME'', FRU_string ''NIC '')])]\<rparr>)
      = Some (Some raw)
    \<and> ipmi_fields (drop 11 raw) = Some [[], [0x4E, 0x49, 0x43], [], [], [], [], []]"
proof -
  let ?props = "[(''PRODUCT_PRODUCT_NAME'', FRU_string ''NIC '')]"
  have "map (ipmi_value ?props) ipmiProductProperties = [[], [0x4E, 0x49, 0x43], [], [], [], [], []]"
    by code_simp
  moreover have "\<forall>name \<in> set ipmiProductProperties. ipmi_ok ?props name"
    by (simp add: ipmi_ok_def ipmiProductProperties_def strip_spaces_def)
  moreover obtain raw where
    "getRawFRURecordData 5 (fru_start\<lparr>ipmiFRUProperties := [(5, ?props)]\<rparr>) = Some (Some raw)"
    "ipmi_fields (drop 11 raw) = Some (map (ipmi_value ?props) ipmiProductProperties)"
    using raw_fru_is_readable [of "fru_start\<lparr>ipmiFRUProperties := [(5, ?props)]\<rparr>" 5 ?props,
        OF _ calculation(2)] by auto
  ultimately show ?thesis by auto
qed

text \<open>A value of one character is taken for the end of the fields; one of 64 for an empty one.\<close>

lemma one_character_ends_the_fields: "length v = 1 \<Longrightarrow> ipmi_fields (product_field v @ bs) = Some []"
  by (simp add: product_field_def)

lemma long_value_is_misread: "ipmi_fields (product_field (replicate 64 c) @ bs)
    = map_option ((#) []) (ipmi_fields (ascii (replicate 64 c) @ bs))"
  by (simp add: product_field_def ascii_def)

section \<open>The devices\<close>

text \<open>The path of the D-Bus object of a device; different devices have different ones.\<close>

abbreviation fru_object :: "tid \<Rightarrow> string" where
  "fru_object t \<equiv> fruPath @ to_string (unat t)"

lemma to_string_value: "foldl (\<lambda>a c. 10 * a + (of_char c - 48)) 0 (to_string n) = n"
proof (induction n rule: to_string.induct)
  case (1 n)
  then show ?case by (subst to_string.simps) simp
qed

lemma tid_string_eq [simp]: "to_string (unat t) = to_string (unat u) \<longleftrightarrow> t = (u::tid)"
proof
  assume "to_string (unat t) = to_string (unat u)"
  then have "unat t = unat u" using to_string_value by metis
  then show "t = u" by (simp add: word_unat_eq_iff)
qed simp

lemma removeInterface_other:
  "q \<noteq> path \<Longrightarrow> filter (\<lambda>i. fst i = q) (fru_removeInterface path is) = filter (\<lambda>i. fst i = q) is"
  by (induction path "is" rule: fru_removeInterface.induct) auto

lemma removeInterface_others:
  "q \<noteq> path \<Longrightarrow> q \<in> fst ` set (fru_removeInterface path is) \<longleftrightarrow> q \<in> fst ` set is"
  by (induction path "is" rule: fru_removeInterface.induct) auto

lemma removeInterface_first:
  "path \<in> fst ` set is \<Longrightarrow> \<exists>xs props ys. is = xs @ (path, props) # ys \<and> path \<notin> fst ` set xs
     \<and> fru_removeInterface path is = xs @ ys"
proof (induction path "is" rule: fru_removeInterface.induct)
  case (2 path i ifaces)
  show ?case
  proof (cases "fst i = path")
    case True
    then show ?thesis by (intro exI [of _ "[]"] exI [of _ "snd i"] exI [of _ ifaces]) auto
  next
    case False
    then obtain xs props ys where "ifaces = xs @ (path, props) # ys" "path \<notin> fst ` set xs"
      "fru_removeInterface path ifaces = xs @ ys" using 2 by auto
    with False show ?thesis by (intro exI [of _ "i # xs"] exI [of _ props] exI [of _ ys]) auto
  qed
qed simp

text \<open>What is kept of the devices agrees: they have metadata and properties or neither, the raw
  data and an object on D-Bus of those that have, and an IPMI interface together with its properties,
  for such devices only.\<close>

definition fru_inv :: "fru_state \<Rightarrow> bool" where
  "fru_inv s \<longleftrightarrow> smap (terminusFRUMetadata s) \<and> smap (terminusFRUProperties s) \<and> smap (ipmiFRUProperties s)
   \<and> dom (map_of (terminusFRUMetadata s)) = dom (map_of (terminusFRUProperties s))
   \<and> dom (map_of (terminusFRUMetadata s)) \<subseteq> dom (map_of (fruData s))
   \<and> dom (map_of (ipmiFruInterface s)) = dom (map_of (ipmiFRUProperties s))
   \<and> dom (map_of (ipmiFruInterface s)) \<subseteq> dom (map_of (terminusFRUMetadata s))
   \<and> (\<forall>t \<in> dom (map_of (terminusFRUMetadata s)). fru_object t \<in> fst ` set (fruInterface s))"

lemma doms_erase: "dom (map_of (map_erase t m)) = dom (map_of m) - {t}"
  by (auto simp: map_of_erase split: if_splits)

lemma doms_assign: "dom (map_of (map_assign k v m)) = insert k (dom (map_of m))"
  by (auto split: if_splits)

lemma doms_unordered: "dom (map_of (unordered_emplace k v m)) = insert k (dom (map_of m))"
  by (auto simp: unordered_emplace_def map_add_def split: option.splits)

lemma doms_emplace: "smap m \<Longrightarrow> dom (map_of (map_emplace k v m)) = insert k (dom (map_of m))"
  by (auto simp: map_of_emplace split: if_splits)

lemmas fru_doms = doms_erase doms_assign doms_unordered doms_emplace

text \<open>What every wait and every new instance id keep is kept by an exchange and by the fetching.\<close>

lemma fru_exchanges_keep:
  assumes wait: "\<And>c s. P s \<Longrightarrow> P (snd (wait_for w c s))"
    and inst: "\<And>t s. P s \<Longrightarrow> P (snd (createInstanceId_pldm t s))"
  shows "P s \<Longrightarrow> always (\<lambda>r. P (snd (snd r))) (sendReceivePldmMessage w t tm k req [] None s)"
    and "P s \<Longrightarrow> always (\<lambda>r. P (snd (snd r))) (getFRURecordTableMetadataCmd w t md s)"
    and "P s \<Longrightarrow> always (\<lambda>r. P (snd r)) (fru_table_loop w t md n h op fl d s)"
proof -
  have send': "sendReceivePldmMessage w t tm k req [] None s = Some (ok, resp, s') \<Longrightarrow> P s \<longrightarrow> P s'"
    for s t tm k req ok resp s'
    by (rule sendReceive_rel [where R = "\<lambda>a b. P a \<longrightarrow> P b" and w = w]) (simp_all add: wait)
  show send: "P s \<Longrightarrow> always (\<lambda>r. P (snd (snd r))) (sendReceivePldmMessage w t tm k req [] None s)"
    for s t tm k req
    using send' by (fastforce simp: always_def)
  have inst': "P s \<Longrightarrow> createInstanceId_pldm t s = (i, s1) \<Longrightarrow> P s1" for t s i s1
    using inst [of s t] by simp
  show "P s \<Longrightarrow> always (\<lambda>r. P (snd (snd r))) (getFRURecordTableMetadataCmd w t md s)"
    unfolding getFRURecordTableMetadataCmd_def
    by (auto split: prod.splits sum.splits intro: inst' intro!: always_bind [OF send [OF inst']]
        always_any [where m = ba for ba :: "fru_table_metadata option"] always_any [where m = "decode_get_fru_record_table_metadata_resp x" for x])
  show "P s \<Longrightarrow> always (\<lambda>r. P (snd r)) (fru_table_loop w t md n h op fl d s)"
  proof (induction n arbitrary: h op fl d s)
    case (Suc n)
    then show ?case
      by (auto split: prod.splits sum.splits option.splits intro: inst' intro!: always_bind [OF send [OF inst']] Suc.IH
          always_any [where m = ba for ba :: "(u32 \<times> byte \<times> byte list) option"]
          always_any [where m = "decode_get_fru_record_table_resp x" for x])
  qed simp
qed

lemma fru_inv_cong:
  "terminusFRUMetadata s' = terminusFRUMetadata s \<Longrightarrow> terminusFRUProperties s' = terminusFRUProperties s
   \<Longrightarrow> fruData s' = fruData s \<Longrightarrow> ipmiFruInterface s' = ipmiFruInterface s
   \<Longrightarrow> ipmiFRUProperties s' = ipmiFRUProperties s \<Longrightarrow> fruInterface s' = fruInterface s
   \<Longrightarrow> fru_inv s' = fru_inv s"
  by (simp add: fru_inv_def)

lemma inv_basic:
  shows "fru_inv (s\<lparr>calls := c\<rparr>) = fru_inv s"
    and "fru_inv (snd (createInstanceId_pldm t s)) = fru_inv s"
    and "fru_inv (s\<lparr>setFRUIface := b\<rparr>) = fru_inv s"
  by (rule fru_inv_cong; simp add: createInstanceId_pldm_def Let_def)+

lemma inv_object: "fru_inv s \<Longrightarrow> fru_inv (addFRUObjectToDbus p props s)"
  by (simp add: fru_inv_def addFRUObjectToDbus_def) blast

lemma inv_data: "fru_inv s \<Longrightarrow> fru_inv (s\<lparr>fruData := unordered_emplace t d (map_erase t (fruData s))\<rparr>)"
  unfolding fru_inv_def by (simp add: fru_doms del: map_of_map_assign) blast

lemma inv_known:
  "fru_inv s \<Longrightarrow> map_of (fruData s) t \<noteq> None \<Longrightarrow> fru_object t \<in> fst ` set (fruInterface s) \<Longrightarrow>
   fru_inv (s\<lparr>terminusFRUMetadata := map_assign t md (terminusFRUMetadata s),
      terminusFRUProperties := map_assign t props (terminusFRUProperties s)\<rparr>)"
  unfolding fru_inv_def domIff [symmetric] by (simp add: fru_doms smap_assign) blast

lemma converted_cases:
  assumes "convertFRUToIpmiFRU t props s = Some s'"
  obtains "s' = s" | x ps where "s' = s\<lparr>ipmiFruInterface := unordered_emplace t x (ipmiFruInterface s),
    ipmiFRUProperties := map_emplace t ps (ipmiFRUProperties s)\<rparr>"
  using assms
  by (auto simp: convertFRUToIpmiFRU_def Let_def split: option.splits fru_variant.splits prod.splits if_splits)

lemma inv_ipmi:
  assumes "fru_inv s" "map_of (terminusFRUProperties s) t \<noteq> None"
  shows "always fru_inv (convertFRUToIpmiFRU t props s)"
proof -
  have "fru_inv s'" if "convertFRUToIpmiFRU t props s = Some s'" for s'
    using that
  proof (cases rule: converted_cases)
    case 2
    with assms show ?thesis
      unfolding fru_inv_def domIff [symmetric] by (simp add: fru_doms smap_emplace) blast
  qed (use assms in simp)
  then show ?thesis by (simp add: always_def)
qed

lemma deleted_device:
  assumes "fru_inv s"
  shows "deleteFRUDevice t s =
    (if map_of (terminusFRUMetadata s) t = None then (False, s)
     else (True, s\<lparr>terminusFRUMetadata := map_erase t (terminusFRUMetadata s),
             terminusFRUProperties := map_erase t (terminusFRUProperties s),
             fruData := map_erase t (fruData s),
             fruInterface := fru_removeInterface (fruPath @ to_string (unat t)) (fruInterface s),
             ipmiFruInterface := map_erase t (ipmiFruInterface s),
             ipmiFRUProperties := map_erase t (ipmiFRUProperties s)\<rparr>))"
proof -
  from assms have "t \<in> dom (map_of (terminusFRUMetadata s)) \<longleftrightarrow> t \<in> dom (map_of (terminusFRUProperties s))"
    "t \<in> dom (map_of (terminusFRUMetadata s)) \<longrightarrow> t \<in> dom (map_of (fruData s))"
    "t \<in> dom (map_of (ipmiFruInterface s)) \<longleftrightarrow> t \<in> dom (map_of (ipmiFRUProperties s))"
    unfolding fru_inv_def by blast+
  then show ?thesis
    unfolding domIff
    by (cases "map_of (ipmiFruInterface s) t")
       (auto simp: deleteFRUDevice_def removeInterfaces_def Let_def map_erase_absent)
qed

lemma inv_deleted:
  assumes "fru_inv s"
  shows "fru_inv (snd (deleteFRUDevice t s))"
proof (cases "map_of (terminusFRUMetadata s) t = None")
  case False
  have "fru_inv (snd (True, s\<lparr>terminusFRUMetadata := map_erase t (terminusFRUMetadata s),
             terminusFRUProperties := map_erase t (terminusFRUProperties s),
             fruData := map_erase t (fruData s),
             fruInterface := fru_removeInterface (fruPath @ to_string (unat t)) (fruInterface s),
             ipmiFruInterface := map_erase t (ipmiFruInterface s),
             ipmiFRUProperties := map_erase t (ipmiFRUProperties s)\<rparr>))"
    using assms unfolding fru_inv_def by (simp add: fru_doms smap_erase removeInterface_others) blast
  with False show ?thesis unfolding deleted_device [OF assms, of t] by (simp only: if_False)
qed (use assms deleted_device in simp)

text \<open>The other coroutines keep it while they run.\<close>

definition keeps_devices :: "fru_state world \<Rightarrow> bool" where
  "keeps_devices w \<longleftrightarrow> (\<forall>cs c s. fru_inv s \<longrightarrow> fru_inv (fst (w cs c s)))"

lemma inv_exchanges:
  assumes "keeps_devices w" "fru_inv s"
  shows "always (\<lambda>r. fru_inv (snd (snd r))) (sendReceivePldmMessage w t tm k req [] None s)"
    and "always (\<lambda>r. fru_inv (snd (snd r))) (getFRURecordTableMetadataCmd w t md s)"
    and "always (\<lambda>r. fru_inv (snd r)) (fru_table_loop w t md n h op fl d s)"
proof -
  have wait: "fru_inv (snd (wait_for w c s))" if "fru_inv s" for c s
  proof (cases "w (calls s) c s")
    case (Pair s1 r)
    with assms(1) that have "fru_inv s1" unfolding keeps_devices_def by (metis fst_conv)
    with Pair show ?thesis by (simp add: wait_for_def inv_basic)
  qed
  have inst: "fru_inv (snd (createInstanceId_pldm t s))" if "fru_inv s" for t s
    using that by (simp add: inv_basic)
  note keep = fru_exchanges_keep [where P = fru_inv and w = w, OF wait inst assms(2)]
  show "always (\<lambda>r. fru_inv (snd (snd r))) (sendReceivePldmMessage w t tm k req [] None s)"
    by (rule keep(1))
  show "always (\<lambda>r. fru_inv (snd (snd r))) (getFRURecordTableMetadataCmd w t md s)"
    by (rule keep(2))
  show "always (\<lambda>r. fru_inv (snd r)) (fru_table_loop w t md n h op fl d s)"
    by (rule keep(3))
qed

lemma inv_table:
  assumes "keeps_devices w" "fru_inv s"
  shows "always (\<lambda>r. fru_inv (snd (snd r))) (getFRURecordTableCmd w t md s)"
  unfolding getFRURecordTableCmd_def Let_def
  by (auto split: option.splits prod.splits intro!: always_bind [OF inv_exchanges(3) [OF assms]]
      always_any [where m = "parseTable x" for x] simp: inv_object inv_data)

lemma fetched_object:
  assumes "getFRURecordTableCmd w t md s = Some (PLDM_SUCCESS, props, s')"
  shows "fru_object t \<in> fst ` set (fruInterface s')"
  using assms
  by (auto simp: getFRURecordTableCmd_def addFRUObjectToDbus_def PLDM_SUCCESS_def PLDM_ERROR_def
      PLDM_ERROR_INVALID_DATA_def Let_def split: bind_splits option.splits prod.splits if_splits)

lemma inv_commands:
  assumes "keeps_devices w" "fru_inv s"
  shows "always (\<lambda>r. fru_inv (snd r)) (runGetFRUCommands w t s)"
proof -
  have "fru_inv (s2\<lparr>terminusFRUMetadata := map_assign t md (terminusFRUMetadata s2),
      terminusFRUProperties := map_assign t props (terminusFRUProperties s2)\<rparr>)"
    if "getFRURecordTableCmd w t md s1 = Some (PLDM_SUCCESS, props, s2)" "fru_inv s2" for md s1 props s2
    using fetched_table [OF that(1)] fetched_object [OF that(1)] by (intro inv_known that(2)) auto
  moreover have "fru_inv s2" if "getFRURecordTableCmd w t md s1 = Some (rc, props, s2)" "fru_inv s1"
    for md s1 rc props s2
    using inv_table [OF assms(1) that(2), of t md] that(1) by simp
  ultimately show ?thesis
    unfolding runGetFRUCommands_def
    by (auto intro!: always_bind [OF inv_exchanges(2) [OF assms]] always_any [where m = "getFRURecordTableCmd w t md s" for md s])
qed

lemma inv_init:
  assumes "keeps_devices w" "fru_inv s"
  shows "always (\<lambda>r. fru_inv (snd r)) (fruInit w t s)"
proof -
  have "fru_inv (s\<lparr>setFRUIface := True\<rparr>)" using assms(2) by (simp add: inv_basic)
  note start = inv_commands [OF assms(1) this]
  have "always (\<lambda>r. fru_inv (snd r)) (map_option (\<lambda>s. (True, s)) (convertFRUToIpmiFRU t props s1))"
    if "fru_inv s1" "map_of (terminusFRUProperties s1) t = Some props" for props s1
    using inv_ipmi [OF that(1), of t props] that(2) by (cases "convertFRUToIpmiFRU t props s1") auto
  then show ?thesis
    unfolding fruInit_def by (auto intro!: always_bind [OF start] split: option.split)
qed

lemma inv_set:
  assumes "keeps_devices w" "fru_inv s"
  shows "always (\<lambda>r. fru_inv (snd r)) (setFruRecordTableCmd w t d s)"
proof -
  obtain i s1 where i: "createInstanceId_pldm t s = (i, s1)" by force
  then have s1: "fru_inv s1" using inv_basic(2) [of t s] assms(2) by simp
  have "fru_inv b" if "deleteFRUDevice t s2 = (a, b)" "fru_inv s2" for a b s2
    using inv_deleted [OF that(2), of t] that(1) by simp
  with assms(2) s1 show ?thesis
    unfolding setFruRecordTableCmd_def Let_def i
    by (auto split: prod.splits sum.splits if_splits intro!: always_bind [OF inv_exchanges(1) [OF assms(1) s1]]
        always_bind [OF inv_commands [OF assms(1)]] always_any [where m = "decode_set_fru_record_table_resp x" for x])
qed

text \<open>
  C21: What is kept of FRU devices stays consistent through initialisation, the fetching, the setting of a
  table and deletion, whatever these return and however other coroutines that keep it interleave:
  metadata and properties come together, with the data and with an object on D-Bus; the IPMI interface
  comes with its properties and for known devices only. Deleting a known device removes its
  metadata, its properties, its data, its IPMI FRU and the object at its path (the first one there:
  a table that is fetched again without a deletion adds another), and leaves everything of the
  other devices as it was.
\<close>
theorem fru_devices_stay_consistent:
  assumes "keeps_devices w" "fru_inv s"
  shows "always (\<lambda>r. fru_inv (snd r)) (fruInit w t s)
    \<and> always (\<lambda>r. fru_inv (snd r)) (runGetFRUCommands w t s)
    \<and> always (\<lambda>r. fru_inv (snd r)) (setFruRecordTableCmd w t d s)
    \<and> fru_inv (snd (deleteFRUDevice t s))
    \<and> (map_of (terminusFRUMetadata s) t \<noteq> None \<longrightarrow> (\<exists>s'. deleteFRUDevice t s = (True, s')
        \<and> getPLDMFruRecordData t s' = None \<and> fru_getProperties t s' = None
        \<and> getRawFRURecordData t s' = Some None \<and> map_of (ipmiFruInterface s') t = None
        \<and> map_of (terminusFRUMetadata s') t = None \<and> map_of (fruData s') t = None
        \<and> (\<exists>xs props ys. fruInterface s = xs @ (fruPath @ to_string (unat t), props) # ys
             \<and> fruPath @ to_string (unat t) \<notin> fst ` set xs \<and> fruInterface s' = xs @ ys)
        \<and> (\<forall>u. u \<noteq> t \<longrightarrow> getPLDMFruRecordData u s' = getPLDMFruRecordData u s
             \<and> fru_getProperties u s' = fru_getProperties u s
             \<and> getRawFRURecordData u s' = getRawFRURecordData u s
             \<and> map_of (ipmiFruInterface s') u = map_of (ipmiFruInterface s) u
             \<and> filter (\<lambda>i. fst i = fruPath @ to_string (unat u)) (fruInterface s')
               = filter (\<lambda>i. fst i = fruPath @ to_string (unat u)) (fruInterface s))))"
proof (intro conjI impI)
  assume known: "map_of (terminusFRUMetadata s) t \<noteq> None"
  then have "fru_object t \<in> fst ` set (fruInterface s)" using assms(2) by (auto simp: fru_inv_def)
  note first = removeInterface_first [OF this]
  show "\<exists>s'. deleteFRUDevice t s = (True, s')
        \<and> getPLDMFruRecordData t s' = None \<and> fru_getProperties t s' = None
        \<and> getRawFRURecordData t s' = Some None \<and> map_of (ipmiFruInterface s') t = None
        \<and> map_of (terminusFRUMetadata s') t = None \<and> map_of (fruData s') t = None
        \<and> (\<exists>xs props ys. fruInterface s = xs @ (fru_object t, props) # ys
             \<and> fru_object t \<notin> fst ` set xs \<and> fruInterface s' = xs @ ys)
        \<and> (\<forall>u. u \<noteq> t \<longrightarrow> getPLDMFruRecordData u s' = getPLDMFruRecordData u s
             \<and> fru_getProperties u s' = fru_getProperties u s
             \<and> getRawFRURecordData u s' = getRawFRURecordData u s
             \<and> map_of (ipmiFruInterface s') u = map_of (ipmiFruInterface s) u
             \<and> filter (\<lambda>i. fst i = fru_object u) (fruInterface s')
               = filter (\<lambda>i. fst i = fru_object u) (fruInterface s))"
    using known first unfolding deleted_device [OF assms(2)]
    by (simp add: getPLDMFruRecordData_def fru_getProperties_def getRawFRURecordData_def map_of_erase
        removeInterface_other)
qed (rule inv_init inv_commands inv_set inv_deleted assms)+

lemma fru_start_inv: "fru_inv fru_start"
  by (simp add: fru_inv_def fru_start_def fru_state.defs pldm.defs)

text \<open>Two devices, of which the first has an IPMI FRU.\<close>

definition two_devices :: fru_state where
  "two_devices = fru_start\<lparr>terminusFRUMetadata := [(5, []), (6, [])],
     terminusFRUProperties := [(5, [(''Name'', FRU_string ''NIC'')]), (6, [])],
     fruData := [(6, [6]), (5, [5])],
     fruInterface := [(fruPath @ ''6'', []), (fruPath @ ''5'', [(''Name'', FRU_string ''NIC'')])],
     ipmiFruInterface := [(5, (''/xyz/openbmc_project/FruDevice/NIC_5'', []))],
     ipmiFRUProperties := [(5, [(''PRODUCT_PRODUCT_NAME'', FRU_string ''NIC'')])]\<rparr>"

lemma two_devices_inv: "fru_inv two_devices"
proof -
  have "to_string 5 = ''5''" "to_string 6 = ''6''" by code_simp+
  then show ?thesis by (auto simp: fru_inv_def two_devices_def smap_def)
qed

theorem fru_devices_stay_consistent_witness:
  "always (\<lambda>r. fru_inv (snd r)) (fruInit example_world 5 fru_start)
    \<and> (\<exists>s'. deleteFRUDevice 5 two_devices = (True, s') \<and> map_of (ipmiFruInterface s') 5 = None
        \<and> getPLDMFruRecordData 5 s' = None \<and> getPLDMFruRecordData 6 s' = getPLDMFruRecordData 6 two_devices
        \<and> length (fruInterface s') = 1)"
proof -
  have w: "keeps_devices example_world" by (simp add: keeps_devices_def example_world_def)
  have known: "map_of (terminusFRUMetadata two_devices) 5 \<noteq> None"
    and two: "length (fruInterface two_devices) = 2"
    by (simp_all add: two_devices_def)
  from fru_devices_stay_consistent [OF w two_devices_inv, of 5, THEN conjunct2, THEN conjunct2,
      THEN conjunct2, THEN conjunct2, THEN mp, OF known]
  obtain s' xs props ys where s': "deleteFRUDevice 5 two_devices = (True, s')"
    "map_of (ipmiFruInterface s') 5 = None" "getPLDMFruRecordData 5 s' = None"
    "\<And>u. u \<noteq> 5 \<Longrightarrow> getPLDMFruRecordData u s' = getPLDMFruRecordData u two_devices"
    "fruInterface two_devices = xs @ (fruPath @ to_string (unat (5::tid)), props) # ys"
    "fruInterface s' = xs @ ys" by blast
  from s'(5,6) two have "length (fruInterface s') = 1" by simp
  with s' fru_devices_stay_consistent [OF w fru_start_inv, of 5, THEN conjunct1] show ?thesis by simp
qed

text \<open>
  Setting the table of a known device removes its IPMI FRU, and nothing builds it again: that is done
  by \<open>fruInit\<close> only.
\<close>

lemma set_table_loses_the_ipmi_fru:
  assumes "\<And>cs c s. fst (w cs c s) = s" "fru_inv s" "map_of (terminusFRUMetadata s) t \<noteq> None"
    and "setFruRecordTableCmd w t d s = Some (PLDM_SUCCESS, s')"
  shows "map_of (ipmiFruInterface s') t = None"
proof -
  have wait: "snd (wait_for w c s) = s\<lparr>calls := calls s @ [c]\<rparr>" for c s
    using assms(1) [of "calls s" c s] by (cases "w (calls s) c s") (simp add: wait_for_def)
  define P where "P s \<longleftrightarrow> fru_inv s \<and> map_of (terminusFRUMetadata s) t \<noteq> None" for s :: fru_state
  define G where "G s \<longleftrightarrow> map_of (ipmiFruInterface s) t = None" for s :: fru_state
  have P: "P s \<Longrightarrow> P (snd (wait_for w c s))" "P s \<Longrightarrow> P (snd (createInstanceId_pldm u s))" for c u s
    by (simp_all add: P_def wait inv_basic) (simp add: createInstanceId_pldm_def Let_def)
  have G: "G s \<Longrightarrow> G (snd (wait_for w c s))" "G s \<Longrightarrow> G (snd (createInstanceId_pldm u s))" for c u s
    by (simp_all add: G_def wait createInstanceId_pldm_def Let_def)
  note before = fru_exchanges_keep(1) [where P = P and w = w, OF P(1) P(2)]
  note after = fru_exchanges_keep [where P = G and w = w, OF G(1) G(2)]
  have table: "always (\<lambda>r. G (snd (snd r))) (getFRURecordTableCmd w t md s)" if "G s" for md s
    unfolding getFRURecordTableCmd_def Let_def
    by (auto split: option.splits prod.splits intro!: always_bind [OF after(3) [OF _ _ that]]
      always_any [where m = "parseTable x" for x] simp: G_def addFRUObjectToDbus_def)
  have fetch: "always (\<lambda>r. G (snd r)) (runGetFRUCommands w t s)" if "G s" for s
    unfolding runGetFRUCommands_def
    by (auto intro!: always_bind [OF after(2) [OF _ _ that]] always_bind [OF table] simp: G_def)
  have "G (snd (deleteFRUDevice t s2))" if "P s2" for s2
    using that by (auto simp: P_def G_def deleted_device map_of_erase)
  then have deleted: "G b" if "deleteFRUDevice t s2 = (a, b)" "P s2" for a b s2
    using that by (metis snd_conv)
  have known: "map_of (terminusFRUMetadata s2) t \<noteq> None" if "P s2" for s2
    using that by (simp add: P_def)
  obtain i s1 where i: "createInstanceId_pldm t s = (i, s1)" by force
  with P(2) [of s t] assms(2,3) have s1: "P s1" by (simp add: P_def)
  have "always (\<lambda>r. fst r = PLDM_SUCCESS \<longrightarrow> G (snd r)) (setFruRecordTableCmd w t d s)"
    unfolding setFruRecordTableCmd_def Let_def i
    apply (auto simp: PLDM_SUCCESS_def PLDM_ERROR_def split: prod.splits sum.splits if_splits
        intro!: always_bind [OF before [OF _ _ s1]] always_bind [OF fetch]
          always_any [where m = "decode_set_fru_record_table_resp x" for x])
      apply (frule known, simp)
     apply (rule deleted; assumption)
    apply (frule known, simp)
    done
  with assms(4) show ?thesis by (simp add: G_def)
qed

end
