(* ===== verification/Fwu_Inventory.thy ===== *)
theory Fwu_Inventory
  imports Fru_Manager Fwu_Image Fwu_Codecs
begin

unbundle bit_operations_syntax

text \<open>
  The inventory of the firmware update (pldmd/src/fwu\_inventory.cpp, with \<open>fwuInit\<close> and
  \<open>deleteFWDevice\<close> of firmware\_update.cpp and the codecs of libpldm\_intel/firmware\_update.c it
  uses): the descriptors and the component parameters of a device are queried, kept for the
  matching of update packages and put on D-Bus. Waiting goes through the world. \<open>None\<close> is an access
  outside a message or an uncaught exception. A D-Bus interface is its path, its name and the
  properties registered.
\<close>

section \<open>Messages\<close>

definition PLDM_QUERY_DEVICE_IDENTIFIERS :: byte where "PLDM_QUERY_DEVICE_IDENTIFIERS = 1"
definition PLDM_GET_FIRMWARE_PARAMETERS :: byte where "PLDM_GET_FIRMWARE_PARAMETERS = 2"

definition encode_query_device_identifiers_req :: "byte \<Rightarrow> nat \<Rightarrow> int + byte list" where
  "encode_query_device_identifiers_req instance_id payload_length =
     (if payload_length \<noteq> 0 then Inl PLDM_ERROR_INVALID_LENGTH
      else encode_pldm_header instance_id PLDM_FWUP PLDM_QUERY_DEVICE_IDENTIFIERS PLDM_REQUEST)"

text \<open>The outputs: the length of the descriptors, their number and the data.\<close>

definition decode_query_device_identifiers_resp ::
    "byte list \<Rightarrow> (int \<times> byte \<times> (u32 \<times> byte \<times> byte list) option) option" where
  "decode_query_device_identifiers_resp msg = do {
     cc \<leftarrow> payload_at msg 0;
     Some (if cc \<noteq> 0 then (DECODE_SUCCESS, cc, None)
           else if length msg - 3 < 6 then (PLDM_ERROR_INVALID_LENGTH, cc, None)
           else let len = read32 msg 4 in
             if unat len < 5 then (PLDM_ERROR_INVALID_LENGTH, cc, None)
             else if length msg - 3 \<noteq> 6 + unat len then (PLDM_ERROR_INVALID_LENGTH, cc, None)
             else if msg ! 8 = 0 then (PLDM_ERROR_INVALID_DATA, cc, None)
             else (PLDM_SUCCESS, cc, Some (len, msg ! 8, drop 9 msg))) }"

definition encode_get_firmware_parameters_req :: "byte \<Rightarrow> nat \<Rightarrow> int + byte list" where
  "encode_get_firmware_parameters_req instance_id payload_length =
     (if payload_length \<noteq> 0 then Inl PLDM_ERROR_INVALID_LENGTH
      else encode_pldm_header instance_id PLDM_FWUP PLDM_GET_FIRMWARE_PARAMETERS PLDM_REQUEST)"

record firmware_parameters =
  fp_capabilities_during_update :: u32
  fp_comp_count :: u16
  fp_active_ver_str_len :: byte
  fp_pending_ver_str_len :: byte

text \<open>The version strings are pointers into the message; a null pointer is \<open>None\<close>.\<close>

definition decode_get_firmware_parameters_comp_img_set_resp ::
    "byte list \<Rightarrow> int \<times> (firmware_parameters \<times> byte list option \<times> byte list option) option" where
  "decode_get_firmware_parameters_comp_img_set_resp msg =
     (if length msg - 3 < 11 then (PLDM_ERROR_INVALID_LENGTH, None)
      else if msg ! 3 \<noteq> 0 then (DECODE_SUCCESS, None)
      else if msg ! 11 = 0 then (PLDM_ERROR_INVALID_DATA, None)
      else let a = unat (msg ! 11); p = unat (msg ! 13) in
        if length msg - 3 < 11 + a + p then (PLDM_ERROR_INVALID_LENGTH, None)
        else if read16 msg 8 = 0 then (PLDM_ERROR, None)
        else (PLDM_SUCCESS, Some (\<lparr> fp_capabilities_during_update = read32 msg 4,
                fp_comp_count = read16 msg 8, fp_active_ver_str_len = msg ! 11,
                fp_pending_ver_str_len = msg ! 13 \<rparr>,
                Some (take a (drop 14 msg)),
                if p \<noteq> 0 then Some (take p (drop (14 + a) msg)) else None)))"

record component_parameter_table =
  ct_classification :: u16
  ct_identifier :: u16
  ct_classification_index :: byte
  ct_active_comparison_stamp :: u32
  ct_active_ver_str_len :: byte
  ct_active_release_date :: "byte list"
  ct_pending_comparison_stamp :: u32
  ct_pending_ver_str_len :: byte
  ct_pending_release_date :: "byte list"
  ct_activation_methods :: u16
  ct_capabilities_during_update :: u32

definition sizeof_component_parameter_table :: nat where "sizeof_component_parameter_table = 39"

text \<open>The capabilities have 32 bits, of which \<open>le16toh\<close> keeps the lower 16.\<close>

definition decode_get_firmware_parameters_comp_resp ::
    "byte list \<Rightarrow> int \<times> (component_parameter_table \<times> byte list option \<times> byte list option) option" where
  "decode_get_firmware_parameters_comp_resp bs =
     (if length bs < sizeof_component_parameter_table then (PLDM_ERROR_INVALID_LENGTH, None)
      else if bs ! 10 = 0 then (PLDM_ERROR_INVALID_LENGTH, None)
      else let a = unat (bs ! 10); p = unat (bs ! 24) in
        if length bs < sizeof_component_parameter_table + a + p then (PLDM_ERROR_INVALID_LENGTH, None)
        else (PLDM_SUCCESS, Some (\<lparr> ct_classification = read16 bs 0, ct_identifier = read16 bs 2,
                ct_classification_index = bs ! 4, ct_active_comparison_stamp = read32 bs 5,
                ct_active_ver_str_len = bs ! 10, ct_active_release_date = take 8 (drop 11 bs),
                ct_pending_comparison_stamp = read32 bs 19, ct_pending_ver_str_len = bs ! 24,
                ct_pending_release_date = take 8 (drop 25 bs), ct_activation_methods = read16 bs 33,
                ct_capabilities_during_update = ucast (read16 bs 35) \<rparr>,
                Some (take a (drop 39 bs)),
                if p \<noteq> 0 then Some (take p (drop (39 + a) bs)) else None)))"

section \<open>What is known of a device\<close>

datatype inventory_value = I_data fwu_variant | I_descriptor descriptor_value | I_flag bool | I_text string

type_synonym dbus_interface = "string \<times> string \<times> (string \<times> inventory_value) list"

record fw_inventory_info =
  inv_tid :: tid
  interfaceList :: "dbus_interface list"
  compPropertiesMap :: comp_properties_map
  pendingCompImgSetVerStr :: "byte list"
  activeCompImgSetVerStr :: "byte list"
  initialDescriptorType :: u16
  fwuProperties :: fwu_properties
  fd_descriptors :: descriptors_map
  inventoryPath :: string

text \<open>The descriptor type has no initial value: it is an argument.\<close>

definition FWInventoryInfo_ctor :: "tid \<Rightarrow> u16 \<Rightarrow> fw_inventory_info" where
  "FWInventoryInfo_ctor t uninit = \<lparr> inv_tid = t, interfaceList = [], compPropertiesMap = [],
     pendingCompImgSetVerStr = [], activeCompImgSetVerStr = [], initialDescriptorType = uninit,
     fwuProperties = [], fd_descriptors = [], inventoryPath = '''' \<rparr>"

text \<open>The state of the daemon with the devices that can be updated.\<close>

record fwu_devices = fru_state +
  fwuBaseInitialized :: bool
  associations :: "(string \<times> string \<times> string) list option"
  fwu_termini :: "(tid \<times> fd_properties) list"
  fwuIface :: "(tid \<times> dbus_interface list) list"
  inventoryPaths :: "(tid \<times> string) list"

definition fwu_devices_start :: fwu_devices where
  "fwu_devices_start = fru_state.extend (pldm.extend pldm_start (fru_state.fields False [] [] [] [] [] []))
     (fwu_devices.fields False None [] [] [])"

section \<open>Queries\<close>

definition runQueryDeviceIdentifiers :: "fwu_devices world \<Rightarrow> fw_inventory_info \<Rightarrow> fwu_devices
    \<Rightarrow> (int \<times> fw_inventory_info \<times> fwu_devices) option" where
  "runQueryDeviceIdentifiers w fi s =
     (case createInstanceId_pldm (inv_tid fi) s of (i, s) \<Rightarrow>
        case encode_query_device_identifiers_req i 0 of
          Inl rc \<Rightarrow> Some (rc, fi, s)
        | Inr req \<Rightarrow> do {
            (ok, resp, s) \<leftarrow> sendReceivePldmMessage w (inv_tid fi) 100 3 req [] None s;
            if \<not> ok then Some (PLDM_ERROR, fi, s)
            else do {
              (rc, cc, out) \<leftarrow> decode_query_device_identifiers_resp resp;
              Some (case out of
                      None \<Rightarrow> (rc, fi, s)
                    | Some (len, cnt, data) \<Rightarrow>
                        (case unpackDescriptors cnt (take (unat len) data) (initialDescriptorType fi)
                                (fd_descriptors fi) of
                           (ty, m) \<Rightarrow> (PLDM_SUCCESS,
                              fi\<lparr>initialDescriptorType := ty, fd_descriptors := m\<rparr>, s))) } })"

definition copyCompImgSetData :: "firmware_parameters \<Rightarrow> byte list option \<Rightarrow> byte list option
    \<Rightarrow> fw_inventory_info \<Rightarrow> fw_inventory_info" where
  "copyCompImgSetData fp active pending fi =
     (let fi = fi\<lparr>activeCompImgSetVerStr := toString active,
                fwuProperties := put_all
                  [(''CapabilitiesDuringUpdate'', V_u32 (fp_capabilities_during_update fp)),
                   (''ComponentCount'', V_u16 (fp_comp_count fp)),
                   (''ActiveCompImgSetVerStr'', V_string (toString active))] (fwuProperties fi)\<rparr>
      in case pending of
           None \<Rightarrow> fi
         | Some p \<Rightarrow> fi\<lparr>pendingCompImgSetVerStr := toString pending,
             fwuProperties := map_assign ''PendingCompImgSetVerStr'' (V_string (toString pending))
               (fwuProperties fi)\<rparr>)"

definition read64 :: "byte list \<Rightarrow> u64" where
  "read64 bs = ucast (read32 bs 0) + push_bit 32 (ucast (read32 bs 4))"

definition inv_component_properties :: "component_parameter_table \<Rightarrow> byte list option \<Rightarrow> byte list option
    \<Rightarrow> fwu_properties" where
  "inv_component_properties ct active pending = put_all
     [(''ComponentClassification'', V_u16 (ct_classification ct)),
      (''ComponentIdentifier'', V_u16 (ct_identifier ct)),
      (''ComponentClassificationIndex'', V_u8 (ct_classification_index ct)),
      (''ActiveComponentComparisonStamp'', V_u32 (ct_active_comparison_stamp ct)),
      (''ActiveComponentReleaseDate'', V_u64 (read64 (ct_active_release_date ct))),
      (''ActiveComponentVersionString'', V_string (case active of None \<Rightarrow> [] | Some v \<Rightarrow> v)),
      (''PendingComponentComparisonStamp'', V_u32 (ct_pending_comparison_stamp ct)),
      (''PendingComponentReleaseDate'', V_u64 (read64 (ct_pending_release_date ct))),
      (''PendingComponentVersionString'', V_string (case pending of None \<Rightarrow> [] | Some v \<Rightarrow> v)),
      (''ComponentActivationMethods'', V_bits16 (ct_activation_methods ct)),
      (''CapabilitiesDuringUpdate'', V_bits32 (ct_capabilities_during_update ct))] []"

definition copyCompData :: "u16 \<Rightarrow> component_parameter_table \<Rightarrow> byte list option \<Rightarrow> byte list option
    \<Rightarrow> comp_properties_map \<Rightarrow> comp_properties_map" where
  "copyCompData cnt ct active pending m = map_assign cnt (inv_component_properties ct active pending) m"

text \<open>The loop of \<open>unpackCompData\<close>: \<open>n\<close> components are missing, \<open>found\<close> are there.\<close>

fun unpack_comp_loop :: "nat \<Rightarrow> u16 \<Rightarrow> byte list \<Rightarrow> comp_properties_map \<Rightarrow> nat \<times> comp_properties_map" where
  "unpack_comp_loop 0 found bs m = (0, m)"
| "unpack_comp_loop (Suc n) found bs m =
     (if bs = [] \<or> length bs < sizeof_component_parameter_table then (Suc n, m)
      else case decode_get_firmware_parameters_comp_resp bs of
             (rc, None) \<Rightarrow> (Suc n, m)
           | (rc, Some (ct, active, pending)) \<Rightarrow>
               let offset = sizeof_component_parameter_table + unat (ct_active_ver_str_len ct)
                          + unat (ct_pending_ver_str_len ct) in
               if offset > length bs then (Suc n, m)
               else unpack_comp_loop n (found + 1) (drop offset bs)
                      (copyCompData (found + 1) ct active pending m))"

definition unpackCompData :: "u16 \<Rightarrow> byte list \<Rightarrow> fw_inventory_info \<Rightarrow> int \<times> fw_inventory_info" where
  "unpackCompData cnt bs fi =
     (case unpack_comp_loop (unat cnt) 0 bs (compPropertiesMap fi) of (missing, m) \<Rightarrow>
        (if missing \<noteq> 0 then PLDM_ERROR else PLDM_SUCCESS, fi\<lparr>compPropertiesMap := m\<rparr>))"

definition runGetFirmwareParameters :: "fwu_devices world \<Rightarrow> fw_inventory_info \<Rightarrow> fwu_devices
    \<Rightarrow> (int \<times> fw_inventory_info \<times> fwu_devices) option" where
  "runGetFirmwareParameters w fi s =
     (case createInstanceId_pldm (inv_tid fi) s of (i, s) \<Rightarrow>
        case encode_get_firmware_parameters_req i 0 of
          Inl rc \<Rightarrow> Some (rc, fi, s)
        | Inr req \<Rightarrow> do {
            (ok, resp, s) \<leftarrow> sendReceivePldmMessage w (inv_tid fi) 100 3 req [] None s;
            Some (if \<not> ok then (PLDM_ERROR, fi, s)
                  else case decode_get_firmware_parameters_comp_img_set_resp resp of
                         (rc, None) \<Rightarrow> (rc, fi, s)
                       | (rc, Some (fp, active, pending)) \<Rightarrow>
                           let fi = copyCompImgSetData fp active pending fi;
                               offset = 14 + unat (fp_active_ver_str_len fp) + unat (fp_pending_ver_str_len fp)
                           in if length resp < offset then (PLDM_ERROR_INVALID_LENGTH, fi, s)
                              else case unpackCompData (fp_comp_count fp) (drop offset resp) fi of
                                     (rc, fi) \<Rightarrow> (rc, fi, s)) })"

definition runInventoryCommands :: "fwu_devices world \<Rightarrow> fw_inventory_info \<Rightarrow> fwu_devices
    \<Rightarrow> (fd_properties option \<times> fw_inventory_info \<times> fwu_devices) option" where
  "runInventoryCommands w fi s = do {
     (rc, fi, s) \<leftarrow> runQueryDeviceIdentifiers w fi s;
     if rc \<noteq> PLDM_SUCCESS then Some (None, fi, s)
     else do {
       (rc, fi, s) \<leftarrow> runGetFirmwareParameters w fi s;
       Some (if rc \<noteq> PLDM_SUCCESS then None
             else Some (fwuProperties fi, fd_descriptors fi, compPropertiesMap fi), fi, s) } }"

section \<open>The inventory on D-Bus\<close>

definition fwu_path :: "tid \<Rightarrow> string" where
  "fwu_path t = ''/xyz/openbmc_project/pldm/fwu/'' @ to_string (unat t)"

definition addInterface :: "dbus_interface \<Rightarrow> fw_inventory_info \<Rightarrow> fw_inventory_info" where
  "addInterface i fi = fi\<lparr>interfaceList := interfaceList fi @ [i]\<rparr>"

definition addPCIDescriptorsToDBus :: "string \<Rightarrow> fw_inventory_info \<Rightarrow> fw_inventory_info" where
  "addPCIDescriptorsToDBus path fi =
     addInterface (path, ''xyz.openbmc_project.PLDM.FWU.PCIDescriptor'',
       map (\<lambda>(k, v). (k, I_descriptor v)) (fd_descriptors fi)) fi"

definition addDescriptorsToDBus :: "fw_inventory_info \<Rightarrow> fw_inventory_info" where
  "addDescriptorsToDBus fi =
     (if initialDescriptorType fi = pciVendorID
      then addPCIDescriptorsToDBus (fwu_path (inv_tid fi) @ ''/deviceDescriptors'') fi else fi)"

definition addCompImgSetDataToDBus :: "fw_inventory_info \<Rightarrow> fw_inventory_info" where
  "addCompImgSetDataToDBus fi =
     (let path = fwu_path (inv_tid fi) @ ''/componentImageSetInfo'' in
      addInterface (path, ''xyz.openbmc_project.PLDM.FWU.PendingComponentImageSetInfo'',
          [(''PendingComponentImageSetVersionString'', I_data (V_string (pendingCompImgSetVerStr fi)))])
        (addInterface (path, ''xyz.openbmc_project.PLDM.FWU.ActiveComponentImageSetInfo'',
          [(''ActiveComponentImageSetVersionString'', I_data (V_string (activeCompImgSetVerStr fi)))]) fi))"

definition getCompAutoApply :: "u32 \<Rightarrow> bool" where
  "getCompAutoApply capabilities \<longleftrightarrow> capabilities AND 0xFFFE \<noteq> 0"

text \<open>The properties of one component; another type than the one stored throws, and the caller goes
  on without the components that are left.\<close>

definition prop_u8 :: "fwu_properties \<Rightarrow> string \<Rightarrow> (string \<times> inventory_value) option" where
  "prop_u8 m k = (case map_of m k of Some (V_u8 v) \<Rightarrow> Some (k, I_data (V_u8 v)) | _ \<Rightarrow> None)"
definition prop_u16 :: "fwu_properties \<Rightarrow> string \<Rightarrow> (string \<times> inventory_value) option" where
  "prop_u16 m k = (case map_of m k of Some (V_u16 v) \<Rightarrow> Some (k, I_data (V_u16 v)) | _ \<Rightarrow> None)"
definition prop_u32 :: "fwu_properties \<Rightarrow> string \<Rightarrow> (string \<times> inventory_value) option" where
  "prop_u32 m k = (case map_of m k of Some (V_u32 v) \<Rightarrow> Some (k, I_data (V_u32 v)) | _ \<Rightarrow> None)"
definition prop_u64 :: "fwu_properties \<Rightarrow> string \<Rightarrow> (string \<times> inventory_value) option" where
  "prop_u64 m k = (case map_of m k of Some (V_u64 v) \<Rightarrow> Some (k, I_data (V_u64 v)) | _ \<Rightarrow> None)"
definition prop_string :: "fwu_properties \<Rightarrow> string \<Rightarrow> (string \<times> inventory_value) option" where
  "prop_string m k = (case map_of m k of
     Some (V_string v) \<Rightarrow> Some (k, I_data (V_string (map (\<lambda>c. if isprint c then c else 0x20) v))) | _ \<Rightarrow> None)"

definition component_interfaces :: "string \<Rightarrow> fwu_properties \<Rightarrow> dbus_interface list option" where
  "component_interfaces path m = do {
     cls \<leftarrow> prop_u16 m ''ComponentClassification'';
     cid \<leftarrow> prop_u16 m ''ComponentIdentifier'';
     idx \<leftarrow> prop_u8 m ''ComponentClassificationIndex'';
     astamp \<leftarrow> prop_u32 m ''ActiveComponentComparisonStamp'';
     adate \<leftarrow> prop_u64 m ''ActiveComponentReleaseDate'';
     caps \<leftarrow> (case map_of m ''CapabilitiesDuringUpdate'' of Some (V_bits32 v) \<Rightarrow> Some v | _ \<Rightarrow> None);
     astr \<leftarrow> prop_string m ''ActiveComponentVersionString'';
     methods \<leftarrow> (case map_of m ''ComponentActivationMethods'' of Some (V_bits16 v) \<Rightarrow> Some v | _ \<Rightarrow> None);
     pstamp \<leftarrow> prop_u32 m ''PendingComponentComparisonStamp'';
     pdate \<leftarrow> prop_u64 m ''PendingComponentReleaseDate'';
     pstr \<leftarrow> prop_string m ''PendingComponentVersionString'';
     Some [(path, ''xyz.openbmc_project.PLDM.FWU.ActiveComponentInfo'',
             [cls, cid, idx, astamp, adate, (''ComponentAutoApply'', I_flag (getCompAutoApply caps)), astr,
              (''ComponentActivationMethods'', I_data (V_u16 methods)),
              (''CapabilitiesDuringUpdate'', I_data (V_u32 caps))]),
           (path, ''xyz.openbmc_project.PLDM.FWU.PendingComponentInfo'', [pstamp, pdate, pstr])] }"

fun add_components :: "string \<Rightarrow> comp_properties_map \<Rightarrow> fw_inventory_info \<Rightarrow> fw_inventory_info" where
  "add_components path [] fi = fi"
| "add_components path ((n, m) # comps) fi =
     (case component_interfaces (path @ to_string (unat n)) m of
        None \<Rightarrow> fi
      | Some ifaces \<Rightarrow> add_components path comps (fi\<lparr>interfaceList := interfaceList fi @ ifaces\<rparr>))"

definition addCompDataToDBus :: "fw_inventory_info \<Rightarrow> fw_inventory_info" where
  "addCompDataToDBus fi =
     add_components (fwu_path (inv_tid fi) @ ''/componentImageSetInfo/component_'') (compPropertiesMap fi) fi"

definition getFruProperty :: "tid \<Rightarrow> string \<Rightarrow> fwu_devices \<Rightarrow> fru_variant option" where
  "getFruProperty t name s = Option.bind (map_of (terminusFRUProperties s) t) (\<lambda>props. map_of props name)"

text \<open>A name that is not a string throws out of the coroutine.\<close>

definition getInventoryName :: "tid \<Rightarrow> fwu_devices \<Rightarrow> string option" where
  "getInventoryName t s = (case getFruProperty t ''Name'' s of
     None \<Rightarrow> Some ''pldm_fd''
   | Some (FRU_string name) \<Rightarrow> Some (filter (\<lambda>c. c \<noteq> CHR 0x20) name)
   | Some _ \<Rightarrow> None)"

definition addFirmwareInventoryToDBus :: "fwu_devices \<Rightarrow> fw_inventory_info \<Rightarrow> fw_inventory_info option" where
  "addFirmwareInventoryToDBus s fi = do {
     name \<leftarrow> getInventoryName (inv_tid fi) s;
     let path = ''/xyz/openbmc_project/software/'' @ name @ ''_'' @ to_string (unat (inv_tid fi));
     Some (addInterface (path, ''xyz.openbmc_project.Software.Version'',
             [(''Version'', I_data (V_string (activeCompImgSetVerStr fi))),
              (''Purpose'', I_text ''xyz.openbmc_project.Software.Version.VersionPurpose.PLDM'')])
           (addInterface (path, ''xyz.openbmc_project.Software.Activation'',
             [(''Activation'', I_text ''xyz.openbmc_project.Software.Activation.Activations.Active'')])
             (fi\<lparr>inventoryPath := path\<rparr>))) }"

definition addInventoryInfoToDBus :: "fwu_devices \<Rightarrow> fw_inventory_info \<Rightarrow> fw_inventory_info option" where
  "addInventoryInfoToDBus s fi =
     addFirmwareInventoryToDBus s (addCompDataToDBus (addDescriptorsToDBus (addCompImgSetDataToDBus fi)))"

section \<open>Devices\<close>

text \<open>Every path is inserted at the front.\<close>

definition updateAssociationsProperty :: "fwu_devices \<Rightarrow> fwu_devices" where
  "updateAssociationsProperty s =
     (if associations s = None then s
      else s\<lparr>associations := Some (fold (\<lambda>(t, path) assoc. (''updateable'', ''software_version'', path) # assoc)
              (inventoryPaths s) [])\<rparr>)"

definition initializeFWUBase :: "fwu_devices \<Rightarrow> fwu_devices" where
  "initializeFWUBase s =
     (if fwuBaseInitialized s then s
      else s\<lparr>associations := Some [('''', '''', '''')], fwuBaseInitialized := True\<rparr>)"

definition fwuInit :: "fwu_devices world \<Rightarrow> u16 \<Rightarrow> tid \<Rightarrow> fwu_devices \<Rightarrow> (bool \<times> fwu_devices) option" where
  "fwuInit w uninit t s = do {
     (properties, fi, s) \<leftarrow> runInventoryCommands w (FWInventoryInfo_ctor t uninit) (initializeFWUBase s);
     case properties of
       None \<Rightarrow> Some (False, s)
     | Some fd \<Rightarrow> do {
         fi \<leftarrow> addInventoryInfoToDBus s fi;
         let s = s\<lparr>fwuIface := unordered_emplace t (interfaceList fi) (fwuIface s),
                   inventoryPaths := map_emplace t (inventoryPath fi) (inventoryPaths s)\<rparr>;
         let s = updateAssociationsProperty s;
         Some (True, s\<lparr>fwu_termini := map_assign t fd (fwu_termini s)\<rparr>) } }"

definition deleteFWDevice :: "tid \<Rightarrow> fwu_devices \<Rightarrow> bool \<times> fwu_devices" where
  "deleteFWDevice t s =
     (if map_of (fwu_termini s) t = None then (False, s)
      else let s = s\<lparr>fwu_termini := map_erase t (fwu_termini s)\<rparr> in
        if map_of (fwuIface s) t = None then (False, s)
        else let s = s\<lparr>fwuIface := map_erase t (fwuIface s)\<rparr> in
          if map_of (inventoryPaths s) t = None then (False, s)
          else (True, updateAssociationsProperty (s\<lparr>inventoryPaths := map_erase t (inventoryPaths s)\<rparr>)))"

end
