(* ===== verification/Fwu_Inventory_Props.thy ===== *)
theory Fwu_Inventory_Props
  imports Fwu_Inventory Fru_Device_Props
begin

unbundle bit_operations_syntax

text \<open>
  The inventory of the firmware update: a device that answers the queries is known with its
  descriptors and components, so that a package made for them matches it; what is kept of the
  devices agrees, and goes with the device.
\<close>

section \<open>The answers of a device\<close>

lemma header_req_fwu: "i < 32 \<Longrightarrow> encode_pldm_header i PLDM_FWUP c PLDM_REQUEST = Inr [0x80 OR i, 5, c]"
  by (simp add: packed_header is_msg_type_def PLDM_FWUP_def PLDM_REQUEST_def PLDM_RESPONSE_def
      PLDM_ASYNC_REQUEST_NOTIFY_def)

text \<open>A component: its parameters and its two version strings.\<close>

type_synonym fd_component = "component_parameter_table \<times> byte list \<times> byte list"

definition enc_fd_component :: "fd_component \<Rightarrow> byte list" where
  "enc_fd_component c = (case c of (ct, active, pending) \<Rightarrow>
     enc16 (ct_classification ct) @ enc16 (ct_identifier ct) @ [ct_classification_index ct]
     @ enc32 (ct_active_comparison_stamp ct) @ [1, word_of_nat (length active)] @ ct_active_release_date ct
     @ enc32 (ct_pending_comparison_stamp ct) @ [1, word_of_nat (length pending)] @ ct_pending_release_date ct
     @ enc16 (ct_activation_methods ct) @ enc32 (ct_capabilities_during_update ct) @ active @ pending)"

definition wf_fd_component :: "fd_component \<Rightarrow> bool" where
  "wf_fd_component c \<longleftrightarrow> (case c of (ct, active, pending) \<Rightarrow>
     active \<noteq> [] \<and> length active < 256 \<and> length pending < 256
     \<and> length (ct_active_release_date ct) = 8 \<and> length (ct_pending_release_date ct) = 8)"

text \<open>The properties that the daemon keeps of it: of the capabilities the lower 16 bits.\<close>

definition known_component :: "fd_component \<Rightarrow> fwu_properties" where
  "known_component c = (case c of (ct, active, pending) \<Rightarrow> inv_component_properties
     (ct\<lparr>ct_capabilities_during_update := ct_capabilities_during_update ct AND 0xFFFF\<rparr>)
     (Some active) (Some pending))"

lemma low_half: "read16 (enc32 w @ bs) 0 = ucast w"
  unfolding read16_def le16_def enc32_def
  by (simp, subst disjunctive_add_eq_or) (auto intro!: bit_word_eqI simp: bit_simps)

lemma low_half_mask: "ucast (ucast w :: u16) = (w AND 0xFFFF :: u32)"
proof -
  have "(w AND 0xFFFF :: u32) = w AND mask 16" by (simp add: mask_eq_exp_minus_1)
  then show ?thesis by (auto intro!: bit_word_eqI simp: bit_simps)
qed

lemma component_decoded:
  assumes "wf_fd_component (ct, active, pending)"
  shows "\<exists>ct' p'. decode_get_firmware_parameters_comp_resp (enc_fd_component (ct, active, pending) @ zs)
      = (PLDM_SUCCESS, Some (ct', Some active, p'))
    \<and> inv_component_properties ct' (Some active) p' = known_component (ct, active, pending)
    \<and> sizeof_component_parameter_table + unat (ct_active_ver_str_len ct') + unat (ct_pending_ver_str_len ct')
      = length (enc_fd_component (ct, active, pending))"
proof -
  define bs where "bs = enc_fd_component (ct, active, pending) @ zs"
  have len: "length active < 256" "length pending < 256" "active \<noteq> []"
    "length (ct_active_release_date ct) = 8" "length (ct_pending_release_date ct) = 8"
    using assms by (simp_all add: wf_fd_component_def)
  have n: "unat (word_of_nat (length active) :: byte) = length active"
    "unat (word_of_nat (length pending) :: byte) = length pending" using len(1,2) by simp_all
  have nz: "(word_of_nat (length active) :: byte) \<noteq> 0"
  proof
    assume "(word_of_nat (length active) :: byte) = 0"
    then have "length active = 0" using n(1) by simp
    with len(3) show False by simp
  qed
  have at: "bs ! 4 = ct_classification_index ct" "bs ! 10 = word_of_nat (length active)"
    "bs ! 24 = word_of_nat (length pending)"
    by (simp_all add: bs_def enc_fd_component_def nth_append len(4,5))
  have words: "read16 bs 0 = ct_classification ct" "read16 bs 2 = ct_identifier ct"
    "read32 bs 5 = ct_active_comparison_stamp ct" "read32 bs 19 = ct_pending_comparison_stamp ct"
    "read16 bs 33 = ct_activation_methods ct" "read16 bs 35 = ucast (ct_capabilities_during_update ct)"
    by (simp_all add: bs_def enc_fd_component_def read_enc len(4,5) low_half)
  have "drop 39 bs = active @ pending @ zs" by (simp add: bs_def enc_fd_component_def len(4,5))
  moreover from this have "drop (39 + length active) bs = pending @ zs"
    by (metis add.commute append_eq_conv_conj drop_drop)
  ultimately have strings: "take (length active) (drop 39 bs) = active"
    "take (length pending) (drop (39 + length active) bs) = pending"
    by simp_all
  have parts: "take 8 (drop 11 bs) = ct_active_release_date ct" "take 8 (drop 25 bs) = ct_pending_release_date ct"
    by (simp_all add: bs_def enc_fd_component_def len(4,5))
  have size: "length bs = 39 + length active + length pending + length zs"
    and enc: "length (enc_fd_component (ct, active, pending)) = 39 + length active + length pending"
    by (simp_all add: bs_def enc_fd_component_def len(4,5))
  show ?thesis
    unfolding bs_def [symmetric] decode_get_firmware_parameters_comp_resp_def sizeof_component_parameter_table_def
      enc at words parts
    using size nz strings
    by (simp add: n Let_def known_component_def inv_component_properties_def low_half_mask)
qed

lemma components_unpacked:
  assumes "\<forall>c \<in> set cs. wf_fd_component c"
  shows "unpack_comp_loop (length cs) found (concat (map enc_fd_component cs) @ zs) m
    = (0, fold (\<lambda>(n, c). map_assign n (known_component c))
        (zip (map (\<lambda>i. found + word_of_nat (Suc i)) [0..<length cs]) cs) m)"
  using assms
proof (induction cs arbitrary: found m)
  case (Cons c cs)
  obtain ct active pending where c: "c = (ct, active, pending)" by (cases c)
  let ?zs = "concat (map enc_fd_component cs) @ zs"
  from Cons.prems c component_decoded [of ct active pending ?zs] obtain ct' p' where
    dec: "decode_get_firmware_parameters_comp_resp (enc_fd_component c @ ?zs) = (PLDM_SUCCESS, Some (ct', Some active, p'))"
    "inv_component_properties ct' (Some active) p' = known_component c"
    "sizeof_component_parameter_table + unat (ct_active_ver_str_len ct') + unat (ct_pending_ver_str_len ct')
      = length (enc_fd_component c)" by auto
  have long: "sizeof_component_parameter_table \<le> length (enc_fd_component c)" using dec(3) by linarith
  then have "enc_fd_component c \<noteq> []" by (auto simp: sizeof_component_parameter_table_def)
  with dec long have step: "unpack_comp_loop (Suc (length cs)) found (enc_fd_component c @ ?zs) m
      = unpack_comp_loop (length cs) (found + 1) ?zs (map_assign (found + 1) (known_component c) m)"
    by (simp add: copyCompData_def Let_def)
  have "map (\<lambda>i. found + word_of_nat (Suc i)) [0..<Suc (length cs)]
      = (found + 1) # map (\<lambda>i. found + 1 + word_of_nat (Suc i)) [0..<length cs]"
    by (simp add: upt_conv_Cons map_Suc_upt [symmetric] add.assoc del: upt_Suc)
  with step Cons.IH [of "found + 1"] Cons.prems show ?case by (simp add: del: upt_Suc unpack_comp_loop.simps)
qed simp

definition known_components :: "fd_component list \<Rightarrow> comp_properties_map" where
  "known_components cs = fold (\<lambda>(n, c). map_assign n (known_component c))
     (zip (map (\<lambda>i. word_of_nat (Suc i)) [0..<length cs]) cs) []"

text \<open>They are numbered from 1.\<close>

lemma map_of_fold_assign:
  assumes "distinct (map fst kvs)"
  shows "map_of (fold (\<lambda>(k, c). map_assign k (f c)) kvs m) k
    = (case map_of kvs k of Some c \<Rightarrow> Some (f c) | None \<Rightarrow> map_of m k)"
  using assms
proof (induction kvs arbitrary: m)
  case (Cons kc kvs)
  obtain a b where kc: "kc = (a, b)" by force
  with Cons.prems have "map_of kvs a = None" by (simp add: map_of_eq_None_iff)
  with kc Cons show ?case by (cases "k = a") (auto split: option.split)
qed simp

lemma known_component_at:
  assumes "length cs < 65536" "i < length cs"
  shows "map_of (known_components cs) (word_of_nat (Suc i)) = Some (known_component (cs ! i))"
proof -
  let ?ks = "map (\<lambda>i. word_of_nat (Suc i) :: u16) [0..<length cs]"
  have small: "unat (word_of_nat (Suc i) :: u16) = Suc i" if "i < length cs" for i
    using that assms(1) by (intro unat_of_nat_u16) simp
  have "inj_on (\<lambda>i. word_of_nat (Suc i) :: u16) {0..<length cs}"
  proof (rule inj_onI)
    fix i j assume "i \<in> {0..<length cs}" "j \<in> {0..<length cs}" "(word_of_nat (Suc i) :: u16) = word_of_nat (Suc j)"
    from arg_cong [OF this(3), of unat]
    have "unat (word_of_nat (Suc i) :: u16) = unat (word_of_nat (Suc j) :: u16)" .
    moreover have "i < length cs" "j < length cs" using \<open>i \<in> _\<close> \<open>j \<in> _\<close> by simp_all
    ultimately show "i = j" using small [of i] small [of j] by simp
  qed
  then have d: "distinct (map fst (zip ?ks cs))" by (simp add: distinct_map)
  moreover have "map_of (zip ?ks cs) (word_of_nat (Suc i)) = Some (cs ! i)"
  proof (rule map_of_is_SomeI [OF d])
    show "(word_of_nat (Suc i), cs ! i) \<in> set (zip ?ks cs)"
      using assms(2) by (auto simp: set_zip intro!: exI [of _ i])
  qed
  ultimately show ?thesis unfolding known_components_def by (simp add: map_of_fold_assign)
qed

section \<open>A device that answers\<close>

definition fw_device :: "(u16 \<times> byte list) list \<Rightarrow> u32 \<Rightarrow> byte list \<Rightarrow> byte list \<Rightarrow> fd_component list
    \<Rightarrow> byte list \<Rightarrow> byte list" where
  "fw_device ds caps active pending cs req =
     (let hdr = [req ! 0 AND 0x1F, 5, req ! 2, 0] in
      if req ! 2 = PLDM_QUERY_DEVICE_IDENTIFIERS
      then hdr @ enc32 (word_of_nat (length (concat (map enc_descriptor ds)))) @ [word_of_nat (length ds)]
           @ concat (map enc_descriptor ds)
      else hdr @ enc32 caps @ enc16 (word_of_nat (length cs)) @ [1, word_of_nat (length active)]
           @ [1, word_of_nat (length pending)] @ active @ pending @ concat (map enc_fd_component cs))"

definition wf_fd_device :: "(u16 \<times> byte list) list \<Rightarrow> byte list \<Rightarrow> byte list \<Rightarrow> fd_component list \<Rightarrow> bool" where
  "wf_fd_device ds active pending cs \<longleftrightarrow> ds \<noteq> [] \<and> length ds < 256 \<and> (\<forall>d \<in> set ds. wf_descriptor d)
   \<and> length (concat (map enc_descriptor ds)) < 2 ^ 32
   \<and> active \<noteq> [] \<and> length active < 256 \<and> length pending < 256
   \<and> cs \<noteq> [] \<and> length cs < 65536 \<and> (\<forall>c \<in> set cs. wf_fd_component c)"

lemma identifiers_decoded:
  assumes "wf_fd_device ds active pending cs" "i < 32"
  defines "bs \<equiv> concat (map enc_descriptor ds)"
  shows "decode_query_device_identifiers_resp
      (fw_device ds caps active pending cs [0x80 OR i, 5, PLDM_QUERY_DEVICE_IDENTIFIERS])
    = Some (PLDM_SUCCESS, 0, Some (word_of_nat (length bs), word_of_nat (length ds), bs))"
proof -
  have "ds \<noteq> []" "length ds < 256" "length bs < 2 ^ 32" using assms(1) by (simp_all add: wf_fd_device_def bs_def)
  then have n: "unat (word_of_nat (length bs) :: u32) = length bs" "unat (word_of_nat (length ds) :: byte) = length ds"
    by (simp_all add: unat_of_nat_u32)
  have nz: "(word_of_nat (length ds) :: byte) \<noteq> 0"
  proof
    assume "(word_of_nat (length ds) :: byte) = 0"
    then have "length ds = 0" using n(2) by simp
    with \<open>ds \<noteq> []\<close> show False by simp
  qed
  from \<open>ds \<noteq> []\<close> obtain d ds' where ds: "ds = d # ds'" by (cases ds) auto
  then have "wf_descriptor d" using assms(1) by (simp add: wf_fd_device_def)
  then have "5 \<le> length (enc_descriptor d)" by (cases d) (auto simp: wf_descriptor_def enc_descriptor_pair Suc_le_eq)
  then have five: "5 \<le> length bs" by (simp add: bs_def ds)
  define msg where "msg = [i, 5, PLDM_QUERY_DEVICE_IDENTIFIERS, 0] @ enc32 (word_of_nat (length bs)) @ [word_of_nat (length ds)] @ bs"
  have dev: "fw_device ds caps active pending cs [0x80 OR i, 5, PLDM_QUERY_DEVICE_IDENTIFIERS] = msg"
    using assms(2) by (simp add: fw_device_def msg_def bs_def)
  have at: "read32 msg 4 = word_of_nat (length bs)" "msg ! 8 = word_of_nat (length ds)" "drop 9 msg = bs"
    "length msg = 9 + length bs" "payload_at msg 0 = Some 0"
    by (simp_all add: msg_def read_enc nth_append payload_at_def)
  show ?thesis
    unfolding dev decode_query_device_identifiers_resp_def at using five nz by (simp add: n)
qed

definition set_properties :: "u32 \<Rightarrow> byte list \<Rightarrow> byte list \<Rightarrow> fd_component list \<Rightarrow> fwu_properties" where
  "set_properties caps active pending cs = fwuProperties (copyCompImgSetData
     \<lparr> fp_capabilities_during_update = caps, fp_comp_count = word_of_nat (length cs),
       fp_active_ver_str_len = 0, fp_pending_ver_str_len = 0 \<rparr>
     (Some active) (if pending = [] then None else Some pending) (FWInventoryInfo_ctor 0 0))"

lemma parameters_decoded:
  fixes caps :: u32
  assumes "wf_fd_device ds active pending cs" "i < 32"
  defines "msg \<equiv> fw_device ds caps active pending cs [0x80 OR i, 5, PLDM_GET_FIRMWARE_PARAMETERS]"
  shows "decode_get_firmware_parameters_comp_img_set_resp msg
      = (PLDM_SUCCESS, Some (\<lparr> fp_capabilities_during_update = caps, fp_comp_count = word_of_nat (length cs),
           fp_active_ver_str_len = word_of_nat (length active), fp_pending_ver_str_len = word_of_nat (length pending) \<rparr>,
         Some active, if pending = [] then None else Some pending))"
    and "length msg \<ge> 14 + length active + length pending"
    and "drop (14 + length active + length pending) msg = concat (map enc_fd_component cs)"
proof -
  have len: "active \<noteq> []" "length active < 256" "length pending < 256" "cs \<noteq> []" "length cs < 65536"
    using assms(1) by (simp_all add: wf_fd_device_def)
  have n: "unat (word_of_nat (length active) :: byte) = length active"
    "unat (word_of_nat (length pending) :: byte) = length pending"
    "unat (word_of_nat (length cs) :: u16) = length cs" using len by simp_all
  have nz: "(word_of_nat (length active) :: byte) \<noteq> 0" "(word_of_nat (length cs) :: u16) \<noteq> 0"
    using n(1,3) len(1,4) by (metis length_0_conv unat_0)+
  have msg: "msg = [i, 5, 2, 0] @ enc32 caps @ enc16 (word_of_nat (length cs)) @ [1, word_of_nat (length active)]
           @ [1, word_of_nat (length pending)] @ active @ pending @ concat (map enc_fd_component cs)"
    using assms(2) by (simp add: msg_def fw_device_def PLDM_QUERY_DEVICE_IDENTIFIERS_def PLDM_GET_FIRMWARE_PARAMETERS_def)
  have at: "msg ! 3 = 0" "msg ! 11 = word_of_nat (length active)" "msg ! 13 = word_of_nat (length pending)"
    "read32 msg 4 = caps" "read16 msg 8 = word_of_nat (length cs)"
    by (simp_all add: msg nth_append read_enc)
  have d: "drop 14 msg = active @ pending @ concat (map enc_fd_component cs)" by (simp add: msg)
  then have d2: "drop (14 + length active) msg = pending @ concat (map enc_fd_component cs)"
    by (metis add.commute append_eq_conv_conj drop_drop)
  then show d3: "drop (14 + length active + length pending) msg = concat (map enc_fd_component cs)"
    by (metis add.commute append_eq_conv_conj drop_drop)
  have "length msg = 14 + length active + length pending + length (concat (map enc_fd_component cs))"
    by (simp add: msg)
  then show long: "length msg \<ge> 14 + length active + length pending" by linarith
  have strings: "take (length active) (drop 14 msg) = active" "take (length pending) (drop (14 + length active) msg) = pending"
    by (simp_all add: d d2)
  have "\<not> length msg - 3 < 11" "\<not> length msg - 3 < 11 + length active + length pending" using long by linarith+
  then show "decode_get_firmware_parameters_comp_img_set_resp msg
      = (PLDM_SUCCESS, Some (\<lparr> fp_capabilities_during_update = caps, fp_comp_count = word_of_nat (length cs),
           fp_active_ver_str_len = word_of_nat (length active), fp_pending_ver_str_len = word_of_nat (length pending) \<rparr>,
         Some active, if pending = [] then None else Some pending))"
    unfolding decode_get_firmware_parameters_comp_img_set_resp_def at n Let_def strings using nz by simp
qed

text \<open>The other coroutines keep the name of the device a text, if it has one.\<close>

definition named :: "tid \<Rightarrow> fwu_devices \<Rightarrow> bool" where
  "named t s \<longleftrightarrow> getInventoryName t s \<noteq> None"

definition keeps_name :: "tid \<Rightarrow> fwu_devices world \<Rightarrow> bool" where
  "keeps_name t w \<longleftrightarrow> (\<forall>cs c s. named t s \<longrightarrow> named t (fst (w cs c s)))"

lemma named_cong: "terminusFRUProperties s' = terminusFRUProperties s \<Longrightarrow> named t s' = named t s"
  by (simp add: named_def getInventoryName_def getFruProperty_def)

lemma named_wait:
  assumes "keeps_name t w" "named t s"
  shows "named t (snd (wait_for w c s))"
proof (cases "w (calls s) c s")
  case (Pair s1 r)
  with assms have "named t s1" unfolding keeps_name_def by (metis fst_conv)
  then have "named t (s1\<lparr>calls := calls s @ [c]\<rparr>)" by (subst named_cong) simp_all
  with Pair show ?thesis by (simp add: wait_for_def)
qed

lemma device_exchange:
  assumes "answering w dev" "keeps_name t w" "getMappedEID t (tidMap s) = Some d" "\<not> rsvBWActive s" "named t s"
    and "\<And>i. i < 32 \<Longrightarrow> \<exists>ys. dev [0x80 OR i, 5, c] = i # 5 # c # ys"
  obtains i s1 s2 where "createInstanceId_pldm t s = (i, s1)" "i < 32"
    "sendReceivePldmMessage w t 100 3 [0x80 OR i, 5, c] [] None s1 = Some (True, dev [0x80 OR i, 5, c], s2)"
    "reachable_still s2 s" "named t s2"
proof -
  obtain i s1 where i: "createInstanceId_pldm t s = (i, s1)" by force
  note s1 = instance_reachable [OF i]
  have at: "getMappedEID t (tidMap s1) = Some d" "\<not> rsvBWActive s1"
    using s1 assms(3,4) by (auto simp: reachable_still_def)
  have same: "terminusFRUProperties s1 = terminusFRUProperties s"
    using i by (auto simp: createInstanceId_pldm_def Let_def)
  have n1: "named t s1" unfolding named_cong [OF same] by (rule assms(5))
  from assms(6) [OF conjunct2 [OF s1]] obtain ys where "dev [0x80 OR i, 5, c] = i # 5 # c # ys" by (rule exE)
  from answered_exchange [OF assms(1) at conjunct2 [OF s1] refl this] obtain s2 where
    s2: "sendReceivePldmMessage w t 100 3 [0x80 OR i, 5, c] [] None s1 = Some (True, dev [0x80 OR i, 5, c], s2)"
    "reachable_still s2 s1" by blast
  have "named t s1 \<longrightarrow> named t s2"
    by (rule sendReceive_rel [where R = "\<lambda>a b. named t a \<longrightarrow> named t b", OF _ _ _ s2(1)])
       (simp_all add: named_wait [OF assms(2)])
  with n1 have "named t s2" by simp
  from that [OF i conjunct2 [OF s1] s2(1) reachable_trans [OF s2(2) conjunct1 [OF s1]] this] show thesis .
qed

lemma device_answer:
  "i < 32 \<Longrightarrow> \<exists>ys. fw_device ds caps active pending cs [0x80 OR i, 5, c] = i # 5 # c # ys"
  by (simp add: fw_device_def Let_def)

lemma identifiers_queried:
  assumes "answering w (fw_device ds caps active pending cs)" "keeps_name t w" "wf_fd_device ds active pending cs"
    and "getMappedEID t (tidMap s) = Some d" "\<not> rsvBWActive s" "named t s"
    and "inv_tid fi = t" "fd_descriptors fi = []"
  obtains s' where "runQueryDeviceIdentifiers w fi s = Some (PLDM_SUCCESS,
      fi\<lparr>initialDescriptorType := fst (hd ds), fd_descriptors := descriptors_of ds\<rparr>, s')"
    "reachable_still s' s" "named t s'"
proof -
  let ?dev = "fw_device ds caps active pending cs"
  let ?c = PLDM_QUERY_DEVICE_IDENTIFIERS
  obtain i s1 s2 where ex: "createInstanceId_pldm t s = (i, s1)" "i < 32"
    "sendReceivePldmMessage w t 100 3 [0x80 OR i, 5, ?c] [] None s1 = Some (True, ?dev [0x80 OR i, 5, ?c], s2)"
    "reachable_still s2 s" "named t s2"
    using device_exchange [OF assms(1,2,4-6) device_answer] by metis
  have enc: "encode_query_device_identifiers_req i 0 = Inr [0x80 OR i, 5, ?c]"
    using ex(2) by (simp add: encode_query_device_identifiers_req_def header_req_fwu)
  have ds: "ds \<noteq> []" "length ds < 256" "\<forall>d \<in> set ds. wf_descriptor d"
    "length (concat (map enc_descriptor ds)) < 2 ^ 32" using assms(3) by (simp_all add: wf_fd_device_def)
  have n: "unat (word_of_nat (length (concat (map enc_descriptor ds))) :: u32) = length (concat (map enc_descriptor ds))"
    using ds(4) by (intro unat_of_nat_u32) simp
  have "runQueryDeviceIdentifiers w fi s = Some (PLDM_SUCCESS,
      fi\<lparr>initialDescriptorType := fst (hd ds), fd_descriptors := descriptors_of ds\<rparr>, s2)"
    unfolding runQueryDeviceIdentifiers_def assms(7) ex(1) prod.case enc sum.case ex(3)
    using identifiers_decoded [OF assms(3) ex(2), of caps] unpackDescriptors_enc [OF ds(3,2)] ds(1)
    by (simp add: n assms(8) del: length_concat)
  from that [OF this ex(4,5)] show thesis .
qed

lemma parameters_queried:
  assumes "answering w (fw_device ds caps active pending cs)" "keeps_name t w" "wf_fd_device ds active pending cs"
    and "getMappedEID t (tidMap s) = Some d" "\<not> rsvBWActive s" "named t s"
    and "inv_tid fi = t" "fwuProperties fi = []" "compPropertiesMap fi = []"
  obtains fi' s' where "runGetFirmwareParameters w fi s = Some (PLDM_SUCCESS, fi', s')"
    "fwuProperties fi' = set_properties caps active pending cs" "compPropertiesMap fi' = known_components cs"
    "fd_descriptors fi' = fd_descriptors fi" "inv_tid fi' = t" "named t s'"
proof -
  let ?dev = "fw_device ds caps active pending cs"
  let ?c = PLDM_GET_FIRMWARE_PARAMETERS
  obtain i s1 s2 where ex: "createInstanceId_pldm t s = (i, s1)" "i < 32"
    "sendReceivePldmMessage w t 100 3 [0x80 OR i, 5, ?c] [] None s1 = Some (True, ?dev [0x80 OR i, 5, ?c], s2)"
    "reachable_still s2 s" "named t s2"
    using device_exchange [OF assms(1,2,4-6) device_answer] by metis
  have enc: "encode_get_firmware_parameters_req i 0 = Inr [0x80 OR i, 5, ?c]"
    using ex(2) by (simp add: encode_get_firmware_parameters_req_def header_req_fwu)
  have wf: "length active < 256" "length pending < 256" "length cs < 65536" "\<forall>c \<in> set cs. wf_fd_component c"
    using assms(3) by (simp_all add: wf_fd_device_def)
  note dec = parameters_decoded [OF assms(3) ex(2), of caps]
  have unpacked: "unpack_comp_loop (length cs) 0 (concat (map enc_fd_component cs)) [] = (0, known_components cs)"
    using components_unpacked [OF wf(4), of 0 "[]" "[]"] by (simp add: known_components_def)
  have "\<exists>fi'. runGetFirmwareParameters w fi s = Some (PLDM_SUCCESS, fi', s2)
    \<and> fwuProperties fi' = set_properties caps active pending cs \<and> compPropertiesMap fi' = known_components cs
    \<and> fd_descriptors fi' = fd_descriptors fi \<and> inv_tid fi' = t"
    unfolding runGetFirmwareParameters_def assms(7) ex(1) prod.case enc sum.case ex(3)
    using dec wf unpacked
    by (simp add: Let_def unpackCompData_def copyCompImgSetData_def set_properties_def FWInventoryInfo_ctor_def
        assms(7-9) not_less)
  with that ex(5) show thesis by blast
qed

lemma keeps_tid:
  shows "inv_tid (add_components path comps fi) = inv_tid fi"
    and "inv_tid (addCompDataToDBus fi) = inv_tid fi"
    and "inv_tid (addDescriptorsToDBus fi) = inv_tid fi"
    and "inv_tid (addCompImgSetDataToDBus fi) = inv_tid fi"
proof -
  show *: "inv_tid (add_components path comps fi) = inv_tid fi" for path comps fi
    by (induction path comps fi rule: add_components.induct) (auto split: option.split)
  show "inv_tid (addCompDataToDBus fi) = inv_tid fi" by (simp add: addCompDataToDBus_def *)
  show "inv_tid (addDescriptorsToDBus fi) = inv_tid fi" "inv_tid (addCompImgSetDataToDBus fi) = inv_tid fi"
    by (simp_all add: addDescriptorsToDBus_def addPCIDescriptorsToDBus_def addCompImgSetDataToDBus_def addInterface_def Let_def)
qed

text \<open>
  C22: A device that answers the inventory queries is known afterwards with what it said: \<open>fwuInit\<close>
  succeeds; the descriptors are those of the device, every component is there under its number
  with its parameters (of its capabilities the lower 16 bits), and every update package with
  these descriptors matches the device. The other coroutines may do anything meanwhile that leaves the
  terminus reachable and its name a text.
\<close>
theorem answering_device_is_known:
  assumes "answering w (fw_device ds caps active pending cs)" "keeps_name t w" "wf_fd_device ds active pending cs"
    and "getMappedEID t (tidMap s) = Some d" "\<not> rsvBWActive s" "named t s"
  shows "\<exists>s' comps. fwuInit w uninit t s = Some (True, s')
    \<and> map_of (fwu_termini s') t = Some (set_properties caps active pending cs, descriptors_of ds, comps)
    \<and> (\<forall>i < length cs. map_of comps (word_of_nat (Suc i)) = Some (known_component (cs ! i)))
    \<and> (rcd, t) \<in> set (matchedTermini (snd (findMatchedTerminus (fwu_termini s') rcd (descriptors_of ds) img)))"
proof -
  let ?s = "initializeFWUBase s"
  let ?fi = "FWInventoryInfo_ctor t uninit"
  have at: "getMappedEID t (tidMap ?s) = Some d" "\<not> rsvBWActive ?s"
    using assms(4,5) by (simp_all add: initializeFWUBase_def)
  have "named t ?s" using assms(6) by (subst named_cong) (simp_all add: initializeFWUBase_def)
  moreover have fi: "inv_tid ?fi = t" "fd_descriptors ?fi = []" by (simp_all add: FWInventoryInfo_ctor_def)
  ultimately obtain s1 where s1: "runQueryDeviceIdentifiers w ?fi ?s = Some (PLDM_SUCCESS,
      ?fi\<lparr>initialDescriptorType := fst (hd ds), fd_descriptors := descriptors_of ds\<rparr>, s1)"
    "reachable_still s1 ?s" "named t s1"
    using identifiers_queried [OF assms(1-3) at] by metis
  let ?fi1 = "?fi\<lparr>initialDescriptorType := fst (hd ds), fd_descriptors := descriptors_of ds\<rparr>"
  have at1: "getMappedEID t (tidMap s1) = Some d" "\<not> rsvBWActive s1"
    using at s1(2) by (simp_all add: reachable_still_def)
  have fi1: "inv_tid ?fi1 = t" "fwuProperties ?fi1 = []" "compPropertiesMap ?fi1 = []"
    "fd_descriptors ?fi1 = descriptors_of ds" by (simp_all add: FWInventoryInfo_ctor_def)
  from parameters_queried [OF assms(1-3) at1 s1(3) fi1(1-3)] obtain fi2 s2 where
    s2: "runGetFirmwareParameters w ?fi1 s1 = Some (PLDM_SUCCESS, fi2, s2)"
    "fwuProperties fi2 = set_properties caps active pending cs" "compPropertiesMap fi2 = known_components cs"
    "fd_descriptors fi2 = fd_descriptors ?fi1" "inv_tid fi2 = t" "named t s2" by blast
  let ?fd = "(set_properties caps active pending cs, descriptors_of ds, known_components cs)"
  have inventory: "runInventoryCommands w ?fi ?s = Some (Some ?fd, fi2, s2)"
    using s1(1) s2(1-4) fi1(4) by (simp add: runInventoryCommands_def)
  have tid: "inv_tid (addCompDataToDBus (addDescriptorsToDBus (addCompImgSetDataToDBus fi2))) = t"
    using s2(5) by (simp add: keeps_tid)
  have "addInventoryInfoToDBus s2 fi2 \<noteq> None"
    using s2(6) tid unfolding addInventoryInfoToDBus_def addFirmwareInventoryToDBus_def named_def by (auto simp: Let_def)
  then obtain fi3 where fi3: "addInventoryInfoToDBus s2 fi2 = Some fi3" by blast
  obtain s3 where s3: "fwuInit w uninit t s = Some (True, s3)" "map_of (fwu_termini s3) t = Some ?fd"
    using inventory fi3 by (simp add: fwuInit_def Let_def)
  have "(t, ?fd) \<in> set (fwu_termini s3)" using s3(2) by (rule map_of_SomeD)
  then have "(rcd, t) \<in> set (matchedTermini (snd (findMatchedTerminus (fwu_termini s3) rcd (descriptors_of ds) img)))"
    by (force simp: findMatchedTerminus_def Let_def image_iff)
  moreover have "\<forall>i < length cs. map_of (known_components cs) (word_of_nat (Suc i)) = Some (known_component (cs ! i))"
    using assms(3) by (intro allI impI known_component_at) (simp add: wf_fd_device_def)
  ultimately show ?thesis using s3 by blast
qed

definition example_component :: fd_component where
  "example_component = (\<lparr> ct_classification = 10, ct_identifier = 7, ct_classification_index = 0,
     ct_active_comparison_stamp = 1, ct_active_ver_str_len = 3, ct_active_release_date = replicate 8 0,
     ct_pending_comparison_stamp = 0, ct_pending_ver_str_len = 0, ct_pending_release_date = replicate 8 0,
     ct_activation_methods = 1, ct_capabilities_during_update = 0x10001 \<rparr>, [0x31, 0x2E, 0x30], [])"

abbreviation example_fw_device :: "byte list \<Rightarrow> byte list" where
  "example_fw_device \<equiv> fw_device [(pciVendorID, [0x86, 0x80])] 0 [0x31] [] [example_component]"

definition example_fw_world :: "fwu_devices world" where
  "example_fw_world cs c s = (s, \<lparr> a_error = False, a_rc = 0, a_bytes = (case c of
     SendReceive d tm p \<Rightarrow> 1 # example_fw_device (tl p) | _ \<Rightarrow> []) \<rparr>)"

theorem answering_device_is_known_witness:
  "\<exists>s' fd comps. fwuInit example_fw_world 0 5 (fwu_devices_start\<lparr>tidMap := [(5, 9)]\<rparr>) = Some (True, s')
    \<and> map_of (fwu_termini s') 5 = Some fd \<and> snd (snd fd) = comps
    \<and> map_of comps 1 = Some (known_component example_component)"
proof -
  let ?s = "fwu_devices_start\<lparr>tidMap := [(5, 9)]\<rparr>"
  have "answering example_fw_world example_fw_device" "keeps_name 5 example_fw_world"
    by (simp_all add: answering_def keeps_name_def example_fw_world_def)
  moreover have "wf_fd_device [(pciVendorID, [0x86, 0x80])] [0x31] [] [example_component]"
    by (simp add: wf_fd_device_def wf_descriptor_def enc_descriptor_pair wf_fd_component_def example_component_def)
  moreover have "getMappedEID 5 (tidMap ?s) = Some 9" "\<not> rsvBWActive ?s" "named 5 ?s"
    by (simp_all add: getMappedEID_def fwu_devices_start_def fwu_devices.defs fru_state.defs pldm.defs pldm_start_def
        named_def getInventoryName_def getFruProperty_def)
  ultimately obtain s' comps where
    "fwuInit example_fw_world 0 5 ?s = Some (True, s')"
    "map_of (fwu_termini s') 5 = Some (set_properties 0 [0x31] [] [example_component],
       descriptors_of [(pciVendorID, [0x86, 0x80])], comps)"
    "\<forall>i < length [example_component]. map_of comps (word_of_nat (Suc i)) = Some (known_component ([example_component] ! i))"
    using answering_device_is_known by blast
  then show ?thesis by auto
qed

text \<open>
  Bit 0 of the capabilities of a component says that the device applies it by itself; it is the bit
  that the mask leaves out. Bits above the sixteenth never arrive.
\<close>

lemma auto_apply_ignores_bit_0: "\<not> getCompAutoApply 1" "getCompAutoApply 2"
  by (simp_all add: getCompAutoApply_def)

lemma upper_capabilities_are_lost:
  assumes "wf_fd_component (ct, active, pending)"
  shows "\<exists>ct' a p. decode_get_firmware_parameters_comp_resp (enc_fd_component (ct, active, pending))
      = (PLDM_SUCCESS, Some (ct', a, p))
    \<and> map_of (inv_component_properties ct' a p) ''CapabilitiesDuringUpdate''
      = Some (V_bits32 (ct_capabilities_during_update ct AND 0xFFFF))"
proof -
  obtain ct' p where ct': "decode_get_firmware_parameters_comp_resp (enc_fd_component (ct, active, pending))
      = (PLDM_SUCCESS, Some (ct', Some active, p))"
    "inv_component_properties ct' (Some active) p = known_component (ct, active, pending)"
    using component_decoded [OF assms, of "[]"] by auto
  have "map_of (known_component (ct, active, pending)) ''CapabilitiesDuringUpdate''
      = Some (V_bits32 (ct_capabilities_during_update ct AND 0xFFFF))"
    by (simp add: known_component_def inv_component_properties_def put_all_def del: map_assign.simps)
  with ct' show ?thesis by auto
qed

section \<open>The devices\<close>

text \<open>What is announced as software that can be updated.\<close>

definition announced :: "(tid \<times> string) list \<Rightarrow> (string \<times> string \<times> string) list" where
  "announced paths = rev (map (\<lambda>p. (''updateable'', ''software_version'', snd p)) paths)"

definition fwu_inv :: "fwu_devices \<Rightarrow> bool" where
  "fwu_inv s \<longleftrightarrow> smap (fwu_termini s) \<and> smap (inventoryPaths s)
   \<and> dom (map_of (fwu_termini s)) = dom (map_of (inventoryPaths s))
   \<and> dom (map_of (fwuIface s)) = dom (map_of (inventoryPaths s))
   \<and> (fwuBaseInitialized s \<longrightarrow> associations s \<noteq> None)
   \<and> (inventoryPaths s \<noteq> [] \<longrightarrow> fwuBaseInitialized s \<and> associations s = Some (announced (inventoryPaths s)))"

lemma update_associations:
  "updateAssociationsProperty s = (if associations s = None then s
     else s\<lparr>associations := Some (announced (inventoryPaths s))\<rparr>)"
proof -
  have "fold (\<lambda>(t, path) assoc. (''updateable'', ''software_version'', path) # assoc) paths acc
      = announced paths @ acc" for paths :: "(tid \<times> string) list" and acc
    by (induction paths arbitrary: acc) (auto simp: announced_def)
  then show ?thesis by (simp add: updateAssociationsProperty_def)
qed

definition keeps_updatable :: "fwu_devices world \<Rightarrow> bool" where
  "keeps_updatable w \<longleftrightarrow> (\<forall>cs c s. fwu_inv s \<longrightarrow> fwu_inv (fst (w cs c s))
     \<and> (fwuBaseInitialized s \<longrightarrow> fwuBaseInitialized (fst (w cs c s))))"

definition running :: "fwu_devices \<Rightarrow> bool" where
  "running s \<longleftrightarrow> fwu_inv s \<and> fwuBaseInitialized s"

lemma fwu_inv_cong:
  "fwu_termini s' = fwu_termini s \<Longrightarrow> inventoryPaths s' = inventoryPaths s \<Longrightarrow> fwuIface s' = fwuIface s
   \<Longrightarrow> fwuBaseInitialized s' = fwuBaseInitialized s \<Longrightarrow> associations s' = associations s
   \<Longrightarrow> fwu_inv s' = fwu_inv s"
  by (simp add: fwu_inv_def)

lemma running_wait:
  assumes "keeps_updatable w" "running s"
  shows "running (snd (wait_for w c s))"
proof (cases "w (calls s) c s")
  case (Pair s1 r)
  with assms have "fwu_inv s1 \<and> fwuBaseInitialized s1"
    unfolding keeps_updatable_def running_def by (metis fst_conv)
  moreover have "fwu_inv (s1\<lparr>calls := calls s @ [c]\<rparr>) = fwu_inv s1" by (rule fwu_inv_cong) simp_all
  ultimately show ?thesis using Pair by (simp add: wait_for_def running_def)
qed

lemma running_exchange:
  assumes "keeps_updatable w" "running s"
  shows "always (\<lambda>r. running (snd (snd r))) (sendReceivePldmMessage w t tm k req [] None s)"
proof -
  have "running s \<longrightarrow> running s'" if "sendReceivePldmMessage w t tm k req [] None s = Some (ok, resp, s')" for ok resp s'
    by (rule sendReceive_rel [where R = "\<lambda>a b. running a \<longrightarrow> running b", OF _ _ _ that])
       (simp_all add: running_wait [OF assms(1)])
  with assms(2) show ?thesis by (auto simp: always_def)
qed

lemma running_instance:
  assumes "running s" "createInstanceId_pldm t s = (i, s')"
  shows "running s'"
proof -
  have "fwu_inv (snd (createInstanceId_pldm t s)) = fwu_inv s"
    by (rule fwu_inv_cong) (simp_all add: createInstanceId_pldm_def Let_def)
  moreover have "fwuBaseInitialized (snd (createInstanceId_pldm t s)) = fwuBaseInitialized s"
    by (simp add: createInstanceId_pldm_def Let_def)
  ultimately show ?thesis using assms by (simp add: running_def)
qed

lemma running_inventory:
  assumes "keeps_updatable w" "running s"
  shows "always (\<lambda>r. running (snd (snd r))) (runInventoryCommands w fi s)"
proof -
  note ex = always_bind [OF running_exchange [OF assms(1) running_instance]]
  have q: "always (\<lambda>r. running (snd (snd r))) (runQueryDeviceIdentifiers w fi s)" if "running s" for fi s
    unfolding runQueryDeviceIdentifiers_def using that
    by (auto split: prod.splits sum.splits option.splits intro: running_instance intro!: ex
        always_any [where m = "decode_query_device_identifiers_resp x" for x])
  have g: "always (\<lambda>r. running (snd (snd r))) (runGetFirmwareParameters w fi s)" if "running s" for fi s
    unfolding runGetFirmwareParameters_def using that
    by (auto simp: Let_def split: prod.splits sum.splits option.splits intro: running_instance intro!: ex)
  show ?thesis unfolding runInventoryCommands_def
    by (auto intro!: always_bind [OF q] always_bind [OF g] assms(2))
qed

lemma initialized: "fwu_inv s \<Longrightarrow> running (initializeFWUBase s)"
  by (auto simp: initializeFWUBase_def running_def fwu_inv_def)

lemma added_device:
  assumes "running s"
  shows "fwu_inv ((updateAssociationsProperty (s\<lparr>fwuIface := unordered_emplace t ifaces (fwuIface s),
      inventoryPaths := map_emplace t path (inventoryPaths s)\<rparr>))\<lparr>fwu_termini := map_assign t fd (fwu_termini s)\<rparr>)"
proof -
  have "fwu_inv s" "fwuBaseInitialized s" "associations s \<noteq> None" using assms by (auto simp: running_def fwu_inv_def)
  then show ?thesis
    unfolding fwu_inv_def update_associations by (simp add: smap_assign smap_emplace fru_doms)
qed

lemma inv_fwuInit:
  assumes "keeps_updatable w" "fwu_inv s"
  shows "always (\<lambda>r. fwu_inv (snd r)) (fwuInit w uninit t s)"
proof -
  have same: "fwu_termini (updateAssociationsProperty s) = fwu_termini s" for s
    by (simp add: updateAssociationsProperty_def)
  have added: "fwu_inv ((updateAssociationsProperty (s1\<lparr>fwuIface := unordered_emplace t ifaces (fwuIface s1),
      inventoryPaths := map_emplace t path (inventoryPaths s1)\<rparr>))\<lparr>fwu_termini := map_assign t fd
        (fwu_termini (updateAssociationsProperty (s1\<lparr>fwuIface := unordered_emplace t ifaces (fwuIface s1),
      inventoryPaths := map_emplace t path (inventoryPaths s1)\<rparr>)))\<rparr>)" if "running s1" for s1 ifaces path fd
    using added_device [OF that] by (simp add: same)
  have "fwu_inv s1" if "running s1" for s1 using that by (simp add: running_def)
  then show ?thesis
    unfolding fwuInit_def Let_def
    by (auto split: option.split intro!: always_bind [OF running_inventory [OF assms(1) initialized [OF assms(2)]]]
        always_any [where m = "addInventoryInfoToDBus x y" for x y] added)
qed

lemma deleted_fw_device:
  assumes "fwu_inv s" "map_of (fwu_termini s) t \<noteq> None"
  shows "deleteFWDevice t s = (True, s\<lparr>fwu_termini := map_erase t (fwu_termini s),
      fwuIface := map_erase t (fwuIface s), inventoryPaths := map_erase t (inventoryPaths s),
      associations := Some (announced (map_erase t (inventoryPaths s)))\<rparr>)"
proof -
  have "t \<in> dom (map_of (inventoryPaths s))" "t \<in> dom (map_of (fwuIface s))" "associations s \<noteq> None"
    using assms unfolding fwu_inv_def by (auto simp: domIff)
  then show ?thesis
    using assms(2) by (auto simp: deleteFWDevice_def update_associations Let_def)
qed

lemma inv_deleteFWDevice:
  assumes "fwu_inv s"
  shows "fwu_inv (snd (deleteFWDevice t s))"
proof (cases "map_of (fwu_termini s) t = None")
  case False
  have "inventoryPaths s \<noteq> []" using assms False unfolding fwu_inv_def by (auto simp: dom_def)
  with assms show ?thesis
    unfolding deleted_fw_device [OF assms False] by (simp add: fwu_inv_def smap_erase fru_doms)
qed (use assms in \<open>simp add: deleteFWDevice_def\<close>)

text \<open>
  C23: What is kept of the devices that can be updated agrees through every initialisation and deletion,
  however other coroutines that keep it interleave: descriptors, D-Bus interfaces and inventory
  path are there for the same devices, and exactly their paths are announced as updateable
  software. Deleting a known device removes all of it, takes its path out of the announcement and
  leaves the others alone.
\<close>
theorem updatable_devices_stay_consistent:
  assumes "keeps_updatable w" "fwu_inv s"
  shows "always (\<lambda>r. fwu_inv (snd r)) (fwuInit w uninit t s)
    \<and> fwu_inv (snd (deleteFWDevice t s))
    \<and> (map_of (fwu_termini s) t \<noteq> None \<longrightarrow> (\<exists>s'. deleteFWDevice t s = (True, s')
        \<and> map_of (fwu_termini s') t = None \<and> map_of (fwuIface s') t = None \<and> map_of (inventoryPaths s') t = None
        \<and> associations s' = Some (announced (map_erase t (inventoryPaths s)))
        \<and> (\<forall>u. u \<noteq> t \<longrightarrow> map_of (fwu_termini s') u = map_of (fwu_termini s) u
             \<and> map_of (fwuIface s') u = map_of (fwuIface s) u
             \<and> map_of (inventoryPaths s') u = map_of (inventoryPaths s) u)))"
proof (intro conjI impI)
  assume known: "map_of (fwu_termini s) t \<noteq> None"
  show "\<exists>s'. deleteFWDevice t s = (True, s')
        \<and> map_of (fwu_termini s') t = None \<and> map_of (fwuIface s') t = None \<and> map_of (inventoryPaths s') t = None
        \<and> associations s' = Some (announced (map_erase t (inventoryPaths s)))
        \<and> (\<forall>u. u \<noteq> t \<longrightarrow> map_of (fwu_termini s') u = map_of (fwu_termini s) u
             \<and> map_of (fwuIface s') u = map_of (fwuIface s) u
             \<and> map_of (inventoryPaths s') u = map_of (inventoryPaths s) u)"
    unfolding deleted_fw_device [OF assms(2) known] by (simp add: map_of_erase)
qed (rule inv_fwuInit inv_deleteFWDevice assms)+

theorem updatable_devices_stay_consistent_witness:
  "fwu_inv (snd (deleteFWDevice 5 fwu_devices_start))
    \<and> always (\<lambda>r. fwu_inv (snd r)) (fwuInit example_fw_world 0 5 fwu_devices_start)"
proof -
  have "keeps_updatable example_fw_world" by (simp add: keeps_updatable_def example_fw_world_def)
  moreover have "fwu_inv fwu_devices_start"
    by (simp add: fwu_inv_def fwu_devices_start_def fwu_devices.defs fru_state.defs pldm.defs)
  ultimately show ?thesis using updatable_devices_stay_consistent [of example_fw_world fwu_devices_start 0 5] by blast
qed

end
