(* ===== verification/Spec2Isabelle.thy ===== *)
theory Spec2Isabelle
  imports Eid_Pool Device_Watcher Transmission_Props Endpoint_Registry Pcie_Props Smbus_Props Fwu_Package
    Fwu_Data Pldm_Tids Pdr_Entity_Props Pdr_Parse_Props Platform_Props Pdr_Hierarchy_Props Pdr_Manager_Props
    Fru_Device_Props Fwu_Inventory_Props
begin

text \<open>
  Verification of the PMCI stack of a baseboard management controller.

  The repository holds the daemon \<open>mctpd\<close> (MCTP over SMBus and PCIe, exposed on D-Bus),
  the PLDM daemon \<open>pldmd\<close> with the codec library \<open>libpldm\_intel\<close>, client wrappers, a
  launcher and an emulator. This development models the core of \<open>mctpd\<close>, the codecs of
  \<open>libpldm\_intel\<close>, and of \<open>pldmd\<close> the messaging, base discovery, firmware update, platform
  records and FRU support.

  Parts and theories (each theory names its source file and opens with what it models):

    \<^item> \<open>Pmci\_Prelude\<close>: byte and word types, error codes, \<open>std::map\<close> as a sorted association
      list with the interface \<open>ordered\_map\<close>, runs of a step function and the interface
      \<open>machine\<close> of a component with an invariant.
    \<^item> \<open>Eid\_Pool\<close> (mctpd/src/utils/eid\_pool.cpp): the pool of endpoint ids, refined to an
      abstract allocator with a FIFO of free ids.
    \<^item> \<open>Device\_Watcher\<close> (mctpd/src/utils/device\_watcher.cpp): the ignore list of devices that
      fail to initialise in ten successive rounds.
    \<^item> \<open>Transmission\_Queue\<close>, \<open>Transmission\_Props\<close> (mctpd/src/utils/transmission\_queue.cpp and
      the D-Bus method \<open>SendReceiveMctpMessagePayload\<close>): message tags, the FIFO of requests of
      an endpoint and the calls that wait for a response.
    \<^item> \<open>Ctrl\_Queue\<close>, \<open>Mctp\_Commands\<close>, \<open>Mctp\_Responder\<close>, \<open>Endpoint\_Registry\<close>
      (mctpd/src/MCTPBinding.cpp): the queue of outstanding control requests with its retry
      timer; the control commands as requester; the routing of received messages, the
      control handlers as responder and the registered upper layers; the registration of
      endpoints with their D-Bus objects.
    \<^item> \<open>Pcie\_Binding\<close>, \<open>Pcie\_Props\<close> (mctpd/src/PCIeBinding.cpp): the routing table of the bus
      and the discovery state of this endpoint.
    \<^item> \<open>Smbus\_Binding\<close>, \<open>Smbus\_Props\<close> (mctpd/src/SMBusBinding.cpp): the scan of the bus and its
      muxes, the device table and the rounds of discovery, the reservation of the mux with its
      timer, and the routing table that an endpoint reads from its bus owner.
    \<^item> \<open>Pldm\_Crc\<close> (libpldm\_intel/utils.c): the checksums, with the interface
      \<open>byte\_checksum\<close> of a sum that loses no information on the way.
    \<^item> \<open>Fwu\_Descriptors\<close>, \<open>Fwu\_Image\<close>, \<open>Fwu\_Package\<close> (pldmd/src/fwu\_utils.cpp and
      pldm\_fwu\_image.cpp): firmware device descriptors, the parser of the firmware update
      package, and what a package is, with the proof that the parser inverts its encoding.
    \<^item> \<open>Pldm\_Messaging\<close> (pldmd/src/pldm.cpp): the map between TIDs and EIDs, the bandwidth
      reservation, instance ids, and \<open>sendReceivePldmMessage\<close> with its retries.
    \<^item> \<open>Pldm\_Base\_Codec\<close> (libpldm\_intel/base.c), \<open>Pldm\_Discovery\<close>, \<open>Pldm\_Tids\<close>
      (pldmd/src/base.cpp, pldm.cpp): the base messages; the discovery of a terminus, the
      assignment of its TID, arrival and departure of devices; what holds of the TIDs.
    \<^item> \<open>Fwu\_Codecs\<close> (libpldm\_intel/firmware\_update.c), \<open>Fwu\_Agent\<close>, \<open>Fwu\_Transfer\<close>,
      \<open>Fwu\_Run\<close> (pldmd/src/firmware\_update.cpp): the messages and the update agent, phase by
      phase; \<open>Fwu\_Safety\<close>, \<open>Fwu\_Data\<close>, \<open>Fwu\_Scenario\<close>: the order of the phases, the data
      that are sent, and a complete run.
    \<^item> \<open>Pdr\_Repo\<close>, \<open>Pdr\_Entities\<close>, \<open>Pdr\_Parse\<close> with their properties (libpldm\_intel/pdr.c and
      the record parsers): the repository as a list of records, the tree of entities, the
      numeric sensor and effecter records.
    \<^item> \<open>Platform\_Codec\<close>, \<open>Platform\_Props\<close> (libpldm\_intel/platform.c): the messages of PLDM
      type 2 and the encoders of state records.
    \<^item> \<open>Pdr\_Fetch\<close>, \<open>Pdr\_Hierarchy\<close>, \<open>Pdr\_Manager\<close> with their properties
      (pldmd/src/pdr\_manager.cpp): fetching the repository of a terminus, the hierarchy of
      its entities with their names and object paths, and the records of its sensors and
      effecters.
    \<^item> \<open>Fru\_Codec\<close> (libpldm\_intel/fru.c), \<open>Fru\_Manager\<close> (pldmd/src/fru.cpp,
      fru\_support.cpp): the messages and tables of FRU data; fetching, checking, parsing,
      setting and deleting the table of a terminus, and its IPMI FRU. \<open>Fru\_Props\<close> holds the
      round trips, \<open>Fru\_Fetch\_Props\<close> the fetching, \<open>Fru\_Device\_Props\<close> the raw FRU and what is
      kept of the devices.
    \<^item> \<open>Fwu\_Inventory\<close>, \<open>Fwu\_Inventory\_Props\<close> (pldmd/src/fwu\_inventory.cpp with \<open>fwuInit\<close> and
      \<open>deleteFWDevice\<close>): the descriptors and components of a device that can be updated, its
      objects on D-Bus, and how such devices come and go.

  How they interact. A binding is one record; \<open>Mctp\_Responder.binding\<close> has a field for the
  state of each component of \<open>MctpBinding\<close>, and the records of the PCIe and SMBus bindings extend
  it, as the classes do. Virtual functions are the fields of the record \<open>virtual\<close>. Effects are
  explicit: every operation returns the new state; calls of \<open>mctp\_message\_tx\<close> are appended
  to logs; D-Bus objects are maps from EIDs. A coroutine that waits is split where it waits:
  the queue components give the part before and after as two functions, and the commands
  take the exchange as a parameter, which yields the response and the state that the other
  handlers leave behind, so that the theorems about them hold under every interleaving.
  In the PLDM daemon every wait is a call of a \<open>world\<close>, a function of the calls so far, the
  call and the state, which gives the answer and the state the other coroutines leave. The
  states of its components extend one another as records (\<open>pldm\<close> is the common part).
  \<open>None\<close> as the result of an operation is undefined behaviour, an uncaught exception or a
  failed assertion; errors that the code returns are values. Codecs work on lists of bytes;
  lengths are naturals, and real numbers of records stay bit patterns.

  What the lemmas show. Each state component has an invariant that all its steps keep
  (interpretations of \<open>machine\<close>, of \<open>registry\_invariant\<close> and of \<open>pcie\_invariant\<close>); the
  properties are: tags are never lost and requests never mixed up, a control exchange
  ends at most once, and one that nobody answers after the configured number of retries when the
  retry delay is a multiple of the poll interval, endpoint objects are
  consistent under any interleaving, every bridge of the routing table is asked for its own and
  tables with addresses of two bytes are read within the response, discovery follows the bus owner, a
  reservation of the mux is exclusive and held, and ends with its wait unless libmctp fails to
  leave the pull model, the device table of a bus owner is one-to-one, requester and responder of the
  same program understand each other (versions, instance ids). For the PLDM daemon: TIDs of termini
  are reserved and stay, unless a terminus with a known UUID fails to register; a response belongs to its request; an activation follows a complete
  transfer, verification and application of the component, whose data are what the device
  got; a device is known with the descriptors and components it reports, and packages for
  them match it; repository and FRU table of a terminus are fetched completely from parts and agree
  with their checksums; a repository can be walked completely exactly when no handle is used twice;
  the hierarchy has an object for exactly the reachable entities; what
  is kept of FRU devices is consistent and is read back by a reader of the IPMI format.
  The codecs round-trip and keep to the bytes of the message, with the exceptions stated.
  The conditions under which a property holds are in its text; lemmas beside it show what happens
  without them. Theorems about concrete runs record behaviour that looks unintended.

  Termination and bounds. Every loop is a total function: \<open>pcivd\_loop\<close> and
  \<open>readRoutingTable\_loop\<close> by their 8-bit counters, \<open>update\_loop\<close> (the loop over all bridges)
  by the finite number of pairs of EID and address; the loops over tables by the bytes that
  are left. Loops that wait for a device stop at the limits of the code, which are their
  fuel: 100 parts of a record or of a FRU table (\<open>record\_loop\<close>, \<open>fru\_table\_loop\<close>), 17 transfers
  of versions (\<open>versions\_loop\<close>), 101 answers with meta data (\<open>metaData\_loop\<close>), the announced
  number of records (\<open>repo\_loop\<close>), the retries of a request and the number of requests of a
  component. \<open>count\_rounds\<close> has one round for each of the 64 bits of its argument.
  \<open>shared\_names\_loop\<close> and \<open>smbus\_routing\_loop\<close> are partial functions, because they can run for
  ever; when they end is proved. Integers have the width of the code; the 64-bit message counter is assumed not to
  wrap.

  Not modelled: libmctp, the kernel and D-Bus themselves. What the code takes from the
  headers of libmctp (struct sizes, constants, accessors, encoders) is the parameter of type
  \<open>libmctp\<close>, \<open>nupcie\<close> or \<open>nusmbus\<close>; \<open>dsp0236\<close>, \<open>dsp\_pcie\<close> and \<open>dsp\_smbus\<close> give the layout of the DMTF specifications
  for concrete runs. A suspended timer is its expiry event. Log messages are left out. The
  order of an unordered container is that of insertion, and a parameter where a result
  depends on it (\<open>Pdr\_Fetch\<close>). A D-Bus interface is its path with the values that later code
  reads. Left out altogether: the system calls of the SMBus binding, which opens the bus and
  writes the idle modes of the muxes to files (the calls of \<open>setMuxIdleMode\<close> are logged); the handlers of sensors and effecters and their utilities, which poll values and
  compute in floating point; the configuration and main programs; the D-Bus client
  libraries, the emulator and the launcher.
\<close>

end
